(* ===== verification/Prelude.thy ===== *)
theory Prelude
  imports Complex_Main "HOL-Library.AList" "HOL-Library.List_Lexorder" "HOL-Library.Char_ord"
    "HOL-Library.Sublist"
begin

text \<open>
  Vocabulary shared by every component: Go's maps, strings, instants and floating-point
  numbers, the theorem collections the component proofs add to, and lemmas about them.

  \<^item> A Go map is an association list (\<open>gomap\<close>); the locale \<open>go_map\<close> states the laws the
    components use, and is interpreted on the association lists.
  \<^item> A Go string is its list of bytes.  \<open>trim_space\<close> is \<open>strings.TrimSpace\<close> (all the runes of
    \<open>unicode.IsSpace\<close>, in UTF-8); \<open>to_lower\<close> is \<open>strings.ToLower\<close> on ASCII text, and leaves
    bytes from 128 up alone (Go would also map upper-case letters outside ASCII).
  \<^item> A \<open>time.Time\<close> is the number of nanoseconds since Go's zero time (1 January of year 1,
    UTC), so \<open>IsZero\<close> is \<open>t = 0\<close>; a \<open>time.Duration\<close> is a number of nanoseconds.
  \<^item> A \<open>float64\<close> is \<open>f64\<close>: NaN, an infinity or a finite value.  Comparisons are here, the
    rounding arithmetic is in Float64.
\<close>

named_theorems go_simps "rewriting of Go maps, strings and numbers"
named_theorems inv_intros "introduction rules for component invariants"

section \<open>Go maps\<close>

type_synonym ('k, 'v) gomap = "('k \<times> 'v) list"

locale go_map =
  fixes get :: "'m \<Rightarrow> 'k \<Rightarrow> 'v option"
    and put :: "'k \<Rightarrow> 'v \<Rightarrow> 'm \<Rightarrow> 'm"
    and del :: "'k \<Rightarrow> 'm \<Rightarrow> 'm"
    and keys :: "'m \<Rightarrow> 'k list"
    and ok :: "'m \<Rightarrow> bool"
  assumes get_put: "get (put k v m) k' = (if k' = k then Some v else get m k')"
    and get_del: "ok m \<Longrightarrow> get (del k m) k' = (if k' = k then None else get m k')"
    and set_keys: "set (keys m) = {k. get m k \<noteq> None}"
    and distinct_keys: "ok m \<Longrightarrow> distinct (keys m)"
    and ok_put: "ok m \<Longrightarrow> ok (put k v m)"
    and ok_del: "ok m \<Longrightarrow> ok (del k m)"
begin

lemma size_keys: "ok m \<Longrightarrow> length (keys m) = card {k. get m k \<noteq> None}"
  using distinct_card [OF distinct_keys] set_keys by metis

lemma finite_keys: "finite {k. get m k \<noteq> None}"
  using set_keys by (metis List.finite_set)

lemma dom_put: "{k'. get (put k v m) k' \<noteq> None} = insert k {k'. get m k' \<noteq> None}"
  by (auto simp: get_put)

lemma dom_del: "ok m \<Longrightarrow> {k'. get (del k m) k' \<noteq> None} = {k'. get m k' \<noteq> None} - {k}"
  by (auto simp: get_del)

lemma size_put_new: "ok m \<Longrightarrow> get m k = None \<Longrightarrow> length (keys (put k v m)) = Suc (length (keys m))"
  using finite_keys [of m] by (simp add: size_keys ok_put dom_put del: not_None_eq)

lemma size_put_old: "ok m \<Longrightarrow> get m k \<noteq> None \<Longrightarrow> length (keys (put k v m)) = length (keys m)"
  by (simp add: size_keys ok_put dom_put insert_absorb del: not_None_eq)

lemma size_del:
  assumes "ok m" "get m k \<noteq> None"
  shows "Suc (length (keys (del k m))) = length (keys m)"
proof -
  from assms(2) have "k \<in> {k. get m k \<noteq> None}" by simp
  then have "Suc (card ({k. get m k \<noteq> None} - {k})) = card {k. get m k \<noteq> None}"
    by (rule card_Suc_Diff1 [OF finite_keys])
  with assms(1) show ?thesis by (simp only: size_keys ok_del dom_del)
qed

lemma get_fold_del:
  "ok m \<Longrightarrow> get (fold del ks m) k = (if k \<in> set ks then None else get m k) \<and> ok (fold del ks m)"
  by (induction ks arbitrary: m) (auto simp: get_del ok_del)

end

interpretation gm: go_map map_of AList.update AList.delete "map fst" "\<lambda>m. distinct (map fst m)"
proof (unfold_locales, goal_cases)
  case 3
  then show ?case by (simp add: dom_map_of_conv_image_fst [symmetric] dom_def)
qed (simp_all add: update_conv' delete_conv' distinct_update distinct_delete)

lemmas [go_simps] = update_conv' delete_conv'

text \<open>\<open>for k, v := range m { if !keep(k, v) { delete(m, k) } }\<close>\<close>

definition mprune :: "('k \<Rightarrow> 'v \<Rightarrow> bool) \<Rightarrow> ('k, 'v) gomap \<Rightarrow> ('k, 'v) gomap" where
  "mprune keep m = filter (\<lambda>(k, v). keep k v) m"

lemma map_of_mprune:
  "distinct (map fst m) \<Longrightarrow>
   map_of (mprune keep m) k = (case map_of m k of None \<Rightarrow> None | Some v \<Rightarrow> if keep k v then Some v else None)"
  by (induction m) (auto simp: mprune_def map_of_eq_None_iff split: option.splits)

lemma distinct_mprune [intro, simp]: "distinct (map fst m) \<Longrightarrow> distinct (map fst (mprune keep m))"
  by (auto simp: mprune_def distinct_map intro: inj_on_subset)

lemma set_mprune: "set (mprune keep m) = {(k, v). (k, v) \<in> set m \<and> keep k v}"
  by (auto simp: mprune_def)

lemma length_mprune_le: "length (mprune keep m) \<le> length m"
  by (simp add: mprune_def)

section \<open>Instants and floating-point numbers\<close>

type_synonym time = int
type_synonym duration = int

definition IsZero :: "time \<Rightarrow> bool" where
  "IsZero t \<longleftrightarrow> t = 0"

datatype f64 = NaN | NegInf | Fin rat | PosInf

fun f64_le :: "f64 \<Rightarrow> f64 \<Rightarrow> bool" where
  "f64_le NaN _ = False"
| "f64_le _ NaN = False"
| "f64_le NegInf _ = True"
| "f64_le _ PosInf = True"
| "f64_le (Fin a) (Fin b) = (a \<le> b)"
| "f64_le _ _ = False"

fun f64_lt :: "f64 \<Rightarrow> f64 \<Rightarrow> bool" where
  "f64_lt NaN _ = False"
| "f64_lt _ NaN = False"
| "f64_lt NegInf NegInf = False"
| "f64_lt NegInf _ = True"
| "f64_lt PosInf _ = False"
| "f64_lt _ PosInf = True"
| "f64_lt _ NegInf = False"
| "f64_lt (Fin a) (Fin b) = (a < b)"

fun IsNaN :: "f64 \<Rightarrow> bool" where
  "IsNaN NaN = True"
| "IsNaN _ = False"

lemma f64_le_refl: "\<not> IsNaN a \<Longrightarrow> f64_le a a"
  by (cases a) auto

lemma f64_lt_imp_le: "f64_lt a b \<Longrightarrow> f64_le a b"
  by (cases a; cases b) auto

lemma f64_le_trans: "f64_le a b \<Longrightarrow> f64_le b c \<Longrightarrow> f64_le a c"
  by (cases a; cases b; cases c) auto

lemma f64_not_lt: "\<not> IsNaN a \<Longrightarrow> \<not> IsNaN b \<Longrightarrow> \<not> f64_lt a b \<Longrightarrow> f64_le b a"
  by (cases a; cases b) auto

section \<open>Strings\<close>

text \<open>The runes of \<open>unicode.IsSpace\<close> as UTF-8 byte sequences.\<close>

definition space_runes :: "string list" where
  "space_runes = [[CHR 0x20], [CHR 0x09], [CHR 0x0A], [CHR 0x0B], [CHR 0x0C], [CHR 0x0D],
     [CHR 0xC2, CHR 0x85], [CHR 0xC2, CHR 0xA0], [CHR 0xE1, CHR 0x9A, CHR 0x80],
     [CHR 0xE2, CHR 0x80, CHR 0x80], [CHR 0xE2, CHR 0x80, CHR 0x81], [CHR 0xE2, CHR 0x80, CHR 0x82],
     [CHR 0xE2, CHR 0x80, CHR 0x83], [CHR 0xE2, CHR 0x80, CHR 0x84], [CHR 0xE2, CHR 0x80, CHR 0x85],
     [CHR 0xE2, CHR 0x80, CHR 0x86], [CHR 0xE2, CHR 0x80, CHR 0x87], [CHR 0xE2, CHR 0x80, CHR 0x88],
     [CHR 0xE2, CHR 0x80, CHR 0x89], [CHR 0xE2, CHR 0x80, CHR 0x8A], [CHR 0xE2, CHR 0x80, CHR 0xA8],
     [CHR 0xE2, CHR 0x80, CHR 0xA9], [CHR 0xE2, CHR 0x80, CHR 0xAF], [CHR 0xE2, CHR 0x81, CHR 0x9F],
     [CHR 0xE3, CHR 0x80, CHR 0x80]]"

lemma space_runes_nonempty: "e \<in> set space_runes \<Longrightarrow> e \<noteq> []"
  by (auto simp: space_runes_def)

text \<open>Removes every rune of \<open>es\<close> from the front, as often as one is there.\<close>

function strip :: "string list \<Rightarrow> string \<Rightarrow> string" where
  "strip es s = (case find (\<lambda>e. e \<noteq> [] \<and> prefix e s) es of
     None \<Rightarrow> s
   | Some e \<Rightarrow> strip es (drop (length e) s))"
  by pat_completeness auto
termination
  by (relation "measure (\<lambda>(es, s). length s)")
     (auto simp: find_Some_iff prefix_def)

declare strip.simps [simp del]

definition trim_space :: "string \<Rightarrow> string" where
  "trim_space s = rev (strip (map rev space_runes) (rev (strip space_runes s)))"

lemma strip_suffix: "suffix (strip es s) s"
proof (induction es s rule: strip.induct)
  case (1 es s)
  show ?case
  proof (cases "find (\<lambda>e. e \<noteq> [] \<and> prefix e s) es")
    case None
    then show ?thesis by (simp add: strip.simps)
  next
    case (Some e)
    with "1.IH" have "suffix (strip es (drop (length e) s)) (drop (length e) s)" by simp
    with Some show ?thesis
      by (simp add: strip.simps [of es s]) (meson suffix_drop suffix_order.trans)
  qed
qed

lemma strip_none: "find (\<lambda>e. e \<noteq> [] \<and> prefix e (strip es s)) es = None"
proof (induction es s rule: strip.induct)
  case (1 es s)
  then show ?case
    by (cases "find (\<lambda>e. e \<noteq> [] \<and> prefix e s) es") (simp_all add: strip.simps [of es s])
qed

lemma strip_id: "find (\<lambda>e. e \<noteq> [] \<and> prefix e s) es = None \<Longrightarrow> strip es s = s"
  by (simp add: strip.simps)

lemma strip_Nil [simp]: "strip es [] = []"
  by (rule strip_id) (auto simp: find_None_iff)

lemma trim_space_Nil [simp]: "trim_space [] = []"
  by (simp add: trim_space_def)

lemma no_prefix_take:
  assumes "find (\<lambda>e. e \<noteq> [] \<and> prefix e s) es = None" and "prefix t s"
  shows "find (\<lambda>e. e \<noteq> [] \<and> prefix e t) es = None"
  using assms by (auto simp: find_None_iff dest: prefix_order.trans)

lemma trim_space_idem [simp]: "trim_space (trim_space s) = trim_space s"
proof -
  let ?l = "strip space_runes s" and ?R = "map rev space_runes"
  have "suffix (strip ?R (rev ?l)) (rev ?l)" by (rule strip_suffix)
  then have "prefix (rev (strip ?R (rev ?l))) ?l" by (simp add: suffix_to_prefix)
  then have "strip space_runes (trim_space s) = trim_space s"
    unfolding trim_space_def by (intro strip_id no_prefix_take [OF strip_none])
  moreover have "strip ?R (rev (trim_space s)) = rev (trim_space s)"
    by (simp add: trim_space_def strip_id [OF strip_none])
  ultimately show ?thesis by (simp add: trim_space_def [of "trim_space s"])
qed

definition to_lower :: "string \<Rightarrow> string" where
  "to_lower s = map (\<lambda>c. if CHR ''A'' \<le> c \<and> c \<le> CHR ''Z'' then char_of (of_char c + (32 :: nat)) else c) s"

lemma to_lower_Nil [simp]: "to_lower [] = []"
  by (simp add: to_lower_def)

lemma length_to_lower [simp]: "length (to_lower s) = length s"
  by (simp add: to_lower_def)

definition EqualFold :: "string \<Rightarrow> string \<Rightarrow> bool" where
  "EqualFold a b \<longleftrightarrow> to_lower a = to_lower b"

fun contains :: "string \<Rightarrow> string \<Rightarrow> bool" where
  "contains [] sub = (sub = [])"
| "contains (c # s) sub = (prefix sub (c # s) \<or> contains s sub)"

text \<open>\<open>strings.Index\<close>: the first position of \<open>sub\<close>, \<open>None\<close> where Go returns -1.\<close>

fun index_of :: "string \<Rightarrow> string \<Rightarrow> nat option" where
  "index_of [] sub = (if sub = [] then Some 0 else None)"
| "index_of (c # s) sub = (if prefix sub (c # s) then Some 0 else map_option Suc (index_of s sub))"

text \<open>\<open>strings.Split\<close> on a one-byte separator.\<close>

fun split_on :: "char \<Rightarrow> string \<Rightarrow> string list" where
  "split_on sep [] = [[]]"
| "split_on sep (c # s) =
     (if c = sep then [] # split_on sep s
      else (case split_on sep s of [] \<Rightarrow> [[c]] | w # ws \<Rightarrow> (c # w) # ws))"

lemma split_on_nonempty [simp]: "split_on sep s \<noteq> []"
  by (induction s) (auto split: list.splits)

lemma split_on_word: "sep \<notin> set w \<Longrightarrow> split_on sep w = [w]"
  by (induction w) auto

lemma split_on_append: "sep \<notin> set w \<Longrightarrow> split_on sep (w @ sep # s) = w # split_on sep s"
  by (induction w) auto

text \<open>The patterns \<open>^[A-Za-z0-9][A-Za-z0-9._-]*$\<close> and \<open>^[A-Za-z_][A-Za-z0-9_]*$\<close>.\<close>

definition is_alpha :: "char \<Rightarrow> bool" where
  "is_alpha c \<longleftrightarrow> (CHR ''A'' \<le> c \<and> c \<le> CHR ''Z'') \<or> (CHR ''a'' \<le> c \<and> c \<le> CHR ''z'')"

definition is_digit :: "char \<Rightarrow> bool" where
  "is_digit c \<longleftrightarrow> CHR ''0'' \<le> c \<and> c \<le> CHR ''9''"

definition is_ident_char :: "char \<Rightarrow> bool" where
  "is_ident_char c \<longleftrightarrow> is_alpha c \<or> is_digit c \<or> c \<in> {CHR ''.'', CHR ''_'', CHR ''-''}"

fun identifierPattern :: "string \<Rightarrow> bool" where
  "identifierPattern [] = False"
| "identifierPattern (c # s) = ((is_alpha c \<or> is_digit c) \<and> list_all is_ident_char s)"

fun envNamePattern :: "string \<Rightarrow> bool" where
  "envNamePattern [] = False"
| "envNamePattern (c # s) = ((is_alpha c \<or> c = CHR ''_'')
     \<and> list_all (\<lambda>d. is_alpha d \<or> is_digit d \<or> d = CHR ''_'') s)"

lemma identifier_chars: "identifierPattern s \<Longrightarrow> c \<in> set s \<Longrightarrow> is_ident_char c"
  by (cases s) (auto simp: is_ident_char_def list_all_iff)

text \<open>No byte of an identifier is the first or last byte of a space rune.\<close>

lemma ident_not_space:
  assumes "is_ident_char c" "e \<in> set space_runes"
  shows "hd e \<noteq> c" and "last e \<noteq> c"
proof -
  have "list_all (\<lambda>e. \<not> is_ident_char (hd e) \<and> \<not> is_ident_char (last e)) space_runes" by code_simp
  then show "hd e \<noteq> c" "last e \<noteq> c" using assms by (auto simp: list_all_iff)
qed

lemma strip_ident:
  assumes "\<And>c. c \<in> set s \<Longrightarrow> is_ident_char c" and "\<And>e c. e \<in> set es \<Longrightarrow> is_ident_char c \<Longrightarrow> hd e \<noteq> c"
  shows "strip es s = s"
proof (rule strip_id, simp add: find_None_iff, safe)
  fix e assume e: "e \<in> set es" "e \<noteq> []" "prefix e s"
  then have "hd e \<in> set s" by (metis list.set_sel(1) set_mono_prefix subsetD)
  with assms e show False by blast
qed

lemma trim_space_chars:
  assumes "\<And>c. c \<in> set s \<Longrightarrow> is_ident_char c"
  shows "trim_space s = s"
proof -
  have "strip space_runes s = s"
    by (rule strip_ident [OF assms]) (auto dest: ident_not_space)
  moreover have "strip (map rev space_runes) (rev s) = rev s"
    by (rule strip_ident) (auto simp: hd_rev dest: ident_not_space assms)
  ultimately show ?thesis by (simp add: trim_space_def)
qed

lemma trim_identifier: "identifierPattern s \<Longrightarrow> trim_space s = s"
  by (rule trim_space_chars) (rule identifier_chars)

lemma identifier_no_slash: "identifierPattern s \<Longrightarrow> CHR ''/'' \<notin> set s"
  by (auto dest!: identifier_chars simp: is_ident_char_def is_alpha_def is_digit_def less_eq_char_def)

lemma identifier_nonempty: "identifierPattern s \<Longrightarrow> s \<noteq> []"
  by (cases s) auto

section \<open>Decimal numerals\<close>

fun digits :: "nat \<Rightarrow> string" where
  "digits n = (if n < 10 then [char_of (48 + n)] else digits (n div 10) @ [char_of (48 + n mod 10)])"

declare digits.simps [simp del]

definition itoa :: "int \<Rightarrow> string" where
  "itoa i = (if i < 0 then CHR ''-'' # digits (nat (- i)) else digits (nat i))"

lemma digit_char: "n < (10 :: nat) \<Longrightarrow> is_digit (char_of (48 + n))"
  by (simp add: is_digit_def less_eq_char_def)

lemma digits_digit: "c \<in> set (digits n) \<Longrightarrow> is_digit c"
proof (induction n rule: digits.induct)
  case (1 n)
  then show ?case by (auto simp: digits.simps [of n] digit_char split: if_splits)
qed

lemma digits_nonempty [simp]: "digits n \<noteq> []"
  by (subst digits.simps) simp

lemma digits_not_Nil' [simp]: "[] \<noteq> digits n"
  using digits_nonempty [of n] by metis

lemma digits_inj: "digits m = digits n \<Longrightarrow> m = n"
proof (induction m arbitrary: n rule: digits.induct)
  case (1 m)
  have inj: "a = b" if "char_of (48 + a) = (char_of (48 + b) :: char)" "a < 10" "b < 10" for a b :: nat
    using arg_cong [OF that(1), of "of_char :: char \<Rightarrow> nat"] that(2,3) by simp
  show ?case
  proof (cases "m < 10"; cases "n < 10")
    assume "m < 10" "n < 10"
    with 1(2) show ?thesis by (auto simp: digits.simps [of m] digits.simps [of n] dest: inj)
  next
    assume "m < 10" "\<not> n < 10"
    with 1(2) show ?thesis by (auto simp: digits.simps [of m] digits.simps [of n])
  next
    assume "\<not> m < 10" "n < 10"
    with 1(2) show ?thesis by (auto simp: digits.simps [of m] digits.simps [of n])
  next
    assume big: "\<not> m < 10" "\<not> n < 10"
    with 1(2) have "digits (m div 10) = digits (n div 10)"
      and m: "char_of (48 + m mod 10) = (char_of (48 + n mod 10) :: char)"
      by (auto simp: digits.simps [of m] digits.simps [of n])
    with 1(1) big have "m div 10 = n div 10" by simp
    moreover from m have "m mod 10 = n mod 10" by (rule inj) simp_all
    ultimately show ?thesis by (metis div_mult_mod_eq)
  qed
qed

lemma itoa_nonempty [simp]: "itoa i \<noteq> []"
  by (simp add: itoa_def)

section \<open>Lists\<close>

text \<open>Keeps the first occurrence of every element (a \<open>seen\<close> map and an append).\<close>

fun dedup_first :: "'a list \<Rightarrow> 'a list \<Rightarrow> 'a list" where
  "dedup_first seen [] = []"
| "dedup_first seen (x # xs) =
     (if x \<in> set seen then dedup_first seen xs else x # dedup_first (x # seen) xs)"

lemma set_dedup_first: "set (dedup_first seen xs) = set xs - set seen"
  by (induction seen xs rule: dedup_first.induct) auto

lemma distinct_dedup_first: "distinct (dedup_first seen xs)"
  by (induction seen xs rule: dedup_first.induct) (auto simp: set_dedup_first)

section \<open>Relations\<close>

text \<open>An accessible element is on no cycle.\<close>

lemma acc_no_cycle:
  assumes "x \<in> Wellfounded.acc r" shows "(x, x) \<notin> r\<^sup>+"
  using assms
proof (induction rule: acc.induct)
  case (accI x)
  show ?case
  proof
    assume "(x, x) \<in> r\<^sup>+"
    then obtain y where y: "(y, x) \<in> r" "(x, y) \<in> r\<^sup>*" by (meson tranclD2)
    then have "(y, y) \<in> r\<^sup>+" by (meson rtrancl_into_trancl2)
    with accI y(1) show False by blast
  qed
qed

end
