(* ===== verification/Inventory.thy ===== *)
theory Inventory
  imports Prelude
begin

text \<open>
  The device inventory of the collector (\<open>services/snmp-collector/internal/config/config.go\<close>):
  the device and interface-filter records, the merge of the static inventory with the managed
  overlays, and the dependency check (\<open>validateDependencies\<close>) with its depth-first cycle search.

  Nil and empty slices differ where the code tests \<open>!= nil\<close>, so \<open>dc_UpstreamDeviceIDs\<close> is an
  option: \<open>None\<close> is Go's nil slice.  The search runs on a fuel that bounds the depth of the
  recursion; \<open>visit_enough_fuel\<close> shows that one more than the number of devices is enough.
\<close>

section \<open>Records\<close>

record filter_rule =
  fr_Action :: string
  fr_IfIndex :: "int option"
  fr_NameRegex :: string
  fr_AliasRegex :: string
  fr_IfType :: string
  fr_AdminStatus :: string
  fr_OperStatus :: string

record filter_config =
  fc_Rules :: "filter_rule list"
  fc_IncludeIfIndexes :: "int list"
  fc_ExcludeIfIndexes :: "int list"
  fc_IncludeNameRegex :: "string list"
  fc_ExcludeNameRegex :: "string list"
  fc_IncludeAliasRegex :: "string list"
  fc_ExcludeAliasRegex :: "string list"
  fc_IncludeTypes :: "string list"
  fc_ExcludeTypes :: "string list"
  fc_IncludeAdminStatuses :: "string list"
  fc_ExcludeAdminStatuses :: "string list"
  fc_IncludeOperStatuses :: "string list"
  fc_ExcludeOperStatuses :: "string list"

definition empty_filters :: filter_config where
  "empty_filters = \<lparr>fc_Rules = [], fc_IncludeIfIndexes = [], fc_ExcludeIfIndexes = [],
     fc_IncludeNameRegex = [], fc_ExcludeNameRegex = [], fc_IncludeAliasRegex = [],
     fc_ExcludeAliasRegex = [], fc_IncludeTypes = [], fc_ExcludeTypes = [],
     fc_IncludeAdminStatuses = [], fc_ExcludeAdminStatuses = [],
     fc_IncludeOperStatuses = [], fc_ExcludeOperStatuses = []\<rparr>"

record device_config =
  dc_ID :: string
  dc_Host :: string
  dc_Port :: int
  dc_CommunityEnv :: string
  dc_Version :: string
  dc_Vendor :: string
  dc_PollInterval :: duration
  dc_Timeout :: duration
  dc_Retries :: int
  dc_TemperatureWarningC :: "f64 option"
  dc_Role :: string
  dc_UpstreamDeviceIDs :: "string list option"
  dc_AlertsEnabled :: "bool option"
  dc_InterfaceFilters :: filter_config

text \<open>The zero value of the struct, with an ID.\<close>

definition mk_device :: "string \<Rightarrow> device_config" where
  "mk_device i = \<lparr>dc_ID = i, dc_Host = [], dc_Port = 0, dc_CommunityEnv = [], dc_Version = [],
     dc_Vendor = [], dc_PollInterval = 0, dc_Timeout = 0, dc_Retries = 0,
     dc_TemperatureWarningC = None, dc_Role = [], dc_UpstreamDeviceIDs = None,
     dc_AlertsEnabled = None, dc_InterfaceFilters = empty_filters\<rparr>"

text \<open>Ranging over a slice sees the same elements for nil and for empty.\<close>

definition ups :: "device_config \<Rightarrow> string list" where
  "ups d = (case dc_UpstreamDeviceIDs d of None \<Rightarrow> [] | Some xs \<Rightarrow> xs)"

text \<open>\<open>append([]string(nil), xs...)\<close>: nil when there is nothing to append.\<close>

definition append_nil :: "string list \<Rightarrow> string list option" where
  "append_nil xs = (if xs = [] then None else Some xs)"

definition EffectivePollInterval :: "device_config \<Rightarrow> duration \<Rightarrow> duration" where
  "EffectivePollInterval d global = (if dc_PollInterval d > 0 then dc_PollInterval d else global)"

definition EffectiveTemperatureWarningC :: "device_config \<Rightarrow> f64 \<Rightarrow> f64" where
  "EffectiveTemperatureWarningC d global =
     (case dc_TemperatureWarningC d of Some v \<Rightarrow> v | None \<Rightarrow> global)"

definition AlertsEnabledOrDefault :: "device_config \<Rightarrow> bool" where
  "AlertsEnabledOrDefault d = (case dc_AlertsEnabled d of None \<Rightarrow> True | Some b \<Rightarrow> b)"

definition AdministrativelyIgnored :: "device_config \<Rightarrow> bool" where
  "AdministrativelyIgnored d = (\<not> AlertsEnabledOrDefault d)"

definition applyDeviceDefault :: "device_config \<Rightarrow> device_config" where
  "applyDeviceDefault d =
     (let d1 = (if dc_Port d = 0 then d\<lparr>dc_Port := 161\<rparr> else d)
      in if dc_Version d1 = [] then d1\<lparr>dc_Version := ''2c''\<rparr> else d1)"

definition applyDeviceDefaults :: "device_config list \<Rightarrow> device_config list" where
  "applyDeviceDefaults = map applyDeviceDefault"

section \<open>Overlays and the merge\<close>

definition hasInterfaceFilterConfig :: "filter_config \<Rightarrow> bool" where
  "hasInterfaceFilterConfig f \<longleftrightarrow>
     fc_Rules f \<noteq> [] \<or> fc_IncludeIfIndexes f \<noteq> [] \<or> fc_ExcludeIfIndexes f \<noteq> [] \<or>
     fc_IncludeNameRegex f \<noteq> [] \<or> fc_ExcludeNameRegex f \<noteq> [] \<or>
     fc_IncludeAliasRegex f \<noteq> [] \<or> fc_ExcludeAliasRegex f \<noteq> [] \<or>
     fc_IncludeTypes f \<noteq> [] \<or> fc_ExcludeTypes f \<noteq> [] \<or>
     fc_IncludeAdminStatuses f \<noteq> [] \<or> fc_ExcludeAdminStatuses f \<noteq> [] \<or>
     fc_IncludeOperStatuses f \<noteq> [] \<or> fc_ExcludeOperStatuses f \<noteq> []"

text \<open>
  \<open>cloneInterfaceFilters\<close> copies every slice; no code distinguishes nil from empty in these
  fields, so the copy is the same record.
\<close>

definition cloneInterfaceFilters :: "filter_config \<Rightarrow> filter_config" where
  "cloneInterfaceFilters f = \<lparr>fc_Rules = fc_Rules f,
     fc_IncludeIfIndexes = fc_IncludeIfIndexes f, fc_ExcludeIfIndexes = fc_ExcludeIfIndexes f,
     fc_IncludeNameRegex = fc_IncludeNameRegex f, fc_ExcludeNameRegex = fc_ExcludeNameRegex f,
     fc_IncludeAliasRegex = fc_IncludeAliasRegex f, fc_ExcludeAliasRegex = fc_ExcludeAliasRegex f,
     fc_IncludeTypes = fc_IncludeTypes f, fc_ExcludeTypes = fc_ExcludeTypes f,
     fc_IncludeAdminStatuses = fc_IncludeAdminStatuses f,
     fc_ExcludeAdminStatuses = fc_ExcludeAdminStatuses f,
     fc_IncludeOperStatuses = fc_IncludeOperStatuses f,
     fc_ExcludeOperStatuses = fc_ExcludeOperStatuses f\<rparr>"

definition applyDeviceOverlay :: "device_config \<Rightarrow> device_config \<Rightarrow> device_config" where
  "applyDeviceOverlay base overlay =
     (let b1 = (case dc_TemperatureWarningC overlay of
                  Some v \<Rightarrow> base\<lparr>dc_TemperatureWarningC := Some v\<rparr> | None \<Rightarrow> base);
          b2 = (case dc_UpstreamDeviceIDs overlay of
                  Some us \<Rightarrow> b1\<lparr>dc_UpstreamDeviceIDs := append_nil us\<rparr> | None \<Rightarrow> b1);
          b3 = (if trim_space (dc_Role overlay) \<noteq> []
                then b2\<lparr>dc_Role := trim_space (dc_Role overlay)\<rparr> else b2);
          b4 = (case dc_AlertsEnabled overlay of
                  Some v \<Rightarrow> b3\<lparr>dc_AlertsEnabled := Some v\<rparr> | None \<Rightarrow> b3)
      in if hasInterfaceFilterConfig (dc_InterfaceFilters overlay)
         then b4\<lparr>dc_InterfaceFilters := cloneInterfaceFilters (dc_InterfaceFilters overlay)\<rparr>
         else b4)"

text \<open>
  \<open>indexByID\<close> is filled while the static devices are appended, so a later duplicate wins;
  positions never change afterwards.
\<close>

definition static_index :: "device_config list \<Rightarrow> (string, nat) gomap" where
  "static_index statics = fold (\<lambda>(i, d) m. AList.update (dc_ID d) i m) (enumerate 0 statics) []"

fun merge_managed :: "(string, nat) gomap \<Rightarrow> device_config list \<Rightarrow> device_config list
    \<Rightarrow> device_config list" where
  "merge_managed idx merged [] = merged"
| "merge_managed idx merged (d # ds) =
     (case map_of idx (dc_ID d) of
        Some i \<Rightarrow> merge_managed idx (merged[i := applyDeviceOverlay (merged ! i) d]) ds
      | None \<Rightarrow> merge_managed idx (merged @ [d]) ds)"

definition mergeInventories :: "device_config list \<Rightarrow> device_config list \<Rightarrow> device_config list" where
  "mergeInventories statics managed = merge_managed (static_index statics) statics managed"

text \<open>The identity the static inventory is authoritative for.\<close>

definition identity_of :: "device_config \<Rightarrow> string \<times> string \<times> int \<times> string \<times> string \<times> string" where
  "identity_of d = (dc_ID d, dc_Host d, dc_Port d, dc_Version d, dc_CommunityEnv d, dc_Vendor d)"

lemma overlay_identity: "identity_of (applyDeviceOverlay b d) = identity_of b"
  by (simp add: applyDeviceOverlay_def identity_of_def Let_def split: option.splits)

lemma overlay_ups:
  "ups (applyDeviceOverlay b d) = (case dc_UpstreamDeviceIDs d of None \<Rightarrow> ups b | Some us \<Rightarrow> us)"
  by (simp add: applyDeviceOverlay_def ups_def append_nil_def Let_def split: option.splits)

lemma fold_index_lookup:
  "map_of (fold (\<lambda>(i, d) m. AList.update (dc_ID d) i m) xs m) k = Some j \<Longrightarrow>
   (\<exists>d. (j, d) \<in> set xs \<and> dc_ID d = k) \<or> map_of m k = Some j"
  by (induction xs arbitrary: m) (fastforce simp: go_simps split: if_splits)+

lemma static_index_lookup:
  assumes "map_of (static_index statics) k = Some i"
  shows "i < length statics \<and> dc_ID (statics ! i) = k"
proof -
  from fold_index_lookup [OF assms [unfolded static_index_def]]
  obtain d where "(i, d) \<in> set (enumerate 0 statics)" "dc_ID d = k" by auto
  then show ?thesis by (auto simp: in_set_enumerate_eq)
qed

lemma fold_index_dom:
  "dom (map_of (fold (\<lambda>(i, d) m. AList.update (dc_ID d) i m) xs m)) = dc_ID ` snd ` set xs \<union> dom (map_of m)"
  by (induction xs arbitrary: m) (auto simp: go_simps)

lemma dom_static_index: "dom (map_of (static_index statics)) = dc_ID ` set statics"
  by (simp add: static_index_def fold_index_dom flip: set_map)

lemma merge_managed_prefix:
  assumes "\<And>k i. map_of idx k = Some i \<Longrightarrow> i < length merged"
  shows "length merged \<le> length (merge_managed idx merged ds) \<and>
     map identity_of (take (length merged) (merge_managed idx merged ds)) = map identity_of merged"
  using assms
proof (induction idx merged ds rule: merge_managed.induct)
  case (2 idx merged d ds)
  show ?case
  proof (cases "map_of idx (dc_ID d)")
    case None
    let ?m = "merged @ [d]"
    have bound: "i < length ?m" if "map_of idx k = Some i" for k i
      using "2.prems" [OF that] by simp
    have IH: "length ?m \<le> length (merge_managed idx ?m ds) \<and>
        map identity_of (take (length ?m) (merge_managed idx ?m ds)) = map identity_of ?m"
      by (rule "2.IH"(1) [OF None bound])
    then have "map identity_of (take (length merged) (take (length ?m) (merge_managed idx ?m ds)))
        = map identity_of merged"
      by (simp only: take_map [symmetric]) simp
    with IH None show ?thesis by (simp add: min_def)
  next
    case (Some i)
    let ?m = "merged[i := applyDeviceOverlay (merged ! i) d]"
    have "map identity_of ?m = map identity_of merged"
      using "2.prems"[OF Some] by (simp add: map_update overlay_identity list_update_same_conv)
    moreover have "length ?m \<le> length (merge_managed idx ?m ds) \<and>
        map identity_of (take (length ?m) (merge_managed idx ?m ds)) = map identity_of ?m"
      using "2.prems" by (intro "2.IH"(2) [OF Some]) auto
    ultimately show ?thesis using Some by simp
  qed
qed simp

lemma merge_managed_tail:
  assumes "\<And>k i. map_of idx k = Some i \<Longrightarrow> i < length merged"
  shows "map dc_ID (merge_managed idx merged ds) =
     map dc_ID merged @ filter (\<lambda>k. map_of idx k = None) (map dc_ID ds)"
  using assms
proof (induction idx merged ds rule: merge_managed.induct)
  case (2 idx merged d ds)
  show ?case
  proof (cases "map_of idx (dc_ID d)")
    case None
    have bound: "i < length (merged @ [d])" if "map_of idx k = Some i" for k i
      using "2.prems" [OF that] by simp
    from None show ?thesis by (simp add: "2.IH"(1) [OF None bound])
  next
    case (Some i)
    have id: "dc_ID (applyDeviceOverlay (merged ! i) d) = dc_ID (merged ! i)"
      using overlay_identity [of "merged ! i" d] by (simp add: identity_of_def)
    have "map dc_ID (merged[i := applyDeviceOverlay (merged ! i) d]) = map dc_ID merged"
      using "2.prems"[OF Some] by (simp add: map_update id list_update_same_conv)
    with Some "2.prems" show ?thesis by (simp add: "2.IH"(2))
  qed
qed simp

lemma merge_ids:
  "map dc_ID (mergeInventories statics managed) =
     map dc_ID statics @ filter (\<lambda>k. k \<notin> dc_ID ` set statics) (map dc_ID managed)"
proof -
  have "(map_of (static_index statics) k = None) = (k \<notin> dc_ID ` set statics)" for k
    using dom_static_index [of statics] by (auto simp: domIff)
  then show ?thesis
    unfolding mergeInventories_def
    by (subst merge_managed_tail) (auto dest: static_index_lookup)
qed

lemma merge_identity:
  "map identity_of (take (length statics) (mergeInventories statics managed)) = map identity_of statics"
  using merge_managed_prefix [of "static_index statics" statics managed]
  by (auto simp: mergeInventories_def dest: static_index_lookup)

section \<open>Dependency validation\<close>

datatype dep_error =
    DuplicateUpstream string string
  | SelfUpstream string
  | MissingUpstream string string
  | DependencyCycle string
  | OutOfFuel

text \<open>\<open>byID[device.ID] = device\<close> for each device in turn (also \<open>buildDeviceIndex\<close> of the tracker).\<close>

definition device_index :: "device_config list \<Rightarrow> (string, device_config) gomap" where
  "device_index devices = fold (\<lambda>d m. AList.update (dc_ID d) d m) devices []"

fun check_upstreams :: "(string, device_config) gomap \<Rightarrow> string \<Rightarrow> string list \<Rightarrow> string list
    \<Rightarrow> dep_error option" where
  "check_upstreams byID i seen [] = None"
| "check_upstreams byID i seen (u # us) =
     (if u \<in> set seen then Some (DuplicateUpstream i u)
      else if u = i then Some (SelfUpstream i)
      else if map_of byID u = None then Some (MissingUpstream i u)
      else check_upstreams byID i (u # seen) us)"

fun check_references :: "(string, device_config) gomap \<Rightarrow> device_config list \<Rightarrow> dep_error option" where
  "check_references byID [] = None"
| "check_references byID (d # ds) =
     (case check_upstreams byID (dc_ID d) [] (ups d) of
        Some e \<Rightarrow> Some e
      | None \<Rightarrow> check_references byID ds)"

datatype mark = Unvisited | Visiting | Visited

text \<open>\<open>byID[id].UpstreamDeviceIDs\<close>, the zero device for a missing key.\<close>

definition upstreams_of :: "(string, device_config) gomap \<Rightarrow> string \<Rightarrow> string list" where
  "upstreams_of byID i = (case map_of byID i of None \<Rightarrow> [] | Some d \<Rightarrow> ups d)"

fun visit :: "nat \<Rightarrow> (string \<Rightarrow> string list) \<Rightarrow> string \<Rightarrow> (string \<Rightarrow> mark)
      \<Rightarrow> dep_error + (string \<Rightarrow> mark)"
  and visit_ups :: "nat \<Rightarrow> (string \<Rightarrow> string list) \<Rightarrow> string list \<Rightarrow> (string \<Rightarrow> mark)
      \<Rightarrow> dep_error + (string \<Rightarrow> mark)" where
  "visit 0 up i st = Inl OutOfFuel"
| "visit (Suc n) up i st =
     (case st i of
        Visiting \<Rightarrow> Inl (DependencyCycle i)
      | Visited \<Rightarrow> Inr st
      | Unvisited \<Rightarrow>
          (case visit_ups n up (up i) (st(i := Visiting)) of
             Inl e \<Rightarrow> Inl e
           | Inr st' \<Rightarrow> Inr (st'(i := Visited))))"
| "visit_ups n up [] st = Inr st"
| "visit_ups n up (u # us) st =
     (case visit n up u st of Inl e \<Rightarrow> Inl e | Inr st' \<Rightarrow> visit_ups n up us st')"

definition validateDependencies :: "device_config list \<Rightarrow> dep_error option" where
  "validateDependencies devices =
     (let byID = device_index devices in
      case check_references byID devices of
        Some e \<Rightarrow> Some e
      | None \<Rightarrow>
          (case visit_ups (Suc (length byID)) (upstreams_of byID) (sort (map fst byID)) (\<lambda>_. Unvisited) of
             Inl e \<Rightarrow> Some e
           | Inr _ \<Rightarrow> None))"

text \<open>The dependency graph: an edge from a device to each of its upstreams.\<close>

definition dep_graph :: "(string \<Rightarrow> string list) \<Rightarrow> (string \<times> string) set" where
  "dep_graph up = {(x, y). y \<in> set (up x)}"


definition closed_marks :: "(string \<Rightarrow> string list) \<Rightarrow> (string \<Rightarrow> mark) \<Rightarrow> bool" where
  "closed_marks up st \<longleftrightarrow> (\<forall>x. st x = Visited \<longrightarrow>
     (\<forall>y \<in> set (up x). st y = Visited) \<and> (x, x) \<notin> (dep_graph up)\<^sup>+)"

lemma closed_reach:
  assumes "(x, y) \<in> (dep_graph up)\<^sup>*" "closed_marks up st" "st x = Visited"
  shows "st y = Visited"
  using assms
  by (induction rule: rtrancl_induct) (auto simp: closed_marks_def dep_graph_def)

text \<open>A successful visit keeps the marks that are set, and the marks of the path.\<close>

lemma visit_marks:
  "visit n up i st = Inr st' \<Longrightarrow>
     (\<forall>x. st' x = Visiting \<longleftrightarrow> st x = Visiting) \<and> (\<forall>x. st x = Visited \<longrightarrow> st' x = Visited) \<and>
     st' i = Visited"
  "visit_ups n up us st = Inr st' \<Longrightarrow>
     (\<forall>x. st' x = Visiting \<longleftrightarrow> st x = Visiting) \<and> (\<forall>x. st x = Visited \<longrightarrow> st' x = Visited) \<and>
     (\<forall>u \<in> set us. st' u = Visited)"
proof (induction n up i st and n up us st arbitrary: st' and st' rule: visit_visit_ups.induct)
  case (2 n up i st)
  show ?case
  proof (cases "st i")
    case Unvisited
    with "2.prems" obtain s where s: "visit_ups n up (up i) (st(i := Visiting)) = Inr s"
      and st': "st' = s(i := Visited)" by (auto split: sum.splits)
    from "2.IH" [OF Unvisited s] Unvisited st' show ?thesis
      by (auto split: if_splits)
  next
    case Visiting
    with "2.prems" show ?thesis by simp
  next
    case Visited
    with "2.prems" show ?thesis by simp
  qed
next
  case (4 n up u us st)
  from "4.prems" obtain s where s: "visit n up u st = Inr s" and r: "visit_ups n up us s = Inr st'"
    by (auto split: sum.splits)
  from "4.IH"(1) [OF s] "4.IH"(2) [OF s r] show ?case by auto
qed auto

lemma visit_closed:
  "visit n up i st = Inr st' \<Longrightarrow> closed_marks up st \<Longrightarrow> closed_marks up st'"
  "visit_ups n up us st = Inr st' \<Longrightarrow> closed_marks up st \<Longrightarrow> closed_marks up st'"
proof (induction n up i st and n up us st arbitrary: st' and st' rule: visit_visit_ups.induct)
  case (2 n up i st)
  show ?case
  proof (cases "st i")
    case Unvisited
    with "2.prems" obtain s where s: "visit_ups n up (up i) (st(i := Visiting)) = Inr s"
      and st': "st' = s(i := Visited)" by (auto split: sum.splits)
    have "closed_marks up (st(i := Visiting))"
      using "2.prems"(2) Unvisited by (auto simp: closed_marks_def)
    then have cl: "closed_marks up s" by (rule "2.IH" [OF Unvisited s])
    have path: "s i = Visiting" and ups: "\<forall>u \<in> set (up i). s u = Visited"
      using visit_marks(2) [OF s] by auto
    have "(i, i) \<notin> (dep_graph up)\<^sup>+"
    proof
      assume "(i, i) \<in> (dep_graph up)\<^sup>+"
      then obtain u where "(i, u) \<in> dep_graph up" "(u, i) \<in> (dep_graph up)\<^sup>*"
        by (meson tranclD)
      with ups closed_reach [OF _ cl] path show False by (auto simp: dep_graph_def)
    qed
    with cl ups st' show ?thesis by (auto simp: closed_marks_def)
  next
    case Visiting
    with "2.prems" show ?thesis by simp
  next
    case Visited
    with "2.prems" show ?thesis by simp
  qed
next
  case (4 n up u us st)
  from "4.prems" obtain s where s: "visit n up u st = Inr s" and r: "visit_ups n up us s = Inr st'"
    by (auto split: sum.splits)
  from "4.IH"(2) [OF s r "4.IH"(1) [OF s "4.prems"(2)]] show ?case .
qed auto

text \<open>Every device on the path reaches the one being visited, so meeting it again is a cycle.\<close>

lemma visit_cycle:
  "visit n up i st = Inl (DependencyCycle z) \<Longrightarrow>
     (\<forall>p. st p = Visiting \<longrightarrow> (p, i) \<in> (dep_graph up)\<^sup>+) \<Longrightarrow> (z, z) \<in> (dep_graph up)\<^sup>+"
  "visit_ups n up us st = Inl (DependencyCycle z) \<Longrightarrow>
     (\<forall>p u. st p = Visiting \<longrightarrow> u \<in> set us \<longrightarrow> (p, u) \<in> (dep_graph up)\<^sup>+) \<Longrightarrow>
     (z, z) \<in> (dep_graph up)\<^sup>+"
proof (induction n up i st and n up us st rule: visit_visit_ups.induct)
  case (2 n up i st)
  show ?case
  proof (cases "st i")
    case Unvisited
    with "2.prems"(1) have e: "visit_ups n up (up i) (st(i := Visiting)) = Inl (DependencyCycle z)"
      by (auto split: sum.splits)
    have "(p, u) \<in> (dep_graph up)\<^sup>+"
      if "(st(i := Visiting)) p = Visiting" "u \<in> set (up i)" for p u
    proof -
      have edge: "(i, u) \<in> dep_graph up" using that(2) by (simp add: dep_graph_def)
      show ?thesis
      proof (cases "p = i")
        case True
        with edge show ?thesis by auto
      next
        case False
        with that(1) "2.prems"(2) have "(p, i) \<in> (dep_graph up)\<^sup>+" by simp
        with edge show ?thesis by (rule trancl_into_trancl [rotated])
      qed
    qed
    then show ?thesis using "2.IH" [OF Unvisited e] by blast
  next
    case Visiting
    with "2.prems" show ?thesis by auto
  next
    case Visited
    with "2.prems" show ?thesis by simp
  qed
next
  case (4 n up u us st)
  show ?case
  proof (cases "visit n up u st")
    case (Inl e)
    with "4.prems" have "visit n up u st = Inl (DependencyCycle z)" by simp
    then show ?thesis using "4.IH"(1) "4.prems"(2) by auto
  next
    case (Inr s)
    with "4.prems"(1) have r: "visit_ups n up us s = Inl (DependencyCycle z)" by simp
    have "\<forall>p v. s p = Visiting \<longrightarrow> v \<in> set us \<longrightarrow> (p, v) \<in> (dep_graph up)\<^sup>+"
      using visit_marks(1) [OF Inr] "4.prems"(2) by auto
    with "4.IH"(2) [OF Inr r] show ?thesis .
  qed
qed auto

text \<open>The only errors of the search are a cycle and running out of fuel.\<close>

lemma visit_errors:
  "visit n up i st = Inl e \<Longrightarrow> e = OutOfFuel \<or> (\<exists>z. e = DependencyCycle z)"
  "visit_ups n up us st = Inl e \<Longrightarrow> e = OutOfFuel \<or> (\<exists>z. e = DependencyCycle z)"
  by (induction n up i st and n up us st rule: visit_visit_ups.induct)
     (auto split: mark.splits sum.splits)

text \<open>
  Fuel: every level of the recursion marks a new device of \<open>K\<close>, so one more than the
  devices still unvisited is enough.
\<close>

lemma visit_enough_fuel:
  assumes "finite K" and up: "\<And>x. x \<in> K \<Longrightarrow> set (up x) \<subseteq> K"
  shows "i \<in> K \<Longrightarrow> card {x \<in> K. st x = Unvisited} < n \<Longrightarrow> visit n up i st \<noteq> Inl OutOfFuel"
    and "set us \<subseteq> K \<Longrightarrow> card {x \<in> K. st x = Unvisited} < n \<Longrightarrow> visit_ups n up us st \<noteq> Inl OutOfFuel"
  using up
proof (induction n up i st and n up us st rule: visit_visit_ups.induct)
  case (2 n up i st)
  show ?case
  proof (cases "st i")
    case Unvisited
    let ?st = "st(i := Visiting)"
    have "{x \<in> K. ?st x = Unvisited} = {x \<in> K. st x = Unvisited} - {i}" by auto
    moreover have "i \<in> {x \<in> K. st x = Unvisited}" using Unvisited "2.prems" by simp
    moreover have "finite {x \<in> K. st x = Unvisited}" using assms(1) by simp
    ultimately have "card {x \<in> K. ?st x = Unvisited} < card {x \<in> K. st x = Unvisited}"
      by (simp only: card_Diff1_less)
    then have "card {x \<in> K. ?st x = Unvisited} < n" using "2.prems"(2) by simp
    then have "visit_ups n up (up i) ?st \<noteq> Inl OutOfFuel"
      using "2.IH" [OF Unvisited] "2.prems" by blast
    with Unvisited show ?thesis by (auto split: sum.splits)
  qed auto
next
  case (4 n up u us st)
  have u: "visit n up u st \<noteq> Inl OutOfFuel" using 4 by simp
  show ?case
  proof (cases "visit n up u st")
    case (Inr s)
    have "st x = Unvisited" if "s x = Unvisited" for x
    proof (cases "st x")
      case Visiting
      then have "s x = Visiting" using visit_marks(1) [OF Inr] by blast
      with that show ?thesis by simp
    next
      case Visited
      then have "s x = Visited" using visit_marks(1) [OF Inr] by blast
      with that show ?thesis by simp
    qed
    then have "{x \<in> K. s x = Unvisited} \<subseteq> {x \<in> K. st x = Unvisited}" by blast
    then have "card {x \<in> K. s x = Unvisited} \<le> card {x \<in> K. st x = Unvisited}"
      using assms(1) by (intro card_mono) auto
    with "4.prems" have "card {x \<in> K. s x = Unvisited} < n" by linarith
    with "4.IH"(2) [OF Inr] "4.prems" Inr show ?thesis by simp
  qed (use u in auto)
qed auto


section \<open>What the validation accepts\<close>

lemma dom_device_index: "dom (map_of (device_index ds)) = dc_ID ` set ds"
proof -
  have "dom (map_of (fold (\<lambda>d m. AList.update (dc_ID d) d m) ds m)) = dc_ID ` set ds \<union> dom (map_of m)" for m
    by (induction ds arbitrary: m) (auto simp: go_simps)
  then show ?thesis by (simp add: device_index_def)
qed

lemma distinct_device_index: "distinct (map fst (device_index ds))"
proof -
  have "distinct (map fst m) \<Longrightarrow> distinct (map fst (fold (\<lambda>d m. AList.update (dc_ID d) d m) ds m))" for m
    by (induction ds arbitrary: m) (auto simp: distinct_update)
  then show ?thesis by (simp add: device_index_def)
qed

lemma keys_device_index: "fst ` set (device_index ds) = dc_ID ` set ds"
  using dom_device_index [of ds] by (simp add: dom_map_of_conv_image_fst)

lemma device_index_Some:
  "map_of (device_index ds) k = Some d \<Longrightarrow> d \<in> set ds \<and> dc_ID d = k"
proof -
  have "map_of (fold (\<lambda>d m. AList.update (dc_ID d) d m) ds m) k = Some d \<Longrightarrow>
      (d \<in> set ds \<and> dc_ID d = k) \<or> map_of m k = Some d" for m
    by (induction ds arbitrary: m) (fastforce simp: go_simps split: if_splits)+
  from this [of "[]"] show "map_of (device_index ds) k = Some d \<Longrightarrow> d \<in> set ds \<and> dc_ID d = k"
    by (simp add: device_index_def)
qed

lemma device_index_distinct:
  assumes "distinct (map dc_ID ds)" "d \<in> set ds"
  shows "map_of (device_index ds) (dc_ID d) = Some d"
proof -
  have "dc_ID d \<in> dom (map_of (device_index ds))" using assms(2) by (simp add: dom_device_index)
  then obtain e where e: "map_of (device_index ds) (dc_ID d) = Some e" by auto
  with assms have "e = d" by (auto dest!: device_index_Some simp: distinct_map inj_on_def)
  with e show ?thesis by simp
qed

definition references_ok :: "device_config list \<Rightarrow> bool" where
  "references_ok ds \<longleftrightarrow> (\<forall>d \<in> set ds. distinct (ups d) \<and> dc_ID d \<notin> set (ups d)
     \<and> set (ups d) \<subseteq> dc_ID ` set ds)"

lemma check_upstreams_None:
  "check_upstreams byID i seen us = None \<longleftrightarrow>
     distinct us \<and> set us \<inter> set seen = {} \<and> i \<notin> set us \<and> set us \<subseteq> dom (map_of byID)"
  by (induction byID i seen us rule: check_upstreams.induct) auto

lemma check_references_None:
  "check_references byID ds = None \<longleftrightarrow>
     (\<forall>d \<in> set ds. distinct (ups d) \<and> dc_ID d \<notin> set (ups d) \<and> set (ups d) \<subseteq> dom (map_of byID))"
proof (induction byID ds rule: check_references.induct)
  case (2 byID d ds)
  show ?case
  proof (cases "check_upstreams byID (dc_ID d) [] (ups d)")
    case None
    with 2 show ?thesis using check_upstreams_None [of byID "dc_ID d" "[]" "ups d"] by simp
  next
    case (Some e)
    then show ?thesis using check_upstreams_None [of byID "dc_ID d" "[]" "ups d"] by auto
  qed
qed simp

lemma upstreams_in_index:
  assumes "references_ok ds"
  shows "set (upstreams_of (device_index ds) x) \<subseteq> dc_ID ` set ds"
proof (cases "map_of (device_index ds) x")
  case (Some d)
  with device_index_Some [OF Some] assms show ?thesis
    by (simp add: upstreams_of_def references_ok_def)
qed (simp add: upstreams_of_def)

lemma visit_all_None:
  fixes ds
  defines "byID \<equiv> device_index ds"
  assumes "references_ok ds"
  shows "(\<exists>st. visit_ups (Suc (length byID)) (upstreams_of byID) (sort (map fst byID)) (\<lambda>_. Unvisited) = Inr st)
    \<longleftrightarrow> acyclic (dep_graph (upstreams_of byID))" (is "(\<exists>st. ?run = Inr st) \<longleftrightarrow> _")
proof (cases ?run)
  case (Inl e)
  let ?K = "dc_ID ` set ds"
  have "card {x \<in> ?K. Unvisited = Unvisited} = length byID"
    unfolding byID_def using distinct_card [OF distinct_device_index, of ds]
    by (simp add: keys_device_index del: length_map) (metis length_map)
  then have "?run \<noteq> Inl OutOfFuel"
    using assms(2) keys_device_index [of ds]
    by (intro visit_enough_fuel(2) [of ?K]) (auto simp: byID_def dest: upstreams_in_index)
  with Inl visit_errors(2) obtain z where z: "e = DependencyCycle z" by blast
  with Inl have "?run = Inl (DependencyCycle z)" by simp
  then have "(z, z) \<in> (dep_graph (upstreams_of byID))\<^sup>+"
    by (rule visit_cycle(2)) simp
  then have "\<not> acyclic (dep_graph (upstreams_of byID))" by (auto simp: acyclic_def)
  with Inl show ?thesis by simp
next
  case (Inr st)
  have "closed_marks (upstreams_of byID) st"
    using visit_closed(2) [OF Inr] by (simp add: closed_marks_def)
  moreover have "\<forall>k \<in> fst ` set byID. st k = Visited" using visit_marks(2) [OF Inr] by auto
  moreover have "x \<in> fst ` set byID" if xx: "(x, x) \<in> (dep_graph (upstreams_of byID))\<^sup>+" for x
  proof -
    from xx obtain y where "y \<in> set (upstreams_of byID x)" by (auto simp: dep_graph_def dest: tranclD)
    then have "map_of byID x \<noteq> None" by (cases "map_of byID x") (simp_all add: upstreams_of_def)
    then show ?thesis by (simp add: map_of_eq_None_iff)
  qed
  ultimately have "(x, x) \<notin> (dep_graph (upstreams_of byID))\<^sup>+" for x
    unfolding closed_marks_def by metis
  then have "acyclic (dep_graph (upstreams_of byID))" by (simp add: acyclic_def)
  with Inr show ?thesis by blast
qed

lemma validateDependencies_None:
  "validateDependencies ds = None \<longleftrightarrow>
     references_ok ds \<and> acyclic (dep_graph (upstreams_of (device_index ds)))"
proof (cases "check_references (device_index ds) ds")
  case None
  then have "references_ok ds"
    by (auto simp: check_references_None references_ok_def dom_device_index)
  with None visit_all_None [of ds] show ?thesis
    by (auto simp: validateDependencies_def Let_def split: sum.splits)
next
  case (Some e)
  then have "\<not> references_ok ds"
    using check_references_None [of "device_index ds" ds]
    by (auto simp: references_ok_def dom_device_index)
  with Some show ?thesis by (simp add: validateDependencies_def)
qed

end
