(* ===== verification/Config.thy ===== *)
theory Config
  imports Inventory
begin

text \<open>
  The collector configuration (\<open>services/snmp-collector/internal/config/config.go\<close>): the
  records, the defaults, the managed policy overlay, every validation in the order of the
  source, and \<open>load\<close>, which composes them.

  An error is its message without the interpolated positions; \<open>None\<close> is Go's nil error.
  Parsers of other packages are fields of \<open>parsers\<close>, an argument of the definitions that use
  them: compiling a regular expression, \<open>net.ParseCIDR\<close>, \<open>net.ParseIP\<close> (the canonical text of
  an address), the broker URL and \<open>time.ParseDuration\<close>.  Reading and decoding the files is
  outside the model: \<open>load\<close> takes the decoded documents.  \<open>None\<close> in \<open>load\<close>'s managed
  argument cannot occur: a missing file is the empty document, as in the code.
\<close>

record parsers =
  ps_regexOK :: "string \<Rightarrow> bool"
  ps_cidrOK :: "string \<Rightarrow> bool"
  ps_IP :: "string \<Rightarrow> string option"
  ps_brokerOK :: "string \<Rightarrow> bool"
  ps_Duration :: "string \<Rightarrow> duration option"
  ps_insecureSkipVerify :: bool

section \<open>Errors\<close>

definition fail_if :: "bool \<Rightarrow> string \<Rightarrow> string option" where
  "fail_if b msg = (if b then Some msg else None)"

fun first_err :: "string option list \<Rightarrow> string option" where
  "first_err [] = None"
| "first_err (Some e # cs) = Some e"
| "first_err (None # cs) = first_err cs"

lemma fail_if_None [simp, go_simps]: "fail_if b msg = None \<longleftrightarrow> \<not> b"
  by (simp add: fail_if_def)

lemma first_err_Cons_None [simp, go_simps]: "first_err (c # cs) = None \<longleftrightarrow> c = None \<and> first_err cs = None"
  by (cases c) auto

lemma first_err_None: "first_err cs = None \<longleftrightarrow> (\<forall>c \<in> set cs. c = None)"
  by (induction cs) auto

section \<open>Durations and bounds\<close>

definition Second :: duration where "Second = 1000000000"
definition Millisecond :: duration where "Millisecond = 1000000"
definition maxPollInterval :: duration where "maxPollInterval = 24 * 60 * 60 * Second"
definition maxSNMPTimeout :: duration where "maxSNMPTimeout = 5 * 60 * Second"
definition maxRetries :: int where "maxRetries = 10"
definition maxWorkers :: int where "maxWorkers = 1024"
definition maxDiscoveryTargets :: int where "maxDiscoveryTargets = 1000000"
definition maxDiscoveryRate :: f64 where "maxDiscoveryRate = Fin 100000"
definition maxDiscoveryBurst :: int where "maxDiscoveryBurst = 100000"
definition minTemperatureCelsius :: f64 where "minTemperatureCelsius = Fin (-100)"
definition maxTemperatureCelsius :: f64 where "maxTemperatureCelsius = Fin 250"

definition temperature_out_of_range :: "f64 \<Rightarrow> bool" where
  "temperature_out_of_range v \<longleftrightarrow> f64_lt v minTemperatureCelsius \<or> f64_lt maxTemperatureCelsius v"

definition ValidateTemperatureWarningC :: "f64 \<Rightarrow> string option" where
  "ValidateTemperatureWarningC v =
     fail_if (temperature_out_of_range v) ''temperature_warning_c must be between -100 and 250''"

section \<open>The configuration record\<close>

record discovery_config =
  di_AllowedCIDRs :: "string list"
  di_CommunityEnv :: string
  di_MaxTargets :: int
  di_Timeout :: duration
  di_Retries :: int
  di_MaxWorkers :: int
  di_MaxProbesPerSecond :: f64
  di_ProbeBurst :: int

record mqtt_config =
  mq_Broker :: string
  mq_ClientID :: string
  mq_Username :: string
  mq_PasswordEnv :: string
  mq_QoS :: int
  mq_CAFile :: string
  mq_CertFile :: string
  mq_KeyFile :: string
  mq_ReconnectInitial :: duration
  mq_ReconnectMax :: duration

record buffer_config =
  bu_Path :: string
  bu_MaxEntries :: int
  bu_BusyTimeoutMS :: int
  bu_BatchSize :: int
  bu_IdleBackoff :: duration

record config =
  c_SiteID :: string
  c_PollInterval :: duration
  c_MaxWorkers :: int
  c_CollectorID :: string
  c_HeartbeatInterval :: duration
  c_ManagedPath :: string
  c_TemperatureWarningC :: f64
  c_FailureThreshold :: int
  c_Discovery :: discovery_config
  c_AdminListen :: string
  c_ControlSocket :: string
  c_SNMPTimeout :: duration
  c_SNMPRetries :: int
  c_PublisherMode :: string
  c_PublisherTimeout :: duration
  c_TelemetryVersion :: string
  c_Buffer :: buffer_config
  c_MQTT :: mqtt_config
  c_Devices :: "device_config list"

record managed_discovery =
  md_AllowedCIDRs :: "string list"
  md_CommunityEnv :: string
  md_MaxTargets :: "int option"
  md_MaxWorkers :: "int option"
  md_Retries :: "int option"
  md_Timeout :: string
  md_MaxProbesPerSecond :: "f64 option"
  md_ProbeBurst :: "int option"

record managed_inventory =
  mi_TemperatureWarningC :: "f64 option"
  mi_Discovery :: managed_discovery
  mi_Devices :: "device_config list"

definition empty_managed :: managed_inventory where
  "empty_managed = \<lparr>mi_TemperatureWarningC = None, mi_Discovery = \<lparr>md_AllowedCIDRs = [],
     md_CommunityEnv = [], md_MaxTargets = None, md_MaxWorkers = None, md_Retries = None,
     md_Timeout = [], md_MaxProbesPerSecond = None, md_ProbeBurst = None\<rparr>, mi_Devices = []\<rparr>"

section \<open>Defaults\<close>

definition applyDiscoveryDefaults :: "discovery_config \<Rightarrow> discovery_config" where
  "applyDiscoveryDefaults d =
     (if di_AllowedCIDRs d = [] then d
      else d\<lparr>di_MaxTargets := (if di_MaxTargets d = 0 then 256 else di_MaxTargets d),
             di_Timeout := (if di_Timeout d = 0 then 2 * Second else di_Timeout d),
             di_MaxWorkers := (if di_MaxWorkers d = 0 then 4 else di_MaxWorkers d),
             di_MaxProbesPerSecond :=
               (if di_MaxProbesPerSecond d = Fin 0 then Fin 5 else di_MaxProbesPerSecond d),
             di_ProbeBurst := (if di_ProbeBurst d = 0 then 2 else di_ProbeBurst d),
             di_CommunityEnv :=
               (if di_CommunityEnv d = [] then ''SNMP_DISCOVERY_COMMUNITY'' else di_CommunityEnv d)\<rparr>)"

definition default_buffer :: "buffer_config \<Rightarrow> buffer_config" where
  "default_buffer b = b\<lparr>
     bu_Path := (if bu_Path b = [] then ''buffer.db'' else bu_Path b),
     bu_MaxEntries := (if bu_MaxEntries b = 0 then 50000 else bu_MaxEntries b),
     bu_BusyTimeoutMS := (if bu_BusyTimeoutMS b = 0 then 5000 else bu_BusyTimeoutMS b),
     bu_BatchSize := (if bu_BatchSize b = 0 then 50 else bu_BatchSize b),
     bu_IdleBackoff := (if bu_IdleBackoff b = 0 then 500 * Millisecond else bu_IdleBackoff b)\<rparr>"

definition default_mqtt :: "string \<Rightarrow> mqtt_config \<Rightarrow> mqtt_config" where
  "default_mqtt site m = m\<lparr>
     mq_PasswordEnv := (if mq_PasswordEnv m = [] then ''MQTT_PASSWORD'' else mq_PasswordEnv m),
     mq_QoS := (if mq_QoS m = 0 then 1 else mq_QoS m),
     mq_ClientID := (if mq_ClientID m = [] \<and> site \<noteq> [] then ''collector-'' @ site else mq_ClientID m),
     mq_ReconnectInitial := (if mq_ReconnectInitial m = 0 then Second else mq_ReconnectInitial m),
     mq_ReconnectMax := (if mq_ReconnectMax m = 0 then 60 * Second else mq_ReconnectMax m)\<rparr>"

definition default_burst :: "discovery_config \<Rightarrow> discovery_config" where
  "default_burst d =
     (if di_ProbeBurst d = 0 \<and> f64_lt (Fin 0) (di_MaxProbesPerSecond d)
      then d\<lparr>di_ProbeBurst := 1\<rparr> else d)"

definition applyDefaults :: "config \<Rightarrow> config" where
  "applyDefaults c = c\<lparr>
     c_PollInterval := (if c_PollInterval c = 0 then 60 * Second else c_PollInterval c),
     c_MaxWorkers := (if c_MaxWorkers c = 0 then 10 else c_MaxWorkers c),
     c_HeartbeatInterval := (if c_HeartbeatInterval c = 0 then 60 * Second else c_HeartbeatInterval c),
     c_TemperatureWarningC :=
       (if c_TemperatureWarningC c = Fin 0 then Fin 65 else c_TemperatureWarningC c),
     c_FailureThreshold := (if c_FailureThreshold c = 0 then 2 else c_FailureThreshold c),
     c_AdminListen := (if c_AdminListen c = [] then '':9090'' else c_AdminListen c),
     c_SNMPTimeout := (if c_SNMPTimeout c = 0 then 5 * Second else c_SNMPTimeout c),
     c_SNMPRetries := (if c_SNMPRetries c = 0 then 2 else c_SNMPRetries c),
     c_PublisherMode := (if c_PublisherMode c = [] then ''stdout'' else c_PublisherMode c),
     c_PublisherTimeout := (if c_PublisherTimeout c = 0 then 10 * Second else c_PublisherTimeout c),
     c_TelemetryVersion := (if c_TelemetryVersion c = [] then ''v2'' else c_TelemetryVersion c),
     c_Buffer := default_buffer (c_Buffer c),
     c_MQTT := default_mqtt (c_SiteID c) (c_MQTT c),
     c_Discovery := default_burst (c_Discovery c),
     c_Devices := applyDeviceDefaults (c_Devices c)\<rparr>"

definition applyEnvOverrides :: "string \<Rightarrow> config \<Rightarrow> config" where
  "applyEnvOverrides brokerEnv c =
     (if brokerEnv \<noteq> [] then c\<lparr>c_MQTT := (c_MQTT c)\<lparr>mq_Broker := brokerEnv\<rparr>\<rparr> else c)"

definition applyManagedDiscovery :: "parsers \<Rightarrow> managed_discovery \<Rightarrow> discovery_config \<Rightarrow> discovery_config" where
  "applyManagedDiscovery ps m d = d\<lparr>
     di_AllowedCIDRs := (if md_AllowedCIDRs m \<noteq> [] then md_AllowedCIDRs m else di_AllowedCIDRs d),
     di_CommunityEnv := (if trim_space (md_CommunityEnv m) \<noteq> []
        then trim_space (md_CommunityEnv m) else di_CommunityEnv d),
     di_MaxTargets := (case md_MaxTargets m of Some v \<Rightarrow> v | None \<Rightarrow> di_MaxTargets d),
     di_MaxWorkers := (case md_MaxWorkers m of Some v \<Rightarrow> v | None \<Rightarrow> di_MaxWorkers d),
     di_Retries := (case md_Retries m of Some v \<Rightarrow> v | None \<Rightarrow> di_Retries d),
     di_Timeout := (if trim_space (md_Timeout m) \<noteq> []
        then (case ps_Duration ps (trim_space (md_Timeout m)) of Some t \<Rightarrow> t | None \<Rightarrow> di_Timeout d)
        else di_Timeout d),
     di_MaxProbesPerSecond :=
       (case md_MaxProbesPerSecond m of Some v \<Rightarrow> v | None \<Rightarrow> di_MaxProbesPerSecond d),
     di_ProbeBurst := (case md_ProbeBurst m of Some v \<Rightarrow> v | None \<Rightarrow> di_ProbeBurst d)\<rparr>"

definition applyManagedPolicy :: "parsers \<Rightarrow> managed_inventory \<Rightarrow> config \<Rightarrow> config" where
  "applyManagedPolicy ps m c = c\<lparr>
     c_TemperatureWarningC :=
       (case mi_TemperatureWarningC m of Some v \<Rightarrow> v | None \<Rightarrow> c_TemperatureWarningC c),
     c_Discovery := applyDiscoveryDefaults (applyManagedDiscovery ps (mi_Discovery m) (c_Discovery c))\<rparr>"

section \<open>Validation of devices and filters\<close>

definition validateEnvName :: "string \<Rightarrow> string option" where
  "validateEnvName v = first_err
     [fail_if (trim_space v = []) ''environment variable name is required'',
      fail_if (\<not> envNamePattern v) ''must be a valid environment variable name'']"

text \<open>\<open>strconv.Atoi\<close> on text without a sign or with one; 0 stands for an error, as in the code.\<close>

fun digits_value :: "nat \<Rightarrow> string \<Rightarrow> nat option" where
  "digits_value acc [] = Some acc"
| "digits_value acc (c # s) =
     (if is_digit c then digits_value (10 * acc + (of_char c - 48)) s else None)"

definition parsePositiveInt :: "string \<Rightarrow> int" where
  "parsePositiveInt s =
     (let (sign, ds) = (case s of [] \<Rightarrow> (1, []) | c # r \<Rightarrow>
            if c = CHR ''-'' then (-1, r) else if c = CHR ''+'' then (1, r) else (1, s))
      in if ds = [] then 0
         else (case digits_value 0 ds of
                 None \<Rightarrow> 0
               | Some n \<Rightarrow> let v = sign * int n in
                   if v < - (2 ^ 63) \<or> v \<ge> 2 ^ 63 then 0 else v))"

definition validInterfaceStates :: "string list" where
  "validInterfaceStates = [''up'', ''down'', ''testing'', ''unknown'']"

definition validInterfaceTypes :: "string list" where
  "validInterfaceTypes = [''other'', ''ethernetcsmacd'', ''ieee8023adlag'', ''l2vlan'',
     ''softwareloopback'', ''propvirtual'', ''tunnel'', ''bridge'', ''ieee80211'', ''fddi'',
     ''ppp'', ''framerelay'', ''atm'']"

definition validateInterfaceType :: "string \<Rightarrow> string option" where
  "validateInterfaceType v =
     (let n = to_lower (trim_space v) in
      if n = [] then Some ''interface type is required''
      else if n \<in> set validInterfaceTypes then None
      else if parsePositiveInt n > 0 \<and> parsePositiveInt n \<le> 255 then None
      else Some ''unsupported interface type'')"

definition validateFilterRule :: "parsers \<Rightarrow> filter_rule \<Rightarrow> string option" where
  "validateFilterRule ps r = first_err
     [fail_if (fr_Action r \<noteq> ''include'' \<and> fr_Action r \<noteq> ''exclude'') ''action must be include or exclude'',
      (case fr_IfIndex r of Some i \<Rightarrow> fail_if (i \<le> 0) ''if_index must be positive'' | None \<Rightarrow> None),
      fail_if (fr_NameRegex r \<noteq> [] \<and> \<not> ps_regexOK ps (fr_NameRegex r)) ''invalid regex'',
      fail_if (fr_AliasRegex r \<noteq> [] \<and> \<not> ps_regexOK ps (fr_AliasRegex r)) ''invalid regex'',
      (if fr_IfType r \<noteq> [] then validateInterfaceType (fr_IfType r) else None),
      fail_if (fr_AdminStatus r \<noteq> [] \<and> to_lower (fr_AdminStatus r) \<notin> set validInterfaceStates)
        ''unsupported state'',
      fail_if (fr_OperStatus r \<noteq> [] \<and> to_lower (fr_OperStatus r) \<notin> set validInterfaceStates)
        ''unsupported state'',
      fail_if (fr_IfIndex r = None \<and> fr_NameRegex r = [] \<and> fr_AliasRegex r = [] \<and> fr_IfType r = []
          \<and> fr_AdminStatus r = [] \<and> fr_OperStatus r = []) ''must contain at least one matcher'']"

definition validateInterfaceFilters :: "parsers \<Rightarrow> filter_config \<Rightarrow> string option" where
  "validateInterfaceFilters ps f = first_err
     ([fail_if (list_ex (\<lambda>i. i \<le> 0) (fc_IncludeIfIndexes f @ fc_ExcludeIfIndexes f)) ''must be positive'',
       fail_if (\<not> list_all (ps_regexOK ps) (fc_IncludeNameRegex f @ fc_ExcludeNameRegex f
           @ fc_IncludeAliasRegex f @ fc_ExcludeAliasRegex f)) ''invalid regex'',
       first_err (map validateInterfaceType (fc_IncludeTypes f @ fc_ExcludeTypes f)),
       fail_if (\<not> list_all (\<lambda>s. to_lower s \<in> set validInterfaceStates)
           (fc_IncludeAdminStatuses f @ fc_ExcludeAdminStatuses f
             @ fc_IncludeOperStatuses f @ fc_ExcludeOperStatuses f)) ''unsupported state'']
      @ map (validateFilterRule ps) (fc_Rules f))"

definition canonicalHost :: "parsers \<Rightarrow> string \<Rightarrow> string" where
  "canonicalHost ps host =
     (let h = trim_space (if suffix ''.'' host then butlast host else host)
      in case ps_IP ps h of Some ip \<Rightarrow> ip | None \<Rightarrow> to_lower h)"

definition validate_device :: "parsers \<Rightarrow> string list \<Rightarrow> string list \<Rightarrow> device_config \<Rightarrow> string option" where
  "validate_device ps seenIDs seenHosts d = first_err
     [fail_if (trim_space (dc_ID d) = []) ''id is required'',
      fail_if (\<not> identifierPattern (dc_ID d)) ''id has invalid format'',
      fail_if (trim_space (dc_Host d) = []) ''host is required'',
      fail_if (dc_Port d = 0) ''port must be between 1 and 65535'',
      fail_if (dc_Version d \<noteq> ''2c'') ''version: only 2c is supported'',
      validateEnvName (dc_CommunityEnv d),
      fail_if (to_lower (trim_space (dc_Vendor d)) \<notin> {[], ''core'', ''cisco'', ''arista''})
        ''vendor must be empty, core, cisco, or arista'',
      fail_if (dc_ID d \<in> set seenIDs) ''duplicate device id'',
      fail_if (canonicalHost ps (dc_Host d) \<in> set seenHosts) ''duplicate device host'',
      fail_if (dc_PollInterval d < 0 \<or> dc_PollInterval d > maxPollInterval) ''poll_interval out of range'',
      fail_if (dc_Timeout d < 0 \<or> dc_Timeout d > maxSNMPTimeout) ''timeout out of range'',
      fail_if (dc_Retries d < 0 \<or> dc_Retries d > maxRetries) ''retries out of range'',
      (case dc_TemperatureWarningC d of None \<Rightarrow> None | Some v \<Rightarrow>
         fail_if (temperature_out_of_range v) ''temperature_warning_c out of range''),
      validateInterfaceFilters ps (dc_InterfaceFilters d)]"

fun validate_devices :: "parsers \<Rightarrow> string list \<Rightarrow> string list \<Rightarrow> device_config list \<Rightarrow> string option" where
  "validate_devices ps seenIDs seenHosts [] = None"
| "validate_devices ps seenIDs seenHosts (d # ds) =
     (case validate_device ps seenIDs seenHosts d of
        Some e \<Rightarrow> Some e
      | None \<Rightarrow> validate_devices ps (dc_ID d # seenIDs) (canonicalHost ps (dc_Host d) # seenHosts) ds)"

definition validateDeviceSource :: "parsers \<Rightarrow> device_config list \<Rightarrow> string option" where
  "validateDeviceSource ps ds = validate_devices ps [] [] ds"

fun check_unique :: "parsers \<Rightarrow> string list \<Rightarrow> string list \<Rightarrow> device_config list \<Rightarrow> string option" where
  "check_unique ps seenIDs seenHosts [] = None"
| "check_unique ps seenIDs seenHosts (d # ds) =
     (if dc_ID d \<in> set seenIDs then Some ''duplicate device id''
      else if canonicalHost ps (dc_Host d) \<in> set seenHosts then Some ''duplicate device host''
      else check_unique ps (dc_ID d # seenIDs) (canonicalHost ps (dc_Host d) # seenHosts) ds)"

definition validateInventoryUniqueness :: "parsers \<Rightarrow> device_config list \<Rightarrow> string option" where
  "validateInventoryUniqueness ps ds = check_unique ps [] [] ds"

section \<open>Validation of the managed document\<close>

definition validateManagedOverlay :: "parsers \<Rightarrow> device_config \<Rightarrow> string option" where
  "validateManagedOverlay ps d = first_err
     [fail_if (trim_space (dc_ID d) = []) ''id is required'',
      fail_if (\<not> identifierPattern (dc_ID d)) ''id has invalid format'',
      (case dc_TemperatureWarningC d of None \<Rightarrow> None | Some v \<Rightarrow>
         fail_if (temperature_out_of_range v) ''temperature_warning_c out of range''),
      validateInterfaceFilters ps (dc_InterfaceFilters d)]"

definition validateManagedDiscoveryPolicy :: "parsers \<Rightarrow> managed_discovery \<Rightarrow> string option" where
  "validateManagedDiscoveryPolicy ps m = first_err
     [fail_if (\<not> list_all (\<lambda>c. ps_cidrOK ps (trim_space c)) (md_AllowedCIDRs m)) ''allowed_cidrs is invalid'',
      (if md_CommunityEnv m \<noteq> [] then validateEnvName (md_CommunityEnv m) else None),
      (case md_MaxTargets m of Some v \<Rightarrow> fail_if (v \<le> 0) ''max_targets must be positive'' | None \<Rightarrow> None),
      (case md_MaxWorkers m of Some v \<Rightarrow> fail_if (v \<le> 0) ''max_workers must be positive'' | None \<Rightarrow> None),
      (case md_Retries m of Some v \<Rightarrow> fail_if (v < 0) ''retries must not be negative'' | None \<Rightarrow> None),
      fail_if (trim_space (md_Timeout m) \<noteq> [] \<and> ps_Duration ps (trim_space (md_Timeout m)) = None)
        ''timeout is invalid'']"

definition managed_policy_errors :: "managed_inventory \<Rightarrow> string option" where
  "managed_policy_errors m = first_err
     [(case mi_TemperatureWarningC m of None \<Rightarrow> None | Some v \<Rightarrow>
         fail_if (temperature_out_of_range v) ''managed health.temperature_warning_c out of range''),
      (case md_MaxProbesPerSecond (mi_Discovery m) of None \<Rightarrow> None | Some v \<Rightarrow>
         fail_if (f64_le v (Fin 0)) ''managed discovery.max_probes_per_second must be positive''),
      (case md_ProbeBurst (mi_Discovery m) of None \<Rightarrow> None | Some v \<Rightarrow>
         fail_if (v \<le> 0) ''managed discovery.probe_burst must be positive'')]"

text \<open>The loop over the managed devices stops at the first bad overlay.\<close>

fun split_managed :: "parsers \<Rightarrow> string list \<Rightarrow> device_config list
    \<Rightarrow> string + (device_config list \<times> device_config list)" where
  "split_managed ps staticIDs [] = Inr ([], [])"
| "split_managed ps staticIDs (d # ds) =
     (if dc_ID d \<in> set staticIDs then
        (case validateManagedOverlay ps d of
           Some e \<Rightarrow> Inl e
         | None \<Rightarrow> (case split_managed ps staticIDs ds of
             Inl e \<Rightarrow> Inl e | Inr (ov, ap) \<Rightarrow> Inr (d # ov, ap)))
      else (case split_managed ps staticIDs ds of
             Inl e \<Rightarrow> Inl e | Inr (ov, ap) \<Rightarrow> Inr (ov, d # ap)))"

definition validateManagedDocument :: "parsers \<Rightarrow> managed_inventory \<Rightarrow> device_config list \<Rightarrow> string option" where
  "validateManagedDocument ps m statics =
     (case managed_policy_errors m of Some e \<Rightarrow> Some e | None \<Rightarrow>
      (case validateManagedDiscoveryPolicy ps (mi_Discovery m) of Some e \<Rightarrow> Some e | None \<Rightarrow>
       (case split_managed ps (map dc_ID statics) (mi_Devices m) of Inl e \<Rightarrow> Some e | Inr (overlays, appends) \<Rightarrow>
        (case validateDeviceSource ps (applyDeviceDefaults appends) of Some e \<Rightarrow> Some e | None \<Rightarrow>
         fail_if (\<not> distinct (map dc_ID overlays)) ''duplicate device id in managed devices''))))"

section \<open>Validation of the whole configuration\<close>

definition discovery_unset :: "discovery_config \<Rightarrow> bool" where
  "discovery_unset d \<longleftrightarrow> di_AllowedCIDRs d = [] \<and> di_CommunityEnv d = [] \<and> di_MaxTargets d = 0 \<and>
     di_Timeout d = 0 \<and> di_Retries d = 0 \<and> di_MaxWorkers d = 0 \<and>
     di_MaxProbesPerSecond d = Fin 0 \<and> di_ProbeBurst d = 0"

definition validateDiscovery :: "parsers \<Rightarrow> discovery_config \<Rightarrow> string option" where
  "validateDiscovery ps d =
     (if discovery_unset d then None
      else first_err
        [fail_if (di_AllowedCIDRs d = []) ''discovery.allowed_cidrs is required when discovery is configured'',
         validateEnvName (di_CommunityEnv d),
         fail_if (di_MaxTargets d \<le> 0 \<or> di_MaxTargets d > maxDiscoveryTargets) ''discovery.max_targets out of range'',
         fail_if (di_Timeout d \<le> 0 \<or> di_Timeout d > maxSNMPTimeout) ''discovery.timeout out of range'',
         fail_if (di_Retries d < 0 \<or> di_Retries d > maxRetries) ''discovery.retries out of range'',
         fail_if (di_MaxWorkers d \<le> 0 \<or> di_MaxWorkers d > maxWorkers) ''discovery.max_workers out of range'',
         fail_if (f64_le (di_MaxProbesPerSecond d) (Fin 0) \<or> IsNaN (di_MaxProbesPerSecond d)
             \<or> di_MaxProbesPerSecond d \<in> {NegInf, PosInf} \<or> f64_lt maxDiscoveryRate (di_MaxProbesPerSecond d))
           ''discovery.max_probes_per_second must be positive and bounded'',
         fail_if (di_ProbeBurst d \<le> 0 \<or> di_ProbeBurst d > maxDiscoveryBurst) ''discovery.probe_burst out of range'',
         fail_if (\<not> list_all (ps_cidrOK ps) (di_AllowedCIDRs d)) ''discovery.allowed_cidrs is invalid''])"

definition validateMQTT :: "parsers \<Rightarrow> config \<Rightarrow> string option" where
  "validateMQTT ps c = first_err
     [fail_if (trim_space (mq_Broker (c_MQTT c)) = []) ''mqtt.broker is required'',
      fail_if (\<not> ps_brokerOK ps (mq_Broker (c_MQTT c))) ''mqtt.broker must be a tls URL with a host'',
      fail_if (trim_space (mq_Username (c_MQTT c)) = []) ''mqtt.username is required'',
      validateEnvName (mq_PasswordEnv (c_MQTT c)),
      fail_if (mq_QoS (c_MQTT c) \<noteq> 1) ''mqtt.qos must be 1'',
      fail_if (bu_MaxEntries (c_Buffer c) < 0) ''buffer.max_entries must be >= 0'',
      fail_if (bu_BusyTimeoutMS (c_Buffer c) \<le> 0) ''buffer.busy_timeout_ms must be positive'',
      fail_if (bu_BatchSize (c_Buffer c) \<le> 0) ''buffer.batch_size must be positive'',
      fail_if (bu_IdleBackoff (c_Buffer c) \<le> 0) ''buffer.idle_backoff must be positive'',
      fail_if (mq_ReconnectInitial (c_MQTT c) \<le> 0 \<or> mq_ReconnectMax (c_MQTT c) \<le> 0)
        ''mqtt.reconnect.initial and max must be positive'',
      fail_if (mq_ReconnectMax (c_MQTT c) < mq_ReconnectInitial (c_MQTT c)) ''mqtt.reconnect.max must be >= initial'',
      fail_if (trim_space (mq_CAFile (c_MQTT c)) = [] \<and> \<not> ps_insecureSkipVerify ps) ''mqtt.tls.ca_file is required'',
      fail_if ((mq_CertFile (c_MQTT c) = []) \<noteq> (mq_KeyFile (c_MQTT c) = []))
        ''mqtt.tls.cert_file and key_file must be configured together'']"

definition validate :: "parsers \<Rightarrow> config \<Rightarrow> string option" where
  "validate ps c = first_err
     [fail_if (trim_space (c_SiteID c) = []) ''site_id is required'',
      fail_if (\<not> identifierPattern (c_SiteID c)) ''site_id has invalid format'',
      fail_if (trim_space (c_CollectorID c) = []) ''collector.id is required'',
      fail_if (\<not> identifierPattern (c_CollectorID c)) ''collector.id has invalid format'',
      fail_if (c_PollInterval c \<le> 0 \<or> c_PollInterval c > maxPollInterval) ''poll_interval out of range'',
      fail_if (c_MaxWorkers c \<le> 0 \<or> c_MaxWorkers c > maxWorkers) ''max_workers out of range'',
      fail_if (c_HeartbeatInterval c \<le> 0 \<or> c_HeartbeatInterval c > maxPollInterval)
        ''collector.heartbeat_interval out of range'',
      fail_if (temperature_out_of_range (c_TemperatureWarningC c)) ''health.temperature_warning_c out of range'',
      fail_if (c_FailureThreshold c \<le> 0 \<or> c_FailureThreshold c > maxRetries + 1)
        ''health.failure_threshold out of range'',
      fail_if (c_SNMPTimeout c \<le> 0 \<or> c_SNMPTimeout c > maxSNMPTimeout) ''snmp.timeout out of range'',
      fail_if (c_SNMPRetries c < 0 \<or> c_SNMPRetries c > maxRetries) ''snmp.retries out of range'',
      fail_if (c_PublisherTimeout c \<le> 0 \<or> c_PublisherTimeout c > maxSNMPTimeout) ''publisher.timeout out of range'',
      fail_if (c_PublisherMode c \<noteq> ''stdout'' \<and> c_PublisherMode c \<noteq> ''mqtt'') ''publisher.mode is invalid'',
      fail_if (c_TelemetryVersion c \<notin> {''v1'', ''v2'', ''both''}) ''publisher.telemetry_version is invalid'',
      (if c_PublisherMode c = ''mqtt'' then validateMQTT ps c else None),
      validateDiscovery ps (c_Discovery c),
      fail_if (c_Devices c = [] \<and> di_AllowedCIDRs (c_Discovery c) = []) ''at least one device is required'',
      validateDeviceSource ps (c_Devices c),
      validateInventoryUniqueness ps (c_Devices c),
      map_option (\<lambda>_. ''dependencies'') (validateDependencies (c_Devices c))]"

definition validateRuntimeSecrets :: "string \<Rightarrow> config \<Rightarrow> string option" where
  "validateRuntimeSecrets password c =
     fail_if (c_PublisherMode c = ''mqtt'' \<and> (mq_PasswordEnv (c_MQTT c) = [] \<or> password = []))
       ''mqtt password environment variable is required''"

text \<open>
  \<open>load\<close> on the decoded configuration \<open>raw\<close>, the decoded managed document (or the error of
  reading it), and the values of \<open>MQTT_BROKER\<close> and of the password variable.
\<close>

definition load_config :: "parsers \<Rightarrow> bool \<Rightarrow> string \<Rightarrow> string \<Rightarrow> config \<Rightarrow> string + managed_inventory
    \<Rightarrow> string + config" where
  "load_config ps requireRuntimeSecrets brokerEnv password raw managedDoc =
     (let c0 = applyEnvOverrides brokerEnv (applyDefaults raw);
          statics = c_Devices c0 in
      case validateDeviceSource ps statics of Some e \<Rightarrow> Inl e | None \<Rightarrow>
      (case managedDoc of Inl e \<Rightarrow> Inl e | Inr managed \<Rightarrow>
       (case validateManagedDocument ps managed statics of Some e \<Rightarrow> Inl e | None \<Rightarrow>
        let ids = map dc_ID statics;
            mdevs = map (\<lambda>d. if dc_ID d \<in> set ids then d else applyDeviceDefault d) (mi_Devices managed);
            c1 = applyManagedPolicy ps managed (c0\<lparr>c_Devices := mergeInventories statics mdevs\<rparr>)
        in case validate ps c1 of Some e \<Rightarrow> Inl e | None \<Rightarrow>
           if requireRuntimeSecrets
           then (case validateRuntimeSecrets password c1 of Some e \<Rightarrow> Inl e | None \<Rightarrow> Inr c1)
           else Inr c1)))"

end
