(* ===== verification/HealthTracker.thy ===== *)
theory HealthTracker
  imports Config
begin

text \<open>
  The device health ledger of the collector (\<open>services/snmp-collector/internal/health/\<close>:
  \<open>types.go\<close>, \<open>tracker.go\<close>).  A poll cycle hands its outcomes to \<open>ApplyBatch\<close>, which updates the
  failure counts, evaluates every configured device in an order that puts upstreams first,
  and returns the transitions to publish.

  The ledger is a Go map from device IDs to entries.  The recursion of \<open>collectRootCauses\<close>
  follows the unavailable upstreams recorded in the ledger with no mark on the devices it is
  inside of, so it may not return: it is a \<open>partial_function (option)\<close>, whose \<open>None\<close> is the
  unbounded recursion, and \<open>ApplyBatch\<close> carries that \<open>None\<close> through.
  The states and reasons have a constructor for Go's zero value, the empty string.  Counters
  are mathematical integers (an overflow needs \<open>2 ^ 63\<close> failed polls of one device).
\<close>

section \<open>Types\<close>

datatype state = StateNone | StateHealthy | StateWarning | StateCritical | StateUnknown

datatype reason = ReasonNone | ReasonReachable | ReasonTemperatureThreshold
  | ReasonDirectUnreachable | ReasonUpstreamUnreachable | ReasonRecovered

datatype transition = TransitionInitial | TransitionEntered | TransitionRecovered | TransitionReasserted

record poll_outcome =
  po_DeviceID :: string
  po_Success :: bool
  po_ObservedAt :: time
  po_TemperatureC :: "f64 option"

record event =
  ev_DeviceID :: string
  ev_State :: state
  ev_Reason :: reason
  ev_PreviousState :: "state option"
  ev_Transition :: transition
  ev_FailureCount :: int
  ev_FailureThreshold :: int
  ev_TemperatureC :: "f64 option"
  ev_TemperatureWarningC :: "f64 option"
  ev_TemperaturePolicyRevision :: string
  ev_UpstreamDeviceIDs :: "string list"
  ev_UnavailableUpstream :: "string list"
  ev_RootCauseDeviceIDs :: "string list"
  ev_AlertsEnabled :: bool
  ev_ObservedAt :: time

record device_health =
  dh_HasState :: bool
  dh_State :: state
  dh_Reason :: reason
  dh_FailureCount :: int
  dh_LastSuccessAt :: time
  dh_LastObservedAt :: time
  dh_LastOutcomeSuccess :: bool
  dh_HasOutcome :: bool
  dh_TemperatureC :: "f64 option"
  dh_TemperatureWarningC :: "f64 option"
  dh_UpstreamDeviceIDs :: "string list"
  dh_UnavailableUpstream :: "string list"
  dh_RootCauseDeviceIDs :: "string list"
  dh_AlertsEnabledPublished :: bool
  dh_HasAlertsEnabled :: bool

definition new_entry :: device_health where
  "new_entry = \<lparr>dh_HasState = False, dh_State = StateNone, dh_Reason = ReasonNone,
     dh_FailureCount = 0, dh_LastSuccessAt = 0, dh_LastObservedAt = 0, dh_LastOutcomeSuccess = False,
     dh_HasOutcome = False, dh_TemperatureC = None, dh_TemperatureWarningC = None,
     dh_UpstreamDeviceIDs = [], dh_UnavailableUpstream = [], dh_RootCauseDeviceIDs = [],
     dh_AlertsEnabledPublished = False, dh_HasAlertsEnabled = False\<rparr>"

type_synonym ledger = "(string, device_health) gomap"

section \<open>Small functions\<close>

fun stateRank :: "state \<Rightarrow> nat" where
  "stateRank StateHealthy = 4"
| "stateRank StateWarning = 3"
| "stateRank StateUnknown = 2"
| "stateRank StateCritical = 1"
| "stateRank StateNone = 0"

definition healthier :: "state \<Rightarrow> state \<Rightarrow> bool" where
  "healthier candidate baseline = (stateRank candidate > stateRank baseline)"

definition isRecovery :: "state \<Rightarrow> state \<Rightarrow> bool" where
  "isRecovery previous next =
     (if previous \<in> {StateCritical, StateUnknown, StateWarning} then healthier next previous else False)"

definition classifyTransition :: "bool \<Rightarrow> state \<Rightarrow> state \<Rightarrow> transition" where
  "classifyTransition hasState previous next =
     (if \<not> hasState then TransitionInitial
      else if isRecovery previous next then TransitionRecovered
      else if previous \<noteq> next then TransitionEntered
      else TransitionEntered)"

definition previousStatePtr :: "device_health \<Rightarrow> state option" where
  "previousStatePtr e = (if \<not> dh_HasState e then None else Some (dh_State e))"

definition normalizeIDs :: "string list \<Rightarrow> string list" where
  "normalizeIDs ids = sort (dedup_first [] (filter (\<lambda>i. i \<noteq> []) ids))"

section \<open>Prune, Device and Snapshot\<close>

definition Prune :: "string list \<Rightarrow> ledger \<Rightarrow> ledger" where
  "Prune activeIDs devs = mprune (\<lambda>i _. i \<in> set activeIDs) devs"

definition Device :: "ledger \<Rightarrow> string \<Rightarrow> device_health option" where
  "Device devs i = map_of devs i"

record snapshot =
  sn_Healthy :: nat
  sn_Warning :: nat
  sn_Critical :: nat
  sn_Unknown :: nat
  sn_DependencyImpacted :: nat
  sn_PendingFailures :: nat

definition count_state :: "state \<Rightarrow> snapshot \<Rightarrow> snapshot" where
  "count_state st s = (case st of
      StateHealthy \<Rightarrow> s\<lparr>sn_Healthy := Suc (sn_Healthy s)\<rparr>
    | StateWarning \<Rightarrow> s\<lparr>sn_Warning := Suc (sn_Warning s)\<rparr>
    | StateCritical \<Rightarrow> s\<lparr>sn_Critical := Suc (sn_Critical s)\<rparr>
    | StateUnknown \<Rightarrow> s\<lparr>sn_Unknown := Suc (sn_Unknown s)\<rparr>
    | StateNone \<Rightarrow> s)"

definition count_entry :: "device_health \<Rightarrow> snapshot \<Rightarrow> snapshot" where
  "count_entry e s =
     (if \<not> dh_HasState e then
        (if dh_FailureCount e > 0 then s\<lparr>sn_PendingFailures := Suc (sn_PendingFailures s)\<rparr> else s)
      else
        (let s1 = count_state (dh_State e) s;
             s2 = (if dh_State e = StateUnknown
                   then s1\<lparr>sn_DependencyImpacted := Suc (sn_DependencyImpacted s1)\<rparr> else s1)
         in if dh_FailureCount e > 0 \<and> dh_State e \<noteq> StateCritical \<and> dh_State e \<noteq> StateUnknown
            then s2\<lparr>sn_PendingFailures := Suc (sn_PendingFailures s2)\<rparr> else s2))"

definition Snapshot :: "ledger \<Rightarrow> snapshot" where
  "Snapshot devs = fold (\<lambda>(_, e). count_entry e) devs
     \<lparr>sn_Healthy = 0, sn_Warning = 0, sn_Critical = 0, sn_Unknown = 0,
      sn_DependencyImpacted = 0, sn_PendingFailures = 0\<rparr>"

section \<open>The evaluation order\<close>

definition edge_ups :: "(string, device_config) gomap \<Rightarrow> string \<Rightarrow> string list" where
  "edge_ups index i =
     filter (\<lambda>u. map_of index u \<noteq> None) (normalizeIDs (upstreams_of index i))"

text \<open>\<open>children[up]\<close>, sorted, and the initial in-degrees.\<close>

definition children_of :: "(string, device_config) gomap \<Rightarrow> string \<Rightarrow> string list" where
  "children_of index u = sort (filter (\<lambda>i. u \<in> set (edge_ups index i)) (map fst index))"

definition initial_indegree :: "(string, device_config) gomap \<Rightarrow> (string, int) gomap" where
  "initial_indegree index = map (\<lambda>(i, _). (i, int (length (edge_ups index i)))) index"

definition indeg :: "(string, int) gomap \<Rightarrow> string \<Rightarrow> int" where
  "indeg m i = (case map_of m i of None \<Rightarrow> 0 | Some n \<Rightarrow> n)"

fun relax :: "string list \<Rightarrow> (string, int) gomap \<Rightarrow> string list \<Rightarrow> (string, int) gomap \<times> string list" where
  "relax [] m queue = (m, queue)"
| "relax (c # cs) m queue =
     (let m' = AList.update c (indeg m c - 1) m
      in relax cs m' (if indeg m' c = 0 then sort (queue @ [c]) else queue))"

definition open_nodes :: "(string, int) gomap \<Rightarrow> nat" where
  "open_nodes m = card {i. indeg m i > 0}"

lemma finite_open: "finite {i. indeg m i > 0}"
  by (rule finite_subset [of _ "fst ` set m"])
     (auto simp: indeg_def dest: map_of_SomeD split: option.splits intro: rev_image_eqI)

lemma indeg_update: "indeg (AList.update c v m) i = (if i = c then v else indeg m i)"
  by (simp add: indeg_def go_simps)

lemma relax_measure:
  "relax cs m q = (m', q') \<Longrightarrow> open_nodes m' + length q' \<le> open_nodes m + length q"
proof (induction cs m q rule: relax.induct)
  case (2 c cs m queue)
  let ?m = "AList.update c (indeg m c - 1) m"
  let ?q = "if indeg ?m c = 0 then sort (queue @ [c]) else queue"
  have "open_nodes ?m + length ?q \<le> open_nodes m + length queue"
  proof (cases "indeg m c = 1")
    case True
    then have "{i. indeg ?m i > 0} = {i. indeg m i > 0} - {c}" and "c \<in> {i. indeg m i > 0}"
      by (auto simp: indeg_update)
    then have "Suc (open_nodes ?m) = open_nodes m"
      unfolding open_nodes_def using finite_open by (simp only: card_Suc_Diff1)
    with True show ?thesis by (simp add: indeg_update)
  next
    case False
    have "{i. indeg ?m i > 0} \<subseteq> {i. indeg m i > 0}" by (auto simp: indeg_update split: if_splits)
    then have "open_nodes ?m \<le> open_nodes m"
      unfolding open_nodes_def by (rule card_mono [OF finite_open])
    with False show ?thesis by (simp add: indeg_update)
  qed
  moreover from 2 have "open_nodes m' + length q' \<le> open_nodes ?m + length ?q"
    by (simp add: Let_def)
  ultimately show ?case by linarith
qed simp

function kahn :: "(string \<Rightarrow> string list) \<Rightarrow> (string, int) gomap \<Rightarrow> string list \<Rightarrow> string list \<Rightarrow> string list" where
  "kahn children m [] order = order"
| "kahn children m (i # queue) order =
     (case relax (children i) m queue of (m', queue') \<Rightarrow> kahn children m' queue' (order @ [i]))"
  by pat_completeness auto
termination
  by (relation "measure (\<lambda>(children, m, queue, order). open_nodes m + length queue)")
     (auto dest!: relax_measure [OF sym])

definition topologicalOrder :: "(string, device_config) gomap \<Rightarrow> string list" where
  "topologicalOrder index =
     (let ids = sort (map fst index);
          m = initial_indegree index;
          queue = filter (\<lambda>i. indeg m i = 0) ids;
          order = kahn (children_of index) m queue []
      in if length order < length index then order @ filter (\<lambda>i. i \<notin> set order) ids else order)"

section \<open>Evaluation\<close>

record evaluated =
  el_state :: state
  el_reason :: reason
  el_temperatureC :: "f64 option"
  el_unavailable :: "string list"
  el_rootCauses :: "string list"

partial_function (option) walk :: "(string \<Rightarrow> device_health option) \<Rightarrow> string list \<Rightarrow> string list
    \<Rightarrow> string list option" where
  "walk devs ids out =
     (case ids of
        [] \<Rightarrow> Some out
      | i # rest \<Rightarrow>
          Option.bind
            (case devs i of
               None \<Rightarrow> Some out
             | Some e \<Rightarrow>
                 if \<not> dh_HasState e then Some out
                 else if dh_State e = StateCritical
                   then Some (if i \<in> set out then out else out @ [i])
                 else if dh_State e = StateUnknown then walk devs (dh_UnavailableUpstream e) out
                 else Some out)
            (\<lambda>out'. walk devs rest out'))"

declare walk.simps [code]

definition collectRootCauses :: "ledger \<Rightarrow> string list \<Rightarrow> string list option" where
  "collectRootCauses devs unavailable = map_option sort (walk (map_of devs) unavailable [])"

definition evaluateSuccess :: "device_health \<Rightarrow> f64 \<Rightarrow> evaluated" where
  "evaluateSuccess e warningC =
     (if (case dh_TemperatureC e of None \<Rightarrow> False | Some t \<Rightarrow> f64_le warningC t)
      then \<lparr>el_state = StateWarning, el_reason = ReasonTemperatureThreshold,
            el_temperatureC = dh_TemperatureC e, el_unavailable = [], el_rootCauses = []\<rparr>
      else \<lparr>el_state = StateHealthy, el_reason = ReasonReachable,
            el_temperatureC = dh_TemperatureC e, el_unavailable = [], el_rootCauses = []\<rparr>)"

definition direct_unreachable :: evaluated where
  "direct_unreachable = \<lparr>el_state = StateCritical, el_reason = ReasonDirectUnreachable,
     el_temperatureC = None, el_unavailable = [], el_rootCauses = []\<rparr>"

datatype upstream_class = UpSuccess | UpPending | UpUnavailable

text \<open>The body of the loop over the upstreams: which branch the iteration takes.\<close>

definition classify_upstream :: "ledger \<Rightarrow> int \<Rightarrow> string \<Rightarrow> upstream_class" where
  "classify_upstream devs threshold upID =
     (case map_of devs upID of
        None \<Rightarrow> UpPending
      | Some up \<Rightarrow>
          if \<not> dh_HasOutcome up then UpPending
          else if dh_LastOutcomeSuccess up then UpSuccess
          else if dh_FailureCount up < threshold then UpPending
          else if \<not> dh_HasState up \<or> (dh_State up \<noteq> StateCritical \<and> dh_State up \<noteq> StateUnknown)
          then UpPending
          else UpUnavailable)"

text \<open>
  The results of \<open>evaluateFailure\<close> and \<open>evaluateDevice\<close>: the outer \<open>None\<close> is the recursion that
  does not return, the inner \<open>None\<close> is \<open>ok = false\<close>.
\<close>

definition evaluateFailure :: "ledger \<Rightarrow> string list \<Rightarrow> int \<Rightarrow> evaluated option option" where
  "evaluateFailure devs upstreams threshold =
     (if upstreams = [] then Some (Some direct_unreachable)
      else
        (let anySuccess = list_ex (\<lambda>u. classify_upstream devs threshold u = UpSuccess) upstreams;
             anyPending = list_ex (\<lambda>u. classify_upstream devs threshold u = UpPending) upstreams;
             unavailable = filter (\<lambda>u. classify_upstream devs threshold u = UpUnavailable) upstreams
         in if anySuccess then Some (Some direct_unreachable)
            else if anyPending \<or> length unavailable < length upstreams then Some None
            else map_option (\<lambda>roots. Some
                   \<lparr>el_state = StateUnknown, el_reason = ReasonUpstreamUnreachable,
                    el_temperatureC = None, el_unavailable = sort unavailable, el_rootCauses = roots\<rparr>)
                 (collectRootCauses devs (sort unavailable))))"

definition evaluateDevice :: "ledger \<Rightarrow> device_health \<Rightarrow> string list \<Rightarrow> f64 \<Rightarrow> int
    \<Rightarrow> evaluated option option" where
  "evaluateDevice devs e upstreams warningC threshold =
     (if \<not> dh_HasOutcome e then Some None
      else if dh_LastOutcomeSuccess e then Some (Some (evaluateSuccess e warningC))
      else if dh_FailureCount e < threshold then Some None
      else evaluateFailure devs upstreams threshold)"

section \<open>ApplyBatch\<close>

definition ensure_entries :: "string list \<Rightarrow> ledger \<Rightarrow> ledger" where
  "ensure_entries ids devs =
     fold (\<lambda>i m. if map_of m i = None then AList.update i new_entry m else m) ids devs"

definition record_outcome :: "poll_outcome \<Rightarrow> device_health \<Rightarrow> device_health" where
  "record_outcome po e =
     (let e1 = e\<lparr>dh_HasOutcome := True, dh_LastOutcomeSuccess := po_Success po,
                 dh_LastObservedAt := po_ObservedAt po, dh_TemperatureC := po_TemperatureC po\<rparr>
      in if po_Success po
         then e1\<lparr>dh_FailureCount := 0, dh_LastSuccessAt := po_ObservedAt po\<rparr>
         else e1\<lparr>dh_FailureCount := dh_FailureCount e1 + 1\<rparr>)"

definition apply_outcome :: "poll_outcome \<Rightarrow> ledger \<Rightarrow> ledger" where
  "apply_outcome po devs =
     (case map_of devs (po_DeviceID po) of
        None \<Rightarrow> devs
      | Some e \<Rightarrow> AList.update (po_DeviceID po) (record_outcome po e) devs)"

definition should_emit :: "device_health \<Rightarrow> evaluated \<Rightarrow> bool \<Rightarrow> bool" where
  "should_emit e d policyChanged \<longleftrightarrow>
     \<not> dh_HasState e \<or> dh_State e \<noteq> el_state d \<or> dh_Reason e \<noteq> el_reason d \<or> policyChanged"

definition commit_entry :: "device_health \<Rightarrow> evaluated \<Rightarrow> f64 \<Rightarrow> string list \<Rightarrow> bool \<Rightarrow> device_health" where
  "commit_entry e d warningC upstreams alertsEnabled = e\<lparr>
     dh_HasState := True,
     dh_State := el_state d,
     dh_Reason := el_reason d,
     dh_TemperatureC := el_temperatureC d,
     dh_TemperatureWarningC := Some warningC,
     dh_UpstreamDeviceIDs := upstreams,
     dh_UnavailableUpstream := el_unavailable d,
     dh_RootCauseDeviceIDs := el_rootCauses d,
     dh_AlertsEnabledPublished := alertsEnabled,
     dh_HasAlertsEnabled := True\<rparr>"

definition transition_of :: "device_health \<Rightarrow> evaluated \<Rightarrow> bool \<Rightarrow> transition" where
  "transition_of e d policyChanged =
     (if policyChanged \<and> dh_State e = el_state d \<and> dh_Reason e = el_reason d
      then TransitionReasserted
      else classifyTransition (dh_HasState e) (dh_State e) (el_state d))"

definition event_reason :: "device_health \<Rightarrow> evaluated \<Rightarrow> reason" where
  "event_reason e d =
     (if classifyTransition (dh_HasState e) (dh_State e) (el_state d) = TransitionRecovered
      then ReasonRecovered else el_reason d)"

definition make_event :: "string \<Rightarrow> int \<Rightarrow> string \<Rightarrow> device_health \<Rightarrow> evaluated \<Rightarrow> f64 \<Rightarrow> string list
    \<Rightarrow> bool \<Rightarrow> bool \<Rightarrow> event" where
  "make_event i threshold policyRevision e d warningC upstreams alertsEnabled policyChanged =
     \<lparr>ev_DeviceID = i, ev_State = el_state d, ev_Reason = event_reason e d,
      ev_PreviousState = previousStatePtr e, ev_Transition = transition_of e d policyChanged,
      ev_FailureCount = dh_FailureCount e, ev_FailureThreshold = threshold,
      ev_TemperatureC = el_temperatureC d, ev_TemperatureWarningC = Some warningC,
      ev_TemperaturePolicyRevision = policyRevision, ev_UpstreamDeviceIDs = upstreams,
      ev_UnavailableUpstream = el_unavailable d, ev_RootCauseDeviceIDs = el_rootCauses d,
      ev_AlertsEnabled = alertsEnabled,
      ev_ObservedAt = (if IsZero (dh_LastObservedAt e) then dh_LastSuccessAt e else dh_LastObservedAt e)\<rparr>"

text \<open>
  One iteration of the loop over the order.  A missing device or entry cannot occur: the order
  lists the keys of the index, and every key has an entry; the model leaves the ledger alone
  (\<open>apply_loop_entries\<close> shows the entries stay).
\<close>

definition eval_step :: "config \<Rightarrow> int \<Rightarrow> string \<Rightarrow> (string, device_config) gomap \<Rightarrow> string \<Rightarrow> ledger
    \<Rightarrow> (ledger \<times> event list) option" where
  "eval_step cfg threshold policyRevision index i devs =
     (case (map_of index i, map_of devs i) of
        (Some device, Some e) \<Rightarrow>
          (let warningC = EffectiveTemperatureWarningC device (c_TemperatureWarningC cfg);
               upstreams = normalizeIDs (ups device)
           in case evaluateDevice devs e upstreams warningC threshold of
                None \<Rightarrow> None
              | Some None \<Rightarrow> Some (devs, [])
              | Some (Some d) \<Rightarrow>
                  (let alertsEnabled = AlertsEnabledOrDefault device;
                       policyChanged = (dh_HasState e \<and> dh_HasAlertsEnabled e
                          \<and> dh_AlertsEnabledPublished e \<noteq> alertsEnabled);
                       devs' = AList.update i (commit_entry e d warningC upstreams alertsEnabled) devs
                   in Some (devs',
                        if should_emit e d policyChanged
                        then [make_event i threshold policyRevision e d warningC upstreams
                                alertsEnabled policyChanged]
                        else [])))
      | _ \<Rightarrow> Some (devs, []))"

fun eval_loop :: "config \<Rightarrow> int \<Rightarrow> string \<Rightarrow> (string, device_config) gomap \<Rightarrow> string list \<Rightarrow> ledger
    \<Rightarrow> (ledger \<times> event list) option" where
  "eval_loop cfg threshold policyRevision index [] devs = Some (devs, [])"
| "eval_loop cfg threshold policyRevision index (i # ids) devs =
     (case eval_step cfg threshold policyRevision index i devs of
        None \<Rightarrow> None
      | Some (devs', evs) \<Rightarrow>
          (case eval_loop cfg threshold policyRevision index ids devs' of
             None \<Rightarrow> None
           | Some (devs'', evs') \<Rightarrow> Some (devs'', evs @ evs')))"

definition effective_threshold :: "config \<Rightarrow> int" where
  "effective_threshold cfg = (if c_FailureThreshold cfg < 1 then 1 else c_FailureThreshold cfg)"

text \<open>The first half of \<open>ApplyBatch\<close>: entries for new devices, then the outcomes.\<close>

definition commit_outcomes :: "config \<Rightarrow> poll_outcome list \<Rightarrow> ledger \<Rightarrow> ledger" where
  "commit_outcomes cfg outcomes devs =
     fold apply_outcome outcomes (ensure_entries (map fst (device_index (c_Devices cfg))) devs)"

definition ApplyBatch :: "string \<Rightarrow> config option \<Rightarrow> poll_outcome list \<Rightarrow> ledger
    \<Rightarrow> (ledger \<times> event list) option" where
  "ApplyBatch policyRevision cfgOpt outcomes devs =
     (case cfgOpt of
        None \<Rightarrow> Some (devs, [])
      | Some cfg \<Rightarrow>
          (let index = device_index (c_Devices cfg);
               devs1 = commit_outcomes cfg outcomes devs
           in map_option (\<lambda>(devs', evs). (devs', sort_key ev_DeviceID evs))
                (eval_loop cfg (effective_threshold cfg) policyRevision index
                   (topologicalOrder index) devs1)))"

end
