(* ===== verification/HealthOrder.thy ===== *)
theory HealthOrder
  imports HealthTracker "HOL-Library.Multiset"
begin

text \<open>
  The evaluation order of the tracker (\<open>topologicalOrder\<close> in \<open>health/tracker.go\<close>): it lists every
  device once, whatever the configuration, and puts every device after its upstreams when the
  dependencies have no cycle, which is what \<open>validateDependencies\<close> accepts.
\<close>

section \<open>Kahn's loop\<close>

lemma relax_spec:
  "relax cs m q = (m', q') \<Longrightarrow> distinct cs \<Longrightarrow>
     (\<forall>i. indeg m' i = indeg m i - (if i \<in> set cs then 1 else 0)) \<and>
     mset q' = mset q + mset (filter (\<lambda>c. indeg m c = 1) cs)"
proof (induction cs m q rule: relax.induct)
  case (2 c cs m q)
  let ?m = "AList.update c (indeg m c - 1) m"
  let ?q = "if indeg ?m c = 0 then sort (q @ [c]) else q"
  from "2.prems" have r: "relax cs ?m ?q = (m', q')" by (simp add: Let_def)
  have dist: "distinct cs" "c \<notin> set cs" using "2.prems"(2) by auto
  from "2.IH" [OF refl r dist(1)]
  have IH: "\<forall>i. indeg m' i = indeg ?m i - (if i \<in> set cs then 1 else 0)"
    "mset q' = mset ?q + mset (filter (\<lambda>c. indeg ?m c = 1) cs)" by auto
  have f: "filter (\<lambda>c. indeg ?m c = 1) cs = filter (\<lambda>c. indeg m c = 1) cs"
    using dist(2) by (intro filter_cong) (auto simp: indeg_update)
  have "mset q' = mset q + mset (filter (\<lambda>c. indeg m c = 1) (c # cs))"
    using IH(2) unfolding f by (auto simp: indeg_update simp del: mset_filter)
  moreover have "\<forall>i. indeg m' i = indeg m i - (if i \<in> set (c # cs) then 1 else 0)"
    using IH(1) dist(2) by (auto simp: indeg_update)
  ultimately show ?case by blast
qed simp

text \<open>The invariant of the loop, for distinct keys \<open>K\<close> and upstreams \<open>E\<close> within the keys.\<close>

definition kahn_inv :: "string set \<Rightarrow> (string \<Rightarrow> string list) \<Rightarrow> (string, int) gomap \<Rightarrow> string list
    \<Rightarrow> string list \<Rightarrow> bool" where
  "kahn_inv K E m queue order \<longleftrightarrow>
     distinct (order @ queue) \<and> set (order @ queue) \<subseteq> K \<and>
     (\<forall>i \<in> K. indeg m i = int (length (filter (\<lambda>u. u \<notin> set order) (E i)))) \<and>
     (\<forall>i \<in> K. i \<in> set (order @ queue) \<longleftrightarrow> indeg m i = 0) \<and>
     (\<forall>xs i ys. order = xs @ i # ys \<longrightarrow> set (E i) \<subseteq> set xs)"

lemma filter_remove_one:
  "distinct xs \<Longrightarrow> x \<notin> S \<Longrightarrow>
   int (length (filter (\<lambda>u. u \<notin> insert x S) xs)) =
     int (length (filter (\<lambda>u. u \<notin> S) xs)) - (if x \<in> set xs then 1 else 0)"
  by (induction xs) (auto intro!: arg_cong [where f = length] filter_cong)

lemma snoc_split: "order @ [i] = xs @ j # ys \<Longrightarrow> (ys = [] \<and> j = i \<and> xs = order) \<or> (\<exists>zs. order = xs @ j # zs)"
  by (induction ys rule: rev_induct) auto

lemma kahn_inv_step:
  assumes inv: "kahn_inv K E m (i # queue) order"
    and r: "relax (children i) m queue = (m', queue')"
    and ch: "distinct (children i)" "set (children i) = {c \<in> K. i \<in> set (E c)}"
    and E: "\<And>c. distinct (E c)"
  shows "kahn_inv K E m' queue' (order @ [i])"
proof -
  note spec = relax_spec [OF r ch(1)]
  have deg: "indeg m' c = indeg m c - (if c \<in> K \<and> i \<in> set (E c) then 1 else 0)" for c
    using spec ch(2) by simp
  have setq: "set queue' = set queue \<union> {c \<in> set (children i). indeg m c = 1}"
    using arg_cong [OF conjunct2 [OF spec], of set_mset] by auto
  have i: "i \<in> K" "i \<notin> set order" "i \<notin> set queue" "indeg m i = 0"
    using inv by (auto simp: kahn_inv_def)
  have deg_len: "indeg m c = int (length (filter (\<lambda>u. u \<notin> set order) (E c)))" if "c \<in> K" for c
    using inv that by (simp add: kahn_inv_def)
  have zero: "c \<in> set (order @ i # queue) \<longleftrightarrow> indeg m c = 0" if "c \<in> K" for c
    using inv that unfolding kahn_inv_def by blast
  have child_pos: "indeg m c \<ge> 1" if "c \<in> K" "i \<in> set (E c)" for c
  proof -
    have "i \<in> set (filter (\<lambda>u. u \<notin> set order) (E c))" using that i by simp
    then have "length (filter (\<lambda>u. u \<notin> set order) (E c)) > 0" by (rule length_pos_if_in_set)
    then show ?thesis unfolding deg_len [OF that(1)] by linarith
  qed
  have "distinct queue'"
  proof -
    have "mset queue' = mset (queue @ filter (\<lambda>c. indeg m c = 1) (children i))"
      using spec by simp
    moreover have "distinct queue" using inv by (simp add: kahn_inv_def)
    moreover have "c \<notin> set queue" if "c \<in> set (children i)" "indeg m c = 1" for c
      using zero [of c] that ch(2) by auto
    ultimately show ?thesis using ch(1) mset_eq_imp_distinct_iff by fastforce
  qed
  moreover have "set queue' \<inter> set (order @ [i]) = {}"
  proof -
    have "set queue \<inter> set (order @ [i]) = {}" using inv by (auto simp: kahn_inv_def)
    moreover have "c \<notin> set (order @ [i])" if "c \<in> set (children i)" "indeg m c = 1" for c
      using zero [of c] that ch(2) by auto
    ultimately show ?thesis using setq by blast
  qed
  moreover have "distinct (order @ [i])" using inv by (auto simp: kahn_inv_def)
  ultimately have c1: "distinct ((order @ [i]) @ queue')"
    by (metis Int_commute distinct_append)
  have c2: "set ((order @ [i]) @ queue') \<subseteq> K"
    using inv setq ch(2) by (auto simp: kahn_inv_def)
  have c3: "indeg m' c = int (length (filter (\<lambda>u. u \<notin> set (order @ [i])) (E c)))" if "c \<in> K" for c
    using filter_remove_one [OF E i(2), of c] deg [of c] deg_len [OF that] that by simp
  have c4: "c \<in> set ((order @ [i]) @ queue') \<longleftrightarrow> indeg m' c = 0" if "c \<in> K" for c
  proof (cases "i \<in> set (E c)")
    case True
    then have "c \<notin> set (order @ i # queue)" using child_pos [OF that] zero [OF that] by auto
    with True that show ?thesis using deg [of c] setq ch(2) by auto
  next
    case False
    then show ?thesis using deg [of c] setq ch(2) zero [OF that] by auto
  qed
  have c5: "set (E j) \<subseteq> set xs" if "order @ [i] = xs @ j # ys" for xs j ys
  proof -
    have "set (E i) \<subseteq> set order"
      using deg_len [OF i(1)] i(4) by (auto simp: filter_empty_conv)
    moreover have "\<And>zs. order = xs @ j # zs \<Longrightarrow> set (E j) \<subseteq> set xs"
      using inv by (simp add: kahn_inv_def)
    ultimately show ?thesis using snoc_split [OF that] by blast
  qed
  from c1 c2 c3 c4 c5 show ?thesis unfolding kahn_inv_def by blast
qed

lemma kahn_result:
  assumes "kahn_inv K E m queue order"
    and "\<And>i. distinct (children i)" "\<And>i. set (children i) = {c \<in> K. i \<in> set (E c)}"
    and "\<And>c. distinct (E c)"
  shows "\<exists>m'. kahn_inv K E m' [] (kahn children m queue order)"
  using assms
proof (induction children m queue order rule: kahn.induct)
  case (2 children m i queue order)
  obtain m' queue' where r: "relax (children i) m queue = (m', queue')" by fastforce
  have "kahn_inv K E m' queue' (order @ [i])"
    by (rule kahn_inv_step [where children = children, OF "2.prems"(1) r]) (use "2.prems" in auto)
  from "2.IH" [OF r [symmetric] this "2.prems"(2-4)] r show ?case by simp
qed auto

section \<open>The order\<close>

lemma distinct_normalizeIDs [simp]: "distinct (normalizeIDs ids)"
  by (simp add: normalizeIDs_def distinct_dedup_first)

lemma set_normalizeIDs: "set (normalizeIDs ids) = set ids - {[]}"
  by (auto simp: normalizeIDs_def set_dedup_first)

lemma sorted_normalizeIDs: "sorted (normalizeIDs ids)"
  by (simp add: normalizeIDs_def)

lemma edge_ups_keys: "set (edge_ups index i) \<subseteq> dom (map_of index)"
  by (auto simp: edge_ups_def)

lemma distinct_edge_ups [simp]: "distinct (edge_ups index i)"
  by (simp add: edge_ups_def)

lemma kahn_initial:
  assumes "distinct (map fst index)"
  shows "kahn_inv (set (map fst index)) (edge_ups index) (initial_indegree index)
     (filter (\<lambda>i. indeg (initial_indegree index) i = 0) (sort (map fst index))) []"
proof -
  have "indeg (initial_indegree index) i = int (length (edge_ups index i))" if "i \<in> set (map fst index)" for i
  proof -
    have "map_of (map (\<lambda>(j, _). (j, int (length (edge_ups index j)))) xs) i =
        Some (int (length (edge_ups index i)))" if "i \<in> set (map fst xs)" for xs :: "(string, device_config) gomap"
      using that by (induction xs) auto
    with that show ?thesis by (simp add: indeg_def initial_indegree_def)
  qed
  with assms show ?thesis by (auto simp: kahn_inv_def)
qed

text \<open>What the order is, for any index with distinct keys.\<close>

lemma topologicalOrder_split:
  fixes index :: "(string, device_config) gomap"
  assumes dist: "distinct (map fst index)"
  obtains m order rest where "kahn_inv (set (map fst index)) (edge_ups index) m [] order"
    and "topologicalOrder index = order @ rest"
    and "rest = filter (\<lambda>i. i \<notin> set order) (sort (map fst index))"
proof -
  let ?K = "set (map fst index)"
  let ?q = "filter (\<lambda>i. indeg (initial_indegree index) i = 0) (sort (map fst index))"
  let ?order = "kahn (children_of index) (initial_indegree index) ?q []"
  have "\<exists>m'. kahn_inv ?K (edge_ups index) m' [] ?order"
    by (rule kahn_result [OF kahn_initial [OF dist]])
       (use dist in \<open>auto simp: children_of_def\<close>)
  then obtain m where inv: "kahn_inv ?K (edge_ups index) m [] ?order" by blast
  show ?thesis
  proof (cases "length ?order < length index")
    case True
    then have "topologicalOrder index = ?order @ filter (\<lambda>i. i \<notin> set ?order) (sort (map fst index))"
      by (simp add: topologicalOrder_def Let_def)
    with inv that show ?thesis by blast
  next
    case False
    have "distinct ?order" "set ?order \<subseteq> ?K" using inv by (auto simp: kahn_inv_def)
    moreover have "card ?K = length index" using distinct_card [OF dist] by (simp del: set_map)
    then have "card ?K \<le> card (set ?order)"
      using calculation(1) False by (simp add: distinct_card del: set_map)
    ultimately have "set ?order = ?K" by (meson card_seteq List.finite_set)
    then have "filter (\<lambda>i. i \<notin> set ?order) (sort (map fst index)) = []"
      by (simp add: filter_empty_conv)
    moreover have "topologicalOrder index = ?order" using False by (simp add: topologicalOrder_def Let_def)
    ultimately show ?thesis using inv that by (metis append_Nil2)
  qed
qed

lemma topologicalOrder_set:
  assumes "distinct (map fst index)"
  shows "distinct (topologicalOrder index) \<and> set (topologicalOrder index) = set (map fst index)"
proof -
  obtain m order rest where "kahn_inv (set (map fst index)) (edge_ups index) m [] order"
    "topologicalOrder index = order @ rest"
    "rest = filter (\<lambda>i. i \<notin> set order) (sort (map fst index))"
    by (rule topologicalOrder_split [OF assms])
  with assms show ?thesis by (auto simp: kahn_inv_def)
qed

definition edges :: "(string, device_config) gomap \<Rightarrow> (string \<times> string) set" where
  "edges index = {(u, i). i \<in> set (map fst index) \<and> u \<in> set (edge_ups index i)}"

lemma finite_edges: "finite (edges index)"
proof -
  have "edges index \<subseteq> (\<Union>i \<in> set (map fst index). (\<lambda>u. (u, i)) ` set (edge_ups index i))"
    by (auto simp: edges_def)
  then show ?thesis by (rule finite_subset) simp
qed

lemma topologicalOrder_upstreams_first:
  assumes dist: "distinct (map fst index)" and acyc: "acyclic (edges index)"
    and split: "topologicalOrder index = xs @ i # ys" and u: "u \<in> set (edge_ups index i)"
  shows "u \<in> set xs"
proof -
  obtain m order rest where inv: "kahn_inv (set (map fst index)) (edge_ups index) m [] order"
    and eq: "topologicalOrder index = order @ rest"
    and rest: "rest = filter (\<lambda>i. i \<notin> set order) (sort (map fst index))"
    by (rule topologicalOrder_split [OF dist])
  have "set order = set (map fst index)"
  proof (rule ccontr)
    assume "set order \<noteq> set (map fst index)"
    then obtain j where j: "j \<in> set (map fst index) - set order"
      using inv by (auto simp: kahn_inv_def)
    have "wf (edges index)" by (rule finite_acyclic_wf [OF finite_edges acyc])
    then obtain z where z: "z \<in> set (map fst index) - set order"
      and min: "\<And>y. (y, z) \<in> edges index \<Longrightarrow> y \<notin> set (map fst index) - set order"
      using j by (rule wfE_min) blast
    have "set (edge_ups index z) \<subseteq> set order"
    proof
      fix y assume y: "y \<in> set (edge_ups index z)"
      then have "(y, z) \<in> edges index" using z by (simp add: edges_def)
      moreover have "y \<in> set (map fst index)"
        using y edge_ups_keys [of index z] by (auto simp: dom_map_of_conv_image_fst)
      ultimately show "y \<in> set order" using min by blast
    qed
    then have "filter (\<lambda>u. u \<notin> set order) (edge_ups index z) = []"
      by (auto simp: filter_empty_conv)
    moreover have "indeg m z = int (length (filter (\<lambda>u. u \<notin> set order) (edge_ups index z)))"
      using inv z unfolding kahn_inv_def by blast
    ultimately have "indeg m z = 0" by simp
    then have "z \<in> set order" using inv z unfolding kahn_inv_def by (metis DiffD1 append_Nil2)
    with z show False by simp
  qed
  then have "rest = []" using rest by (simp add: filter_empty_conv)
  with eq split have "order = xs @ i # ys" by simp
  with inv u show ?thesis unfolding kahn_inv_def by blast
qed

end
