(* ===== verification/HealthWalk.thy ===== *)
theory HealthWalk
  imports HealthOrder
begin

text \<open>
  The search for root causes (\<open>collectRootCauses\<close> in \<open>health/tracker.go\<close>).  \<open>unav\<close> is the relation
  it follows: from a device whose ledger state is \<open>unknown\<close> to the upstreams recorded as unavailable.
  The search returns exactly when the devices it starts from are accessible in that relation, and
  then finds the critical devices reachable by it.
\<close>

definition unav :: "(string \<Rightarrow> device_health option) \<Rightarrow> (string \<times> string) set" where
  "unav devs = {(u, i). \<exists>e. devs i = Some e \<and> dh_HasState e \<and> dh_State e = StateUnknown
      \<and> u \<in> set (dh_UnavailableUpstream e)}"

definition critical :: "(string \<Rightarrow> device_health option) \<Rightarrow> string \<Rightarrow> bool" where
  "critical devs i \<longleftrightarrow> (\<exists>e. devs i = Some e \<and> dh_HasState e \<and> dh_State e = StateCritical)"

text \<open>One device of the search, as an equation.\<close>

definition walk_at :: "(string \<Rightarrow> device_health option) \<Rightarrow> string \<Rightarrow> string list \<Rightarrow> string list option" where
  "walk_at devs i out = (case devs i of
       None \<Rightarrow> Some out
     | Some e \<Rightarrow>
         if \<not> dh_HasState e then Some out
         else if dh_State e = StateCritical then Some (if i \<in> set out then out else out @ [i])
         else if dh_State e = StateUnknown then walk devs (dh_UnavailableUpstream e) out
         else Some out)"

lemma walk_Nil [simp]: "walk devs [] out = Some out"
  by (simp add: walk.simps [of devs "[]"])

lemma walk_Cons: "walk devs (i # rest) out = Option.bind (walk_at devs i out) (walk devs rest)"
  by (simp add: walk.simps [of devs "i # rest"] walk_at_def)

lemma walk_Some_list:
  "(\<And>i out. i \<in> set ids \<Longrightarrow> \<exists>r. walk_at devs i out = Some r) \<Longrightarrow> \<exists>r. walk devs ids out = Some r"
proof (induction ids arbitrary: out)
  case (Cons i ids)
  obtain r where r: "walk_at devs i out = Some r" using Cons.prems [of i out] by auto
  have "\<exists>r'. walk devs ids r = Some r'" by (rule Cons.IH) (use Cons.prems in auto)
  with r show ?case by (simp add: walk_Cons)
qed simp

definition unknown :: "(string \<Rightarrow> device_health option) \<Rightarrow> string \<Rightarrow> device_health \<Rightarrow> bool" where
  "unknown devs i e \<longleftrightarrow> devs i = Some e \<and> dh_HasState e \<and> dh_State e = StateUnknown"

lemma unav_unknown: "unknown devs i e \<Longrightarrow> (u, i) \<in> unav devs \<longleftrightarrow> u \<in> set (dh_UnavailableUpstream e)"
  by (simp add: unknown_def unav_def)

lemma unav_not_unknown: "(\<And>e. \<not> unknown devs i e) \<Longrightarrow> (u, i) \<notin> unav devs"
  by (auto simp: unknown_def unav_def)

text \<open>The induction on the runs that return, by the two ways a device is handled.\<close>

lemma walk_run_induct [consumes 1, case_names Nil Stop Unknown]:
  assumes "walk devs ids out = Some r"
    and "\<And>out. P [] out out"
    and "\<And>i rest out out' r. (\<And>e. \<not> unknown devs i e) \<Longrightarrow> walk_at devs i out = Some out' \<Longrightarrow>
       P rest out' r \<Longrightarrow> P (i # rest) out r"
    and "\<And>i e rest out out' r. unknown devs i e \<Longrightarrow> P (dh_UnavailableUpstream e) out out' \<Longrightarrow>
       P rest out' r \<Longrightarrow> P (i # rest) out r"
  shows "P ids out r"
proof -
  have "d = devs \<longrightarrow> P ids out r" if w: "walk d ids out = Some r" for d
    using w
  proof (rule walk.raw_induct [where P = "\<lambda>d ids out r. d = devs \<longrightarrow> P ids out r", rotated], intro impI)
    fix f d ids out r
    assume IH: "\<And>d ids out r. f d ids out = Some r \<Longrightarrow> d = devs \<longrightarrow> P ids out r"
    assume body: "(case ids of [] \<Rightarrow> Some out
        | i # rest \<Rightarrow> Option.bind
             (case d i of None \<Rightarrow> Some out
              | Some e \<Rightarrow> if \<not> dh_HasState e then Some out
                  else if dh_State e = StateCritical then Some (if i \<in> set out then out else out @ [i])
                  else if dh_State e = StateUnknown then f d (dh_UnavailableUpstream e) out
                  else Some out)
             (f d rest)) = Some r"
    assume d: "d = devs"
    show "P ids out r"
    proof (cases ids)
      case Nil
      with body assms(2) show ?thesis by simp
    next
      case (Cons i rest)
      then obtain out' where
        at: "(case devs i of None \<Rightarrow> Some out
              | Some e \<Rightarrow> if \<not> dh_HasState e then Some out
                  else if dh_State e = StateCritical then Some (if i \<in> set out then out else out @ [i])
                  else if dh_State e = StateUnknown then f devs (dh_UnavailableUpstream e) out
                  else Some out) = Some out'" and rest: "f devs rest out' = Some r"
        using body d by (auto simp: bind_eq_Some_conv)
      show ?thesis
      proof (cases "\<exists>e. unknown devs i e")
        case True
        then obtain e where e: "unknown devs i e" by blast
        then have "f devs (dh_UnavailableUpstream e) out = Some out'" using at by (simp add: unknown_def)
        from assms(4) [OF e] IH [OF this] IH [OF rest] show ?thesis unfolding Cons by blast
      next
        case False
        then have "walk_at devs i out = Some out'"
          using at by (auto simp: walk_at_def unknown_def split: option.splits)
        from assms(3) [OF _ this] False IH [OF rest] show ?thesis unfolding Cons by blast
      qed
    qed
  qed
  with assms(1) show ?thesis by blast
qed

lemma walk_at_acc:
  assumes "i \<in> Wellfounded.acc (unav devs)"
  shows "\<exists>r. walk_at devs i out = Some r"
  using assms
proof (induction arbitrary: out rule: acc.induct)
  case (accI i)
  show ?case
  proof (cases "\<exists>e. unknown devs i e")
    case True
    then obtain e where e: "unknown devs i e" by blast
    have "\<exists>r. walk devs (dh_UnavailableUpstream e) out = Some r"
      by (rule walk_Some_list) (use accI e in \<open>auto simp: unav_unknown\<close>)
    with e show ?thesis by (simp add: walk_at_def unknown_def)
  next
    case False
    then show ?thesis by (auto simp: walk_at_def unknown_def split: option.splits)
  qed
qed

lemma walk_Some_acc:
  "walk devs ids out = Some r \<Longrightarrow> set ids \<subseteq> Wellfounded.acc (unav devs)"
proof (induction rule: walk_run_induct)
  case (Stop i rest out out' r)
  have "i \<in> Wellfounded.acc (unav devs)"
    by (rule accI) (use unav_not_unknown [OF Stop(1)] in blast)
  with Stop(3) show ?case by simp
next
  case (Unknown i e rest out out' r)
  have "i \<in> Wellfounded.acc (unav devs)"
    by (rule accI) (use unav_unknown [OF Unknown(1)] Unknown(2) in blast)
  with Unknown(3) show ?case by simp
qed simp

lemma walk_returns_iff:
  "(\<exists>r. walk devs ids out = Some r) \<longleftrightarrow> set ids \<subseteq> Wellfounded.acc (unav devs)"
  using walk_Some_acc walk_Some_list walk_at_acc by (metis subsetD subsetI)

text \<open>What the search finds.\<close>

lemma unav_reach_cases:
  "{c. critical devs c \<and> (c, i) \<in> (unav devs)\<^sup>*} =
     (if critical devs i then {i} else {}) \<union> {c. critical devs c \<and> (\<exists>u. (u, i) \<in> unav devs \<and> (c, u) \<in> (unav devs)\<^sup>*)}"
  by (auto elim: rtranclE intro: rtrancl_into_rtrancl)

lemma walk_result:
  "walk devs ids out = Some r \<Longrightarrow>
     set r = set out \<union> {c. critical devs c \<and> (\<exists>i \<in> set ids. (c, i) \<in> (unav devs)\<^sup>*)}
     \<and> (distinct out \<longrightarrow> distinct r)"
proof (induction rule: walk_run_induct)
  case (Stop i rest out out' r)
  have "set out' = set out \<union> {c. critical devs c \<and> (c, i) \<in> (unav devs)\<^sup>*} \<and>
      (distinct out \<longrightarrow> distinct out')"
    using Stop(1,2) unav_not_unknown [OF Stop(1)] unfolding unav_reach_cases [of devs i]
    by (auto simp: walk_at_def critical_def unknown_def split: option.splits if_splits)
  with Stop(3) show ?case by auto
next
  case (Unknown i e rest out out' r)
  have "\<not> critical devs i" using Unknown(1) by (simp add: critical_def unknown_def)
  then have "{c. critical devs c \<and> (c, i) \<in> (unav devs)\<^sup>*} =
      {c. critical devs c \<and> (\<exists>u \<in> set (dh_UnavailableUpstream e). (c, u) \<in> (unav devs)\<^sup>*)}"
    unfolding unav_reach_cases [of devs i] using unav_unknown [OF Unknown(1)] by auto
  with Unknown(2,3) show ?case by auto
qed simp

lemma collectRootCauses_Some:
  assumes "collectRootCauses devs unavailable = Some roots"
  shows "sorted roots \<and> distinct roots \<and>
    set roots = {c. critical (map_of devs) c \<and> (\<exists>i \<in> set unavailable. (c, i) \<in> (unav (map_of devs))\<^sup>*)}"
  using assms walk_result [of "map_of devs" unavailable "[]"]
  by (auto simp: collectRootCauses_def)

lemma collectRootCauses_returns:
  "(\<exists>r. collectRootCauses devs ids = Some r) \<longleftrightarrow> set ids \<subseteq> Wellfounded.acc (unav (map_of devs))"
  using walk_returns_iff [of "map_of devs" ids "[]"] by (auto simp: collectRootCauses_def)

end
