(* ===== verification/HealthCorrelation.thy ===== *)
theory HealthCorrelation
  imports HealthWalk
begin

text \<open>
  What a batch of the tracker does to the ledger: every batch of a configuration with acyclic
  dependencies returns, and when the outcome of every device is settled (a success, or as many
  failures as the threshold) each device ends in the state its dependencies call for: the roots
  of an outage are \<open>critical\<close>, what lies behind them is \<open>unknown\<close> and names those roots.
\<close>

section \<open>Valid indexes\<close>

definition nups :: "(string, device_config) gomap \<Rightarrow> string \<Rightarrow> string list" where
  "nups index i = normalizeIDs (upstreams_of index i)"

definition valid_index :: "(string, device_config) gomap \<Rightarrow> bool" where
  "valid_index index \<longleftrightarrow> distinct (map fst index) \<and>
     (\<forall>i. set (nups index i) \<subseteq> set (map fst index)) \<and> acyclic (dep_graph (upstreams_of index))"

lemma valid_index_device_index:
  assumes "validateDependencies ds = None"
  shows "valid_index (device_index ds)"
  using assms upstreams_in_index [of ds] keys_device_index [of ds] distinct_device_index [of ds]
  by (auto simp: validateDependencies_None valid_index_def nups_def set_normalizeIDs)

lemma distinct_nups [simp]: "distinct (nups index i)" "sorted (nups index i)"
  by (simp_all add: nups_def sorted_normalizeIDs)

lemma nups_dep: "u \<in> set (nups index i) \<Longrightarrow> (i, u) \<in> dep_graph (upstreams_of index)"
  by (simp add: nups_def set_normalizeIDs dep_graph_def)

lemma edge_ups_nups: "valid_index index \<Longrightarrow> edge_ups index i = nups index i"
  unfolding edge_ups_def nups_def [symmetric]
  by (intro filter_True) (auto simp: valid_index_def map_of_eq_None_iff)

lemma finite_dep_graph: "finite (dep_graph (upstreams_of index))"
proof -
  have "dep_graph (upstreams_of index) \<subseteq>
      (\<Union>i \<in> set (map fst index). Pair i ` set (upstreams_of index i))"
  proof
    fix p assume "p \<in> dep_graph (upstreams_of index)"
    then obtain i u where p: "p = (i, u)" "u \<in> set (upstreams_of index i)" by (auto simp: dep_graph_def)
    then have "map_of index i \<noteq> None" by (cases "map_of index i") (simp_all add: upstreams_of_def)
    then have "i \<in> set (map fst index)" by (simp add: map_of_eq_None_iff)
    with p show "p \<in> (\<Union>i \<in> set (map fst index). Pair i ` set (upstreams_of index i))" by blast
  qed
  then show ?thesis by (rule finite_subset) simp
qed

lemma wf_dep: "valid_index index \<Longrightarrow> wf ((dep_graph (upstreams_of index))\<inverse>)"
  by (simp add: valid_index_def finite_acyclic_wf_converse finite_dep_graph)

lemma acyclic_edges: "valid_index index \<Longrightarrow> acyclic (edges index)"
  by (rule wf_acyclic, rule wf_subset [OF wf_dep])
     (auto simp: edges_def edge_ups_nups dest: nups_dep)

lemma order_upstreams_first:
  "valid_index index \<Longrightarrow> topologicalOrder index = xs @ i # ys \<Longrightarrow> set (nups index i) \<subseteq> set xs"
  using topologicalOrder_upstreams_first [OF _ acyclic_edges, of index xs i ys]
  by (auto simp: edge_ups_nups valid_index_def)

section \<open>Frames\<close>

text \<open>The fields the outcomes set, which the evaluation only reads.\<close>

definition outcome_of :: "ledger \<Rightarrow> string \<Rightarrow> (bool \<times> bool \<times> int) option" where
  "outcome_of devs i = map_option
     (\<lambda>e. (dh_HasOutcome e, dh_LastOutcomeSuccess e, dh_FailureCount e)) (map_of devs i)"

lemma eval_step_cases:
  assumes "eval_step cfg t pr index i devs = Some (devs', evs)"
  obtains (same) "devs' = devs" "evs = []"
    | (commit) device e d where "map_of index i = Some device" "map_of devs i = Some e"
      "evaluateDevice devs e (normalizeIDs (ups device))
         (EffectiveTemperatureWarningC device (c_TemperatureWarningC cfg)) t = Some (Some d)"
      "devs' = AList.update i (commit_entry e d
          (EffectiveTemperatureWarningC device (c_TemperatureWarningC cfg))
          (normalizeIDs (ups device)) (AlertsEnabledOrDefault device)) devs"
proof -
  consider "map_of index i = None \<or> map_of devs i = None"
    | device e where "map_of index i = Some device" "map_of devs i = Some e" by fastforce
  then show thesis
  proof cases
    case 1
    with assms same show thesis by (auto simp: eval_step_def split: option.splits)
  next
    case (2 device e)
    let ?w = "EffectiveTemperatureWarningC device (c_TemperatureWarningC cfg)"
    let ?v = "evaluateDevice devs e (normalizeIDs (ups device)) ?w t"
    consider "?v = None" | "?v = Some None" | d where "?v = Some (Some d)" by (cases ?v) auto
    then show thesis
    proof cases
      case (3 d)
      with assms 2 show thesis by (intro commit [OF 2 3]) (simp add: eval_step_def Let_def)
    qed (use assms 2 same in \<open>simp_all add: eval_step_def Let_def\<close>)
  qed
qed

lemma eval_step_frame:
  assumes "eval_step cfg t pr index i devs = Some (devs', evs)"
  shows "(\<forall>j. j \<noteq> i \<longrightarrow> map_of devs' j = map_of devs j) \<and> outcome_of devs' = outcome_of devs"
  using assms
proof (cases rule: eval_step_cases)
  case (commit device e d)
  then show ?thesis by (auto simp: go_simps outcome_of_def commit_entry_def fun_eq_iff)
qed simp

lemma eval_loop_frame:
  "eval_loop cfg t pr index ids devs = Some (devs', evs) \<Longrightarrow>
     (\<forall>j. j \<notin> set ids \<longrightarrow> map_of devs' j = map_of devs j) \<and> outcome_of devs' = outcome_of devs"
proof (induction ids arbitrary: devs devs' evs)
  case (Cons i ids)
  from Cons.prems obtain d1 e1 e2 where d1: "eval_step cfg t pr index i devs = Some (d1, e1)"
    "eval_loop cfg t pr index ids d1 = Some (devs', e2)" by (auto split: option.splits)
  have "map_of devs' j = map_of devs j" if "j \<notin> set (i # ids)" for j
    using conjunct1 [OF eval_step_frame [OF d1(1)]] conjunct1 [OF Cons.IH [OF d1(2)]] that by simp
  moreover have "outcome_of devs' = outcome_of devs"
    by (rule trans [OF conjunct2 [OF Cons.IH [OF d1(2)]] conjunct2 [OF eval_step_frame [OF d1(1)]]])
  ultimately show ?case by blast
qed simp

section \<open>Every batch returns\<close>

text \<open>The invariant: an unknown device names only upstreams of the configuration.\<close>

definition unknown_ok :: "(string, device_config) gomap \<Rightarrow> ledger \<Rightarrow> bool" where
  "unknown_ok index devs \<longleftrightarrow>
     (\<forall>i e. unknown (map_of devs) i e \<longrightarrow> set (dh_UnavailableUpstream e) \<subseteq> set (nups index i))"

lemma unknown_ok_acc:
  assumes "valid_index index" "unknown_ok index devs"
  shows "i \<in> Wellfounded.acc (unav (map_of devs))"
proof -
  have "unav (map_of devs) \<subseteq> (dep_graph (upstreams_of index))\<inverse>"
    using assms(2) by (auto simp: unav_def unknown_ok_def unknown_def dest!: nups_dep)
  then have "wf (unav (map_of devs))" by (rule wf_subset [OF wf_dep [OF assms(1)]])
  then show ?thesis by (simp add: wf_iff_acc)
qed

lemma evaluateDevice_returns:
  assumes "valid_index index" "unknown_ok index devs"
  shows "evaluateDevice devs e us w t \<noteq> None"
  using collectRootCauses_returns [of devs] unknown_ok_acc [OF assms]
  by (auto simp: evaluateDevice_def evaluateFailure_def Let_def subset_iff)

lemma evaluateDevice_unavailable:
  assumes "evaluateDevice devs e us w t = Some (Some d)" "el_state d = StateUnknown"
  shows "set (el_unavailable d) \<subseteq> set us"
  using assms by (auto simp: evaluateDevice_def evaluateFailure_def evaluateSuccess_def
      direct_unreachable_def Let_def split: if_splits option.splits)

lemma unknown_ok_update:
  "unknown_ok index devs \<Longrightarrow>
   (dh_HasState e \<Longrightarrow> dh_State e = StateUnknown \<Longrightarrow> set (dh_UnavailableUpstream e) \<subseteq> set (nups index i)) \<Longrightarrow>
   unknown_ok index (AList.update i e devs)"
  by (auto simp: unknown_ok_def unknown_def go_simps)

lemma eval_step_unknown_ok:
  assumes "eval_step cfg t pr index i devs = Some (devs', evs)" "unknown_ok index devs"
  shows "unknown_ok index devs'"
  using assms(1)
proof (cases rule: eval_step_cases)
  case (commit device e d)
  have "nups index i = normalizeIDs (ups device)"
    using commit(1) by (simp add: nups_def upstreams_of_def)
  with evaluateDevice_unavailable [OF commit(3)] show ?thesis
    unfolding commit(4) by (intro unknown_ok_update [OF assms(2)]) (simp add: commit_entry_def)
qed (use assms(2) in simp)

lemma eval_loop_returns:
  "valid_index index \<Longrightarrow> unknown_ok index devs \<Longrightarrow>
   \<exists>devs' evs. eval_loop cfg t pr index ids devs = Some (devs', evs) \<and> unknown_ok index devs'"
proof (induction ids arbitrary: devs)
  case (Cons i ids)
  have "eval_step cfg t pr index i devs \<noteq> None"
    using evaluateDevice_returns [OF Cons.prems]
    by (auto simp: eval_step_def Let_def simp del: not_None_eq split: option.splits)
  then obtain d1 e1 where d1: "eval_step cfg t pr index i devs = Some (d1, e1)" by auto
  from Cons.IH [OF Cons.prems(1) eval_step_unknown_ok [OF d1 Cons.prems(2)]] d1
  show ?case by auto
qed simp

lemma unknown_ok_ensure: "unknown_ok index devs \<Longrightarrow> unknown_ok index (ensure_entries ids devs)"
  unfolding ensure_entries_def
proof (induction ids arbitrary: devs)
  case (Cons i ids)
  have "unknown_ok index (AList.update i new_entry devs)"
    by (rule unknown_ok_update [OF Cons.prems]) (simp add: new_entry_def)
  with Cons show ?case by simp
qed simp

lemma unknown_ok_outcomes: "unknown_ok index devs \<Longrightarrow> unknown_ok index (fold apply_outcome os devs)"
proof (induction os arbitrary: devs)
  case (Cons po os)
  have "unknown_ok index (apply_outcome po devs)"
    using Cons.prems
    by (auto simp: apply_outcome_def record_outcome_def Let_def unknown_ok_def unknown_def go_simps
        split: option.splits)
  with Cons.IH show ?case by simp
qed simp

lemma unknown_ok_commit: "unknown_ok index devs \<Longrightarrow> unknown_ok index (commit_outcomes cfg os devs)"
  by (simp add: commit_outcomes_def unknown_ok_ensure unknown_ok_outcomes)

lemma ApplyBatch_returns:
  assumes "valid_index (device_index (c_Devices cfg))" "unknown_ok (device_index (c_Devices cfg)) devs"
  shows "\<exists>devs' evs. ApplyBatch pr (Some cfg) os devs = Some (devs', evs) \<and>
    unknown_ok (device_index (c_Devices cfg)) devs'"
  using eval_loop_returns [OF assms(1) unknown_ok_commit [OF assms(2), of cfg os], of cfg]
  by (fastforce simp: ApplyBatch_def Let_def)

text \<open>The batches of a run under one configuration.\<close>

fun apply_batches :: "string \<Rightarrow> config \<Rightarrow> poll_outcome list list \<Rightarrow> ledger
    \<Rightarrow> (ledger \<times> event list list) option" where
  "apply_batches pr cfg [] devs = Some (devs, [])"
| "apply_batches pr cfg (os # oss) devs =
     (case ApplyBatch pr (Some cfg) os devs of
        None \<Rightarrow> None
      | Some (devs', evs) \<Rightarrow>
          map_option (\<lambda>(devs'', evss). (devs'', evs # evss)) (apply_batches pr cfg oss devs'))"

lemma apply_batches_returns:
  assumes "valid_index (device_index (c_Devices cfg))" "unknown_ok (device_index (c_Devices cfg)) devs"
  shows "\<exists>devs' evss. apply_batches pr cfg oss devs = Some (devs', evss) \<and>
    unknown_ok (device_index (c_Devices cfg)) devs' \<and> length evss = length oss"
  using assms(2)
proof (induction oss arbitrary: devs)
  case (Cons os oss)
  obtain d1 e1 where "ApplyBatch pr (Some cfg) os devs = Some (d1, e1)"
    and "unknown_ok (device_index (c_Devices cfg)) d1"
    using ApplyBatch_returns [OF assms(1) Cons.prems] by blast
  with Cons.IH [of d1] show ?case by auto
qed simp

lemma unknown_ok_Nil [simp]: "unknown_ok index []"
  by (simp add: unknown_ok_def unknown_def)

end
