(* ===== verification/HealthVerdict.thy ===== *)
theory HealthVerdict
  imports HealthCorrelation
begin

text \<open>
  The specification of the tracker: what the state of a device is, said only with the last outcomes
  and the dependencies, and the proof that a batch computes it when every outcome is settled.
\<close>

section \<open>The specification\<close>

definition failed :: "ledger \<Rightarrow> string \<Rightarrow> bool" where
  "failed devs i = (case outcome_of devs i of
      None \<Rightarrow> False | Some (has, ok, n) \<Rightarrow> has \<and> \<not> ok)"

lemma failed_iff: "failed devs i \<longleftrightarrow> (\<exists>n. outcome_of devs i = Some (True, False, n))"
  by (auto simp: failed_def split: option.splits)

definition settled :: "int \<Rightarrow> ledger \<Rightarrow> string \<Rightarrow> bool" where
  "settled t devs i = (case outcome_of devs i of
      None \<Rightarrow> False | Some (has, ok, n) \<Rightarrow> has \<and> (ok \<or> t \<le> n))"

lemma settled_iff: "settled t devs i \<longleftrightarrow> (\<exists>ok n. outcome_of devs i = Some (True, ok, n) \<and> (\<not> ok \<longrightarrow> t \<le> n))"
  by (auto simp: settled_def split: option.splits)

text \<open>A failed device behind failed upstreams only, and a failed device that is a root.\<close>

definition isolated :: "(string, device_config) gomap \<Rightarrow> ledger \<Rightarrow> string \<Rightarrow> bool" where
  "isolated index devs i \<longleftrightarrow> failed devs i \<and> nups index i \<noteq> [] \<and> (\<forall>u \<in> set (nups index i). failed devs u)"

definition chain :: "(string, device_config) gomap \<Rightarrow> ledger \<Rightarrow> (string \<times> string) set" where
  "chain index devs = {(u, i). isolated index devs i \<and> u \<in> set (nups index i)}"

definition roots_of :: "(string, device_config) gomap \<Rightarrow> ledger \<Rightarrow> string \<Rightarrow> string set" where
  "roots_of index devs i =
     {c. failed devs c \<and> \<not> isolated index devs c \<and> (c, i) \<in> (chain index devs)\<^sup>+}"

definition warning_of :: "config \<Rightarrow> (string, device_config) gomap \<Rightarrow> string \<Rightarrow> f64" where
  "warning_of cfg index i = (case map_of index i of
      None \<Rightarrow> c_TemperatureWarningC cfg
    | Some device \<Rightarrow> EffectiveTemperatureWarningC device (c_TemperatureWarningC cfg))"

definition hot :: "f64 \<Rightarrow> f64 option \<Rightarrow> bool" where
  "hot w temp \<longleftrightarrow> (case temp of None \<Rightarrow> False | Some c \<Rightarrow> f64_le w c)"

definition verdict :: "config \<Rightarrow> (string, device_config) gomap \<Rightarrow> ledger \<Rightarrow> string \<Rightarrow> device_health \<Rightarrow> bool" where
  "verdict cfg index devs i e \<longleftrightarrow> dh_HasState e \<and>
     dh_AlertsEnabledPublished e = (\<forall>device. map_of index i = Some device \<longrightarrow> AlertsEnabledOrDefault device) \<and>
     (if failed devs i then
        (if isolated index devs i then
           dh_State e = StateUnknown \<and> dh_Reason e = ReasonUpstreamUnreachable
           \<and> dh_UnavailableUpstream e = nups index i
           \<and> sorted (dh_RootCauseDeviceIDs e) \<and> distinct (dh_RootCauseDeviceIDs e)
           \<and> set (dh_RootCauseDeviceIDs e) = roots_of index devs i
         else
           dh_State e = StateCritical \<and> dh_Reason e = ReasonDirectUnreachable
           \<and> dh_UnavailableUpstream e = [] \<and> dh_RootCauseDeviceIDs e = [])
      else
        (if hot (warning_of cfg index i) (dh_TemperatureC e)
         then dh_State e = StateWarning \<and> dh_Reason e = ReasonTemperatureThreshold
         else dh_State e = StateHealthy \<and> dh_Reason e = ReasonReachable)
        \<and> dh_UnavailableUpstream e = [] \<and> dh_RootCauseDeviceIDs e = [])"

lemma verdict_cong:
  assumes "outcome_of d1 = outcome_of d2"
  shows "failed d1 = failed d2" and "isolated index d1 = isolated index d2"
    and "roots_of index d1 = roots_of index d2"
    and "verdict cfg index d1 i e = verdict cfg index d2 i e"
proof -
  show f: "failed d1 = failed d2" by (rule ext) (simp add: failed_iff assms)
  show i: "isolated index d1 = isolated index d2" by (rule ext) (simp add: isolated_def f)
  then have "chain index d1 = chain index d2" by (simp add: chain_def)
  then show r: "roots_of index d1 = roots_of index d2" by (intro ext) (simp add: roots_of_def f i)
  show "verdict cfg index d1 i e = verdict cfg index d2 i e" by (simp only: verdict_def f i r)
qed

lemma settled_cong: "outcome_of d1 = outcome_of d2 \<Longrightarrow> settled t d1 i = settled t d2 i"
  by (simp add: settled_iff)

lemma roots_nonempty:
  assumes v: "valid_index index" and "isolated index devs i"
  shows "roots_of index devs i \<noteq> {}"
proof -
  have "wf (chain index devs)"
    by (rule wf_subset [OF wf_dep [OF v]]) (auto simp: chain_def dest: nups_dep)
  then have "isolated index devs i \<longrightarrow> roots_of index devs i \<noteq> {}"
  proof (induction i rule: wf_induct_rule)
    case (less i)
    show ?case
    proof
      assume i: "isolated index devs i"
      then obtain u where u: "u \<in> set (nups index i)" by (auto simp: isolated_def neq_Nil_conv intro: that)
      with i have e: "(u, i) \<in> chain index devs" by (simp add: chain_def)
      show "roots_of index devs i \<noteq> {}"
      proof (cases "isolated index devs u")
        case True
        with less e obtain c where "c \<in> roots_of index devs u" by blast
        with e have "c \<in> roots_of index devs i" by (auto simp: roots_of_def)
        then show ?thesis by blast
      next
        case False
        with i u e have "u \<in> roots_of index devs i" by (auto simp: roots_of_def isolated_def)
        then show ?thesis by blast
      qed
    qed
  qed
  with assms(2) show ?thesis by blast
qed

section \<open>One device\<close>

lemma failed_entry:
  "map_of devs i = Some e \<Longrightarrow> failed devs i \<longleftrightarrow> dh_HasOutcome e \<and> \<not> dh_LastOutcomeSuccess e"
  by (simp add: failed_iff outcome_of_def)

lemma settled_entry:
  "map_of devs i = Some e \<Longrightarrow> settled t devs i \<longleftrightarrow>
     dh_HasOutcome e \<and> (\<not> dh_LastOutcomeSuccess e \<longrightarrow> t \<le> dh_FailureCount e)"
  by (simp add: settled_iff outcome_of_def)

lemma settled_Some: "settled t devs i \<Longrightarrow> \<exists>e. map_of devs i = Some e"
  by (auto simp: settled_iff outcome_of_def)

lemma classify_processed:
  assumes "map_of devs u = Some e" "verdict cfg index devs u e" "settled t devs u"
  shows "classify_upstream devs t u = (if failed devs u then UpUnavailable else UpSuccess)"
  using assms
  by (auto simp: classify_upstream_def settled_entry failed_entry verdict_def split: if_splits)

text \<open>On processed devices the ledger's relation is the specification's.\<close>

lemma unav_processed:
  assumes "map_of devs z = Some e" "verdict cfg index devs z e"
  shows "(u, z) \<in> unav (map_of devs) \<longleftrightarrow> (u, z) \<in> chain index devs"
    and "critical (map_of devs) z \<longleftrightarrow> failed devs z \<and> \<not> isolated index devs z"
  using assms by (auto simp: unav_def chain_def critical_def verdict_def isolated_def split: if_splits)

lemma reach_processed:
  assumes P: "\<And>z. z \<in> P \<Longrightarrow> \<exists>e. map_of devs z = Some e \<and> verdict cfg index devs z e"
    and cl: "\<And>z. z \<in> P \<Longrightarrow> set (nups index z) \<subseteq> P" and z: "z \<in> P"
  shows "(c, z) \<in> (unav (map_of devs))\<^sup>* \<longleftrightarrow> (c, z) \<in> (chain index devs)\<^sup>*"
    and "(c, z) \<in> (chain index devs)\<^sup>* \<Longrightarrow> c \<in> P"
proof -
  have edge: "(u, y) \<in> unav (map_of devs) \<longleftrightarrow> (u, y) \<in> chain index devs" if "y \<in> P" for u y
    using P [OF that] unav_processed(1) by blast
  have step: "u \<in> P" if "y \<in> P" "(u, y) \<in> chain index devs" for u y
    using that cl [OF that(1)] by (auto simp: chain_def)
  have a: "c \<in> P \<and> (c, z) \<in> (chain index devs)\<^sup>*" if "(c, z) \<in> (unav (map_of devs))\<^sup>*"
    using that
  proof (induction rule: converse_rtrancl_induct)
    case (step y w)
    then show ?case using edge [of w y] \<open>\<And>u y. y \<in> P \<Longrightarrow> (u, y) \<in> chain index devs \<Longrightarrow> u \<in> P\<close>
      by (meson converse_rtrancl_into_rtrancl)
  qed (use z in simp)
  have b: "c \<in> P \<and> (c, z) \<in> (unav (map_of devs))\<^sup>*" if "(c, z) \<in> (chain index devs)\<^sup>*"
    using that
  proof (induction rule: converse_rtrancl_induct)
    case (step y w)
    then show ?case using edge [of w y] \<open>\<And>u y. y \<in> P \<Longrightarrow> (u, y) \<in> chain index devs \<Longrightarrow> u \<in> P\<close>
      by (meson converse_rtrancl_into_rtrancl)
  qed (use z in simp)
  show "(c, z) \<in> (unav (map_of devs))\<^sup>* \<longleftrightarrow> (c, z) \<in> (chain index devs)\<^sup>*" using a b by blast
  show "(c, z) \<in> (chain index devs)\<^sup>* \<Longrightarrow> c \<in> P" using b by blast
qed

lemma roots_processed:
  assumes P: "\<And>z. z \<in> P \<Longrightarrow> \<exists>e. map_of devs z = Some e \<and> verdict cfg index devs z e"
    and cl: "\<And>z. z \<in> P \<Longrightarrow> set (nups index z) \<subseteq> P"
    and i: "isolated index devs i" "set (nups index i) \<subseteq> P"
  shows "{c. critical (map_of devs) c \<and> (\<exists>u \<in> set (nups index i). (c, u) \<in> (unav (map_of devs))\<^sup>*)} =
    roots_of index devs i"
proof -
  have "critical (map_of devs) c \<and> (c, u) \<in> (unav (map_of devs))\<^sup>* \<longleftrightarrow>
      failed devs c \<and> \<not> isolated index devs c \<and> (c, u) \<in> (chain index devs)\<^sup>*"
    if "u \<in> set (nups index i)" for c u
    using reach_processed [OF P cl, of u c] that i(2) P unav_processed(2) [of devs c] by blast
  moreover have "(c, i) \<in> (chain index devs)\<^sup>+ \<longleftrightarrow>
      (\<exists>u \<in> set (nups index i). (c, u) \<in> (chain index devs)\<^sup>*)" for c
    using i(1) by (auto simp: chain_def dest!: tranclD2 intro: rtrancl_into_trancl1)
  ultimately show ?thesis unfolding roots_of_def by blast
qed

section \<open>One step and the loop\<close>

lemma hot_success:
  "el_state (evaluateSuccess e w) = (if hot w (dh_TemperatureC e) then StateWarning else StateHealthy)"
  "el_reason (evaluateSuccess e w) =
     (if hot w (dh_TemperatureC e) then ReasonTemperatureThreshold else ReasonReachable)"
  "el_temperatureC (evaluateSuccess e w) = dh_TemperatureC e"
  "el_unavailable (evaluateSuccess e w) = []" "el_rootCauses (evaluateSuccess e w) = []"
  by (simp_all add: evaluateSuccess_def hot_def)

lemma evaluate_failed:
  assumes cls: "\<And>u. u \<in> set us \<Longrightarrow> classify_upstream devs t u = (if failed devs u then UpUnavailable else UpSuccess)"
    and us: "us = nups index i" and i: "failed devs i"
  shows "evaluateFailure devs us t =
    (if isolated index devs i
     then map_option (\<lambda>roots. Some \<lparr>el_state = StateUnknown, el_reason = ReasonUpstreamUnreachable,
        el_temperatureC = None, el_unavailable = us, el_rootCauses = roots\<rparr>) (collectRootCauses devs us)
     else Some (Some direct_unreachable))"
proof (cases "us = []")
  case False
  have any: "list_ex (\<lambda>u. classify_upstream devs t u = UpSuccess) us \<longleftrightarrow> \<not> isolated index devs i"
    using cls us i False by (auto simp: list_ex_iff isolated_def)
  have pend: "\<not> list_ex (\<lambda>u. classify_upstream devs t u = UpPending) us"
    using cls by (simp add: list_ex_iff)
  show ?thesis
  proof (cases "isolated index devs i")
    case True
    then have "filter (\<lambda>u. classify_upstream devs t u = UpUnavailable) us = us"
      using cls us by (intro filter_True) (auto simp: isolated_def)
    moreover have "sort us = us" using us by (simp add: sorted_sort_id)
    ultimately show ?thesis using False True any pend by (simp add: evaluateFailure_def Let_def)
  next
    case ni: False
    then show ?thesis using False any by (simp add: evaluateFailure_def Let_def)
  qed
qed (use us in \<open>simp add: evaluateFailure_def isolated_def\<close>)

lemma eval_step_verdict:
  assumes step: "eval_step cfg t pr index i devs = Some (devs', evs)"
    and P: "\<And>z. z \<in> P \<Longrightarrow> \<exists>e. map_of devs z = Some e \<and> verdict cfg index devs z e"
    and cl: "\<And>z. z \<in> P \<Longrightarrow> set (nups index z) \<subseteq> P"
    and ups: "set (nups index i) \<subseteq> P"
    and settled: "\<And>z. z \<in> insert i P \<Longrightarrow> settled t devs z" and i: "map_of index i \<noteq> None"
  shows "\<exists>e. map_of devs' i = Some e \<and> verdict cfg index devs' i e"
proof -
  obtain device where device: "map_of index i = Some device" using i by auto
  obtain e where e: "map_of devs i = Some e" using settled_Some [OF settled [of i]] by auto
  let ?w = "EffectiveTemperatureWarningC device (c_TemperatureWarningC cfg)"
  let ?us = "nups index i"
  have us: "normalizeIDs (ups device) = ?us" by (simp add: nups_def upstreams_of_def device)
  have w: "warning_of cfg index i = ?w" by (simp add: warning_of_def device)
  have out: "dh_HasOutcome e" "\<not> dh_LastOutcomeSuccess e \<Longrightarrow> t \<le> dh_FailureCount e"
    using settled [of i] by (simp_all add: settled_entry [OF e])
  have cls: "classify_upstream devs t u = (if failed devs u then UpUnavailable else UpSuccess)"
    if "u \<in> set ?us" for u
  proof -
    have "u \<in> P" using that ups by blast
    with P obtain eu where "map_of devs u = Some eu" "verdict cfg index devs u eu" by blast
    then show ?thesis using classify_processed settled [of u] \<open>u \<in> P\<close> by blast
  qed
  have dev: "evaluateDevice devs e ?us ?w t =
      (if failed devs i then evaluateFailure devs ?us t else Some (Some (evaluateSuccess e ?w)))"
    using out by (auto simp: evaluateDevice_def failed_entry [OF e])
  note fail = evaluate_failed [where i = i and index = index, OF cls refl]
  have "evaluateDevice devs e ?us ?w t \<noteq> None"
  proof
    assume "evaluateDevice devs e ?us ?w t = None"
    then show False using step by (simp add: eval_step_def Let_def e device us)
  qed
  moreover have "evaluateDevice devs e ?us ?w t \<noteq> Some None"
    using fail by (auto simp: dev split: if_splits)
  ultimately obtain d where d: "evaluateDevice devs e ?us ?w t = Some (Some d)" by fastforce
  then have devs': "devs' = AList.update i (commit_entry e d ?w ?us (AlertsEnabledOrDefault device)) devs"
    using step by (simp add: eval_step_def Let_def e device us)
  have frame: "outcome_of devs' = outcome_of devs" using eval_step_frame [OF step] by blast
  have "verdict cfg index devs i (commit_entry e d ?w ?us (AlertsEnabledOrDefault device))"
  proof (cases "failed devs i")
    case False
    then have "d = evaluateSuccess e ?w" using d dev by simp
    with False show ?thesis by (simp add: verdict_def commit_entry_def hot_success w device)
  next
    case failed: True
    show ?thesis
    proof (cases "isolated index devs i")
      case False
      then have "d = direct_unreachable" using d dev failed fail by simp
      with False failed show ?thesis by (simp add: verdict_def commit_entry_def direct_unreachable_def device)
    next
      case True
      then obtain roots where roots: "collectRootCauses devs ?us = Some roots"
        and dd: "d = \<lparr>el_state = StateUnknown, el_reason = ReasonUpstreamUnreachable,
          el_temperatureC = None, el_unavailable = ?us, el_rootCauses = roots\<rparr>"
        using d dev failed fail by auto
      from collectRootCauses_Some [OF roots] roots_processed [OF P cl True ups]
      have "sorted roots" "distinct roots" "set roots = roots_of index devs i" by auto
      with True failed dd show ?thesis by (simp add: verdict_def commit_entry_def device)
    qed
  qed
  then show ?thesis using verdict_cong(4) [OF frame] by (simp add: devs' go_simps)
qed

lemma eval_loop_verdict:
  assumes v: "valid_index index"
  shows "eval_loop cfg t pr index ids devs = Some (devs', evs) \<Longrightarrow>
    topologicalOrder index = xs @ ids \<Longrightarrow>
    (\<forall>z \<in> set (map fst index). settled t devs z) \<Longrightarrow>
    (\<forall>z \<in> set xs. \<exists>e. map_of devs z = Some e \<and> verdict cfg index devs z e) \<Longrightarrow>
    \<forall>z \<in> set (map fst index). \<exists>e. map_of devs' z = Some e \<and> verdict cfg index devs' z e"
proof (induction ids arbitrary: xs devs evs)
  case Nil
  have "distinct (map fst index)" using v by (simp add: valid_index_def)
  from topologicalOrder_set [OF this] Nil show ?case by simp
next
  case (Cons i ids)
  from Cons.prems(1) obtain d1 e1 e2 where d1: "eval_step cfg t pr index i devs = Some (d1, e1)"
    and rest: "eval_loop cfg t pr index ids d1 = Some (devs', e2)" by (auto split: option.splits)
  have "distinct (map fst index)" using v by (simp add: valid_index_def)
  then have all: "distinct (topologicalOrder index)" "set (topologicalOrder index) = set (map fst index)"
    using topologicalOrder_set by auto
  have i: "i \<notin> set xs" "i \<in> set (map fst index)" "set xs \<subseteq> set (map fst index)"
    using all unfolding Cons.prems(2) by (auto simp del: set_map)
  have frame: "\<And>j. j \<noteq> i \<Longrightarrow> map_of d1 j = map_of devs j" "outcome_of d1 = outcome_of devs"
    using eval_step_frame [OF d1] by auto
  have cl: "set (nups index z) \<subseteq> set xs" if "z \<in> set xs" for z
  proof -
    from that obtain as bs where xs: "xs = as @ z # bs" by (meson split_list)
    then have "topologicalOrder index = as @ z # (bs @ i # ids)" using Cons.prems(2) by simp
    from order_upstreams_first [OF v this] xs show ?thesis by auto
  qed
  have ups: "set (nups index i) \<subseteq> set xs" by (rule order_upstreams_first [OF v Cons.prems(2)])
  have here: "\<exists>e. map_of d1 i = Some e \<and> verdict cfg index d1 i e"
    by (rule eval_step_verdict [OF d1, where P = "set xs"])
       (use Cons.prems(3,4) cl ups i in \<open>auto simp: map_of_eq_None_iff subset_iff\<close>)
  have before: "\<exists>e. map_of d1 z = Some e \<and> verdict cfg index d1 z e" if "z \<in> set xs" for z
    using Cons.prems(4) that frame(1) [of z] i(1) verdict_cong(4) [OF frame(2)] by metis
  have settled: "\<forall>z \<in> set (map fst index). settled t d1 z"
    using Cons.prems(3) settled_cong [OF frame(2)] by blast
  show ?case
    by (rule Cons.IH [OF rest, of "xs @ [i]"]) (use Cons.prems(2) settled before here in auto)
qed

lemma ApplyBatch_loop:
  assumes "ApplyBatch pr (Some cfg) os devs = Some (devs', evs)"
  obtains evs' where "eval_loop cfg (effective_threshold cfg) pr (device_index (c_Devices cfg))
      (topologicalOrder (device_index (c_Devices cfg))) (commit_outcomes cfg os devs) = Some (devs', evs')"
    and "evs = sort_key ev_DeviceID evs'"
  using assms by (auto simp: ApplyBatch_def Let_def)

lemma ApplyBatch_outcome_of:
  "ApplyBatch pr (Some cfg) os devs = Some (devs', evs) \<Longrightarrow> outcome_of devs' = outcome_of (commit_outcomes cfg os devs)"
  by (erule ApplyBatch_loop) (use eval_loop_frame in blast)

lemma ApplyBatch_verdict:
  assumes valid: "validateDependencies (c_Devices cfg) = None"
    and batch: "ApplyBatch pr (Some cfg) os devs = Some (devs', evs)"
    and settled: "\<And>d. d \<in> set (c_Devices cfg) \<Longrightarrow> settled (effective_threshold cfg) devs' (dc_ID d)"
    and i: "i \<in> dc_ID ` set (c_Devices cfg)"
  shows "\<exists>e. map_of devs' i = Some e \<and> verdict cfg (device_index (c_Devices cfg)) devs' i e"
proof -
  let ?index = "device_index (c_Devices cfg)"
  obtain evs' where run: "eval_loop cfg (effective_threshold cfg) pr ?index (topologicalOrder ?index)
      (commit_outcomes cfg os devs) = Some (devs', evs')"
    using batch by (rule ApplyBatch_loop)
  have keys: "set (map fst ?index) = dc_ID ` set (c_Devices cfg)" by (simp add: keys_device_index)
  have "\<forall>z \<in> set (map fst ?index). settled (effective_threshold cfg) (commit_outcomes cfg os devs) z"
    using settled settled_cong [OF ApplyBatch_outcome_of [OF batch]] unfolding keys by blast
  then have "\<forall>z \<in> set (map fst ?index). \<exists>e. map_of devs' z = Some e \<and> verdict cfg ?index devs' z e"
    by (intro eval_loop_verdict [OF valid_index_device_index [OF valid] run, of "[]"]) simp_all
  then show ?thesis using i unfolding keys by blast
qed

end
