(* ===== verification/Health.thy ===== *)
theory Health
  imports HealthVerdict
begin

text \<open>
  The properties of the health tracker, and the sample configuration they are shown on.
\<close>

section \<open>A sample configuration\<close>

definition sample_parsers :: parsers where
  "sample_parsers = \<lparr>ps_regexOK = (\<lambda>_. True), ps_cidrOK = (\<lambda>_. True), ps_IP = (\<lambda>_. None),
     ps_brokerOK = (\<lambda>_. True), ps_Duration = (\<lambda>_. None), ps_insecureSkipVerify = False\<rparr>"

definition sample_config :: "device_config list \<Rightarrow> config" where
  "sample_config ds = (applyDefaults \<lparr>c_SiteID = ''site-1'', c_PollInterval = 0, c_MaxWorkers = 0,
     c_CollectorID = ''c-1'', c_HeartbeatInterval = 0, c_ManagedPath = [],
     c_TemperatureWarningC = Fin 0, c_FailureThreshold = 3,
     c_Discovery = \<lparr>di_AllowedCIDRs = [], di_CommunityEnv = [], di_MaxTargets = 0, di_Timeout = 0,
        di_Retries = 0, di_MaxWorkers = 0, di_MaxProbesPerSecond = Fin 0, di_ProbeBurst = 0\<rparr>,
     c_AdminListen = [], c_ControlSocket = [], c_SNMPTimeout = 0, c_SNMPRetries = 0, c_PublisherMode = [],
     c_PublisherTimeout = 0, c_TelemetryVersion = [],
     c_Buffer = \<lparr>bu_Path = [], bu_MaxEntries = 0, bu_BusyTimeoutMS = 0, bu_BatchSize = 0, bu_IdleBackoff = 0\<rparr>,
     c_MQTT = \<lparr>mq_Broker = [], mq_ClientID = [], mq_Username = [], mq_PasswordEnv = [], mq_QoS = 0,
        mq_CAFile = [], mq_CertFile = [], mq_KeyFile = [], mq_ReconnectInitial = 0, mq_ReconnectMax = 0\<rparr>,
     c_Devices = []\<rparr>)\<lparr>c_Devices := ds\<rparr>"

definition sample_device :: "string \<Rightarrow> string list \<Rightarrow> device_config" where
  "sample_device i us = (mk_device i)\<lparr>dc_Host := i, dc_Port := 161, dc_Version := ''2c'',
     dc_CommunityEnv := ''COMMUNITY'', dc_UpstreamDeviceIDs := Some us\<rparr>"

definition down :: "string \<Rightarrow> poll_outcome" where
  "down i = \<lparr>po_DeviceID = i, po_Success = False, po_ObservedAt = 1, po_TemperatureC = None\<rparr>"

definition up_at :: "string \<Rightarrow> f64 \<Rightarrow> poll_outcome" where
  "up_at i c = \<lparr>po_DeviceID = i, po_Success = True, po_ObservedAt = 1, po_TemperatureC = Some c\<rparr>"

text \<open>Two valid inventories: a reload turns the dependency of \<open>a\<close> on \<open>b\<close> around and puts \<open>a\<close> behind \<open>c\<close>.\<close>

definition config_before :: config where
  "config_before = sample_config [sample_device ''b'' [], sample_device ''a'' [''b'']]"

definition config_after :: config where
  "config_after = sample_config [sample_device ''b'' [''a''], sample_device ''a'' [''c''], sample_device ''c'' []]"

section \<open>Events\<close>

text \<open>The transitions of a batch for one device, from its entry at the evaluation and the one after.\<close>

definition changed :: "device_health \<Rightarrow> device_health \<Rightarrow> bool" where
  "changed e e' \<longleftrightarrow> dh_HasState e' \<and> (\<not> dh_HasState e \<or> dh_State e \<noteq> dh_State e' \<or> dh_Reason e \<noteq> dh_Reason e'
     \<or> (dh_HasAlertsEnabled e \<and> dh_AlertsEnabledPublished e \<noteq> dh_AlertsEnabledPublished e'))"

lemma changed_self [simp]: "\<not> changed e e"
  by (simp add: changed_def)

lemma changed_commit:
  "should_emit e d (dh_HasState e \<and> dh_HasAlertsEnabled e \<and> dh_AlertsEnabledPublished e \<noteq> alerts) \<longleftrightarrow>
     changed e (commit_entry e d w us alerts)"
  unfolding should_emit_def changed_def commit_entry_def by simp

definition reports :: "event list \<Rightarrow> string \<Rightarrow> device_health \<Rightarrow> device_health \<Rightarrow> bool" where
  "reports evs i e e' \<longleftrightarrow> (if changed e e'
     then \<exists>ev. evs = [ev] \<and> ev_DeviceID ev = i \<and> ev_State ev = dh_State e' \<and>
        ev_PreviousState ev = previousStatePtr e \<and> ev_RootCauseDeviceIDs ev = dh_RootCauseDeviceIDs e'
     else evs = [])"

lemma eval_step_events:
  assumes step: "eval_step cfg t pr index i devs = Some (devs', evs)"
    and e: "map_of devs i = Some e" and device: "map_of index i = Some device"
  shows "\<exists>e'. map_of devs' i = Some e' \<and> reports evs i e e'"
proof -
  let ?w = "EffectiveTemperatureWarningC device (c_TemperatureWarningC cfg)"
  let ?us = "normalizeIDs (ups device)"
  let ?v = "evaluateDevice devs e ?us ?w t"
  consider "?v = None" | "?v = Some None" | d where "?v = Some (Some d)" by (cases ?v) auto
  then show ?thesis
  proof cases
    case 2
    with step e device show ?thesis by (auto simp: eval_step_def Let_def reports_def)
  next
    case (3 d)
    let ?e' = "commit_entry e d ?w ?us (AlertsEnabledOrDefault device)"
    let ?pc = "dh_HasState e \<and> dh_HasAlertsEnabled e \<and> dh_AlertsEnabledPublished e \<noteq> AlertsEnabledOrDefault device"
    have "map_of devs' i = Some ?e'"
      "evs = (if changed e ?e' then [make_event i t pr e d ?w ?us (AlertsEnabledOrDefault device) ?pc] else [])"
      using step e device 3 changed_commit [of e d "AlertsEnabledOrDefault device" ?w ?us]
      by (auto simp: eval_step_def Let_def go_simps)
    then show ?thesis by (auto simp: reports_def make_event_def commit_entry_def)
  qed (use step e device in \<open>simp add: eval_step_def Let_def\<close>)
qed

lemma eval_step_ids:
  assumes "eval_step cfg t pr index i devs = Some (devs', evs)"
  shows "ev_DeviceID ` set evs \<subseteq> {i} \<inter> fst ` set index"
  using assms
  by (cases "map_of index i"; cases "map_of devs i")
     (auto simp: eval_step_def Let_def make_event_def split: option.splits if_splits
        dest!: map_of_SomeD intro: rev_image_eqI)

lemma eval_loop_events:
  "eval_loop cfg t pr index ids devs = Some (devs', evs) \<Longrightarrow> distinct ids \<Longrightarrow>
     ev_DeviceID ` set evs \<subseteq> set ids \<inter> fst ` set index \<and>
     (\<forall>i e. i \<in> set ids \<longrightarrow> map_of devs i = Some e \<longrightarrow> i \<in> fst ` set index \<longrightarrow>
        (\<exists>e'. map_of devs' i = Some e' \<and> reports (filter (\<lambda>ev. ev_DeviceID ev = i) evs) i e e'))"
proof (induction ids arbitrary: devs devs' evs)
  case (Cons j ids)
  from Cons.prems(1) obtain d1 e1 e2 where d1: "eval_step cfg t pr index j devs = Some (d1, e1)"
    and rest: "eval_loop cfg t pr index ids d1 = Some (devs', e2)" and evs: "evs = e1 @ e2"
    by (auto split: option.splits)
  have j: "j \<notin> set ids" and dist: "distinct ids" using Cons.prems(2) by auto
  note IH = Cons.IH [OF rest dist]
  note step_ids = eval_step_ids [OF d1]
  have "\<exists>e'. map_of devs' i = Some e' \<and> reports (filter (\<lambda>ev. ev_DeviceID ev = i) evs) i e e'"
    if i: "i \<in> set (j # ids)" "map_of devs i = Some e" "i \<in> fst ` set index" for i e
  proof (cases "i = j")
    case True
    obtain device where "map_of index i = Some device"
      using i(3) by (metis map_of_eq_None_iff not_None_eq)
    then obtain e' where e': "map_of d1 i = Some e'" "reports e1 i e e'"
      using eval_step_events [OF d1] i(2) True by blast
    have "filter (\<lambda>ev. ev_DeviceID ev = i) e2 = []"
      using IH True j by (auto simp: filter_empty_conv)
    moreover have "filter (\<lambda>ev. ev_DeviceID ev = i) e1 = e1"
      using step_ids True by (intro filter_True) auto
    moreover have "map_of devs' i = map_of d1 i"
      using eval_loop_frame [OF rest] True j by blast
    ultimately show ?thesis using e' by (simp add: evs)
  next
    case False
    have "map_of d1 i = Some e" using eval_step_frame [OF d1] False i(2) by simp
    moreover have "filter (\<lambda>ev. ev_DeviceID ev = i) e1 = []"
      using step_ids False by (auto simp: filter_empty_conv)
    ultimately show ?thesis using IH i False by (simp add: evs)
  qed
  moreover have "ev_DeviceID ` set evs \<subseteq> set (j # ids) \<inter> fst ` set index"
    using IH step_ids unfolding evs by auto
  ultimately show ?case by blast
qed simp

lemma ApplyBatch_events:
  assumes batch: "ApplyBatch pr (Some cfg) os devs = Some (devs', evs)"
  shows "sorted (map ev_DeviceID evs) \<and> ev_DeviceID ` set evs \<subseteq> dc_ID ` set (c_Devices cfg) \<and>
    (\<forall>d \<in> set (c_Devices cfg). \<forall>e. map_of (commit_outcomes cfg os devs) (dc_ID d) = Some e \<longrightarrow>
      (\<exists>e'. map_of devs' (dc_ID d) = Some e' \<and> reports (filter (\<lambda>ev. ev_DeviceID ev = dc_ID d) evs) (dc_ID d) e e'))"
proof -
  let ?index = "device_index (c_Devices cfg)"
  obtain evs' where run: "eval_loop cfg (effective_threshold cfg) pr ?index (topologicalOrder ?index)
      (commit_outcomes cfg os devs) = Some (devs', evs')" and evs: "evs = sort_key ev_DeviceID evs'"
    using batch by (rule ApplyBatch_loop)
  have order: "distinct (topologicalOrder ?index)" "set (topologicalOrder ?index) = dc_ID ` set (c_Devices cfg)"
    using topologicalOrder_set [OF distinct_device_index] keys_device_index by auto
  note ev = eval_loop_events [OF run order(1)]
  have "filter (\<lambda>ev. ev_DeviceID ev = i) evs = filter (\<lambda>ev. ev_DeviceID ev = i) evs'" for i
    unfolding evs by (rule sort_key_stable)
  then show ?thesis using ev order(2) keys_device_index [of "c_Devices cfg"] unfolding evs by auto
qed

section \<open>Frames of a batch\<close>

lemma eval_step_pending:
  assumes "eval_step cfg t pr i_index i devs = Some (devs', evs)" "\<not> settled t devs i"
  shows "map_of devs' i = map_of devs i"
  using assms(1)
proof (cases rule: eval_step_cases)
  case (commit device e d)
  with assms(2) show ?thesis by (auto simp: evaluateDevice_def settled_entry split: if_splits)
qed simp

lemma eval_loop_pending:
  "eval_loop cfg t pr index ids devs = Some (devs', evs) \<Longrightarrow> \<not> settled t devs i \<Longrightarrow> map_of devs' i = map_of devs i"
proof (induction ids arbitrary: devs devs' evs)
  case (Cons j ids)
  from Cons.prems(1) obtain d1 e1 e2 where d1: "eval_step cfg t pr index j devs = Some (d1, e1)"
    and rest: "eval_loop cfg t pr index ids d1 = Some (devs', e2)" by (auto split: option.splits)
  have "map_of d1 i = map_of devs i"
    using eval_step_frame [OF d1] eval_step_pending [OF d1] Cons.prems(2) by (cases "i = j") auto
  moreover have "map_of devs' i = map_of d1 i"
    using Cons.IH [OF rest] settled_cong [of d1 devs] eval_step_frame [OF d1] Cons.prems(2) by blast
  ultimately show ?case by simp
qed simp

lemma eval_step_temperature:
  assumes "eval_step cfg t pr i_index i devs = Some (devs', evs)" "\<not> failed devs i"
  shows "map_option dh_TemperatureC (map_of devs' i) = map_option dh_TemperatureC (map_of devs i)"
  using assms(1)
proof (cases rule: eval_step_cases)
  case (commit device e d)
  with assms(2) show ?thesis
    by (auto simp: evaluateDevice_def failed_entry commit_entry_def go_simps hot_success split: if_splits)
qed simp

lemma eval_loop_temperature:
  "eval_loop cfg t pr index ids devs = Some (devs', evs) \<Longrightarrow> \<not> failed devs i \<Longrightarrow>
   map_option dh_TemperatureC (map_of devs' i) = map_option dh_TemperatureC (map_of devs i)"
proof (induction ids arbitrary: devs devs' evs)
  case (Cons j ids)
  from Cons.prems(1) obtain d1 e1 e2 where d1: "eval_step cfg t pr index j devs = Some (d1, e1)"
    and rest: "eval_loop cfg t pr index ids d1 = Some (devs', e2)" by (auto split: option.splits)
  have "map_option dh_TemperatureC (map_of d1 i) = map_option dh_TemperatureC (map_of devs i)"
    using eval_step_frame [OF d1] eval_step_temperature [OF d1] Cons.prems(2) by (cases "i = j") auto
  moreover have "\<not> failed d1 i"
    using verdict_cong(1) [of d1 devs] eval_step_frame [OF d1] Cons.prems(2) by simp
  ultimately show ?case using Cons.IH [OF rest] by simp
qed simp

text \<open>The fields a batch decides: untouched by the recording of outcomes.\<close>

definition decided :: "device_health \<Rightarrow> bool \<times> state \<times> reason \<times> string list" where
  "decided e = (dh_HasState e, dh_State e, dh_Reason e, dh_RootCauseDeviceIDs e)"

lemma ensure_entries_old:
  "map_of devs i = Some e \<Longrightarrow> map_of (ensure_entries ids devs) i = Some e"
  unfolding ensure_entries_def
proof (induction ids arbitrary: devs)
  case (Cons j ids)
  have "map_of (if map_of devs j = None then AList.update j new_entry devs else devs) i = Some e"
    using Cons.prems by (auto simp: go_simps)
  from Cons.IH [OF this] show ?case by simp
qed simp

lemma ensure_entries_new:
  "i \<in> set ids \<Longrightarrow> map_of devs i = None \<Longrightarrow> map_of (ensure_entries ids devs) i = Some new_entry"
  unfolding ensure_entries_def
proof (induction ids arbitrary: devs)
  case (Cons j ids)
  show ?case
  proof (cases "i = j")
    case True
    then show ?thesis using ensure_entries_old [of "AList.update i new_entry devs" i new_entry ids] Cons.prems
      by (simp add: ensure_entries_def go_simps)
  next
    case False
    then show ?thesis using Cons.IH [of "if map_of devs j = None then AList.update j new_entry devs else devs"] Cons.prems
      by (auto simp: go_simps)
  qed
qed simp

lemma apply_outcomes_decided:
  "map_option decided (map_of (fold apply_outcome os devs) i) = map_option decided (map_of devs i)"
proof (induction os arbitrary: devs)
  case (Cons po os)
  have "map_option decided (map_of (apply_outcome po devs) i) = map_option decided (map_of devs i)"
    by (auto simp: apply_outcome_def record_outcome_def decided_def Let_def go_simps split: option.splits)
  with Cons.IH show ?case by simp
qed simp

lemma commit_outcomes_decided:
  "map_of devs i = Some e \<Longrightarrow> map_option decided (map_of (commit_outcomes cfg os devs) i) = Some (decided e)"
  by (simp add: commit_outcomes_def apply_outcomes_decided ensure_entries_old)

lemma commit_outcomes_entry:
  assumes "i \<in> dc_ID ` set (c_Devices cfg)"
  shows "map_of (commit_outcomes cfg os devs) i \<noteq> None"
proof -
  have "i \<in> set (map fst (device_index (c_Devices cfg)))" using assms by (simp add: keys_device_index)
  then have "map_of (ensure_entries (map fst (device_index (c_Devices cfg))) devs) i \<noteq> None"
    using ensure_entries_new ensure_entries_old by (cases "map_of devs i") fastforce+
  then have "map_option decided (map_of (commit_outcomes cfg os devs) i) \<noteq> None"
    by (simp add: commit_outcomes_def apply_outcomes_decided)
  then show ?thesis by auto
qed

end
