(* ===== verification/HealthProps.thy ===== *)
theory HealthProps
  imports Health
begin

text \<open>
  The properties of the health tracker: what a batch computes, when it returns, which events it
  publishes, and the reload after which it does not return.
\<close>

section \<open>What a batch computes\<close>

lemma batch_correlates:
  assumes "validateDependencies (c_Devices cfg) = None"
    and "ApplyBatch pr (Some cfg) os devs = Some (devs', evs)"
    and "\<forall>d \<in> set (c_Devices cfg). settled (effective_threshold cfg) devs' (dc_ID d)"
    and "d \<in> set (c_Devices cfg)"
  shows "\<exists>e. map_of devs' (dc_ID d) = Some e \<and> verdict cfg (device_index (c_Devices cfg)) devs' (dc_ID d) e
    \<and> (dh_State e = StateUnknown \<longrightarrow> dh_RootCauseDeviceIDs e \<noteq> [])"
proof -
  let ?index = "device_index (c_Devices cfg)"
  obtain e where e: "map_of devs' (dc_ID d) = Some e" "verdict cfg ?index devs' (dc_ID d) e"
    using ApplyBatch_verdict [OF assms(1,2)] assms(3,4) by blast
  have "dh_RootCauseDeviceIDs e \<noteq> []" if "dh_State e = StateUnknown"
  proof -
    have "isolated ?index devs' (dc_ID d)" using e(2) that by (auto simp: verdict_def split: if_splits)
    moreover from this e(2) have "set (dh_RootCauseDeviceIDs e) = roots_of ?index devs' (dc_ID d)"
      by (simp add: verdict_def isolated_def split: if_splits)
    ultimately show ?thesis using roots_nonempty [OF valid_index_device_index [OF assms(1)]] by fastforce
  qed
  with e show ?thesis by blast
qed

text \<open>C1: under a configuration with acyclic dependencies, after any batches from the empty ledger, the next batch
  returns.  And whatever the ledger was, if the outcome of every device is settled after a batch (a success, or at
  least as many consecutive failures as the threshold), every device is in the state of the specification: healthy
  or warning after a success; critical after failures with no upstreams or a successful one; and
  unknown when all its upstreams failed too, with exactly the critical devices it reaches through
  failed upstreams as its root causes, at least one.\<close>

theorem tracker_correlates:
  assumes "validateDependencies (c_Devices cfg) = None"
  shows "(\<exists>devs evss devs' evs. apply_batches pr cfg oss [] = Some (devs, evss) \<and> ApplyBatch pr (Some cfg) os devs = Some (devs', evs))
    \<and> (\<forall>devs devs' evs. ApplyBatch pr (Some cfg) os devs = Some (devs', evs)
        \<longrightarrow> (\<forall>d \<in> set (c_Devices cfg). settled (effective_threshold cfg) devs' (dc_ID d))
        \<longrightarrow> (\<forall>d \<in> set (c_Devices cfg). \<exists>e. map_of devs' (dc_ID d) = Some e
              \<and> verdict cfg (device_index (c_Devices cfg)) devs' (dc_ID d) e
              \<and> (dh_State e = StateUnknown \<longrightarrow> dh_RootCauseDeviceIDs e \<noteq> [])))"
proof (intro conjI allI impI ballI)
  note index = valid_index_device_index [OF assms]
  obtain devs evss where run: "apply_batches pr cfg oss [] = Some (devs, evss)" "unknown_ok (device_index (c_Devices cfg)) devs"
    using apply_batches_returns [OF index unknown_ok_Nil] by blast
  then show "\<exists>devs evss devs' evs. apply_batches pr cfg oss [] = Some (devs, evss) \<and> ApplyBatch pr (Some cfg) os devs = Some (devs', evs)"
    using ApplyBatch_returns [OF index run(2)] by blast
qed (rule batch_correlates [OF assms])

definition both_down :: "poll_outcome list" where
  "both_down = [down ''a'', down ''b'']"

text \<open>The ledger after \<open>n\<close> batches in which both devices of the first sample fail.\<close>

definition ledger_after :: "nat \<Rightarrow> ledger" where
  "ledger_after n = (case apply_batches [] config_before (replicate n both_down) [] of
      Some (devs, _) \<Rightarrow> devs | None \<Rightarrow> [])"

definition step_after :: "nat \<Rightarrow> poll_outcome list \<Rightarrow> (ledger \<times> event list) option" where
  "step_after n os = ApplyBatch [] (Some config_before) os (ledger_after n)"

lemma config_before_valid: "validateDependencies (c_Devices config_before) = None"
  by code_simp

lemma step_after_returns: "step_after 2 both_down \<noteq> None" "step_after 3 [] \<noteq> None" "step_after 0 both_down \<noteq> None"
  by code_simp+

lemma step_after_settled:
  "list_all (\<lambda>d. settled (effective_threshold config_before) (fst (the (step_after 2 both_down))) (dc_ID d))
     (c_Devices config_before)"
  by code_simp

lemma tracker_correlates_witness:
  "\<exists>devs' evs e. step_after 2 both_down = Some (devs', evs) \<and> map_of devs' ''a'' = Some e
     \<and> verdict config_before (device_index (c_Devices config_before)) devs' ''a'' e"
proof -
  obtain devs' evs where run: "step_after 2 both_down = Some (devs', evs)"
    using step_after_returns(1) by fastforce
  then have settled: "\<forall>d \<in> set (c_Devices config_before). settled (effective_threshold config_before) devs' (dc_ID d)"
    using step_after_settled by (simp add: list_all_iff)
  have "sample_device ''a'' [''b''] \<in> set (c_Devices config_before)" "dc_ID (sample_device ''a'' [''b'']) = ''a''"
    by (simp_all add: config_before_def sample_config_def sample_device_def mk_device_def)
  with conjunct2 [OF tracker_correlates [OF config_before_valid, of "[]" "[]" both_down]] run [unfolded step_after_def] settled
  show ?thesis unfolding step_after_def by metis
qed



text \<open>A batch evaluates every configured device exactly once, and after all its upstreams.\<close>

theorem tracker_order:
  assumes "validateDependencies (c_Devices cfg) = None"
  shows "distinct (topologicalOrder (device_index (c_Devices cfg)))
    \<and> set (topologicalOrder (device_index (c_Devices cfg))) = dc_ID ` set (c_Devices cfg)
    \<and> (\<forall>xs i ys. topologicalOrder (device_index (c_Devices cfg)) = xs @ i # ys \<longrightarrow>
          set (normalizeIDs (upstreams_of (device_index (c_Devices cfg)) i)) \<subseteq> set xs)"
  using topologicalOrder_set [OF distinct_device_index, of "c_Devices cfg"] keys_device_index [of "c_Devices cfg"]
    order_upstreams_first [OF valid_index_device_index [OF assms]] by (auto simp: nups_def)

lemma tracker_order_witness:
  "set (topologicalOrder (device_index (c_Devices config_before))) = dc_ID ` set (c_Devices config_before)"
  using tracker_order [OF config_before_valid] by blast

section \<open>Events\<close>

text \<open>C33: the events of a batch are sorted by device, name configured devices only, and for each
  configured device there is exactly one event, with the new state, the previous one and the root
  causes, when its state, its reason or its alert policy changed, and none otherwise.\<close>

theorem tracker_events:
  assumes "ApplyBatch pr (Some cfg) os devs = Some (devs', evs)"
  shows "sorted (map ev_DeviceID evs) \<and> ev_DeviceID ` set evs \<subseteq> dc_ID ` set (c_Devices cfg)
    \<and> (\<forall>d \<in> set (c_Devices cfg). \<exists>e e'. map_of (commit_outcomes cfg os devs) (dc_ID d) = Some e
         \<and> map_of devs' (dc_ID d) = Some e'
         \<and> reports (filter (\<lambda>ev. ev_DeviceID ev = dc_ID d) evs) (dc_ID d) e e')"
  using ApplyBatch_events [OF assms] commit_outcomes_entry [of _ cfg os devs] by (fastforce simp: image_iff)

lemma tracker_events_witness:
  "\<exists>devs' evs. step_after 2 both_down = Some (devs', evs) \<and> sorted (map ev_DeviceID evs)"
proof -
  obtain devs' evs where run: "step_after 2 both_down = Some (devs', evs)"
    using step_after_returns(1) by fastforce
  from tracker_events [OF run [unfolded step_after_def]] run show ?thesis by blast
qed

text \<open>C34: no change before the outcome is settled: a device with no outcome, or with fewer
  consecutive failures than the threshold, keeps its state, reason and root causes, and publishes
  no event.\<close>

theorem tracker_debounces:
  assumes "ApplyBatch pr (Some cfg) os devs = Some (devs', evs)"
    and "d \<in> set (c_Devices cfg)" and "\<not> settled (effective_threshold cfg) devs' (dc_ID d)"
  shows "filter (\<lambda>ev. ev_DeviceID ev = dc_ID d) evs = []
    \<and> (\<forall>e. map_of devs (dc_ID d) = Some e \<longrightarrow>
        (\<exists>e'. map_of devs' (dc_ID d) = Some e' \<and> dh_HasState e' = dh_HasState e \<and> dh_State e' = dh_State e
           \<and> dh_Reason e' = dh_Reason e \<and> dh_RootCauseDeviceIDs e' = dh_RootCauseDeviceIDs e))"
proof -
  let ?mid = "commit_outcomes cfg os devs"
  obtain evs' where run: "eval_loop cfg (effective_threshold cfg) pr (device_index (c_Devices cfg))
      (topologicalOrder (device_index (c_Devices cfg))) ?mid = Some (devs', evs')"
    using assms(1) by (rule ApplyBatch_loop)
  have same: "map_of devs' (dc_ID d) = map_of ?mid (dc_ID d)"
    using eval_loop_pending [OF run] assms(3) settled_cong [OF ApplyBatch_outcome_of [OF assms(1)]] by blast
  obtain e where e: "map_of ?mid (dc_ID d) = Some e" using commit_outcomes_entry [of "dc_ID d"] assms(2) by blast
  then have "reports (filter (\<lambda>ev. ev_DeviceID ev = dc_ID d) evs) (dc_ID d) e e"
    using ApplyBatch_events [OF assms(1)] assms(2) same by fastforce
  then have "filter (\<lambda>ev. ev_DeviceID ev = dc_ID d) evs = []" by (simp add: reports_def)
  with same e commit_outcomes_decided [of devs "dc_ID d" _ cfg os] show ?thesis by (auto simp: decided_def)
qed

lemma tracker_debounces_witness:
  "\<exists>devs' evs. step_after 0 both_down = Some (devs', evs) \<and> filter (\<lambda>ev. ev_DeviceID ev = ''a'') evs = []"
proof -
  obtain devs' evs where run: "step_after 0 both_down = Some (devs', evs)"
    using step_after_returns(3) by fastforce
  have "\<not> settled (effective_threshold config_before) (fst (the (step_after 0 both_down))) ''a''" by code_simp
  then have "\<not> settled (effective_threshold config_before) devs' (dc_ID (sample_device ''a'' [''b'']))"
    by (simp add: run sample_device_def mk_device_def)
  from tracker_debounces [OF run [unfolded step_after_def] _ this] run
  show ?thesis by (auto simp: config_before_def sample_config_def sample_device_def mk_device_def)
qed

text \<open>A settled ledger is quiet: after a batch that settled every device, a batch with no new
  outcome, under the same configuration, returns and publishes nothing.\<close>

theorem tracker_quiet:
  assumes "validateDependencies (c_Devices cfg) = None"
    and "ApplyBatch pr (Some cfg) os devs = Some (devs', evs)"
    and "\<forall>d \<in> set (c_Devices cfg). settled (effective_threshold cfg) devs' (dc_ID d)"
    and "ApplyBatch pr (Some cfg) [] devs' = Some (devs'', evs')"
  shows "evs' = []"
proof -
  let ?index = "device_index (c_Devices cfg)"
  have mid: "commit_outcomes cfg [] devs' = devs'"
  proof -
    have "map_of devs' i \<noteq> None" if "i \<in> set (map fst ?index)" for i
      using that assms(3) settled_Some by (fastforce simp: keys_device_index)
    moreover have "fold (\<lambda>i m. if map_of m i = None then AList.update i new_entry m else m) ids devs' = devs'"
      if "\<forall>i \<in> set ids. map_of devs' i \<noteq> None" for ids
      using that by (induction ids) auto
    ultimately show ?thesis by (simp add: commit_outcomes_def ensure_entries_def)
  qed
  have out: "outcome_of devs'' = outcome_of devs'"
    using ApplyBatch_outcome_of [OF assms(4)] by (simp add: mid)
  have settled: "settled (effective_threshold cfg) devs'' (dc_ID d)" if "d \<in> set (c_Devices cfg)" for d
    using assms(3) that settled_cong [OF out] by blast
  obtain raw where run: "eval_loop cfg (effective_threshold cfg) pr ?index (topologicalOrder ?index) devs' = Some (devs'', raw)"
    using assms(4) mid by (metis ApplyBatch_loop)
  have "filter (\<lambda>ev. ev_DeviceID ev = dc_ID d) evs' = []" if d: "d \<in> set (c_Devices cfg)" for d
  proof -
    obtain e where e: "map_of devs' (dc_ID d) = Some e" "verdict cfg ?index devs' (dc_ID d) e"
      using ApplyBatch_verdict [OF assms(1,2)] assms(3) d by blast
    obtain e' where e': "map_of devs'' (dc_ID d) = Some e'" "verdict cfg ?index devs'' (dc_ID d) e'"
      using ApplyBatch_verdict [OF assms(1,4) settled] d by blast
    have v: "verdict cfg ?index devs' (dc_ID d) e'" using e'(2) verdict_cong(4) [OF out] by blast
    have "\<not> failed devs' (dc_ID d) \<Longrightarrow> dh_TemperatureC e' = dh_TemperatureC e"
      using eval_loop_temperature [OF run] e(1) e'(1) by fastforce
    then have "\<not> changed e e'"
      using e(2) v unfolding changed_def verdict_def by (auto split: if_splits)
    moreover have "reports (filter (\<lambda>ev. ev_DeviceID ev = dc_ID d) evs') (dc_ID d) e e'"
      using ApplyBatch_events [OF assms(4)] d e(1) e'(1) unfolding mid by fastforce
    ultimately show ?thesis by (simp add: reports_def)
  qed
  moreover have "ev_DeviceID ` set evs' \<subseteq> dc_ID ` set (c_Devices cfg)"
    using ApplyBatch_events [OF assms(4)] by blast
  ultimately have "ev \<notin> set evs'" for ev by (auto simp: filter_empty_conv image_subset_iff)
  then show ?thesis by (cases evs') auto
qed

lemma tracker_quiet_witness:
  "\<exists>d2 evs d3. step_after 2 both_down = Some (d2, evs) \<and> ApplyBatch [] (Some config_before) [] d2 = Some (d3, [])"
proof -
  obtain d2 evs where run: "step_after 2 both_down = Some (d2, evs)"
    using step_after_returns(1) by fastforce
  then have settled: "\<forall>d \<in> set (c_Devices config_before). settled (effective_threshold config_before) d2 (dc_ID d)"
    using step_after_settled by (simp add: list_all_iff)
  have "ApplyBatch [] (Some config_before) [] (fst (the (step_after 2 both_down))) \<noteq> None" by code_simp
  then obtain d3 evs3 where again: "ApplyBatch [] (Some config_before) [] d2 = Some (d3, evs3)"
    using run by fastforce
  from tracker_quiet [OF config_before_valid run [unfolded step_after_def] settled again] again run
  show ?thesis by blast
qed

section \<open>The reload after which a batch does not return\<close>

lemma evaluateFailure_diverges:
  assumes "us \<noteq> []" "\<And>u. u \<in> set us \<Longrightarrow> classify_upstream devs t u = UpUnavailable"
    and "x \<in> set us" "(x, x) \<in> (unav (map_of devs))\<^sup>+"
  shows "evaluateFailure devs us t = None"
proof -
  have f: "filter (\<lambda>u. classify_upstream devs t u = UpUnavailable) us = us" using assms(2) by simp
  have "\<not> set (sort us) \<subseteq> Wellfounded.acc (unav (map_of devs))"
  proof
    assume "set (sort us) \<subseteq> Wellfounded.acc (unav (map_of devs))"
    then have "x \<in> Wellfounded.acc (unav (map_of devs))" using assms(3) by (metis set_sort subsetD)
    from acc_no_cycle [OF this] assms(4) show False by contradiction
  qed
  then have "collectRootCauses devs (sort us) = None" using collectRootCauses_returns [of devs "sort us"]
    by (cases "collectRootCauses devs (sort us)") blast+
  with f show ?thesis using assms(1,2) by (simp add: evaluateFailure_def list_ex_iff)
qed

definition all_down :: "poll_outcome list" where
  "all_down = [down ''a'', down ''b'', down ''c'']"

text \<open>The ledger when the second batch after the reload evaluates its devices.\<close>

definition reloaded :: "(ledger \<times> event list) option" where
  "reloaded = ApplyBatch [] (Some config_after) all_down
     (Prune (map dc_ID (c_Devices config_after)) (ledger_after 3))"

definition stuck :: ledger where
  "stuck = commit_outcomes config_after all_down (fst (the reloaded))"

definition index_after :: "(string, device_config) gomap" where
  "index_after = device_index (c_Devices config_after)"

lemma stuck_1:
  "reloaded \<noteq> None"
  by code_simp

lemma stuck_2:
  "topologicalOrder index_after = [''c'', ''a'', ''b'']"
  by code_simp

lemma stuck_3:
  "eval_step config_after 3 [] index_after ''c'' stuck = Some (stuck, [])"
  by code_simp

lemma stuck_4:
  "eval_step config_after 3 [] index_after ''a'' stuck = Some (stuck, [])"
  by code_simp

lemma stuck_5:
  "classify_upstream stuck 3 ''a'' = UpUnavailable"
  by code_simp

lemma stuck_6:
  "map_option (\<lambda>e. (dh_HasState e, dh_State e, dh_UnavailableUpstream e)) (map_of stuck ''a'') = Some (True, StateUnknown, [''b''])"
  by code_simp

lemma stuck_7:
  "map_option (\<lambda>e. (dh_HasState e, dh_State e, dh_UnavailableUpstream e)) (map_of stuck ''b'') = Some (True, StateUnknown, [''a''])"
  by code_simp

lemma stuck_8:
  "map_option (\<lambda>e. (dh_HasOutcome e, dh_LastOutcomeSuccess e, dh_FailureCount e)) (map_of stuck ''b'') = Some (True, False, 5)"
  by code_simp

lemma stuck_9:
  "map_of index_after ''b'' = Some (sample_device ''b'' [''a''])"
  by code_simp

lemma stuck_10:
  "normalizeIDs (ups (sample_device ''b'' [''a''])) = [''a'']"
  by code_simp

lemma stuck_11:
  "effective_threshold config_after = 3"
  by code_simp

lemmas stuck_facts = stuck_1 stuck_2 stuck_3 stuck_4 stuck_5 stuck_6 stuck_7 stuck_8 stuck_9 stuck_10 stuck_11

lemma stuck_step: "eval_step config_after 3 [] index_after ''b'' stuck = None"
proof -
  obtain a where a: "map_of stuck ''a'' = Some a" "dh_HasState a" "dh_State a = StateUnknown"
      "dh_UnavailableUpstream a = [''b'']" using stuck_facts(6) by auto
  obtain b where b: "map_of stuck ''b'' = Some b" "dh_HasState b" "dh_State b = StateUnknown"
      "dh_UnavailableUpstream b = [''a'']" using stuck_facts(7) by auto
  have "(''b'', ''a'') \<in> unav (map_of stuck)" "(''a'', ''b'') \<in> unav (map_of stuck)"
    using a b by (auto simp: unav_def)
  then have "(''a'', ''a'') \<in> (unav (map_of stuck))\<^sup>+" by (meson trancl.intros)
  then have "evaluateFailure stuck [''a''] 3 = None"
    by (intro evaluateFailure_diverges [of _ _ _ "''a''"]) (use stuck_facts(5) in auto)
  moreover have "dh_HasOutcome b" "\<not> dh_LastOutcomeSuccess b" "dh_FailureCount b = 5"
    using stuck_facts(8) b(1) by auto
  ultimately show ?thesis
    using b(1) stuck_facts(9,10) by (simp add: eval_step_def Let_def evaluateDevice_def)
qed

text \<open>C39: two configurations the loader accepts make the tracker recurse without end: with \<open>a\<close>
  behind \<open>b\<close> both fail three times; the reload puts \<open>b\<close> behind \<open>a\<close> and \<open>a\<close> behind the new \<open>c\<close>, and the
  ledger is pruned to the new inventory; the first failed batch returns, the second one does not,
  because the two ledger entries name each other as unavailable upstreams.\<close>

theorem tracker_reload_diverges:
  "validate sample_parsers config_before = None \<and> validate sample_parsers config_after = None
    \<and> (\<exists>d1 evss d2 evs. apply_batches [] config_before (replicate 3 both_down) [] = Some (d1, evss)
        \<and> ApplyBatch [] (Some config_after) all_down (Prune (map dc_ID (c_Devices config_after)) d1) = Some (d2, evs)
        \<and> ApplyBatch [] (Some config_after) all_down d2 = None)"
proof (intro conjI)
  show "validate sample_parsers config_before = None" by code_simp
  show "validate sample_parsers config_after = None" by code_simp
  have "apply_batches [] config_before (replicate 3 both_down) [] \<noteq> None" by code_simp
  then obtain d1 evss where d1: "apply_batches [] config_before (replicate 3 both_down) [] = Some (d1, evss)"
    by fastforce
  then have l: "ledger_after 3 = d1" by (simp add: ledger_after_def)
  obtain d2 evs where d2: "reloaded = Some (d2, evs)" using stuck_facts(1) by fastforce
  have "ApplyBatch [] (Some config_after) all_down d2 = None"
  proof -
    have stuck: "commit_outcomes config_after all_down d2 = stuck" by (simp add: stuck_def d2)
    show ?thesis
      unfolding ApplyBatch_def option.case Let_def stuck index_after_def [symmetric]
      by (simp only: stuck_facts eval_loop.simps option.case prod.case stuck_step option.map)
  qed
  with d1 d2 l show "\<exists>d1 evss d2 evs. apply_batches [] config_before (replicate 3 both_down) [] = Some (d1, evss)
        \<and> ApplyBatch [] (Some config_after) all_down (Prune (map dc_ID (c_Devices config_after)) d1) = Some (d2, evs)
        \<and> ApplyBatch [] (Some config_after) all_down d2 = None"
    unfolding reloaded_def by blast
qed

section \<open>The summary\<close>

lemma snapshot_fold:
  "fold (\<lambda>(_, e). count_entry e) devs s = \<lparr>
     sn_Healthy = sn_Healthy s + length (filter (\<lambda>(_, e). dh_HasState e \<and> dh_State e = StateHealthy) devs),
     sn_Warning = sn_Warning s + length (filter (\<lambda>(_, e). dh_HasState e \<and> dh_State e = StateWarning) devs),
     sn_Critical = sn_Critical s + length (filter (\<lambda>(_, e). dh_HasState e \<and> dh_State e = StateCritical) devs),
     sn_Unknown = sn_Unknown s + length (filter (\<lambda>(_, e). dh_HasState e \<and> dh_State e = StateUnknown) devs),
     sn_DependencyImpacted = sn_DependencyImpacted s
        + length (filter (\<lambda>(_, e). dh_HasState e \<and> dh_State e = StateUnknown) devs),
     sn_PendingFailures = sn_PendingFailures s + length (filter (\<lambda>(_, e). dh_FailureCount e > 0
        \<and> (dh_HasState e \<longrightarrow> dh_State e \<notin> {StateCritical, StateUnknown})) devs)\<rparr>"
proof (induction devs arbitrary: s)
  case (Cons p devs)
  obtain i e where p: "p = (i, e)" by (cases p)
  show ?case
    unfolding p fold_simps comp_def prod.case
    by (subst Cons.IH, cases "dh_HasState e"; cases "dh_State e")
      (simp_all add: count_entry_def count_state_def Let_def)
qed simp

text \<open>The summary counts each device once: by its state when it has one, and as a pending
  failure when it has failed and is neither critical nor unknown.\<close>

theorem snapshot_counts:
  "sn_Healthy (Snapshot devs) = length (filter (\<lambda>(_, e). dh_HasState e \<and> dh_State e = StateHealthy) devs)
   \<and> sn_Warning (Snapshot devs) = length (filter (\<lambda>(_, e). dh_HasState e \<and> dh_State e = StateWarning) devs)
   \<and> sn_Critical (Snapshot devs) = length (filter (\<lambda>(_, e). dh_HasState e \<and> dh_State e = StateCritical) devs)
   \<and> sn_Unknown (Snapshot devs) = length (filter (\<lambda>(_, e). dh_HasState e \<and> dh_State e = StateUnknown) devs)
   \<and> sn_DependencyImpacted (Snapshot devs) = sn_Unknown (Snapshot devs)
   \<and> sn_PendingFailures (Snapshot devs) = length (filter (\<lambda>(_, e). dh_FailureCount e > 0
        \<and> \<not> (dh_HasState e \<and> dh_State e \<in> {StateCritical, StateUnknown})) devs)"
  unfolding Snapshot_def snapshot_fold by simp

end
