(* ===== verification/ConfigProps.thy ===== *)
theory ConfigProps
  imports Config
begin

text \<open>The properties of the configuration loader: what a configuration it accepts satisfies.\<close>

section \<open>Devices\<close>

definition device_ok :: "parsers \<Rightarrow> device_config \<Rightarrow> bool" where
  "device_ok ps d \<longleftrightarrow> identifierPattern (dc_ID d) \<and> trim_space (dc_Host d) \<noteq> [] \<and> dc_Port d \<noteq> 0
     \<and> dc_Version d = ''2c'' \<and> envNamePattern (dc_CommunityEnv d)
     \<and> 0 \<le> dc_PollInterval d \<and> dc_PollInterval d \<le> maxPollInterval
     \<and> 0 \<le> dc_Timeout d \<and> dc_Timeout d \<le> maxSNMPTimeout
     \<and> 0 \<le> dc_Retries d \<and> dc_Retries d \<le> maxRetries
     \<and> validateInterfaceFilters ps (dc_InterfaceFilters d) = None"

lemma validate_device_None:
  "validate_device ps seenIDs seenHosts d = None \<Longrightarrow>
     device_ok ps d \<and> dc_ID d \<notin> set seenIDs \<and> canonicalHost ps (dc_Host d) \<notin> set seenHosts"
  unfolding validate_device_def device_ok_def validateEnvName_def
  unfolding first_err_Cons_None fail_if_None by (simp add: not_less)

lemma validate_devices_None:
  "validate_devices ps seenIDs seenHosts ds = None \<Longrightarrow>
     (\<forall>d \<in> set ds. device_ok ps d) \<and> distinct (map dc_ID ds) \<and> set (map dc_ID ds) \<inter> set seenIDs = {}
     \<and> distinct (map (\<lambda>d. canonicalHost ps (dc_Host d)) ds)
     \<and> set (map (\<lambda>d. canonicalHost ps (dc_Host d)) ds) \<inter> set seenHosts = {}"
proof (induction ps seenIDs seenHosts ds rule: validate_devices.induct)
  case (2 ps seenIDs seenHosts d ds)
  from "2.prems" have d: "validate_device ps seenIDs seenHosts d = None" by (simp split: option.splits)
  with "2.prems" have ds: "validate_devices ps (dc_ID d # seenIDs) (canonicalHost ps (dc_Host d) # seenHosts) ds = None"
    by simp
  from "2.IH" [OF d ds] validate_device_None [OF d] show ?case by auto
qed simp

lemma validate_None:
  assumes "validate ps c = None"
  shows "validateDeviceSource ps (c_Devices c) = None" "validateDependencies (c_Devices c) = None"
    and "identifierPattern (c_SiteID c)" "identifierPattern (c_CollectorID c)"
    and "0 < c_PollInterval c" "c_PollInterval c \<le> maxPollInterval"
    and "0 < c_MaxWorkers c" "c_MaxWorkers c \<le> maxWorkers"
    and "0 < c_HeartbeatInterval c" "0 < c_FailureThreshold c" "c_FailureThreshold c \<le> maxRetries + 1"
    and "0 < c_SNMPTimeout c" "c_SNMPTimeout c \<le> maxSNMPTimeout" "0 \<le> c_SNMPRetries c"
    and "c_PublisherMode c = ''mqtt'' \<Longrightarrow> validateMQTT ps c = None"
    and "validateDiscovery ps (c_Discovery c) = None"
  using assms unfolding validate_def first_err_Cons_None fail_if_None
  by (simp_all add: not_le not_less)

lemma load_config_validate:
  assumes "load_config ps secrets brokerEnv password raw managed = Inr c"
  shows "validate ps c = None"
  using assms by (auto simp: load_config_def Let_def split: option.splits sum.splits if_splits)

text \<open>C3: the loader accepts only inventories with distinct device IDs and distinct canonical hosts,
  every device within its bounds, every upstream configured, and no dependency cycle.\<close>

theorem load_accepts_inventory:
  assumes "load_config ps secrets brokerEnv password raw managed = Inr c"
  shows "distinct (map dc_ID (c_Devices c)) \<and> distinct (map (\<lambda>d. canonicalHost ps (dc_Host d)) (c_Devices c))
    \<and> (\<forall>d \<in> set (c_Devices c). device_ok ps d \<and> distinct (ups d) \<and> dc_ID d \<notin> set (ups d)
          \<and> set (ups d) \<subseteq> dc_ID ` set (c_Devices c))
    \<and> acyclic (dep_graph (upstreams_of (device_index (c_Devices c))))"
proof -
  note v = load_config_validate [OF assms]
  from validate_devices_None [OF validate_None(1) [OF v, unfolded validateDeviceSource_def]]
    validate_None(2) [OF v, unfolded validateDependencies_None]
  show ?thesis unfolding references_ok_def by blast
qed

definition load_parsers :: parsers where
  "load_parsers = \<lparr>ps_regexOK = (\<lambda>_. True), ps_cidrOK = (\<lambda>_. True), ps_IP = (\<lambda>_. None),
     ps_brokerOK = (\<lambda>_. True), ps_Duration = (\<lambda>_. None), ps_insecureSkipVerify = False\<rparr>"

definition load_device :: "string \<Rightarrow> string list \<Rightarrow> device_config" where
  "load_device i us = (mk_device i)\<lparr>dc_Host := i, dc_CommunityEnv := ''COMMUNITY'', dc_UpstreamDeviceIDs := Some us\<rparr>"

text \<open>A document with only the required settings.\<close>

definition load_raw :: "device_config list \<Rightarrow> config" where
  "load_raw ds = \<lparr>c_SiteID = ''site-1'', c_PollInterval = 0, c_MaxWorkers = 0,
     c_CollectorID = ''c-1'', c_HeartbeatInterval = 0, c_ManagedPath = [],
     c_TemperatureWarningC = Fin 0, c_FailureThreshold = 0,
     c_Discovery = \<lparr>di_AllowedCIDRs = [], di_CommunityEnv = [], di_MaxTargets = 0, di_Timeout = 0,
        di_Retries = 0, di_MaxWorkers = 0, di_MaxProbesPerSecond = Fin 0, di_ProbeBurst = 0\<rparr>,
     c_AdminListen = [], c_ControlSocket = [], c_SNMPTimeout = 0, c_SNMPRetries = 0, c_PublisherMode = [],
     c_PublisherTimeout = 0, c_TelemetryVersion = [],
     c_Buffer = \<lparr>bu_Path = [], bu_MaxEntries = 0, bu_BusyTimeoutMS = 0, bu_BatchSize = 0, bu_IdleBackoff = 0\<rparr>,
     c_MQTT = \<lparr>mq_Broker = [], mq_ClientID = [], mq_Username = [], mq_PasswordEnv = [], mq_QoS = 0,
        mq_CAFile = [], mq_CertFile = [], mq_KeyFile = [], mq_ReconnectInitial = 0, mq_ReconnectMax = 0\<rparr>,
     c_Devices = ds\<rparr>"

definition load_sample :: "string + config" where
  "load_sample = load_config load_parsers True [] [] (load_raw [load_device ''b'' [], load_device ''a'' [''b'']])
     (Inr (empty_managed\<lparr>mi_Devices := [load_device ''c'' [''a''], mk_device ''a'']\<rparr>))"

lemma load_sample_ok: "\<exists>c. load_sample = Inr c"
proof -
  have "(case load_sample of Inl _ \<Rightarrow> False | Inr _ \<Rightarrow> True)" by code_simp
  then show ?thesis by (auto split: sum.splits)
qed

lemma load_accepts_inventory_witness:
  "\<exists>c. load_sample = Inr c \<and> distinct (map dc_ID (c_Devices c))"
proof -
  obtain c where "load_sample = Inr c" using load_sample_ok by blast
  with load_accepts_inventory [OF this [unfolded load_sample_def]] show ?thesis by blast
qed

text \<open>A configuration the loader accepts has its identifiers well formed and its intervals,
  timeouts, worker counts and failure threshold positive and bounded; with the MQTT publisher the
  broker, the credentials and a QoS of 1 are set.\<close>

theorem load_accepts_bounds:
  assumes "load_config ps secrets brokerEnv password raw managed = Inr c"
  shows "identifierPattern (c_SiteID c) \<and> identifierPattern (c_CollectorID c)
    \<and> 0 < c_PollInterval c \<and> c_PollInterval c \<le> maxPollInterval
    \<and> 0 < c_MaxWorkers c \<and> c_MaxWorkers c \<le> maxWorkers \<and> 0 < c_HeartbeatInterval c
    \<and> 1 \<le> c_FailureThreshold c \<and> c_FailureThreshold c \<le> 11
    \<and> 0 < c_SNMPTimeout c \<and> 0 \<le> c_SNMPRetries c
    \<and> (c_PublisherMode c = ''mqtt'' \<longrightarrow> mq_QoS (c_MQTT c) = 1 \<and> 0 < bu_BatchSize (c_Buffer c)
         \<and> 0 < mq_ReconnectInitial (c_MQTT c) \<and> mq_ReconnectInitial (c_MQTT c) \<le> mq_ReconnectMax (c_MQTT c)
         \<and> (secrets \<longrightarrow> password \<noteq> []))"
proof -
  note v = validate_None [OF load_config_validate [OF assms]]
  have "mq_QoS (c_MQTT c) = 1 \<and> 0 < bu_BatchSize (c_Buffer c)
      \<and> 0 < mq_ReconnectInitial (c_MQTT c) \<and> mq_ReconnectInitial (c_MQTT c) \<le> mq_ReconnectMax (c_MQTT c)"
    if "c_PublisherMode c = ''mqtt''"
    using v(15) [OF that] unfolding validateMQTT_def first_err_Cons_None fail_if_None by simp
  moreover have "password \<noteq> []" if "secrets" "c_PublisherMode c = ''mqtt''"
    using assms that by (auto simp: load_config_def Let_def validateRuntimeSecrets_def fail_if_def
        split: option.splits sum.splits if_splits)
  ultimately show ?thesis using v(3-14) by (auto simp: maxRetries_def)
qed

lemma load_accepts_bounds_witness:
  "\<exists>c. load_sample = Inr c \<and> 1 \<le> c_FailureThreshold c"
proof -
  obtain c where "load_sample = Inr c" using load_sample_ok by blast
  with load_accepts_bounds [OF this [unfolded load_sample_def]] show ?thesis by blast
qed

text \<open>The static inventory is authoritative: the devices of a loaded configuration are the static
  ones, in their order and with their identity fields, followed by the managed devices with other IDs.\<close>

theorem load_keeps_static:
  assumes "load_config ps secrets brokerEnv password raw (Inr managed) = Inr c"
  shows "map dc_ID (c_Devices c) = map dc_ID (c_Devices raw)
      @ filter (\<lambda>k. k \<notin> dc_ID ` set (c_Devices raw)) (map dc_ID (mi_Devices managed))
    \<and> map identity_of (take (length (c_Devices raw)) (c_Devices c)) = map identity_of (applyDeviceDefaults (c_Devices raw))"
proof -
  let ?statics = "applyDeviceDefaults (c_Devices raw)"
  have ids: "map dc_ID ?statics = map dc_ID (c_Devices raw)"
    by (simp add: applyDeviceDefaults_def applyDeviceDefault_def Let_def)
  then have set_ids: "dc_ID ` set ?statics = dc_ID ` set (c_Devices raw)" by (metis set_map)
  have len: "length ?statics = length (c_Devices raw)" using ids by (metis length_map)
  have st: "c_Devices (applyEnvOverrides brokerEnv (applyDefaults raw)) = ?statics"
    by (simp add: applyEnvOverrides_def applyDefaults_def)
  obtain mdevs where c: "c_Devices c = mergeInventories ?statics mdevs"
    and m: "map dc_ID mdevs = map dc_ID (mi_Devices managed)"
  proof
    let ?mdevs = "map (\<lambda>d. if dc_ID d \<in> set (map dc_ID ?statics) then d else applyDeviceDefault d) (mi_Devices managed)"
    show "c_Devices c = mergeInventories ?statics ?mdevs"
      using assms by (auto simp: load_config_def Let_def st applyManagedPolicy_def split: option.splits if_splits)
    show "map dc_ID ?mdevs = map dc_ID (mi_Devices managed)"
      by (simp add: applyDeviceDefault_def Let_def)
  qed
  show ?thesis
    using merge_ids [of ?statics mdevs] merge_identity [of ?statics mdevs]
    unfolding c m ids set_ids len by (rule conjI)
qed

lemma load_keeps_static_witness:
  "\<exists>c. load_sample = Inr c \<and> map dc_ID (c_Devices c) = [''b'', ''a'', ''c'']"
proof -
  obtain c where c: "load_sample = Inr c" using load_sample_ok by blast
  from conjunct1 [OF load_keeps_static [OF this [unfolded load_sample_def]]]
  have "map dc_ID (c_Devices c) = [''b'', ''a'', ''c'']"
    by (simp add: load_raw_def load_device_def mk_device_def)
  with c show ?thesis by (intro exI conjI)
qed

text \<open>The temperature check accepts the values between -100 and 250 and also NaN, which the
  decoder produces for \<open>.nan\<close>; a device with that limit is never warm.\<close>

theorem temperature_check:
  "(ValidateTemperatureWarningC v = None \<longleftrightarrow> v = NaN \<or> (\<exists>q. v = Fin q \<and> -100 \<le> q \<and> q \<le> 250))
    \<and> (\<forall>t. \<not> f64_le NaN t)"
  by (cases v) (auto simp: ValidateTemperatureWarningC_def temperature_out_of_range_def
      minTemperatureCelsius_def maxTemperatureCelsius_def f64_lt.simps f64_le.simps not_less)

text \<open>C37: the dependency check accepts an inventory exactly when no device repeats an upstream or
  names itself or an unknown device, and the dependencies have no cycle.\<close>

theorem dependencies_accepted:
  "validateDependencies ds = None \<longleftrightarrow>
     (\<forall>d \<in> set ds. distinct (ups d) \<and> dc_ID d \<notin> set (ups d) \<and> set (ups d) \<subseteq> dc_ID ` set ds)
     \<and> acyclic (dep_graph (upstreams_of (device_index ds)))"
  unfolding validateDependencies_None references_ok_def by blast

lemma dependencies_accepted_witness:
  "validateDependencies [load_device ''b'' [], load_device ''a'' [''b'']] = None
    \<and> acyclic (dep_graph (upstreams_of (device_index [load_device ''b'' [], load_device ''a'' [''b'']])))"
proof -
  have "validateDependencies [load_device ''b'' [], load_device ''a'' [''b'']] = None" by code_simp
  then show ?thesis using dependencies_accepted by blast
qed

end
