(* ===== verification/Outbox.thy ===== *)
theory Outbox
  imports Prelude "HOL-Library.Word"
begin

text \<open>
  The durable outbox of the collector: the SQLite buffer (\<open>internal/buffer/store.go\<close>) and the
  publisher that fills and drains it (\<open>internal/publisher/buffered.go\<close>), with the reconnect delay of
  \<open>internal/publisher/mqtt_client.go\<close>.

  The table is the list of its rows in the order of their IDs with the AUTOINCREMENT counter, and
  the SQL statements of the source are the operations on it.  An open transaction has a copy of both
  that its statements change and that its commit puts in their place.  Whether the context is cancelled, a
  statement fails or the broker acknowledges is an argument of each call; a failed statement outside a
  transaction leaves the table alone, and a transaction ends with its commit, failed or not
  (\<open>database/sql\<close>).  Bytes are lists of characters.  The wake
  channel has room for one signal, so its state is whether it holds one.
\<close>

section \<open>The store\<close>

record row =
  row_ID :: int
  row_Topic :: string
  row_Payload :: string

record pending_event =
  pe_Topic :: string
  pe_Payload :: string

record store =
  st_rows :: "row list"
  st_seq :: int
  st_depth :: int
  st_max :: int
  st_tx :: "(row list \<times> int) option"
  st_wake :: bool
  st_gauge :: int
  st_enqueued :: int
  st_closed :: bool

datatype store_error = CtxError | TopicRequired | PayloadRequired | ErrBufferFull | SQLError
  | PathRequired | MetricsRequired

text \<open>\<open>Open\<close> on a database that already holds rows: the depth is their number.\<close>

definition Open :: "string \<Rightarrow> int \<Rightarrow> bool \<Rightarrow> bool \<Rightarrow> row list \<Rightarrow> int \<Rightarrow> store_error + store" where
  "Open path maxEntries hasMetrics sqlOK rows seqno =
     (if path = [] then Inl PathRequired
      else if \<not> hasMetrics then Inl MetricsRequired
      else if \<not> sqlOK then Inl SQLError
      else Inr \<lparr>st_rows = rows, st_seq = seqno, st_depth = int (length rows), st_max = maxEntries,
             st_tx = None, st_wake = False, st_gauge = int (length rows), st_enqueued = 0, st_closed = False\<rparr>)"

definition Depth :: "store \<Rightarrow> int" where
  "Depth s = st_depth s"

definition signal :: "store \<Rightarrow> store" where
  "signal s = s\<lparr>st_wake := True\<rparr>"

definition insert_row :: "pending_event \<Rightarrow> store \<Rightarrow> store" where
  "insert_row ev s = s\<lparr>st_rows := st_rows s @ [\<lparr>row_ID = st_seq s + 1, row_Topic = pe_Topic ev,
      row_Payload = pe_Payload ev\<rparr>], st_seq := st_seq s + 1\<rparr>"

definition added :: "int \<Rightarrow> store \<Rightarrow> store" where
  "added n s = signal (s\<lparr>st_depth := st_depth s + n, st_gauge := st_depth s + n,
      st_enqueued := st_enqueued s + n\<rparr>)"

definition Enqueue :: "bool \<Rightarrow> bool \<Rightarrow> string \<Rightarrow> string \<Rightarrow> store \<Rightarrow> store_error option \<times> store" where
  "Enqueue ctxErr sqlOK topic payload s =
     (if ctxErr then (Some CtxError, s)
      else if topic = [] then (Some TopicRequired, s)
      else if payload = [] then (Some PayloadRequired, s)
      else if st_max s > 0 \<and> st_depth s \<ge> st_max s then (Some ErrBufferFull, s)
      else if \<not> sqlOK then (Some SQLError, s)
      else (None, added 1 (insert_row \<lparr>pe_Topic = topic, pe_Payload = payload\<rparr> s)))"

fun check_events :: "pending_event list \<Rightarrow> store_error option" where
  "check_events [] = None"
| "check_events (ev # evs) =
     (if pe_Topic ev = [] then Some TopicRequired
      else if pe_Payload ev = [] then Some PayloadRequired
      else check_events evs)"

text \<open>The transaction of a batch.  An insert may fail after others succeeded; \<open>Rollback\<close> is deferred and does nothing
  once the transaction has ended.\<close>

record tx_env =
  tx_beginOK :: bool
  tx_insertOK :: "nat \<Rightarrow> bool"
  tx_commitOK :: bool

definition BeginTx :: "store \<Rightarrow> store" where
  "BeginTx s = s\<lparr>st_tx := Some (st_rows s, st_seq s)\<rparr>"

definition tx_insert :: "pending_event \<Rightarrow> row list \<times> int \<Rightarrow> row list \<times> int" where
  "tx_insert ev t = (fst t @ [\<lparr>row_ID = snd t + 1, row_Topic = pe_Topic ev, row_Payload = pe_Payload ev\<rparr>], snd t + 1)"

fun insert_events :: "(nat \<Rightarrow> bool) \<Rightarrow> nat \<Rightarrow> pending_event list \<Rightarrow> store \<Rightarrow> store_error option \<times> store" where
  "insert_events ok n [] s = (None, s)"
| "insert_events ok n (ev # evs) s =
     (if ok n then insert_events ok (Suc n) evs (s\<lparr>st_tx := map_option (tx_insert ev) (st_tx s)\<rparr>)
      else (Some SQLError, s))"

definition Commit :: "bool \<Rightarrow> store \<Rightarrow> store_error option \<times> store" where
  "Commit ok s = (case st_tx s of
      None \<Rightarrow> (Some SQLError, s)
    | Some (rows, seqno) \<Rightarrow>
        if ok then (None, s\<lparr>st_rows := rows, st_seq := seqno, st_tx := None\<rparr>)
        else (Some SQLError, s\<lparr>st_tx := None\<rparr>))"

definition Rollback :: "store \<Rightarrow> store" where
  "Rollback s = s\<lparr>st_tx := None\<rparr>"

definition EnqueueBatch :: "bool \<Rightarrow> tx_env \<Rightarrow> pending_event list \<Rightarrow> store \<Rightarrow> store_error option \<times> store" where
  "EnqueueBatch ctxErr env evs s =
     (if ctxErr then (Some CtxError, s)
      else if evs = [] then (None, s)
      else (case check_events evs of
          Some e \<Rightarrow> (Some e, s)
        | None \<Rightarrow>
            let n = int (length evs) in
            if st_max s > 0 \<and> st_depth s + n > st_max s then (Some ErrBufferFull, s)
            else if \<not> tx_beginOK env then (Some SQLError, s)
            else (case insert_events (tx_insertOK env) 0 evs (BeginTx s) of
                (Some e, s1) \<Rightarrow> (Some e, Rollback s1)
              | (None, s1) \<Rightarrow> (case Commit (tx_commitOK env) s1 of
                    (Some e, s2) \<Rightarrow> (Some e, Rollback s2)
                  | (None, s2) \<Rightarrow> (None, Rollback (added n s2))))))"

definition PeekOldest :: "bool \<Rightarrow> int \<Rightarrow> store \<Rightarrow> store_error + row list" where
  "PeekOldest sqlOK limit s =
     (if limit \<le> 0 then Inr []
      else if \<not> sqlOK then Inl SQLError
      else Inr (take (nat limit) (st_rows s)))"

text \<open>\<open>Delete\<close>: the statement may fail, and the driver may not report the affected rows.\<close>

definition Delete :: "bool \<Rightarrow> bool \<Rightarrow> int \<Rightarrow> store \<Rightarrow> store_error option \<times> store" where
  "Delete sqlOK affectedOK i s =
     (if \<not> sqlOK then (Some SQLError, s)
      else
        (let s' = s\<lparr>st_rows := filter (\<lambda>r. row_ID r \<noteq> i) (st_rows s)\<rparr> in
         if \<not> affectedOK then (Some SQLError, s')
         else if length (st_rows s') = length (st_rows s) then (None, s')
         else (let d = st_depth s - 1; d' = (if d < 0 then 0 else d)
               in (None, s'\<lparr>st_depth := d', st_gauge := d'\<rparr>))))"

definition Available :: "store \<Rightarrow> bool" where
  "Available s = (\<not> st_closed s)"

definition Close :: "store \<Rightarrow> store" where
  "Close s = s\<lparr>st_closed := True\<rparr>"

section \<open>The buffered publisher\<close>

record 'ev publisher =
  pb_store :: store
  pb_marshal :: "'ev \<Rightarrow> string option"
  pb_topic :: "'ev \<Rightarrow> string"
  pb_batchSize :: int
  pb_idleBackoff :: duration
  pb_sent :: "(string \<times> string) list"

definition NewBufferedPublisher :: "store \<Rightarrow> ('ev \<Rightarrow> string option) \<Rightarrow> ('ev \<Rightarrow> string) \<Rightarrow> int \<Rightarrow> duration
    \<Rightarrow> 'ev publisher" where
  "NewBufferedPublisher s marshal topic batchSize idleBackoff =
     \<lparr>pb_store = s, pb_marshal = marshal, pb_topic = topic,
      pb_batchSize = (if batchSize \<le> 0 then 50 else batchSize),
      pb_idleBackoff = (if idleBackoff \<le> 0 then 500 * 1000000 else idleBackoff), pb_sent = []\<rparr>"

datatype publish_error = PubCtxError | MarshalError | StoreError store_error

fun marshal_all :: "('ev \<Rightarrow> string option) \<Rightarrow> ('ev \<Rightarrow> string) \<Rightarrow> ('ev \<times> bool) list
    \<Rightarrow> publish_error + pending_event list" where
  "marshal_all marshal topic [] = Inr []"
| "marshal_all marshal topic ((ev, ctxErr) # evs) =
     (if ctxErr then Inl PubCtxError
      else (case marshal ev of
          None \<Rightarrow> Inl MarshalError
        | Some payload \<Rightarrow> (case marshal_all marshal topic evs of
              Inl e \<Rightarrow> Inl e
            | Inr batch \<Rightarrow> Inr (\<lparr>pe_Topic = topic ev, pe_Payload = payload\<rparr> # batch))))"

text \<open>Each event comes with the cancellation its iteration sees; the last arguments are the ones of the store.\<close>

definition Publish :: "('ev \<times> bool) list \<Rightarrow> bool \<Rightarrow> tx_env \<Rightarrow> 'ev publisher
    \<Rightarrow> publish_error option \<times> 'ev publisher" where
  "Publish evs ctxErr env p =
     (if evs = [] then (None, p)
      else (case marshal_all (pb_marshal p) (pb_topic p) evs of
          Inl e \<Rightarrow> (Some e, p)
        | Inr batch \<Rightarrow> (case EnqueueBatch ctxErr env batch (pb_store p) of
              (e, s) \<Rightarrow> (map_option StoreError e, p\<lparr>pb_store := s\<rparr>))))"

text \<open>
  What the broker does with one message: acknowledges it, or fails, after having received it or
  not; \<open>flush_env\<close> is what one iteration of the loop of \<open>flushOnce\<close> meets.
\<close>

datatype delivery = Acked | Failed bool

record flush_env =
  fe_ctxErr :: bool
  fe_delivery :: delivery
  fe_deleteOK :: bool
  fe_affectedOK :: bool

datatype flush_error = FlushCtx | FlushPublish | FlushStore store_error

definition sent_by :: "delivery \<Rightarrow> row \<Rightarrow> (string \<times> string) list" where
  "sent_by d r = (if d = Acked \<or> d = Failed True then [(row_Topic r, row_Payload r)] else [])"

fun flush_rows :: "row list \<Rightarrow> flush_env list \<Rightarrow> store \<Rightarrow> (string \<times> string) list
    \<Rightarrow> flush_error option \<times> store \<times> (string \<times> string) list" where
  "flush_rows [] envs s sent = (None, s, sent)"
| "flush_rows (r # rs) [] s sent = (Some FlushCtx, s, sent)"
| "flush_rows (r # rs) (env # envs) s sent =
     (if fe_ctxErr env then (Some FlushCtx, s, sent)
      else
        (let sent' = sent @ sent_by (fe_delivery env) r in
         if fe_delivery env \<noteq> Acked then (Some FlushPublish, s, sent')
         else (case Delete (fe_deleteOK env) (fe_affectedOK env) (row_ID r) s of
             (Some e, s') \<Rightarrow> (Some (FlushStore e), s', sent')
           | (None, s') \<Rightarrow> flush_rows rs envs s' sent')))"

definition flushOnce :: "bool \<Rightarrow> flush_env list \<Rightarrow> 'ev publisher \<Rightarrow> flush_error option \<times> 'ev publisher" where
  "flushOnce peekOK envs p =
     (case PeekOldest peekOK (pb_batchSize p) (pb_store p) of
        Inl e \<Rightarrow> (Some (FlushStore e), p)
      | Inr rows \<Rightarrow> (case flush_rows rows envs (pb_store p) (pb_sent p) of
            (e, s, sent) \<Rightarrow> (e, p\<lparr>pb_store := s, pb_sent := sent\<rparr>)))"

text \<open>One round of \<open>Drain\<close>, and the loop over the rounds; \<open>None\<close> is a loop still running when the
  list of rounds ends.\<close>

record drain_env =
  de_ctxErr :: bool
  de_connected :: bool
  de_awaitOK :: bool
  de_peekOK :: bool
  de_flush :: "flush_env list"
  de_doneInWait :: bool

datatype drain_error = DrainIncomplete int | DrainAwait int | DrainFlush flush_error

fun Drain :: "drain_env list \<Rightarrow> 'ev publisher \<Rightarrow> (drain_error option \<times> 'ev publisher) option" where
  "Drain envs p =
     (if st_depth (pb_store p) \<le> 0 then Some (None, p)
      else (case envs of
          [] \<Rightarrow> None
        | env # envs' \<Rightarrow>
            if de_ctxErr env then Some (Some (DrainIncomplete (st_depth (pb_store p))), p)
            else if \<not> de_connected env \<and> \<not> de_awaitOK env
            then Some (Some (DrainAwait (st_depth (pb_store p))), p)
            else (case flushOnce (de_peekOK env) (de_flush env) p of
                (Some e, p') \<Rightarrow> Some (Some (DrainFlush e), p')
              | (None, p') \<Rightarrow>
                  if st_depth (pb_store p') > 0 \<and> de_doneInWait env
                  then Some (Some (DrainIncomplete (st_depth (pb_store p'))), p')
                  else Drain envs' p')))"

declare Drain.simps [simp del]

text \<open>One turn of \<open>RunFlusher\<close>: \<open>None\<close> when the context is done; the wake signal is consumed when
  the select takes it, and the error of a flush is logged.\<close>

definition flusher_turn :: "bool \<Rightarrow> bool \<Rightarrow> bool \<Rightarrow> bool \<Rightarrow> bool \<Rightarrow> flush_env list \<Rightarrow> 'ev publisher
    \<Rightarrow> 'ev publisher option" where
  "flusher_turn ctxDone takesWake isConnected connectedAfterWait peekOK envs p =
     (if ctxDone then None
      else
        (let p1 = (if takesWake then p\<lparr>pb_store := (pb_store p)\<lparr>st_wake := False\<rparr>\<rparr> else p) in
         if \<not> isConnected \<and> \<not> connectedAfterWait then Some p1
         else Some (snd (flushOnce peekOK envs p1))))"

section \<open>The reconnect delay\<close>

text \<open>\<open>time.Duration\<close> is a signed 64-bit integer and the product wraps; \<open>int63n\<close> stands for \<open>rand.Int63n\<close>.\<close>

definition backoff_base :: "64 word \<Rightarrow> 64 word \<Rightarrow> int \<Rightarrow> 64 word" where
  "backoff_base initial maxDelay attempt =
     (let a = (if attempt < 0 then 0 else attempt);
          shift = (if a > 30 then 30 else a);
          base = initial * push_bit (nat shift) 1
      in if sint base > sint maxDelay \<or> sint base \<le> 0 then maxDelay else base)"

definition jitterBackoff :: "(int \<Rightarrow> int) \<Rightarrow> 64 word \<Rightarrow> 64 word \<Rightarrow> int \<Rightarrow> 64 word" where
  "jitterBackoff int63n initial maxDelay attempt =
     (let base = backoff_base initial maxDelay attempt in
      if sint base \<le> 0 then initial
      else base + word_of_int (int63n (sint base div 2 + 1)))"

end
