(* ===== verification/OutboxProps.thy ===== *)
theory OutboxProps
  imports Outbox
begin

text \<open>
  The properties of the outbox: its depth counts its rows, a batch is all or nothing, messages leave
  in the order they came and none before the broker had it, and a drain empties it.
\<close>

section \<open>The contract the flusher relies on\<close>

text \<open>Rows leave one by one from the front; \<open>remove\<close> takes the key of the row.\<close>

locale fifo_store =
  fixes rows_of :: "'s \<Rightarrow> 'r list" and key :: "'r \<Rightarrow> int" and append_row :: "'e \<Rightarrow> 's \<Rightarrow> 's"
    and mk_row :: "'s \<Rightarrow> 'e \<Rightarrow> 'r" and remove :: "int \<Rightarrow> 's \<Rightarrow> 's" and okay :: "'s \<Rightarrow> bool"
  assumes append_rows: "rows_of (append_row e s) = rows_of s @ [mk_row s e]"
    and append_okay: "okay s \<Longrightarrow> okay (append_row e s)"
    and remove_front: "okay s \<Longrightarrow> rows_of s = r # rs \<Longrightarrow> rows_of (remove (key r) s) = rs"
    and remove_okay: "okay s \<Longrightarrow> okay (remove k s)"
begin

lemma remove_prefix:
  "okay s \<Longrightarrow> rows_of s = xs @ ys \<Longrightarrow> rows_of (fold (\<lambda>r. remove (key r)) xs s) = ys
     \<and> okay (fold (\<lambda>r. remove (key r)) xs s)"
  by (induction xs arbitrary: s) (auto simp: remove_front remove_okay)

lemma append_all:
  "\<exists>new. rows_of (fold append_row es s) = rows_of s @ new \<and> length new = length es
     \<and> (okay s \<longrightarrow> okay (fold append_row es s))"
proof (induction es arbitrary: s)
  case (Cons e es)
  obtain new where "rows_of (fold append_row es (append_row e s)) = rows_of (append_row e s) @ new"
    "length new = length es" "okay (append_row e s) \<longrightarrow> okay (fold append_row es (append_row e s))"
    using Cons.IH [of "append_row e s"] by blast
  then show ?case by (auto simp: append_rows append_okay intro!: exI [of _ "mk_row s e # new"])
qed simp

end

definition table_ok :: "store \<Rightarrow> bool" where
  "table_ok s \<longleftrightarrow> sorted_wrt (<) (map row_ID (st_rows s)) \<and> (\<forall>r \<in> set (st_rows s). row_ID r \<le> st_seq s)"

definition drop_row :: "int \<Rightarrow> store \<Rightarrow> store" where
  "drop_row i s = s\<lparr>st_rows := filter (\<lambda>r. row_ID r \<noteq> i) (st_rows s)\<rparr>"

lemma table_ok_insert: "table_ok s \<Longrightarrow> table_ok (insert_row ev s)"
  by (fastforce simp: table_ok_def insert_row_def sorted_wrt_append)

lemma table_ok_drop: "table_ok s \<Longrightarrow> table_ok (drop_row i s)"
  unfolding table_ok_def drop_row_def by (auto simp: sorted_wrt_map sorted_wrt_filter)

lemma drop_front: "table_ok s \<Longrightarrow> st_rows s = r # rs \<Longrightarrow> st_rows (drop_row (row_ID r) s) = rs"
  by (auto simp: table_ok_def drop_row_def intro!: filter_True)

interpretation outbox: fifo_store st_rows row_ID insert_row
    "\<lambda>s ev. \<lparr>row_ID = st_seq s + 1, row_Topic = pe_Topic ev, row_Payload = pe_Payload ev\<rparr>" drop_row table_ok
  by unfold_locales
    (erule table_ok_insert | erule table_ok_drop | erule (1) drop_front | simp add: insert_row_def)+

section \<open>Operations on the store\<close>

datatype store_op = OpEnqueue bool bool string string | OpBatch bool tx_env "pending_event list"
  | OpDelete bool bool int | OpPeek bool int | OpClose | OpWakeTaken

definition run_op :: "store_op \<Rightarrow> store \<Rightarrow> store" where
  "run_op oper s = (case oper of
      OpEnqueue c q topic payload \<Rightarrow> snd (Enqueue c q topic payload s)
    | OpBatch c q evs \<Rightarrow> snd (EnqueueBatch c q evs s)
    | OpDelete q a i \<Rightarrow> snd (Delete q a i s)
    | OpPeek q n \<Rightarrow> s
    | OpClose \<Rightarrow> Close s
    | OpWakeTaken \<Rightarrow> s\<lparr>st_wake := False\<rparr>)"

text \<open>The driver reported the affected rows of every delete.\<close>

definition reports_rows :: "store_op \<Rightarrow> bool" where
  "reports_rows oper = (case oper of OpDelete q a i \<Rightarrow> a | _ \<Rightarrow> True)"

definition counts_rows :: "bool \<Rightarrow> store \<Rightarrow> bool" where
  "counts_rows exact s \<longleftrightarrow> table_ok s \<and> st_tx s = None \<and> st_gauge s = st_depth s \<and> int (length (st_rows s)) \<le> st_depth s
     \<and> (exact \<longrightarrow> st_depth s = int (length (st_rows s)))"

lemma insert_row_fields [simp]:
  "st_depth (insert_row ev s) = st_depth s" "st_gauge (insert_row ev s) = st_gauge s" "st_tx (insert_row ev s) = st_tx s"
  "length (st_rows (insert_row ev s)) = Suc (length (st_rows s))"
  by (simp_all add: insert_row_def)

lemma fold_insert:
  "st_depth (fold insert_row evs s) = st_depth s" "st_gauge (fold insert_row evs s) = st_gauge s"
  "st_max (fold insert_row evs s) = st_max s" "st_tx (fold insert_row evs s) = st_tx s"
  "map (\<lambda>r. (row_Topic r, row_Payload r)) (st_rows (fold insert_row evs s)) =
     map (\<lambda>r. (row_Topic r, row_Payload r)) (st_rows s) @ map (\<lambda>ev. (pe_Topic ev, pe_Payload ev)) evs"
  by (induction evs arbitrary: s) (simp_all add: insert_row_def)

lemma counts_added:
  assumes "counts_rows x s" "st_depth s' = st_depth s" "table_ok s'" "st_tx s' = None"
    "int (length (st_rows s')) = int (length (st_rows s)) + n"
  shows "counts_rows x (added n s')"
  using assms by (auto simp: counts_rows_def added_def signal_def table_ok_def)

text \<open>What a transaction that commits puts into the table is what inserting the rows one by one would put there; the
  copy of one that fails is dropped.\<close>

lemma insert_events_result:
  "insert_events ok n evs s = (e, s') \<Longrightarrow> st_tx s = Some t \<Longrightarrow>
     (\<exists>t'. s' = s\<lparr>st_tx := Some t'\<rparr> \<and> (e = None \<longrightarrow> t' = fold tx_insert evs t))
     \<and> e = (if \<forall>k < length evs. ok (n + k) then None else Some SQLError)"
proof (induction evs arbitrary: n s t)
  case (Cons ev evs)
  show ?case
  proof (cases "ok n")
    case True
    let ?s = "s\<lparr>st_tx := Some (tx_insert ev t)\<rparr>"
    have "insert_events ok (Suc n) evs ?s = (e, s')" using Cons.prems True by simp
    from Cons.IH [OF this] obtain t' where t': "s' = ?s\<lparr>st_tx := Some t'\<rparr>" "e = None \<longrightarrow> t' = fold tx_insert evs (tx_insert ev t)"
      and e: "e = (if \<forall>k < length evs. ok (Suc n + k) then None else Some SQLError)" by fastforce
    have "(\<forall>k < length (ev # evs). ok (n + k)) \<longleftrightarrow> (\<forall>k < length evs. ok (Suc n + k))"
      using True by (auto simp: less_Suc_eq_0_disj)
    then show ?thesis using t' unfolding e by (intro conjI exI [of _ t']) simp_all
  next
    case False
    then have "s' = s\<lparr>st_tx := Some t\<rparr>" "e = Some SQLError" using Cons.prems by auto
    moreover have "\<not> (\<forall>k < length (ev # evs). ok (n + k))" using False by (auto intro!: exI [of _ 0])
    ultimately show ?thesis by (intro conjI exI [of _ t]) simp_all
  qed
qed auto

lemma fold_tx_insert:
  "fold insert_row evs s = s\<lparr>st_rows := fst (fold tx_insert evs (st_rows s, st_seq s)),
     st_seq := snd (fold tx_insert evs (st_rows s, st_seq s))\<rparr>"
  by (induction evs arbitrary: s) (simp_all add: insert_row_def tx_insert_def)

lemma EnqueueBatch_eq:
  assumes "st_tx s = None"
  shows "EnqueueBatch ctxErr env evs s =
     (if ctxErr then (Some CtxError, s)
      else if evs = [] then (None, s)
      else (case check_events evs of
          Some e \<Rightarrow> (Some e, s)
        | None \<Rightarrow>
            if st_max s > 0 \<and> st_depth s + int (length evs) > st_max s then (Some ErrBufferFull, s)
            else if tx_beginOK env \<and> (\<forall>k < length evs. tx_insertOK env k) \<and> tx_commitOK env
            then (None, added (int (length evs)) (fold insert_row evs s)) else (Some SQLError, s)))"
proof -
  obtain e s1 where ins: "insert_events (tx_insertOK env) 0 evs (BeginTx s) = (e, s1)" by fastforce
  have "st_tx (BeginTx s) = Some (st_rows s, st_seq s)" by (simp add: BeginTx_def)
  from insert_events_result [OF ins this] obtain t'
    where s1: "s1 = s\<lparr>st_tx := Some t'\<rparr>" "e = None \<Longrightarrow> t' = fold tx_insert evs (st_rows s, st_seq s)"
      and e: "e = (if \<forall>k < length evs. tx_insertOK env k then None else Some SQLError)"
    by (auto simp: BeginTx_def)
  show ?thesis
  proof (cases e)
    case (Some f)
    then have "(\<forall>k < length evs. tx_insertOK env k) = False" "f = SQLError" using e by (auto split: if_splits)
    then show ?thesis using ins s1(1) Some assms
      by (simp only: EnqueueBatch_def Rollback_def Let_def) (auto split: option.split)
  next
    case None
    then have "\<forall>k < length evs. tx_insertOK env k" using e by (auto split: if_splits)
    then show ?thesis using ins s1 None assms
      by (simp add: EnqueueBatch_def Commit_def Rollback_def added_def signal_def fold_tx_insert Let_def
          split: option.split prod.split)
  qed
qed

lemma length_delete:
  assumes "table_ok s"
  shows "length (st_rows (drop_row i s)) = length (st_rows s) \<or>
    Suc (length (st_rows (drop_row i s))) = length (st_rows s)"
proof -
  have "distinct (map row_ID xs) \<Longrightarrow> length (filter (\<lambda>r. row_ID r \<noteq> i) xs) = length xs \<or>
      Suc (length (filter (\<lambda>r. row_ID r \<noteq> i) xs)) = length xs" for xs
  proof (induction xs)
    case (Cons y xs)
    show ?case
    proof (cases "row_ID y = i")
      case True
      with Cons.prems have "filter (\<lambda>r. row_ID r \<noteq> i) xs = xs"
        by (intro filter_True) (auto simp: image_iff)
      with True show ?thesis by simp
    qed (use Cons in auto)
  qed simp
  moreover have "distinct (map row_ID (st_rows s))"
    using assms by (simp add: table_ok_def strict_sorted_iff)
  ultimately show ?thesis by (simp add: drop_row_def)
qed

lemma Delete_eq:
  "Delete q a i s =
     (if \<not> q then (Some SQLError, s)
      else if \<not> a then (Some SQLError, drop_row i s)
      else if length (st_rows (drop_row i s)) = length (st_rows s) then (None, drop_row i s)
      else (None, (drop_row i s)\<lparr>st_depth := max 0 (st_depth s - 1), st_gauge := max 0 (st_depth s - 1)\<rparr>))"
  by (simp add: Delete_def drop_row_def Let_def max_def)

lemma run_op_counts:
  assumes "counts_rows x s" "x \<longrightarrow> reports_rows oper"
  shows "counts_rows x (run_op oper s)"
proof (cases oper)
  case (OpEnqueue c q topic payload)
  have "counts_rows x (added 1 (insert_row \<lparr>pe_Topic = topic, pe_Payload = payload\<rparr> s))"
    by (rule counts_added [OF assms(1)])
       (use assms(1) in \<open>simp_all add: counts_rows_def table_ok_insert\<close>)
  with assms OpEnqueue show ?thesis by (auto simp: run_op_def Enqueue_def)
next
  case (OpBatch c q evs)
  have "counts_rows x (added (int (length evs)) (fold insert_row evs s))"
    by (rule counts_added [OF assms(1)])
       (use assms(1) outbox.append_all [of evs s] in \<open>auto simp: counts_rows_def fold_insert\<close>)
  moreover have "st_tx s = None" using assms(1) by (simp add: counts_rows_def)
  ultimately show ?thesis using assms OpBatch by (simp add: run_op_def EnqueueBatch_eq split: option.split)
next
  case (OpDelete q a i)
  have ok: "table_ok s" using assms(1) by (simp add: counts_rows_def)
  with assms OpDelete length_delete [OF ok, of i] table_ok_drop [OF ok, of i] show ?thesis
    by (auto simp: run_op_def Delete_eq counts_rows_def reports_rows_def table_ok_def drop_row_def)
qed (use assms in \<open>auto simp: run_op_def Close_def counts_rows_def table_ok_def\<close>)

lemma run_op_bound:
  assumes "counts_rows x s" "0 < st_max s \<longrightarrow> st_depth s \<le> max (st_max s) b" "0 \<le> b"
  shows "st_max (run_op oper s) = st_max s \<and> (0 < st_max s \<longrightarrow> st_depth (run_op oper s) \<le> max (st_max s) b)"
proof (cases oper)
  case (OpEnqueue c q topic payload)
  then show ?thesis using assms(2) by (auto simp: run_op_def Enqueue_def added_def signal_def insert_row_def)
next
  case (OpBatch c q evs)
  moreover have "st_tx s = None" using assms(1) by (simp add: counts_rows_def)
  ultimately show ?thesis
    using assms(2) by (auto simp: run_op_def EnqueueBatch_eq added_def signal_def fold_insert split: option.splits)
next
  case (OpDelete q a i)
  then show ?thesis using assms(2,3) by (auto simp: run_op_def Delete_eq drop_row_def)
qed (use assms(2) in \<open>simp_all add: run_op_def Close_def\<close>)

text \<open>C31: the depth in memory.  Whatever sequence of operations runs on an opened store, the table never has more
  rows than the depth it keeps in memory and reports, and exactly as many as long as the driver reports the affected
  rows of each delete; the row IDs stay strictly increasing, no transaction stays open, and with a limit
  the rows never exceed the larger of the limit and the number of rows at the start.\<close>

theorem store_depth_counts_rows:
  assumes "Open path maxEntries True True rows seqno = Inr s"
    and "sorted_wrt (<) (map row_ID rows)" "\<forall>r \<in> set rows. row_ID r \<le> seqno"
  shows "counts_rows (list_all reports_rows ops) (fold run_op ops s)
    \<and> (0 < maxEntries \<longrightarrow> int (length (st_rows (fold run_op ops s))) \<le> max maxEntries (int (length rows)))"
proof -
  have run: "counts_rows x (fold run_op ops s) \<and> (0 < maxEntries \<longrightarrow> st_depth (fold run_op ops s) \<le> max maxEntries b)"
    if "counts_rows x s" "x \<longrightarrow> list_all reports_rows ops" "st_max s = maxEntries"
      "0 < maxEntries \<longrightarrow> st_depth s \<le> max maxEntries b" "0 \<le> b" for x s b
    using that
  proof (induction ops arbitrary: s)
    case (Cons oper ops)
    have "st_max (run_op oper s) = maxEntries" "0 < maxEntries \<longrightarrow> st_depth (run_op oper s) \<le> max maxEntries b"
      using run_op_bound [OF Cons.prems(1) _ Cons.prems(5)] Cons.prems(3,4) by simp_all
    moreover have "counts_rows x (run_op oper s)" using Cons.prems(1,2) by (auto intro: run_op_counts)
    ultimately show ?case using Cons.IH [of "run_op oper s"] Cons.prems(2,5) by simp
  qed simp
  have "counts_rows (list_all reports_rows ops) s" "st_max s = maxEntries" "st_depth s = int (length rows)"
    using assms by (auto simp: Open_def counts_rows_def table_ok_def split: if_splits)
  from run [OF this(1) _ this(2), of "int (length rows)"] this(3)
  have fin: "counts_rows (list_all reports_rows ops) (fold run_op ops s)"
      "0 < maxEntries \<longrightarrow> st_depth (fold run_op ops s) \<le> max maxEntries (int (length rows))" by simp_all
  moreover have "int (length (st_rows (fold run_op ops s))) \<le> st_depth (fold run_op ops s)"
    using fin(1) by (simp add: counts_rows_def)
  ultimately show ?thesis by linarith
qed

lemma store_depth_counts_rows_witness:
  "\<exists>s. Open ''b.db'' 2 True True [] 0 = Inr s \<and>
     counts_rows True (fold run_op [OpEnqueue False True ''t'' ''p'', OpDelete True True 1] s)"
proof -
  obtain s where s: "Open ''b.db'' 2 True True [] 0 = Inr s" by (simp add: Open_def)
  from store_depth_counts_rows [OF s, of "[OpEnqueue False True ''t'' ''p'', OpDelete True True 1]"] s
  show ?thesis by (auto simp: reports_rows_def)
qed

text \<open>C30: a batch is all or nothing: when the transaction cannot be begun, an insert fails after any number of
  others, or the commit fails, the store is as it was; when none fails, all the messages of an accepted batch are
  appended, in order, after the rows that are there, the depth is raised by their number, the
  flusher is woken, and the configured bound holds.  No transaction stays open.\<close>

theorem enqueue_batch_atomic:
  assumes "st_tx s = None"
  shows "case EnqueueBatch ctxErr env evs s of
     (Some e, s') \<Rightarrow> s' = s \<and> (e = SQLError \<longleftrightarrow> \<not> ctxErr \<and> evs \<noteq> [] \<and> check_events evs = None
         \<and> (st_max s > 0 \<longrightarrow> st_depth s + int (length evs) \<le> st_max s)
         \<and> \<not> (tx_beginOK env \<and> (\<forall>k < length evs. tx_insertOK env k) \<and> tx_commitOK env))
   | (None, s') \<Rightarrow> st_tx s' = None \<and> ((evs = [] \<and> s' = s) \<or>
       (map (\<lambda>r. (row_Topic r, row_Payload r)) (st_rows s') =
          map (\<lambda>r. (row_Topic r, row_Payload r)) (st_rows s) @ map (\<lambda>ev. (pe_Topic ev, pe_Payload ev)) evs
        \<and> st_depth s' = st_depth s + int (length evs) \<and> st_wake s'
        \<and> (st_max s > 0 \<longrightarrow> st_depth s' \<le> st_max s)))"
proof -
  have refused: "check_events es \<noteq> Some SQLError" for es by (induction es) auto
  show ?thesis unfolding EnqueueBatch_eq [OF assms]
    using assms refused [of evs] by (auto simp: added_def signal_def fold_insert split: option.splits)
qed

definition sample_store :: store where
  "sample_store = \<lparr>st_rows = [\<lparr>row_ID = 4, row_Topic = ''t'', row_Payload = ''a''\<rparr>, \<lparr>row_ID = 7, row_Topic = ''t'', row_Payload = ''b''\<rparr>],
     st_seq = 7, st_depth = 2, st_max = 3, st_tx = None, st_wake = False, st_gauge = 2, st_enqueued = 0, st_closed = False\<rparr>"

lemma sample_store_ok: "table_ok sample_store" "counts_rows True sample_store"
  by (simp_all add: sample_store_def table_ok_def counts_rows_def)

lemma enqueue_batch_atomic_witness:
  "EnqueueBatch False \<lparr>tx_beginOK = True, tx_insertOK = (\<lambda>k. k < 1), tx_commitOK = True\<rparr>
     [\<lparr>pe_Topic = ''t'', pe_Payload = ''c''\<rparr>, \<lparr>pe_Topic = ''t'', pe_Payload = ''d''\<rparr>] (sample_store\<lparr>st_max := 4\<rparr>)
     = (Some SQLError, sample_store\<lparr>st_max := 4\<rparr>)"
proof -
  let ?env = "\<lparr>tx_beginOK = True, tx_insertOK = (\<lambda>k. k < 1), tx_commitOK = True\<rparr>"
    and ?evs = "[\<lparr>pe_Topic = ''t'', pe_Payload = ''c''\<rparr>, \<lparr>pe_Topic = ''t'', pe_Payload = ''d''\<rparr>]"
    and ?s = "sample_store\<lparr>st_max := 4\<rparr>"
  obtain e s' where run: "EnqueueBatch False ?env ?evs ?s = (e, s')" by fastforce
  moreover have "e = Some SQLError" using run by (auto simp: EnqueueBatch_def BeginTx_def sample_store_def)
  ultimately show ?thesis
    using enqueue_batch_atomic [of ?s ?evs False ?env] by (simp add: sample_store_def)
qed

section \<open>Flushing\<close>

definition msg :: "row \<Rightarrow> string \<times> string" where
  "msg r = (row_Topic r, row_Payload r)"

lemma flush_rows_prefix:
  "table_ok s \<Longrightarrow> st_rows s = rs @ tl_rows \<Longrightarrow> flush_rows rs envs s sent = (e, s', sent') \<Longrightarrow>
     \<exists>k extra. k \<le> length rs \<and> st_rows s' = drop k (st_rows s) \<and> table_ok s'
       \<and> sent' = sent @ map msg (take k (st_rows s)) @ extra
       \<and> (extra = [] \<or> (k < length rs \<and> extra = [msg (rs ! k)])) \<and> (e = None \<longrightarrow> k = length rs \<and> extra = [])"
proof (induction rs envs s sent arbitrary: e s' sent' rule: flush_rows.induct)
  case (3 r rs env envs s sent)
  have front: "st_rows (drop_row (row_ID r) s) = rs @ tl_rows"
    using drop_front [OF "3.prems"(1)] "3.prems"(2) by simp
  have sent_r: "fe_delivery env = Acked \<Longrightarrow> sent_by (fe_delivery env) r = [msg r]"
    by (simp add: sent_by_def msg_def)
  have short: "length (st_rows (drop_row (row_ID r) s)) \<noteq> length (st_rows s)"
    using front "3.prems"(2) by simp
  consider (ctx) "fe_ctxErr env" | (pub) "\<not> fe_ctxErr env" "fe_delivery env \<noteq> Acked"
    | (del) "\<not> fe_ctxErr env" "fe_delivery env = Acked" by blast
  then show ?case
  proof cases
    case ctx
    with "3.prems" show ?thesis by (auto intro!: exI [of _ 0])
  next
    case pub
    with "3.prems" show ?thesis
      by (auto simp: Let_def sent_by_def msg_def intro!: exI [of _ 0])
  next
    case del
    consider (bad) "\<not> fe_deleteOK env" | (unreported) "fe_deleteOK env" "\<not> fe_affectedOK env"
      | (ok) "fe_deleteOK env" "fe_affectedOK env" by blast
    then show ?thesis
    proof cases
      case bad
      with "3.prems" del show ?thesis
        by (auto simp: Delete_eq sent_by_def msg_def intro!: exI [of _ 0])
    next
      case unreported
      with "3.prems" del front show ?thesis
        by (auto simp: Delete_eq sent_by_def msg_def table_ok_drop intro!: exI [of _ 1])
    next
      case ok
      define s1 where "s1 = (drop_row (row_ID r) s)\<lparr>st_depth := max 0 (st_depth s - 1), st_gauge := max 0 (st_depth s - 1)\<rparr>"
      have d: "Delete (fe_deleteOK env) (fe_affectedOK env) (row_ID r) s = (None, s1)"
        using ok short by (simp add: Delete_eq s1_def)
      have ok1: "table_ok s1" using table_ok_drop [OF "3.prems"(1), of "row_ID r"] by (simp add: s1_def table_ok_def)
      have rows1: "st_rows s1 = rs @ tl_rows" using front by (simp add: s1_def)
      have rec: "flush_rows rs envs s1 (sent @ sent_by (fe_delivery env) r) = (e, s', sent')"
        using "3.prems"(3) del d by (simp add: Let_def)
      from "3.IH" [OF del(1) refl _ d [symmetric] refl ok1 rows1 rec] del(2)
      obtain k extra where k: "k \<le> length rs" "st_rows s' = drop k (st_rows s1)" "table_ok s'"
        "sent' = (sent @ sent_by (fe_delivery env) r) @ map msg (take k (st_rows s1)) @ extra"
        "extra = [] \<or> (k < length rs \<and> extra = [msg (rs ! k)])" "e = None \<longrightarrow> k = length rs \<and> extra = []"
        by blast
      show ?thesis
        by (rule exI [of _ "Suc k"], rule exI [of _ extra])
           (use k rows1 "3.prems"(2) sent_r [OF del(2)] in auto)
    qed
  qed
qed (auto intro!: exI [of _ 0])

text \<open>C19: delivery in order and at least once: whatever fails during a flush, the rows that leave the
  store are its oldest ones, every one of them was handed to the broker, in the order of the store,
  and at most one message more was handed over, the oldest that stays, to be sent again; a flush
  without error hands over exactly its batch.\<close>

theorem flush_in_order:
  assumes "table_ok (pb_store p)" and "flushOnce True envs p = (e, p')"
  shows "\<exists>k extra. st_rows (pb_store p') = drop k (st_rows (pb_store p))
    \<and> pb_sent p' = pb_sent p @ map msg (take k (st_rows (pb_store p))) @ extra
    \<and> (extra = [] \<or> (\<exists>r rest. st_rows (pb_store p') = r # rest \<and> extra = [msg r]))
    \<and> (e = None \<longrightarrow> extra = [] \<and> k = min (nat (pb_batchSize p)) (length (st_rows (pb_store p))))
    \<and> table_ok (pb_store p')"
proof -
  let ?n = "nat (pb_batchSize p)" and ?rows = "st_rows (pb_store p)"
  have peek: "PeekOldest True (pb_batchSize p) (pb_store p) = Inr (take ?n ?rows)" by (simp add: PeekOldest_def)
  obtain s sent where run: "flush_rows (take ?n ?rows) envs (pb_store p) (pb_sent p) = (e, s, sent)"
    and p': "p' = p\<lparr>pb_store := s, pb_sent := sent\<rparr>"
    using assms(2) by (auto simp: flushOnce_def peek split: prod.splits)
  obtain k extra where k: "k \<le> length (take ?n ?rows)" "st_rows s = drop k ?rows" "table_ok s"
    "sent = pb_sent p @ map msg (take k ?rows) @ extra"
    "extra = [] \<or> (k < length (take ?n ?rows) \<and> extra = [msg (take ?n ?rows ! k)])"
    "e = None \<longrightarrow> k = length (take ?n ?rows) \<and> extra = []"
    using flush_rows_prefix [OF assms(1) _ run, of "drop ?n ?rows"] by auto
  have "\<exists>r rest. st_rows s = r # rest \<and> extra = [msg r]" if "extra \<noteq> []"
    using k(1,2,5) that by (auto simp: Cons_nth_drop_Suc [symmetric])
  with k p' show ?thesis by (intro exI [of _ k] exI [of _ extra]) auto
qed

definition good_env :: flush_env where
  "good_env = \<lparr>fe_ctxErr = False, fe_delivery = Acked, fe_deleteOK = True, fe_affectedOK = True\<rparr>"

definition sample_publisher :: "unit publisher" where
  "sample_publisher = NewBufferedPublisher sample_store (\<lambda>_. Some ''p'') (\<lambda>_. ''t'') 1 0"

lemma flush_in_order_witness:
  "\<exists>k. st_rows (pb_store (snd (flushOnce True [good_env\<lparr>fe_delivery := Failed True\<rparr>] sample_publisher))) = drop k (st_rows sample_store)"
proof -
  have "table_ok (pb_store sample_publisher)"
    using sample_store_ok by (simp add: sample_publisher_def NewBufferedPublisher_def)
  from flush_in_order [OF this, of "[good_env\<lparr>fe_delivery := Failed True\<rparr>]"] show ?thesis
    by (auto simp: sample_publisher_def NewBufferedPublisher_def split: prod.splits) (metis prod.collapse)
qed

text \<open>A round of the drain in which nothing fails.\<close>

definition good_round :: "drain_env \<Rightarrow> 'ev publisher \<Rightarrow> bool" where
  "good_round env p \<longleftrightarrow> \<not> de_ctxErr env \<and> (de_connected env \<or> de_awaitOK env) \<and> de_peekOK env \<and> \<not> de_doneInWait env
     \<and> nat (pb_batchSize p) \<le> length (de_flush env) \<and> list_all (\<lambda>f. f = good_env) (de_flush env)"

lemma flush_rows_good:
  "counts_rows True s \<Longrightarrow> st_rows s = rs @ tl_rows \<Longrightarrow> length rs \<le> length envs \<Longrightarrow>
   list_all (\<lambda>f. f = good_env) envs \<Longrightarrow>
   \<exists>s'. flush_rows rs envs s sent = (None, s', sent @ map msg rs) \<and> st_rows s' = tl_rows \<and> counts_rows True s'"
proof (induction rs envs s sent rule: flush_rows.induct)
  case (3 r rs env envs s sent)
  have env: "env = good_env" using "3.prems"(4) by simp
  have ok: "table_ok s" using "3.prems"(1) by (simp add: counts_rows_def)
  have front: "st_rows (drop_row (row_ID r) s) = rs @ tl_rows" using drop_front [OF ok] "3.prems"(2) by simp
  obtain s1 where d: "Delete True True (row_ID r) s = (None, s1)" and rows1: "st_rows s1 = rs @ tl_rows"
    using front "3.prems"(2) by (simp add: Delete_eq)
  have c1: "counts_rows True s1"
    using run_op_counts [OF "3.prems"(1), of "OpDelete True True (row_ID r)"] d
    by (simp add: run_op_def reports_rows_def)
  have "\<exists>s'. flush_rows rs envs s1 (sent @ sent_by (fe_delivery env) r) = (None, s', (sent @ sent_by (fe_delivery env) r) @ map msg rs)
      \<and> st_rows s' = tl_rows \<and> counts_rows True s'"
  proof (rule "3.IH" [OF _ refl _ _ refl c1 rows1])
    show "(None, s1) = Delete (fe_deleteOK env) (fe_affectedOK env) (row_ID r) s"
      using d env by (simp add: good_env_def)
  qed (use "3.prems"(3,4) env in \<open>auto simp: good_env_def\<close>)
  moreover have "sent_by (fe_delivery env) r = [msg r]" using env by (simp add: good_env_def sent_by_def msg_def)
  ultimately show ?case using d env by (simp add: good_env_def)
qed simp_all

text \<open>C32: with a working broker and database a drain ends: given as many good rounds as there are
  buffered messages it returns without error, the store is empty, and exactly the buffered messages
  went out, in their order.\<close>

theorem drain_empties:
  assumes "counts_rows True (pb_store p)" and "0 < pb_batchSize p"
    and "\<forall>env \<in> set envs. good_round env p" and "length (st_rows (pb_store p)) \<le> length envs"
  shows "\<exists>p'. Drain envs p = Some (None, p') \<and> st_rows (pb_store p') = []
    \<and> pb_sent p' = pb_sent p @ map msg (st_rows (pb_store p))"
  using assms
proof (induction envs arbitrary: p)
  case Nil
  then show ?case by (auto simp: Drain.simps [of "[]"] counts_rows_def)
next
  case (Cons env envs)
  show ?case
  proof (cases "st_rows (pb_store p) = []")
    case True
    with Cons.prems(1) show ?thesis by (auto simp: Drain.simps [of "env # envs"] counts_rows_def)
  next
    case False
    let ?n = "nat (pb_batchSize p)" and ?rows = "st_rows (pb_store p)"
    have g: "good_round env p" using Cons.prems(3) by simp
    have "\<exists>s'. flush_rows (take ?n ?rows) (de_flush env) (pb_store p) (pb_sent p)
          = (None, s', pb_sent p @ map msg (take ?n ?rows)) \<and> st_rows s' = drop ?n ?rows \<and> counts_rows True s'"
      by (rule flush_rows_good [OF Cons.prems(1)]) (use g in \<open>auto simp: good_round_def\<close>)
    then obtain s1 where f: "flush_rows (take ?n ?rows) (de_flush env) (pb_store p) (pb_sent p)
          = (None, s1, pb_sent p @ map msg (take ?n ?rows))"
      and s1: "st_rows s1 = drop ?n ?rows" "counts_rows True s1" by blast
    let ?p1 = "p\<lparr>pb_store := s1, pb_sent := pb_sent p @ map msg (take ?n ?rows)\<rparr>"
    have fl: "flushOnce (de_peekOK env) (de_flush env) p = (None, ?p1)"
      using g f Cons.prems(2) by (simp add: flushOnce_def PeekOldest_def good_round_def)
    have "\<exists>p'. Drain envs ?p1 = Some (None, p') \<and> st_rows (pb_store p') = []
        \<and> pb_sent p' = pb_sent ?p1 @ map msg (st_rows (pb_store ?p1))"
    proof (rule Cons.IH)
      have "?n > 0" using Cons.prems(2) by simp
      with False have "length (drop ?n ?rows) < length ?rows" by simp
      then show "length (st_rows (pb_store ?p1)) \<le> length envs" using Cons.prems(4) s1 by simp
    qed (use Cons.prems(2,3) s1 in \<open>auto simp: good_round_def\<close>)
    then obtain p' where p': "Drain envs ?p1 = Some (None, p')" "st_rows (pb_store p') = []"
      "pb_sent p' = pb_sent p @ map msg ?rows"
      using s1 by (auto simp flip: map_append)
    have "st_depth (pb_store p) > 0" using False Cons.prems(1) by (simp add: counts_rows_def)
    then have "Drain (env # envs) p = Drain envs ?p1"
      using g fl by (auto simp: Drain.simps [of "env # envs"] good_round_def)
    with p' show ?thesis by auto
  qed
qed

lemma drain_empties_witness:
  "\<exists>p'. Drain (replicate 2 \<lparr>de_ctxErr = False, de_connected = True, de_awaitOK = False, de_peekOK = True,
      de_flush = [good_env], de_doneInWait = False\<rparr>) sample_publisher = Some (None, p') \<and> st_rows (pb_store p') = []"
  using drain_empties [of sample_publisher "replicate 2 \<lparr>de_ctxErr = False, de_connected = True, de_awaitOK = False,
      de_peekOK = True, de_flush = [good_env], de_doneInWait = False\<rparr>"] sample_store_ok
  by (auto simp: sample_publisher_def NewBufferedPublisher_def good_round_def) (auto simp: sample_store_def)

section \<open>The reconnect delay\<close>

text \<open>While the shifted delay fits in 63 bits, the reconnect delay is at least the exponential
  step, \<open>initial\<close> doubled per attempt up to the maximum, and at most half of it more.\<close>

theorem backoff_bounds:
  assumes "0 < sint initial" "sint initial \<le> sint maxDelay" "sint initial * 2 ^ 30 < 2 ^ 63" "sint maxDelay < 2 ^ 62"
    and "\<And>n. 0 < n \<Longrightarrow> 0 \<le> int63n n \<and> int63n n < n"
  shows "let base = min (sint initial * 2 ^ min (nat attempt) 30) (sint maxDelay) in
     base \<le> sint (jitterBackoff int63n initial maxDelay attempt)
     \<and> sint (jitterBackoff int63n initial maxDelay attempt) \<le> base + base div 2"
proof -
  let ?k = "min (nat attempt) 30"
  have k: "nat (if (if attempt < 0 then 0 else attempt) > 30 then 30 else (if attempt < 0 then 0 else attempt)) = ?k"
    by auto
  have small: "sint (word_of_int x :: 64 word) = x" if "0 \<le> x" "x < 2 ^ 63" for x :: int
    using that by (intro signed_take_bit_int_eq_self [THEN trans [OF sint_sbintrunc']]) auto
  have bound: "sint initial * 2 ^ ?k \<le> sint initial * 2 ^ 30"
    using assms(1) by (intro mult_left_mono power_increasing) auto
  have w: "initial * push_bit ?k 1 = word_of_int (sint initial * 2 ^ ?k)"
    by (simp add: push_bit_eq_mult)
  have lo: "0 \<le> sint initial * 2 ^ ?k" using assms(1) by simp
  have hi: "sint initial * 2 ^ ?k < 2 ^ 63" by (rule order.strict_trans1 [OF bound assms(3)])
  have prod: "sint (initial * push_bit ?k 1) = sint initial * 2 ^ ?k"
    by (simp only: w small [OF lo hi])
  have base: "sint (backoff_base initial maxDelay attempt) = min (sint initial * 2 ^ ?k) (sint maxDelay)"
  proof -
    define B where "B = initial * push_bit ?k 1"
    have B: "sint B = sint initial * 2 ^ ?k" "0 < sint B"
      using prod assms(1) unfolding B_def by simp_all
    have "backoff_base initial maxDelay attempt = (if sint B > sint maxDelay \<or> sint B \<le> 0 then maxDelay else B)"
      unfolding backoff_base_def Let_def k B_def by (rule refl)
    then have "sint (backoff_base initial maxDelay attempt) = min (sint B) (sint maxDelay)"
      using B(2) by (cases "sint B > sint maxDelay") auto
    then show ?thesis unfolding B(1) .
  qed
  define W b where "W = backoff_base initial maxDelay attempt" and "b = sint W"
  have b: "0 < b" "b < 2 ^ 62"
    using base assms(1,2,4) unfolding b_def W_def by (simp_all only: min_less_iff_conj min_less_iff_disj) auto
  define x where "x = int63n (b div 2 + 1)"
  have "0 < b div 2 + 1" using b(1) by linarith
  from assms(5) [OF this] have x: "0 \<le> x" "x \<le> b div 2" unfolding x_def by linarith+
  have "W = word_of_int b" by (simp add: b_def)
  then have "jitterBackoff int63n initial maxDelay attempt = word_of_int (b + x)"
    using b(1) unfolding jitterBackoff_def Let_def W_def [symmetric] b_def [symmetric] x_def [symmetric]
    by (simp only: not_le [symmetric] if_False of_int_add)
  moreover have "0 \<le> b + x" using b(1) x(1) by linarith
  moreover have "b + x < 2 ^ 63"
  proof -
    have "x < 2 ^ 62" using x(2) b by linarith
    then show ?thesis using b(2) by simp
  qed
  ultimately have "sint (jitterBackoff int63n initial maxDelay attempt) = b + x" by (simp only: small)
  with x show ?thesis unfolding Let_def base [symmetric] W_def [symmetric] b_def [symmetric] by linarith
qed

lemma backoff_bounds_witness:
  "1000000000 * 2 ^ 3 \<le> sint (jitterBackoff (\<lambda>n. n div 2) 1000000000 60000000000 3)"
proof -
  have s: "sint (1000000000 :: 64 word) = 1000000000" "sint (60000000000 :: 64 word) = 60000000000" by simp_all
  from backoff_bounds [of 1000000000 60000000000 "\<lambda>n. n div 2" 3] show ?thesis by (simp add: s Let_def)
qed

text \<open>The cap of the shift does not keep the product from wrapping: an initial delay of 2^34 + 1
  nanoseconds (17 seconds), which the configuration accepts, gives a first step of 2^30 nanoseconds
  (one second) from the thirtieth attempt on, below the initial delay.\<close>

theorem backoff_wraps:
  "backoff_base (2 ^ 34 + 1) (2 ^ 36) 30 = 2 ^ 30 \<and> sint (2 ^ 30 :: 64 word) < sint (2 ^ 34 + 1 :: 64 word)"
  by (simp add: backoff_base_def push_bit_eq_mult)

end
