(* ===== verification/Auth.thy ===== *)
theory Auth
  imports Prelude
begin

text \<open>
  Authentication of the appliance API (\<open>services/backend-api/internal/auth/\<close>): the login rate
  limiter (\<open>ratelimit.go\<close>), the sessions (\<open>sessions.go\<close>), the checks of the broker client
  (\<open>broker.go\<close>) and the handlers and middlewares over them (\<open>appliance_handlers.go\<close>,
  \<open>appliance_middleware.go\<close>, \<open>middleware.go\<close>).

  The session table is the list of its rows and the SQL statements of the source are the operations
  on it; the primary key of migration 000012 makes an insert of a known token hash fail.  SHA-256,
  the random source, the host broker, the JSON decoding of a request and a failing database are
  arguments.  The iteration order over a Go map is an argument where it matters.
\<close>

section \<open>The login rate limiter\<close>

record rate_entry =
  re_failures :: int
  re_windowEnd :: time

record limiter =
  lm_limit :: int
  lm_window :: duration
  lm_maxEntries :: int
  lm_entries :: "(string, rate_entry) gomap"

definition NewLoginRateLimiter :: "int \<Rightarrow> duration \<Rightarrow> int \<Rightarrow> limiter" where
  "NewLoginRateLimiter limit window maxEntries =
     \<lparr>lm_limit = (if limit \<le> 0 then 1 else limit),
      lm_window = (if window \<le> 0 then 60 * 1000000000 else window),
      lm_maxEntries = (if maxEntries \<le> 0 then 1024 else maxEntries), lm_entries = []\<rparr>"

definition pruneExpired :: "time \<Rightarrow> limiter \<Rightarrow> limiter" where
  "pruneExpired now l = l\<lparr>lm_entries := mprune (\<lambda>_ e. \<not> now > re_windowEnd e) (lm_entries l)\<rparr>"

definition Allow :: "time \<Rightarrow> string \<Rightarrow> limiter \<Rightarrow> bool \<times> limiter" where
  "Allow now key l =
     (if key = [] then (True, l)
      else
        (let l1 = pruneExpired now l in
         case map_of (lm_entries l1) key of
           None \<Rightarrow> (True, l1)
         | Some e \<Rightarrow>
             if now > re_windowEnd e then (True, l1\<lparr>lm_entries := AList.delete key (lm_entries l1)\<rparr>)
             else (re_failures e < lm_limit l1, l1)))"

text \<open>The entry with the earliest end, the first one in the iteration order.\<close>

fun oldest :: "(string, rate_entry) gomap \<Rightarrow> string list \<Rightarrow> (string \<times> time) option \<Rightarrow> (string \<times> time) option" where
  "oldest m [] best = best"
| "oldest m (k # ks) best =
     (case map_of m k of
        None \<Rightarrow> oldest m ks best
      | Some e \<Rightarrow> oldest m ks (case best of
            None \<Rightarrow> Some (k, re_windowEnd e)
          | Some (k', t) \<Rightarrow> if re_windowEnd e < t then Some (k, re_windowEnd e) else best))"

definition ensureCapacity :: "string list \<Rightarrow> limiter \<Rightarrow> limiter" where
  "ensureCapacity order l =
     (if int (length (lm_entries l)) < lm_maxEntries l then l
      else (case oldest (lm_entries l) order None of
          None \<Rightarrow> l
        | Some (k, _) \<Rightarrow> if k \<noteq> [] then l\<lparr>lm_entries := AList.delete k (lm_entries l)\<rparr> else l))"

definition RecordFailure :: "(limiter \<Rightarrow> string list) \<Rightarrow> time \<Rightarrow> string \<Rightarrow> limiter \<Rightarrow> limiter" where
  "RecordFailure order now key l =
     (if key = [] then l
      else
        (let l1 = pruneExpired now l;
             fresh = (case map_of (lm_entries l1) key of None \<Rightarrow> True | Some e \<Rightarrow> now > re_windowEnd e);
             l2 = (if fresh then ensureCapacity (order l1) l1 else l1);
             e = (case map_of (lm_entries l1) key of
                 Some e \<Rightarrow> if now > re_windowEnd e then \<lparr>re_failures = 0, re_windowEnd = now + lm_window l\<rparr> else e
               | None \<Rightarrow> \<lparr>re_failures = 0, re_windowEnd = now + lm_window l\<rparr>)
         in l2\<lparr>lm_entries := AList.update key (e\<lparr>re_failures := re_failures e + 1\<rparr>) (lm_entries l2)\<rparr>))"

definition Reset :: "string \<Rightarrow> limiter \<Rightarrow> limiter" where
  "Reset key l = (if key = [] then l else l\<lparr>lm_entries := AList.delete key (lm_entries l)\<rparr>)"

section \<open>The session table\<close>

record session =
  se_Username :: string
  se_CSRFHash :: string
  se_ExpiresAt :: time

record session_row = session +
  sr_tokenHash :: string
  sr_revokedAt :: "time option"

type_synonym session_table = "session_row list"

datatype auth_error = ErrSessionNotFound | DBError | BrokerError | RandomError

definition st_Create :: "bool \<Rightarrow> string \<Rightarrow> string \<Rightarrow> string \<Rightarrow> time \<Rightarrow> session_table
    \<Rightarrow> auth_error option \<times> session_table" where
  "st_Create dbOK tokenHash username csrfHash expiresAt rows =
     (if \<not> dbOK \<or> tokenHash \<in> sr_tokenHash ` set rows then (Some DBError, rows)
      else (None, \<lparr>se_Username = username, se_CSRFHash = csrfHash, se_ExpiresAt = expiresAt,
              sr_tokenHash = tokenHash, sr_revokedAt = None\<rparr> # rows))"

definition st_Find :: "bool \<Rightarrow> string \<Rightarrow> time \<Rightarrow> session_table \<Rightarrow> auth_error + session" where
  "st_Find dbOK tokenHash now rows =
     (if \<not> dbOK then Inl DBError
      else (case find (\<lambda>r. sr_tokenHash r = tokenHash \<and> sr_revokedAt r = None \<and> se_ExpiresAt r > now) rows of
          None \<Rightarrow> Inl ErrSessionNotFound
        | Some r \<Rightarrow> Inr (session.truncate r)))"

definition st_UpdateCSRF :: "bool \<Rightarrow> string \<Rightarrow> string \<Rightarrow> session_table \<Rightarrow> auth_error option \<times> session_table" where
  "st_UpdateCSRF dbOK tokenHash csrfHash rows =
     (if \<not> dbOK then (Some DBError, rows)
      else
        (let hit = (\<lambda>r. sr_tokenHash r = tokenHash \<and> sr_revokedAt r = None) in
         (if length (filter hit rows) \<noteq> 1 then Some ErrSessionNotFound else None,
          map (\<lambda>r. if hit r then r\<lparr>se_CSRFHash := csrfHash\<rparr> else r) rows)))"

definition st_Revoke :: "bool \<Rightarrow> time \<Rightarrow> string \<Rightarrow> session_table \<Rightarrow> auth_error option \<times> session_table" where
  "st_Revoke dbOK now tokenHash rows =
     (if \<not> dbOK then (Some DBError, rows)
      else (None, map (\<lambda>r. if sr_tokenHash r = tokenHash
          then r\<lparr>sr_revokedAt := (case sr_revokedAt r of Some t \<Rightarrow> Some t | None \<Rightarrow> Some now)\<rparr> else r) rows))"

definition st_DeleteExpired :: "bool \<Rightarrow> time \<Rightarrow> session_table \<Rightarrow> auth_error option \<times> session_table" where
  "st_DeleteExpired dbOK before rows =
     (if \<not> dbOK then (Some DBError, rows)
      else (None, filter (\<lambda>r. \<not> (se_ExpiresAt r \<le> before \<or>
          (case sr_revokedAt r of Some t \<Rightarrow> t \<le> before | None \<Rightarrow> False))) rows))"

section \<open>Broker checks\<close>

fun valid_utf8 :: "nat list \<Rightarrow> bool" where
  "valid_utf8 [] = True"
| "valid_utf8 (a # s) =
     (if a < 0x80 then valid_utf8 s
      else (case s of [] \<Rightarrow> False | b # s1 \<Rightarrow>
        if 0xC2 \<le> a \<and> a \<le> 0xDF then 0x80 \<le> b \<and> b \<le> 0xBF \<and> valid_utf8 s1
        else (case s1 of [] \<Rightarrow> False | c # s2 \<Rightarrow>
          if 0xE0 \<le> a \<and> a \<le> 0xEF
          then (if a = 0xE0 then 0xA0 else 0x80) \<le> b \<and> b \<le> (if a = 0xED then 0x9F else 0xBF)
             \<and> 0x80 \<le> c \<and> c \<le> 0xBF \<and> valid_utf8 s2
          else (case s2 of [] \<Rightarrow> False | d # s3 \<Rightarrow>
            0xF0 \<le> a \<and> a \<le> 0xF4
             \<and> (if a = 0xF0 then 0x90 else 0x80) \<le> b \<and> b \<le> (if a = 0xF4 then 0x8F else 0xBF)
             \<and> 0x80 \<le> c \<and> c \<le> 0xBF \<and> 0x80 \<le> d \<and> d \<le> 0xBF \<and> valid_utf8 s3))))"

definition ValidString :: "string \<Rightarrow> bool" where
  "ValidString s = valid_utf8 (map of_char s)"

text \<open>A control rune of valid text: C0, DEL, or C1, which is \<open>C2\<close> and a byte up to \<open>9F\<close>.\<close>

fun has_control :: "nat list \<Rightarrow> bool" where
  "has_control [] = False"
| "has_control (a # s) =
     (a < 0x20 \<or> a = 0x7F \<or> (a = 0xC2 \<and> (case s of [] \<Rightarrow> False | b # _ \<Rightarrow> b \<le> 0x9F)) \<or> has_control s)"

definition validateUsername :: "string \<Rightarrow> bool" where
  "validateUsername u \<longleftrightarrow> u \<noteq> [] \<and> length u \<le> 64 \<and> ValidString u \<and> trim_space u = u
     \<and> \<not> has_control (map of_char u)"

definition validatePassword :: "string \<Rightarrow> bool" where
  "validatePassword p \<longleftrightarrow> p \<noteq> [] \<and> length p \<le> 1024 \<and> ValidString p"

text \<open>What the host broker answers: \<open>None\<close> when the exchange fails or the answer does not decode.\<close>

record broker_response =
  br_OK :: bool
  br_Username :: string
  br_Error :: string

definition request :: "broker_response option \<Rightarrow> auth_error + broker_response" where
  "request answer = (case answer of
      None \<Rightarrow> Inl BrokerError
    | Some r \<Rightarrow> if br_OK r \<and> br_Error r \<noteq> [] then Inl BrokerError else Inr r)"

text \<open>\<open>Inr None\<close> is a refusal, \<open>Inr (Some name)\<close> the canonical name.\<close>

definition Authenticate :: "(string \<Rightarrow> string \<Rightarrow> broker_response option) \<Rightarrow> string \<Rightarrow> string
    \<Rightarrow> auth_error + string option" where
  "Authenticate host username password =
     (if \<not> validateUsername username then Inl BrokerError
      else if \<not> validatePassword password then Inl BrokerError
      else (case request (host username password) of
          Inl e \<Rightarrow> Inl e
        | Inr r \<Rightarrow>
            if \<not> br_OK r then Inr None
            else if \<not> validateUsername (br_Username r) then Inl BrokerError
            else if br_Username r \<noteq> username then Inl BrokerError
            else Inr (Some (br_Username r))))"

definition AccountStatus :: "(string \<Rightarrow> broker_response option) \<Rightarrow> string \<Rightarrow> auth_error + bool" where
  "AccountStatus host username =
     (if \<not> validateUsername username then Inl BrokerError
      else (case request (host username) of
          Inl e \<Rightarrow> Inl e
        | Inr r \<Rightarrow>
            if \<not> br_OK r then Inr False
            else if br_Username r \<noteq> username then Inl BrokerError
            else Inr True))"

section \<open>The session manager\<close>

text \<open>The statements on the session table.  A request issues each of them at most once, and each can fail on its own.\<close>

datatype db_call = DbCreate | DbFind | DbUpdateCSRF | DbRevoke | DbDeleteExpired

text \<open>The world an operation runs in: the clock, the hash, the broker and which statements the database executes.\<close>

record world =
  wo_now :: time
  wo_hash :: "string \<Rightarrow> string"
  wo_login :: "string \<Rightarrow> string \<Rightarrow> broker_response option"
  wo_status :: "string \<Rightarrow> broker_response option"
  wo_tokens :: "string option \<times> string option"
  wo_dbOK :: "db_call \<Rightarrow> bool"
  wo_order :: "limiter \<Rightarrow> string list"

definition base64url :: "char \<Rightarrow> bool" where
  "base64url c \<longleftrightarrow> is_alpha c \<or> is_digit c \<or> c = CHR ''-'' \<or> c = CHR ''_''"

definition validatedTokenHash :: "world \<Rightarrow> string \<Rightarrow> string option" where
  "validatedTokenHash w token =
     (if length token \<noteq> 43 then None
      else if \<not> list_all base64url token then None
      else Some (wo_hash w token))"

definition csrfMatches :: "world \<Rightarrow> string \<Rightarrow> string \<Rightarrow> bool" where
  "csrfMatches w raw expectedHash =
     (if validatedTokenHash w raw = None \<or> length expectedHash \<noteq> 32 then False
      else wo_hash w raw = expectedHash)"

record created =
  cr_token :: string
  cr_csrf :: string
  cr_session :: session

text \<open>\<open>Inr None\<close>: the credentials are refused.  The expired rows go last and their error is dropped.\<close>

definition Create :: "duration \<Rightarrow> world \<Rightarrow> string \<Rightarrow> string \<Rightarrow> session_table
    \<Rightarrow> (auth_error + created option) \<times> session_table" where
  "Create ttl w username password rows =
     (case Authenticate (wo_login w) username password of
        Inl e \<Rightarrow> (Inl e, rows)
      | Inr None \<Rightarrow> (Inr None, rows)
      | Inr (Some canonical) \<Rightarrow>
          (case wo_tokens w of
             (Some token, Some csrf) \<Rightarrow>
               (let s = \<lparr>se_Username = canonical, se_CSRFHash = wo_hash w csrf, se_ExpiresAt = wo_now w + ttl\<rparr> in
                case st_Create (wo_dbOK w DbCreate) (wo_hash w token) canonical (se_CSRFHash s) (se_ExpiresAt s) rows of
                  (Some e, rows') \<Rightarrow> (Inl e, rows')
                | (None, rows') \<Rightarrow>
                    (Inr (Some \<lparr>cr_token = token, cr_csrf = csrf, cr_session = s\<rparr>),
                     snd (st_DeleteExpired (wo_dbOK w DbDeleteExpired) (wo_now w - 24 * 3600 * 1000000000) rows')))
           | _ \<Rightarrow> (Inl RandomError, rows)))"

definition Validate :: "world \<Rightarrow> string \<Rightarrow> session_table \<Rightarrow> (auth_error + session) \<times> session_table" where
  "Validate w token rows =
     (case validatedTokenHash w token of
        None \<Rightarrow> (Inl ErrSessionNotFound, rows)
      | Some h \<Rightarrow>
          (case st_Find (wo_dbOK w DbFind) h (wo_now w) rows of
             Inl e \<Rightarrow> (Inl e, rows)
           | Inr s \<Rightarrow>
               (case AccountStatus (wo_status w) (se_Username s) of
                  Inl e \<Rightarrow> (Inl e, rows)
                | Inr active \<Rightarrow>
                    if \<not> active then (Inl ErrSessionNotFound, snd (st_Revoke (wo_dbOK w DbRevoke) (wo_now w) h rows))
                    else (Inr s, rows))))"

definition RotateCSRF :: "world \<Rightarrow> string \<Rightarrow> session_table \<Rightarrow> (auth_error + string) \<times> session_table" where
  "RotateCSRF w token rows =
     (case validatedTokenHash w token of
        None \<Rightarrow> (Inl ErrSessionNotFound, rows)
      | Some h \<Rightarrow>
          (case snd (wo_tokens w) of
             None \<Rightarrow> (Inl RandomError, rows)
           | Some csrf \<Rightarrow>
               (case st_UpdateCSRF (wo_dbOK w DbUpdateCSRF) h (wo_hash w csrf) rows of
                  (Some e, rows') \<Rightarrow> (Inl e, rows')
                | (None, rows') \<Rightarrow> (Inr csrf, rows'))))"

definition Revoke :: "world \<Rightarrow> string \<Rightarrow> session_table \<Rightarrow> auth_error option \<times> session_table" where
  "Revoke w token rows =
     (case validatedTokenHash w token of
        None \<Rightarrow> (None, rows)
      | Some h \<Rightarrow> st_Revoke (wo_dbOK w DbRevoke) (wo_now w) h rows)"

section \<open>Handlers and middlewares\<close>

record http_request =
  rq_Method :: string
  rq_Path :: string
  rq_Cookie :: "string option"
  rq_CSRF :: string
  rq_Forwarded :: string
  rq_RemoteAddr :: string
  rq_Login :: "(string \<times> string) option"

datatype cookie = NoCookie | SetCookie string | ClearCookie

record http_response =
  rs_Status :: nat
  rs_Code :: string
  rs_User :: string
  rs_CSRFToken :: string
  rs_Cookie :: cookie

definition auth_err :: "nat \<Rightarrow> string \<Rightarrow> http_response" where
  "auth_err status code = \<lparr>rs_Status = status, rs_Code = code, rs_User = [], rs_CSRFToken = [], rs_Cookie = NoCookie\<rparr>"

definition sessionTokenFromRequest :: "http_request \<Rightarrow> string" where
  "sessionTokenFromRequest r = (case rq_Cookie r of None \<Rightarrow> [] | Some v \<Rightarrow> trim_space v)"

definition loginRateKey :: "string \<Rightarrow> string \<Rightarrow> string" where
  "loginRateKey ip username = to_lower (trim_space ip) @ ''|'' @ to_lower (trim_space username)"

text \<open>\<open>host[:idx]\<close> for the last colon, when it is not the first character.\<close>

definition before_last_colon :: "string \<Rightarrow> string" where
  "before_last_colon host =
     (let r = dropWhile (\<lambda>c. c \<noteq> CHR '':'') (rev host) in if length r > 1 then rev (tl r) else host)"

definition clientIP :: "http_request \<Rightarrow> string" where
  "clientIP r =
     (let forwarded = trim_space (rq_Forwarded r) in
      if forwarded \<noteq> [] then trim_space (hd (split_on (CHR '','') forwarded))
      else before_last_colon (trim_space (rq_RemoteAddr r)))"

definition ValidateCSRFForSession :: "world \<Rightarrow> http_request \<Rightarrow> session \<Rightarrow> bool" where
  "ValidateCSRFForSession w r s = csrfMatches w (trim_space (rq_CSRF r)) (se_CSRFHash s)"

definition handleLogin :: "duration \<Rightarrow> world \<Rightarrow> http_request \<Rightarrow> limiter \<times> session_table
    \<Rightarrow> http_response \<times> limiter \<times> session_table" where
  "handleLogin ttl w r st =
     (case rq_Login r of
        None \<Rightarrow> (auth_err 400 ''VALIDATION_ERROR'', st)
      | Some (username, password) \<Rightarrow>
          (let key = loginRateKey (clientIP r) username in
           case Allow (wo_now w) key (fst st) of
             (False, l1) \<Rightarrow> (auth_err 429 ''RATE_LIMITED'', l1, snd st)
           | (True, l1) \<Rightarrow>
               (case Create ttl w username password (snd st) of
                  (Inl e, rows) \<Rightarrow> (auth_err 503 ''AUTH_UNAVAILABLE'', l1, rows)
                | (Inr None, rows) \<Rightarrow>
                    (auth_err 401 ''UNAUTHORIZED'', RecordFailure (wo_order w) (wo_now w) key l1, rows)
                | (Inr (Some c), rows) \<Rightarrow>
                    (\<lparr>rs_Status = 200, rs_Code = [], rs_User = se_Username (cr_session c), rs_CSRFToken = cr_csrf c,
                      rs_Cookie = SetCookie (cr_token c)\<rparr>, Reset key l1, rows))))"

definition handleLogout :: "world \<Rightarrow> http_request \<Rightarrow> session_table \<Rightarrow> http_response \<times> session_table" where
  "handleLogout w r rows =
     (let token = sessionTokenFromRequest r in
      if token = [] then (auth_err 401 ''UNAUTHORIZED'', rows)
      else (case Validate w token rows of
          (Inl e, rows') \<Rightarrow> ((auth_err 401 ''UNAUTHORIZED'')\<lparr>rs_Cookie := ClearCookie\<rparr>, rows')
        | (Inr s, rows') \<Rightarrow>
            if \<not> ValidateCSRFForSession w r s then (auth_err 403 ''FORBIDDEN'', rows')
            else ((auth_err 204 [])\<lparr>rs_Cookie := ClearCookie\<rparr>, snd (Revoke w token rows'))))"

definition handleMe :: "world \<Rightarrow> http_request \<Rightarrow> session_table \<Rightarrow> http_response \<times> session_table" where
  "handleMe w r rows =
     (let token = sessionTokenFromRequest r in
      if token = [] then (auth_err 401 ''UNAUTHORIZED'', rows)
      else (case Validate w token rows of
          (Inl e, rows') \<Rightarrow> ((auth_err 401 ''UNAUTHORIZED'')\<lparr>rs_Cookie := ClearCookie\<rparr>, rows')
        | (Inr s, rows') \<Rightarrow>
            (case RotateCSRF w token rows' of
               (Inl e, rows'') \<Rightarrow> (auth_err 401 ''UNAUTHORIZED'', rows'')
             | (Inr csrf, rows'') \<Rightarrow>
                 (\<lparr>rs_Status = 200, rs_Code = [], rs_User = se_Username s, rs_CSRFToken = csrf, rs_Cookie = NoCookie\<rparr>, rows''))))"

text \<open>
  The middlewares hand the request on, with the session in its context, or answer it.
\<close>

datatype gate = Next "session option" | Stop http_response

definition RequireApplianceSession :: "world \<Rightarrow> http_request \<Rightarrow> session_table \<Rightarrow> gate \<times> session_table" where
  "RequireApplianceSession w r rows =
     (if rq_Method r = ''OPTIONS'' then (Next None, rows)
      else
        (let token = sessionTokenFromRequest r in
         if token = [] then (Stop (auth_err 401 ''UNAUTHORIZED''), rows)
         else (case Validate w token rows of
             (Inl e, rows') \<Rightarrow> (Stop (auth_err 401 ''UNAUTHORIZED''), rows')
           | (Inr s, rows') \<Rightarrow> (Next (Some s), rows'))))"

definition isSafeMethod :: "string \<Rightarrow> bool" where
  "isSafeMethod m \<longleftrightarrow> m = ''GET'' \<or> m = ''HEAD''"

definition RequireApplianceCSRF :: "world \<Rightarrow> http_request \<Rightarrow> session option \<Rightarrow> gate" where
  "RequireApplianceCSRF w r ctx =
     (if rq_Method r = ''OPTIONS'' \<or> isSafeMethod (rq_Method r) then Next ctx
      else if prefix ''/auth/login'' (rq_Path r) then Next ctx
      else (case ctx of
          None \<Rightarrow> Stop (auth_err 401 ''UNAUTHORIZED'')
        | Some s \<Rightarrow>
            if \<not> ValidateCSRFForSession w r s then Stop (auth_err 403 ''FORBIDDEN'')
            else Next ctx))"

text \<open>The protected API of \<open>cmd/api/main.go\<close>: the session first, then the CSRF token.\<close>

definition protected_api :: "world \<Rightarrow> http_request \<Rightarrow> session_table \<Rightarrow> gate \<times> session_table" where
  "protected_api w r rows =
     (case RequireApplianceSession w r rows of
        (Stop resp, rows') \<Rightarrow> (Stop resp, rows')
      | (Next ctx, rows') \<Rightarrow> (RequireApplianceCSRF w r ctx, rows'))"

definition bearerToken :: "string \<Rightarrow> string" where
  "bearerToken header =
     (let h = trim_space header in
      if h = [] then []
      else if length h < 7 \<or> \<not> EqualFold (take 7 h) ''Bearer '' then []
      else trim_space (drop 7 h))"

end
