(* ===== verification/AuthProps.thy ===== *)
theory AuthProps
  imports Auth
begin

text \<open>
  The properties of the appliance authentication: the rate limiter stays bounded and locks a key out,
  a session opened by a login is valid until it expires, a session that was logged out stays dead,
  and the protected API is reached only with an active session and its CSRF token.
\<close>

section \<open>The contract of a session store\<close>

datatype session_op = PutSession string session | SetCSRF string string | EndSession time string | Expire time

locale session_contract =
  fixes lookup :: "string \<Rightarrow> time \<Rightarrow> 's \<Rightarrow> session option"
    and put :: "string \<Rightarrow> session \<Rightarrow> 's \<Rightarrow> 's"
    and set_csrf :: "string \<Rightarrow> string \<Rightarrow> 's \<Rightarrow> 's"
    and end_session :: "time \<Rightarrow> string \<Rightarrow> 's \<Rightarrow> 's"
    and expire :: "time \<Rightarrow> 's \<Rightarrow> 's"
  assumes lookup_put_other: "h \<noteq> h' \<Longrightarrow> lookup h now (put h' s st) = lookup h now st"
    and lookup_csrf: "lookup h now (set_csrf h' c st) = None \<longleftrightarrow> lookup h now st = None"
    and lookup_ended: "lookup h now (end_session t h st) = None"
    and lookup_end_other: "h \<noteq> h' \<Longrightarrow> lookup h now (end_session t h' st) = lookup h now st"
    and lookup_expire: "lookup h now st = None \<Longrightarrow> lookup h now (expire t st) = None"
begin

definition step_session :: "session_op \<Rightarrow> 's \<Rightarrow> 's" where
  "step_session oper st = (case oper of
      PutSession h s \<Rightarrow> put h s st | SetCSRF h c \<Rightarrow> set_csrf h c st
    | EndSession t h \<Rightarrow> end_session t h st | Expire t \<Rightarrow> expire t st)"

definition dead :: "string \<Rightarrow> 's \<Rightarrow> bool" where
  "dead h st \<longleftrightarrow> (\<forall>now. lookup h now st = None)"

lemma dead_step: "dead h st \<Longrightarrow> (\<And>s. oper \<noteq> PutSession h s) \<Longrightarrow> dead h (step_session oper st)"
proof (cases oper)
  case (EndSession t h')
  assume "dead h st"
  with EndSession show ?thesis
    by (cases "h = h'") (simp_all add: dead_def step_session_def lookup_ended lookup_end_other)
next
  case (PutSession h' s)
  assume "dead h st" and "\<And>s. oper \<noteq> PutSession h s"
  then have "h \<noteq> h'" using PutSession by blast
  with PutSession \<open>dead h st\<close> show ?thesis by (simp add: dead_def step_session_def lookup_put_other)
qed (simp_all add: dead_def step_session_def lookup_csrf lookup_expire)

lemma dead_steps:
  "dead h st \<Longrightarrow> (\<And>s. PutSession h s \<notin> set opers) \<Longrightarrow> dead h (fold step_session opers st)"
proof (induction opers arbitrary: st)
  case (Cons oper opers)
  have "dead h (step_session oper st)" by (rule dead_step [OF Cons.prems(1)]) (use Cons.prems(2) in auto)
  with Cons show ?case by auto
qed simp

lemma ended_dead: "dead h (end_session t h st)"
  by (simp add: dead_def lookup_ended)

end

definition table_lookup :: "string \<Rightarrow> time \<Rightarrow> session_table \<Rightarrow> session option" where
  "table_lookup h now rows = (case st_Find True h now rows of Inl e \<Rightarrow> None | Inr s \<Rightarrow> Some s)"

definition table_put :: "string \<Rightarrow> session \<Rightarrow> session_table \<Rightarrow> session_table" where
  "table_put h s rows = snd (st_Create True h (se_Username s) (se_CSRFHash s) (se_ExpiresAt s) rows)"

lemma table_lookup_None:
  "table_lookup h now rows = None \<longleftrightarrow>
     (\<forall>r \<in> set rows. sr_tokenHash r = h \<longrightarrow> sr_revokedAt r \<noteq> None \<or> se_ExpiresAt r \<le> now)"
proof -
  have "table_lookup h now rows = None \<longleftrightarrow>
      find (\<lambda>r. sr_tokenHash r = h \<and> sr_revokedAt r = None \<and> se_ExpiresAt r > now) rows = None"
    by (simp add: table_lookup_def st_Find_def split: option.splits)
  then show ?thesis by (auto simp: find_None_iff not_less)
qed

interpretation pg: session_contract table_lookup table_put
    "\<lambda>h c rows. snd (st_UpdateCSRF True h c rows)" "\<lambda>t h rows. snd (st_Revoke True t h rows)"
    "\<lambda>t rows. snd (st_DeleteExpired True t rows)"
proof unfold_locales
  fix h h' :: string and now t :: time and s :: session and c :: string and st :: session_table
  show "h \<noteq> h' \<Longrightarrow> table_lookup h now (table_put h' s st) = table_lookup h now st"
    by (simp add: table_lookup_def table_put_def st_Create_def st_Find_def)
  show "table_lookup h now (snd (st_UpdateCSRF True h' c st)) = None \<longleftrightarrow> table_lookup h now st = None"
  proof -
    let ?f = "\<lambda>r. if sr_tokenHash r = h' \<and> sr_revokedAt r = None then r\<lparr>se_CSRFHash := c\<rparr> else r"
    let ?Q = "\<lambda>r. sr_tokenHash r = h \<longrightarrow> sr_revokedAt r \<noteq> None \<or> se_ExpiresAt r \<le> now"
    have same: "?Q (?f r) = ?Q r" for r by simp
    have "snd (st_UpdateCSRF True h' c st) = map ?f st" by (simp add: st_UpdateCSRF_def Let_def)
    moreover have "(\<forall>r \<in> set (map ?f st). ?Q r) = (\<forall>r \<in> set st. ?Q (?f r))" by (simp only: list_all_iff [symmetric] list.pred_map comp_def)
    ultimately show ?thesis unfolding table_lookup_None by (simp only: same)
  qed
  show "table_lookup h now (snd (st_Revoke True t h st)) = None"
  proof -
    have "list_all (\<lambda>r. sr_tokenHash r = h \<longrightarrow> sr_revokedAt r \<noteq> None \<or> se_ExpiresAt r \<le> now)
        (snd (st_Revoke True t h st))"
      by (induction st) (auto simp: st_Revoke_def split: option.splits)
    then show ?thesis unfolding table_lookup_None by (simp only: list_all_iff)
  qed
  show "table_lookup h now (snd (st_Revoke True t h' st)) = table_lookup h now st" if "h \<noteq> h'"
  proof -
    have "find (\<lambda>r. sr_tokenHash r = h \<and> sr_revokedAt r = None \<and> se_ExpiresAt r > now)
        (map (\<lambda>r. if sr_tokenHash r = h' then r\<lparr>sr_revokedAt := (case sr_revokedAt r of Some t \<Rightarrow> Some t | None \<Rightarrow> Some t)\<rparr> else r) st) =
      find (\<lambda>r. sr_tokenHash r = h \<and> sr_revokedAt r = None \<and> se_ExpiresAt r > now) st"
      using that by (induction st) auto
    then show ?thesis by (simp add: table_lookup_def st_Find_def st_Revoke_def)
  qed
  show "table_lookup h now st = None \<Longrightarrow> table_lookup h now (snd (st_DeleteExpired True t st)) = None"
    by (auto simp: table_lookup_None st_DeleteExpired_def)
qed

section \<open>The operations of the manager as steps of the store\<close>

datatype auth_op = DoCreate duration world string string | DoValidate world string | DoRotate world string
  | DoRevoke world string

definition run_auth :: "auth_op \<Rightarrow> session_table \<Rightarrow> session_table" where
  "run_auth oper rows = (case oper of
      DoCreate ttl w u p \<Rightarrow> snd (Create ttl w u p rows)
    | DoValidate w token \<Rightarrow> snd (Validate w token rows)
    | DoRotate w token \<Rightarrow> snd (RotateCSRF w token rows)
    | DoRevoke w token \<Rightarrow> snd (Revoke w token rows))"

text \<open>The operation does not draw a token with this hash.\<close>

definition avoids :: "string \<Rightarrow> auth_op \<Rightarrow> bool" where
  "avoids h oper = (case oper of
      DoCreate ttl w u p \<Rightarrow> (case fst (wo_tokens w) of None \<Rightarrow> True | Some t \<Rightarrow> wo_hash w t \<noteq> h)
    | _ \<Rightarrow> True)"

lemma dead_create: "pg.dead h rows \<Longrightarrow> h' \<noteq> h \<Longrightarrow> pg.dead h (snd (st_Create ok h' u c e rows))"
  using pg.dead_step [of h rows "PutSession h' \<lparr>se_Username = u, se_CSRFHash = c, se_ExpiresAt = e\<rparr>"]
  by (cases ok) (auto simp: pg.step_session_def table_put_def st_Create_def)

lemma dead_csrf: "pg.dead h rows \<Longrightarrow> pg.dead h (snd (st_UpdateCSRF ok h' c rows))"
  using pg.dead_step [of h rows "SetCSRF h' c"]
  by (cases ok; simp add: pg.step_session_def; simp add: st_UpdateCSRF_def)

lemma dead_revoke: "pg.dead h rows \<Longrightarrow> pg.dead h (snd (st_Revoke ok t h' rows))"
  using pg.dead_step [of h rows "EndSession t h'"]
  by (cases ok; simp add: pg.step_session_def; simp add: st_Revoke_def)

lemma dead_expire: "pg.dead h rows \<Longrightarrow> pg.dead h (snd (st_DeleteExpired ok t rows))"
  using pg.dead_step [of h rows "Expire t"]
  by (cases ok; simp add: pg.step_session_def; simp add: st_DeleteExpired_def)

lemma dead_run_create:
  assumes d: "pg.dead h rows" and av: "avoids h (DoCreate ttl w u p)"
  shows "pg.dead h (snd (Create ttl w u p rows))"
proof (cases "\<exists>canonical token csrf. Authenticate (wo_login w) u p = Inr (Some canonical) \<and> wo_tokens w = (Some token, Some csrf)")
  case True
  then obtain canonical token csrf where c: "Authenticate (wo_login w) u p = Inr (Some canonical)"
    "wo_tokens w = (Some token, Some csrf)" by blast
  then have ne: "wo_hash w token \<noteq> h" using av by (simp add: avoids_def)
  obtain err rows' where st: "st_Create (wo_dbOK w DbCreate) (wo_hash w token) canonical (wo_hash w csrf) (wo_now w + ttl) rows = (err, rows')"
    by fastforce
  with dead_create [OF d ne, of "wo_dbOK w DbCreate" canonical "wo_hash w csrf" "wo_now w + ttl"]
  have "pg.dead h rows'" by simp
  with c st dead_expire show ?thesis by (cases err) (auto simp: Create_def Let_def)
next
  case False
  with d show ?thesis
    by (auto simp: Create_def split: sum.splits option.splits prod.splits)
qed

lemma dead_run: "pg.dead h rows \<Longrightarrow> avoids h oper \<Longrightarrow> pg.dead h (run_auth oper rows)"
proof (cases oper)
  case (DoCreate ttl w u p)
  assume "pg.dead h rows" "avoids h oper"
  with DoCreate dead_run_create show ?thesis by (simp add: run_auth_def)
next
  case (DoValidate w token)
  assume "pg.dead h rows"
  with DoValidate show ?thesis
    by (auto simp: run_auth_def Validate_def dead_revoke split: option.splits sum.splits)
next
  case (DoRotate w token)
  assume d: "pg.dead h rows"
  have "pg.dead h (snd (RotateCSRF w token rows))"
  proof (cases "validatedTokenHash w token")
    case (Some k)
    show ?thesis
    proof (cases "snd (wo_tokens w)")
      case (Some csrf)
      with dead_csrf [OF d, of "wo_dbOK w DbUpdateCSRF" k "wo_hash w csrf"] \<open>validatedTokenHash w token = Some k\<close>
      show ?thesis by (auto simp: RotateCSRF_def split: prod.splits option.splits)
    qed (use d Some in \<open>simp add: RotateCSRF_def\<close>)
  qed (use d in \<open>simp add: RotateCSRF_def\<close>)
  with DoRotate show ?thesis by (simp add: run_auth_def)
next
  case (DoRevoke w token)
  assume "pg.dead h rows"
  with DoRevoke show ?thesis by (auto simp: run_auth_def Revoke_def dead_revoke split: option.splits)
qed

lemma dead_runs: "pg.dead h rows \<Longrightarrow> list_all (avoids h) opers \<Longrightarrow> pg.dead h (fold run_auth opers rows)"
  by (induction opers arbitrary: rows) (auto intro: dead_run)

lemma Validate_dead:
  assumes "pg.dead (wo_hash w token) rows"
  shows "\<exists>e. fst (Validate w token rows) = Inl e"
proof -
  have "st_Find ok (wo_hash w token) (wo_now w) rows \<noteq> Inr s" for ok s
    using assms by (cases ok) (auto simp: pg.dead_def table_lookup_def st_Find_def split: option.splits sum.splits)
  then show ?thesis
    by (auto simp: Validate_def validatedTokenHash_def split: option.splits sum.splits)
qed

section \<open>Sessions\<close>

lemma handleLogout_204:
  assumes "handleLogout w r rows = (resp, rows')" "rs_Status resp = 204" "wo_dbOK w DbRevoke"
  shows "pg.dead (wo_hash w (sessionTokenFromRequest r)) rows'"
proof -
  let ?token = "sessionTokenFromRequest r"
  obtain v rows1 where v: "Validate w ?token rows = (v, rows1)" by fastforce
  have rows': "rows' = snd (Revoke w ?token rows1)" and "\<exists>s. v = Inr s"
    using assms v by (auto simp: handleLogout_def Let_def auth_err_def split: if_splits sum.splits)
  then have "validatedTokenHash w ?token = Some (wo_hash w ?token)"
    using v by (auto simp: Validate_def validatedTokenHash_def split: option.splits if_splits)
  with rows' assms(3) pg.ended_dead show ?thesis by (simp add: Revoke_def)
qed

text \<open>C21: after a logout that answers 204 and whose statement the database executed, the session token is rejected,
  whatever the manager does afterwards, unless a later login draws a token with the same hash.  When the statement
  failed, the answer is 204 all the same, no row has changed and the token is still valid.\<close>

theorem logout_is_final:
  assumes "handleLogout w r rows = (resp, rows')" and "rs_Status resp = 204"
  shows "if wo_dbOK w DbRevoke
    then \<forall>opers w'. list_all (avoids (wo_hash w (sessionTokenFromRequest r))) opers \<longrightarrow> wo_hash w' = wo_hash w
      \<longrightarrow> (\<exists>e. fst (Validate w' (sessionTokenFromRequest r) (fold run_auth opers rows')) = Inl e)
    else rows' = rows \<and> (\<exists>s. fst (Validate w (sessionTokenFromRequest r) rows') = Inr s)"
proof (cases "wo_dbOK w DbRevoke")
  case True
  have "\<exists>e. fst (Validate w' (sessionTokenFromRequest r) (fold run_auth opers rows')) = Inl e"
    if "list_all (avoids (wo_hash w (sessionTokenFromRequest r))) opers" "wo_hash w' = wo_hash w" for opers w'
    by (rule Validate_dead) (use dead_runs [OF handleLogout_204 [OF assms True] that(1)] that(2) in simp)
  then show ?thesis using True by simp
next
  case False
  let ?token = "sessionTokenFromRequest r"
  obtain v rows1 where v: "Validate w ?token rows = (v, rows1)" by fastforce
  have rows': "rows' = snd (Revoke w ?token rows1)" and "\<exists>s. v = Inr s"
    using assms v by (auto simp: handleLogout_def Let_def auth_err_def split: if_splits sum.splits)
  then obtain s where s: "v = Inr s" by blast
  then have "rows1 = rows" using v by (auto simp: Validate_def split: option.splits sum.splits if_splits)
  then have same: "rows' = rows" using rows' False by (simp add: Revoke_def st_Revoke_def split: option.splits)
  then show ?thesis using False v s by simp
qed

definition sample_token :: "nat \<Rightarrow> string" where
  "sample_token n = replicate 42 (CHR ''A'') @ [if n = 0 then CHR ''B'' else CHR ''C'']"

text \<open>A hash for the samples: 32 bytes, injective on the sample tokens.\<close>

definition sample_hash :: "string \<Rightarrow> string" where
  "sample_hash s = replicate 31 (CHR ''h'') @ [last (CHR ''x'' # s)]"

definition sample_world :: world where
  "sample_world = \<lparr>wo_now = 100, wo_hash = sample_hash,
     wo_login = (\<lambda>u p. Some \<lparr>br_OK = (p = ''secret''), br_Username = u, br_Error = []\<rparr>),
     wo_status = (\<lambda>u. Some \<lparr>br_OK = True, br_Username = u, br_Error = []\<rparr>),
     wo_tokens = (Some (sample_token 0), Some (sample_token 1)), wo_dbOK = (\<lambda>_. True),
     wo_order = (\<lambda>l. map fst (lm_entries l))\<rparr>"

definition sample_limiter :: limiter where
  "sample_limiter = NewLoginRateLimiter 2 1000 8"

definition login_request :: "string \<Rightarrow> string \<Rightarrow> http_request" where
  "login_request forwarded password = \<lparr>rq_Method = ''POST'', rq_Path = ''/auth/login'', rq_Cookie = None, rq_CSRF = [],
     rq_Forwarded = forwarded, rq_RemoteAddr = ''10.0.0.9:4000'', rq_Login = Some (''operator'', password)\<rparr>"

definition session_request :: "string \<Rightarrow> http_request" where
  "session_request method = \<lparr>rq_Method = method, rq_Path = ''/api/devices'', rq_Cookie = Some (sample_token 0),
     rq_CSRF = sample_token 1, rq_Forwarded = [], rq_RemoteAddr = ''10.0.0.9:4000'', rq_Login = None\<rparr>"

definition sample_login :: "http_response \<times> limiter \<times> session_table" where
  "sample_login = handleLogin 3600 sample_world (login_request [] ''secret'') (sample_limiter, [])"

definition sample_rows :: session_table where
  "sample_rows = snd (snd sample_login)"

lemma logout_is_final_witness:
  "\<exists>e. fst (Validate sample_world (sample_token 0)
      (snd (handleLogout sample_world (session_request ''POST'') sample_rows))) = Inl e"
proof -
  have st: "rs_Status (fst (handleLogout sample_world (session_request ''POST'') sample_rows)) = 204" by code_simp
  have tok: "sessionTokenFromRequest (session_request ''POST'') = sample_token 0" by code_simp
  have ok: "wo_dbOK sample_world DbRevoke" by (simp add: sample_world_def)
  have "\<forall>opers w'. list_all (avoids (wo_hash sample_world (sample_token 0))) opers \<longrightarrow> wo_hash w' = wo_hash sample_world
      \<longrightarrow> (\<exists>e. fst (Validate w' (sample_token 0) (fold run_auth opers
            (snd (handleLogout sample_world (session_request ''POST'') sample_rows)))) = Inl e)"
    using logout_is_final [OF prod.collapse [symmetric] st] ok unfolding tok by presburger
  from this [rule_format, of "[]" sample_world] show ?thesis by simp
qed

lemma find_cong_first: "find P (x # xs) = Some x" if "P x"
  using that by simp




section \<open>The protected API\<close>

lemma gated:
  assumes "protected_api w r rows = (Next ctx, rows')" and "rq_Method r \<noteq> ''OPTIONS''"
  shows "\<exists>s row. ctx = Some s \<and> row \<in> set rows \<and> sr_tokenHash row = wo_hash w (sessionTokenFromRequest r)
    \<and> sr_revokedAt row = None \<and> wo_now w < se_ExpiresAt row \<and> s = session.truncate row
    \<and> AccountStatus (wo_status w) (se_Username s) = Inr True \<and> rows' = rows
    \<and> (rq_Method r \<notin> {''GET'', ''HEAD''} \<and> \<not> prefix ''/auth/login'' (rq_Path r) \<longrightarrow>
         wo_hash w (trim_space (rq_CSRF r)) = se_CSRFHash s)"
proof -
  let ?token = "sessionTokenFromRequest r"
  have gate: "RequireApplianceSession w r rows = (Next ctx, rows')"
    and csrf: "RequireApplianceCSRF w r ctx = Next ctx"
    using assms(1) by (auto simp: protected_api_def RequireApplianceCSRF_def split: prod.splits gate.splits if_splits option.splits)
  then obtain s where s: "ctx = Some s" "Validate w ?token rows = (Inr s, rows')"
    using assms(2) by (auto simp: RequireApplianceSession_def Let_def split: if_splits prod.splits sum.splits)
  then have f: "st_Find (wo_dbOK w DbFind) (wo_hash w ?token) (wo_now w) rows = Inr s"
    and a: "AccountStatus (wo_status w) (se_Username s) = Inr True" and same: "rows' = rows"
    by (auto simp: Validate_def validatedTokenHash_def split: option.splits sum.splits if_splits)
  obtain row where row: "find (\<lambda>r. sr_tokenHash r = wo_hash w ?token \<and> sr_revokedAt r = None \<and> se_ExpiresAt r > wo_now w) rows = Some row"
    "s = session.truncate row"
    using f by (auto simp: st_Find_def split: if_splits option.splits)
  then have "row \<in> set rows" "sr_tokenHash row = wo_hash w ?token" "sr_revokedAt row = None" "wo_now w < se_ExpiresAt row"
    by (auto simp: find_Some_iff)
  moreover have "wo_hash w (trim_space (rq_CSRF r)) = se_CSRFHash s"
    if "rq_Method r \<notin> {''GET'', ''HEAD''} \<and> \<not> prefix ''/auth/login'' (rq_Path r)"
    using csrf that assms(2) s(1)
    by (auto simp: RequireApplianceCSRF_def isSafeMethod_def ValidateCSRFForSession_def csrfMatches_def split: if_splits)
  ultimately show ?thesis using s(1) a same row(2) by blast
qed

text \<open>C20: a request gets through to the protected API in two cases.  A preflight (\<open>OPTIONS\<close>) passes without a session.
  Any other request passes only with the cookie of
  a session that is in the table, not revoked and not expired, and whose account the broker confirms;
  and, when its method is not GET or HEAD and its path is not under the login, with the token whose
  hash the session holds.\<close>

theorem protected_api_guarded:
  assumes "protected_api w r rows = (Next ctx, rows')"
  shows "if rq_Method r = ''OPTIONS'' then ctx = None \<and> rows' = rows
    else \<exists>s row. ctx = Some s \<and> row \<in> set rows \<and> sr_tokenHash row = wo_hash w (sessionTokenFromRequest r)
    \<and> sr_revokedAt row = None \<and> wo_now w < se_ExpiresAt row \<and> s = session.truncate row
    \<and> AccountStatus (wo_status w) (se_Username s) = Inr True \<and> rows' = rows
    \<and> (rq_Method r \<notin> {''GET'', ''HEAD''} \<and> \<not> prefix ''/auth/login'' (rq_Path r) \<longrightarrow>
         wo_hash w (trim_space (rq_CSRF r)) = se_CSRFHash s)"
proof (cases "rq_Method r = ''OPTIONS''")
  case True
  then show ?thesis using assms by (simp add: protected_api_def RequireApplianceSession_def RequireApplianceCSRF_def)
next
  case False
  then show ?thesis using gated [OF assms] by simp
qed

lemma protected_api_guarded_witness:
  "\<exists>s. protected_api sample_world (session_request ''POST'') sample_rows = (Next (Some s), sample_rows)
     \<and> wo_hash sample_world (trim_space (sample_token 1)) = se_CSRFHash s"
proof -
  have "(case protected_api sample_world (session_request ''POST'') sample_rows of (Next c, _) \<Rightarrow> True | _ \<Rightarrow> False)"
    by code_simp
  then obtain ctx rows' where run: "protected_api sample_world (session_request ''POST'') sample_rows = (Next ctx, rows')"
    by (auto split: prod.splits gate.splits)
  have m: "rq_Method (session_request ''POST'') \<noteq> ''OPTIONS''" by (simp add: session_request_def)
  from protected_api_guarded [OF run] m run show ?thesis by (auto simp: session_request_def)
qed

section \<open>The rate limiter\<close>

definition limiter_ok :: "limiter \<Rightarrow> bool" where
  "limiter_ok l \<longleftrightarrow> distinct (map fst (lm_entries l)) \<and> 0 < lm_maxEntries l \<and> 0 < lm_limit l
     \<and> [] \<notin> set (map fst (lm_entries l)) \<and> int (length (lm_entries l)) \<le> lm_maxEntries l"

definition order_ok :: "(limiter \<Rightarrow> string list) \<Rightarrow> bool" where
  "order_ok order \<longleftrightarrow> (\<forall>l. set (order l) = set (map fst (lm_entries l)))"

lemma oldest_in:
  "oldest m ks best = Some (k, t) \<Longrightarrow> (k \<in> set ks \<and> map_of m k \<noteq> None) \<or> best = Some (k, t)"
proof (induction m ks best rule: oldest.induct)
  case (2 m k' ks best)
  then show ?case by (auto split: option.splits prod.splits if_splits)
qed simp

lemma oldest_some:
  "best \<noteq> None \<or> (\<exists>k \<in> set ks. map_of m k \<noteq> None) \<Longrightarrow> oldest m ks best \<noteq> None"
  by (induction m ks best rule: oldest.induct) (auto split: option.splits)

lemma delete_length:
  assumes "distinct (map fst m)" "map_of m k \<noteq> None"
  shows "Suc (length (AList.delete k m)) = length m"
  using gm.size_del [of m k] assms by simp

lemma delete_ok:
  assumes "limiter_ok l"
  shows "limiter_ok (l\<lparr>lm_entries := AList.delete k (lm_entries l)\<rparr>)"
proof -
  have "set (map fst (AList.delete k (lm_entries l))) = set (map fst (lm_entries l)) - {k}"
    by (simp only: delete_keys set_removeAll)
  moreover have "distinct (map fst (AList.delete k (lm_entries l)))"
    using assms by (simp add: limiter_ok_def distinct_delete)
  moreover have "length (AList.delete k (lm_entries l)) \<le> length (lm_entries l)" by (rule length_delete_le)
  ultimately show ?thesis using assms unfolding limiter_ok_def by auto
qed

lemma ensureCapacity_room:
  assumes ok: "limiter_ok l" and ord: "set order = set (map fst (lm_entries l))"
  shows "int (length (lm_entries (ensureCapacity order l))) < lm_maxEntries l"
    and "limiter_ok (ensureCapacity order l)"
proof -
  have a: "int (length (lm_entries (ensureCapacity order l))) < lm_maxEntries l \<and> limiter_ok (ensureCapacity order l)"
  proof (cases "int (length (lm_entries l)) < lm_maxEntries l")
    case True
    then show ?thesis using ok by (simp add: ensureCapacity_def)
  next
    case False
    then have "lm_entries l \<noteq> []" using ok by (auto simp: limiter_ok_def)
    then obtain k0 where "k0 \<in> set (map fst (lm_entries l))" by (cases "lm_entries l") auto
    then have "\<exists>k \<in> set order. map_of (lm_entries l) k \<noteq> None" using ord by (auto simp: map_of_eq_None_iff)
    then obtain k t where old: "oldest (lm_entries l) order None = Some (k, t)"
      using oldest_some [of None order "lm_entries l"] by fastforce
    have k: "map_of (lm_entries l) k \<noteq> None" using oldest_in [OF old] by simp
    then have "k \<in> set (map fst (lm_entries l))" by (simp add: map_of_eq_None_iff)
    then have "k \<noteq> []" using ok unfolding limiter_ok_def by metis
    then have e: "ensureCapacity order l = l\<lparr>lm_entries := AList.delete k (lm_entries l)\<rparr>"
      using False old by (simp add: ensureCapacity_def)
    have "distinct (map fst (lm_entries l))" using ok by (simp add: limiter_ok_def)
    from delete_length [OF this k] delete_ok [OF ok, of k] ok show ?thesis
      by (auto simp: e limiter_ok_def)
  qed
  then show "int (length (lm_entries (ensureCapacity order l))) < lm_maxEntries l"
    and "limiter_ok (ensureCapacity order l)" by auto
qed

lemma pruneExpired_ok: "limiter_ok l \<Longrightarrow> limiter_ok (pruneExpired now l)"
  using length_mprune_le [of "\<lambda>_ e. \<not> now > re_windowEnd e" "lm_entries l"]
  by (auto simp: limiter_ok_def pruneExpired_def set_mprune image_iff)

lemma Allow_ok:
  assumes "limiter_ok l"
  shows "limiter_ok (snd (Allow now key l))"
  using assms pruneExpired_ok [OF assms, of now] delete_ok [OF pruneExpired_ok [OF assms, of now], of key]
  by (auto simp: Allow_def Let_def split: option.splits)

lemma ensureCapacity_max [simp]: "lm_maxEntries (ensureCapacity order l) = lm_maxEntries l"
  by (simp add: ensureCapacity_def split: option.splits prod.splits)

lemma update_ok:
  assumes "limiter_ok l" "key \<noteq> []"
    and "map_of (lm_entries l) key \<noteq> None \<or> int (length (lm_entries l)) < lm_maxEntries l"
  shows "limiter_ok (l\<lparr>lm_entries := AList.update key e (lm_entries l)\<rparr>)"
proof -
  have d: "distinct (map fst (lm_entries l))" using assms(1) by (simp add: limiter_ok_def)
  have len: "length (AList.update key e (lm_entries l)) \<le>
      (if map_of (lm_entries l) key \<noteq> None then length (lm_entries l) else Suc (length (lm_entries l)))"
  proof (cases "map_of (lm_entries l) key")
    case None
    with gm.size_put_new [of "lm_entries l" key e] d show ?thesis by simp
  next
    case (Some e0)
    with gm.size_put_old [of "lm_entries l" key e] d show ?thesis by simp
  qed
  have "set (map fst (AList.update key e (lm_entries l))) = insert key (set (map fst (lm_entries l)))"
    using dom_update [of key e "lm_entries l"] by (simp add: dom_map_of_conv_image_fst)
  then show ?thesis using assms d len distinct_update [OF d, of key e]
    unfolding limiter_ok_def by (auto split: if_splits)
qed

lemma RecordFailure_ok:
  assumes ok: "limiter_ok l" and ord: "order_ok order"
  shows "limiter_ok (RecordFailure order now key l)"
proof (cases "key = []")
  case False
  let ?l1 = "pruneExpired now l"
  have ok1: "limiter_ok ?l1" by (rule pruneExpired_ok [OF ok])
  have o: "set (order ?l1) = set (map fst (lm_entries ?l1))" using ord by (simp add: order_ok_def)
  show ?thesis
  proof (cases "case map_of (lm_entries ?l1) key of None \<Rightarrow> True | Some e \<Rightarrow> now > re_windowEnd e")
    case True
    then show ?thesis
      using False ensureCapacity_room [OF ok1 o]
      by (auto simp: RecordFailure_def Let_def intro!: update_ok)
  next
    case fresh: False
    then obtain e where "map_of (lm_entries ?l1) key = Some e" by (auto split: option.splits)
    with fresh False ok1 show ?thesis
      by (auto simp: RecordFailure_def Let_def intro!: update_ok)
  qed
qed (use ok in \<open>simp add: RecordFailure_def\<close>)

datatype limiter_op = OpAllow time string | OpFail time string | OpReset string

definition run_limiter :: "(limiter \<Rightarrow> string list) \<Rightarrow> limiter_op \<Rightarrow> limiter \<Rightarrow> limiter" where
  "run_limiter order oper l = (case oper of
      OpAllow t k \<Rightarrow> snd (Allow t k l) | OpFail t k \<Rightarrow> RecordFailure order t k l | OpReset k \<Rightarrow> Reset k l)"

text \<open>The limiter is bounded: whatever the calls and whatever order the map is iterated in, it never
  holds more entries than its maximum, and never two for a key.\<close>

theorem limiter_bounded:
  assumes "order_ok order"
  shows "limiter_ok (fold (run_limiter order) opers (NewLoginRateLimiter limit window maxEntries))"
proof -
  have step: "limiter_ok (run_limiter order oper l)" if "limiter_ok l" for oper l
    using that RecordFailure_ok [OF that assms] Allow_ok [OF that] delete_ok [OF that]
    by (auto simp: run_limiter_def Reset_def split: limiter_op.splits)
  have "limiter_ok l \<Longrightarrow> limiter_ok (fold (run_limiter order) opers l)" for l
    by (induction opers arbitrary: l) (auto intro: step)
  moreover have "limiter_ok (NewLoginRateLimiter limit window maxEntries)"
    by (simp add: NewLoginRateLimiter_def limiter_ok_def)
  ultimately show ?thesis by blast
qed

lemma limiter_bounded_witness:
  "limiter_ok (fold (run_limiter (\<lambda>l. map fst (lm_entries l))) [OpFail 1 ''a'', OpFail 2 ''b'', OpAllow 3 ''a'']
     (NewLoginRateLimiter 2 10 1))"
  by (rule limiter_bounded) (simp add: order_ok_def)

lemma prune_lookup:
  "distinct (map fst (lm_entries l)) \<Longrightarrow> map_of (lm_entries (pruneExpired now l)) key =
    (case map_of (lm_entries l) key of None \<Rightarrow> None | Some e \<Rightarrow> if \<not> now > re_windowEnd e then Some e else None)"
  by (simp add: pruneExpired_def map_of_mprune)

lemma limiter_distinct: "limiter_ok l \<Longrightarrow> distinct (map fst (lm_entries l))"
  by (simp add: limiter_ok_def)

lemma prune_fields [simp]:
  "lm_limit (pruneExpired now l) = lm_limit l" "lm_window (pruneExpired now l) = lm_window l"
  "lm_maxEntries (pruneExpired now l) = lm_maxEntries l"
  by (simp_all add: pruneExpired_def)

abbreviation keys_of :: "limiter \<Rightarrow> string set" where
  "keys_of l \<equiv> fst ` set (lm_entries l)"

lemma prune_keys: "keys_of (pruneExpired now l) \<subseteq> keys_of l"
  by (auto simp: pruneExpired_def set_mprune)

text \<open>The limiter keeps its settings, and only failures add keys.\<close>

fun op_key :: "limiter_op \<Rightarrow> string" where
  "op_key (OpAllow t k) = k"
| "op_key (OpFail t k) = k"
| "op_key (OpReset k) = k"

fun op_time :: "limiter_op \<Rightarrow> time option" where
  "op_time (OpAllow t k) = Some t"
| "op_time (OpFail t k) = Some t"
| "op_time (OpReset k) = None"

lemma run_limiter_fields [simp]:
  "lm_limit (run_limiter order oper l) = lm_limit l" "lm_window (run_limiter order oper l) = lm_window l"
  "lm_maxEntries (run_limiter order oper l) = lm_maxEntries l"
  by (cases oper; simp add: run_limiter_def Allow_def RecordFailure_def Reset_def Let_def ensureCapacity_def
      split: option.splits prod.splits)+

lemma delete_key_set: "fst ` set (AList.delete k m) = fst ` set m - {k}"
  using arg_cong [OF delete_keys [of k m], of set] by simp

lemma run_limiter_keys: "keys_of (run_limiter order oper l) \<subseteq> insert (op_key oper) (keys_of l)"
proof -
  have cap: "keys_of (ensureCapacity ks l1) \<subseteq> keys_of l1" for ks l1
    by (auto simp: ensureCapacity_def delete_key_set split: option.splits prod.splits)
  have upd: "fst ` set (AList.update k e m) = insert k (fst ` set m)" for k :: string and e :: rate_entry and m
    by (simp add: dom_update)
  have fail: "keys_of (RecordFailure order t k l) \<subseteq> insert k (keys_of l)" for t k
    using subset_trans [OF cap prune_keys, of "order (pruneExpired t l)" t l] prune_keys [of t l]
    by (auto simp: RecordFailure_def Let_def upd)
  have allow: "keys_of (snd (Allow t k l)) \<subseteq> keys_of l" for t k
    using prune_keys [of t l] by (auto simp: Allow_def Let_def delete_key_set split: option.splits)
  show ?thesis
  proof (cases oper)
    case (OpAllow t k)
    then show ?thesis using allow [of t k] by (auto simp: run_limiter_def)
  next
    case (OpFail t k)
    then show ?thesis using fail by (simp add: run_limiter_def)
  next
    case (OpReset k)
    then show ?thesis by (auto simp: run_limiter_def Reset_def delete_key_set)
  qed
qed

lemma run_limiter_ok: "limiter_ok l \<Longrightarrow> order_ok order \<Longrightarrow> limiter_ok (run_limiter order oper l)"
  using RecordFailure_ok Allow_ok delete_ok by (cases oper) (auto simp: run_limiter_def Reset_def)

text \<open>A failure of a key within its window is counted; what other keys do leaves the entry alone unless the table is full.\<close>

lemma fail_counted:
  assumes "limiter_ok l" "key \<noteq> []" "map_of (lm_entries l) key = Some e" "t \<le> re_windowEnd e"
  shows "map_of (lm_entries (RecordFailure order t key l)) key = Some (e\<lparr>re_failures := re_failures e + 1\<rparr>)"
  using assms prune_lookup [OF limiter_distinct [OF assms(1)], of t key] by (simp add: RecordFailure_def Let_def go_simps)

lemma fail_opens:
  assumes "limiter_ok l" "key \<noteq> []" "case map_of (lm_entries l) key of None \<Rightarrow> True | Some e \<Rightarrow> re_windowEnd e < t"
  shows "map_of (lm_entries (RecordFailure order t key l)) key = Some \<lparr>re_failures = 1, re_windowEnd = t + lm_window l\<rparr>"
proof -
  have "map_of (lm_entries (pruneExpired t l)) key = None"
    using assms(3) prune_lookup [OF limiter_distinct [OF assms(1)], of t key] by (auto split: option.splits)
  then show ?thesis using assms(2) by (simp add: RecordFailure_def Let_def go_simps)
qed

lemma other_keeps:
  assumes ok: "limiter_ok l" and e: "map_of (lm_entries l) key = Some e"
    and other: "op_key oper \<noteq> key" and time: "\<And>t. op_time oper = Some t \<Longrightarrow> t \<le> re_windowEnd e"
    and room: "int (card (insert (op_key oper) (keys_of l))) \<le> lm_maxEntries l"
  shows "map_of (lm_entries (run_limiter order oper l)) key = Some e"
proof -
  have pruned: "map_of (lm_entries (pruneExpired t l)) key = Some e" if "op_time oper = Some t" for t
    using e time [OF that] prune_lookup [OF limiter_distinct [OF ok], of t key] by simp
  show ?thesis
  proof (cases oper)
    case (OpAllow t k)
    then show ?thesis using pruned [of t] e other by (auto simp: run_limiter_def Allow_def Let_def go_simps split: option.splits)
  next
    case (OpReset k)
    then show ?thesis using e other by (auto simp: run_limiter_def Reset_def go_simps)
  next
    case (OpFail t k)
    let ?l1 = "pruneExpired t l"
    have "ensureCapacity (order ?l1) ?l1 = ?l1" if "map_of (lm_entries ?l1) k = None"
    proof -
      have ok1: "distinct (map fst (lm_entries ?l1))" using limiter_distinct [OF pruneExpired_ok [OF ok]] .
      have "k \<notin> keys_of ?l1" using that by (simp add: map_of_eq_None_iff)
      then have "Suc (length (lm_entries ?l1)) = card (insert k (keys_of ?l1))"
        using distinct_card [OF ok1] by simp
      also have "\<dots> \<le> card (insert k (keys_of l))" by (intro card_mono) (use prune_keys in auto)
      finally show ?thesis using room OpFail by (simp add: ensureCapacity_def)
    qed
    moreover have "map_of (lm_entries ?l1) k = Some e' \<Longrightarrow> \<not> re_windowEnd e' < t" for e'
      using prune_lookup [OF limiter_distinct [OF ok], of t k] by (auto split: option.splits if_splits)
    ultimately show ?thesis
      using OpFail other e pruned [of t] by (auto simp: run_limiter_def RecordFailure_def Let_def go_simps split: option.splits)
  qed
qed

fun is_failure :: "string \<Rightarrow> limiter_op \<Rightarrow> bool" where
  "is_failure key (OpFail t k) = (k = key)"
| "is_failure key _ = False"

lemma own_step:
  assumes "limiter_ok l" "key \<noteq> []" "map_of (lm_entries l) key = Some e" "op_key oper = key" "oper \<noteq> OpReset key"
    and "\<And>t. op_time oper = Some t \<Longrightarrow> t \<le> re_windowEnd e"
  shows "map_of (lm_entries (run_limiter order oper l)) key
    = Some (e\<lparr>re_failures := re_failures e + (if is_failure key oper then 1 else 0)\<rparr>)"
proof (cases oper)
  case (OpAllow t k)
  then show ?thesis
    using assms prune_lookup [OF limiter_distinct [OF assms(1)], of t key]
    by (auto simp: run_limiter_def Allow_def Let_def)
next
  case (OpFail t k)
  then show ?thesis using assms fail_counted [OF assms(1-3), of t] by (simp add: run_limiter_def)
next
  case (OpReset k)
  then show ?thesis using assms(4,5) by simp
qed

lemma attempts_count:
  assumes "order_ok order" "key \<noteq> []"
  shows "limiter_ok l \<Longrightarrow> map_of (lm_entries l) key = Some e \<Longrightarrow> \<forall>oper \<in> set opers. oper \<noteq> OpReset key \<Longrightarrow>
   \<forall>oper \<in> set opers. \<forall>t. op_time oper = Some t \<longrightarrow> t \<le> re_windowEnd e \<Longrightarrow>
   int (card (keys_of l \<union> op_key ` set opers)) \<le> lm_maxEntries l \<Longrightarrow>
   limiter_ok (fold (run_limiter order) opers l) \<and> lm_limit (fold (run_limiter order) opers l) = lm_limit l \<and>
   map_of (lm_entries (fold (run_limiter order) opers l)) key =
     Some (e\<lparr>re_failures := re_failures e + int (length (filter (is_failure key) opers))\<rparr>)"
proof (induction opers arbitrary: l e)
  case (Cons oper opers)
  let ?l = "run_limiter order oper l" and ?e = "e\<lparr>re_failures := re_failures e + (if is_failure key oper then 1 else 0)\<rparr>"
  have time: "t \<le> re_windowEnd e" if "op_time oper = Some t" for t using Cons.prems(4) that by simp
  have "card (insert (op_key oper) (keys_of l)) \<le> card (keys_of l \<union> op_key ` set (oper # opers))" by (intro card_mono) auto
  then have room: "int (card (insert (op_key oper) (keys_of l))) \<le> lm_maxEntries l" using Cons.prems(5) by linarith
  have "map_of (lm_entries ?l) key = Some ?e"
  proof (cases "op_key oper = key")
    case True
    then show ?thesis using own_step [OF Cons.prems(1) assms(2) Cons.prems(2) True _ time] Cons.prems(3) by simp
  next
    case False
    then have "\<not> is_failure key oper" by (cases oper) auto
    then show ?thesis using other_keeps [OF Cons.prems(1,2) False time room] by simp
  qed
  moreover have "limiter_ok ?l" by (rule run_limiter_ok [OF Cons.prems(1) assms(1)])
  moreover have "card (keys_of ?l \<union> op_key ` set opers) \<le> card (keys_of l \<union> op_key ` set (oper # opers))"
    using run_limiter_keys [of order oper l] by (intro card_mono) auto
  ultimately have "limiter_ok (fold (run_limiter order) opers ?l) \<and> lm_limit (fold (run_limiter order) opers ?l) = lm_limit ?l \<and>
     map_of (lm_entries (fold (run_limiter order) opers ?l)) key =
       Some (?e\<lparr>re_failures := re_failures ?e + int (length (filter (is_failure key) opers))\<rparr>)"
    using Cons.prems(3-5) by (intro Cons.IH) simp_all
  then show ?case by (simp add: add.assoc)
qed simp

text \<open>C36: lockout.  From the failure that opens a window for a key, whatever happens on this and other keys in the
  window, once the key has failed as often as the limit no attempt is allowed for it until the window has ended;
  provided no successful login resets the key and the keys in use fit into the table, so that nothing is evicted.\<close>

theorem limiter_locks_out:
  assumes "limiter_ok l" and "order_ok order" and "key \<noteq> []"
    and "case map_of (lm_entries l) key of None \<Rightarrow> True | Some e \<Rightarrow> re_windowEnd e < t0"
    and "\<forall>oper \<in> set opers. oper \<noteq> OpReset key"
    and "\<forall>oper \<in> set opers. \<forall>t. op_time oper = Some t \<longrightarrow> t \<le> t0 + lm_window l"
    and "int (card (insert key (keys_of l \<union> op_key ` set opers))) \<le> lm_maxEntries l"
    and "lm_limit l \<le> int (length (filter (is_failure key) (OpFail t0 key # opers)))" and "now \<le> t0 + lm_window l"
  shows "\<not> fst (Allow now key (fold (run_limiter order) (OpFail t0 key # opers) l))"
proof -
  let ?start = "run_limiter order (OpFail t0 key) l" and ?entry = "\<lparr>re_failures = 1, re_windowEnd = t0 + lm_window l\<rparr>"
  let ?l = "fold (run_limiter order) opers ?start"
  have e0: "map_of (lm_entries ?start) key = Some ?entry" using fail_opens [OF assms(1,3,4)] by (simp add: run_limiter_def)
  have "card (keys_of ?start \<union> op_key ` set opers) \<le> card (insert key (keys_of l \<union> op_key ` set opers))"
    using run_limiter_keys [of order "OpFail t0 key" l] by (intro card_mono) auto
  then have fin: "limiter_ok ?l \<and> lm_limit ?l = lm_limit ?start \<and>
      map_of (lm_entries ?l) key = Some (?entry\<lparr>re_failures := re_failures ?entry + int (length (filter (is_failure key) opers))\<rparr>)"
    using assms(5-7) by (intro attempts_count [OF assms(2,3) run_limiter_ok [OF assms(1,2)] e0]) simp_all
  then have "map_of (lm_entries (pruneExpired now ?l)) key = Some (?entry\<lparr>re_failures := 1 + int (length (filter (is_failure key) opers))\<rparr>)"
    using prune_lookup [of ?l now key] limiter_distinct assms(9) by simp
  then show ?thesis using fin assms(3,8,9) by (simp add: Allow_def Let_def)
qed

lemma limiter_locks_out_witness:
  "\<not> fst (Allow 900 ''k'' (fold (run_limiter (\<lambda>l. map fst (lm_entries l))) [OpFail 0 ''k'', OpFail 3 ''x'', OpReset ''x'', OpFail 5 ''k'']
     sample_limiter))"
  by (rule limiter_locks_out) (simp_all add: sample_limiter_def NewLoginRateLimiter_def limiter_ok_def order_ok_def insert_commute)

text \<open>The key of the limiter takes the first address of the \<open>X-Forwarded-For\<close> header, which the
  client writes: for every limiter, every user name and every address of the client there is a header
  with which a login attempt is not limited.\<close>

theorem limiter_bypassed:
  "\<exists>forwarded. fst (Allow now (loginRateKey (clientIP (r\<lparr>rq_Forwarded := forwarded\<rparr>)) username) l)
     \<and> rq_RemoteAddr (r\<lparr>rq_Forwarded := forwarded\<rparr>) = rq_RemoteAddr r"
proof -
  define n where "n = Suc (sum_list (map (\<lambda>e. length (fst e)) (lm_entries l)))"
  define f where "f = replicate n (CHR ''a'')"
  have trim: "trim_space f = f"
    by (rule trim_space_chars) (auto simp: f_def is_ident_char_def is_alpha_def)
  have "split_on (CHR '','') f = [f]" by (rule split_on_word) (simp add: f_def)
  then have ip: "clientIP (r\<lparr>rq_Forwarded := f\<rparr>) = f" by (simp add: clientIP_def trim) (simp add: f_def n_def)
  let ?key = "loginRateKey (clientIP (r\<lparr>rq_Forwarded := f\<rparr>)) username"
  have "length ?key \<ge> n" unfolding ip by (simp add: loginRateKey_def trim) (simp add: f_def)
  moreover have "length k < n" if "k \<in> set (map fst (lm_entries l))" for k
    using that member_le_sum_list [of "length k" "map (\<lambda>e. length (fst e)) (lm_entries l)"]
    by (force simp: n_def)
  ultimately have "?key \<notin> set (map fst (lm_entries l))" by (meson not_le)
  then have "?key \<notin> set (map fst (lm_entries (pruneExpired now l)))"
    by (auto simp: pruneExpired_def set_mprune)
  then have "map_of (lm_entries (pruneExpired now l)) ?key = None" by (simp add: map_of_eq_None_iff)
  then have "fst (Allow now ?key l)" by (simp add: Allow_def Let_def)
  then show ?thesis by (intro exI [of _ f]) simp
qed

end
