(* ===== verification/Sites.thy ===== *)
theory Sites
  imports Prelude
begin

text \<open>
  The projections of the API (\<open>services/backend-api/internal/derive/\<close>): what status a device and a
  site are shown with (\<open>derive.go\<close>) and the dependency evaluation between sites
  (\<open>site_topology.go\<close>).

  A map is an association list; the order of the list stands for the order in which Go ranges over
  it, which is arbitrary.  A missing key of a Go map reads as the zero value: \<open>no_node\<close>, \<open>no_raw\<close>.
  \<open>walk\<close> in \<open>collectRootCauseSites\<close> has no mark on the sites it is inside of: it is a
  \<open>partial_function (option)\<close> whose \<open>None\<close> is the unbounded recursion.
\<close>

section \<open>Device status\<close>

definition StatusUnknown :: int where "StatusUnknown = 0"
definition StatusHealthy :: int where "StatusHealthy = 1"
definition StatusWarning :: int where "StatusWarning = 2"
definition StatusCritical :: int where "StatusCritical = 3"

lemmas status_defs = StatusUnknown_def StatusHealthy_def StatusWarning_def StatusCritical_def

definition DeviceOnline :: "string \<Rightarrow> time option \<Rightarrow> time \<Rightarrow> duration \<Rightarrow> bool" where
  "DeviceOnline status lastSeen now threshold =
     (if status \<noteq> ''online'' then False
      else (case lastSeen of None \<Rightarrow> False | Some t \<Rightarrow> now - t \<le> threshold))"

definition DeviceStatusCode :: "bool \<Rightarrow> int" where
  "DeviceStatusCode online = (if online then StatusHealthy else StatusCritical)"

definition HealthStatusCode :: "string \<Rightarrow> bool \<Rightarrow> int" where
  "HealthStatusCode state online =
     (let s = to_lower (trim_space state) in
      if \<not> online then
        (if s = ''critical'' then StatusCritical
         else if s = ''unknown'' then StatusUnknown
         else DeviceStatusCode False)
      else if s = ''healthy'' then StatusHealthy
      else if s = ''warning'' then StatusWarning
      else if s = ''critical'' then StatusCritical
      else if s = ''unknown'' then StatusUnknown
      else DeviceStatusCode online)"

record projection =
  dp_Status :: int
  dp_StatusReason :: string
  dp_FailureCount :: "int option"
  dp_UpstreamDeviceIDs :: "string list"
  dp_UnavailableUpstreamIDs :: "string list"
  dp_RootCauseDeviceIDs :: "string list"
  dp_AlertsEnabled :: bool

definition nonNilStrings :: "string list option \<Rightarrow> string list" where
  "nonNilStrings xs = (case xs of None \<Rightarrow> [] | Some ys \<Rightarrow> ys)"

definition ProjectDeviceStatus :: "string \<Rightarrow> bool \<Rightarrow> string \<Rightarrow> int \<Rightarrow> string list option \<Rightarrow> string list option
    \<Rightarrow> string list option \<Rightarrow> bool \<Rightarrow> bool \<Rightarrow> projection" where
  "ProjectDeviceStatus healthState healthPresent reason failureCount upstream unavailable rootCause online alertsEnabled =
     (let out = \<lparr>dp_Status = 0, dp_StatusReason = [], dp_FailureCount = None,
            dp_UpstreamDeviceIDs = nonNilStrings upstream, dp_UnavailableUpstreamIDs = nonNilStrings unavailable,
            dp_RootCauseDeviceIDs = nonNilStrings rootCause, dp_AlertsEnabled = alertsEnabled\<rparr> in
      if healthPresent
      then out\<lparr>dp_Status := HealthStatusCode healthState online, dp_StatusReason := reason,
               dp_FailureCount := Some failureCount\<rparr>
      else out\<lparr>dp_Status := DeviceStatusCode online\<rparr>)"

section \<open>Site counts\<close>

record site_counts =
  sc_HealthyCount :: int
  sc_WarningCount :: int
  sc_CriticalCount :: int
  sc_UnknownCount :: int
  sc_DependencyImpactedCount :: int

definition zero_counts :: site_counts where
  "zero_counts = \<lparr>sc_HealthyCount = 0, sc_WarningCount = 0, sc_CriticalCount = 0, sc_UnknownCount = 0,
     sc_DependencyImpactedCount = 0\<rparr>"

definition Accumulate :: "int \<Rightarrow> string list \<Rightarrow> bool \<Rightarrow> site_counts \<Rightarrow> site_counts" where
  "Accumulate status unavailableUpstream alertsEnabled c =
     (if \<not> alertsEnabled then c
      else if status = StatusHealthy then c\<lparr>sc_HealthyCount := sc_HealthyCount c + 1\<rparr>
      else if status = StatusWarning then c\<lparr>sc_WarningCount := sc_WarningCount c + 1\<rparr>
      else if status = StatusCritical then c\<lparr>sc_CriticalCount := sc_CriticalCount c + 1\<rparr>
      else if status = StatusUnknown then
        (let c' = c\<lparr>sc_UnknownCount := sc_UnknownCount c + 1\<rparr> in
         if unavailableUpstream \<noteq> []
         then c'\<lparr>sc_DependencyImpactedCount := sc_DependencyImpactedCount c' + 1\<rparr> else c')
      else c)"

definition SiteStatusFromHealth :: "site_counts \<Rightarrow> string" where
  "SiteStatusFromHealth c =
     (if sc_CriticalCount c > 0 then ''alert''
      else if sc_WarningCount c > 0 \<or> sc_UnknownCount c > 0 then ''caution''
      else ''ok'')"

definition SiteStatus :: "bool \<Rightarrow> string" where
  "SiteStatus anyOffline = (if anyOffline then ''alert'' else ''ok'')"

text \<open>\<open>parseIP\<close> stands for the parsers of package \<open>net\<close> on PostgreSQL's text of an address.\<close>

definition DeviceMapKey :: "(string \<Rightarrow> string) \<Rightarrow> string \<Rightarrow> string \<Rightarrow> string" where
  "DeviceMapKey parseIP ipAddress hostname =
     (let ip = (if ipAddress = [] then [] else parseIP ipAddress) in
      if ip \<noteq> [] \<and> ip \<noteq> ''0.0.0.0'' then ip
      else if hostname \<noteq> [] then hostname
      else ip)"

definition LocationOrName :: "string \<Rightarrow> string \<Rightarrow> string" where
  "LocationOrName location name = (if location \<noteq> [] then location else name)"

section \<open>The site graph\<close>

record site_node =
  sn_Name :: string
  sn_Upstreams :: "string list"
  sn_Hubs :: "string list"

record site_device =
  sd_InventoryDeviceID :: string
  sd_Projection :: projection

record site_raw =
  rw_Devices :: "site_device list"
  rw_Counts :: site_counts

record site_state =
  ss_UpstreamSiteIDs :: "string list"
  ss_UnavailableUpstreamSiteIDs :: "string list"
  ss_RootCauseSiteIDs :: "string list"
  ss_Impacted :: bool

type_synonym site_index = "(string, site_node) gomap"
type_synonym raw_index = "(string, site_raw) gomap"

definition no_node :: site_node where
  "no_node = \<lparr>sn_Name = [], sn_Upstreams = [], sn_Hubs = []\<rparr>"

definition no_raw :: site_raw where
  "no_raw = \<lparr>rw_Devices = [], rw_Counts = zero_counts\<rparr>"

definition node_at :: "site_index \<Rightarrow> string \<Rightarrow> site_node" where
  "node_at index name = (case map_of index name of None \<Rightarrow> no_node | Some n \<Rightarrow> n)"

definition raw_at :: "raw_index \<Rightarrow> string \<Rightarrow> site_raw" where
  "raw_at raw name = (case map_of raw name of None \<Rightarrow> no_raw | Some r \<Rightarrow> r)"

definition BuildSiteTopologyIndex :: "site_node list \<Rightarrow> site_index" where
  "BuildSiteTopologyIndex nodes = fold (\<lambda>n m. AList.update (sn_Name n) n m) nodes []"

text \<open>\<open>TopologicalSiteOrder\<close>: the depth-first visit; the state is the visited names and the output.
  The depth is bounded by the number of names, which is the fuel.\<close>

fun visit_site :: "nat \<Rightarrow> site_index \<Rightarrow> string \<Rightarrow> string list \<times> string list \<Rightarrow> (string list \<times> string list) option"
  and visit_sites :: "nat \<Rightarrow> site_index \<Rightarrow> string list \<Rightarrow> string list \<times> string list \<Rightarrow> (string list \<times> string list) option"
where
  "visit_site 0 index i st = None"
| "visit_site (Suc n) index i st =
     (if i \<in> set (fst st) then Some st
      else (case visit_sites n index (sn_Upstreams (node_at index i)) (i # fst st, snd st) of
          None \<Rightarrow> None
        | Some (visited, out) \<Rightarrow> Some (visited, out @ [i])))"
| "visit_sites n index [] st = Some st"
| "visit_sites n index (i # is) st =
     (case visit_site n index i st of
        None \<Rightarrow> None
      | Some st' \<Rightarrow> visit_sites n index is st')"

definition site_names :: "site_index \<Rightarrow> string set" where
  "site_names index = fst ` set index \<union> (\<Union>(_, n) \<in> set index. set (sn_Upstreams n))"

definition TopologicalSiteOrder :: "site_index \<Rightarrow> string list option" where
  "TopologicalSiteOrder index =
     map_option snd (visit_sites (length index + sum_list (map (\<lambda>(_, n). length (sn_Upstreams n)) index) + 2)
       index (sort (map fst index)) ([], []))"

definition is_core :: "string \<Rightarrow> bool" where
  "is_core lower \<longleftrightarrow> lower = ''do-core'' \<or> contains lower ''core''"

definition core_id :: "site_index \<Rightarrow> string" where
  "core_id index = (case find (\<lambda>(name, _). name \<noteq> [] \<and> is_core (to_lower name)) index of
      None \<Rightarrow> [] | Some (name, _) \<Rightarrow> name)"

definition by_lower :: "site_index \<Rightarrow> (string, string) gomap" where
  "by_lower index = fold (\<lambda>(name, _) m. AList.update (to_lower name) name m) index []"

definition matchingMDFSiteID :: "string \<Rightarrow> (string, string) gomap \<Rightarrow> string" where
  "matchingMDFSiteID lowerIDF idByLower =
     (case index_of lowerIDF ''-idf'' of
        None \<Rightarrow> []
      | Some i \<Rightarrow>
          if i = 0 then []
          else (case map_of idByLower (take i lowerIDF @ ''-mdf'') of None \<Rightarrow> [] | Some n \<Rightarrow> n))"

definition completed_ups :: "site_index \<Rightarrow> string \<Rightarrow> site_node \<Rightarrow> string list" where
  "completed_ups index name node =
     (let lower = to_lower name; coreID = core_id index; mdf = matchingMDFSiteID lower (by_lower index) in
      if sn_Upstreams node \<noteq> [] then sn_Upstreams node
      else if is_core lower then []
      else if contains lower ''-idf'' then
        (if mdf \<noteq> [] then [mdf] else if coreID \<noteq> [] then [coreID] else [])
      else if contains lower ''-mdf'' then (if coreID \<noteq> [] then [coreID] else [])
      else [])"

definition CompleteMissingSiteUpstreams :: "site_index \<Rightarrow> site_index" where
  "CompleteMissingSiteUpstreams index =
     map (\<lambda>(name, node). (name, node\<lparr>sn_Upstreams := completed_ups index name node\<rparr>)) index"

section \<open>Evaluation of the site graph\<close>

definition isDirectFailureReason :: "string \<Rightarrow> bool" where
  "isDirectFailureReason reason \<longleftrightarrow> to_lower (trim_space reason) \<in> {''direct_unreachable'', ''poll_failed'', []}"

definition isDirectCritical :: "projection \<Rightarrow> bool" where
  "isDirectCritical p \<longleftrightarrow> dp_Status p = StatusCritical \<and> isDirectFailureReason (dp_StatusReason p)"

definition siteUnavailable :: "site_raw \<Rightarrow> site_node \<Rightarrow> bool" where
  "siteUnavailable raw node =
     (if sn_Hubs node \<noteq> [] then
        list_ex (\<lambda>d. sd_InventoryDeviceID d \<in> set (sn_Hubs node) \<and> isDirectCritical (sd_Projection d)) (rw_Devices raw)
      else sc_CriticalCount (rw_Counts raw) > 0)"

definition siteShowsCascadeSignature :: "site_raw \<Rightarrow> bool" where
  "siteShowsCascadeSignature raw =
     (if rw_Devices raw = [] then False
      else length (filter (\<lambda>d. isDirectCritical (sd_Projection d) \<or> dp_Status (sd_Projection d) = StatusUnknown)
             (rw_Devices raw)) * 2 > length (rw_Devices raw))"

definition site_down :: "raw_index \<Rightarrow> site_index \<Rightarrow> string \<Rightarrow> bool" where
  "site_down raw index name = siteUnavailable (raw_at raw name) (node_at index name)"

partial_function (option) walk_sites :: "(string \<Rightarrow> bool) \<Rightarrow> (string \<Rightarrow> site_node option) \<Rightarrow> string list
    \<Rightarrow> string list \<Rightarrow> string list option" where
  "walk_sites down nodes names out =
     (case names of
        [] \<Rightarrow> Some out
      | name # rest \<Rightarrow>
          Option.bind
            (if name \<in> set out then Some out
             else (case nodes name of
                 None \<Rightarrow> Some out
               | Some node \<Rightarrow>
                   if \<not> down name then Some out
                   else if filter down (sn_Upstreams node) = [] then Some (out @ [name])
                   else walk_sites down nodes (filter down (sn_Upstreams node)) out))
            (\<lambda>out'. walk_sites down nodes rest out'))"

declare walk_sites.simps [code]

definition collectRootCauseSites :: "string list \<Rightarrow> raw_index \<Rightarrow> site_index \<Rightarrow> string list option" where
  "collectRootCauseSites unavailable raw index =
     map_option sort (walk_sites (site_down raw index) (map_of index) unavailable [])"

definition site_state_of :: "site_index \<Rightarrow> raw_index \<Rightarrow> string \<Rightarrow> site_state option" where
  "site_state_of index raw name =
     (let ups = sn_Upstreams (node_at index name);
          unav = sort (filter (site_down raw index) ups)
      in if ups \<noteq> [] \<and> length unav = length ups \<and> siteShowsCascadeSignature (raw_at raw name)
         then map_option (\<lambda>roots. \<lparr>ss_UpstreamSiteIDs = ups, ss_UnavailableUpstreamSiteIDs = unav,
                ss_RootCauseSiteIDs = roots, ss_Impacted = True\<rparr>) (collectRootCauseSites unav raw index)
         else Some \<lparr>ss_UpstreamSiteIDs = ups, ss_UnavailableUpstreamSiteIDs = unav,
                ss_RootCauseSiteIDs = [], ss_Impacted = False\<rparr>)"

fun states_of :: "site_index \<Rightarrow> raw_index \<Rightarrow> string list \<Rightarrow> (string, site_state) gomap option" where
  "states_of index raw [] = Some []"
| "states_of index raw (name # names) =
     (case site_state_of index raw name of
        None \<Rightarrow> None
      | Some s \<Rightarrow> map_option (\<lambda>m. (name, s) # m) (states_of index raw names))"

text \<open>
  The first loop marks the unavailable sites and the second one reads the marks of a site's
  upstreams, which the order lists too: the mark of an upstream is \<open>site_down\<close>.
\<close>

definition EvaluateSiteTopology :: "site_index \<Rightarrow> raw_index \<Rightarrow> (string, site_state) gomap option" where
  "EvaluateSiteTopology index0 raw =
     (let index = CompleteMissingSiteUpstreams index0 in
      case TopologicalSiteOrder index of
        None \<Rightarrow> None
      | Some order \<Rightarrow> states_of index raw order)"

definition ApplySiteDependencyOverlay :: "site_state \<Rightarrow> projection \<Rightarrow> projection" where
  "ApplySiteDependencyOverlay state p =
     (if \<not> ss_Impacted state \<or> \<not> isDirectCritical p then p
      else p\<lparr>dp_Status := StatusUnknown, dp_StatusReason := ''upstream_site_unreachable''\<rparr>)"

definition project_one :: "projection \<Rightarrow> site_counts \<Rightarrow> site_counts" where
  "project_one p c =
     (if \<not> dp_AlertsEnabled p then c
      else if EqualFold (dp_StatusReason p) ''upstream_site_unreachable''
      then c\<lparr>sc_UnknownCount := sc_UnknownCount c + 1,
             sc_DependencyImpactedCount := sc_DependencyImpactedCount c + 1\<rparr>
      else Accumulate (dp_Status p) (dp_UnavailableUpstreamIDs p) (dp_AlertsEnabled p) c)"

definition ProjectedSiteHealth :: "projection list \<Rightarrow> site_counts" where
  "ProjectedSiteHealth devices = fold project_one devices zero_counts"

end
