(* ===== verification/SitesProps.thy ===== *)
theory SitesProps
  imports Sites
begin

text \<open>
  The properties of the projections and of the site graph: stale devices are never shown healthy, the
  evaluation of the sites computes the root causes when the unavailable sites have no dependency cycle,
  and does not return on some cyclic graphs.
\<close>

section \<open>Status\<close>

text \<open>A device that is not online is never shown healthy or with a warning; its status is unknown
  only when the collector's last state says so, and critical otherwise; without health evidence the
  status is the online flag.\<close>

theorem offline_never_healthy:
  "(\<not> online \<longrightarrow> dp_Status (ProjectDeviceStatus state present reason fc us uu rc online alerts) \<in> {StatusCritical, StatusUnknown}
      \<and> (dp_Status (ProjectDeviceStatus state present reason fc us uu rc online alerts) = StatusUnknown \<longleftrightarrow>
           present \<and> to_lower (trim_space state) = ''unknown''))
   \<and> (\<not> present \<longrightarrow> dp_Status (ProjectDeviceStatus state present reason fc us uu rc online alerts) =
        (if online then StatusHealthy else StatusCritical))"
  by (auto simp: ProjectDeviceStatus_def HealthStatusCode_def DeviceStatusCode_def Let_def status_defs)

lemma offline_never_healthy_witness:
  "dp_Status (ProjectDeviceStatus ''healthy'' True [] 0 None None None False True) \<in> {StatusCritical, StatusUnknown}"
  using offline_never_healthy [of False "''healthy''" True "[]" 0 None None None True] by blast

text \<open>The counts of a list of projections.\<close>

definition counted :: "projection \<Rightarrow> bool" where
  "counted p \<longleftrightarrow> dp_AlertsEnabled p \<and> \<not> EqualFold (dp_StatusReason p) ''upstream_site_unreachable''"

definition overlaid :: "projection \<Rightarrow> bool" where
  "overlaid p \<longleftrightarrow> dp_AlertsEnabled p \<and> EqualFold (dp_StatusReason p) ''upstream_site_unreachable''"

lemma project_fold:
  "sc_CriticalCount (fold project_one ps c) = sc_CriticalCount c +
     int (length (filter (\<lambda>p. counted p \<and> dp_Status p = StatusCritical) ps))"
  "sc_WarningCount (fold project_one ps c) = sc_WarningCount c +
     int (length (filter (\<lambda>p. counted p \<and> dp_Status p = StatusWarning) ps))"
  "sc_UnknownCount (fold project_one ps c) = sc_UnknownCount c +
     int (length (filter (\<lambda>p. overlaid p \<or> (counted p \<and> dp_Status p = StatusUnknown)) ps))"
  by (induction ps arbitrary: c)
     (simp_all add: project_one_def Accumulate_def counted_def overlaid_def status_defs Let_def)

lemma filter_pos: "int (length (filter P xs)) > 0 \<longleftrightarrow> (\<exists>x \<in> set xs. P x)"
  by (auto simp: filter_empty_conv)

text \<open>The status of a site after the overlay: \<open>alert\<close> exactly when a device with alerts is critical
  and not explained by an upstream site, otherwise \<open>caution\<close> exactly when one is warm, unknown or
  explained by an upstream site, and \<open>ok\<close> otherwise; devices without alerts never count.\<close>

theorem site_status_of_devices:
  "SiteStatusFromHealth (ProjectedSiteHealth ps) =
    (if \<exists>p \<in> set ps. counted p \<and> dp_Status p = StatusCritical then ''alert''
     else if \<exists>p \<in> set ps. counted p \<and> dp_Status p \<in> {StatusWarning, StatusUnknown} \<or> overlaid p then ''caution''
     else ''ok'')"
proof -
  let ?c = "ProjectedSiteHealth ps"
  have c: "sc_CriticalCount ?c > 0 \<longleftrightarrow> (\<exists>p \<in> set ps. counted p \<and> dp_Status p = StatusCritical)"
    and w: "sc_WarningCount ?c > 0 \<longleftrightarrow> (\<exists>p \<in> set ps. counted p \<and> dp_Status p = StatusWarning)"
    and u: "sc_UnknownCount ?c > 0 \<longleftrightarrow> (\<exists>p \<in> set ps. overlaid p \<or> (counted p \<and> dp_Status p = StatusUnknown))"
    unfolding ProjectedSiteHealth_def project_fold by (simp_all only: zero_counts_def site_counts.simps add_0 filter_pos)
  show ?thesis unfolding SiteStatusFromHealth_def c w u by auto
qed

section \<open>The visit order\<close>

text \<open>The fuel of the visit is enough: a name is visited once.\<close>

lemma visit_grows:
  "visit_site n index i st = Some st' \<Longrightarrow> set (fst st) \<subseteq> set (fst st') \<and> i \<in> set (fst st')"
  "visit_sites n index is st = Some st' \<Longrightarrow> set (fst st) \<subseteq> set (fst st') \<and> set is \<subseteq> set (fst st')"
proof (induction n index i st and n index "is" st arbitrary: st' and st' rule: visit_site_visit_sites.induct)
  case (2 n index i st)
  show ?case
  proof (cases "i \<in> set (fst st)")
    case False
    with "2.prems" obtain visited out where r: "visit_sites n index (sn_Upstreams (node_at index i)) (i # fst st, snd st) = Some (visited, out)"
      and st': "st' = (visited, out @ [i])" by (auto split: option.splits)
    from "2.IH" [OF False r] show ?thesis by (simp add: st')
  qed (use 2 in simp)
next
  case (4 n index i "is" st)
  from "4.prems" obtain st1 where st1: "visit_site n index i st = Some st1"
    and rest: "visit_sites n index is st1 = Some st'" by (auto split: option.splits)
  from "4.IH"(1) [OF st1] "4.IH"(2) [OF st1 rest] show ?case by auto
qed auto

lemma visit_returns:
  assumes "finite K" and K: "\<And>x. x \<in> K \<Longrightarrow> set (sn_Upstreams (node_at index x)) \<subseteq> K"
  shows "i \<in> K \<Longrightarrow> card (K - set (fst st)) < n \<Longrightarrow> \<exists>st'. visit_site n index i st = Some st'"
    and "set is \<subseteq> K \<Longrightarrow> card (K - set (fst st)) < n \<Longrightarrow> \<exists>st'. visit_sites n index is st = Some st'"
  using K
proof (induction n index i st and n index "is" st rule: visit_site_visit_sites.induct)
  case (2 n index i st)
  show ?case
  proof (cases "i \<in> set (fst st)")
    case False
    have "card (K - set (i # fst st)) < card (K - set (fst st))"
      using assms(1) False "2.prems"(1) by (intro psubset_card_mono) auto
    then have less: "card (K - set (fst (i # fst st, snd st))) < n" using "2.prems"(2) by simp
    have "\<exists>st'. visit_sites n index (sn_Upstreams (node_at index i)) (i # fst st, snd st) = Some st'"
      by (rule "2.IH" [OF False _ less]) (use "2.prems" in auto)
    with False show ?thesis by auto
  qed simp
next
  case (4 n index i "is" st)
  obtain st1 where st1: "visit_site n index i st = Some st1" using "4.IH"(1) "4.prems" by auto
  have "card (K - set (fst st1)) \<le> card (K - set (fst st))"
    using visit_grows(1) [OF st1] assms(1) by (intro card_mono) auto
  with "4.IH"(2) [OF st1] "4.prems" st1 show ?case by auto
qed auto

lemma visit_out:
  "visit_site n index i st = Some st' \<Longrightarrow> set (snd st) \<subseteq> set (fst st) \<Longrightarrow> distinct (snd st) \<Longrightarrow>
     set (snd st') \<subseteq> set (fst st') \<and> distinct (snd st') \<and>
     set (fst st') - set (snd st') = set (fst st) - set (snd st)"
  "visit_sites n index is st = Some st' \<Longrightarrow> set (snd st) \<subseteq> set (fst st) \<Longrightarrow> distinct (snd st) \<Longrightarrow>
     set (snd st') \<subseteq> set (fst st') \<and> distinct (snd st') \<and>
     set (fst st') - set (snd st') = set (fst st) - set (snd st)"
proof (induction n index i st and n index "is" st arbitrary: st' and st' rule: visit_site_visit_sites.induct)
  case (2 n index i st)
  show ?case
  proof (cases "i \<in> set (fst st)")
    case False
    with "2.prems"(1) obtain visited out where r: "visit_sites n index (sn_Upstreams (node_at index i)) (i # fst st, snd st) = Some (visited, out)"
      and st': "st' = (visited, out @ [i])" by (auto split: option.splits)
    from "2.IH" [OF False r] "2.prems"(2,3)
    have IH: "set out \<subseteq> set visited" "distinct out" "set visited - set out = insert i (set (fst st)) - set (snd st)" by auto
    have "i \<notin> set out" using IH(3) False "2.prems"(2) by blast
    moreover have "i \<in> set visited" using visit_grows(2) [OF r] by simp
    ultimately show ?thesis using IH st' False by auto
  qed (use 2 in auto)
next
  case (4 n index i "is" st)
  from "4.prems"(1) obtain st1 where st1: "visit_site n index i st = Some st1"
    and rest: "visit_sites n index is st1 = Some st'" by (auto split: option.splits)
  from "4.IH"(1) [OF st1 "4.prems"(2,3)] "4.IH"(2) [OF st1 rest] show ?case by auto
qed auto

lemma site_order:
  "\<exists>order. TopologicalSiteOrder index = Some order \<and> distinct order \<and> set (map fst index) \<subseteq> set order"
proof -
  let ?K = "site_names index" and ?n = "length index + sum_list (map (\<lambda>(_, n). length (sn_Upstreams n)) index) + 2"
  have fin: "finite ?K" by (auto simp: site_names_def)
  have ups: "set (sn_Upstreams (node_at index x)) \<subseteq> ?K" for x
    by (auto simp: node_at_def no_node_def site_names_def split: option.splits dest!: map_of_SomeD)
  have "card ?K \<le> length index + sum_list (map (\<lambda>(_, n). length (sn_Upstreams n)) index)"
  proof -
    have "?K = set (map fst index @ concat (map (\<lambda>(_, n). sn_Upstreams n) index))"
      by (auto simp: site_names_def)
    then have "card ?K \<le> length (map fst index @ concat (map (\<lambda>(_, n). sn_Upstreams n) index))"
      by (metis card_length)
    then show ?thesis by (simp add: length_concat comp_def case_prod_unfold)
  qed
  then have "card (?K - set (fst ([], []))) < ?n" by simp
  moreover have "set (sort (map fst index)) \<subseteq> ?K" by (auto simp: site_names_def)
  ultimately obtain st where st: "visit_sites ?n index (sort (map fst index)) ([], []) = Some st"
    using visit_returns(2) [OF fin ups] by blast
  from visit_grows(2) [OF st] visit_out(2) [OF st] show ?thesis
    unfolding TopologicalSiteOrder_def st by (intro exI [of _ "snd st"]) auto
qed

section \<open>The root causes\<close>

definition expands :: "(string \<Rightarrow> bool) \<Rightarrow> (string \<Rightarrow> site_node option) \<Rightarrow> string \<Rightarrow> site_node \<Rightarrow> bool" where
  "expands down nodes i node \<longleftrightarrow> nodes i = Some node \<and> down i \<and> filter down (sn_Upstreams node) \<noteq> []"

definition root_site :: "(string \<Rightarrow> bool) \<Rightarrow> (string \<Rightarrow> site_node option) \<Rightarrow> string \<Rightarrow> bool" where
  "root_site down nodes i \<longleftrightarrow> (\<exists>node. nodes i = Some node \<and> down i \<and> (\<forall>u \<in> set (sn_Upstreams node). \<not> down u))"

definition down_edges :: "(string \<Rightarrow> bool) \<Rightarrow> (string \<Rightarrow> site_node option) \<Rightarrow> (string \<times> string) set" where
  "down_edges down nodes = {(u, i). \<exists>node. nodes i = Some node \<and> down i \<and> u \<in> set (sn_Upstreams node) \<and> down u}"

lemma edges_expand: "expands down nodes i node \<Longrightarrow> (u, i) \<in> down_edges down nodes \<longleftrightarrow> u \<in> set (filter down (sn_Upstreams node))"
  by (auto simp: expands_def down_edges_def)

lemma no_edges: "(\<And>node. \<not> expands down nodes i node) \<Longrightarrow> (u, i) \<notin> down_edges down nodes"
  by (auto simp: expands_def down_edges_def filter_empty_conv)

lemma root_not_expands: "root_site down nodes i \<Longrightarrow> \<not> expands down nodes i node"
  by (auto simp: root_site_def expands_def filter_empty_conv)

definition stop_site :: "(string \<Rightarrow> bool) \<Rightarrow> (string \<Rightarrow> site_node option) \<Rightarrow> string \<Rightarrow> string list \<Rightarrow> string list" where
  "stop_site down nodes i out = (if i \<notin> set out \<and> root_site down nodes i then out @ [i] else out)"

lemma walk_sites_Nil [simp]: "walk_sites down nodes [] out = Some out"
  by (simp add: walk_sites.simps [of down nodes "[]"])

lemma walk_sites_step:
  "walk_sites down nodes (i # rest) out =
     Option.bind (if i \<notin> set out \<and> (\<exists>node. expands down nodes i node)
        then walk_sites down nodes (filter down (sn_Upstreams (the (nodes i)))) out
        else Some (stop_site down nodes i out)) (walk_sites down nodes rest)"
  by (subst walk_sites.simps)
     (auto simp: expands_def stop_site_def root_site_def filter_empty_conv split: option.splits)

text \<open>The runs from roots only: the names put out so far are roots.\<close>

lemma walk_sites_induct:
  assumes "walk_sites down nodes names out = Some r" and "\<forall>x \<in> set out. root_site down nodes x"
    and "\<And>out. P [] out out"
    and "\<And>i rest out r. (\<And>node. \<not> expands down nodes i node) \<Longrightarrow> P rest (stop_site down nodes i out) r \<Longrightarrow> P (i # rest) out r"
    and "\<And>i node rest out out' r. expands down nodes i node \<Longrightarrow> P (filter down (sn_Upstreams node)) out out' \<Longrightarrow>
       P rest out' r \<Longrightarrow> P (i # rest) out r"
  shows "P names out r"
proof -
  let ?goal = "\<lambda>names out r. (\<forall>x \<in> set out. root_site down nodes x) \<longrightarrow> P names out r \<and> (\<forall>x \<in> set r. root_site down nodes x)"
  have "d = down \<longrightarrow> n = nodes \<longrightarrow> ?goal names out r" if w: "walk_sites d n names out = Some r" for d n
    using w
  proof (rule walk_sites.raw_induct [where P = "\<lambda>d n names out r. d = down \<longrightarrow> n = nodes \<longrightarrow> ?goal names out r", rotated], intro impI)
    fix f d n names out r
    assume IH: "\<And>d n names out r. f d n names out = Some r \<Longrightarrow> d = down \<longrightarrow> n = nodes \<longrightarrow> ?goal names out r"
    assume body: "(case names of [] \<Rightarrow> Some out
        | name # rest \<Rightarrow> Option.bind
            (if name \<in> set out then Some out
             else (case n name of None \<Rightarrow> Some out
               | Some node \<Rightarrow> if \<not> d name then Some out
                   else if filter d (sn_Upstreams node) = [] then Some (out @ [name])
                   else f d n (filter d (sn_Upstreams node)) out))
            (\<lambda>out'. f d n rest out')) = Some r"
    assume d: "d = down" "n = nodes" and roots: "\<forall>x \<in> set out. root_site down nodes x"
    show "P names out r \<and> (\<forall>x \<in> set r. root_site down nodes x)"
    proof (cases names)
      case Nil
      with body assms(3) roots show ?thesis by simp
    next
      case (Cons i rest)
      then obtain out' where
        at: "(if i \<in> set out then Some out
             else (case nodes i of None \<Rightarrow> Some out
               | Some node \<Rightarrow> if \<not> down i then Some out
                   else if filter down (sn_Upstreams node) = [] then Some (out @ [i])
                   else f down nodes (filter down (sn_Upstreams node)) out)) = Some out'"
        and rest: "f down nodes rest out' = Some r"
        using body d by (auto simp: bind_eq_Some_conv)
      show ?thesis
      proof (cases "\<exists>node. expands down nodes i node")
        case True
        then obtain node where node: "expands down nodes i node" by blast
        then have "i \<notin> set out" using roots root_not_expands by blast
        then have "f down nodes (filter down (sn_Upstreams node)) out = Some out'"
          using at node by (simp add: expands_def)
        from IH [OF this] IH [OF rest] roots assms(5) [OF node] show ?thesis unfolding Cons by blast
      next
        case False
        then have out': "out' = stop_site down nodes i out"
          using at by (auto simp: expands_def stop_site_def root_site_def filter_empty_conv split: option.splits if_splits)
        have "\<forall>x \<in> set out'. root_site down nodes x" using roots by (auto simp: out' stop_site_def)
        with IH [OF rest] assms(4) [of i rest out r] False show ?thesis unfolding Cons out' by blast
      qed
    qed
  qed
  with assms(1,2) show ?thesis by blast
qed

lemma walk_sites_returns:
  "set names \<subseteq> Wellfounded.acc (down_edges down nodes) \<Longrightarrow> \<exists>r. walk_sites down nodes names out = Some r"
proof -
  have list: "(\<And>i out. i \<in> set names \<Longrightarrow> \<exists>r. walk_sites down nodes [i] out = Some r) \<Longrightarrow> \<exists>r. walk_sites down nodes names out = Some r"
    for names out
  proof (induction names arbitrary: out)
    case (Cons i names)
    obtain r where r: "walk_sites down nodes [i] out = Some r" using Cons.prems [of i out] by auto
    have "\<exists>r'. walk_sites down nodes names r = Some r'" by (rule Cons.IH) (use Cons.prems in auto)
    with r show ?case by (auto simp: walk_sites_step [of down nodes i names] walk_sites_step [of down nodes i "[]"]
        bind_eq_Some_conv)
  qed simp
  have one: "i \<in> Wellfounded.acc (down_edges down nodes) \<Longrightarrow> \<exists>r. walk_sites down nodes [i] out = Some r" for i out
  proof (induction arbitrary: out rule: acc.induct)
    case (accI i)
    show ?case
    proof (cases "i \<notin> set out \<and> (\<exists>node. expands down nodes i node)")
      case True
      then obtain node where node: "expands down nodes i node" by blast
      have "\<exists>r. walk_sites down nodes (filter down (sn_Upstreams node)) out = Some r"
        by (rule list) (use accI edges_expand [OF node] in blast)
      then obtain r where r: "walk_sites down nodes (filter down (sn_Upstreams node)) out = Some r" by blast
      have n: "the (nodes i) = node" using node by (simp add: expands_def)
      have eq: "walk_sites down nodes [i] out =
          Option.bind (walk_sites down nodes (filter down (sn_Upstreams node)) out) (walk_sites down nodes [])"
        unfolding walk_sites_step [of down nodes i "[]" out] if_P [OF True] n by (rule refl)
      show ?thesis unfolding eq r by simp
    next
      case False
      then show ?thesis unfolding walk_sites_step [of down nodes i "[]" out] if_not_P [OF False] by simp
    qed
  qed
  assume a: "set names \<subseteq> Wellfounded.acc (down_edges down nodes)"
  show ?thesis by (rule list, rule one, rule subsetD [OF a])
qed

lemma walk_sites_acc:
  assumes "walk_sites down nodes names [] = Some r"
  shows "set names \<subseteq> Wellfounded.acc (down_edges down nodes)"
proof (rule walk_sites_induct [where P = "\<lambda>names out r. set names \<subseteq> Wellfounded.acc (down_edges down nodes)", OF assms])
  fix i rest and out r :: "string list"
  assume stop: "\<And>node. \<not> expands down nodes i node" and rest: "set rest \<subseteq> Wellfounded.acc (down_edges down nodes)"
  have "i \<in> Wellfounded.acc (down_edges down nodes)" by (rule accI) (use no_edges [OF stop] in blast)
  with rest show "set (i # rest) \<subseteq> Wellfounded.acc (down_edges down nodes)" by simp
next
  fix i node rest and out out' r :: "string list"
  assume ex: "expands down nodes i node" and rest: "set rest \<subseteq> Wellfounded.acc (down_edges down nodes)"
    and ups: "set (filter down (sn_Upstreams node)) \<subseteq> Wellfounded.acc (down_edges down nodes)"
  have "i \<in> Wellfounded.acc (down_edges down nodes)"
    by (rule accI) (use edges_expand [OF ex] ups in blast)
  with rest show "set (i # rest) \<subseteq> Wellfounded.acc (down_edges down nodes)" by simp
qed simp_all

lemma reach_root:
  "(\<And>node. \<not> expands down nodes i node) \<Longrightarrow>
   {c. root_site down nodes c \<and> (c, i) \<in> (down_edges down nodes)\<^sup>*} = (if root_site down nodes i then {i} else {})"
  using no_edges [of down nodes i] by (auto elim: rtranclE)

lemma reach_expand:
  "expands down nodes i node \<Longrightarrow>
   {c. root_site down nodes c \<and> (c, i) \<in> (down_edges down nodes)\<^sup>*} =
   {c. root_site down nodes c \<and> (\<exists>u \<in> set (filter down (sn_Upstreams node)). (c, u) \<in> (down_edges down nodes)\<^sup>*)}"
proof -
  assume ex: "expands down nodes i node"
  have "(c, i) \<in> (down_edges down nodes)\<^sup>* \<longleftrightarrow>
      (\<exists>u \<in> set (filter down (sn_Upstreams node)). (c, u) \<in> (down_edges down nodes)\<^sup>*)"
    if "root_site down nodes c" for c
  proof
    assume "(c, i) \<in> (down_edges down nodes)\<^sup>*"
    then show "\<exists>u \<in> set (filter down (sn_Upstreams node)). (c, u) \<in> (down_edges down nodes)\<^sup>*"
    proof (cases rule: rtranclE)
      case base
      with root_not_expands [OF that] ex show ?thesis by blast
    next
      case (step u)
      with edges_expand [OF ex] show ?thesis by blast
    qed
  next
    assume "\<exists>u \<in> set (filter down (sn_Upstreams node)). (c, u) \<in> (down_edges down nodes)\<^sup>*"
    then show "(c, i) \<in> (down_edges down nodes)\<^sup>*"
      using edges_expand [OF ex] by (meson rtrancl_into_rtrancl)
  qed
  then show ?thesis by blast
qed

lemma walk_sites_result:
  assumes "walk_sites down nodes names [] = Some r"
  shows "set r = {c. root_site down nodes c \<and> (\<exists>i \<in> set names. (c, i) \<in> (down_edges down nodes)\<^sup>*)} \<and> distinct r"
proof -
  let ?P = "\<lambda>names out r. set r = set out \<union> {c. root_site down nodes c \<and> (\<exists>i \<in> set names. (c, i) \<in> (down_edges down nodes)\<^sup>*)}
     \<and> (distinct out \<longrightarrow> distinct r)"
  have "?P names [] r"
  proof (rule walk_sites_induct [where P = ?P, OF assms])
    fix i rest out r
    assume stop: "\<And>node. \<not> expands down nodes i node" and rest: "?P rest (stop_site down nodes i out) r"
    have "set (stop_site down nodes i out) = set out \<union> {c. root_site down nodes c \<and> (c, i) \<in> (down_edges down nodes)\<^sup>*}"
      unfolding reach_root [OF stop] by (auto simp: stop_site_def)
    moreover have "distinct out \<longrightarrow> distinct (stop_site down nodes i out)" by (simp add: stop_site_def)
    ultimately show "?P (i # rest) out r" using rest by auto
  next
    fix i node rest out out' r
    assume ex: "expands down nodes i node" and ups: "?P (filter down (sn_Upstreams node)) out out'" and rest: "?P rest out' r"
    have "set r = set out \<union> {c. root_site down nodes c \<and> (c, i) \<in> (down_edges down nodes)\<^sup>*} \<union>
        {c. root_site down nodes c \<and> (\<exists>i \<in> set rest. (c, i) \<in> (down_edges down nodes)\<^sup>*)}"
      unfolding reach_expand [OF ex] using ups rest by auto
    with ups rest show "?P (i # rest) out r" by auto
  qed simp_all
  then show ?thesis by simp
qed

section \<open>The evaluation of the sites\<close>

abbreviation completed :: "site_index \<Rightarrow> site_index" where
  "completed index \<equiv> CompleteMissingSiteUpstreams index"

abbreviation down_graph :: "site_index \<Rightarrow> raw_index \<Rightarrow> (string \<times> string) set" where
  "down_graph index raw \<equiv> down_edges (site_down raw index) (map_of index)"

lemma keys_completed: "map fst (completed index) = map fst index"
  by (simp add: CompleteMissingSiteUpstreams_def case_prod_unfold)

lemma finite_down_graph: "finite (down_graph index raw)"
proof -
  have "down_graph index raw \<subseteq> (\<Union>(i, n) \<in> set index. (\<lambda>u. (u, i)) ` set (sn_Upstreams n))"
    by (fastforce simp: down_edges_def dest: map_of_SomeD)
  then show ?thesis by (rule finite_subset) auto
qed

lemma states_of_map:
  "(\<And>n. n \<in> set names \<Longrightarrow> site_state_of index raw n \<noteq> None) \<Longrightarrow>
   states_of index raw names = Some (map (\<lambda>n. (n, the (site_state_of index raw n))) names)"
proof (induction names)
  case (Cons a names)
  obtain s where "site_state_of index raw a = Some s" using Cons.prems [of a] by auto
  moreover have "states_of index raw names = Some (map (\<lambda>n. (n, the (site_state_of index raw n))) names)"
    by (rule Cons.IH) (use Cons.prems in simp)
  ultimately show ?case by simp
qed simp

lemma site_state_returns:
  assumes "acyclic (down_graph index raw)"
  shows "site_state_of index raw name \<noteq> None"
proof -
  have "wf (down_graph index raw)" by (rule finite_acyclic_wf [OF finite_down_graph assms])
  then have "set names \<subseteq> Wellfounded.acc (down_graph index raw)" for names by (simp add: wf_iff_acc subset_iff)
  then have "collectRootCauseSites names raw index \<noteq> None" for names
    using walk_sites_returns [of names "site_down raw index" "map_of index" "[]"]
    by (auto simp: collectRootCauseSites_def)
  then show ?thesis by (simp add: site_state_of_def Let_def)
qed

lemma length_filter_all: "length (filter P xs) = length xs \<longleftrightarrow> (\<forall>x \<in> set xs. P x)"
proof -
  have "length (filter P xs) < length xs" if "\<exists>x \<in> set xs. \<not> P x" using that by (auto intro: length_filter_less)
  then show ?thesis by (metis filter_True less_irrefl)
qed

text \<open>C28: when the unavailable sites have no dependency cycle, the evaluation returns; a site is
  impacted exactly when it has upstreams, all of them are unavailable and most of its own devices
  failed, and then its root causes are the unavailable sites without an unavailable upstream that it
  reaches through unavailable upstreams.\<close>

theorem sites_evaluated:
  assumes "acyclic (down_graph (completed index) raw)"
  shows "\<exists>states. EvaluateSiteTopology index raw = Some states \<and>
    (\<forall>name \<in> set (map fst index). \<exists>s. map_of states name = Some s
      \<and> ss_UpstreamSiteIDs s = sn_Upstreams (node_at (completed index) name)
      \<and> ss_UnavailableUpstreamSiteIDs s = sort (filter (site_down raw (completed index)) (ss_UpstreamSiteIDs s))
      \<and> (ss_Impacted s \<longleftrightarrow> ss_UpstreamSiteIDs s \<noteq> [] \<and> (\<forall>u \<in> set (ss_UpstreamSiteIDs s). site_down raw (completed index) u)
            \<and> siteShowsCascadeSignature (raw_at raw name))
      \<and> (ss_Impacted s \<longrightarrow> sorted (ss_RootCauseSiteIDs s) \<and> set (ss_RootCauseSiteIDs s) =
            {c. root_site (site_down raw (completed index)) (map_of (completed index)) c
                \<and> (\<exists>u \<in> set (ss_UpstreamSiteIDs s). (c, u) \<in> (down_graph (completed index) raw)\<^sup>*)}))"
proof -
  let ?index = "completed index" and ?down = "site_down raw (completed index)"
  obtain order where order: "TopologicalSiteOrder ?index = Some order" "distinct order" "set (map fst ?index) \<subseteq> set order"
    using site_order by blast
  let ?states = "map (\<lambda>n. (n, the (site_state_of ?index raw n))) order"
  have ev: "EvaluateSiteTopology index raw = Some ?states"
    using states_of_map [of order ?index raw] site_state_returns [OF assms]
    by (simp add: EvaluateSiteTopology_def Let_def order(1))
  have "\<exists>s. map_of ?states name = Some s
      \<and> ss_UpstreamSiteIDs s = sn_Upstreams (node_at ?index name)
      \<and> ss_UnavailableUpstreamSiteIDs s = sort (filter ?down (ss_UpstreamSiteIDs s))
      \<and> (ss_Impacted s \<longleftrightarrow> ss_UpstreamSiteIDs s \<noteq> [] \<and> (\<forall>u \<in> set (ss_UpstreamSiteIDs s). ?down u)
            \<and> siteShowsCascadeSignature (raw_at raw name))
      \<and> (ss_Impacted s \<longrightarrow> sorted (ss_RootCauseSiteIDs s) \<and> set (ss_RootCauseSiteIDs s) =
            {c. root_site ?down (map_of ?index) c
                \<and> (\<exists>u \<in> set (ss_UpstreamSiteIDs s). (c, u) \<in> (down_graph ?index raw)\<^sup>*)})"
    if name: "name \<in> set (map fst index)" for name
  proof -
    let ?ups = "sn_Upstreams (node_at ?index name)"
    have "name \<in> set order" using name order(3) by (simp only: keys_completed) blast
    then have m: "map_of ?states name = Some (the (site_state_of ?index raw name))"
      by (simp add: map_of_map_restrict)
    obtain s where s: "site_state_of ?index raw name = Some s" using site_state_returns [OF assms] by fastforce
    show ?thesis
    proof (cases "?ups \<noteq> [] \<and> (\<forall>u \<in> set ?ups. ?down u) \<and> siteShowsCascadeSignature (raw_at raw name)")
      case True
      have all: "filter ?down ?ups = ?ups" using True by simp
      obtain roots where roots: "collectRootCauseSites (sort ?ups) raw ?index = Some roots"
        and s': "s = \<lparr>ss_UpstreamSiteIDs = ?ups, ss_UnavailableUpstreamSiteIDs = sort ?ups, ss_RootCauseSiteIDs = roots, ss_Impacted = True\<rparr>"
        using s True all by (auto simp: site_state_of_def Let_def)
      obtain r where r: "walk_sites ?down (map_of ?index) (sort ?ups) [] = Some r" "roots = sort r"
        using roots by (auto simp: collectRootCauseSites_def)
      from walk_sites_result [OF r(1)] r(2) m s s' True all show ?thesis by simp
    next
      case False
      then have "s = \<lparr>ss_UpstreamSiteIDs = ?ups, ss_UnavailableUpstreamSiteIDs = sort (filter ?down ?ups), ss_RootCauseSiteIDs = [], ss_Impacted = False\<rparr>"
        using s by (auto simp: site_state_of_def Let_def length_filter_all split: if_splits)
      with m s False show ?thesis by simp
    qed
  qed
  with ev show ?thesis by blast
qed

definition broken_site :: site_raw where
  "broken_site = \<lparr>rw_Devices = [\<lparr>sd_InventoryDeviceID = ''d'', sd_Projection =
      ProjectDeviceStatus ''critical'' True ''direct_unreachable'' 3 None None None False True\<rparr>],
     rw_Counts = zero_counts\<lparr>sc_CriticalCount := 1\<rparr>\<rparr>"

definition site :: "string \<Rightarrow> string list \<Rightarrow> string \<times> site_node" where
  "site name us = (name, \<lparr>sn_Name = name, sn_Upstreams = us, sn_Hubs = []\<rparr>)"

definition two_sites :: site_index where
  "two_sites = [site ''hq-core'' [], site ''hq-mdf'' []]"

lemma sites_evaluated_witness:
  "\<exists>states. EvaluateSiteTopology two_sites [(''hq-core'', broken_site), (''hq-mdf'', broken_site)] = Some states"
proof -
  have c: "completed two_sites = [site ''hq-core'' [], site ''hq-mdf'' [''hq-core'']]" by code_simp
  have "down_graph (completed two_sites) raw \<subseteq> {(''hq-core'', ''hq-mdf'')}" for raw
    unfolding c by (auto simp: down_edges_def site_def split: if_splits)
  then have "acyclic (down_graph (completed two_sites) raw)" for raw
    by (rule acyclic_subset [rotated]) (auto simp: acyclic_def trancl_insert dest: tranclD)
  from sites_evaluated [OF this] show ?thesis by blast
qed

text \<open>The completion of the missing upstreams keeps every edge an operator defined, changes no other
  field, and adds only names of sites.\<close>

theorem completion_keeps_edges:
  "map fst (completed index) = map fst index
   \<and> (\<forall>i < length index. sn_Upstreams (snd (index ! i)) \<noteq> [] \<longrightarrow> completed index ! i = index ! i)
   \<and> (\<forall>i < length index. sn_Hubs (snd (completed index ! i)) = sn_Hubs (snd (index ! i)))
   \<and> (\<forall>i < length index. sn_Upstreams (snd (index ! i)) = [] \<longrightarrow>
        set (sn_Upstreams (snd (completed index ! i))) \<subseteq> set (map fst index))"
proof -
  have core: "core_id index \<noteq> [] \<Longrightarrow> core_id index \<in> set (map fst index)"
  proof (cases "find (\<lambda>(name, _). name \<noteq> [] \<and> is_core (to_lower name)) index")
    case (Some p)
    then have "p \<in> set index" by (metis find_Some_iff nth_mem)
    with Some show ?thesis by (cases p) (auto simp: core_id_def intro: rev_image_eqI)
  qed (simp add: core_id_def)
  have low: "map_of (fold (\<lambda>(name, _) m. AList.update (to_lower name) name m) xs m) k = Some n \<Longrightarrow>
      n \<in> set (map fst xs) \<or> map_of m k = Some n" for xs :: site_index and m k n
  proof (induction xs arbitrary: m)
    case (Cons x xs)
    then show ?case by (cases x) (fastforce simp: go_simps split: if_splits)
  qed simp
  have mdf: "matchingMDFSiteID lower (by_lower index) \<noteq> [] \<Longrightarrow> matchingMDFSiteID lower (by_lower index) \<in> set (map fst index)" for lower
    using low [of index "[]"] by (auto simp: matchingMDFSiteID_def by_lower_def split: option.splits if_splits)
  have "set (completed_ups index name node) \<subseteq> set (map fst index)" if "sn_Upstreams node = []" for name node
    using that core mdf by (auto simp: completed_ups_def Let_def)
  then show ?thesis
    unfolding keys_completed
    by (auto simp: CompleteMissingSiteUpstreams_def case_prod_unfold completed_ups_def Let_def prod_eq_iff)
qed

lemma completion_keeps_edges_witness:
  "set (sn_Upstreams (snd (completed two_sites ! 1))) \<subseteq> {''hq-core'', ''hq-mdf''}"
  using completion_keeps_edges [of two_sites] by (simp add: two_sites_def site_def)

definition core_behind_mdf :: site_index where
  "core_behind_mdf = [site ''hq-core'' [''hq-mdf''], site ''hq-mdf'' []]"

text \<open>C40: the completion can close a cycle that the operator's edges do not have, and with all its sites
  unavailable the search for root causes then recurses without end: a core site put behind its MDF.\<close>

theorem completion_diverges:
  "acyclic (down_graph core_behind_mdf [(''hq-core'', broken_site), (''hq-mdf'', broken_site)])
   \<and> EvaluateSiteTopology core_behind_mdf [(''hq-core'', broken_site), (''hq-mdf'', broken_site)] = None"
proof
  let ?raw = "[(''hq-core'', broken_site), (''hq-mdf'', broken_site)]"
  have "down_graph core_behind_mdf ?raw \<subseteq> {(''hq-mdf'', ''hq-core'')}"
    by (auto simp: down_edges_def core_behind_mdf_def site_def split: if_splits)
  then show "acyclic (down_graph core_behind_mdf ?raw)"
    by (rule acyclic_subset [rotated]) (auto simp: acyclic_def trancl_insert dest: tranclD)
  let ?index = "completed core_behind_mdf"
  have c: "?index = [site ''hq-core'' [''hq-mdf''], site ''hq-mdf'' [''hq-core'']]" by code_simp
  have d: "site_down ?raw ?index ''hq-core''" "site_down ?raw ?index ''hq-mdf''" by code_simp+
  have o: "TopologicalSiteOrder ?index = Some [''hq-mdf'', ''hq-core'']" by code_simp
  have "(''hq-core'', ''hq-mdf'') \<in> down_graph ?index ?raw" "(''hq-mdf'', ''hq-core'') \<in> down_graph ?index ?raw"
    using d unfolding down_edges_def by (auto simp: c site_def)
  then have "(''hq-core'', ''hq-core'') \<in> (down_graph ?index ?raw)\<^sup>+" by (meson trancl.intros)
  then have "\<not> set [''hq-core''] \<subseteq> Wellfounded.acc (down_graph ?index ?raw)" using acc_no_cycle by fastforce
  then have "walk_sites (site_down ?raw ?index) (map_of ?index) [''hq-core''] [] = None"
    using walk_sites_acc by (metis not_Some_eq)
  then have "collectRootCauseSites [''hq-core''] ?raw ?index = None" by (simp add: collectRootCauseSites_def)
  moreover have "sn_Upstreams (node_at ?index ''hq-mdf'') = [''hq-core'']" "siteShowsCascadeSignature (raw_at ?raw ''hq-mdf'')"
    by code_simp+
  ultimately have "site_state_of ?index ?raw ''hq-mdf'' = None" using d by (simp add: site_state_of_def Let_def)
  with o show "EvaluateSiteTopology core_behind_mdf ?raw = None" by (simp add: EvaluateSiteTopology_def Let_def)
qed

end
