(* ===== verification/Polling.thy ===== *)
theory Polling
  imports Config "HOL-Library.Word"
begin

text \<open>
  Two stages of a poll: the interface filter (\<open>internal/snmp/filter/filter.go\<close>) with the result it
  annotates (\<open>internal/snmp/readings/readings.go\<close>), and the choice of the vendor profile
  (\<open>internal/snmp/profile/profile.go\<close>).

  \<open>regexp.Compile\<close> is an argument: it gives the matcher of a pattern or fails.
\<close>

section \<open>The interface filter\<close>

record interface_reading =
  if_IfIndex :: int
  if_IfDescr :: string
  if_IfName :: string
  if_IfAlias :: string
  if_IfType :: int
  if_IfTypeName :: string
  if_SpeedBPS :: "64 word"
  if_AdminStatus :: string
  if_OperStatus :: string
  if_LastChangeSeconds :: f64
  if_InOctets :: "64 word"
  if_OutOctets :: "64 word"
  if_InErrors :: "64 word"
  if_OutErrors :: "64 word"
  if_HasCounters :: bool

datatype selection = SelectionNone | Selected | ExcludedDefault | ExcludedRule

record interface_result =
  ir_Reading :: interface_reading
  ir_Selection :: selection
  ir_FilterReason :: string
  ir_RuleID :: string

record filter_summary =
  fs_Selected :: int
  fs_ExcludedDefault :: int
  fs_ExcludedRule :: int

type_synonym regex = "string \<Rightarrow> bool"

record compiled_rule =
  co_action :: string
  co_id :: string
  co_ifIndex :: "int option"
  co_name :: "regex option"
  co_alias :: "regex option"
  co_ifType :: string
  co_adminStatus :: string
  co_operStatus :: string

record if_filter =
  fl_includes :: "compiled_rule list"
  fl_excludes :: "compiled_rule list"

definition defaultExcludedTypes :: "string list" where
  "defaultExcludedTypes = [''softwareloopback'', ''l2vlan'', ''propvirtual'', ''tunnel'', ''bridge'']"

definition normalizeType :: "string \<Rightarrow> string" where
  "normalizeType v = to_lower (trim_space v)"

definition no_rule :: "string \<Rightarrow> string \<Rightarrow> compiled_rule" where
  "no_rule action ruleID = \<lparr>co_action = action, co_id = ruleID, co_ifIndex = None, co_name = None,
     co_alias = None, co_ifType = [], co_adminStatus = [], co_operStatus = []\<rparr>"

definition rule_id :: "string \<Rightarrow> nat \<Rightarrow> string" where
  "rule_id field i = field @ ''['' @ itoa (int i) @ '']''"

definition regexRule :: "(string \<Rightarrow> regex option) \<Rightarrow> string \<Rightarrow> string \<Rightarrow> string \<Rightarrow> bool
    \<Rightarrow> string + compiled_rule" where
  "regexRule compile action ruleID pattern alias =
     (case compile pattern of
        None \<Rightarrow> Inl ruleID
      | Some re \<Rightarrow> Inr (if alias then (no_rule action ruleID)\<lparr>co_alias := Some re\<rparr>
          else (no_rule action ruleID)\<lparr>co_name := Some re\<rparr>))"

definition compileRule :: "(string \<Rightarrow> regex option) \<Rightarrow> filter_rule \<Rightarrow> string \<Rightarrow> string + compiled_rule" where
  "compileRule compile rule ruleID =
     (let compiled = (no_rule (fr_Action rule) ruleID)\<lparr>co_ifIndex := fr_IfIndex rule,
            co_ifType := normalizeType (fr_IfType rule), co_adminStatus := to_lower (fr_AdminStatus rule),
            co_operStatus := to_lower (fr_OperStatus rule)\<rparr> in
      if fr_NameRegex rule \<noteq> [] \<and> compile (fr_NameRegex rule) = None then Inl (ruleID @ ''.name_regex'')
      else if fr_AliasRegex rule \<noteq> [] \<and> compile (fr_AliasRegex rule) = None then Inl (ruleID @ ''.alias_regex'')
      else Inr (compiled\<lparr>
        co_name := (if fr_NameRegex rule \<noteq> [] then compile (fr_NameRegex rule) else None),
        co_alias := (if fr_AliasRegex rule \<noteq> [] then compile (fr_AliasRegex rule) else None)\<rparr>))"

text \<open>The rules of one list of the configuration, with their positions; the first error stops.\<close>

fun compile_all :: "(nat \<Rightarrow> 'a \<Rightarrow> string + compiled_rule) \<Rightarrow> nat \<Rightarrow> 'a list \<Rightarrow> string + compiled_rule list" where
  "compile_all f i [] = Inr []"
| "compile_all f i (x # xs) =
     (case f i x of
        Inl e \<Rightarrow> Inl e
      | Inr r \<Rightarrow> (case compile_all f (Suc i) xs of Inl e \<Rightarrow> Inl e | Inr rs \<Rightarrow> Inr (r # rs)))"

fun chain_rules :: "(string + compiled_rule list) list \<Rightarrow> string + compiled_rule list" where
  "chain_rules [] = Inr []"
| "chain_rules (Inl e # cs) = Inl e"
| "chain_rules (Inr rs # cs) = (case chain_rules cs of Inl e \<Rightarrow> Inl e | Inr rs' \<Rightarrow> Inr (rs @ rs'))"

definition simple_lists :: "(string \<Rightarrow> regex option) \<Rightarrow> string \<Rightarrow> int list \<Rightarrow> string list \<Rightarrow> string list
    \<Rightarrow> string list \<Rightarrow> string list \<Rightarrow> string list \<Rightarrow> (string + compiled_rule list) list" where
  "simple_lists compile action indexes names aliases types admins opers =
     [compile_all (\<lambda>i v. Inr ((no_rule action (rule_id (action @ ''_if_indexes'') i))\<lparr>co_ifIndex := Some v\<rparr>)) 0 indexes,
      compile_all (\<lambda>i p. regexRule compile action (rule_id (action @ ''_name_regex'') i) p False) 0 names,
      compile_all (\<lambda>i p. regexRule compile action (rule_id (action @ ''_alias_regex'') i) p True) 0 aliases,
      compile_all (\<lambda>i v. Inr ((no_rule action (rule_id (action @ ''_types'') i))\<lparr>co_ifType := normalizeType v\<rparr>)) 0 types,
      compile_all (\<lambda>i v. Inr ((no_rule action (rule_id (action @ ''_admin_statuses'') i))\<lparr>co_adminStatus := to_lower v\<rparr>)) 0 admins,
      compile_all (\<lambda>i v. Inr ((no_rule action (rule_id (action @ ''_oper_statuses'') i))\<lparr>co_operStatus := to_lower v\<rparr>)) 0 opers]"

definition NewFilter :: "(string \<Rightarrow> regex option) \<Rightarrow> filter_config \<Rightarrow> string + if_filter" where
  "NewFilter compile cfg =
     (case chain_rules
        (simple_lists compile ''include'' (fc_IncludeIfIndexes cfg) (fc_IncludeNameRegex cfg)
            (fc_IncludeAliasRegex cfg) (fc_IncludeTypes cfg) (fc_IncludeAdminStatuses cfg) (fc_IncludeOperStatuses cfg)
         @ [compile_all (\<lambda>i r. compileRule compile r (rule_id ''rules'' i)) 0 (fc_Rules cfg)]
         @ simple_lists compile ''exclude'' (fc_ExcludeIfIndexes cfg) (fc_ExcludeNameRegex cfg)
            (fc_ExcludeAliasRegex cfg) (fc_ExcludeTypes cfg) (fc_ExcludeAdminStatuses cfg) (fc_ExcludeOperStatuses cfg)) of
        Inl e \<Rightarrow> Inl e
      | Inr rules \<Rightarrow> Inr \<lparr>fl_includes = filter (\<lambda>r. co_action r = ''include'') rules,
            fl_excludes = filter (\<lambda>r. co_action r \<noteq> ''include'') rules\<rparr>)"

definition matches :: "compiled_rule \<Rightarrow> interface_reading \<Rightarrow> bool" where
  "matches r i =
     (if co_ifIndex r \<noteq> None \<and> Some (if_IfIndex i) \<noteq> co_ifIndex r then False
      else if (case co_name r of None \<Rightarrow> False | Some re \<Rightarrow> \<not> re (if_IfName i) \<and> \<not> re (if_IfDescr i)) then False
      else if (case co_alias r of None \<Rightarrow> False | Some re \<Rightarrow> \<not> re (if_IfAlias i)) then False
      else if co_ifType r \<noteq> [] \<and> normalizeType (if_IfTypeName i) \<noteq> co_ifType r \<and> itoa (if_IfType i) \<noteq> co_ifType r then False
      else if co_adminStatus r \<noteq> [] \<and> to_lower (if_AdminStatus i) \<noteq> co_adminStatus r then False
      else if co_operStatus r \<noteq> [] \<and> to_lower (if_OperStatus i) \<noteq> co_operStatus r then False
      else True)"

definition mark_rule :: "selection \<Rightarrow> string \<Rightarrow> compiled_rule \<Rightarrow> interface_result \<Rightarrow> interface_result" where
  "mark_rule sel why rule i =
     (if matches rule (ir_Reading i)
      then i\<lparr>ir_Selection := sel, ir_FilterReason := why, ir_RuleID := co_id rule\<rparr> else i)"

definition annotate :: "if_filter \<Rightarrow> interface_result \<Rightarrow> interface_result" where
  "annotate f i =
     (let i0 = i\<lparr>ir_Selection := Selected, ir_FilterReason := [], ir_RuleID := []\<rparr>;
          i1 = (if normalizeType (if_IfTypeName (ir_Reading i)) \<in> set defaultExcludedTypes
                then i0\<lparr>ir_Selection := ExcludedDefault, ir_FilterReason := ''default virtual interface type''\<rparr> else i0);
          i2 = fold (mark_rule Selected ''explicit include'') (fl_includes f) i1
      in fold (mark_rule ExcludedRule ''explicit exclude'') (fl_excludes f) i2)"

definition count_selection :: "interface_result \<Rightarrow> filter_summary \<Rightarrow> filter_summary" where
  "count_selection i s = (case ir_Selection i of
      Selected \<Rightarrow> s\<lparr>fs_Selected := fs_Selected s + 1\<rparr>
    | ExcludedDefault \<Rightarrow> s\<lparr>fs_ExcludedDefault := fs_ExcludedDefault s + 1\<rparr>
    | ExcludedRule \<Rightarrow> s\<lparr>fs_ExcludedRule := fs_ExcludedRule s + 1\<rparr>
    | SelectionNone \<Rightarrow> s)"

text \<open>\<open>Apply\<close> on the interfaces of a result: the annotated interfaces and the summary.\<close>

definition ApplyFilter :: "if_filter \<Rightarrow> interface_result list \<Rightarrow> interface_result list \<times> filter_summary" where
  "ApplyFilter f ifaces =
     (let out = map (annotate f) ifaces
      in (out, fold count_selection out \<lparr>fs_Selected = 0, fs_ExcludedDefault = 0, fs_ExcludedRule = 0\<rparr>))"

section \<open>Vendor profiles\<close>

record profile =
  pr_Name :: string
  pr_ExactObjectIDs :: "string list"
  pr_ObjectIDPrefixes :: "string list"
  pr_GenericVendorPrefix :: string

datatype match_kind = MatchExact | MatchPrefix | MatchGeneric | MatchCore

definition normalizeOID :: "string \<Rightarrow> string" where
  "normalizeOID oid = dropWhile (\<lambda>c. c = CHR ''.'') (trim_space oid)"

definition oidHasPrefix :: "string \<Rightarrow> string \<Rightarrow> bool" where
  "oidHasPrefix oid p \<longleftrightarrow> oid = p \<or> prefix (p @ ''.'') oid"

text \<open>The loops that keep the candidate with the longest prefix, the first one among equals.\<close>

definition better :: "string \<Rightarrow> profile \<Rightarrow> string \<Rightarrow> (profile \<times> nat) option \<Rightarrow> (profile \<times> nat) option" where
  "better oid candidate p best =
     (if oidHasPrefix oid p \<and> (case best of None \<Rightarrow> True | Some (_, n) \<Rightarrow> length p > n)
      then Some (candidate, length p) else best)"

definition longest_model :: "string \<Rightarrow> profile list \<Rightarrow> (profile \<times> nat) option" where
  "longest_model oid profiles = fold (\<lambda>c best. fold (\<lambda>p. better oid c (normalizeOID p)) (pr_ObjectIDPrefixes c) best) profiles None"

definition longest_vendor :: "string \<Rightarrow> profile list \<Rightarrow> (profile \<times> nat) option" where
  "longest_vendor oid profiles = fold (\<lambda>c best. let p = normalizeOID (pr_GenericVendorPrefix c) in
      if p \<noteq> [] then better oid c p best else best) profiles None"

definition Match :: "profile list \<Rightarrow> string \<Rightarrow> profile option \<times> match_kind" where
  "Match profiles sysObjectID =
     (let oid = normalizeOID sysObjectID in
      case find (\<lambda>c. oid \<in> set (map normalizeOID (pr_ExactObjectIDs c))) profiles of
        Some c \<Rightarrow> (Some c, MatchExact)
      | None \<Rightarrow> (case longest_model oid profiles of
            Some (c, _) \<Rightarrow> (Some c, MatchPrefix)
          | None \<Rightarrow> (case longest_vendor oid profiles of
                Some (c, _) \<Rightarrow> (Some c, MatchGeneric)
              | None \<Rightarrow> (None, MatchCore))))"

end
