(* ===== verification/Json.thy ===== *)
theory Json
  imports Prelude
begin

text \<open>
  The part of \<open>encoding/json\<close> the services use, on JSON values instead of texts.  A number keeps
  whether its literal is an integer (no point and no exponent): only such a literal decodes into a
  Go integer.

  Decoding into a struct goes through the members of the object in order: a member goes to the
  field of that name, or else to a field whose name differs in case only; a member without a field
  is an error for a strict decoder (\<open>DisallowUnknownFields\<close>) and is skipped otherwise.  \<open>null\<close>
  leaves a plain field alone and sets a pointer or a slice to \<open>nil\<close>.  Encoding fails on a float
  that is not finite, and replaces every byte of a string that is not part of a valid rune.
\<close>

datatype json = JNull | JBool bool | JNum bool rat | JStr string | JArr "json list"
  | JObj "(string \<times> json) list"

section \<open>Encoding\<close>

definition rune_len :: "nat list \<Rightarrow> nat option" where
  "rune_len s = (case s of
      [] \<Rightarrow> None
    | a # s1 \<Rightarrow>
      if a < 0x80 then Some 1
      else (case s1 of [] \<Rightarrow> None | b # s2 \<Rightarrow>
        if 0xC2 \<le> a \<and> a \<le> 0xDF then (if 0x80 \<le> b \<and> b \<le> 0xBF then Some 2 else None)
        else (case s2 of [] \<Rightarrow> None | c # s3 \<Rightarrow>
          if 0xE0 \<le> a \<and> a \<le> 0xEF
          then (if (if a = 0xE0 then 0xA0 else 0x80) \<le> b \<and> b \<le> (if a = 0xED then 0x9F else 0xBF)
                  \<and> 0x80 \<le> c \<and> c \<le> 0xBF then Some 3 else None)
          else (case s3 of [] \<Rightarrow> None | d # _ \<Rightarrow>
            if 0xF0 \<le> a \<and> a \<le> 0xF4
                 \<and> (if a = 0xF0 then 0x90 else 0x80) \<le> b \<and> b \<le> (if a = 0xF4 then 0x8F else 0xBF)
                 \<and> 0x80 \<le> c \<and> c \<le> 0xBF \<and> 0x80 \<le> d \<and> d \<le> 0xBF
            then Some 4 else None))))"

function coerce_utf8 :: "string \<Rightarrow> string" where
  "coerce_utf8 s =
     (if s = [] then []
      else (case rune_len (map of_char s) of
          Some n \<Rightarrow> take (Suc (n - 1)) s @ coerce_utf8 (drop (Suc (n - 1)) s)
        | None \<Rightarrow> [CHR 0xEF, CHR 0xBF, CHR 0xBD] @ coerce_utf8 (drop 1 s)))"
  by pat_completeness auto
termination by (relation "measure length") auto

declare coerce_utf8.simps [simp del]

definition is_ascii :: "string \<Rightarrow> bool" where
  "is_ascii s \<longleftrightarrow> list_all (\<lambda>c. (of_char c :: nat) < 0x80) s"

lemma coerce_Nil [simp]: "coerce_utf8 [] = []"
  by (simp add: coerce_utf8.simps)

lemma coerce_ascii: "is_ascii s \<Longrightarrow> coerce_utf8 s = s"
proof (induction s)
  case (Cons c s)
  then have "rune_len (map of_char (c # s)) = Some 1" by (simp add: rune_len_def is_ascii_def)
  with Cons show ?case by (simp add: coerce_utf8.simps [of "c # s"] is_ascii_def)
qed simp

text \<open>Only an ASCII text is encoded as itself when the result is ASCII.\<close>

lemma coerce_to_ascii: "is_ascii (coerce_utf8 s) \<Longrightarrow> coerce_utf8 s = s"
proof (induction s rule: coerce_utf8.induct)
  case (1 s)
  show ?case
  proof (cases s)
    case (Cons c s')
    show ?thesis
    proof (cases "rune_len (map of_char s)")
      case None
      with "1.prems" Cons show ?thesis by (simp add: coerce_utf8.simps [of "c # s'"] is_ascii_def)
    next
      case (Some n)
      with "1.prems" Cons have c: "(of_char c :: nat) < 0x80"
        by (simp add: coerce_utf8.simps [of "c # s'"] is_ascii_def)
      with Some Cons have n: "n = 1" by (simp add: rune_len_def)
      with "1.prems" Some Cons have "is_ascii (coerce_utf8 (drop (Suc (n - 1)) s))"
        by (simp add: coerce_utf8.simps [of "c # s'"] is_ascii_def)
      with "1.IH"(2) [OF _ Some] Cons have "coerce_utf8 (drop (Suc (n - 1)) s) = drop (Suc (n - 1)) s" by simp
      with Some Cons n show ?thesis by (simp add: coerce_utf8.simps [of "c # s'"])
    qed
  qed simp
qed

lemma coerce_eq_ascii: "is_ascii w \<Longrightarrow> coerce_utf8 s = w \<longleftrightarrow> s = w"
  using coerce_to_ascii [of s] by (auto simp: coerce_ascii)

lemma coerce_nonempty: "s \<noteq> [] \<Longrightarrow> coerce_utf8 s \<noteq> []"
  by (subst coerce_utf8.simps) (auto split: option.split)

definition j_str :: "string \<Rightarrow> json" where
  "j_str s = JStr (coerce_utf8 s)"

definition j_int :: "int \<Rightarrow> json" where
  "j_int i = JNum True (of_int i)"

text \<open>A float of at least \<open>10\<^sup>2\<^sup>1\<close> is written with an exponent.\<close>

definition int_literal :: "rat \<Rightarrow> bool" where
  "int_literal r \<longleftrightarrow> of_int \<lfloor>r\<rfloor> = r \<and> \<bar>r\<bar> < 10 ^ 21"

definition j_f64 :: "f64 \<Rightarrow> json option" where
  "j_f64 v = (case v of Fin r \<Rightarrow> Some (JNum (int_literal r) r) | _ \<Rightarrow> None)"

definition j_strings :: "string list \<Rightarrow> json" where
  "j_strings xs = JArr (map j_str xs)"

text \<open>The members of a struct: one whose value cannot be encoded fails the struct; one that
  \<open>omitempty\<close> omits is not in the list.\<close>

type_synonym members = "(string \<times> json option) list"

definition mk_obj :: "members \<Rightarrow> json option" where
  "mk_obj ms = (if list_all (\<lambda>(k, v). v \<noteq> None) ms
     then Some (JObj (map (\<lambda>(k, v). (k, the v)) ms)) else None)"

definition mk_arr :: "json option list \<Rightarrow> json option" where
  "mk_arr vs = (if list_all (\<lambda>v. v \<noteq> None) vs then Some (JArr (map the vs)) else None)"

definition omit_str :: "string \<Rightarrow> string \<Rightarrow> members" where
  "omit_str k s = (if s = [] then [] else [(k, Some (j_str s))])"

definition omit_nil :: "string \<Rightarrow> ('a \<Rightarrow> json option) \<Rightarrow> 'a option \<Rightarrow> members" where
  "omit_nil k f v = (case v of None \<Rightarrow> [] | Some x \<Rightarrow> [(k, f x)])"

section \<open>Decoding\<close>

type_synonym 's decoder = "json \<Rightarrow> 's \<Rightarrow> 's option"
type_synonym 's fields = "(string \<times> 's decoder) list"

definition find_field :: "'s fields \<Rightarrow> string \<Rightarrow> 's decoder option" where
  "find_field tbl k = (case map_of tbl k of
      Some f \<Rightarrow> Some f
    | None \<Rightarrow> map_option snd (find (\<lambda>(n, f). EqualFold n k) tbl))"

fun decode_members :: "bool \<Rightarrow> 's fields \<Rightarrow> (string \<times> json) list \<Rightarrow> 's \<Rightarrow> 's option" where
  "decode_members strict tbl [] s = Some s"
| "decode_members strict tbl ((k, v) # kvs) s =
     (case find_field tbl k of
        None \<Rightarrow> if strict then None else decode_members strict tbl kvs s
      | Some f \<Rightarrow> (case f v s of None \<Rightarrow> None | Some s' \<Rightarrow> decode_members strict tbl kvs s'))"

definition decode_struct :: "bool \<Rightarrow> 's fields \<Rightarrow> 's decoder" where
  "decode_struct strict tbl v s =
     (case v of JObj kvs \<Rightarrow> decode_members strict tbl kvs s | JNull \<Rightarrow> Some s | _ \<Rightarrow> None)"

definition str_field :: "(string \<Rightarrow> 's \<Rightarrow> 's) \<Rightarrow> 's decoder" where
  "str_field upd v s = (case v of JStr x \<Rightarrow> Some (upd x s) | JNull \<Rightarrow> Some s | _ \<Rightarrow> None)"

definition ptr_field :: "(json \<Rightarrow> 'a option) \<Rightarrow> ('a option \<Rightarrow> 's \<Rightarrow> 's) \<Rightarrow> 's decoder" where
  "ptr_field dec upd v s =
     (if v = JNull then Some (upd None s) else map_option (\<lambda>x. upd (Some x) s) (dec v))"

definition raw_field :: "(json \<Rightarrow> 's \<Rightarrow> 's) \<Rightarrow> 's decoder" where
  "raw_field upd v s = Some (upd v s)"

definition sub_field :: "('a decoder) \<Rightarrow> ('s \<Rightarrow> 'a) \<Rightarrow> ('a \<Rightarrow> 's \<Rightarrow> 's) \<Rightarrow> 's decoder" where
  "sub_field dec get upd v s = map_option (\<lambda>x. upd x s) (dec v (get s))"

fun decode_all :: "(json \<Rightarrow> 'a option) \<Rightarrow> json list \<Rightarrow> 'a list option" where
  "decode_all dec [] = Some []"
| "decode_all dec (v # vs) =
     (case dec v of None \<Rightarrow> None | Some x \<Rightarrow> map_option (Cons x) (decode_all dec vs))"

definition dec_list :: "(json \<Rightarrow> 'a option) \<Rightarrow> json \<Rightarrow> 'a list option" where
  "dec_list dec v = (case v of JArr vs \<Rightarrow> decode_all dec vs | _ \<Rightarrow> None)"

definition dec_str :: "json \<Rightarrow> string option" where
  "dec_str v = (case v of JStr x \<Rightarrow> Some x | _ \<Rightarrow> None)"

text \<open>An element of a slice starts as the zero value, which \<open>null\<close> leaves alone.\<close>

definition dec_elem :: "json \<Rightarrow> string option" where
  "dec_elem v = (if v = JNull then Some [] else dec_str v)"

definition dec_bool :: "json \<Rightarrow> bool option" where
  "dec_bool v = (case v of JBool b \<Rightarrow> Some b | _ \<Rightarrow> None)"

definition dec_f64 :: "json \<Rightarrow> f64 option" where
  "dec_f64 v = (case v of JNum _ r \<Rightarrow> Some (Fin r) | _ \<Rightarrow> None)"

definition dec_int :: "int \<Rightarrow> int \<Rightarrow> json \<Rightarrow> int option" where
  "dec_int lo hi v = (case v of
      JNum True r \<Rightarrow> if lo \<le> \<lfloor>r\<rfloor> \<and> \<lfloor>r\<rfloor> \<le> hi then Some \<lfloor>r\<rfloor> else None
    | _ \<Rightarrow> None)"

definition dec_int64 :: "json \<Rightarrow> int option" where
  "dec_int64 = dec_int (- (2 ^ 63)) (2 ^ 63 - 1)"

definition dec_uint64 :: "json \<Rightarrow> int option" where
  "dec_uint64 = dec_int 0 (2 ^ 64 - 1)"

section \<open>What is encoded decodes\<close>

named_theorems json_simps \<open>members and fields of the decoded structs\<close>

lemma decode_members_append:
  "decode_members strict tbl (xs @ ys) s =
     (case decode_members strict tbl xs s of None \<Rightarrow> None | Some s' \<Rightarrow> decode_members strict tbl ys s')"
  by (induction xs arbitrary: s) (auto split: option.split)

lemma find_field_exact: "map_of tbl k = Some f \<Longrightarrow> find_field tbl k = Some f"
  by (simp add: find_field_def)

lemma str_field_j [json_simps]: "str_field upd (j_str x) s = Some (upd (coerce_utf8 x) s)"
  by (simp add: str_field_def j_str_def)

lemma dec_f64_j: "j_f64 v = Some j \<Longrightarrow> dec_f64 j = Some v \<and> j \<noteq> JNull"
  by (auto simp: j_f64_def dec_f64_def split: f64.splits)

lemma dec_str_j [json_simps]: "dec_str (j_str x) = Some (coerce_utf8 x)"
  by (simp add: dec_str_def j_str_def)

lemma dec_int64_j: "- (2 ^ 63) \<le> i \<Longrightarrow> i < 2 ^ 63 \<Longrightarrow> dec_int64 (j_int i) = Some i"
  by (simp add: dec_int64_def dec_int_def j_int_def)

lemma dec_uint64_j: "0 \<le> i \<Longrightarrow> i < 2 ^ 64 \<Longrightarrow> dec_uint64 (j_int i) = Some i"
  by (simp add: dec_uint64_def dec_int_def j_int_def)

lemma j_not_null [simp]: "j_str x \<noteq> JNull" "j_int i \<noteq> JNull" "j_strings xs \<noteq> JNull"
  by (simp_all add: j_str_def j_int_def j_strings_def)

lemma dec_list_j: "list_all is_ascii xs \<Longrightarrow> dec_list dec_elem (j_strings xs) = Some xs"
proof -
  assume "list_all is_ascii xs"
  then have "decode_all dec_elem (map j_str xs) = Some xs"
    by (induction xs) (simp_all add: dec_elem_def dec_str_j coerce_ascii)
  then show ?thesis by (simp add: dec_list_def j_strings_def)
qed

end
