(* ===== verification/Telemetry.thy ===== *)
theory Telemetry
  imports Polling HealthTracker Json
begin

text \<open>
  From a poll result and the tracker's events to messages: \<open>internal/telemetry/telemetry.go\<close>,
  \<open>internal/events/events.go\<close> and \<open>v2.go\<close>, \<open>internal/normalize/normalize.go\<close>,
  \<open>internal/health/temperature.go\<close> and the rest of \<open>internal/snmp/readings/readings.go\<close>.

  \<open>uuid.New()\<close> and \<open>time.Now()\<close> are arguments: the event IDs and the time the function reads.
  \<open>to_json\<close> is \<open>json.Marshal\<close> on the events with the member names of their struct tags; the text
  of a time is the argument \<open>rfc\<close>, \<open>None\<close> for a time that \<open>time.Time\<close> refuses to encode.
\<close>

section \<open>The result of a poll\<close>

record scalar_reading =
  sr_Value :: f64
  sr_SourceOID :: string

record component_reading =
  cr_Index :: int
  cr_Name :: string
  cr_Value :: "f64 option"
  cr_Unit :: string
  cr_Status :: string
  cr_SourceOID :: string

record vendor_readings =
  vr_Profile :: string
  vr_Capabilities :: "64 word"
  vr_CPU :: "scalar_reading option"
  vr_Memory :: "scalar_reading option"
  vr_Temperatures :: "component_reading list"
  vr_Power :: "component_reading list"

record device_identity =
  id_SysObjectID :: string
  id_SysName :: string
  id_SysDescr :: string
  id_UptimeSeconds :: f64

record poll_result =
  px_SiteID :: string
  px_DeviceID :: string
  px_IPAddress :: string
  px_ObservedAt :: time
  px_InventoryRole :: string
  px_Identity :: device_identity
  px_Interfaces :: "interface_result list"
  px_Vendor :: vendor_readings
  px_Filter :: filter_summary

definition CapabilityCPU :: "64 word" where "CapabilityCPU = 1"
definition CapabilityMemory :: "64 word" where "CapabilityMemory = 2"
definition CapabilityTemperature :: "64 word" where "CapabilityTemperature = 4"
definition CapabilityPower :: "64 word" where "CapabilityPower = 8"

definition Has :: "64 word \<Rightarrow> 64 word \<Rightarrow> bool" where
  "Has c capability \<longleftrightarrow> and c capability \<noteq> 0"

definition no_vendor :: vendor_readings where
  "no_vendor = \<lparr>vr_Profile = [], vr_Capabilities = 0, vr_CPU = None, vr_Memory = None,
     vr_Temperatures = [], vr_Power = []\<rparr>"

definition no_summary :: filter_summary where
  "no_summary = \<lparr>fs_Selected = 0, fs_ExcludedDefault = 0, fs_ExcludedRule = 0\<rparr>"

definition NewDevicePollResult :: "string \<Rightarrow> string \<Rightarrow> string \<Rightarrow> time \<Rightarrow> device_identity \<Rightarrow> interface_reading list
    \<Rightarrow> poll_result" where
  "NewDevicePollResult siteID deviceID ipAddress observedAt identity interfaces =
     \<lparr>px_SiteID = siteID, px_DeviceID = deviceID, px_IPAddress = ipAddress, px_ObservedAt = observedAt,
      px_InventoryRole = [], px_Identity = identity,
      px_Interfaces = map (\<lambda>i. \<lparr>ir_Reading = i, ir_Selection = SelectionNone, ir_FilterReason = [],
        ir_RuleID = []\<rparr>) interfaces,
      px_Vendor = no_vendor, px_Filter = no_summary\<rparr>"

definition ApplyToResult :: "if_filter \<Rightarrow> poll_result \<Rightarrow> poll_result" where
  "ApplyToResult f r = (case ApplyFilter f (px_Interfaces r) of
     (ifaces, summary) \<Rightarrow> r\<lparr>px_Interfaces := ifaces, px_Filter := summary\<rparr>)"

section \<open>The primary temperature\<close>

fun primary_from :: "component_reading list \<Rightarrow> f64 option \<Rightarrow> f64 option" where
  "primary_from [] best = best"
| "primary_from (c # cs) best =
     (case cr_Value c of
        None \<Rightarrow> primary_from cs best
      | Some candidate \<Rightarrow>
          if IsNaN candidate \<or> f64_lt candidate (Fin 0) then primary_from cs best
          else if (case best of None \<Rightarrow> True | Some v \<Rightarrow> f64_lt v candidate) then primary_from cs (Some candidate)
          else primary_from cs best)"

definition PrimaryTemperaturePtr :: "component_reading list \<Rightarrow> f64 option" where
  "PrimaryTemperaturePtr cs = primary_from cs None"

section \<open>Events\<close>

record envelope =
  en_SchemaVersion :: string
  en_EventID :: string
  en_EventType :: string
  en_SiteID :: string
  en_CollectorID :: string
  en_DeviceID :: string
  en_ObservedAt :: time
  en_EmittedAt :: time
  en_ConfigRevision :: string

record component_payload =
  cp_ComponentID :: string
  cp_Name :: string
  cp_Index :: string
  cp_Value :: "f64 option"
  cp_Unit :: string
  cp_Status :: string
  cp_ObservedAt :: time

record device_payload =
  dt_Hostname :: string
  dt_ManagementAddress :: string
  dt_Role :: string
  dt_SysObjectID :: string
  dt_SysName :: string
  dt_SysDescr :: string
  dt_Vendor :: string
  dt_Model :: string
  dt_Serial :: string
  dt_SNMPVersion :: string
  dt_ProfileName :: string
  dt_Capabilities :: "string list"
  dt_UptimeSeconds :: f64
  dt_CPUUtilizationPct :: "f64 option"
  dt_MemoryUtilizationPct :: "f64 option"
  dt_PrimaryTemperatureC :: "f64 option"
  dt_TemperatureComponents :: "component_payload list"
  dt_PowerComponents :: "component_payload list"

record interface_payload =
  it_IfIndex :: int
  it_Name :: string
  it_Alias :: string
  it_Type :: string
  it_AdminStatus :: string
  it_OperStatus :: string
  it_SpeedBps :: "int option"
  it_InOctets :: "64 word"
  it_OutOctets :: "64 word"
  it_InErrors :: "64 word"
  it_OutErrors :: "64 word"
  it_InDiscards :: "64 word option"
  it_OutDiscards :: "64 word option"

record health_payload =
  hp_State :: string
  hp_Reason :: string
  hp_PreviousState :: "string option"
  hp_Transition :: string
  hp_FailureCount :: int
  hp_FailureThreshold :: int
  hp_TemperatureC :: "f64 option"
  hp_TemperatureWarningC :: "f64 option"
  hp_TemperaturePolicyRevision :: "string option"
  hp_UpstreamDeviceIDs :: "string list"
  hp_UnavailableUpstreamDeviceIDs :: "string list"
  hp_RootCauseDeviceIDs :: "string list"
  hp_AlertsEnabled :: bool

record heartbeat_payload =
  hb_Hostname :: string
  hb_Version :: string
  hb_GitCommit :: string
  hb_BuildTime :: string
  hb_UptimeSeconds :: int
  hb_SQLiteQueueDepth :: int
  hb_MemoryUsageBytes :: int
  hb_GoroutineCount :: int

record device_metric =
  dm_SiteID :: string
  dm_DeviceID :: string
  dm_IPAddress :: string
  dm_Timestamp :: time
  dm_Metric :: string
  dm_Value :: f64

record interface_metric =
  im_SiteID :: string
  im_DeviceID :: string
  im_Timestamp :: time
  im_IfIndex :: int
  im_InOctets :: "64 word"
  im_OutOctets :: "64 word"
  im_InErrors :: "64 word"
  im_OutErrors :: "64 word"

datatype out_event =
    DeviceMetricEvent device_metric
  | InterfaceMetricEvent interface_metric
  | DeviceTelemetryEvent envelope device_payload
  | InterfaceTelemetryEvent envelope interface_payload
  | HealthStateEvent envelope health_payload
  | HeartbeatEvent envelope heartbeat_payload

definition device_topic :: "string \<Rightarrow> string \<Rightarrow> string \<Rightarrow> string" where
  "device_topic site device rest = ''site/'' @ site @ ''/device/'' @ device @ rest"

fun Topic :: "out_event \<Rightarrow> string" where
  "Topic (DeviceMetricEvent m) = device_topic (dm_SiteID m) (dm_DeviceID m) ''/metric/device''"
| "Topic (InterfaceMetricEvent m) = device_topic (im_SiteID m) (im_DeviceID m) ''/metric/interface''"
| "Topic (DeviceTelemetryEvent e _) = device_topic (en_SiteID e) (en_DeviceID e) ''/telemetry/v2/device''"
| "Topic (InterfaceTelemetryEvent e _) = device_topic (en_SiteID e) (en_DeviceID e) ''/telemetry/v2/interface''"
| "Topic (HealthStateEvent e _) = device_topic (en_SiteID e) (en_DeviceID e) ''/telemetry/v2/health''"
| "Topic (HeartbeatEvent e _) =
     ''site/'' @ en_SiteID e @ ''/collector/'' @ en_CollectorID e @ ''/telemetry/v2/heartbeat''"

section \<open>Building the events\<close>

datatype publish_mode = ModeV1 | ModeV2 | ModeBoth

definition ParsePublishMode :: "string \<Rightarrow> publish_mode option" where
  "ParsePublishMode raw =
     (if raw = ''v1'' then Some ModeV1 else if raw = ''v2'' then Some ModeV2
      else if raw = ''both'' then Some ModeBoth else None)"

definition ModeFromConfig :: "config option \<Rightarrow> publish_mode" where
  "ModeFromConfig cfg = (case cfg of
      None \<Rightarrow> ModeBoth
    | Some c \<Rightarrow> (case ParsePublishMode (c_TelemetryVersion c) of None \<Rightarrow> ModeBoth | Some m \<Rightarrow> m))"

record tel_context =
  tc_SiteID :: string
  tc_CollectorID :: string
  tc_ConfigRevision :: string
  tc_EmittedAt :: time

definition emitted_at :: "tel_context \<Rightarrow> time \<Rightarrow> time" where
  "emitted_at ctx now = (if IsZero (tc_EmittedAt ctx) then now else tc_EmittedAt ctx)"

definition mk_envelope :: "tel_context \<Rightarrow> time \<Rightarrow> string \<Rightarrow> string \<Rightarrow> string \<Rightarrow> string \<Rightarrow> time \<Rightarrow> envelope" where
  "mk_envelope ctx now eventID eventType site device observedAt =
     \<lparr>en_SchemaVersion = ''2.0'', en_EventID = eventID, en_EventType = eventType, en_SiteID = site,
      en_CollectorID = tc_CollectorID ctx, en_DeviceID = device, en_ObservedAt = observedAt,
      en_EmittedAt = emitted_at ctx now, en_ConfigRevision = tc_ConfigRevision ctx\<rparr>"

definition capabilities :: "64 word \<Rightarrow> string list" where
  "capabilities c =
     (if Has c CapabilityCPU then [''cpu''] else [])
     @ (if Has c CapabilityMemory then [''memory''] else [])
     @ (if Has c CapabilityTemperature then [''temperature''] else [])
     @ (if Has c CapabilityPower then [''power''] else [])"

definition temperature_component :: "time \<Rightarrow> component_reading \<Rightarrow> component_payload" where
  "temperature_component observedAt c =
     \<lparr>cp_ComponentID = ''temperature-'' @ itoa (cr_Index c), cp_Name = cr_Name c, cp_Index = itoa (cr_Index c),
      cp_Value = cr_Value c, cp_Unit = (if cr_Unit c = [] then ''celsius'' else cr_Unit c),
      cp_Status = (if cr_Status c = [] then ''unknown'' else cr_Status c), cp_ObservedAt = observedAt\<rparr>"

definition temperatureComponents :: "component_reading list \<Rightarrow> time \<Rightarrow> component_payload list" where
  "temperatureComponents comps observedAt =
     map (temperature_component observedAt) (filter (\<lambda>c. cr_Value c \<noteq> None) comps)"

definition normalizePowerUnit :: "string \<Rightarrow> string" where
  "normalizePowerUnit unit =
     (if unit = [] then ''state'' else if unit = ''volts_ac'' \<or> unit = ''volts_dc'' then ''volts''
      else if unit = ''amperes'' then ''amps'' else unit)"

definition power_component :: "time \<Rightarrow> component_reading \<Rightarrow> component_payload" where
  "power_component observedAt c =
     \<lparr>cp_ComponentID = ''power-'' @ itoa (cr_Index c), cp_Name = cr_Name c, cp_Index = itoa (cr_Index c),
      cp_Value = cr_Value c, cp_Unit = normalizePowerUnit (cr_Unit c),
      cp_Status = (if cr_Status c = [] then ''unknown'' else cr_Status c), cp_ObservedAt = observedAt\<rparr>"

definition powerComponents :: "component_reading list \<Rightarrow> time \<Rightarrow> component_payload list" where
  "powerComponents comps observedAt = map (power_component observedAt) comps"

definition DeviceTelemetry :: "string \<Rightarrow> time \<Rightarrow> tel_context \<Rightarrow> poll_result \<Rightarrow> out_event" where
  "DeviceTelemetry eventID now ctx r =
     (let i = px_Identity r; v = px_Vendor r; observedAt = px_ObservedAt r in
      DeviceTelemetryEvent
        (mk_envelope ctx now eventID ''device_telemetry'' (tc_SiteID ctx) (px_DeviceID r) observedAt)
        \<lparr>dt_Hostname = (if id_SysName i = [] then px_DeviceID r else id_SysName i),
         dt_ManagementAddress = px_IPAddress r, dt_Role = px_InventoryRole r,
         dt_SysObjectID = id_SysObjectID i, dt_SysName = id_SysName i, dt_SysDescr = id_SysDescr i,
         dt_Vendor = [], dt_Model = [], dt_Serial = [], dt_SNMPVersion = ''2c'',
         dt_ProfileName = (if vr_Profile v = [] then ''core'' else vr_Profile v),
         dt_Capabilities = capabilities (vr_Capabilities v),
         dt_UptimeSeconds = id_UptimeSeconds i,
         dt_CPUUtilizationPct = map_option sr_Value (vr_CPU v),
         dt_MemoryUtilizationPct = map_option sr_Value (vr_Memory v),
         dt_PrimaryTemperatureC = PrimaryTemperaturePtr (vr_Temperatures v),
         dt_TemperatureComponents = temperatureComponents (vr_Temperatures v) observedAt,
         dt_PowerComponents = powerComponents (vr_Power v) observedAt\<rparr>)"

definition published :: "interface_result \<Rightarrow> bool" where
  "published i \<longleftrightarrow> ir_Selection i = Selected \<and> if_HasCounters (ir_Reading i)"

definition interface_name :: "interface_reading \<Rightarrow> string" where
  "interface_name i =
     (let name = (if if_IfName i = [] then if_IfDescr i else if_IfName i)
      in if name = [] then ''ifIndex-'' @ itoa (if_IfIndex i) else name)"

text \<open>\<open>int64(SpeedBPS)\<close> reads the unsigned speed as a signed number.\<close>

definition interface_event :: "string \<Rightarrow> time \<Rightarrow> tel_context \<Rightarrow> poll_result \<Rightarrow> interface_result \<Rightarrow> out_event" where
  "interface_event eventID now ctx r iface =
     (let i = ir_Reading iface in
      InterfaceTelemetryEvent
        (mk_envelope ctx now eventID ''interface_telemetry'' (tc_SiteID ctx) (px_DeviceID r) (px_ObservedAt r))
        \<lparr>it_IfIndex = if_IfIndex i, it_Name = interface_name i, it_Alias = if_IfAlias i, it_Type = if_IfTypeName i,
         it_AdminStatus = if_AdminStatus i, it_OperStatus = if_OperStatus i,
         it_SpeedBps = (if if_SpeedBPS i > 0 then Some (sint (if_SpeedBPS i)) else None),
         it_InOctets = if_InOctets i, it_OutOctets = if_OutOctets i, it_InErrors = if_InErrors i,
         it_OutErrors = if_OutErrors i, it_InDiscards = None, it_OutDiscards = None\<rparr>)"

definition InterfaceTelemetry :: "(nat \<Rightarrow> string) \<Rightarrow> time \<Rightarrow> tel_context \<Rightarrow> poll_result \<Rightarrow> out_event list" where
  "InterfaceTelemetry eventIDs now ctx r =
     map (\<lambda>(n, i). interface_event (eventIDs n) now ctx r i)
       (enumerate 0 (filter published (px_Interfaces r)))"

definition ToEvents :: "poll_result \<Rightarrow> out_event list" where
  "ToEvents r =
     DeviceMetricEvent \<lparr>dm_SiteID = px_SiteID r, dm_DeviceID = px_DeviceID r, dm_IPAddress = px_IPAddress r,
        dm_Timestamp = px_ObservedAt r, dm_Metric = ''uptime_seconds'',
        dm_Value = id_UptimeSeconds (px_Identity r)\<rparr>
     # map (\<lambda>i. InterfaceMetricEvent \<lparr>im_SiteID = px_SiteID r, im_DeviceID = px_DeviceID r,
          im_Timestamp = px_ObservedAt r, im_IfIndex = if_IfIndex (ir_Reading i),
          im_InOctets = if_InOctets (ir_Reading i), im_OutOctets = if_OutOctets (ir_Reading i),
          im_InErrors = if_InErrors (ir_Reading i), im_OutErrors = if_OutErrors (ir_Reading i)\<rparr>)
        (filter published (px_Interfaces r))"

definition DeviceEvents :: "(nat \<Rightarrow> string) \<Rightarrow> time \<Rightarrow> publish_mode \<Rightarrow> tel_context \<Rightarrow> poll_result \<Rightarrow> out_event list" where
  "DeviceEvents eventIDs now mode ctx r =
     (if mode = ModeV1 \<or> mode = ModeBoth then ToEvents r else [])
     @ (if mode = ModeV2 \<or> mode = ModeBoth
        then DeviceTelemetry (eventIDs 0) now ctx r # InterfaceTelemetry (\<lambda>n. eventIDs (Suc n)) now ctx r
        else [])"

fun state_text :: "state \<Rightarrow> string" where
  "state_text StateNone = []"
| "state_text StateHealthy = ''healthy''"
| "state_text StateWarning = ''warning''"
| "state_text StateCritical = ''critical''"
| "state_text StateUnknown = ''unknown''"

fun reason_text :: "reason \<Rightarrow> string" where
  "reason_text ReasonNone = []"
| "reason_text ReasonReachable = ''reachable''"
| "reason_text ReasonTemperatureThreshold = ''temperature_threshold''"
| "reason_text ReasonDirectUnreachable = ''direct_unreachable''"
| "reason_text ReasonUpstreamUnreachable = ''upstream_unreachable''"
| "reason_text ReasonRecovered = ''recovered''"

fun transition_text :: "transition \<Rightarrow> string" where
  "transition_text TransitionInitial = ''initial''"
| "transition_text TransitionEntered = ''entered''"
| "transition_text TransitionRecovered = ''recovered''"
| "transition_text TransitionReasserted = ''reasserted''"

definition HealthEvent :: "string \<Rightarrow> time \<Rightarrow> tel_context \<Rightarrow> string \<Rightarrow> event \<Rightarrow> out_event" where
  "HealthEvent eventID now ctx siteID ev =
     HealthStateEvent
       (mk_envelope ctx now eventID ''health_state'' siteID (ev_DeviceID ev) (ev_ObservedAt ev))
       \<lparr>hp_State = state_text (ev_State ev), hp_Reason = reason_text (ev_Reason ev),
        hp_PreviousState = map_option state_text (ev_PreviousState ev),
        hp_Transition = transition_text (ev_Transition ev), hp_FailureCount = ev_FailureCount ev,
        hp_FailureThreshold = ev_FailureThreshold ev, hp_TemperatureC = ev_TemperatureC ev,
        hp_TemperatureWarningC = ev_TemperatureWarningC ev,
        hp_TemperaturePolicyRevision = (if ev_TemperaturePolicyRevision ev = [] then None
          else Some (ev_TemperaturePolicyRevision ev)),
        hp_UpstreamDeviceIDs = ev_UpstreamDeviceIDs ev,
        hp_UnavailableUpstreamDeviceIDs = ev_UnavailableUpstream ev,
        hp_RootCauseDeviceIDs = ev_RootCauseDeviceIDs ev, hp_AlertsEnabled = ev_AlertsEnabled ev\<rparr>"

definition HealthEvents :: "(nat \<Rightarrow> string) \<Rightarrow> time \<Rightarrow> publish_mode \<Rightarrow> tel_context \<Rightarrow> string \<Rightarrow> event list
    \<Rightarrow> out_event list" where
  "HealthEvents eventIDs now mode ctx siteID evs =
     (if mode \<noteq> ModeV2 \<and> mode \<noteq> ModeBoth then []
      else map (\<lambda>(n, ev). HealthEvent (eventIDs n) now ctx siteID ev) (enumerate 0 evs))"

record heartbeat_input =
  hi_Hostname :: string
  hi_Version :: string
  hi_GitCommit :: string
  hi_BuildTime :: string
  hi_UptimeSeconds :: int
  hi_SQLiteQueueDepth :: int
  hi_MemoryUsageBytes :: int
  hi_GoroutineCount :: int
  hi_ObservedAt :: time

definition or_unknown :: "string \<Rightarrow> string" where
  "or_unknown s = (if s = [] then ''unknown'' else s)"

definition Heartbeat :: "string \<Rightarrow> time \<Rightarrow> tel_context \<Rightarrow> heartbeat_input \<Rightarrow> out_event" where
  "Heartbeat eventID now ctx inp =
     HeartbeatEvent
       (mk_envelope ctx now eventID ''collector_heartbeat'' (tc_SiteID ctx) []
         (if IsZero (hi_ObservedAt inp) then emitted_at ctx now else hi_ObservedAt inp))
       \<lparr>hb_Hostname = hi_Hostname inp, hb_Version = or_unknown (hi_Version inp),
        hb_GitCommit = or_unknown (hi_GitCommit inp), hb_BuildTime = or_unknown (hi_BuildTime inp),
        hb_UptimeSeconds = hi_UptimeSeconds inp, hb_SQLiteQueueDepth = hi_SQLiteQueueDepth inp,
        hb_MemoryUsageBytes = hi_MemoryUsageBytes inp, hb_GoroutineCount = hi_GoroutineCount inp\<rparr>"

definition ShouldPublishHeartbeat :: "publish_mode \<Rightarrow> bool" where
  "ShouldPublishHeartbeat mode \<longleftrightarrow> mode = ModeV2 \<or> mode = ModeBoth"

section \<open>Encoding the events\<close>

definition m_str :: "string \<Rightarrow> string \<Rightarrow> string \<times> json option" where
  "m_str k s = (k, Some (j_str s))"

definition m_int :: "string \<Rightarrow> int \<Rightarrow> string \<times> json option" where
  "m_int k i = (k, Some (j_int i))"

definition m_word :: "string \<Rightarrow> 64 word \<Rightarrow> string \<times> json option" where
  "m_word k w = (k, Some (j_int (uint w)))"

definition m_time :: "(time \<Rightarrow> string option) \<Rightarrow> string \<Rightarrow> time \<Rightarrow> string \<times> json option" where
  "m_time rfc k t = (k, map_option j_str (rfc t))"

definition envelope_members :: "(time \<Rightarrow> string option) \<Rightarrow> envelope \<Rightarrow> members" where
  "envelope_members rfc e =
     [m_str ''schema_version'' (en_SchemaVersion e), m_str ''event_id'' (en_EventID e),
      m_str ''event_type'' (en_EventType e), m_str ''site_id'' (en_SiteID e),
      m_str ''collector_id'' (en_CollectorID e)]
     @ omit_str ''device_id'' (en_DeviceID e)
     @ [m_time rfc ''observed_at'' (en_ObservedAt e), m_time rfc ''emitted_at'' (en_EmittedAt e),
        m_str ''config_revision'' (en_ConfigRevision e)]"

definition component_json :: "(time \<Rightarrow> string option) \<Rightarrow> component_payload \<Rightarrow> json option" where
  "component_json rfc c = mk_obj
     [m_str ''component_id'' (cp_ComponentID c), m_str ''name'' (cp_Name c), m_str ''index'' (cp_Index c),
      (''value'', case cp_Value c of None \<Rightarrow> Some JNull | Some v \<Rightarrow> j_f64 v),
      m_str ''unit'' (cp_Unit c), m_str ''status'' (cp_Status c), m_time rfc ''observed_at'' (cp_ObservedAt c)]"

definition device_json :: "(time \<Rightarrow> string option) \<Rightarrow> device_payload \<Rightarrow> json option" where
  "device_json rfc p = mk_obj
     [(''identity'', mk_obj
        ([m_str ''hostname'' (dt_Hostname p)] @ omit_str ''management_address'' (dt_ManagementAddress p)
         @ omit_str ''role'' (dt_Role p)
         @ [m_str ''sys_object_id'' (dt_SysObjectID p), m_str ''sys_name'' (dt_SysName p),
            m_str ''sys_descr'' (dt_SysDescr p)]
         @ omit_str ''vendor'' (dt_Vendor p) @ omit_str ''model'' (dt_Model p) @ omit_str ''serial'' (dt_Serial p)
         @ [m_str ''snmp_version'' (dt_SNMPVersion p)])),
      (''profile'', mk_obj
        [m_str ''name'' (dt_ProfileName p), (''capabilities'', Some (j_strings (dt_Capabilities p)))]),
      (''readings'', mk_obj
        ([(''uptime_seconds'', j_f64 (dt_UptimeSeconds p))]
         @ omit_nil ''cpu_utilization_pct'' j_f64 (dt_CPUUtilizationPct p)
         @ omit_nil ''memory_utilization_pct'' j_f64 (dt_MemoryUtilizationPct p)
         @ omit_nil ''primary_temperature_c'' j_f64 (dt_PrimaryTemperatureC p))),
      (''temperature_components'', mk_arr (map (component_json rfc) (dt_TemperatureComponents p))),
      (''power_components'', mk_arr (map (component_json rfc) (dt_PowerComponents p)))]"

definition interface_json :: "interface_payload \<Rightarrow> json option" where
  "interface_json p = mk_obj
     [(''interface'', mk_obj
        ([m_int ''if_index'' (it_IfIndex p), m_str ''name'' (it_Name p)]
         @ omit_str ''alias'' (it_Alias p) @ omit_str ''type'' (it_Type p)
         @ [m_str ''admin_status'' (it_AdminStatus p), m_str ''oper_status'' (it_OperStatus p),
            (''speed_bps'', Some (case it_SpeedBps p of None \<Rightarrow> JNull | Some v \<Rightarrow> j_int v))])),
      (''counters'', mk_obj
        ([m_word ''in_octets'' (it_InOctets p), m_word ''out_octets'' (it_OutOctets p),
          m_word ''in_errors'' (it_InErrors p), m_word ''out_errors'' (it_OutErrors p)]
         @ omit_nil ''in_discards'' (\<lambda>w. Some (j_int (uint w))) (it_InDiscards p)
         @ omit_nil ''out_discards'' (\<lambda>w. Some (j_int (uint w))) (it_OutDiscards p)))]"

definition health_json :: "health_payload \<Rightarrow> json option" where
  "health_json p = mk_obj
     ([m_str ''state'' (hp_State p), m_str ''reason'' (hp_Reason p)]
      @ omit_nil ''previous_state'' (\<lambda>s. Some (j_str s)) (hp_PreviousState p)
      @ [m_str ''transition'' (hp_Transition p), m_int ''failure_count'' (hp_FailureCount p),
         m_int ''failure_threshold'' (hp_FailureThreshold p)]
      @ omit_nil ''temperature_c'' j_f64 (hp_TemperatureC p)
      @ omit_nil ''temperature_warning_c'' j_f64 (hp_TemperatureWarningC p)
      @ omit_nil ''temperature_policy_revision'' (\<lambda>s. Some (j_str s)) (hp_TemperaturePolicyRevision p)
      @ [(''upstream_device_ids'', Some (j_strings (hp_UpstreamDeviceIDs p))),
         (''unavailable_upstream_device_ids'', Some (j_strings (hp_UnavailableUpstreamDeviceIDs p))),
         (''root_cause_device_ids'', Some (j_strings (hp_RootCauseDeviceIDs p))),
         (''alerts_enabled'', Some (JBool (hp_AlertsEnabled p)))])"

definition heartbeat_json :: "heartbeat_payload \<Rightarrow> json option" where
  "heartbeat_json p = mk_obj
     [m_str ''hostname'' (hb_Hostname p), m_str ''version'' (hb_Version p), m_str ''git_commit'' (hb_GitCommit p),
      m_str ''build_time'' (hb_BuildTime p), m_int ''uptime_seconds'' (hb_UptimeSeconds p),
      m_int ''sqlite_queue_depth'' (hb_SQLiteQueueDepth p), m_int ''memory_usage_bytes'' (hb_MemoryUsageBytes p),
      m_int ''goroutine_count'' (hb_GoroutineCount p)]"

definition v2_json :: "(time \<Rightarrow> string option) \<Rightarrow> envelope \<Rightarrow> json option \<Rightarrow> json option" where
  "v2_json rfc e payload = mk_obj (envelope_members rfc e @ [(''payload'', payload)])"

fun to_json :: "(time \<Rightarrow> string option) \<Rightarrow> out_event \<Rightarrow> json option" where
  "to_json rfc (DeviceMetricEvent m) = mk_obj
     [m_str ''site_id'' (dm_SiteID m), m_str ''device_id'' (dm_DeviceID m), m_str ''ip_address'' (dm_IPAddress m),
      m_time rfc ''timestamp'' (dm_Timestamp m), m_str ''metric'' (dm_Metric m), (''value'', j_f64 (dm_Value m))]"
| "to_json rfc (InterfaceMetricEvent m) = mk_obj
     [m_str ''site_id'' (im_SiteID m), m_str ''device_id'' (im_DeviceID m), m_time rfc ''timestamp'' (im_Timestamp m),
      m_int ''if_index'' (im_IfIndex m), m_word ''in_octets'' (im_InOctets m), m_word ''out_octets'' (im_OutOctets m),
      m_word ''in_errors'' (im_InErrors m), m_word ''out_errors'' (im_OutErrors m)]"
| "to_json rfc (DeviceTelemetryEvent e p) = v2_json rfc e (device_json rfc p)"
| "to_json rfc (InterfaceTelemetryEvent e p) = v2_json rfc e (interface_json p)"
| "to_json rfc (HealthStateEvent e p) = v2_json rfc e (health_json p)"
| "to_json rfc (HeartbeatEvent e p) = v2_json rfc e (heartbeat_json p)"

end
