(* ===== verification/Float64.thy ===== *)
theory Float64
  imports Prelude "HOL-Library.Log_Nat"
begin

text \<open>
  The arithmetic of Go's \<open>float64\<close> (IEEE 754 binary64, rounding to nearest, ties to even) on the
  values of \<^typ>\<open>f64\<close>.  The two zeros are one value, so a quotient by zero has the sign of its
  dividend; the program divides by counts, sums it has checked to be positive and powers of ten.
  The lemmas say that rounding is monotone and keeps what is representable.
\<close>

section \<open>Rounding\<close>

definition round_even :: "rat \<Rightarrow> int" where
  "round_even q = (let f = \<lfloor>q\<rfloor>; d = q - of_int f in
     if d < 1/2 then f else if d > 1/2 then f + 1 else if even f then f else f + 1)"

definition ilog2 :: "rat \<Rightarrow> int" where
  "ilog2 a = (case quotient_of a of (p, q) \<Rightarrow>
     let e = bitlen p - bitlen q in if a < 2 powi e then e - 1 else e)"

definition ulp_exp :: "rat \<Rightarrow> int" where
  "ulp_exp a = max (ilog2 a - 52) (- 1074)"

definition round_pos :: "rat \<Rightarrow> rat" where
  "round_pos a = of_int (round_even (a / 2 powi ulp_exp a)) * 2 powi ulp_exp a"

definition round64 :: "rat \<Rightarrow> f64" where
  "round64 x =
     (if x = 0 then Fin 0
      else (let v = round_pos \<bar>x\<bar> in
        if v \<ge> 2 ^ 1024 then (if x > 0 then PosInf else NegInf) else Fin (if x > 0 then v else - v)))"

fun f64_add :: "f64 \<Rightarrow> f64 \<Rightarrow> f64" where
  "f64_add (Fin a) (Fin b) = round64 (a + b)"
| "f64_add NaN _ = NaN"
| "f64_add _ NaN = NaN"
| "f64_add PosInf NegInf = NaN"
| "f64_add NegInf PosInf = NaN"
| "f64_add PosInf _ = PosInf"
| "f64_add NegInf _ = NegInf"
| "f64_add (Fin a) b = b"

definition f64_inf :: "rat \<Rightarrow> f64" where
  "f64_inf sign = (if sign > 0 then PosInf else if sign < 0 then NegInf else NaN)"

fun f64_sign :: "f64 \<Rightarrow> rat" where
  "f64_sign NaN = 0"
| "f64_sign PosInf = 1"
| "f64_sign NegInf = - 1"
| "f64_sign (Fin a) = sgn a"

fun f64_mul :: "f64 \<Rightarrow> f64 \<Rightarrow> f64" where
  "f64_mul (Fin x) (Fin y) = round64 (x * y)"
| "f64_mul a b = f64_inf (f64_sign a * f64_sign b)"

fun f64_div :: "f64 \<Rightarrow> f64 \<Rightarrow> f64" where
  "f64_div (Fin x) (Fin y) = (if y = 0 then f64_inf x else round64 (x / y))"
| "f64_div NaN _ = NaN"
| "f64_div _ NaN = NaN"
| "f64_div (Fin _) _ = Fin 0"
| "f64_div a (Fin y) = f64_inf (f64_sign a * (if y < 0 then - 1 else 1))"
| "f64_div _ _ = NaN"

definition f64_of_int :: "int \<Rightarrow> f64" where
  "f64_of_int i = round64 (of_int i)"

text \<open>\<open>x * y + z\<close> with one rounding, and \<open>math.Pow10\<close>, which multiplies or divides two table entries.\<close>

fun f64_fma :: "f64 \<Rightarrow> f64 \<Rightarrow> f64 \<Rightarrow> f64" where
  "f64_fma (Fin a) (Fin b) (Fin c) = round64 (a * b + c)"
| "f64_fma (Fin _) (Fin _) z = z"
| "f64_fma x y z = f64_add z (f64_mul x y)"

definition Pow10 :: "int \<Rightarrow> f64" where
  "Pow10 n =
     (if 0 \<le> n \<and> n \<le> 308
      then f64_mul (round64 (10 ^ (32 * (nat n div 32)))) (round64 (10 ^ (nat n mod 32)))
      else if - 323 \<le> n \<and> n \<le> 0
      then f64_div (round64 (1 / 10 ^ (32 * (nat (- n) div 32)))) (round64 (10 ^ (nat (- n) mod 32)))
      else if n > 0 then PosInf else Fin 0)"

definition representable :: "rat \<Rightarrow> bool" where
  "representable v \<longleftrightarrow> (\<exists>m e. v = of_int m * 2 powi e \<and> \<bar>m\<bar> \<le> 2 ^ 53 \<and> - 1074 \<le> e) \<and> \<bar>v\<bar> < 2 ^ 1024"

section \<open>Rounding to an integer\<close>

lemma round_even_bounds: "of_int (round_even q) \<le> q + 1/2" "q - 1/2 \<le> of_int (round_even q)"
  unfolding round_even_def Let_def by (auto; linarith)+

lemma round_even_le: "q \<le> of_int n \<Longrightarrow> round_even q \<le> n"
  unfolding round_even_def Let_def by (auto simp: floor_le_iff; linarith)

lemma round_even_ge: "of_int n \<le> q \<Longrightarrow> n \<le> round_even q"
  unfolding round_even_def Let_def by (auto simp: le_floor_iff; linarith)

lemma round_even_of_int [simp]: "round_even (of_int n) = n"
  by (simp add: round_even_def)

lemma round_even_mono:
  assumes "q \<le> r"
  shows "round_even q \<le> round_even r"
proof (cases "\<lfloor>q\<rfloor> = \<lfloor>r\<rfloor>")
  case True
  with assms show ?thesis by (auto simp: round_even_def Let_def)
next
  case False
  with assms have "\<lfloor>q\<rfloor> + 1 \<le> \<lfloor>r\<rfloor>" using floor_mono [OF assms] by linarith
  moreover have "round_even q \<le> \<lfloor>q\<rfloor> + 1" by (simp add: round_even_def Let_def)
  moreover have "\<lfloor>r\<rfloor> \<le> round_even r" by (simp add: round_even_def Let_def)
  ultimately show ?thesis by linarith
qed

section \<open>Binades\<close>

lemma powi_mono: "a \<le> b \<Longrightarrow> (2::rat) powi a \<le> 2 powi b"
  by (simp add: power_int_increasing)

lemma powi_less: "(2::rat) powi a < 2 powi b \<longleftrightarrow> a < b"
  by (meson linorder_not_less power_int_increasing power_int_strict_increasing one_less_numeral_iff semiring_norm(76) less_imp_le order_less_le_trans one_le_numeral)

lemma powi_pos [simp]: "(0::rat) < 2 powi a"
  by (simp add: zero_less_power_int)

lemma powi_split: "(2::rat) powi a = 2 powi b * 2 powi (a - b)"
  by (simp flip: power_int_add)

lemma powi_int: "0 \<le> a \<Longrightarrow> (2::rat) powi a = of_int (2 ^ nat a)"
  by (simp add: power_int_def)

lemma ilog2_bounds:
  assumes "a > 0"
  shows "2 powi ilog2 a \<le> a" "a < 2 powi (ilog2 a + 1)"
proof -
  obtain p q where pq: "quotient_of a = (p, q)" by fastforce
  have a: "a = of_int p / of_int q" and q: "q > 0"
    using quotient_of_div [OF pq] quotient_of_denom_pos [OF pq] by simp_all
  with assms have p: "p > 0" by (simp add: zero_less_divide_iff)
  let ?b = "bitlen p" and ?c = "bitlen q"
  have b1: "?b \<ge> 1" "?c \<ge> 1" using p q by (simp_all add: bitlen_alt_def)
  have P: "(2::rat) powi (?b - 1) \<le> of_int p" "of_int p < (2::rat) powi ?b"
    using bitlen_bounds [OF p] b1 by (simp_all only: powi_int of_int_le_iff of_int_less_iff)
  have Q: "(2::rat) powi (?c - 1) \<le> of_int q" "of_int q < (2::rat) powi ?c"
    using bitlen_bounds [OF q] b1 by (simp_all only: powi_int of_int_le_iff of_int_less_iff)
  have qp: "(0::rat) < of_int q" using q by simp
  have lo: "2 powi (?b - ?c - 1) \<le> a"
  proof -
    have "2 powi (?b - ?c - 1) * of_int q \<le> (2::rat) powi (?b - ?c - 1) * 2 powi ?c"
      using Q(2) by (simp add: mult_left_mono)
    also have "\<dots> = 2 powi (?b - 1)" by (simp flip: power_int_add)
    finally show ?thesis using P(1) qp by (simp add: a pos_le_divide_eq)
  qed
  have hi: "a < 2 powi (?b - ?c + 1)"
  proof -
    have "(2::rat) powi ?b = 2 powi (?b - ?c + 1) * 2 powi (?c - 1)" by (simp flip: power_int_add)
    also have "\<dots> \<le> 2 powi (?b - ?c + 1) * of_int q" using Q(1) by (simp add: mult_left_mono)
    finally show ?thesis using P(2) qp by (simp add: a pos_divide_less_eq)
  qed
  show "2 powi ilog2 a \<le> a" "a < 2 powi (ilog2 a + 1)"
    using lo hi by (auto simp: ilog2_def pq Let_def)
qed

lemma ilog2_unique:
  assumes "2 powi e \<le> a" "a < 2 powi (e + 1)"
  shows "ilog2 a = e"
proof -
  have "a > 0" using assms(1) powi_pos [of e] by linarith
  note b = ilog2_bounds [OF this]
  have "2 powi e < (2::rat) powi (ilog2 a + 1)" "2 powi ilog2 a < (2::rat) powi (e + 1)"
    using assms b by linarith+
  then show ?thesis by (simp add: powi_less)
qed

lemma ilog2_mono:
  assumes "0 < a" "a \<le> b"
  shows "ilog2 a \<le> ilog2 b"
proof -
  have "2 powi ilog2 a < (2::rat) powi (ilog2 b + 1)"
    using ilog2_bounds(1) [of a] ilog2_bounds(2) [of b] assms by linarith
  then show ?thesis by (simp add: powi_less)
qed

section \<open>Rounding is monotone and keeps the representable values\<close>

lemma round_pos_upper:
  assumes "a > 0" "a \<le> 2 powi e" "ulp_exp a \<le> e"
  shows "round_pos a \<le> 2 powi e"
proof -
  let ?u = "ulp_exp a"
  have "a / 2 powi ?u \<le> 2 powi (e - ?u)"
    using assms(2) powi_split [of e ?u] by (simp add: pos_divide_le_eq mult.commute)
  then have "round_even (a / 2 powi ?u) \<le> 2 ^ nat (e - ?u)"
    using assms(3) by (intro round_even_le) (simp add: powi_int)
  then have "of_int (round_even (a / 2 powi ?u)) \<le> (2::rat) powi (e - ?u)"
    using assms(3) by (simp only: powi_int of_int_le_iff diff_ge_0_iff_ge)
  then show ?thesis
    unfolding round_pos_def powi_split [of e ?u] by (simp add: mult.commute mult_left_mono)
qed

lemma round_pos_lower:
  assumes "2 powi e \<le> a" "ulp_exp a \<le> e"
  shows "2 powi e \<le> round_pos a"
proof -
  let ?u = "ulp_exp a"
  have "2 powi (e - ?u) \<le> a / 2 powi ?u"
    using assms(1) powi_split [of e ?u] by (simp add: pos_le_divide_eq mult.commute)
  then have "2 ^ nat (e - ?u) \<le> round_even (a / 2 powi ?u)"
    using assms(2) by (intro round_even_ge) (simp add: powi_int)
  then have "(2::rat) powi (e - ?u) \<le> of_int (round_even (a / 2 powi ?u))"
    using assms(2) by (simp only: powi_int of_int_le_iff diff_ge_0_iff_ge)
  then show ?thesis
    unfolding round_pos_def powi_split [of e ?u] by (simp add: mult.commute mult_left_mono)
qed

lemma round_pos_mono:
  assumes "0 < a" "a \<le> b"
  shows "round_pos a \<le> round_pos b"
proof (cases "ulp_exp a = ulp_exp b")
  case True
  have "a / 2 powi ulp_exp b \<le> b / 2 powi ulp_exp b" using assms by (simp add: divide_right_mono)
  then show ?thesis
    unfolding round_pos_def True using round_even_mono by (simp add: mult_right_mono)
next
  case False
  with ilog2_mono [OF assms] have less: "ilog2 a + 1 \<le> ilog2 b" and ulp: "ulp_exp b = ilog2 b - 52" "ulp_exp a \<le> ulp_exp b"
    unfolding ulp_exp_def by auto
  have "a \<le> 2 powi ilog2 b"
    using ilog2_bounds(2) [OF assms(1)] powi_mono [OF less] by linarith
  then have "round_pos a \<le> 2 powi ilog2 b" using assms(1) ulp by (intro round_pos_upper) simp_all
  also have "\<dots> \<le> round_pos b" using ilog2_bounds(1) [of b] assms ulp by (intro round_pos_lower) simp_all
  finally show ?thesis .
qed

lemma round_pos_representable:
  assumes "v > 0" "v = of_int m * 2 powi e" "\<bar>m\<bar> \<le> 2 ^ 53" "- 1074 \<le> e"
  shows "round_pos v = v"
proof -
  let ?u = "ulp_exp v"
  have "0 < of_int m * (2::rat) powi e" using assms(1,2) by simp
  then have m: "0 < m" using zero_less_mult_pos2 powi_pos by fastforce
  have "\<exists>n. v / 2 powi ?u = of_int n"
  proof (cases "?u \<le> e")
    case True
    have "v / 2 powi ?u = of_int m * (2 powi e / 2 powi ?u)" by (simp add: assms(2))
    also have "\<dots> = of_int m * 2 powi (e - ?u)" by (simp add: power_int_diff)
    also have "\<dots> = of_int (m * 2 ^ nat (e - ?u))" using True by (simp add: powi_int)
    finally show ?thesis by blast
  next
    case False
    then have u: "?u = ilog2 v - 52" using assms(4) unfolding ulp_exp_def by auto
    have "v \<le> of_int (2 ^ 53) * 2 powi e"
      unfolding assms(2) using assms(3) m by (intro mult_right_mono) (simp_all only: of_int_le_iff abs_of_pos, simp_all)
    also have "\<dots> = 2 powi (e + 53)" by (simp add: power_int_add)
    finally have hi: "v \<le> 2 powi (e + 53)" .
    have lo: "2 powi (?u + 52) \<le> v" using ilog2_bounds(1) [OF assms(1)] by (simp add: u)
    have "(2::rat) powi (?u + 52) \<le> 2 powi (e + 53)" using lo hi by linarith
    then have "?u + 52 \<le> e + 53" using powi_less [of "e + 53" "?u + 52"] by linarith
    with False have eq: "?u + 52 = e + 53" by linarith
    have "v = 2 powi (?u + 52)" using lo hi unfolding eq by (rule antisym [OF _ _, rotated])
    then have "v / 2 powi ?u = 2 powi (?u + 52) / 2 powi ?u" by simp
    also have "\<dots> = of_int (2 ^ 52)" by (simp flip: power_int_diff)
    finally have "v / 2 powi ?u = of_int (2 ^ 52)" .
    then show ?thesis by blast
  qed
  then obtain n where n: "v / 2 powi ?u = of_int n" ..
  have "v = of_int n * 2 powi ?u" using n powi_pos [of ?u] by (simp add: field_simps)
  then show ?thesis unfolding round_pos_def n by simp
qed

lemma round_pos_is_representable:
  assumes "a > 0"
  shows "\<exists>m e. round_pos a = of_int m * 2 powi e \<and> \<bar>m\<bar> \<le> 2 ^ 53 \<and> - 1074 \<le> e" "0 \<le> round_pos a"
proof -
  let ?u = "ulp_exp a" and ?m = "round_even (a / 2 powi ulp_exp a)"
  have pos: "0 \<le> ?m" using assms by (intro round_even_ge) simp
  have "ilog2 a + 1 \<le> ?u + 53" unfolding ulp_exp_def by simp
  then have "a \<le> 2 powi (?u + 53)" using ilog2_bounds(2) [OF assms] powi_mono by (meson less_imp_le order_trans)
  then have "a / 2 powi ?u \<le> of_int (2 ^ 53)" by (simp add: pos_divide_le_eq power_int_add mult.commute)
  then have "?m \<le> 2 ^ 53" by (rule round_even_le)
  moreover have "- 1074 \<le> ?u" unfolding ulp_exp_def by simp
  ultimately show "\<exists>m e. round_pos a = of_int m * 2 powi e \<and> \<bar>m\<bar> \<le> 2 ^ 53 \<and> - 1074 \<le> e"
    using pos unfolding round_pos_def by (metis abs_of_nonneg)
  show "0 \<le> round_pos a" using pos unfolding round_pos_def by simp
qed

lemma representable_of_int: "\<bar>i\<bar> \<le> 2 ^ 53 \<Longrightarrow> representable (of_int i)"
proof -
  assume i: "\<bar>i\<bar> \<le> 2 ^ 53"
  have "of_int \<bar>i\<bar> \<le> (of_int (2 ^ 53) :: rat)" using i by (simp only: of_int_le_iff)
  then have "\<bar>of_int i :: rat\<bar> < 2 ^ 1024" by simp
  moreover have "of_int i = of_int i * (2::rat) powi 0" by simp
  ultimately show ?thesis unfolding representable_def using i by (metis neg_le_0_iff_le zero_le_numeral)
qed

lemma round_pos_id: "representable v \<Longrightarrow> 0 < v \<Longrightarrow> round_pos v = v"
  unfolding representable_def using round_pos_representable by blast

lemma round64_representable: "representable v \<Longrightarrow> 0 \<le> v \<Longrightarrow> round64 v = Fin v"
  using round_pos_id [of v] unfolding representable_def round64_def Let_def by (cases "v = 0") simp_all

text \<open>The evaluation of the integers that need no rounding.\<close>

lemma f64_of_int_code [code]: "f64_of_int i = (if 0 \<le> i \<and> i \<le> 2 ^ 53 then Fin (of_int i) else round64 (of_int i))"
  by (simp add: f64_of_int_def representable_of_int round64_representable)

lemma round64_between:
  assumes "0 \<le> x" "x \<le> v" "representable v"
  shows "\<exists>y. round64 x = Fin y \<and> 0 \<le> y \<and> y \<le> v \<and> representable y"
proof (cases "x = 0")
  case True
  then show ?thesis using assms representable_of_int [of 0] by (simp add: round64_def)
next
  case False
  with assms have x: "0 < x" "0 < v" by simp_all
  have v: "round_pos v = v" using assms(3) x by (intro round_pos_id)
  have le: "round_pos x \<le> v" using round_pos_mono [of x v] x assms v by simp
  then have "round_pos x < 2 ^ 1024" using assms(3) x unfolding representable_def by simp
  then show ?thesis
    using x le round_pos_is_representable [OF x(1)] unfolding round64_def representable_def by (simp add: Let_def)
qed

lemma round64_above:
  assumes "representable v" "0 \<le> v" "v \<le> x" "round64 x = Fin y"
  shows "v \<le> y"
proof (cases "v = 0")
  case True
  then show ?thesis
    using assms round_pos_is_representable(2) [of x] by (auto simp: round64_def Let_def split: if_splits)
next
  case False
  with assms have v: "0 < v" "0 < x" by simp_all
  have "round_pos v = v" using assms(1) v by (intro round_pos_id)
  then have "v \<le> round_pos x" using round_pos_mono [of v x] v assms by simp
  then show ?thesis using assms v by (auto simp: round64_def Let_def split: if_splits)
qed

lemma round64_mono:
  assumes "0 \<le> x" "x \<le> y" "round64 y = Fin b"
  shows "\<exists>a. round64 x = Fin a \<and> 0 \<le> a \<and> a \<le> b \<and> representable a"
proof (cases "x = 0")
  case True
  then show ?thesis
    using assms representable_of_int [of 0] round64_above [of 0 y b] by (auto simp: round64_def)
next
  case False
  with assms have x: "0 < x" "0 < y" by simp_all
  have b: "b = round_pos y" "round_pos y < 2 ^ 1024"
    using assms(3) x by (auto simp: round64_def Let_def split: if_splits)
  have "round_pos x \<le> b" using round_pos_mono [of x y] x assms b by simp
  then show ?thesis
    using x b round_pos_is_representable [OF x(1)] unfolding round64_def representable_def by (simp add: Let_def)
qed

lemma round64_pos_inf:
  assumes "0 \<le> x"
  shows "(\<exists>y. round64 x = Fin y \<and> 0 \<le> y \<and> representable y) \<or> round64 x = PosInf"
proof (cases "x = 0 \<or> round_pos x \<ge> 2 ^ 1024")
  case True
  then show ?thesis using assms representable_of_int [of 0] by (auto simp: round64_def Let_def)
next
  case False
  then show ?thesis
    using assms round_pos_is_representable [of x] unfolding round64_def representable_def by (simp add: Let_def)
qed

end
