(* ===== verification/Snmp.thy ===== *)
theory Snmp
  imports Telemetry Float64
begin

text \<open>
  Reading a device: \<open>internal/snmp/client.go\<close> and \<open>internal/snmp/core\<close> (\<open>snmp_v2_mib.go\<close>,
  \<open>if_mib.go\<close>, \<open>cdp.go\<close>).

  The SNMP library and the network are an argument, a \<open>snmp_client\<close>: what a GET of some OIDs
  returns, and for the walk of a root the PDUs it hands to the callback and how it ends.  A poll walks
  each root at most once, so this is a function of the root; a context that is cancelled shows as a
  walk or a GET that ends with an error.  The callbacks, the columns they fill and what becomes of
  partial walks is the code's.

  An error is a value of \<open>snmp_error\<close>: which of the code's errors it is, with the text of the ones
  that come from the library and whether the context is their cause.
\<close>

section \<open>PDUs\<close>

datatype asn_type = NoSuchObject | NoSuchInstance | NullPDU | EndOfMibView | OtherType

text \<open>The dynamic types the code tells apart; a signed value is the word read as signed.\<close>

datatype pdu_value = PUint "64 word" | PUint32 "32 word" | PUint64 "64 word"
  | PInt "64 word" | PInt32 "32 word" | PInt64 "64 word"
  | PFloat32 f64 | PFloat64 f64 | PString string | PBytes string | POther

record pdu =
  pd_Name :: string
  pd_Type :: asn_type
  pd_Value :: pdu_value

datatype snmp_error = ErrUnavailable | ErrNegative | ErrUnexpectedType | ErrOutsideSubtree | ErrIndex
  | ErrColumn | ErrRange | ErrVariables nat | ErrTransport bool string

definition unavailable :: "asn_type \<Rightarrow> bool" where
  "unavailable t \<longleftrightarrow> t \<in> {NoSuchObject, NoSuchInstance, NullPDU, EndOfMibView}"

definition unavailablePDU :: "pdu \<Rightarrow> snmp_error option" where
  "unavailablePDU p = (if unavailable (pd_Type p) then Some ErrUnavailable else None)"

definition nonnegative_word :: "int \<Rightarrow> snmp_error + 64 word" where
  "nonnegative_word i = (if i < 0 then Inl ErrNegative else Inr (of_int i))"

definition pduToUint64 :: "pdu \<Rightarrow> snmp_error + 64 word" where
  "pduToUint64 p =
     (if unavailable (pd_Type p) then Inl ErrUnavailable
      else (case pd_Value p of
          PUint w \<Rightarrow> Inr w
        | PUint32 w \<Rightarrow> Inr (ucast w)
        | PUint64 w \<Rightarrow> Inr w
        | PInt w \<Rightarrow> nonnegative_word (sint w)
        | PInt32 w \<Rightarrow> nonnegative_word (sint w)
        | PInt64 w \<Rightarrow> nonnegative_word (sint w)
        | _ \<Rightarrow> Inl ErrUnexpectedType))"

definition pduToString :: "pdu \<Rightarrow> snmp_error + string" where
  "pduToString p =
     (case unavailablePDU p of
        Some e \<Rightarrow> Inl e
      | None \<Rightarrow> (case pd_Value p of PString s \<Rightarrow> Inr s | PBytes s \<Rightarrow> Inr s | _ \<Rightarrow> Inl ErrUnexpectedType))"

definition pduToOID :: "pdu \<Rightarrow> snmp_error + string" where
  "pduToOID p =
     (case unavailablePDU p of
        Some e \<Rightarrow> Inl e
      | None \<Rightarrow> (case pd_Value p of PString s \<Rightarrow> Inr s | PBytes s \<Rightarrow> Inr s | _ \<Rightarrow> Inl ErrUnexpectedType))"

definition normalizeOID_core :: "string \<Rightarrow> string" where
  "normalizeOID_core oid = dropWhile (\<lambda>c. c = CHR ''.'') oid"

text \<open>\<open>strconv.Atoi\<close>: a sign, decimal digits, and the range of a 64-bit \<open>int\<close>.\<close>

definition Atoi :: "string \<Rightarrow> int option" where
  "Atoi s =
     (let (sign, ds) = (case s of [] \<Rightarrow> (1, []) | c # r \<Rightarrow>
            if c = CHR ''-'' then (- 1, r) else if c = CHR ''+'' then (1, r) else (1, s))
      in if ds = [] then None
         else Option.bind (digits_value 0 ds) (\<lambda>n. let v = sign * int n in
                if v < - (2 ^ 63) \<or> v \<ge> 2 ^ 63 then None else Some v))"

definition trim_dot :: "string \<Rightarrow> string" where
  "trim_dot s = (case s of CHR ''.'' # r \<Rightarrow> r | _ \<Rightarrow> s)"

definition oidIndex :: "string \<Rightarrow> string \<Rightarrow> snmp_error + int" where
  "oidIndex rootOID fullOID =
     (let name = trim_dot fullOID; base = trim_dot rootOID in
      if \<not> prefix (base @ ''.'') name then Inl ErrOutsideSubtree
      else (case Atoi (drop (length (base @ ''.'')) name) of None \<Rightarrow> Inl ErrIndex | Some i \<Rightarrow> Inr i))"

section \<open>The client\<close>

record walk_reply =
  wk_PDUs :: "pdu list"
  wk_Error :: "snmp_error option"
  wk_Cancelled :: bool

record snmp_client =
  cl_Get :: "string list \<Rightarrow> snmp_error + pdu list"
  cl_Walk :: "string \<Rightarrow> walk_reply"

text \<open>A walk hands its PDUs to the callback until the callback fails; then the walk fails with that error.\<close>

fun run_walk :: "(pdu \<Rightarrow> 's \<Rightarrow> snmp_error option \<times> 's) \<Rightarrow> pdu list \<Rightarrow> snmp_error option \<Rightarrow> 's \<Rightarrow> snmp_error option \<times> 's" where
  "run_walk step [] end s = (end, s)"
| "run_walk step (p # ps) end s =
     (case step p s of
        (Some e, s') \<Rightarrow> (Some e, s')
      | (None, s') \<Rightarrow> run_walk step ps end s')"

definition Walk :: "snmp_client \<Rightarrow> string \<Rightarrow> (pdu \<Rightarrow> 's \<Rightarrow> snmp_error option \<times> 's) \<Rightarrow> 's \<Rightarrow> snmp_error option \<times> 's" where
  "Walk cl base step s = run_walk step (wk_PDUs (cl_Walk cl base)) (wk_Error (cl_Walk cl base)) s"

record snmp_config =
  sn_Timeout :: duration
  sn_Retries :: int

definition EffectiveSNMP :: "device_config \<Rightarrow> snmp_config \<Rightarrow> snmp_config" where
  "EffectiveSNMP d shared =
     (let s1 = (if dc_Timeout d > 0 then shared\<lparr>sn_Timeout := dc_Timeout d\<rparr> else shared)
      in if dc_Retries d > 0 then s1\<lparr>sn_Retries := dc_Retries d\<rparr> else s1)"

text \<open>\<open>NewClient\<close> checks the version and the community variable; the session it returns is the argument of the poll.\<close>

datatype client_error = UnsupportedVersion string | CommunityUnset string

definition NewClient :: "(string \<Rightarrow> string) \<Rightarrow> device_config \<Rightarrow> client_error option" where
  "NewClient getenv d =
     (if dc_Version d \<noteq> ''2c'' then Some (UnsupportedVersion (dc_Version d))
      else if trim_space (getenv (dc_CommunityEnv d)) = [] then Some (CommunityUnset (dc_CommunityEnv d))
      else None)"

definition WithScaledTimeout :: "snmp_config \<Rightarrow> int \<Rightarrow> duration" where
  "WithScaledTimeout c scale =
     (let scale' = (if scale < 1 then 1 else scale);
          timeout = sint (of_int (sn_Timeout c) * (of_int (sn_Retries c) + 1) * of_int scale' :: 64 word)
      in if timeout \<le> 0 then 5000000000 else timeout)"

definition WithTimeout :: "snmp_config \<Rightarrow> duration" where
  "WithTimeout c = WithScaledTimeout c 1"

section \<open>The identity\<close>

definition OIDSysDescr :: string where "OIDSysDescr = ''1.3.6.1.2.1.1.1.0''"
definition OIDSysObjectID :: string where "OIDSysObjectID = ''1.3.6.1.2.1.1.2.0''"
definition OIDSysUpTime :: string where "OIDSysUpTime = ''1.3.6.1.2.1.1.3.0''"
definition OIDSysName :: string where "OIDSysName = ''1.3.6.1.2.1.1.5.0''"

definition and_then :: "'e + 'a \<Rightarrow> ('a \<Rightarrow> 'e + 'b) \<Rightarrow> 'e + 'b" where
  "and_then x f = (case x of Inl e \<Rightarrow> Inl e | Inr a \<Rightarrow> f a)"

definition TicksToSeconds :: "pdu \<Rightarrow> snmp_error + f64" where
  "TicksToSeconds p = and_then (pduToUint64 p) (\<lambda>ticks. Inr (f64_div (f64_of_int (uint ticks)) (Fin 100)))"

definition PollDevice :: "snmp_client \<Rightarrow> snmp_error + device_identity" where
  "PollDevice cl =
     and_then (cl_Get cl [OIDSysObjectID, OIDSysName, OIDSysDescr, OIDSysUpTime]) (\<lambda>vars. (case vars of
        [v0, v1, v2, v3] \<Rightarrow>
          and_then (pduToOID v0) (\<lambda>objectID.
          and_then (pduToString v1) (\<lambda>name.
          and_then (pduToString v2) (\<lambda>descr.
          and_then (TicksToSeconds v3) (\<lambda>uptime.
            Inr \<lparr>id_SysObjectID = normalizeOID_core objectID, id_SysName = name, id_SysDescr = descr,
                 id_UptimeSeconds = uptime\<rparr>))))
      | _ \<Rightarrow> Inl (ErrVariables (length vars))))"

section \<open>The interfaces\<close>

definition OIDIfIndex :: string where "OIDIfIndex = ''1.3.6.1.2.1.2.2.1.1''"
definition OIDIfDescr :: string where "OIDIfDescr = ''1.3.6.1.2.1.2.2.1.2''"
definition OIDIfType :: string where "OIDIfType = ''1.3.6.1.2.1.2.2.1.3''"
definition OIDIfSpeed :: string where "OIDIfSpeed = ''1.3.6.1.2.1.2.2.1.5''"
definition OIDIfAdminStatus :: string where "OIDIfAdminStatus = ''1.3.6.1.2.1.2.2.1.7''"
definition OIDIfOperStatus :: string where "OIDIfOperStatus = ''1.3.6.1.2.1.2.2.1.8''"
definition OIDIfLastChange :: string where "OIDIfLastChange = ''1.3.6.1.2.1.2.2.1.9''"
definition OIDIfInErrors :: string where "OIDIfInErrors = ''1.3.6.1.2.1.2.2.1.14''"
definition OIDIfOutErrors :: string where "OIDIfOutErrors = ''1.3.6.1.2.1.2.2.1.20''"
definition OIDIfName :: string where "OIDIfName = ''1.3.6.1.2.1.31.1.1.1.1''"
definition OIDIfHCInOctets :: string where "OIDIfHCInOctets = ''1.3.6.1.2.1.31.1.1.1.6''"
definition OIDIfHCOutOctets :: string where "OIDIfHCOutOctets = ''1.3.6.1.2.1.31.1.1.1.10''"
definition OIDIfHighSpeed :: string where "OIDIfHighSpeed = ''1.3.6.1.2.1.31.1.1.1.15''"
definition OIDIfAlias :: string where "OIDIfAlias = ''1.3.6.1.2.1.31.1.1.1.18''"
definition OIDIfInOctets :: string where "OIDIfInOctets = ''1.3.6.1.2.1.2.2.1.10''"
definition OIDIfOutOctets :: string where "OIDIfOutOctets = ''1.3.6.1.2.1.2.2.1.16''"

definition InterfacePollWalkBudget :: int where "InterfacePollWalkBudget = 16"

definition index_step :: "string \<Rightarrow> pdu \<Rightarrow> int list \<Rightarrow> snmp_error option \<times> int list" where
  "index_step base p s = (case oidIndex base (pd_Name p) of Inl e \<Rightarrow> (Some e, s) | Inr i \<Rightarrow> (None, s @ [i]))"

definition column_step :: "(pdu \<Rightarrow> snmp_error + 'v) \<Rightarrow> string \<Rightarrow> pdu \<Rightarrow> (int, 'v) gomap \<Rightarrow> snmp_error option \<times> (int, 'v) gomap" where
  "column_step read base p s = (case oidIndex base (pd_Name p) of
      Inl e \<Rightarrow> (Some e, s)
    | Inr i \<Rightarrow> (case read p of
          Inl e \<Rightarrow> if unavailable (pd_Type p) then (None, s) else (Some e, s)
        | Inr v \<Rightarrow> (None, AList.update i v s)))"

definition walk_result :: "snmp_error option \<times> 's \<Rightarrow> snmp_error + 's" where
  "walk_result r = (case r of (Some e, _) \<Rightarrow> Inl e | (None, s) \<Rightarrow> Inr s)"

definition walkIndexes :: "snmp_client \<Rightarrow> string \<Rightarrow> snmp_error + int list" where
  "walkIndexes cl base = map_sum id sort (walk_result (Walk cl base (index_step base) []))"

definition walkCounters :: "snmp_client \<Rightarrow> string \<Rightarrow> snmp_error + (int, 64 word) gomap" where
  "walkCounters cl base = walk_result (Walk cl base (column_step pduToUint64 base) [])"

definition walkStrings :: "snmp_client \<Rightarrow> string \<Rightarrow> snmp_error + (int, string) gomap" where
  "walkStrings cl base = walk_result (Walk cl base (column_step pduToString base) [])"

definition InterfaceTypeName :: "int \<Rightarrow> string" where
  "InterfaceTypeName ifType = (case map_of
     [(1, ''other''), (6, ''ethernetcsmacd''), (15, ''fddi''), (23, ''ppp''), (24, ''softwareloopback''),
      (32, ''framerelay''), (37, ''atm''), (53, ''propvirtual''), (71, ''ieee80211''), (131, ''tunnel''),
      (135, ''l2vlan''), (161, ''ieee8023adlag''), (209, ''bridge'')] ifType of
     Some name \<Rightarrow> name
   | None \<Rightarrow> itoa ifType)"

definition InterfaceStatusName :: "int \<Rightarrow> string" where
  "InterfaceStatusName status =
     (if status = 1 then ''up'' else if status = 2 then ''down'' else if status = 3 then ''testing'' else ''unknown'')"

record if_columns =
  fc_Descrs :: "(int, string) gomap"
  fc_Names :: "(int, string) gomap"
  fc_Aliases :: "(int, string) gomap"
  fc_Types :: "(int, 64 word) gomap"
  fc_Speeds :: "(int, 64 word) gomap"
  fc_HighSpeeds :: "(int, 64 word) gomap"
  fc_AdminStatuses :: "(int, 64 word) gomap"
  fc_OperStatuses :: "(int, 64 word) gomap"
  fc_LastChanges :: "(int, 64 word) gomap"
  fc_HCIn :: "(int, 64 word) gomap"
  fc_HCOut :: "(int, 64 word) gomap"
  fc_InErr :: "(int, 64 word) gomap"
  fc_OutErr :: "(int, 64 word) gomap"

definition read_columns :: "snmp_client \<Rightarrow> snmp_error + if_columns" where
  "read_columns cl =
     and_then (walkStrings cl OIDIfDescr) (\<lambda>descrs.
     and_then (walkStrings cl OIDIfName) (\<lambda>names.
     and_then (walkStrings cl OIDIfAlias) (\<lambda>aliases.
     and_then (walkCounters cl OIDIfType) (\<lambda>types.
     and_then (walkCounters cl OIDIfSpeed) (\<lambda>speeds.
     and_then (walkCounters cl OIDIfHighSpeed) (\<lambda>highSpeeds.
     and_then (walkCounters cl OIDIfAdminStatus) (\<lambda>adminStatuses.
     and_then (walkCounters cl OIDIfOperStatus) (\<lambda>operStatuses.
     and_then (walkCounters cl OIDIfLastChange) (\<lambda>lastChanges.
     and_then (walkCounters cl OIDIfHCInOctets) (\<lambda>hcIn.
     and_then (walkCounters cl OIDIfHCOutOctets) (\<lambda>hcOut.
     and_then (walkCounters cl OIDIfInErrors) (\<lambda>inErr.
     and_then (walkCounters cl OIDIfOutErrors) (\<lambda>outErr.
       Inr \<lparr>fc_Descrs = descrs, fc_Names = names, fc_Aliases = aliases, fc_Types = types, fc_Speeds = speeds,
         fc_HighSpeeds = highSpeeds, fc_AdminStatuses = adminStatuses, fc_OperStatuses = operStatuses,
         fc_LastChanges = lastChanges, fc_HCIn = hcIn, fc_HCOut = hcOut, fc_InErr = inErr, fc_OutErr = outErr\<rparr>)))))))))))))"

definition need_fallback :: "if_columns \<Rightarrow> int list \<Rightarrow> bool" where
  "need_fallback c indexes \<longleftrightarrow> list_ex (\<lambda>i. map_of (fc_HCIn c) i = None \<or> map_of (fc_HCOut c) i = None) indexes"

definition get0 :: "('k, 'v) gomap \<Rightarrow> 'v \<Rightarrow> 'k \<Rightarrow> 'v" where
  "get0 m zero k = (case map_of m k of None \<Rightarrow> zero | Some v \<Rightarrow> v)"

definition octets :: "if_columns \<Rightarrow> ((int, 64 word) gomap \<times> (int, 64 word) gomap) option \<Rightarrow> int
    \<Rightarrow> 64 word option \<times> 64 word option" where
  "octets c fallback i =
     (if map_of (fc_HCIn c) i \<noteq> None \<and> map_of (fc_HCOut c) i \<noteq> None then (map_of (fc_HCIn c) i, map_of (fc_HCOut c) i)
      else (case fallback of
          Some (in32, out32) \<Rightarrow> (map_of in32 i, map_of out32 i)
        | None \<Rightarrow> (map_of (fc_HCIn c) i, map_of (fc_HCOut c) i)))"

definition reading_at :: "if_columns \<Rightarrow> ((int, 64 word) gomap \<times> (int, 64 word) gomap) option \<Rightarrow> int \<Rightarrow> interface_reading" where
  "reading_at c fallback i =
     (let (inOctets, outOctets) = octets c fallback i;
          high = get0 (fc_HighSpeeds c) 0 i;
          ifType = sint (get0 (fc_Types c) 0 i)
      in \<lparr>if_IfIndex = i, if_IfDescr = get0 (fc_Descrs c) [] i, if_IfName = get0 (fc_Names c) [] i,
          if_IfAlias = get0 (fc_Aliases c) [] i, if_IfType = ifType, if_IfTypeName = InterfaceTypeName ifType,
          if_SpeedBPS = (if high > 0 then high * 1000000 else get0 (fc_Speeds c) 0 i),
          if_AdminStatus = InterfaceStatusName (sint (get0 (fc_AdminStatuses c) 0 i)),
          if_OperStatus = InterfaceStatusName (sint (get0 (fc_OperStatuses c) 0 i)),
          if_LastChangeSeconds = f64_div (f64_of_int (uint (get0 (fc_LastChanges c) 0 i))) (Fin 100),
          if_InOctets = (case inOctets of None \<Rightarrow> 0 | Some v \<Rightarrow> v),
          if_OutOctets = (case outOctets of None \<Rightarrow> 0 | Some v \<Rightarrow> v),
          if_InErrors = get0 (fc_InErr c) 0 i, if_OutErrors = get0 (fc_OutErr c) 0 i,
          if_HasCounters = (inOctets \<noteq> None \<and> outOctets \<noteq> None)\<rparr>)"

definition PollInterfaces :: "snmp_client \<Rightarrow> snmp_error + interface_reading list" where
  "PollInterfaces cl =
     and_then (walkIndexes cl OIDIfIndex) (\<lambda>indexes.
       if indexes = [] then Inr []
       else and_then (read_columns cl) (\<lambda>c.
         and_then (if need_fallback c indexes
             then and_then (walkCounters cl OIDIfInOctets) (\<lambda>in32.
                  and_then (walkCounters cl OIDIfOutOctets) (\<lambda>out32. Inr (Some (in32, out32))))
             else Inr None) (\<lambda>fallback.
           Inr (sort_key if_IfIndex (map (reading_at c fallback) indexes)))))"

text \<open>The variant the unit tests use drops every value it cannot read.\<close>

fun ParseInterfaceWalk :: "string \<Rightarrow> pdu list \<Rightarrow> (int, 64 word) gomap \<Rightarrow> snmp_error + (int, 64 word) gomap" where
  "ParseInterfaceWalk base [] out = Inr out"
| "ParseInterfaceWalk base (p # ps) out = (case oidIndex base (pd_Name p) of
      Inl e \<Rightarrow> Inl e
    | Inr i \<Rightarrow> ParseInterfaceWalk base ps (case pduToUint64 p of Inl _ \<Rightarrow> out | Inr v \<Rightarrow> AList.update i v out))"

section \<open>CDP neighbours\<close>

definition cdpCacheAddressOID :: string where "cdpCacheAddressOID = ''1.3.6.1.4.1.9.9.23.1.2.1.1.4''"

definition octet_text :: "char \<Rightarrow> string" where
  "octet_text c = digits (of_char c)"

definition parseCDPAddress :: "pdu \<Rightarrow> string option" where
  "parseCDPAddress p = (case pd_Value p of
      PBytes (t # l # a # b # c # d # _) \<Rightarrow>
        if of_char t = (1 :: nat) \<and> of_char l = (4 :: nat) \<and> [a, b, c, d] \<noteq> replicate 4 (char_of (0 :: nat))
        then Some (octet_text a @ ''.'' @ octet_text b @ ''.'' @ octet_text c @ ''.'' @ octet_text d) else None
    | _ \<Rightarrow> None)"

definition cdp_step :: "pdu \<Rightarrow> string list \<Rightarrow> snmp_error option \<times> string list" where
  "cdp_step p out = (case parseCDPAddress p of
      None \<Rightarrow> (None, out)
    | Some ip \<Rightarrow> (None, if ip \<in> set out then out else out @ [ip]))"

definition CDPNeighborIPs :: "snmp_client \<Rightarrow> snmp_error + string list" where
  "CDPNeighborIPs cl = walk_result (Walk cl cdpCacheAddressOID cdp_step [])"

end
