(* ===== verification/Vendors.thy ===== *)
theory Vendors
  imports Snmp "HOL-Library.Multiset"
begin

text \<open>
  The vendor profiles: \<open>internal/snmp/vendors/cisco/profile.go\<close>, \<open>internal/snmp/vendors/arista/profile.go\<close>
  and the registry \<open>internal/snmp/vendors/vendors.go\<close>.  The two packages repeat the functions that read
  a column; they are stated once here.

  What Go leaves to the machine is a \<open>machine\<close>: the order in which a \<open>range\<close> visits the keys of a map,
  the conversion of a \<open>float64\<close> outside the range of \<open>int64\<close>, and whether \<open>x * y + z\<close> is fused into
  one rounding (the compiler does so on ARM64, not on AMD64).
\<close>

record machine =
  mc_Order :: "nat \<Rightarrow> int list \<Rightarrow> int list"
  mc_Int64 :: "f64 \<Rightarrow> int"
  mc_Fused :: bool

definition machine_ok :: "machine \<Rightarrow> bool" where
  "machine_ok mc \<longleftrightarrow> (\<forall>n ks. mset (mc_Order mc n ks) = mset ks)"

section \<open>Reading a column\<close>

definition columnIndex :: "string \<Rightarrow> string \<Rightarrow> snmp_error + int" where
  "columnIndex base oid =
     (let p = normalizeOID_core base @ ''.''; o' = normalizeOID_core oid in
      if \<not> prefix p o' then Inl ErrOutsideSubtree
      else (let indexText = drop (length p) o' in
        if contains indexText ''.'' then Inl ErrColumn
        else (case Atoi indexText of None \<Rightarrow> Inl ErrColumn | Some i \<Rightarrow> if i < 0 then Inl ErrColumn else Inr i)))"

definition number :: "pdu_value \<Rightarrow> snmp_error + f64" where
  "number v = (case v of
      PInt w \<Rightarrow> Inr (f64_of_int (sint w))
    | PInt32 w \<Rightarrow> Inr (f64_of_int (sint w))
    | PInt64 w \<Rightarrow> Inr (f64_of_int (sint w))
    | PUint w \<Rightarrow> Inr (f64_of_int (uint w))
    | PUint32 w \<Rightarrow> Inr (f64_of_int (uint w))
    | PUint64 w \<Rightarrow> Inr (f64_of_int (uint w))
    | PFloat32 x \<Rightarrow> Inr x
    | PFloat64 x \<Rightarrow> Inr x
    | _ \<Rightarrow> Inl ErrUnexpectedType)"

definition to_int64 :: "machine \<Rightarrow> f64 \<Rightarrow> int" where
  "to_int64 mc x = (case x of
      Fin v \<Rightarrow> let i = (if v < 0 then \<lceil>v\<rceil> else \<lfloor>v\<rfloor>) in if - (2 ^ 63) \<le> i \<and> i < 2 ^ 63 then i else mc_Int64 mc x
    | _ \<Rightarrow> mc_Int64 mc x)"

definition integer :: "machine \<Rightarrow> pdu_value \<Rightarrow> snmp_error + int" where
  "integer mc v = and_then (number v) (\<lambda>x.
     let i = to_int64 mc x in if f64_of_int i \<noteq> x then Inl ErrRange else Inr i)"

definition text_value :: "pdu_value \<Rightarrow> snmp_error + string" where
  "text_value v = (case v of PString s \<Rightarrow> Inr s | PBytes s \<Rightarrow> Inr s | _ \<Rightarrow> Inl ErrUnexpectedType)"

definition percentValue :: "f64 \<Rightarrow> bool" where
  "percentValue v \<longleftrightarrow> \<not> (f64_lt v (Fin 0) \<or> f64_lt (Fin 100) v)"

definition nonNegativeValue :: "f64 \<Rightarrow> bool" where
  "nonNegativeValue v \<longleftrightarrow> \<not> f64_lt v (Fin 0)"

definition positiveValue :: "f64 \<Rightarrow> bool" where
  "positiveValue v \<longleftrightarrow> \<not> f64_le v (Fin 0)"

text \<open>The callbacks of a walk share their beginning and their error.\<close>

definition cell :: "string \<Rightarrow> (pdu_value \<Rightarrow> snmp_error + 'v) \<Rightarrow> (int \<Rightarrow> 'v \<Rightarrow> 's \<Rightarrow> 's) \<Rightarrow> pdu \<Rightarrow> 's \<Rightarrow> snmp_error option \<times> 's" where
  "cell base read store p s =
     (if unavailable (pd_Type p) then (None, s)
      else (case columnIndex base (pd_Name p) of
          Inl e \<Rightarrow> (Some e, s)
        | Inr i \<Rightarrow> (case read (pd_Value p) of
              Inl e \<Rightarrow> (Some e, s)
            | Inr v \<Rightarrow> (None, store i v s))))"

definition checked_number :: "(f64 \<Rightarrow> bool) \<Rightarrow> pdu_value \<Rightarrow> snmp_error + f64" where
  "checked_number valid v = and_then (number v) (\<lambda>x. if valid x then Inr x else Inl ErrRange)"

definition numericColumn :: "string \<Rightarrow> (f64 \<Rightarrow> bool) \<Rightarrow> pdu \<Rightarrow> (int, f64) gomap \<Rightarrow> snmp_error option \<times> (int, f64) gomap" where
  "numericColumn base valid = cell base (checked_number valid) AList.update"

definition on_part :: "('s \<Rightarrow> 'm) \<Rightarrow> (('m \<Rightarrow> 'm) \<Rightarrow> 's \<Rightarrow> 's) \<Rightarrow> (pdu \<Rightarrow> 'm \<Rightarrow> snmp_error option \<times> 'm) \<Rightarrow> pdu \<Rightarrow> 's \<Rightarrow> snmp_error option \<times> 's" where
  "on_part part upd step p s = (case step p (part s) of (e, m) \<Rightarrow> (e, upd (\<lambda>_. m) s))"

text \<open>A walk that fails is recorded and the next ones are tried, unless the context is done.\<close>

fun collect_walks :: "snmp_client \<Rightarrow> (string \<times> (pdu \<Rightarrow> 's \<Rightarrow> snmp_error option \<times> 's)) list \<Rightarrow> 's \<Rightarrow> snmp_error list \<times> 's" where
  "collect_walks cl [] s = ([], s)"
| "collect_walks cl ((base, step) # ws) s =
     (case Walk cl base step s of
        (None, s') \<Rightarrow> collect_walks cl ws s'
      | (Some e, s') \<Rightarrow>
          if wk_Cancelled (cl_Walk cl base) then ([e], s')
          else (case collect_walks cl ws s' of (es, s'') \<Rightarrow> (e # es, s'')))"

definition sum_of :: "machine \<Rightarrow> nat \<Rightarrow> (int, f64) gomap \<Rightarrow> f64" where
  "sum_of mc n m = fold (\<lambda>k total. f64_add total (get0 m (Fin 0) k)) (mc_Order mc n (map fst m)) (Fin 0)"

definition average :: "machine \<Rightarrow> (int, f64) gomap \<Rightarrow> f64 option" where
  "average mc values =
     (if values = [] then None
      else Some (f64_div (sum_of mc 0 values) (f64_of_int (int (length values)))))"

definition percent_of :: "f64 \<Rightarrow> f64 \<Rightarrow> f64" where
  "percent_of part whole = f64_mul (f64_div part whole) (Fin 100)"

definition all_capabilities :: "64 word" where
  "all_capabilities = or (or (or CapabilityCPU CapabilityMemory) CapabilityTemperature) CapabilityPower"

section \<open>Cisco IOS and IOS-XE\<close>

definition oidCPU5Min :: string where "oidCPU5Min = ''1.3.6.1.4.1.9.9.109.1.1.1.1.8''"
definition oidMemoryPoolUsed :: string where "oidMemoryPoolUsed = ''1.3.6.1.4.1.9.9.48.1.1.1.5''"
definition oidMemoryPoolFree :: string where "oidMemoryPoolFree = ''1.3.6.1.4.1.9.9.48.1.1.1.6''"
definition oidTemperatureDescr :: string where "oidTemperatureDescr = ''1.3.6.1.4.1.9.9.13.1.3.1.2''"
definition oidTemperatureValue :: string where "oidTemperatureValue = ''1.3.6.1.4.1.9.9.13.1.3.1.3''"
definition oidTemperatureState :: string where "oidTemperatureState = ''1.3.6.1.4.1.9.9.13.1.3.1.6''"
definition oidSupplyDescr :: string where "oidSupplyDescr = ''1.3.6.1.4.1.9.9.13.1.5.1.2''"
definition oidSupplyState :: string where "oidSupplyState = ''1.3.6.1.4.1.9.9.13.1.5.1.3''"

definition cisco_profile :: profile where
  "cisco_profile = \<lparr>pr_Name = ''cisco'', pr_ExactObjectIDs = [''1.3.6.1.4.1.9.1.1745''], pr_ObjectIDPrefixes = [],
     pr_GenericVendorPrefix = ''1.3.6.1.4.1.9''\<rparr>"

record component =
  ck_index :: int
  ck_name :: string
  ck_value :: "f64 option"
  ck_status :: string
  ck_source :: string

type_synonym components = "(int, component) gomap"

definition componentAt :: "components \<Rightarrow> int \<Rightarrow> component" where
  "componentAt m i = (case map_of m i of
      None \<Rightarrow> \<lparr>ck_index = i, ck_name = [], ck_value = None, ck_status = [], ck_source = []\<rparr>
    | Some c \<Rightarrow> c)"

definition stringColumn :: "string \<Rightarrow> pdu \<Rightarrow> components \<Rightarrow> snmp_error option \<times> components" where
  "stringColumn base = cell base text_value (\<lambda>i v m. AList.update i ((componentAt m i)\<lparr>ck_name := v\<rparr>) m)"

definition componentValueColumn :: "string \<Rightarrow> pdu \<Rightarrow> components \<Rightarrow> snmp_error option \<times> components" where
  "componentValueColumn base = cell base (checked_number nonNegativeValue)
     (\<lambda>i v m. AList.update i ((componentAt m i)\<lparr>ck_value := Some v, ck_source := base\<rparr>) m)"

definition componentStatusColumn :: "machine \<Rightarrow> string \<Rightarrow> (int \<Rightarrow> string) \<Rightarrow> pdu \<Rightarrow> components \<Rightarrow> snmp_error option \<times> components" where
  "componentStatusColumn mc base status = cell base (integer mc)
     (\<lambda>i v m. let c = componentAt m i in AList.update i
        (c\<lparr>ck_status := status v, ck_source := (if ck_source c = [] then base else ck_source c)\<rparr>) m)"

definition ciscoEnvironmentStatus :: "int \<Rightarrow> string" where
  "ciscoEnvironmentStatus v =
     (if v = 1 then ''ok'' else if v = 2 then ''warning'' else if v = 3 then ''critical''
      else if v = 5 then ''not_present'' else ''unknown'')"

record cisco_tables =
  ci_cpu :: "(int, f64) gomap"
  ci_memoryUsed :: "(int, f64) gomap"
  ci_memoryFree :: "(int, f64) gomap"
  ci_temperatures :: components
  ci_supplies :: components

definition cisco_walks :: "machine \<Rightarrow> (string \<times> (pdu \<Rightarrow> cisco_tables \<Rightarrow> snmp_error option \<times> cisco_tables)) list" where
  "cisco_walks mc =
     [(oidCPU5Min, on_part ci_cpu ci_cpu_update (numericColumn oidCPU5Min percentValue)),
      (oidMemoryPoolUsed, on_part ci_memoryUsed ci_memoryUsed_update (numericColumn oidMemoryPoolUsed nonNegativeValue)),
      (oidMemoryPoolFree, on_part ci_memoryFree ci_memoryFree_update (numericColumn oidMemoryPoolFree nonNegativeValue)),
      (oidTemperatureDescr, on_part ci_temperatures ci_temperatures_update (stringColumn oidTemperatureDescr)),
      (oidTemperatureValue, on_part ci_temperatures ci_temperatures_update (componentValueColumn oidTemperatureValue)),
      (oidTemperatureState, on_part ci_temperatures ci_temperatures_update
         (componentStatusColumn mc oidTemperatureState ciscoEnvironmentStatus)),
      (oidSupplyDescr, on_part ci_supplies ci_supplies_update (stringColumn oidSupplyDescr)),
      (oidSupplyState, on_part ci_supplies ci_supplies_update
         (componentStatusColumn mc oidSupplyState ciscoEnvironmentStatus))]"

text \<open>The pools with both columns, in the order of the \<open>range\<close>.\<close>

definition pools :: "machine \<Rightarrow> (int, f64) gomap \<Rightarrow> (int, f64) gomap \<Rightarrow> (f64 \<times> f64) list" where
  "pools mc used free = map (\<lambda>k. (get0 used (Fin 0) k, get0 free (Fin 0) k))
     (filter (\<lambda>k. map_of free k \<noteq> None) (mc_Order mc 1 (map fst used)))"

definition add_pairs :: "(f64 \<times> f64) list \<Rightarrow> f64 \<times> f64 \<Rightarrow> f64 \<times> f64" where
  "add_pairs = fold (\<lambda>(u, f) (totalUsed, totalFree). (f64_add totalUsed u, f64_add totalFree f))"

definition memoryUtilization :: "machine \<Rightarrow> (int, f64) gomap \<Rightarrow> (int, f64) gomap \<Rightarrow> f64 option" where
  "memoryUtilization mc used free =
     (let ps = pools mc used free; (totalUsed, totalFree) = add_pairs ps (Fin 0, Fin 0);
          total = f64_add totalUsed totalFree
      in if ps = [] \<or> f64_le total (Fin 0) then None else Some (percent_of totalUsed total))"

definition sortedComponents :: "components \<Rightarrow> string \<Rightarrow> component_reading list" where
  "sortedComponents m unit =
     map (\<lambda>i. let c = componentAt m i in
         \<lparr>cr_Index = ck_index c, cr_Name = ck_name c, cr_Value = ck_value c,
          cr_Unit = (if ck_value c = None then [] else unit), cr_Status = ck_status c, cr_SourceOID = ck_source c\<rparr>)
       (sort (map fst (filter (\<lambda>(_, c). \<not> (ck_name c = [] \<and> ck_value c = None \<and> ck_status c = [])) m)))"

definition temperatureReadings :: "components \<Rightarrow> component_reading list" where
  "temperatureReadings m = sortedComponents m ''celsius''"

definition powerReadings :: "components \<Rightarrow> component_reading list" where
  "powerReadings m = sortedComponents m []"

definition cisco_readings :: "machine \<Rightarrow> cisco_tables \<Rightarrow> vendor_readings" where
  "cisco_readings mc t =
     \<lparr>vr_Profile = ''cisco'', vr_Capabilities = all_capabilities,
      vr_CPU = map_option (\<lambda>v. \<lparr>sr_Value = v, sr_SourceOID = oidCPU5Min\<rparr>) (average mc (ci_cpu t)),
      vr_Memory = map_option (\<lambda>v. \<lparr>sr_Value = v, sr_SourceOID = oidMemoryPoolUsed\<rparr>)
        (memoryUtilization mc (ci_memoryUsed t) (ci_memoryFree t)),
      vr_Temperatures = temperatureReadings (ci_temperatures t), vr_Power = powerReadings (ci_supplies t)\<rparr>"

definition CollectCisco :: "machine \<Rightarrow> snmp_client \<Rightarrow> snmp_error list \<times> vendor_readings" where
  "CollectCisco mc cl =
     (case collect_walks cl (cisco_walks mc)
        \<lparr>ci_cpu = [], ci_memoryUsed = [], ci_memoryFree = [], ci_temperatures = [], ci_supplies = []\<rparr> of
      (errs, t) \<Rightarrow> (errs, cisco_readings mc t))"

section \<open>Arista EOS\<close>

definition oidProcessorLoad :: string where "oidProcessorLoad = ''1.3.6.1.2.1.25.3.3.1.2''"
definition oidStorageType :: string where "oidStorageType = ''1.3.6.1.2.1.25.2.3.1.2''"
definition oidStorageAllocUnits :: string where "oidStorageAllocUnits = ''1.3.6.1.2.1.25.2.3.1.4''"
definition oidStorageSize :: string where "oidStorageSize = ''1.3.6.1.2.1.25.2.3.1.5''"
definition oidStorageUsed :: string where "oidStorageUsed = ''1.3.6.1.2.1.25.2.3.1.6''"
definition oidPhysicalDescr :: string where "oidPhysicalDescr = ''1.3.6.1.2.1.47.1.1.1.1.2''"
definition oidPhysicalClass :: string where "oidPhysicalClass = ''1.3.6.1.2.1.47.1.1.1.1.5''"
definition oidEntityStateOper :: string where "oidEntityStateOper = ''1.3.6.1.2.1.131.1.1.1.3''"
definition oidSensorType :: string where "oidSensorType = ''1.3.6.1.2.1.99.1.1.1.1''"
definition oidSensorScale :: string where "oidSensorScale = ''1.3.6.1.2.1.99.1.1.1.2''"
definition oidSensorPrecision :: string where "oidSensorPrecision = ''1.3.6.1.2.1.99.1.1.1.3''"
definition oidSensorValue :: string where "oidSensorValue = ''1.3.6.1.2.1.99.1.1.1.4''"
definition oidSensorOperStatus :: string where "oidSensorOperStatus = ''1.3.6.1.2.1.99.1.1.1.5''"
definition oidHostResourcesFixedRAM :: string where "oidHostResourcesFixedRAM = ''1.3.6.1.2.1.25.2.1.2''"

definition entityClassPowerSupply :: int where "entityClassPowerSupply = 6"

definition arista_profile :: profile where
  "arista_profile = \<lparr>pr_Name = ''arista'', pr_ExactObjectIDs = [''1.3.6.1.4.1.30065.1.3011.7050.3282.52''],
     pr_ObjectIDPrefixes = [''1.3.6.1.4.1.30065.1.3011.7050''], pr_GenericVendorPrefix = ''1.3.6.1.4.1.30065''\<rparr>"

record physical_entity =
  pe_index :: int
  pe_name :: string
  pe_class :: int
  pe_status :: string

record sensor =
  sx_index :: int
  sx_sensorType :: int
  sx_hasType :: bool
  sx_scale :: int
  sx_hasScale :: bool
  sx_precision :: int
  sx_hasPrecision :: bool
  sx_value :: int
  sx_hasValue :: bool
  sx_status :: string

definition physicalAt :: "(int, physical_entity) gomap \<Rightarrow> int \<Rightarrow> physical_entity" where
  "physicalAt m i = get0 m \<lparr>pe_index = i, pe_name = [], pe_class = 0, pe_status = []\<rparr> i"

definition sensorAt :: "(int, sensor) gomap \<Rightarrow> int \<Rightarrow> sensor" where
  "sensorAt m i = get0 m \<lparr>sx_index = i, sx_sensorType = 0, sx_hasType = False, sx_scale = 0, sx_hasScale = False,
     sx_precision = 0, sx_hasPrecision = False, sx_value = 0, sx_hasValue = False, sx_status = []\<rparr> i"

definition oidColumn :: "string \<Rightarrow> pdu \<Rightarrow> (int, string) gomap \<Rightarrow> snmp_error option \<times> (int, string) gomap" where
  "oidColumn base = cell base text_value (\<lambda>i v. AList.update i (normalizeOID_core v))"

definition physicalStringColumn :: "string \<Rightarrow> pdu \<Rightarrow> (int, physical_entity) gomap
    \<Rightarrow> snmp_error option \<times> (int, physical_entity) gomap" where
  "physicalStringColumn base = cell base text_value (\<lambda>i v m. AList.update i ((physicalAt m i)\<lparr>pe_name := v\<rparr>) m)"

definition physicalIntegerColumn :: "machine \<Rightarrow> string \<Rightarrow> (int \<Rightarrow> physical_entity \<Rightarrow> physical_entity) \<Rightarrow> pdu
    \<Rightarrow> (int, physical_entity) gomap \<Rightarrow> snmp_error option \<times> (int, physical_entity) gomap" where
  "physicalIntegerColumn mc base assign = cell base (integer mc) (\<lambda>i v m. AList.update i (assign v (physicalAt m i)) m)"

definition sensorIntegerColumn :: "machine \<Rightarrow> string \<Rightarrow> (int \<Rightarrow> sensor \<Rightarrow> sensor) \<Rightarrow> pdu
    \<Rightarrow> (int, sensor) gomap \<Rightarrow> snmp_error option \<times> (int, sensor) gomap" where
  "sensorIntegerColumn mc base assign = cell base (integer mc) (\<lambda>i v m. AList.update i (assign v (sensorAt m i)) m)"

definition sensorOperStatus :: "int \<Rightarrow> string" where
  "sensorOperStatus v = (if v = 1 then ''ok'' else if v = 3 then ''critical'' else ''unknown'')"

definition entityOperStatus :: "int \<Rightarrow> string" where
  "entityOperStatus v = (if v = 2 then ''ok'' else if v = 3 then ''not_present'' else ''unknown'')"

record arista_tables =
  ar_cpu :: "(int, f64) gomap"
  ar_storageTypes :: "(int, string) gomap"
  ar_allocationUnits :: "(int, f64) gomap"
  ar_storageSizes :: "(int, f64) gomap"
  ar_storageUsed :: "(int, f64) gomap"
  ar_physical :: "(int, physical_entity) gomap"
  ar_sensors :: "(int, sensor) gomap"

definition arista_walks :: "machine \<Rightarrow> (string \<times> (pdu \<Rightarrow> arista_tables \<Rightarrow> snmp_error option \<times> arista_tables)) list" where
  "arista_walks mc =
     [(oidProcessorLoad, on_part ar_cpu ar_cpu_update (numericColumn oidProcessorLoad percentValue)),
      (oidStorageType, on_part ar_storageTypes ar_storageTypes_update (oidColumn oidStorageType)),
      (oidStorageAllocUnits, on_part ar_allocationUnits ar_allocationUnits_update (numericColumn oidStorageAllocUnits positiveValue)),
      (oidStorageSize, on_part ar_storageSizes ar_storageSizes_update (numericColumn oidStorageSize nonNegativeValue)),
      (oidStorageUsed, on_part ar_storageUsed ar_storageUsed_update (numericColumn oidStorageUsed nonNegativeValue)),
      (oidPhysicalDescr, on_part ar_physical ar_physical_update (physicalStringColumn oidPhysicalDescr)),
      (oidPhysicalClass, on_part ar_physical ar_physical_update
         (physicalIntegerColumn mc oidPhysicalClass (\<lambda>v e. e\<lparr>pe_class := v\<rparr>))),
      (oidEntityStateOper, on_part ar_physical ar_physical_update
         (physicalIntegerColumn mc oidEntityStateOper (\<lambda>v e. e\<lparr>pe_status := entityOperStatus v\<rparr>))),
      (oidSensorType, on_part ar_sensors ar_sensors_update
         (sensorIntegerColumn mc oidSensorType (\<lambda>v e. e\<lparr>sx_sensorType := v, sx_hasType := True\<rparr>))),
      (oidSensorScale, on_part ar_sensors ar_sensors_update
         (sensorIntegerColumn mc oidSensorScale (\<lambda>v e. e\<lparr>sx_scale := v, sx_hasScale := True\<rparr>))),
      (oidSensorPrecision, on_part ar_sensors ar_sensors_update
         (sensorIntegerColumn mc oidSensorPrecision (\<lambda>v e. e\<lparr>sx_precision := v, sx_hasPrecision := True\<rparr>))),
      (oidSensorValue, on_part ar_sensors ar_sensors_update
         (sensorIntegerColumn mc oidSensorValue (\<lambda>v e. e\<lparr>sx_value := v, sx_hasValue := True\<rparr>))),
      (oidSensorOperStatus, on_part ar_sensors ar_sensors_update
         (sensorIntegerColumn mc oidSensorOperStatus (\<lambda>v e. e\<lparr>sx_status := sensorOperStatus v\<rparr>)))]"

definition mul_add :: "machine \<Rightarrow> f64 \<Rightarrow> f64 \<Rightarrow> f64 \<Rightarrow> f64" where
  "mul_add mc x y z = (if mc_Fused mc then f64_fma x y z else f64_add z (f64_mul x y))"

text \<open>The fixed memory of the storage table: its allocation unit, size and use, where all are there.\<close>

definition ram :: "machine \<Rightarrow> arista_tables \<Rightarrow> (f64 \<times> f64 \<times> f64) list" where
  "ram mc t = map (\<lambda>k. (get0 (ar_allocationUnits t) (Fin 0) k, get0 (ar_storageSizes t) (Fin 0) k, get0 (ar_storageUsed t) (Fin 0) k))
     (filter (\<lambda>k. map_of (ar_storageTypes t) k = Some oidHostResourcesFixedRAM \<and> map_of (ar_allocationUnits t) k \<noteq> None
         \<and> map_of (ar_storageSizes t) k \<noteq> None \<and> map_of (ar_storageUsed t) k \<noteq> None
         \<and> \<not> f64_lt (get0 (ar_storageSizes t) (Fin 0) k) (get0 (ar_storageUsed t) (Fin 0) k))
       (mc_Order mc 1 (map fst (ar_storageTypes t))))"

definition add_ram :: "machine \<Rightarrow> (f64 \<times> f64 \<times> f64) list \<Rightarrow> f64 \<times> f64 \<Rightarrow> f64 \<times> f64" where
  "add_ram mc = fold (\<lambda>(unit, size, used) (usedBytes, totalBytes). (mul_add mc used unit usedBytes, mul_add mc size unit totalBytes))"

definition memoryUtilization_arista :: "machine \<Rightarrow> arista_tables \<Rightarrow> f64 option" where
  "memoryUtilization_arista mc t =
     (let rs = ram mc t; (usedBytes, totalBytes) = add_ram mc rs (Fin 0, Fin 0)
      in if rs = [] \<or> f64_le totalBytes (Fin 0) then None else Some (percent_of usedBytes totalBytes))"

definition sensorDestination :: "int \<Rightarrow> (string \<times> string) option" where
  "sensorDestination t =
     (if t = 8 then Some (''celsius'', ''temperature'') else if t = 6 then Some (''watts'', ''power'')
      else if t = 3 then Some (''volts_ac'', ''power'') else if t = 4 then Some (''volts_dc'', ''power'')
      else if t = 5 then Some (''amperes'', ''power'') else None)"

definition scaleExponent :: "int \<Rightarrow> int" where
  "scaleExponent scale = (if scale < 1 \<or> scale > 17 then 0 else (scale - 9) * 3)"

definition sensor_value :: "sensor \<Rightarrow> f64 option" where
  "sensor_value e =
     (if sx_hasValue e \<and> sx_hasScale e \<and> sx_hasPrecision e
      then Some (f64_mul (f64_of_int (sx_value e))
        (Pow10 (sint (of_int (scaleExponent (sx_scale e)) - of_int (sx_precision e) :: 64 word))))
      else None)"

definition sensor_unit :: "sensor \<Rightarrow> string" where
  "sensor_unit e = (case sensorDestination (sx_sensorType e) of None \<Rightarrow> [] | Some (unit, _) \<Rightarrow> unit)"

definition sensor_reading :: "arista_tables \<Rightarrow> int \<Rightarrow> component_reading" where
  "sensor_reading t i =
     (let e = sensorAt (ar_sensors t) i in
      \<lparr>cr_Index = i, cr_Name = (case map_of (ar_physical t) i of None \<Rightarrow> [] | Some p \<Rightarrow> pe_name p),
       cr_Value = sensor_value e, cr_Unit = (if sensor_value e = None then [] else sensor_unit e),
       cr_Status = sx_status e, cr_SourceOID = oidSensorValue\<rparr>)"

text \<open>The sensors of one destination, by index.\<close>

definition destined :: "string \<Rightarrow> sensor \<Rightarrow> bool" where
  "destined destination e \<longleftrightarrow> sx_hasType e \<and> map_option snd (sensorDestination (sx_sensorType e)) = Some destination"

definition sensor_readings :: "arista_tables \<Rightarrow> string \<Rightarrow> component_reading list" where
  "sensor_readings t destination =
     map (sensor_reading t) (filter (\<lambda>i. destined destination (sensorAt (ar_sensors t) i)) (sort (map fst (ar_sensors t))))"

definition supply_readings :: "arista_tables \<Rightarrow> component_reading list" where
  "supply_readings t = map (\<lambda>i. \<lparr>cr_Index = i, cr_Name = pe_name (physicalAt (ar_physical t) i), cr_Value = None, cr_Unit = [],
       cr_Status = pe_status (physicalAt (ar_physical t) i), cr_SourceOID = oidEntityStateOper\<rparr>)
     (sort (map fst (filter (\<lambda>(_, e). pe_class e = entityClassPowerSupply) (ar_physical t))))"

definition componentReadings :: "arista_tables \<Rightarrow> component_reading list \<times> component_reading list" where
  "componentReadings t = (sensor_readings t ''temperature'', sensor_readings t ''power'' @ supply_readings t)"

definition arista_readings :: "machine \<Rightarrow> arista_tables \<Rightarrow> vendor_readings" where
  "arista_readings mc t =
     (case componentReadings t of (temperatures, powers) \<Rightarrow>
       \<lparr>vr_Profile = ''arista'', vr_Capabilities = all_capabilities,
        vr_CPU = map_option (\<lambda>v. \<lparr>sr_Value = v, sr_SourceOID = oidProcessorLoad\<rparr>) (average mc (ar_cpu t)),
        vr_Memory = map_option (\<lambda>v. \<lparr>sr_Value = v, sr_SourceOID = oidStorageUsed\<rparr>) (memoryUtilization_arista mc t),
        vr_Temperatures = temperatures, vr_Power = powers\<rparr>)"

definition CollectArista :: "machine \<Rightarrow> snmp_client \<Rightarrow> snmp_error list \<times> vendor_readings" where
  "CollectArista mc cl =
     (case collect_walks cl (arista_walks mc)
        \<lparr>ar_cpu = [], ar_storageTypes = [], ar_allocationUnits = [], ar_storageSizes = [], ar_storageUsed = [],
         ar_physical = [], ar_sensors = []\<rparr> of
      (errs, t) \<Rightarrow> (errs, arista_readings mc t))"

section \<open>The registry\<close>

definition vendor_registry :: "profile list" where
  "vendor_registry = [cisco_profile, arista_profile]"

definition Collect :: "machine \<Rightarrow> profile \<Rightarrow> snmp_client \<Rightarrow> snmp_error list \<times> vendor_readings" where
  "Collect mc p cl = (if p = cisco_profile then CollectCisco mc cl else CollectArista mc cl)"

end
