(* ===== verification/Poller.thy ===== *)
theory Poller
  imports Vendors
begin

text \<open>
  The polling loop: \<open>internal/poller/poller.go\<close> with the operator's cache \<open>internal/status/store.go\<close>.

  A poll of a device is a function of its \<open>poll_env\<close>: the SNMP session, the environment, the clock, the
  event IDs, the configuration revision (a hash) and whether the publisher takes the events.  The
  workers of a cycle finish in some order, and a cancelled context leaves some devices out; both are
  the list of the devices whose polls finished, an argument of \<open>pollAll\<close>.
\<close>

section \<open>The operator's cache\<close>

datatype poll_class = PollSuccess | PollFailure

record component_summary =
  cs_Profile :: string
  cs_TemperatureCount :: nat
  cs_PowerCount :: nat
  cs_HasCPU :: bool
  cs_HasMemory :: bool
  cs_PrimaryTempC :: "f64 option"
  cs_CPUUtilizationPct :: "f64 option"
  cs_MemUtilizationPct :: "f64 option"

definition no_components :: component_summary where
  "no_components = \<lparr>cs_Profile = [], cs_TemperatureCount = 0, cs_PowerCount = 0, cs_HasCPU = False, cs_HasMemory = False,
     cs_PrimaryTempC = None, cs_CPUUtilizationPct = None, cs_MemUtilizationPct = None\<rparr>"

record device_poll =
  dp_DeviceID :: string
  dp_ObservedAt :: time
  dp_Result :: poll_class
  dp_ErrorClass :: string
  dp_SysName :: string
  dp_SysObjectID :: string
  dp_Interfaces :: filter_summary
  dp_Components :: component_summary

record reload_status =
  rl_Success :: bool
  rl_Message :: string
  rl_Revision :: string
  rl_ObservedAt :: time

record status_store =
  sc_Devices :: "(string, device_poll) gomap"
  sc_Reload :: "reload_status option"
  sc_Revision :: string

definition SetRevision :: "string \<Rightarrow> status_store \<Rightarrow> status_store" where
  "SetRevision revision s = s\<lparr>sc_Revision := revision\<rparr>"

definition RecordReload :: "time \<Rightarrow> bool \<Rightarrow> string \<Rightarrow> string \<Rightarrow> status_store \<Rightarrow> status_store" where
  "RecordReload now success message revision s =
     (let s1 = s\<lparr>sc_Reload := Some \<lparr>rl_Success = success, rl_Message = message, rl_Revision = revision, rl_ObservedAt = now\<rparr>\<rparr>
      in if success \<and> revision \<noteq> [] then s1\<lparr>sc_Revision := revision\<rparr> else s1)"

definition RecordPoll :: "device_poll \<Rightarrow> status_store \<Rightarrow> status_store" where
  "RecordPoll p s = s\<lparr>sc_Devices := AList.update (dp_DeviceID p) p (sc_Devices s)\<rparr>"

definition Device_status :: "status_store \<Rightarrow> string \<Rightarrow> device_poll option" where
  "Device_status s i = map_of (sc_Devices s) i"

definition Prune_status :: "string set \<Rightarrow> status_store \<Rightarrow> status_store" where
  "Prune_status active s = s\<lparr>sc_Devices := mprune (\<lambda>i _. i \<in> active) (sc_Devices s)\<rparr>"

section \<open>Errors\<close>

datatype poll_error = PollClient client_error | PollConnect bool string | PollSNMP snmp_error | PollFilter string
  | PollPublish bool string

definition text_class :: "string \<Rightarrow> string" where
  "text_class text =
     (let msg = to_lower text in
      if contains msg ''timeout'' \<or> contains msg ''deadline'' then ''timeout''
      else if contains msg ''parse'' \<or> contains msg ''unexpected type'' \<or> contains msg ''unavailable'' then ''parse_error''
      else ''snmp_error'')"

text \<open>
  The class of an error is read off its message; the constructors stand for the messages of the code,
  and the text of the others is their own.  A context error is a timeout whatever its text.
\<close>

fun classifyError :: "poll_error \<Rightarrow> string" where
  "classifyError (PollClient (UnsupportedVersion v)) = text_class (''unsupported SNMP version '' @ v)"
| "classifyError (PollClient (CommunityUnset v)) = text_class (''SNMP community environment variable '' @ v @ '' is not set'')"
| "classifyError (PollConnect ctx text) = (if ctx then ''timeout'' else text_class (''snmp connect: '' @ text))"
| "classifyError (PollSNMP (ErrTransport ctx text)) = (if ctx then ''timeout'' else text_class text)"
| "classifyError (PollSNMP ErrUnavailable) = ''parse_error''"
| "classifyError (PollSNMP ErrUnexpectedType) = ''parse_error''"
| "classifyError (PollSNMP ErrIndex) = ''parse_error''"
| "classifyError (PollSNMP _) = ''snmp_error''"
| "classifyError (PollFilter text) = text_class (''compile interface filter: '' @ text)"
| "classifyError (PollPublish ctx text) = (if ctx then ''timeout'' else text_class text)"

section \<open>The poll of a device\<close>

record poll_env =
  pv_Getenv :: "string \<Rightarrow> string"
  pv_ConnectError :: "(bool \<times> string) option"
  pv_Client :: snmp_client
  pv_Machine :: machine
  pv_Compile :: "string \<Rightarrow> regex option"
  pv_Revision :: string
  pv_EventIDs :: "nat \<Rightarrow> string"
  pv_ObservedAt :: time
  pv_EmittedAt :: time
  pv_Finished :: time
  pv_PublishError :: "(bool \<times> string) option"

definition profileWalkBudget :: int where "profileWalkBudget = 13"

definition enrichProfile :: "machine \<Rightarrow> snmp_client \<Rightarrow> poll_result \<Rightarrow> poll_result" where
  "enrichProfile mc cl r =
     (case fst (Match vendor_registry (id_SysObjectID (px_Identity r))) of
        None \<Rightarrow> r\<lparr>px_Vendor := no_vendor\<lparr>vr_Profile := ''core''\<rparr>\<rparr>
      | Some p \<Rightarrow>
          (let v0 = snd (Collect mc p cl);
               v1 = (if vr_Profile v0 = [] then v0\<lparr>vr_Profile := pr_Name p\<rparr> else v0);
               v2 = (if vr_Capabilities v1 = 0 then v1\<lparr>vr_Capabilities := all_capabilities\<rparr> else v1)
           in r\<lparr>px_Vendor := v2\<rparr>))"

definition poll_context :: "poll_env \<Rightarrow> config \<Rightarrow> tel_context" where
  "poll_context env cfg = \<lparr>tc_SiteID = c_SiteID cfg, tc_CollectorID = c_CollectorID cfg,
     tc_ConfigRevision = pv_Revision env, tc_EmittedAt = pv_EmittedAt env\<rparr>"

text \<open>What the stages before the publication make of the device: an error, or the result.\<close>

definition poll_stages :: "poll_env \<Rightarrow> config \<Rightarrow> device_config \<Rightarrow> poll_error + poll_result" where
  "poll_stages env cfg d =
     (case NewClient (pv_Getenv env) d of
        Some e \<Rightarrow> Inl (PollClient e)
      | None \<Rightarrow>
     (case pv_ConnectError env of
        Some (ctx, text) \<Rightarrow> Inl (PollConnect ctx text)
      | None \<Rightarrow>
     (case PollDevice (pv_Client env) of
        Inl e \<Rightarrow> Inl (PollSNMP e)
      | Inr identity \<Rightarrow>
     (case PollInterfaces (pv_Client env) of
        Inl e \<Rightarrow> Inl (PollSNMP e)
      | Inr ifaces \<Rightarrow>
          (let r1 = enrichProfile (pv_Machine env) (pv_Client env)
                 (NewDevicePollResult (c_SiteID cfg) (dc_ID d) (dc_Host d) (pv_ObservedAt env) identity ifaces)
           in case NewFilter (pv_Compile env) (dc_InterfaceFilters d) of
                Inl text \<Rightarrow> Inl (PollFilter text)
              | Inr f \<Rightarrow> Inr ((ApplyToResult f r1)\<lparr>px_InventoryRole := dc_Role d\<rparr>))))))"

definition poll_events :: "poll_env \<Rightarrow> config \<Rightarrow> poll_result \<Rightarrow> out_event list" where
  "poll_events env cfg r =
     DeviceEvents (pv_EventIDs env) (pv_EmittedAt env) (ModeFromConfig (Some cfg)) (poll_context env cfg) r"

definition devicePollFromResult :: "poll_result \<Rightarrow> device_poll" where
  "devicePollFromResult r =
     (let v = px_Vendor r in
      \<lparr>dp_DeviceID = px_DeviceID r, dp_ObservedAt = px_ObservedAt r, dp_Result = PollSuccess, dp_ErrorClass = [],
       dp_SysName = id_SysName (px_Identity r), dp_SysObjectID = id_SysObjectID (px_Identity r),
       dp_Interfaces = px_Filter r,
       dp_Components = \<lparr>cs_Profile = vr_Profile v, cs_TemperatureCount = length (vr_Temperatures v),
         cs_PowerCount = length (vr_Power v), cs_HasCPU = (vr_CPU v \<noteq> None), cs_HasMemory = (vr_Memory v \<noteq> None),
         cs_PrimaryTempC = PrimaryTemperaturePtr (vr_Temperatures v),
         cs_CPUUtilizationPct = map_option sr_Value (vr_CPU v),
         cs_MemUtilizationPct = map_option sr_Value (vr_Memory v)\<rparr>\<rparr>)"

record poll_report =
  pp_Outcome :: poll_outcome
  pp_Error :: "poll_error option"
  pp_Events :: "out_event list"
  pp_Status :: "device_poll option"

definition doPoll :: "poll_env \<Rightarrow> config \<Rightarrow> device_config \<Rightarrow> poll_report" where
  "doPoll env cfg d =
     (let failed = \<lparr>po_DeviceID = dc_ID d, po_Success = False, po_ObservedAt = pv_Finished env, po_TemperatureC = None\<rparr> in
      case poll_stages env cfg d of
        Inl e \<Rightarrow> \<lparr>pp_Outcome = failed, pp_Error = Some e, pp_Events = [], pp_Status = None\<rparr>
      | Inr r \<Rightarrow> (case pv_PublishError env of
          Some (ctx, text) \<Rightarrow>
            \<lparr>pp_Outcome = failed, pp_Error = Some (PollPublish ctx text), pp_Events = poll_events env cfg r, pp_Status = None\<rparr>
        | None \<Rightarrow>
            \<lparr>pp_Outcome = failed\<lparr>po_Success := True, po_TemperatureC := PrimaryTemperaturePtr (vr_Temperatures (px_Vendor r))\<rparr>,
             pp_Error = None, pp_Events = poll_events env cfg r, pp_Status = Some (devicePollFromResult r)\<rparr>))"

definition pollDevice :: "poll_env \<Rightarrow> config \<Rightarrow> device_config \<Rightarrow> poll_report" where
  "pollDevice env cfg d =
     (let p = doPoll env cfg d in
      case pp_Error p of
        None \<Rightarrow> p
      | Some e \<Rightarrow>
          (let o0 = pp_Outcome p;
               o1 = (if IsZero (po_ObservedAt o0) then o0\<lparr>po_ObservedAt := pv_Finished env\<rparr> else o0);
               o2 = o1\<lparr>po_DeviceID := dc_ID d, po_Success := False, po_TemperatureC := None\<rparr>
           in p\<lparr>pp_Outcome := o2,
                pp_Status := Some \<lparr>dp_DeviceID = dc_ID d, dp_ObservedAt = po_ObservedAt o2, dp_Result = PollFailure,
                  dp_ErrorClass = classifyError e, dp_SysName = [], dp_SysObjectID = [], dp_Interfaces = no_summary,
                  dp_Components = no_components\<rparr>\<rparr>))"

section \<open>A cycle\<close>

record poller =
  pl_Ledger :: ledger
  pl_Status :: status_store
  pl_Active :: "string set"

record cycle_result =
  cy_Poller :: poller
  cy_Published :: "out_event list"

definition record_status :: "device_poll option \<Rightarrow> status_store \<Rightarrow> status_store" where
  "record_status p s = (case p of None \<Rightarrow> s | Some x \<Rightarrow> RecordPoll x s)"

definition syncInventory :: "string \<Rightarrow> config \<Rightarrow> poller \<Rightarrow> poller" where
  "syncInventory revision cfg s =
     (let ids = map dc_ID (c_Devices cfg); active = set ids in
      if pl_Active s = active then s
      else \<lparr>pl_Ledger = Prune ids (pl_Ledger s),
            pl_Status = SetRevision revision (Prune_status active (pl_Status s)),
            pl_Active = active\<rparr>)"

definition pruneNextDue :: "(string, time) gomap \<Rightarrow> device_config list \<Rightarrow> (string, time) gomap" where
  "pruneNextDue nextDue devices = mprune (\<lambda>i _. i \<in> dc_ID ` set devices) nextDue"

definition dueDevices :: "config \<Rightarrow> (string, time) gomap \<Rightarrow> bool \<Rightarrow> time \<Rightarrow> device_config list" where
  "dueDevices cfg nextDue firstCycle now =
     (if firstCycle then c_Devices cfg
      else filter (\<lambda>d. case map_of nextDue (dc_ID d) of None \<Rightarrow> True | Some scheduled \<Rightarrow> \<not> scheduled > now) (c_Devices cfg))"

text \<open>
  The wait of an hour is in nanoseconds.  The loop returns 0 at the first entry that is past, wherever
  the \<open>range\<close> meets it.
\<close>

definition nextDueWait :: "(string, time) gomap \<Rightarrow> time \<Rightarrow> duration" where
  "nextDueWait nextDue now =
     (if nextDue = [] then 1000000000
      else if list_ex (\<lambda>(_, scheduled). scheduled < now) nextDue then 0
      else (let wait = fold (\<lambda>(_, scheduled) wait. if scheduled - now < wait then scheduled - now else wait) nextDue 3600000000000
            in if wait \<le> 0 then 1000000 else wait))"

definition publishHealth :: "poll_env \<Rightarrow> config \<Rightarrow> event list \<Rightarrow> out_event list" where
  "publishHealth env cfg evs =
     HealthEvents (pv_EventIDs env) (pv_EmittedAt env) (ModeFromConfig (Some cfg)) (poll_context env cfg) (c_SiteID cfg) evs"

definition workers :: "config \<Rightarrow> device_config list \<Rightarrow> int" where
  "workers cfg devices = min (c_MaxWorkers cfg) (int (length devices))"

definition pollAll :: "(string \<Rightarrow> poll_env) \<Rightarrow> poll_env \<Rightarrow> string \<Rightarrow> config \<Rightarrow> device_config list \<Rightarrow> device_config list
    \<Rightarrow> poller \<Rightarrow> cycle_result option" where
  "pollAll envs henv policyRevision cfg devices finished s =
     (if workers cfg devices < 1 then Some \<lparr>cy_Poller = s, cy_Published = []\<rparr>
      else
        (let reports = map (\<lambda>d. pollDevice (envs (dc_ID d)) cfg d) finished;
             s1 = s\<lparr>pl_Status := fold (record_status \<circ> pp_Status) reports (pl_Status s)\<rparr>;
             sent = concat (map pp_Events reports)
         in if length finished \<noteq> length devices then Some \<lparr>cy_Poller = s1, cy_Published = sent\<rparr>
            else map_option (\<lambda>(ledger, evs). \<lparr>cy_Poller = s1\<lparr>pl_Ledger := ledger\<rparr>,
                 cy_Published = sent @ publishHealth henv cfg evs\<rparr>)
               (ApplyBatch policyRevision (Some cfg) (map pp_Outcome reports) (pl_Ledger s1))))"

section \<open>The loop\<close>

record schedule =
  sd_NextDue :: "(string, time) gomap"
  sd_FirstCycle :: bool

datatype next_step = PollNow "device_config list" | Sleep duration

text \<open>The decision of an iteration, and the schedule after the due devices were polled (at \<open>after\<close>).\<close>

definition iteration :: "config \<Rightarrow> time \<Rightarrow> schedule \<Rightarrow> next_step \<times> schedule" where
  "iteration cfg now s =
     (let nextDue = pruneNextDue (sd_NextDue s) (c_Devices cfg);
          due = dueDevices cfg nextDue (sd_FirstCycle s) now
      in (if due \<noteq> [] then PollNow due else Sleep (nextDueWait nextDue now), s\<lparr>sd_NextDue := nextDue\<rparr>))"

definition polled :: "config \<Rightarrow> device_config list \<Rightarrow> time \<Rightarrow> schedule \<Rightarrow> schedule" where
  "polled cfg due after s =
     \<lparr>sd_NextDue = fold (\<lambda>d. AList.update (dc_ID d) (after + EffectivePollInterval d (c_PollInterval cfg))) due (sd_NextDue s),
      sd_FirstCycle = False\<rparr>"

text \<open>The polls that the loop makes, each with its device, the interval that is in force and the times around it.  Every
  iteration reads the configuration again: it is given for each iteration with the time that the
  iteration reads and the time its polls end.\<close>

fun Run :: "(config \<times> time \<times> time) list \<Rightarrow> schedule \<Rightarrow> (string \<times> duration \<times> time \<times> time) list" where
  "Run [] s = []"
| "Run ((cfg, now, after) # ts) s =
     (case iteration cfg now s of
        (PollNow due, s') \<Rightarrow>
          map (\<lambda>d. (dc_ID d, EffectivePollInterval d (c_PollInterval cfg), now, after)) due @ Run ts (polled cfg due after s')
      | (Sleep _, s') \<Rightarrow> Run ts s')"

end
