(* ===== verification/Ingest.thy ===== *)
theory Ingest
  imports Json Prelude "HOL-Library.Word"
begin

text \<open>
  What the ingestion service accepts: \<open>internal/validate/validate.go\<close> and \<open>v2.go\<close>.

  A payload is \<open>None\<close> when it is no JSON, otherwise its value.  \<open>uuid.Parse\<close> and the two layouts
  of \<open>time.Parse\<close> are arguments, \<open>wire_parsers\<close>; a UUID is its canonical text.  The checks are in the
  order of the code; the error texts are abridged.
\<close>

record wire_parsers =
  wp_uuid :: "string \<Rightarrow> string option"
  wp_rfc3339 :: "string \<Rightarrow> time option"
  wp_rfc3339nano :: "string \<Rightarrow> time option"

section \<open>Messages\<close>

datatype kind = KindDevice | KindInterface | KindDeviceV2 | KindInterfaceV2 | KindHealthV2 | KindHeartbeatV2

record topic_parts =
  tp_SiteID :: string
  tp_DeviceID :: string
  tp_CollectorID :: string
  tp_Kind :: kind

record device_message =
  ms_SiteID :: string
  ms_DeviceID :: string
  ms_IPAddress :: string
  ms_Timestamp :: time
  ms_Metric :: string
  ms_Value :: f64

record interface_message =
  mi_SiteID :: string
  mi_DeviceID :: string
  mi_Timestamp :: time
  mi_IfIndex :: int
  mi_InOctets :: "64 word"
  mi_OutOctets :: "64 word"
  mi_InErrors :: "64 word"
  mi_OutErrors :: "64 word"

record v2_envelope =
  ve_SchemaVersion :: string
  ve_EventID :: string
  ve_EventType :: string
  ve_SiteID :: string
  ve_CollectorID :: string
  ve_DeviceID :: string
  ve_ObservedAt :: time
  ve_EmittedAt :: time
  ve_ConfigRevision :: string

record component_v2 =
  vc_ComponentID :: string
  vc_Name :: string
  vc_Index :: string
  vc_Value :: "f64 option"
  vc_Unit :: string
  vc_Status :: string
  vc_ObservedAt :: time

record device_v2 =
  vd_Envelope :: v2_envelope
  vd_Hostname :: string
  vd_ManagementAddress :: string
  vd_Role :: string
  vd_SysObjectID :: string
  vd_SysName :: string
  vd_SysDescr :: string
  vd_Vendor :: string
  vd_Model :: string
  vd_Serial :: string
  vd_SNMPVersion :: string
  vd_ProfileName :: string
  vd_Capabilities :: "string list"
  vd_UptimeSeconds :: f64
  vd_CPUUtilizationPct :: "f64 option"
  vd_MemoryUtilizationPct :: "f64 option"
  vd_PrimaryTemperatureC :: "f64 option"
  vd_TemperatureComponents :: "component_v2 list"
  vd_PowerComponents :: "component_v2 list"

record interface_v2 =
  vi_Envelope :: v2_envelope
  vi_IfIndex :: int
  vi_Name :: string
  vi_Alias :: string
  vi_Type :: string
  vi_AdminStatus :: string
  vi_OperStatus :: string
  vi_SpeedBps :: "int option"
  vi_InOctets :: "64 word"
  vi_OutOctets :: "64 word"
  vi_InErrors :: "64 word"
  vi_OutErrors :: "64 word"
  vi_InDiscards :: "64 word option"
  vi_OutDiscards :: "64 word option"

record health_v2 =
  vh_Envelope :: v2_envelope
  vh_State :: string
  vh_Reason :: string
  vh_PreviousState :: "string option"
  vh_Transition :: string
  vh_FailureCount :: int
  vh_FailureThreshold :: int
  vh_TemperatureC :: "f64 option"
  vh_TemperatureWarningC :: "f64 option"
  vh_TemperaturePolicyRevision :: "string option"
  vh_UpstreamDeviceIDs :: "string list"
  vh_UnavailableUpstreamDeviceIDs :: "string list"
  vh_RootCauseDeviceIDs :: "string list"
  vh_AlertsEnabled :: bool

record heartbeat_v2 =
  vb_Envelope :: v2_envelope
  vb_Hostname :: string
  vb_Version :: string
  vb_GitCommit :: string
  vb_BuildTime :: string
  vb_UptimeSeconds :: int
  vb_SQLiteQueueDepth :: int
  vb_MemoryUsageBytes :: int
  vb_GoroutineCount :: int

datatype message = MsgDevice device_message | MsgInterface interface_message
  | MsgDeviceV2 device_v2 | MsgInterfaceV2 interface_v2 | MsgHealthV2 health_v2 | MsgHeartbeatV2 heartbeat_v2

section \<open>Small checks\<close>

definition checkIdentifier :: "string \<Rightarrow> bool" where
  "checkIdentifier v = (let t = trim_space v in t \<noteq> [] \<and> length t \<le> 128 \<and> identifierPattern t)"

definition checkOptionalPct :: "f64 option \<Rightarrow> bool" where
  "checkOptionalPct v = (case v of None \<Rightarrow> True | Some x \<Rightarrow> \<not> (f64_lt x (Fin 0) \<or> f64_lt (Fin 100) x))"

definition checkStatusEnum :: "string \<Rightarrow> bool" where
  "checkStatusEnum v \<longleftrightarrow> v \<in> {''up'', ''down'', ''testing'', ''unknown''}"

definition parseTimestamp :: "wire_parsers \<Rightarrow> string \<Rightarrow> time option" where
  "parseTimestamp wp raw =
     (if trim_space raw = [] then None
      else (case wp_rfc3339 wp raw of Some t \<Rightarrow> Some t | None \<Rightarrow> wp_rfc3339nano wp raw))"

text \<open>A check that fails ends the function with its error.\<close>

definition guarded :: "bool \<Rightarrow> string \<Rightarrow> (string + 'a) \<Rightarrow> string + 'a" where
  "guarded ok err rest = (if ok then rest else Inl err)"

lemma guarded_Inr [simp]: "guarded ok err rest = Inr x \<longleftrightarrow> ok \<and> rest = Inr x"
  by (simp add: guarded_def)

section \<open>Topics\<close>

definition v2_kind :: "string \<Rightarrow> kind option" where
  "v2_kind s = (if s = ''device'' then Some KindDeviceV2 else if s = ''interface'' then Some KindInterfaceV2
     else if s = ''health'' then Some KindHealthV2 else None)"

definition ParseTopicV2 :: "string \<Rightarrow> string + topic_parts" where
  "ParseTopicV2 topic = (case split_on (CHR ''/'') topic of
      [p0, p1, p2, p3, p4, p5, p6] \<Rightarrow>
        (let site = trim_space p1; other = trim_space p3 in
         if p0 = ''site'' \<and> p2 = ''device'' \<and> p4 = ''telemetry'' \<and> p5 = ''v2'' then
           guarded (site \<noteq> [] \<and> other \<noteq> []) ''empty site_id or device_id''
           (guarded (checkIdentifier site) ''invalid site_id''
           (guarded (checkIdentifier other) ''invalid device_id''
             (case v2_kind p6 of
                None \<Rightarrow> Inl ''invalid v2 device topic kind''
              | Some k \<Rightarrow> Inr \<lparr>tp_SiteID = site, tp_DeviceID = other, tp_CollectorID = [], tp_Kind = k\<rparr>)))
         else if p0 = ''site'' \<and> p2 = ''collector'' \<and> p4 = ''telemetry'' \<and> p5 = ''v2'' \<and> p6 = ''heartbeat'' then
           guarded (site \<noteq> [] \<and> other \<noteq> []) ''empty site_id or collector_id''
           (guarded (checkIdentifier site) ''invalid site_id''
           (guarded (checkIdentifier other) ''invalid collector_id''
             (Inr \<lparr>tp_SiteID = site, tp_DeviceID = [], tp_CollectorID = other, tp_Kind = KindHeartbeatV2\<rparr>)))
         else Inl ''invalid v2 topic layout'')
    | _ \<Rightarrow> Inl ''invalid v2 topic layout'')"

definition ParseTopic :: "string \<Rightarrow> string + topic_parts" where
  "ParseTopic topic = (case split_on (CHR ''/'') topic of
      [p0, p1, p2, p3, p4, p5] \<Rightarrow>
        guarded (p0 = ''site'' \<and> p2 = ''device'' \<and> p4 = ''metric'') ''invalid topic layout''
        (let site = trim_space p1; device = trim_space p3 in
         guarded (site \<noteq> [] \<and> device \<noteq> []) ''empty site_id or device_id''
          (if p5 = ''device'' then Inr \<lparr>tp_SiteID = site, tp_DeviceID = device, tp_CollectorID = [], tp_Kind = KindDevice\<rparr>
           else if p5 = ''interface''
           then Inr \<lparr>tp_SiteID = site, tp_DeviceID = device, tp_CollectorID = [], tp_Kind = KindInterface\<rparr>
           else Inl ''invalid topic kind''))
    | _ \<Rightarrow> Inl ''expected 6 segments'')"

section \<open>The envelope\<close>

record envelope_raw =
  er_SchemaVersion :: string
  er_EventID :: string
  er_EventType :: string
  er_SiteID :: string
  er_CollectorID :: string
  er_DeviceID :: string
  er_ObservedAt :: string
  er_EmittedAt :: string
  er_ConfigRevision :: string
  er_Payload :: "json option"

definition zero_envelope :: envelope_raw where
  "zero_envelope = \<lparr>er_SchemaVersion = [], er_EventID = [], er_EventType = [], er_SiteID = [],
     er_CollectorID = [], er_DeviceID = [], er_ObservedAt = [], er_EmittedAt = [], er_ConfigRevision = [],
     er_Payload = None\<rparr>"

definition envelope_fields :: "envelope_raw fields" where
  "envelope_fields =
     [(''schema_version'', str_field (\<lambda>x s. s\<lparr>er_SchemaVersion := x\<rparr>)),
      (''event_id'', str_field (\<lambda>x s. s\<lparr>er_EventID := x\<rparr>)),
      (''event_type'', str_field (\<lambda>x s. s\<lparr>er_EventType := x\<rparr>)),
      (''site_id'', str_field (\<lambda>x s. s\<lparr>er_SiteID := x\<rparr>)),
      (''collector_id'', str_field (\<lambda>x s. s\<lparr>er_CollectorID := x\<rparr>)),
      (''device_id'', str_field (\<lambda>x s. s\<lparr>er_DeviceID := x\<rparr>)),
      (''observed_at'', str_field (\<lambda>x s. s\<lparr>er_ObservedAt := x\<rparr>)),
      (''emitted_at'', str_field (\<lambda>x s. s\<lparr>er_EmittedAt := x\<rparr>)),
      (''config_revision'', str_field (\<lambda>x s. s\<lparr>er_ConfigRevision := x\<rparr>)),
      (''payload'', raw_field (\<lambda>x s. s\<lparr>er_Payload := Some x\<rparr>))]"

definition expected_type :: "kind \<Rightarrow> string" where
  "expected_type k = (case k of
      KindDeviceV2 \<Rightarrow> ''device_telemetry'' | KindInterfaceV2 \<Rightarrow> ''interface_telemetry''
    | KindHealthV2 \<Rightarrow> ''health_state'' | KindHeartbeatV2 \<Rightarrow> ''collector_heartbeat'' | _ \<Rightarrow> [])"

definition validateEnvelope :: "wire_parsers \<Rightarrow> envelope_raw \<Rightarrow> topic_parts \<Rightarrow> string + v2_envelope" where
  "validateEnvelope wp raw tp =
     guarded (er_SchemaVersion raw = ''2.0'') ''unsupported schema_version''
     (case wp_uuid wp (trim_space (er_EventID raw)) of None \<Rightarrow> Inl ''invalid event_id'' | Some eventID \<Rightarrow>
      guarded (checkIdentifier (er_SiteID raw)) ''invalid site_id''
      (guarded (checkIdentifier (er_CollectorID raw)) ''invalid collector_id''
      (guarded (er_SiteID raw = tp_SiteID tp) ''site_id body does not match topic''
      (case parseTimestamp wp (er_ObservedAt raw) of None \<Rightarrow> Inl ''observed_at'' | Some observedAt \<Rightarrow>
      (case parseTimestamp wp (er_EmittedAt raw) of None \<Rightarrow> Inl ''emitted_at'' | Some emittedAt \<Rightarrow>
       guarded (trim_space (er_ConfigRevision raw) \<noteq> [] \<and> length (er_ConfigRevision raw) \<le> 128) ''config_revision''
       (guarded (er_Payload raw \<noteq> None \<and> er_Payload raw \<noteq> Some JNull \<and> er_Payload raw \<noteq> Some (JObj []))
         ''payload is required''
       (guarded (er_EventType raw = expected_type (tp_Kind tp)) ''event_type does not match topic kind''
        (let env = \<lparr>ve_SchemaVersion = er_SchemaVersion raw, ve_EventID = eventID, ve_EventType = er_EventType raw,
               ve_SiteID = er_SiteID raw, ve_CollectorID = er_CollectorID raw, ve_DeviceID = [],
               ve_ObservedAt = observedAt, ve_EmittedAt = emittedAt, ve_ConfigRevision = er_ConfigRevision raw\<rparr> in
         if tp_Kind tp = KindHeartbeatV2 then
           guarded (er_DeviceID raw = []) ''device_id must be absent for heartbeat''
           (guarded (er_CollectorID raw = tp_CollectorID tp) ''collector_id body does not match topic'' (Inr env))
         else
           guarded (checkIdentifier (er_DeviceID raw)) ''invalid device_id''
           (guarded (er_DeviceID raw = tp_DeviceID tp) ''device_id body does not match topic''
             (Inr (env\<lparr>ve_DeviceID := er_DeviceID raw\<rparr>)))))))))))"

section \<open>Device telemetry\<close>

record component_raw =
  rc_ComponentID :: string
  rc_Name :: string
  rc_Index :: string
  rc_Value :: "f64 option"
  rc_Unit :: string
  rc_Status :: string
  rc_ObservedAt :: string

definition zero_component :: component_raw where
  "zero_component = \<lparr>rc_ComponentID = [], rc_Name = [], rc_Index = [], rc_Value = None, rc_Unit = [],
     rc_Status = [], rc_ObservedAt = []\<rparr>"

definition component_fields :: "component_raw fields" where
  "component_fields =
     [(''component_id'', str_field (\<lambda>x s. s\<lparr>rc_ComponentID := x\<rparr>)),
      (''name'', str_field (\<lambda>x s. s\<lparr>rc_Name := x\<rparr>)),
      (''index'', str_field (\<lambda>x s. s\<lparr>rc_Index := x\<rparr>)),
      (''value'', ptr_field dec_f64 (\<lambda>x s. s\<lparr>rc_Value := x\<rparr>)),
      (''unit'', str_field (\<lambda>x s. s\<lparr>rc_Unit := x\<rparr>)),
      (''status'', str_field (\<lambda>x s. s\<lparr>rc_Status := x\<rparr>)),
      (''observed_at'', str_field (\<lambda>x s. s\<lparr>rc_ObservedAt := x\<rparr>))]"

definition dec_component :: "json \<Rightarrow> component_raw option" where
  "dec_component v = decode_struct True component_fields v zero_component"

record identity_raw =
  ri_Hostname :: string
  ri_ManagementAddress :: string
  ri_Role :: string
  ri_SysObjectID :: string
  ri_SysName :: string
  ri_SysDescr :: string
  ri_Vendor :: string
  ri_Model :: string
  ri_Serial :: string
  ri_SNMPVersion :: string

definition zero_identity :: identity_raw where
  "zero_identity = \<lparr>ri_Hostname = [], ri_ManagementAddress = [], ri_Role = [], ri_SysObjectID = [],
     ri_SysName = [], ri_SysDescr = [], ri_Vendor = [], ri_Model = [], ri_Serial = [], ri_SNMPVersion = []\<rparr>"

definition identity_fields :: "identity_raw fields" where
  "identity_fields =
     [(''hostname'', str_field (\<lambda>x s. s\<lparr>ri_Hostname := x\<rparr>)),
      (''management_address'', str_field (\<lambda>x s. s\<lparr>ri_ManagementAddress := x\<rparr>)),
      (''role'', str_field (\<lambda>x s. s\<lparr>ri_Role := x\<rparr>)),
      (''sys_object_id'', str_field (\<lambda>x s. s\<lparr>ri_SysObjectID := x\<rparr>)),
      (''sys_name'', str_field (\<lambda>x s. s\<lparr>ri_SysName := x\<rparr>)),
      (''sys_descr'', str_field (\<lambda>x s. s\<lparr>ri_SysDescr := x\<rparr>)),
      (''vendor'', str_field (\<lambda>x s. s\<lparr>ri_Vendor := x\<rparr>)),
      (''model'', str_field (\<lambda>x s. s\<lparr>ri_Model := x\<rparr>)),
      (''serial'', str_field (\<lambda>x s. s\<lparr>ri_Serial := x\<rparr>)),
      (''snmp_version'', str_field (\<lambda>x s. s\<lparr>ri_SNMPVersion := x\<rparr>))]"

record profile_raw =
  rp_Name :: string
  rp_Capabilities :: "string list option"

definition profile_fields :: "profile_raw fields" where
  "profile_fields =
     [(''name'', str_field (\<lambda>x s. s\<lparr>rp_Name := x\<rparr>)),
      (''capabilities'', ptr_field (dec_list dec_elem) (\<lambda>x s. s\<lparr>rp_Capabilities := x\<rparr>))]"

record readings_raw =
  rr_UptimeSeconds :: "f64 option"
  rr_CPUUtilizationPct :: "f64 option"
  rr_MemoryUtilizationPct :: "f64 option"
  rr_PrimaryTemperatureC :: "f64 option"

definition readings_fields :: "readings_raw fields" where
  "readings_fields =
     [(''uptime_seconds'', ptr_field dec_f64 (\<lambda>x s. s\<lparr>rr_UptimeSeconds := x\<rparr>)),
      (''cpu_utilization_pct'', ptr_field dec_f64 (\<lambda>x s. s\<lparr>rr_CPUUtilizationPct := x\<rparr>)),
      (''memory_utilization_pct'', ptr_field dec_f64 (\<lambda>x s. s\<lparr>rr_MemoryUtilizationPct := x\<rparr>)),
      (''primary_temperature_c'', ptr_field dec_f64 (\<lambda>x s. s\<lparr>rr_PrimaryTemperatureC := x\<rparr>))]"

record device_raw =
  rd_Identity :: identity_raw
  rd_Profile :: profile_raw
  rd_Readings :: readings_raw
  rd_TemperatureComponents :: "component_raw list option"
  rd_PowerComponents :: "component_raw list option"

definition zero_device :: device_raw where
  "zero_device = \<lparr>rd_Identity = zero_identity, rd_Profile = \<lparr>rp_Name = [], rp_Capabilities = None\<rparr>,
     rd_Readings = \<lparr>rr_UptimeSeconds = None, rr_CPUUtilizationPct = None, rr_MemoryUtilizationPct = None,
       rr_PrimaryTemperatureC = None\<rparr>,
     rd_TemperatureComponents = None, rd_PowerComponents = None\<rparr>"

definition device_fields :: "device_raw fields" where
  "device_fields =
     [(''identity'', sub_field (decode_struct True identity_fields) rd_Identity (\<lambda>x s. s\<lparr>rd_Identity := x\<rparr>)),
      (''profile'', sub_field (decode_struct True profile_fields) rd_Profile (\<lambda>x s. s\<lparr>rd_Profile := x\<rparr>)),
      (''readings'', sub_field (decode_struct True readings_fields) rd_Readings (\<lambda>x s. s\<lparr>rd_Readings := x\<rparr>)),
      (''temperature_components'', ptr_field (dec_list dec_component) (\<lambda>x s. s\<lparr>rd_TemperatureComponents := x\<rparr>)),
      (''power_components'', ptr_field (dec_list dec_component) (\<lambda>x s. s\<lparr>rd_PowerComponents := x\<rparr>))]"

definition checkComponentCommon :: "component_raw \<Rightarrow> string option" where
  "checkComponentCommon c =
     (if trim_space (rc_ComponentID c) = [] \<or> trim_space (rc_Name c) = [] \<or> trim_space (rc_Index c) = []
      then Some ''component_id, name, and index are required''
      else if rc_Status c \<notin> {''ok'', ''warning'', ''critical'', ''not_present'', ''unknown''}
      then Some ''invalid component status'' else None)"

definition component_of :: "component_raw \<Rightarrow> time \<Rightarrow> component_v2" where
  "component_of c t = \<lparr>vc_ComponentID = rc_ComponentID c, vc_Name = rc_Name c, vc_Index = rc_Index c,
     vc_Value = rc_Value c, vc_Unit = rc_Unit c, vc_Status = rc_Status c, vc_ObservedAt = t\<rparr>"

definition check_temperature :: "component_raw \<Rightarrow> string option" where
  "check_temperature c =
     (if rc_Unit c \<noteq> ''celsius'' then Some ''temperature component unit must be celsius''
      else if rc_Value c = None then Some ''temperature component value is required'' else None)"

definition check_power :: "component_raw \<Rightarrow> string option" where
  "check_power c = (if rc_Unit c \<notin> {''state'', ''watts'', ''volts'', ''amps'', ''percent''}
     then Some ''invalid power component unit'' else None)"

text \<open>The two loops differ in the check of one component.\<close>

fun validate_components :: "wire_parsers \<Rightarrow> (component_raw \<Rightarrow> string option) \<Rightarrow> string list \<Rightarrow> component_raw list
    \<Rightarrow> string + component_v2 list" where
  "validate_components wp check seen [] = Inr []"
| "validate_components wp check seen (c # cs) =
     (case checkComponentCommon c of Some e \<Rightarrow> Inl e | None \<Rightarrow>
     (case check c of Some e \<Rightarrow> Inl e | None \<Rightarrow>
      guarded (rc_ComponentID c \<notin> set seen) ''duplicate component_id''
      (case parseTimestamp wp (rc_ObservedAt c) of None \<Rightarrow> Inl ''component observed_at'' | Some t \<Rightarrow>
       (case validate_components wp check (rc_ComponentID c # seen) cs of
          Inl e \<Rightarrow> Inl e | Inr out \<Rightarrow> Inr (component_of c t # out)))))"

definition nil_list :: "'a list option \<Rightarrow> 'a list" where
  "nil_list xs = (case xs of None \<Rightarrow> [] | Some ys \<Rightarrow> ys)"

definition validateDeviceV2 :: "wire_parsers \<Rightarrow> v2_envelope \<Rightarrow> json \<Rightarrow> string + device_v2" where
  "validateDeviceV2 wp env payload =
     (case decode_struct True device_fields payload zero_device of None \<Rightarrow> Inl ''decode device payload'' | Some p \<Rightarrow>
      (let i = rd_Identity p; r = rd_Readings p; caps = nil_list (rp_Capabilities (rd_Profile p)) in
       guarded (trim_space (ri_Hostname i) \<noteq> [] \<and> trim_space (ri_SysObjectID i) \<noteq> []
           \<and> trim_space (ri_SysName i) \<noteq> [] \<and> ri_SysDescr i \<noteq> []) ''device identity fields are required''
       (guarded (ri_SNMPVersion i = ''2c'') ''snmp_version must be 2c''
       (guarded (rp_Name (rd_Profile p) \<in> {''core'', ''cisco'', ''arista'', ''unknown''}) ''invalid profile name''
       (guarded (set caps \<subseteq> {''cpu'', ''memory'', ''temperature'', ''power''} \<and> distinct caps)
         ''invalid or duplicate capability''
       (case rr_UptimeSeconds r of None \<Rightarrow> Inl ''uptime_seconds is required'' | Some uptime \<Rightarrow>
        guarded (\<not> f64_lt uptime (Fin 0)) ''uptime_seconds must be >= 0''
        (guarded (checkOptionalPct (rr_CPUUtilizationPct r)) ''cpu_utilization_pct''
        (guarded (checkOptionalPct (rr_MemoryUtilizationPct r)) ''memory_utilization_pct''
        (case validate_components wp check_temperature [] (nil_list (rd_TemperatureComponents p)) of
           Inl e \<Rightarrow> Inl e | Inr temps \<Rightarrow>
        (case validate_components wp check_power [] (nil_list (rd_PowerComponents p)) of
           Inl e \<Rightarrow> Inl e | Inr powers \<Rightarrow>
         guarded (rd_TemperatureComponents p \<noteq> None \<and> rd_PowerComponents p \<noteq> None) ''components are required''
          (Inr \<lparr>vd_Envelope = env, vd_Hostname = ri_Hostname i,
             vd_ManagementAddress = trim_space (ri_ManagementAddress i), vd_Role = trim_space (ri_Role i),
             vd_SysObjectID = ri_SysObjectID i, vd_SysName = ri_SysName i, vd_SysDescr = ri_SysDescr i,
             vd_Vendor = ri_Vendor i, vd_Model = ri_Model i, vd_Serial = ri_Serial i,
             vd_SNMPVersion = ri_SNMPVersion i, vd_ProfileName = rp_Name (rd_Profile p), vd_Capabilities = caps,
             vd_UptimeSeconds = uptime, vd_CPUUtilizationPct = rr_CPUUtilizationPct r,
             vd_MemoryUtilizationPct = rr_MemoryUtilizationPct r, vd_PrimaryTemperatureC = rr_PrimaryTemperatureC r,
             vd_TemperatureComponents = temps, vd_PowerComponents = powers\<rparr>)))))))))))"

section \<open>Interface telemetry\<close>

definition dec_word :: "json \<Rightarrow> 64 word option" where
  "dec_word v = map_option word_of_int (dec_uint64 v)"

record iface_raw =
  fi_IfIndex :: "int option"
  fi_Name :: string
  fi_Alias :: string
  fi_Type :: string
  fi_AdminStatus :: string
  fi_OperStatus :: string
  fi_SpeedBps :: "int option"

record counters_raw =
  fn_InOctets :: "64 word option"
  fn_OutOctets :: "64 word option"
  fn_InErrors :: "64 word option"
  fn_OutErrors :: "64 word option"
  fn_InDiscards :: "64 word option"
  fn_OutDiscards :: "64 word option"

record interface_raw =
  rf_Interface :: iface_raw
  rf_Counters :: counters_raw

definition zero_interface :: interface_raw where
  "zero_interface = \<lparr>rf_Interface = \<lparr>fi_IfIndex = None, fi_Name = [], fi_Alias = [], fi_Type = [],
       fi_AdminStatus = [], fi_OperStatus = [], fi_SpeedBps = None\<rparr>,
     rf_Counters = \<lparr>fn_InOctets = None, fn_OutOctets = None, fn_InErrors = None, fn_OutErrors = None,
       fn_InDiscards = None, fn_OutDiscards = None\<rparr>\<rparr>"

definition iface_fields :: "iface_raw fields" where
  "iface_fields =
     [(''if_index'', ptr_field dec_int64 (\<lambda>x s. s\<lparr>fi_IfIndex := x\<rparr>)),
      (''name'', str_field (\<lambda>x s. s\<lparr>fi_Name := x\<rparr>)),
      (''alias'', str_field (\<lambda>x s. s\<lparr>fi_Alias := x\<rparr>)),
      (''type'', str_field (\<lambda>x s. s\<lparr>fi_Type := x\<rparr>)),
      (''admin_status'', str_field (\<lambda>x s. s\<lparr>fi_AdminStatus := x\<rparr>)),
      (''oper_status'', str_field (\<lambda>x s. s\<lparr>fi_OperStatus := x\<rparr>)),
      (''speed_bps'', ptr_field dec_int64 (\<lambda>x s. s\<lparr>fi_SpeedBps := x\<rparr>))]"

definition counters_fields :: "counters_raw fields" where
  "counters_fields =
     [(''in_octets'', ptr_field dec_word (\<lambda>x s. s\<lparr>fn_InOctets := x\<rparr>)),
      (''out_octets'', ptr_field dec_word (\<lambda>x s. s\<lparr>fn_OutOctets := x\<rparr>)),
      (''in_errors'', ptr_field dec_word (\<lambda>x s. s\<lparr>fn_InErrors := x\<rparr>)),
      (''out_errors'', ptr_field dec_word (\<lambda>x s. s\<lparr>fn_OutErrors := x\<rparr>)),
      (''in_discards'', ptr_field dec_word (\<lambda>x s. s\<lparr>fn_InDiscards := x\<rparr>)),
      (''out_discards'', ptr_field dec_word (\<lambda>x s. s\<lparr>fn_OutDiscards := x\<rparr>))]"

definition interface_fields :: "interface_raw fields" where
  "interface_fields =
     [(''interface'', sub_field (decode_struct True iface_fields) rf_Interface (\<lambda>x s. s\<lparr>rf_Interface := x\<rparr>)),
      (''counters'', sub_field (decode_struct True counters_fields) rf_Counters (\<lambda>x s. s\<lparr>rf_Counters := x\<rparr>))]"

definition validateInterfaceV2 :: "v2_envelope \<Rightarrow> json \<Rightarrow> string + interface_v2" where
  "validateInterfaceV2 env payload =
     (case decode_struct True interface_fields payload zero_interface of
        None \<Rightarrow> Inl ''decode interface payload'' | Some p \<Rightarrow>
      (let i = rf_Interface p; c = rf_Counters p in
       case fi_IfIndex i of None \<Rightarrow> Inl ''if_index must be >= 1'' | Some ifIndex \<Rightarrow>
       guarded (ifIndex \<ge> 1) ''if_index must be >= 1''
       (guarded (trim_space (fi_Name i) \<noteq> []) ''interface name is required''
       (guarded (checkStatusEnum (fi_AdminStatus i)) ''invalid admin_status''
       (guarded (checkStatusEnum (fi_OperStatus i)) ''invalid oper_status''
       (guarded (case fi_SpeedBps i of None \<Rightarrow> True | Some v \<Rightarrow> v \<ge> 0) ''speed_bps must be >= 0''
       (case (fn_InOctets c, fn_OutOctets c, fn_InErrors c, fn_OutErrors c) of
          (Some inO, Some outO, Some inE, Some outE) \<Rightarrow>
            Inr \<lparr>vi_Envelope = env, vi_IfIndex = ifIndex, vi_Name = fi_Name i, vi_Alias = fi_Alias i,
              vi_Type = fi_Type i, vi_AdminStatus = fi_AdminStatus i, vi_OperStatus = fi_OperStatus i,
              vi_SpeedBps = fi_SpeedBps i, vi_InOctets = inO, vi_OutOctets = outO, vi_InErrors = inE,
              vi_OutErrors = outE, vi_InDiscards = fn_InDiscards c, vi_OutDiscards = fn_OutDiscards c\<rparr>
        | _ \<Rightarrow> Inl ''counter fields are required'')))))))"

section \<open>Health states\<close>

record health_raw =
  rh_State :: string
  rh_Reason :: string
  rh_PreviousState :: "string option"
  rh_Transition :: string
  rh_FailureCount :: "int option"
  rh_FailureThreshold :: "int option"
  rh_TemperatureC :: "f64 option"
  rh_TemperatureWarningC :: "f64 option"
  rh_TemperaturePolicyRevision :: "string option"
  rh_UpstreamDeviceIDs :: "string list option"
  rh_UnavailableUpstreamDeviceIDs :: "string list option"
  rh_RootCauseDeviceIDs :: "string list option"
  rh_AlertsEnabled :: "bool option"

definition zero_health :: health_raw where
  "zero_health = \<lparr>rh_State = [], rh_Reason = [], rh_PreviousState = None, rh_Transition = [],
     rh_FailureCount = None, rh_FailureThreshold = None, rh_TemperatureC = None, rh_TemperatureWarningC = None,
     rh_TemperaturePolicyRevision = None, rh_UpstreamDeviceIDs = None, rh_UnavailableUpstreamDeviceIDs = None,
     rh_RootCauseDeviceIDs = None, rh_AlertsEnabled = None\<rparr>"

definition health_fields :: "health_raw fields" where
  "health_fields =
     [(''state'', str_field (\<lambda>x s. s\<lparr>rh_State := x\<rparr>)),
      (''reason'', str_field (\<lambda>x s. s\<lparr>rh_Reason := x\<rparr>)),
      (''previous_state'', ptr_field dec_str (\<lambda>x s. s\<lparr>rh_PreviousState := x\<rparr>)),
      (''transition'', str_field (\<lambda>x s. s\<lparr>rh_Transition := x\<rparr>)),
      (''failure_count'', ptr_field dec_int64 (\<lambda>x s. s\<lparr>rh_FailureCount := x\<rparr>)),
      (''failure_threshold'', ptr_field dec_int64 (\<lambda>x s. s\<lparr>rh_FailureThreshold := x\<rparr>)),
      (''temperature_c'', ptr_field dec_f64 (\<lambda>x s. s\<lparr>rh_TemperatureC := x\<rparr>)),
      (''temperature_warning_c'', ptr_field dec_f64 (\<lambda>x s. s\<lparr>rh_TemperatureWarningC := x\<rparr>)),
      (''temperature_policy_revision'', ptr_field dec_str (\<lambda>x s. s\<lparr>rh_TemperaturePolicyRevision := x\<rparr>)),
      (''upstream_device_ids'', ptr_field (dec_list dec_elem) (\<lambda>x s. s\<lparr>rh_UpstreamDeviceIDs := x\<rparr>)),
      (''unavailable_upstream_device_ids'',
        ptr_field (dec_list dec_elem) (\<lambda>x s. s\<lparr>rh_UnavailableUpstreamDeviceIDs := x\<rparr>)),
      (''root_cause_device_ids'', ptr_field (dec_list dec_elem) (\<lambda>x s. s\<lparr>rh_RootCauseDeviceIDs := x\<rparr>)),
      (''alerts_enabled'', ptr_field dec_bool (\<lambda>x s. s\<lparr>rh_AlertsEnabled := x\<rparr>))]"

definition health_states :: "string set" where
  "health_states = {''healthy'', ''warning'', ''critical'', ''unknown''}"

definition health_reasons :: "string set" where
  "health_reasons = {''reachable'', ''temperature_threshold'', ''direct_unreachable'', ''upstream_unreachable'', ''recovered''}"

definition health_transitions :: "string set" where
  "health_transitions = {''initial'', ''entered'', ''recovered'', ''reasserted''}"

definition validateHealthV2 :: "v2_envelope \<Rightarrow> json \<Rightarrow> string + health_v2" where
  "validateHealthV2 env payload =
     (case decode_struct True health_fields payload zero_health of None \<Rightarrow> Inl ''decode health payload'' | Some p \<Rightarrow>
      guarded (rh_State p \<in> health_states) ''invalid health state''
      (guarded (rh_Reason p \<in> health_reasons) ''invalid health reason''
      (guarded (rh_Transition p \<in> health_transitions) ''invalid health transition''
      (guarded (case rh_PreviousState p of None \<Rightarrow> True | Some s \<Rightarrow> s \<in> health_states) ''invalid previous_state''
      (case rh_FailureCount p of None \<Rightarrow> Inl ''failure_count is required'' | Some count \<Rightarrow>
       guarded (count \<ge> 0) ''failure_count must be >= 0''
       (case rh_FailureThreshold p of None \<Rightarrow> Inl ''failure_threshold is required'' | Some threshold \<Rightarrow>
        guarded (threshold \<ge> 1) ''failure_threshold must be >= 1''
        (case (rh_UpstreamDeviceIDs p, rh_UnavailableUpstreamDeviceIDs p, rh_RootCauseDeviceIDs p) of
           (Some upstream, Some unavailable, Some rootCause) \<Rightarrow>
             guarded (list_all checkIdentifier upstream) ''invalid upstream_device_ids''
             (guarded (list_all checkIdentifier unavailable) ''invalid unavailable_upstream_device_ids''
             (guarded (list_all checkIdentifier rootCause) ''invalid root_cause_device_ids''
               (Inr \<lparr>vh_Envelope = env, vh_State = rh_State p, vh_Reason = rh_Reason p,
                  vh_PreviousState = rh_PreviousState p, vh_Transition = rh_Transition p, vh_FailureCount = count,
                  vh_FailureThreshold = threshold, vh_TemperatureC = rh_TemperatureC p,
                  vh_TemperatureWarningC = rh_TemperatureWarningC p,
                  vh_TemperaturePolicyRevision = rh_TemperaturePolicyRevision p,
                  vh_UpstreamDeviceIDs = upstream, vh_UnavailableUpstreamDeviceIDs = unavailable,
                  vh_RootCauseDeviceIDs = rootCause,
                  vh_AlertsEnabled = (case rh_AlertsEnabled p of None \<Rightarrow> True | Some b \<Rightarrow> b)\<rparr>)))
         | _ \<Rightarrow> Inl ''upstream evidence arrays are required'')))))))"

section \<open>Heartbeats\<close>

record heartbeat_raw =
  rb_Hostname :: string
  rb_Version :: string
  rb_GitCommit :: string
  rb_BuildTime :: string
  rb_UptimeSeconds :: "int option"
  rb_SQLiteQueueDepth :: "int option"
  rb_MemoryUsageBytes :: "int option"
  rb_GoroutineCount :: "int option"

definition zero_heartbeat :: heartbeat_raw where
  "zero_heartbeat = \<lparr>rb_Hostname = [], rb_Version = [], rb_GitCommit = [], rb_BuildTime = [],
     rb_UptimeSeconds = None, rb_SQLiteQueueDepth = None, rb_MemoryUsageBytes = None, rb_GoroutineCount = None\<rparr>"

definition heartbeat_fields :: "heartbeat_raw fields" where
  "heartbeat_fields =
     [(''hostname'', str_field (\<lambda>x s. s\<lparr>rb_Hostname := x\<rparr>)),
      (''version'', str_field (\<lambda>x s. s\<lparr>rb_Version := x\<rparr>)),
      (''git_commit'', str_field (\<lambda>x s. s\<lparr>rb_GitCommit := x\<rparr>)),
      (''build_time'', str_field (\<lambda>x s. s\<lparr>rb_BuildTime := x\<rparr>)),
      (''uptime_seconds'', ptr_field dec_int64 (\<lambda>x s. s\<lparr>rb_UptimeSeconds := x\<rparr>)),
      (''sqlite_queue_depth'', ptr_field dec_int64 (\<lambda>x s. s\<lparr>rb_SQLiteQueueDepth := x\<rparr>)),
      (''memory_usage_bytes'', ptr_field dec_int64 (\<lambda>x s. s\<lparr>rb_MemoryUsageBytes := x\<rparr>)),
      (''goroutine_count'', ptr_field dec_int64 (\<lambda>x s. s\<lparr>rb_GoroutineCount := x\<rparr>))]"

definition validateHeartbeatV2 :: "wire_parsers \<Rightarrow> v2_envelope \<Rightarrow> json \<Rightarrow> string + heartbeat_v2" where
  "validateHeartbeatV2 wp env payload =
     (case decode_struct True heartbeat_fields payload zero_heartbeat of None \<Rightarrow> Inl ''decode heartbeat payload'' | Some p \<Rightarrow>
      guarded (trim_space (rb_Hostname p) \<noteq> [] \<and> trim_space (rb_Version p) \<noteq> [] \<and> trim_space (rb_GitCommit p) \<noteq> []
          \<and> trim_space (rb_BuildTime p) \<noteq> []) ''heartbeat identity fields are required''
      (guarded (rb_BuildTime p = ''unknown'' \<or> parseTimestamp wp (rb_BuildTime p) \<noteq> None) ''build_time''
      (case (rb_UptimeSeconds p, rb_SQLiteQueueDepth p, rb_MemoryUsageBytes p, rb_GoroutineCount p) of
         (Some uptime, Some depth, Some memory, Some goroutines) \<Rightarrow>
           guarded (uptime \<ge> 0) ''uptime_seconds must be >= 0''
           (guarded (depth \<ge> 0) ''sqlite_queue_depth must be >= 0''
           (guarded (memory \<ge> 0) ''memory_usage_bytes must be >= 0''
           (guarded (goroutines \<ge> 0) ''goroutine_count must be >= 0''
             (Inr \<lparr>vb_Envelope = env, vb_Hostname = rb_Hostname p, vb_Version = rb_Version p,
                vb_GitCommit = rb_GitCommit p, vb_BuildTime = rb_BuildTime p, vb_UptimeSeconds = uptime,
                vb_SQLiteQueueDepth = depth, vb_MemoryUsageBytes = memory, vb_GoroutineCount = goroutines\<rparr>))))
       | _ \<Rightarrow> Inl ''heartbeat counters are required'')))"

section \<open>Version 1 payloads\<close>

record device_raw1 =
  d1_Timestamp :: string
  d1_SiteID :: string
  d1_DeviceID :: string
  d1_IPAddress :: string
  d1_Metric :: string
  d1_Value :: "f64 option"

definition device_fields1 :: "device_raw1 fields" where
  "device_fields1 =
     [(''timestamp'', str_field (\<lambda>x s. s\<lparr>d1_Timestamp := x\<rparr>)),
      (''site_id'', str_field (\<lambda>x s. s\<lparr>d1_SiteID := x\<rparr>)),
      (''device_id'', str_field (\<lambda>x s. s\<lparr>d1_DeviceID := x\<rparr>)),
      (''ip_address'', str_field (\<lambda>x s. s\<lparr>d1_IPAddress := x\<rparr>)),
      (''metric'', str_field (\<lambda>x s. s\<lparr>d1_Metric := x\<rparr>)),
      (''value'', ptr_field dec_f64 (\<lambda>x s. s\<lparr>d1_Value := x\<rparr>))]"

record interface_raw1 =
  i1_Timestamp :: string
  i1_SiteID :: string
  i1_DeviceID :: string
  i1_IfIndex :: "int option"
  i1_InOctets :: "64 word option"
  i1_OutOctets :: "64 word option"
  i1_InErrors :: "64 word option"
  i1_OutErrors :: "64 word option"

definition interface_fields1 :: "interface_raw1 fields" where
  "interface_fields1 =
     [(''timestamp'', str_field (\<lambda>x s. s\<lparr>i1_Timestamp := x\<rparr>)),
      (''site_id'', str_field (\<lambda>x s. s\<lparr>i1_SiteID := x\<rparr>)),
      (''device_id'', str_field (\<lambda>x s. s\<lparr>i1_DeviceID := x\<rparr>)),
      (''if_index'', ptr_field dec_int64 (\<lambda>x s. s\<lparr>i1_IfIndex := x\<rparr>)),
      (''in_octets'', ptr_field dec_word (\<lambda>x s. s\<lparr>i1_InOctets := x\<rparr>)),
      (''out_octets'', ptr_field dec_word (\<lambda>x s. s\<lparr>i1_OutOctets := x\<rparr>)),
      (''in_errors'', ptr_field dec_word (\<lambda>x s. s\<lparr>i1_InErrors := x\<rparr>)),
      (''out_errors'', ptr_field dec_word (\<lambda>x s. s\<lparr>i1_OutErrors := x\<rparr>))]"

definition checkOptionalIDs :: "topic_parts \<Rightarrow> string \<Rightarrow> string \<Rightarrow> bool" where
  "checkOptionalIDs tp siteID deviceID \<longleftrightarrow>
     \<not> (siteID \<noteq> [] \<and> siteID \<noteq> tp_SiteID tp) \<and> \<not> (deviceID \<noteq> [] \<and> deviceID \<noteq> tp_DeviceID tp)"

definition validateDevice :: "wire_parsers \<Rightarrow> topic_parts \<Rightarrow> json \<Rightarrow> string + device_message" where
  "validateDevice wp tp payload =
     (case decode_struct False device_fields1 payload \<lparr>d1_Timestamp = [], d1_SiteID = [], d1_DeviceID = [],
          d1_IPAddress = [], d1_Metric = [], d1_Value = None\<rparr> of
        None \<Rightarrow> Inl ''decode device payload'' | Some p \<Rightarrow>
      guarded (checkOptionalIDs tp (d1_SiteID p) (d1_DeviceID p)) ''body does not match topic''
      (case parseTimestamp wp (d1_Timestamp p) of None \<Rightarrow> Inl ''timestamp'' | Some ts \<Rightarrow>
       guarded (trim_space (d1_Metric p) \<noteq> []) ''metric is required''
       (case d1_Value p of None \<Rightarrow> Inl ''value is required'' | Some v \<Rightarrow>
        Inr \<lparr>ms_SiteID = tp_SiteID tp, ms_DeviceID = tp_DeviceID tp, ms_IPAddress = trim_space (d1_IPAddress p),
          ms_Timestamp = ts, ms_Metric = d1_Metric p, ms_Value = v\<rparr>)))"

definition validateInterface :: "wire_parsers \<Rightarrow> topic_parts \<Rightarrow> json \<Rightarrow> string + interface_message" where
  "validateInterface wp tp payload =
     (case decode_struct False interface_fields1 payload \<lparr>i1_Timestamp = [], i1_SiteID = [], i1_DeviceID = [],
          i1_IfIndex = None, i1_InOctets = None, i1_OutOctets = None, i1_InErrors = None, i1_OutErrors = None\<rparr> of
        None \<Rightarrow> Inl ''decode interface payload'' | Some p \<Rightarrow>
      guarded (checkOptionalIDs tp (i1_SiteID p) (i1_DeviceID p)) ''body does not match topic''
      (case parseTimestamp wp (i1_Timestamp p) of None \<Rightarrow> Inl ''timestamp'' | Some ts \<Rightarrow>
       (case i1_IfIndex p of None \<Rightarrow> Inl ''if_index is required'' | Some ifIndex \<Rightarrow>
        (case (i1_InOctets p, i1_OutOctets p, i1_InErrors p, i1_OutErrors p) of
           (Some inO, Some outO, Some inE, Some outE) \<Rightarrow>
             Inr \<lparr>mi_SiteID = tp_SiteID tp, mi_DeviceID = tp_DeviceID tp, mi_Timestamp = ts, mi_IfIndex = ifIndex,
               mi_InOctets = inO, mi_OutOctets = outO, mi_InErrors = inE, mi_OutErrors = outE\<rparr>
         | _ \<Rightarrow> Inl ''in_octets, out_octets, in_errors, and out_errors are required''))))"

section \<open>Validation of a message\<close>

definition ValidateV2 :: "wire_parsers \<Rightarrow> string \<Rightarrow> json option \<Rightarrow> string + message" where
  "ValidateV2 wp topic payload =
     (case ParseTopicV2 topic of Inl e \<Rightarrow> Inl e | Inr tp \<Rightarrow>
     (case payload of None \<Rightarrow> Inl ''invalid JSON'' | Some v \<Rightarrow>
     (case decode_struct True envelope_fields v zero_envelope of None \<Rightarrow> Inl ''decode envelope'' | Some raw \<Rightarrow>
     (case validateEnvelope wp raw tp of Inl e \<Rightarrow> Inl e | Inr env \<Rightarrow>
      (let body = (case er_Payload raw of None \<Rightarrow> JNull | Some b \<Rightarrow> b) in
       case tp_Kind tp of
         KindDeviceV2 \<Rightarrow> map_sum id MsgDeviceV2 (validateDeviceV2 wp env body)
       | KindInterfaceV2 \<Rightarrow> map_sum id MsgInterfaceV2 (validateInterfaceV2 env body)
       | KindHealthV2 \<Rightarrow> map_sum id MsgHealthV2 (validateHealthV2 env body)
       | KindHeartbeatV2 \<Rightarrow> map_sum id MsgHeartbeatV2 (validateHeartbeatV2 wp env body)
       | _ \<Rightarrow> Inl ''unsupported v2 kind'')))))"

definition Validate :: "wire_parsers \<Rightarrow> string \<Rightarrow> json option \<Rightarrow> string + message" where
  "Validate wp topic payload =
     (if contains topic ''/telemetry/v2/'' then ValidateV2 wp topic payload
      else
        (case ParseTopic topic of Inl e \<Rightarrow> Inl e | Inr tp \<Rightarrow>
        (case payload of None \<Rightarrow> Inl ''invalid JSON'' | Some v \<Rightarrow>
         (case tp_Kind tp of
            KindDevice \<Rightarrow> map_sum id MsgDevice (validateDevice wp tp v)
          | KindInterface \<Rightarrow> map_sum id MsgInterface (validateInterface wp tp v)
          | _ \<Rightarrow> Inl ''unsupported kind''))))"

end
