(* ===== verification/Wire.thy ===== *)
theory Wire
  imports Telemetry Ingest
begin

text \<open>
  The members the collector writes are the fields the ingestion service reads: for each struct,
  decoding the encoded value gives back its fields.  The lemmas on members are shared by the
  payloads; the strings come back with the bytes the encoder replaces, \<open>coerce_utf8\<close>.
\<close>

section \<open>Members\<close>

definition pair_of :: "string \<times> json option \<Rightarrow> string \<times> json" where
  "pair_of m = (fst m, the (snd m))"

definition encodable :: "members \<Rightarrow> bool" where
  "encodable ms = list_all (\<lambda>m. snd m \<noteq> None) ms"

lemma mk_obj_encodable: "mk_obj ms = (if encodable ms then Some (JObj (map pair_of ms)) else None)"
  by (simp add: mk_obj_def encodable_def pair_of_def split_def)

lemma encodable_simps [simp]:
  "encodable []" "encodable (m # ms) \<longleftrightarrow> snd m \<noteq> None \<and> encodable ms"
  "encodable (xs @ ys) \<longleftrightarrow> encodable xs \<and> encodable ys"
  by (simp_all add: encodable_def)

lemma pair_of_m [json_simps]:
  "pair_of (m_str k s) = (k, j_str s)" "pair_of (m_int k i) = (k, j_int i)"
  "pair_of (m_word k w) = (k, j_int (uint w))" "pair_of (m_time rfc k t) = (k, the (map_option j_str (rfc t)))"
  "pair_of (k, v) = (k, the v)"
  by (simp_all add: pair_of_def m_str_def m_int_def m_word_def m_time_def)

lemma snd_m [simp]: "snd (m_str k s) = Some (j_str s)" "snd (m_int k i) = Some (j_int i)"
  "snd (m_word k w) = Some (j_int (uint w))" "snd (m_time rfc k t) = map_option j_str (rfc t)"
  by (simp_all add: m_str_def m_int_def m_word_def m_time_def)

lemma encodable_omit_str [simp]: "encodable (omit_str k s)"
  by (simp add: omit_str_def)

lemma decode_omit_str [json_simps]:
  assumes "find_field tbl k = Some (str_field upd)" and "upd [] st = st"
  shows "decode_members strict tbl (map pair_of (omit_str k s)) st = Some (upd (coerce_utf8 s) st)"
  using assms by (simp add: omit_str_def json_simps)

lemma decode_omit_nil:
  assumes "find_field tbl k = Some (ptr_field dec upd)" and "upd None st = st"
    and "\<And>x. v = Some x \<Longrightarrow> \<exists>j. f x = Some j \<and> j \<noteq> JNull \<and> dec j = Some x"
  shows "decode_members strict tbl (map pair_of (omit_nil k f v)) st = Some (upd v st)"
proof (cases v)
  case None
  with assms show ?thesis by (simp add: omit_nil_def)
next
  case (Some x)
  with assms(3) obtain j where "f x = Some j" "j \<noteq> JNull" "dec j = Some x" by blast
  with assms(1) Some show ?thesis by (simp add: omit_nil_def json_simps ptr_field_def)
qed

definition finite_f64 :: "f64 \<Rightarrow> bool" where
  "finite_f64 v \<longleftrightarrow> j_f64 v \<noteq> None"

definition finite_opt :: "f64 option \<Rightarrow> bool" where
  "finite_opt v \<longleftrightarrow> (case v of None \<Rightarrow> True | Some x \<Rightarrow> finite_f64 x)"

lemma finite_f64_simps [simp]: "finite_f64 (Fin r)" "\<not> finite_f64 NaN" "\<not> finite_f64 PosInf" "\<not> finite_f64 NegInf"
  by (simp_all add: finite_f64_def j_f64_def)

lemma decode_omit_f64 [json_simps]:
  assumes "find_field tbl k = Some (ptr_field dec_f64 upd)" and "upd None st = st" and "finite_opt v"
  shows "decode_members strict tbl (map pair_of (omit_nil k j_f64 v)) st = Some (upd v st)"
  using assms
  by (intro decode_omit_nil [where dec = dec_f64]) (auto simp: finite_opt_def finite_f64_def dest: dec_f64_j)

lemma decode_omit_text [json_simps]:
  assumes "find_field tbl k = Some (ptr_field dec_str upd)" and "upd None st = st"
    and "map_option coerce_utf8 v = v"
  shows "decode_members strict tbl (map pair_of (omit_nil k (\<lambda>s. Some (j_str s)) v)) st = Some (upd v st)"
  using assms by (intro decode_omit_nil [where dec = dec_str]) (auto simp: json_simps)

lemma dec_word_j [json_simps]: "dec_word (j_int (uint w)) = Some w"
  using uint_range_size [of w] by (simp add: dec_word_def dec_uint64_j word_size)

lemma decode_omit_word [json_simps]:
  assumes "find_field tbl k = Some (ptr_field dec_word upd)" and "upd None st = st"
  shows "decode_members strict tbl (map pair_of (omit_nil k (\<lambda>w. Some (j_int (uint w))) v)) st = Some (upd v st)"
  using assms by (intro decode_omit_nil [where dec = dec_word]) (auto simp: json_simps)

lemma encodable_omit_f64 [simp]: "encodable (omit_nil k j_f64 v) \<longleftrightarrow> finite_opt v"
  by (simp add: omit_nil_def finite_opt_def finite_f64_def split: option.split)

lemma encodable_omit_some [simp]: "encodable (omit_nil k (\<lambda>x. Some (g x)) v)"
  by (simp add: omit_nil_def split: option.split)

lemma ptr_field_j:
  "dec j = Some x \<Longrightarrow> j \<noteq> JNull \<Longrightarrow> ptr_field dec upd j s = Some (upd (Some x) s)"
  by (simp add: ptr_field_def)

section \<open>The envelope\<close>

text \<open>The RFC 3339 text of a time reads back as that time; an ID is read as it is written.\<close>

definition clock_ok :: "(time \<Rightarrow> string option) \<Rightarrow> wire_parsers \<Rightarrow> time \<Rightarrow> bool" where
  "clock_ok rfc wp t \<longleftrightarrow> (case rfc t of None \<Rightarrow> False
     | Some s \<Rightarrow> coerce_utf8 s = s \<and> parseTimestamp wp s = Some t)"

definition uuid_ok :: "wire_parsers \<Rightarrow> string \<Rightarrow> bool" where
  "uuid_ok wp u \<longleftrightarrow> is_ascii u \<and> wp_uuid wp (trim_space u) = Some u"

definition wire_id :: "string \<Rightarrow> bool" where
  "wire_id i \<longleftrightarrow> identifierPattern i \<and> length i \<le> 128"

definition wire_text :: "string \<Rightarrow> bool" where
  "wire_text s \<longleftrightarrow> is_ascii s \<and> trim_space s \<noteq> [] \<and> length s \<le> 128"

lemma wire_id_check: "wire_id i \<Longrightarrow> checkIdentifier i"
  by (simp add: wire_id_def checkIdentifier_def Let_def trim_identifier identifier_nonempty)

lemma ident_ascii: "is_ident_char c \<Longrightarrow> (of_char c :: nat) < 128"
  by (auto simp: is_ident_char_def is_alpha_def is_digit_def less_eq_char_def)

lemma identifier_ascii: "identifierPattern i \<Longrightarrow> is_ascii i"
  by (auto simp: is_ascii_def list_all_iff dest!: identifier_chars ident_ascii)

lemma wire_id_facts:
  assumes "wire_id i"
  shows "coerce_utf8 i = i" "trim_space i = i" "i \<noteq> []" "CHR ''/'' \<notin> set i" "is_ascii i" "checkIdentifier i"
  using assms wire_id_check [OF assms]
  by (auto simp: wire_id_def trim_identifier identifier_nonempty identifier_ascii coerce_ascii
      dest: identifier_no_slash)

lemma find_envelope [json_simps]:
  "find_field envelope_fields ''schema_version'' = Some (str_field (\<lambda>x s. s\<lparr>er_SchemaVersion := x\<rparr>))"
  "find_field envelope_fields ''event_id'' = Some (str_field (\<lambda>x s. s\<lparr>er_EventID := x\<rparr>))"
  "find_field envelope_fields ''event_type'' = Some (str_field (\<lambda>x s. s\<lparr>er_EventType := x\<rparr>))"
  "find_field envelope_fields ''site_id'' = Some (str_field (\<lambda>x s. s\<lparr>er_SiteID := x\<rparr>))"
  "find_field envelope_fields ''collector_id'' = Some (str_field (\<lambda>x s. s\<lparr>er_CollectorID := x\<rparr>))"
  "find_field envelope_fields ''device_id'' = Some (str_field (\<lambda>x s. s\<lparr>er_DeviceID := x\<rparr>))"
  "find_field envelope_fields ''observed_at'' = Some (str_field (\<lambda>x s. s\<lparr>er_ObservedAt := x\<rparr>))"
  "find_field envelope_fields ''emitted_at'' = Some (str_field (\<lambda>x s. s\<lparr>er_EmittedAt := x\<rparr>))"
  "find_field envelope_fields ''config_revision'' = Some (str_field (\<lambda>x s. s\<lparr>er_ConfigRevision := x\<rparr>))"
  "find_field envelope_fields ''payload'' = Some (raw_field (\<lambda>x s. s\<lparr>er_Payload := Some x\<rparr>))"
  by (simp_all add: find_field_def envelope_fields_def)

definition envelope_of :: "envelope \<Rightarrow> v2_envelope" where
  "envelope_of e = \<lparr>ve_SchemaVersion = en_SchemaVersion e, ve_EventID = en_EventID e, ve_EventType = en_EventType e,
     ve_SiteID = en_SiteID e, ve_CollectorID = en_CollectorID e, ve_DeviceID = en_DeviceID e,
     ve_ObservedAt = en_ObservedAt e, ve_EmittedAt = en_EmittedAt e, ve_ConfigRevision = en_ConfigRevision e\<rparr>"

definition envelope_ok :: "(time \<Rightarrow> string option) \<Rightarrow> wire_parsers \<Rightarrow> envelope \<Rightarrow> bool" where
  "envelope_ok rfc wp e \<longleftrightarrow> en_SchemaVersion e = ''2.0'' \<and> uuid_ok wp (en_EventID e) \<and> wire_id (en_SiteID e)
     \<and> wire_id (en_CollectorID e) \<and> clock_ok rfc wp (en_ObservedAt e) \<and> clock_ok rfc wp (en_EmittedAt e)
     \<and> wire_text (en_ConfigRevision e)"

lemma v2_json_decodes:
  assumes "rfc (en_ObservedAt e) = Some to" and "rfc (en_EmittedAt e) = Some te"
  shows "\<exists>j. v2_json rfc e (Some b) = Some j \<and> decode_struct True envelope_fields j zero_envelope = Some
     \<lparr>er_SchemaVersion = coerce_utf8 (en_SchemaVersion e), er_EventID = coerce_utf8 (en_EventID e),
      er_EventType = coerce_utf8 (en_EventType e), er_SiteID = coerce_utf8 (en_SiteID e),
      er_CollectorID = coerce_utf8 (en_CollectorID e), er_DeviceID = coerce_utf8 (en_DeviceID e),
      er_ObservedAt = coerce_utf8 to, er_EmittedAt = coerce_utf8 te,
      er_ConfigRevision = coerce_utf8 (en_ConfigRevision e), er_Payload = Some b\<rparr>"
proof -
  have "v2_json rfc e (Some b) = Some (JObj (map pair_of (envelope_members rfc e @ [(''payload'', Some b)])))"
    using assms by (simp add: v2_json_def mk_obj_encodable envelope_members_def)
  moreover have "decode_members True envelope_fields
      (map pair_of (envelope_members rfc e @ [(''payload'', Some b)])) zero_envelope = Some
     \<lparr>er_SchemaVersion = coerce_utf8 (en_SchemaVersion e), er_EventID = coerce_utf8 (en_EventID e),
      er_EventType = coerce_utf8 (en_EventType e), er_SiteID = coerce_utf8 (en_SiteID e),
      er_CollectorID = coerce_utf8 (en_CollectorID e), er_DeviceID = coerce_utf8 (en_DeviceID e),
      er_ObservedAt = coerce_utf8 to, er_EmittedAt = coerce_utf8 te,
      er_ConfigRevision = coerce_utf8 (en_ConfigRevision e), er_Payload = Some b\<rparr>"
    using assms
    by (simp add: envelope_members_def decode_members_append json_simps raw_field_def zero_envelope_def)
  ultimately show ?thesis by (simp add: decode_struct_def)
qed

lemma clock_okE:
  assumes "clock_ok rfc wp t"
  obtains s where "rfc t = Some s" "coerce_utf8 s = s" "parseTimestamp wp s = Some t"
  using assms by (auto simp: clock_ok_def split: option.splits)

lemma envelope_accepted:
  assumes ok: "envelope_ok rfc wp e" and b: "b \<noteq> JNull" "b \<noteq> JObj []"
    and kind: "en_EventType e = expected_type (tp_Kind tp)" "is_ascii (en_EventType e)"
    and site: "tp_SiteID tp = en_SiteID e"
    and who: "if tp_Kind tp = KindHeartbeatV2 then en_DeviceID e = [] \<and> tp_CollectorID tp = en_CollectorID e
      else wire_id (en_DeviceID e) \<and> tp_DeviceID tp = en_DeviceID e"
  shows "\<exists>j raw. v2_json rfc e (Some b) = Some j
    \<and> decode_struct True envelope_fields j zero_envelope = Some raw \<and> er_Payload raw = Some b
    \<and> validateEnvelope wp raw tp = Inr (envelope_of e)"
proof -
  from ok obtain to where to: "rfc (en_ObservedAt e) = Some to" "coerce_utf8 to = to"
      "parseTimestamp wp to = Some (en_ObservedAt e)"
    by (auto simp: envelope_ok_def elim: clock_okE)
  from ok obtain te where te: "rfc (en_EmittedAt e) = Some te" "coerce_utf8 te = te"
      "parseTimestamp wp te = Some (en_EmittedAt e)"
    by (auto simp: envelope_ok_def elim: clock_okE)
  from v2_json_decodes [of rfc e to te b, OF to(1) te(1)] obtain j where j:
    "v2_json rfc e (Some b) = Some j"
    "decode_struct True envelope_fields j zero_envelope = Some
     \<lparr>er_SchemaVersion = coerce_utf8 (en_SchemaVersion e), er_EventID = coerce_utf8 (en_EventID e),
      er_EventType = coerce_utf8 (en_EventType e), er_SiteID = coerce_utf8 (en_SiteID e),
      er_CollectorID = coerce_utf8 (en_CollectorID e), er_DeviceID = coerce_utf8 (en_DeviceID e),
      er_ObservedAt = coerce_utf8 to, er_EmittedAt = coerce_utf8 te,
      er_ConfigRevision = coerce_utf8 (en_ConfigRevision e), er_Payload = Some b\<rparr>"
    by blast
  have dev: "coerce_utf8 (en_DeviceID e) = en_DeviceID e"
    using who by (cases "tp_Kind tp = KindHeartbeatV2") (auto dest: wire_id_facts)
  have "is_ascii ''2.0''" by (simp add: is_ascii_def)
  with j ok b kind site who to te dev show ?thesis
    by (auto simp: envelope_ok_def uuid_ok_def wire_text_def coerce_ascii wire_id_facts
        validateEnvelope_def guarded_def envelope_of_def Let_def)
qed

section \<open>Topics\<close>

lemma split_topic:
  assumes "CHR ''/'' \<notin> set a" "CHR ''/'' \<notin> set b"
  shows "split_on (CHR ''/'') (''site/'' @ a @ ''/device/'' @ b @ CHR ''/'' # rest)
      = ''site'' # a # ''device'' # b # split_on (CHR ''/'') rest"
    and "split_on (CHR ''/'') (''site/'' @ a @ ''/collector/'' @ b @ CHR ''/'' # rest)
      = ''site'' # a # ''collector'' # b # split_on (CHR ''/'') rest"
  by (simp_all add: split_on_append [OF assms(1)] split_on_append [OF assms(2)])

definition topic_kind :: "out_event \<Rightarrow> kind" where
  "topic_kind ev = (case ev of DeviceMetricEvent _ \<Rightarrow> KindDevice | InterfaceMetricEvent _ \<Rightarrow> KindInterface
    | DeviceTelemetryEvent _ _ \<Rightarrow> KindDeviceV2 | InterfaceTelemetryEvent _ _ \<Rightarrow> KindInterfaceV2
    | HealthStateEvent _ _ \<Rightarrow> KindHealthV2 | HeartbeatEvent _ _ \<Rightarrow> KindHeartbeatV2)"

lemma v2_device_topic:
  assumes "wire_id a" "wire_id b" "v2_kind rest = Some k" "CHR ''/'' \<notin> set rest"
  shows "ParseTopicV2 (device_topic a b (''/telemetry/v2/'' @ rest))
    = Inr \<lparr>tp_SiteID = a, tp_DeviceID = b, tp_CollectorID = [], tp_Kind = k\<rparr>"
  using assms wire_id_facts [OF assms(1)] wire_id_facts [OF assms(2)]
    split_topic(1) [of a b "''telemetry/v2/'' @ rest"]
  by (simp add: ParseTopicV2_def device_topic_def guarded_def split_on_word)

lemma v2_heartbeat_topic:
  assumes "wire_id a" "wire_id b"
  shows "ParseTopicV2 (''site/'' @ a @ ''/collector/'' @ b @ ''/telemetry/v2/heartbeat'')
    = Inr \<lparr>tp_SiteID = a, tp_DeviceID = [], tp_CollectorID = b, tp_Kind = KindHeartbeatV2\<rparr>"
  using assms wire_id_facts [OF assms(1)] wire_id_facts [OF assms(2)]
    split_topic(2) [of a b "''telemetry/v2/heartbeat''"]
  by (simp add: ParseTopicV2_def guarded_def)

lemma contains_append: "contains s sub \<Longrightarrow> contains (pre @ s) sub"
  by (induction pre) simp_all

lemma contains_prefix: "prefix sub s \<Longrightarrow> contains s sub"
  by (cases s) auto

lemma v2_topic_contains: "contains (device_topic a b (''/telemetry/v2/'' @ rest)) ''/telemetry/v2/''"
  "contains (''site/'' @ a @ ''/collector/'' @ b @ ''/telemetry/v2/heartbeat'') ''/telemetry/v2/''"
  unfolding device_topic_def by (intro contains_append contains_prefix; simp)+

section \<open>Health payloads\<close>

lemma find_health [json_simps]:
  "find_field health_fields ''state'' = Some (str_field (\<lambda>x s. s\<lparr>rh_State := x\<rparr>))"
  "find_field health_fields ''reason'' = Some (str_field (\<lambda>x s. s\<lparr>rh_Reason := x\<rparr>))"
  "find_field health_fields ''previous_state'' = Some (ptr_field dec_str (\<lambda>x s. s\<lparr>rh_PreviousState := x\<rparr>))"
  "find_field health_fields ''transition'' = Some (str_field (\<lambda>x s. s\<lparr>rh_Transition := x\<rparr>))"
  "find_field health_fields ''failure_count'' = Some (ptr_field dec_int64 (\<lambda>x s. s\<lparr>rh_FailureCount := x\<rparr>))"
  "find_field health_fields ''failure_threshold'' = Some (ptr_field dec_int64 (\<lambda>x s. s\<lparr>rh_FailureThreshold := x\<rparr>))"
  "find_field health_fields ''temperature_c'' = Some (ptr_field dec_f64 (\<lambda>x s. s\<lparr>rh_TemperatureC := x\<rparr>))"
  "find_field health_fields ''temperature_warning_c'' = Some (ptr_field dec_f64 (\<lambda>x s. s\<lparr>rh_TemperatureWarningC := x\<rparr>))"
  "find_field health_fields ''temperature_policy_revision'' =
     Some (ptr_field dec_str (\<lambda>x s. s\<lparr>rh_TemperaturePolicyRevision := x\<rparr>))"
  "find_field health_fields ''upstream_device_ids'' =
     Some (ptr_field (dec_list dec_elem) (\<lambda>x s. s\<lparr>rh_UpstreamDeviceIDs := x\<rparr>))"
  "find_field health_fields ''unavailable_upstream_device_ids'' =
     Some (ptr_field (dec_list dec_elem) (\<lambda>x s. s\<lparr>rh_UnavailableUpstreamDeviceIDs := x\<rparr>))"
  "find_field health_fields ''root_cause_device_ids'' =
     Some (ptr_field (dec_list dec_elem) (\<lambda>x s. s\<lparr>rh_RootCauseDeviceIDs := x\<rparr>))"
  "find_field health_fields ''alerts_enabled'' = Some (ptr_field dec_bool (\<lambda>x s. s\<lparr>rh_AlertsEnabled := x\<rparr>))"
  by (simp_all add: find_field_def health_fields_def)

definition health_ok :: "health_payload \<Rightarrow> bool" where
  "health_ok p \<longleftrightarrow> hp_State p \<in> health_states \<and> hp_Reason p \<in> health_reasons
     \<and> hp_Transition p \<in> health_transitions
     \<and> (case hp_PreviousState p of None \<Rightarrow> True | Some s \<Rightarrow> s \<in> health_states)
     \<and> 0 \<le> hp_FailureCount p \<and> hp_FailureCount p < 2 ^ 63
     \<and> 1 \<le> hp_FailureThreshold p \<and> hp_FailureThreshold p < 2 ^ 63
     \<and> finite_opt (hp_TemperatureC p) \<and> finite_opt (hp_TemperatureWarningC p)
     \<and> map_option coerce_utf8 (hp_TemperaturePolicyRevision p) = hp_TemperaturePolicyRevision p
     \<and> list_all wire_id (hp_UpstreamDeviceIDs p) \<and> list_all wire_id (hp_UnavailableUpstreamDeviceIDs p)
     \<and> list_all wire_id (hp_RootCauseDeviceIDs p)"

definition health_of :: "v2_envelope \<Rightarrow> health_payload \<Rightarrow> health_v2" where
  "health_of env p = \<lparr>vh_Envelope = env, vh_State = hp_State p, vh_Reason = hp_Reason p,
     vh_PreviousState = hp_PreviousState p, vh_Transition = hp_Transition p, vh_FailureCount = hp_FailureCount p,
     vh_FailureThreshold = hp_FailureThreshold p, vh_TemperatureC = hp_TemperatureC p,
     vh_TemperatureWarningC = hp_TemperatureWarningC p,
     vh_TemperaturePolicyRevision = hp_TemperaturePolicyRevision p,
     vh_UpstreamDeviceIDs = hp_UpstreamDeviceIDs p,
     vh_UnavailableUpstreamDeviceIDs = hp_UnavailableUpstreamDeviceIDs p,
     vh_RootCauseDeviceIDs = hp_RootCauseDeviceIDs p, vh_AlertsEnabled = hp_AlertsEnabled p\<rparr>"

lemma wire_ids_ascii: "list_all wire_id xs \<Longrightarrow> list_all is_ascii xs"
  by (auto simp: list_all_iff wire_id_facts)

lemma wire_ids_check: "list_all wire_id xs \<Longrightarrow> list_all checkIdentifier xs"
  by (auto simp: list_all_iff wire_id_check)

lemma health_words_ascii:
  assumes "s \<in> health_states \<or> s \<in> health_reasons \<or> s \<in> health_transitions"
  shows "coerce_utf8 s = s"
  using assms
  by (intro coerce_ascii)
     (auto simp: health_states_def health_reasons_def health_transitions_def is_ascii_def)

lemma health_accepted:
  assumes ok: "health_ok p"
  shows "\<exists>b. health_json p = Some b \<and> b \<noteq> JNull \<and> b \<noteq> JObj [] \<and> validateHealthV2 env b = Inr (health_of env p)"
proof -
  let ?raw = "\<lparr>rh_State = hp_State p, rh_Reason = hp_Reason p, rh_PreviousState = hp_PreviousState p,
      rh_Transition = hp_Transition p, rh_FailureCount = Some (hp_FailureCount p),
      rh_FailureThreshold = Some (hp_FailureThreshold p), rh_TemperatureC = hp_TemperatureC p,
      rh_TemperatureWarningC = hp_TemperatureWarningC p,
      rh_TemperaturePolicyRevision = hp_TemperaturePolicyRevision p,
      rh_UpstreamDeviceIDs = Some (hp_UpstreamDeviceIDs p),
      rh_UnavailableUpstreamDeviceIDs = Some (hp_UnavailableUpstreamDeviceIDs p),
      rh_RootCauseDeviceIDs = Some (hp_RootCauseDeviceIDs p), rh_AlertsEnabled = Some (hp_AlertsEnabled p)\<rparr>"
  have words: "coerce_utf8 (hp_State p) = hp_State p" "coerce_utf8 (hp_Reason p) = hp_Reason p"
    "coerce_utf8 (hp_Transition p) = hp_Transition p"
    "map_option coerce_utf8 (hp_PreviousState p) = hp_PreviousState p"
    using ok by (auto simp: health_ok_def health_words_ascii split: option.splits)
  have decodes: "\<exists>kvs. health_json p = Some (JObj kvs) \<and> kvs \<noteq> []
      \<and> decode_members True health_fields kvs zero_health = Some ?raw"
    using ok words
    by (simp add: health_ok_def health_json_def mk_obj_encodable decode_members_append json_simps zero_health_def
        ptr_field_j dec_int64_j dec_list_j wire_ids_ascii ptr_field_j [of dec_bool] dec_bool_def)
  from ok have "validateHealthV2 env (JObj kvs) = Inr (health_of env p)"
    if "decode_members True health_fields kvs zero_health = Some ?raw" for kvs
    using that
    by (simp add: validateHealthV2_def decode_struct_def guarded_def health_ok_def health_of_def wire_ids_check)
  with decodes show ?thesis by blast
qed

end
