(* ===== verification/WireTelemetry.thy ===== *)
theory WireTelemetry
  imports Wire
begin

text \<open>
  The other payloads on the wire: interface telemetry, heartbeats and device telemetry with its
  components, each with the condition under which the ingestion service accepts it.
\<close>

section \<open>Interfaces\<close>

lemma find_iface [json_simps]:
  "find_field iface_fields ''if_index'' = Some (ptr_field dec_int64 (\<lambda>x s. s\<lparr>fi_IfIndex := x\<rparr>))"
  "find_field iface_fields ''name'' = Some (str_field (\<lambda>x s. s\<lparr>fi_Name := x\<rparr>))"
  "find_field iface_fields ''alias'' = Some (str_field (\<lambda>x s. s\<lparr>fi_Alias := x\<rparr>))"
  "find_field iface_fields ''type'' = Some (str_field (\<lambda>x s. s\<lparr>fi_Type := x\<rparr>))"
  "find_field iface_fields ''admin_status'' = Some (str_field (\<lambda>x s. s\<lparr>fi_AdminStatus := x\<rparr>))"
  "find_field iface_fields ''oper_status'' = Some (str_field (\<lambda>x s. s\<lparr>fi_OperStatus := x\<rparr>))"
  "find_field iface_fields ''speed_bps'' = Some (ptr_field dec_int64 (\<lambda>x s. s\<lparr>fi_SpeedBps := x\<rparr>))"
  by (simp_all add: find_field_def iface_fields_def)

lemma find_counters [json_simps]:
  "find_field counters_fields ''in_octets'' = Some (ptr_field dec_word (\<lambda>x s. s\<lparr>fn_InOctets := x\<rparr>))"
  "find_field counters_fields ''out_octets'' = Some (ptr_field dec_word (\<lambda>x s. s\<lparr>fn_OutOctets := x\<rparr>))"
  "find_field counters_fields ''in_errors'' = Some (ptr_field dec_word (\<lambda>x s. s\<lparr>fn_InErrors := x\<rparr>))"
  "find_field counters_fields ''out_errors'' = Some (ptr_field dec_word (\<lambda>x s. s\<lparr>fn_OutErrors := x\<rparr>))"
  "find_field counters_fields ''in_discards'' = Some (ptr_field dec_word (\<lambda>x s. s\<lparr>fn_InDiscards := x\<rparr>))"
  "find_field counters_fields ''out_discards'' = Some (ptr_field dec_word (\<lambda>x s. s\<lparr>fn_OutDiscards := x\<rparr>))"
  by (simp_all add: find_field_def counters_fields_def)

lemma find_interface [json_simps]:
  "find_field interface_fields ''interface'' =
     Some (sub_field (decode_struct True iface_fields) rf_Interface (\<lambda>x s. s\<lparr>rf_Interface := x\<rparr>))"
  "find_field interface_fields ''counters'' =
     Some (sub_field (decode_struct True counters_fields) rf_Counters (\<lambda>x s. s\<lparr>rf_Counters := x\<rparr>))"
  by (simp_all add: find_field_def interface_fields_def)

lemma sub_field_obj [json_simps]:
  "sub_field (decode_struct strict tbl) get upd (JObj kvs) s =
     map_option (\<lambda>x. upd x s) (decode_members strict tbl kvs (get s))"
  by (simp add: sub_field_def decode_struct_def)

lemma ptr_field_int64 [json_simps]:
  "- (2 ^ 63) \<le> i \<Longrightarrow> i < 2 ^ 63 \<Longrightarrow> ptr_field dec_int64 upd (j_int i) s = Some (upd (Some i) s)"
  by (simp add: ptr_field_j dec_int64_j)

lemma ptr_field_word [json_simps]: "ptr_field dec_word upd (j_int (uint w)) s = Some (upd (Some w) s)"
  by (simp add: ptr_field_j dec_word_j)

lemma ptr_field_null_int64 [json_simps]:
  "(\<And>v. sp = Some v \<Longrightarrow> - (2 ^ 63) \<le> v \<and> v < 2 ^ 63) \<Longrightarrow>
   ptr_field dec_int64 upd (case sp of None \<Rightarrow> JNull | Some v \<Rightarrow> j_int v) s = Some (upd sp s)"
  by (cases sp) (simp_all add: ptr_field_int64, simp add: ptr_field_def)

definition interface_ok :: "interface_payload \<Rightarrow> bool" where
  "interface_ok p \<longleftrightarrow> 1 \<le> it_IfIndex p \<and> it_IfIndex p < 2 ^ 63 \<and> trim_space (coerce_utf8 (it_Name p)) \<noteq> []
     \<and> checkStatusEnum (it_AdminStatus p) \<and> checkStatusEnum (it_OperStatus p)
     \<and> (\<forall>v. it_SpeedBps p = Some v \<longrightarrow> 0 \<le> v \<and> v < 2 ^ 63)"

definition interface_of :: "v2_envelope \<Rightarrow> interface_payload \<Rightarrow> interface_v2" where
  "interface_of env p = \<lparr>vi_Envelope = env, vi_IfIndex = it_IfIndex p, vi_Name = coerce_utf8 (it_Name p),
     vi_Alias = coerce_utf8 (it_Alias p), vi_Type = coerce_utf8 (it_Type p), vi_AdminStatus = it_AdminStatus p,
     vi_OperStatus = it_OperStatus p, vi_SpeedBps = it_SpeedBps p, vi_InOctets = it_InOctets p,
     vi_OutOctets = it_OutOctets p, vi_InErrors = it_InErrors p, vi_OutErrors = it_OutErrors p,
     vi_InDiscards = it_InDiscards p, vi_OutDiscards = it_OutDiscards p\<rparr>"

lemma status_ascii: "checkStatusEnum s \<Longrightarrow> coerce_utf8 s = s"
  by (intro coerce_ascii) (auto simp: checkStatusEnum_def is_ascii_def)

lemma interface_accepted:
  assumes ok: "interface_ok p"
  shows "\<exists>b. interface_json p = Some b \<and> b \<noteq> JNull \<and> b \<noteq> JObj [] \<and> validateInterfaceV2 env b = Inr (interface_of env p)"
proof -
  let ?raw = "\<lparr>rf_Interface = \<lparr>fi_IfIndex = Some (it_IfIndex p), fi_Name = coerce_utf8 (it_Name p),
       fi_Alias = coerce_utf8 (it_Alias p), fi_Type = coerce_utf8 (it_Type p), fi_AdminStatus = it_AdminStatus p,
       fi_OperStatus = it_OperStatus p, fi_SpeedBps = it_SpeedBps p\<rparr>,
     rf_Counters = \<lparr>fn_InOctets = Some (it_InOctets p), fn_OutOctets = Some (it_OutOctets p),
       fn_InErrors = Some (it_InErrors p), fn_OutErrors = Some (it_OutErrors p),
       fn_InDiscards = it_InDiscards p, fn_OutDiscards = it_OutDiscards p\<rparr>\<rparr>"
  have speed: "\<And>v. it_SpeedBps p = Some v \<Longrightarrow> - (2 ^ 63) \<le> v \<and> v < 2 ^ 63"
    using ok by (auto simp: interface_ok_def)
  have decodes: "\<exists>kvs. interface_json p = Some (JObj kvs) \<and> kvs \<noteq> []
      \<and> decode_members True interface_fields kvs zero_interface = Some ?raw"
    using ok speed
    by (simp add: interface_ok_def interface_json_def mk_obj_encodable decode_members_append json_simps
        zero_interface_def status_ascii)
  from ok have "validateInterfaceV2 env (JObj kvs) = Inr (interface_of env p)"
    if "decode_members True interface_fields kvs zero_interface = Some ?raw" for kvs
    using that
    by (simp add: validateInterfaceV2_def decode_struct_def guarded_def interface_ok_def interface_of_def
        split: option.split)
  with decodes show ?thesis by blast
qed

section \<open>Heartbeats\<close>

lemma find_heartbeat [json_simps]:
  "find_field heartbeat_fields ''hostname'' = Some (str_field (\<lambda>x s. s\<lparr>rb_Hostname := x\<rparr>))"
  "find_field heartbeat_fields ''version'' = Some (str_field (\<lambda>x s. s\<lparr>rb_Version := x\<rparr>))"
  "find_field heartbeat_fields ''git_commit'' = Some (str_field (\<lambda>x s. s\<lparr>rb_GitCommit := x\<rparr>))"
  "find_field heartbeat_fields ''build_time'' = Some (str_field (\<lambda>x s. s\<lparr>rb_BuildTime := x\<rparr>))"
  "find_field heartbeat_fields ''uptime_seconds'' = Some (ptr_field dec_int64 (\<lambda>x s. s\<lparr>rb_UptimeSeconds := x\<rparr>))"
  "find_field heartbeat_fields ''sqlite_queue_depth'' = Some (ptr_field dec_int64 (\<lambda>x s. s\<lparr>rb_SQLiteQueueDepth := x\<rparr>))"
  "find_field heartbeat_fields ''memory_usage_bytes'' = Some (ptr_field dec_int64 (\<lambda>x s. s\<lparr>rb_MemoryUsageBytes := x\<rparr>))"
  "find_field heartbeat_fields ''goroutine_count'' = Some (ptr_field dec_int64 (\<lambda>x s. s\<lparr>rb_GoroutineCount := x\<rparr>))"
  by (simp_all add: find_field_def heartbeat_fields_def)

definition nonneg64 :: "int \<Rightarrow> bool" where
  "nonneg64 i \<longleftrightarrow> 0 \<le> i \<and> i < 2 ^ 63"

definition heartbeat_ok :: "wire_parsers \<Rightarrow> heartbeat_payload \<Rightarrow> bool" where
  "heartbeat_ok wp p \<longleftrightarrow> trim_space (coerce_utf8 (hb_Hostname p)) \<noteq> [] \<and> trim_space (coerce_utf8 (hb_Version p)) \<noteq> []
     \<and> trim_space (coerce_utf8 (hb_GitCommit p)) \<noteq> [] \<and> trim_space (coerce_utf8 (hb_BuildTime p)) \<noteq> []
     \<and> (coerce_utf8 (hb_BuildTime p) = ''unknown'' \<or> parseTimestamp wp (coerce_utf8 (hb_BuildTime p)) \<noteq> None)
     \<and> nonneg64 (hb_UptimeSeconds p) \<and> nonneg64 (hb_SQLiteQueueDepth p) \<and> nonneg64 (hb_MemoryUsageBytes p)
     \<and> nonneg64 (hb_GoroutineCount p)"

definition heartbeat_of :: "v2_envelope \<Rightarrow> heartbeat_payload \<Rightarrow> heartbeat_v2" where
  "heartbeat_of env p = \<lparr>vb_Envelope = env, vb_Hostname = coerce_utf8 (hb_Hostname p),
     vb_Version = coerce_utf8 (hb_Version p), vb_GitCommit = coerce_utf8 (hb_GitCommit p),
     vb_BuildTime = coerce_utf8 (hb_BuildTime p), vb_UptimeSeconds = hb_UptimeSeconds p,
     vb_SQLiteQueueDepth = hb_SQLiteQueueDepth p, vb_MemoryUsageBytes = hb_MemoryUsageBytes p,
     vb_GoroutineCount = hb_GoroutineCount p\<rparr>"

lemma heartbeat_accepted:
  assumes ok: "heartbeat_ok wp p"
  shows "\<exists>b. heartbeat_json p = Some b \<and> b \<noteq> JNull \<and> b \<noteq> JObj [] \<and> validateHeartbeatV2 wp env b = Inr (heartbeat_of env p)"
proof -
  let ?raw = "\<lparr>rb_Hostname = coerce_utf8 (hb_Hostname p), rb_Version = coerce_utf8 (hb_Version p),
     rb_GitCommit = coerce_utf8 (hb_GitCommit p), rb_BuildTime = coerce_utf8 (hb_BuildTime p),
     rb_UptimeSeconds = Some (hb_UptimeSeconds p), rb_SQLiteQueueDepth = Some (hb_SQLiteQueueDepth p),
     rb_MemoryUsageBytes = Some (hb_MemoryUsageBytes p), rb_GoroutineCount = Some (hb_GoroutineCount p)\<rparr>"
  have decodes: "\<exists>kvs. heartbeat_json p = Some (JObj kvs) \<and> kvs \<noteq> []
      \<and> decode_members True heartbeat_fields kvs zero_heartbeat = Some ?raw"
    using ok
    by (simp add: heartbeat_ok_def nonneg64_def heartbeat_json_def mk_obj_encodable json_simps zero_heartbeat_def)
  from ok have "validateHeartbeatV2 wp env (JObj kvs) = Inr (heartbeat_of env p)"
    if "decode_members True heartbeat_fields kvs zero_heartbeat = Some ?raw" for kvs
    using that
    by (simp add: validateHeartbeatV2_def decode_struct_def guarded_def heartbeat_ok_def nonneg64_def heartbeat_of_def)
  with decodes show ?thesis by blast
qed

section \<open>Components\<close>

lemma find_component [json_simps]:
  "find_field component_fields ''component_id'' = Some (str_field (\<lambda>x s. s\<lparr>rc_ComponentID := x\<rparr>))"
  "find_field component_fields ''name'' = Some (str_field (\<lambda>x s. s\<lparr>rc_Name := x\<rparr>))"
  "find_field component_fields ''index'' = Some (str_field (\<lambda>x s. s\<lparr>rc_Index := x\<rparr>))"
  "find_field component_fields ''value'' = Some (ptr_field dec_f64 (\<lambda>x s. s\<lparr>rc_Value := x\<rparr>))"
  "find_field component_fields ''unit'' = Some (str_field (\<lambda>x s. s\<lparr>rc_Unit := x\<rparr>))"
  "find_field component_fields ''status'' = Some (str_field (\<lambda>x s. s\<lparr>rc_Status := x\<rparr>))"
  "find_field component_fields ''observed_at'' = Some (str_field (\<lambda>x s. s\<lparr>rc_ObservedAt := x\<rparr>))"
  by (simp_all add: find_field_def component_fields_def)

definition raw_component :: "string \<Rightarrow> component_payload \<Rightarrow> component_raw" where
  "raw_component time_text c = \<lparr>rc_ComponentID = coerce_utf8 (cp_ComponentID c), rc_Name = coerce_utf8 (cp_Name c),
     rc_Index = coerce_utf8 (cp_Index c), rc_Value = cp_Value c, rc_Unit = coerce_utf8 (cp_Unit c),
     rc_Status = coerce_utf8 (cp_Status c), rc_ObservedAt = time_text\<rparr>"

lemma ptr_field_value [json_simps]:
  assumes "finite_opt v"
  shows "ptr_field dec_f64 upd (the (case v of None \<Rightarrow> Some JNull | Some x \<Rightarrow> j_f64 x)) s = Some (upd v s)"
proof (cases v)
  case None
  then show ?thesis by (simp add: ptr_field_def)
next
  case (Some x)
  with assms obtain j where "j_f64 x = Some j" by (auto simp: finite_opt_def finite_f64_def)
  with Some dec_f64_j [OF this] show ?thesis by (simp add: ptr_field_j)
qed

lemma value_encodable [simp]:
  "(case v of None \<Rightarrow> Some JNull | Some x \<Rightarrow> j_f64 x) \<noteq> None \<longleftrightarrow> finite_opt v"
  by (cases v) (simp_all add: finite_opt_def finite_f64_def)

lemma component_json_iff:
  assumes "rfc (cp_ObservedAt c) = Some to"
  shows "component_json rfc c \<noteq> None \<longleftrightarrow> finite_opt (cp_Value c)"
  using assms value_encodable [of "cp_Value c"] by (simp add: component_json_def mk_obj_encodable del: value_encodable)

lemma component_decodes:
  assumes "rfc (cp_ObservedAt c) = Some to" "coerce_utf8 to = to" "finite_opt (cp_Value c)"
  shows "dec_component (the (component_json rfc c)) = Some (raw_component to c)"
  using assms value_encodable [of "cp_Value c"]
  by (simp add: component_json_def mk_obj_encodable dec_component_def decode_struct_def json_simps
      zero_component_def raw_component_def del: value_encodable)

lemma mk_arr_json:
  "mk_arr (map f xs) = (if list_all (\<lambda>x. f x \<noteq> None) xs then Some (JArr (map (\<lambda>x. the (f x)) xs)) else None)"
  by (simp add: mk_arr_def list_all_iff)

lemma components_decode:
  assumes "\<And>c. c \<in> set cs \<Longrightarrow> cp_ObservedAt c = t" "rfc t = Some to" "coerce_utf8 to = to"
    "list_all (\<lambda>c. finite_opt (cp_Value c)) cs"
  shows "decode_all dec_component (map (\<lambda>c. the (component_json rfc c)) cs) = Some (map (raw_component to) cs)"
  using assms by (induction cs) (simp_all add: component_decodes)

lemma validate_components_iff:
  assumes "parseTimestamp wp to = Some t"
    and times: "list_all (\<lambda>c. rc_ObservedAt c = to) cs"
  shows "(\<exists>out. validate_components wp check seen cs = Inr out) \<longleftrightarrow>
    list_all (\<lambda>c. checkComponentCommon c = None \<and> check c = None) cs
    \<and> distinct (map rc_ComponentID cs) \<and> set (map rc_ComponentID cs) \<inter> set seen = {}"
  using times
proof (induction cs arbitrary: seen)
  case (Cons c cs)
  from Cons.prems assms(1) have t: "parseTimestamp wp (rc_ObservedAt c) = Some t" and "list_all (\<lambda>c. rc_ObservedAt c = to) cs"
    by simp_all
  note IH = Cons.IH [OF this(2), of "rc_ComponentID c # seen"]
  have "(\<exists>out. validate_components wp check seen (c # cs) = Inr out) \<longleftrightarrow>
      checkComponentCommon c = None \<and> check c = None \<and> rc_ComponentID c \<notin> set seen
      \<and> (\<exists>out. validate_components wp check (rc_ComponentID c # seen) cs = Inr out)"
    using t by (auto simp: guarded_def split: option.split sum.split)
  also have "\<dots> \<longleftrightarrow> list_all (\<lambda>c. checkComponentCommon c = None \<and> check c = None) (c # cs)
    \<and> distinct (map rc_ComponentID (c # cs)) \<and> set (map rc_ComponentID (c # cs)) \<inter> set seen = {}"
    unfolding IH by auto
  finally show ?case .
qed simp

section \<open>Device telemetry\<close>

lemma find_device [json_simps]:
  "find_field device_fields ''identity'' =
     Some (sub_field (decode_struct True identity_fields) rd_Identity (\<lambda>x s. s\<lparr>rd_Identity := x\<rparr>))"
  "find_field device_fields ''profile'' =
     Some (sub_field (decode_struct True profile_fields) rd_Profile (\<lambda>x s. s\<lparr>rd_Profile := x\<rparr>))"
  "find_field device_fields ''readings'' =
     Some (sub_field (decode_struct True readings_fields) rd_Readings (\<lambda>x s. s\<lparr>rd_Readings := x\<rparr>))"
  "find_field device_fields ''temperature_components'' =
     Some (ptr_field (dec_list dec_component) (\<lambda>x s. s\<lparr>rd_TemperatureComponents := x\<rparr>))"
  "find_field device_fields ''power_components'' =
     Some (ptr_field (dec_list dec_component) (\<lambda>x s. s\<lparr>rd_PowerComponents := x\<rparr>))"
  by (simp_all add: find_field_def device_fields_def)

lemma find_identity [json_simps]:
  "find_field identity_fields ''hostname'' = Some (str_field (\<lambda>x s. s\<lparr>ri_Hostname := x\<rparr>))"
  "find_field identity_fields ''management_address'' = Some (str_field (\<lambda>x s. s\<lparr>ri_ManagementAddress := x\<rparr>))"
  "find_field identity_fields ''role'' = Some (str_field (\<lambda>x s. s\<lparr>ri_Role := x\<rparr>))"
  "find_field identity_fields ''sys_object_id'' = Some (str_field (\<lambda>x s. s\<lparr>ri_SysObjectID := x\<rparr>))"
  "find_field identity_fields ''sys_name'' = Some (str_field (\<lambda>x s. s\<lparr>ri_SysName := x\<rparr>))"
  "find_field identity_fields ''sys_descr'' = Some (str_field (\<lambda>x s. s\<lparr>ri_SysDescr := x\<rparr>))"
  "find_field identity_fields ''vendor'' = Some (str_field (\<lambda>x s. s\<lparr>ri_Vendor := x\<rparr>))"
  "find_field identity_fields ''model'' = Some (str_field (\<lambda>x s. s\<lparr>ri_Model := x\<rparr>))"
  "find_field identity_fields ''serial'' = Some (str_field (\<lambda>x s. s\<lparr>ri_Serial := x\<rparr>))"
  "find_field identity_fields ''snmp_version'' = Some (str_field (\<lambda>x s. s\<lparr>ri_SNMPVersion := x\<rparr>))"
  by (simp_all add: find_field_def identity_fields_def)

lemma find_profile [json_simps]:
  "find_field profile_fields ''name'' = Some (str_field (\<lambda>x s. s\<lparr>rp_Name := x\<rparr>))"
  "find_field profile_fields ''capabilities'' =
     Some (ptr_field (dec_list dec_elem) (\<lambda>x s. s\<lparr>rp_Capabilities := x\<rparr>))"
  by (simp_all add: find_field_def profile_fields_def)

lemma find_readings [json_simps]:
  "find_field readings_fields ''uptime_seconds'' = Some (ptr_field dec_f64 (\<lambda>x s. s\<lparr>rr_UptimeSeconds := x\<rparr>))"
  "find_field readings_fields ''cpu_utilization_pct'' =
     Some (ptr_field dec_f64 (\<lambda>x s. s\<lparr>rr_CPUUtilizationPct := x\<rparr>))"
  "find_field readings_fields ''memory_utilization_pct'' =
     Some (ptr_field dec_f64 (\<lambda>x s. s\<lparr>rr_MemoryUtilizationPct := x\<rparr>))"
  "find_field readings_fields ''primary_temperature_c'' =
     Some (ptr_field dec_f64 (\<lambda>x s. s\<lparr>rr_PrimaryTemperatureC := x\<rparr>))"
  by (simp_all add: find_field_def readings_fields_def)

definition floats_finite :: "device_payload \<Rightarrow> bool" where
  "floats_finite p \<longleftrightarrow> finite_f64 (dt_UptimeSeconds p) \<and> finite_opt (dt_CPUUtilizationPct p)
     \<and> finite_opt (dt_MemoryUtilizationPct p) \<and> finite_opt (dt_PrimaryTemperatureC p)
     \<and> list_all (\<lambda>c. finite_opt (cp_Value c)) (dt_TemperatureComponents p)
     \<and> list_all (\<lambda>c. finite_opt (cp_Value c)) (dt_PowerComponents p)"

definition raw_device :: "string \<Rightarrow> device_payload \<Rightarrow> device_raw" where
  "raw_device to p = \<lparr>rd_Identity = \<lparr>ri_Hostname = coerce_utf8 (dt_Hostname p),
       ri_ManagementAddress = coerce_utf8 (dt_ManagementAddress p), ri_Role = coerce_utf8 (dt_Role p),
       ri_SysObjectID = coerce_utf8 (dt_SysObjectID p), ri_SysName = coerce_utf8 (dt_SysName p),
       ri_SysDescr = coerce_utf8 (dt_SysDescr p), ri_Vendor = coerce_utf8 (dt_Vendor p),
       ri_Model = coerce_utf8 (dt_Model p), ri_Serial = coerce_utf8 (dt_Serial p),
       ri_SNMPVersion = coerce_utf8 (dt_SNMPVersion p)\<rparr>,
     rd_Profile = \<lparr>rp_Name = coerce_utf8 (dt_ProfileName p), rp_Capabilities = Some (dt_Capabilities p)\<rparr>,
     rd_Readings = \<lparr>rr_UptimeSeconds = Some (dt_UptimeSeconds p), rr_CPUUtilizationPct = dt_CPUUtilizationPct p,
       rr_MemoryUtilizationPct = dt_MemoryUtilizationPct p, rr_PrimaryTemperatureC = dt_PrimaryTemperatureC p\<rparr>,
     rd_TemperatureComponents = Some (map (raw_component to) (dt_TemperatureComponents p)),
     rd_PowerComponents = Some (map (raw_component to) (dt_PowerComponents p))\<rparr>"

lemma ptr_field_f64 [json_simps]:
  assumes "finite_f64 v"
  shows "ptr_field dec_f64 upd (the (j_f64 v)) s = Some (upd (Some v) s)"
  using ptr_field_value [of "Some v" upd s] assms by (simp add: finite_opt_def)

lemma device_json_None:
  assumes times: "list_all (\<lambda>c. cp_ObservedAt c = t) (dt_TemperatureComponents p @ dt_PowerComponents p)"
    and clock: "rfc t = Some to"
  shows "device_json rfc p \<noteq> None \<longleftrightarrow> floats_finite p"
proof -
  have "list_all (\<lambda>c. component_json rfc c \<noteq> None) cs = list_all (\<lambda>c. finite_opt (cp_Value c)) cs"
    if "list_all (\<lambda>c. cp_ObservedAt c = t) cs" for cs
    using that clock by (induction cs) (simp_all add: component_json_iff del: not_None_eq)
  with times have "list_all (\<lambda>c. component_json rfc c \<noteq> None) (dt_TemperatureComponents p)
        = list_all (\<lambda>c. finite_opt (cp_Value c)) (dt_TemperatureComponents p)"
    "list_all (\<lambda>c. component_json rfc c \<noteq> None) (dt_PowerComponents p)
        = list_all (\<lambda>c. finite_opt (cp_Value c)) (dt_PowerComponents p)"
    by simp_all
  then show ?thesis
    unfolding device_json_def mk_obj_encodable mk_arr_json floats_finite_def
    by (auto simp: finite_f64_def simp del: not_None_eq)
qed

lemma device_decodes:
  assumes times: "list_all (\<lambda>c. cp_ObservedAt c = t) (dt_TemperatureComponents p @ dt_PowerComponents p)"
    and clock: "rfc t = Some to" "coerce_utf8 to = to"
    and fin: "floats_finite p" and caps: "list_all is_ascii (dt_Capabilities p)"
  shows "\<exists>kvs. device_json rfc p = Some (JObj kvs) \<and> kvs \<noteq> []
    \<and> decode_members True device_fields kvs zero_device = Some (raw_device to p)"
proof -
  have arr: "mk_arr (map (component_json rfc) cs) = Some (JArr (map (\<lambda>c. the (component_json rfc c)) cs))
      \<and> decode_all dec_component (map (\<lambda>c. the (component_json rfc c)) cs) = Some (map (raw_component to) cs)"
    if "list_all (\<lambda>c. cp_ObservedAt c = t) cs" "list_all (\<lambda>c. finite_opt (cp_Value c)) cs" for cs
    using that clock components_decode [of cs t rfc to]
    by (simp add: mk_arr_json list_all_iff component_json_iff del: not_None_eq)
  note temps = arr [of "dt_TemperatureComponents p"] and powers = arr [of "dt_PowerComponents p"]
  show ?thesis
    using times fin caps temps powers
    by (simp add: device_json_def floats_finite_def mk_obj_encodable decode_members_append json_simps
        zero_device_def zero_identity_def ptr_field_j [of "dec_list dec_elem"] dec_list_j
        ptr_field_j [of "dec_list dec_component"] dec_list_def [of dec_component] raw_device_def finite_f64_def)
qed

definition common_ok :: "component_payload \<Rightarrow> bool" where
  "common_ok c \<longleftrightarrow> trim_space (coerce_utf8 (cp_ComponentID c)) \<noteq> [] \<and> trim_space (coerce_utf8 (cp_Name c)) \<noteq> []
     \<and> trim_space (coerce_utf8 (cp_Index c)) \<noteq> []
     \<and> cp_Status c \<in> {''ok'', ''warning'', ''critical'', ''not_present'', ''unknown''}"

definition temps_ok :: "component_payload list \<Rightarrow> bool" where
  "temps_ok cs \<longleftrightarrow> list_all (\<lambda>c. common_ok c \<and> cp_Unit c = ''celsius'' \<and> cp_Value c \<noteq> None) cs
     \<and> distinct (map (\<lambda>c. coerce_utf8 (cp_ComponentID c)) cs)"

definition powers_ok :: "component_payload list \<Rightarrow> bool" where
  "powers_ok cs \<longleftrightarrow> list_all (\<lambda>c. common_ok c \<and> cp_Unit c \<in> {''state'', ''watts'', ''volts'', ''amps'', ''percent''}) cs
     \<and> distinct (map (\<lambda>c. coerce_utf8 (cp_ComponentID c)) cs)"

definition identity_ok :: "device_payload \<Rightarrow> bool" where
  "identity_ok p \<longleftrightarrow> trim_space (coerce_utf8 (dt_Hostname p)) \<noteq> [] \<and> trim_space (coerce_utf8 (dt_SysObjectID p)) \<noteq> []
     \<and> trim_space (coerce_utf8 (dt_SysName p)) \<noteq> [] \<and> dt_SysDescr p \<noteq> [] \<and> dt_SNMPVersion p = ''2c''
     \<and> dt_ProfileName p \<in> {''core'', ''cisco'', ''arista'', ''unknown''}"

definition readings_ok :: "device_payload \<Rightarrow> bool" where
  "readings_ok p \<longleftrightarrow> \<not> f64_lt (dt_UptimeSeconds p) (Fin 0) \<and> checkOptionalPct (dt_CPUUtilizationPct p)
     \<and> checkOptionalPct (dt_MemoryUtilizationPct p)"

definition telemetry_ok :: "device_payload \<Rightarrow> bool" where
  "telemetry_ok p \<longleftrightarrow> floats_finite p \<and> identity_ok p \<and> readings_ok p
     \<and> temps_ok (dt_TemperatureComponents p) \<and> powers_ok (dt_PowerComponents p)"

lemma coerce_word [json_simps]:
  "coerce_utf8 s \<in> {''ok'', ''warning'', ''critical'', ''not_present'', ''unknown''} \<longleftrightarrow>
     s \<in> {''ok'', ''warning'', ''critical'', ''not_present'', ''unknown''}"
  "coerce_utf8 s \<in> {''state'', ''watts'', ''volts'', ''amps'', ''percent''} \<longleftrightarrow>
     s \<in> {''state'', ''watts'', ''volts'', ''amps'', ''percent''}"
  "coerce_utf8 s \<in> {''core'', ''cisco'', ''arista'', ''unknown''} \<longleftrightarrow> s \<in> {''core'', ''cisco'', ''arista'', ''unknown''}"
  "coerce_utf8 s = ''celsius'' \<longleftrightarrow> s = ''celsius''" "coerce_utf8 s = ''2c'' \<longleftrightarrow> s = ''2c''"
  by (simp_all add: coerce_eq_ascii is_ascii_def)

lemma coerce_empty [simp]: "coerce_utf8 s = [] \<longleftrightarrow> s = []"
  using coerce_nonempty [of s] by auto

lemma raw_common: "checkComponentCommon (raw_component to c) = None \<longleftrightarrow> common_ok c"
  using coerce_word(1) [of "cp_Status c"]
  by (simp add: checkComponentCommon_def raw_component_def common_ok_def)

lemma raw_temperature: "check_temperature (raw_component to c) = None \<longleftrightarrow> cp_Unit c = ''celsius'' \<and> cp_Value c \<noteq> None"
  by (simp add: check_temperature_def raw_component_def json_simps)

lemma raw_power: "check_power (raw_component to c) = None \<longleftrightarrow> cp_Unit c \<in> {''state'', ''watts'', ''volts'', ''amps'', ''percent''}"
  using coerce_word(2) [of "cp_Unit c"] by (simp add: check_power_def raw_component_def)

lemma raw_component_id: "rc_ComponentID (raw_component to c) = coerce_utf8 (cp_ComponentID c)"
  by (simp add: raw_component_def)

lemma raw_components_iff:
  assumes "parseTimestamp wp to = Some t"
  shows "(\<exists>out. validate_components wp check [] (map (raw_component to) cs) = Inr out) \<longleftrightarrow>
    list_all (\<lambda>c. common_ok c \<and> check (raw_component to c) = None) cs
    \<and> distinct (map (\<lambda>c. coerce_utf8 (cp_ComponentID c)) cs)"
proof -
  have "list_all (\<lambda>c. rc_ObservedAt c = to) (map (raw_component to) cs)"
    by (simp add: list_all_iff raw_component_def)
  from validate_components_iff [OF assms this, of check "[]"] show ?thesis
    by (simp add: list_all_iff raw_common raw_component_id comp_def)
qed

definition caps_ok :: "device_payload \<Rightarrow> bool" where
  "caps_ok p \<longleftrightarrow> set (dt_Capabilities p) \<subseteq> {''cpu'', ''memory'', ''temperature'', ''power''} \<and> distinct (dt_Capabilities p)"

lemma caps_ascii: "caps_ok p \<Longrightarrow> list_all is_ascii (dt_Capabilities p)"
proof -
  have "\<forall>x \<in> {''cpu'', ''memory'', ''temperature'', ''power''}. is_ascii x" by (simp add: is_ascii_def)
  then show "caps_ok p \<Longrightarrow> list_all is_ascii (dt_Capabilities p)"
    unfolding caps_ok_def list_all_iff by blast
qed

lemma raw_device_valid:
  assumes clock: "parseTimestamp wp to = Some t" and caps: "caps_ok p"
    and decodes: "decode_struct True device_fields b zero_device = Some (raw_device to p)"
  shows "(\<exists>m. validateDeviceV2 wp env b = Inr m) \<longleftrightarrow> identity_ok p \<and> readings_ok p
    \<and> temps_ok (dt_TemperatureComponents p) \<and> powers_ok (dt_PowerComponents p)"
proof -
  let ?T = "validate_components wp check_temperature [] (map (raw_component to) (dt_TemperatureComponents p))"
  let ?P = "validate_components wp check_power [] (map (raw_component to) (dt_PowerComponents p))"
  have T: "(\<exists>out. ?T = Inr out) \<longleftrightarrow> temps_ok (dt_TemperatureComponents p)"
    unfolding raw_components_iff [OF clock] temps_ok_def raw_temperature by simp
  have P: "(\<exists>out. ?P = Inr out) \<longleftrightarrow> powers_ok (dt_PowerComponents p)"
    unfolding raw_components_iff [OF clock] powers_ok_def raw_power by simp
  have name: "coerce_utf8 (dt_ProfileName p) \<in> {''core'', ''cisco'', ''arista'', ''unknown''}
      \<longleftrightarrow> dt_ProfileName p \<in> {''core'', ''cisco'', ''arista'', ''unknown''}"
    by (rule coerce_word(3))
  have "(\<exists>m. validateDeviceV2 wp env b = Inr m) \<longleftrightarrow> identity_ok p \<and> readings_ok p \<and> (\<exists>out. ?T = Inr out) \<and> (\<exists>out. ?P = Inr out)"
    unfolding validateDeviceV2_def decodes option.case Let_def raw_device_def device_raw.simps identity_raw.simps
      profile_raw.simps readings_raw.simps name nil_list_def
    using caps unfolding caps_ok_def identity_ok_def readings_ok_def
    by (cases ?T; cases ?P) (simp_all add: coerce_word(5))
  with T P show ?thesis by simp
qed

lemma device_accepted_iff:
  assumes times: "list_all (\<lambda>c. cp_ObservedAt c = t) (dt_TemperatureComponents p @ dt_PowerComponents p)"
    and clock: "rfc t = Some to" "coerce_utf8 to = to" "parseTimestamp wp to = Some t" and caps: "caps_ok p"
  shows "(\<exists>b m. device_json rfc p = Some b \<and> b \<noteq> JNull \<and> b \<noteq> JObj [] \<and> validateDeviceV2 wp env b = Inr m)
    \<longleftrightarrow> telemetry_ok p"
proof (cases "floats_finite p")
  case False
  with device_json_None [of t p rfc to] times clock(1) show ?thesis by (simp add: telemetry_ok_def)
next
  case True
  have "list_all is_ascii (dt_Capabilities p)" using caps by (rule caps_ascii)
  from device_decodes [of t p rfc to, OF times clock(1,2) True this] obtain kvs where
    kvs: "device_json rfc p = Some (JObj kvs)" "kvs \<noteq> []"
      "decode_members True device_fields kvs zero_device = Some (raw_device to p)" by blast
  from raw_device_valid [OF clock(3) caps, of "JObj kvs" env] kvs True show ?thesis
    by (simp add: decode_struct_def telemetry_ok_def)
qed

end
