(* ===== verification/ContractProps.thy ===== *)
theory ContractProps
  imports WireTelemetry Health ConfigProps
begin

text \<open>
  The contract between the collector and the ingestion service: what the one sends, the other
  accepts, and reads as it was meant.
\<close>

section \<open>Topics\<close>

lemma split_on_slash: "split_on sep (p @ sep # q) = split_on sep p @ split_on sep q"
proof (induction p)
  case (Cons c p)
  then show ?case by (cases "split_on sep p") auto
qed simp

lemma contains_split: "contains s sub \<Longrightarrow> \<exists>p q. s = p @ sub @ q"
proof (induction s)
  case (Cons c s)
  show ?case
  proof (cases "prefix sub (c # s)")
    case True
    then obtain q where "c # s = sub @ q" by (auto simp: prefix_def)
    then show ?thesis by (metis append_Nil)
  next
    case False
    with Cons obtain p q where "s = p @ sub @ q" by auto
    then show ?thesis by (metis append_Cons)
  qed
qed simp

lemma contains_segments:
  assumes "contains s (sep # v @ sep # w @ [sep])" "sep \<notin> set v" "sep \<notin> set w"
  shows "\<exists>us vs. split_on sep s = us @ v # w # vs"
proof -
  from contains_split [OF assms(1)] obtain p q where "s = p @ sep # v @ sep # w @ sep # q" by auto
  then have "split_on sep s = split_on sep p @ v # w # split_on sep q"
    using assms(2,3) by (simp add: split_on_slash split_on_word)
  then show ?thesis by blast
qed

definition event_site :: "out_event \<Rightarrow> string" where
  "event_site ev = (case ev of DeviceMetricEvent m \<Rightarrow> dm_SiteID m | InterfaceMetricEvent m \<Rightarrow> im_SiteID m
    | DeviceTelemetryEvent e _ \<Rightarrow> en_SiteID e | InterfaceTelemetryEvent e _ \<Rightarrow> en_SiteID e
    | HealthStateEvent e _ \<Rightarrow> en_SiteID e | HeartbeatEvent e _ \<Rightarrow> en_SiteID e)"

definition event_device :: "out_event \<Rightarrow> string" where
  "event_device ev = (case ev of DeviceMetricEvent m \<Rightarrow> dm_DeviceID m | InterfaceMetricEvent m \<Rightarrow> im_DeviceID m
    | DeviceTelemetryEvent e _ \<Rightarrow> en_DeviceID e | InterfaceTelemetryEvent e _ \<Rightarrow> en_DeviceID e
    | HealthStateEvent e _ \<Rightarrow> en_DeviceID e | HeartbeatEvent e _ \<Rightarrow> [])"

definition event_collector :: "out_event \<Rightarrow> string" where
  "event_collector ev = (case ev of HeartbeatEvent e _ \<Rightarrow> en_CollectorID e | _ \<Rightarrow> [])"

definition is_v1 :: "out_event \<Rightarrow> bool" where
  "is_v1 ev = (case ev of DeviceMetricEvent _ \<Rightarrow> True | InterfaceMetricEvent _ \<Rightarrow> True | _ \<Rightarrow> False)"

definition event_subject :: "out_event \<Rightarrow> string" where
  "event_subject ev = (if topic_kind ev = KindHeartbeatV2 then event_collector ev else event_device ev)"

text \<open>An identifier has nothing to trim, and the ingestion service takes it unless it is too long.\<close>

lemma identifier_facts:
  assumes "identifierPattern i"
  shows "trim_space i = i" "i \<noteq> []" "CHR ''/'' \<notin> set i" "checkIdentifier i \<longleftrightarrow> length i \<le> 128"
  using assms identifier_no_slash [OF assms] by (simp_all add: checkIdentifier_def Let_def trim_identifier identifier_nonempty)

lemma v1_topic:
  assumes "identifierPattern a" "identifierPattern b" "rest = ''device'' \<and> k = KindDevice \<or> rest = ''interface'' \<and> k = KindInterface"
  shows "ParseTopic (device_topic a b (''/metric/'' @ rest))
      = Inr \<lparr>tp_SiteID = a, tp_DeviceID = b, tp_CollectorID = [], tp_Kind = k\<rparr>"
    and "\<not> contains (device_topic a b (''/metric/'' @ rest)) ''/telemetry/v2/''"
proof -
  note facts = identifier_facts [OF assms(1)] identifier_facts [OF assms(2)]
  have split: "split_on (CHR ''/'') (device_topic a b (''/metric/'' @ rest)) = [''site'', a, ''device'', b, ''metric'', rest]"
    using assms(3) facts split_topic(1) [of a b "''metric/'' @ rest"] by (auto simp: device_topic_def)
  with facts assms(3) show "ParseTopic (device_topic a b (''/metric/'' @ rest))
      = Inr \<lparr>tp_SiteID = a, tp_DeviceID = b, tp_CollectorID = [], tp_Kind = k\<rparr>"
    by (auto simp: ParseTopic_def guarded_def)
  show "\<not> contains (device_topic a b (''/metric/'' @ rest)) ''/telemetry/v2/''"
  proof
    assume "contains (device_topic a b (''/metric/'' @ rest)) ''/telemetry/v2/''"
    then have "\<exists>us vs. [''site'', a, ''device'', b, ''metric'', rest] = us @ ''telemetry'' # ''v2'' # vs"
      unfolding split [symmetric] by (intro contains_segments) simp_all
    then show False by (auto simp: Cons_eq_append_conv)
  qed
qed

lemma long_topic:
  assumes "identifierPattern a" "identifierPattern b" "\<not> (length a \<le> 128 \<and> length b \<le> 128)" "CHR ''/'' \<notin> set rest"
  shows "\<exists>e. ParseTopicV2 (device_topic a b (''/telemetry/v2/'' @ rest)) = Inl e"
    and "\<exists>e. ParseTopicV2 (''site/'' @ a @ ''/collector/'' @ b @ ''/telemetry/v2/heartbeat'') = Inl e"
  using assms(3,4) identifier_facts [OF assms(1)] identifier_facts [OF assms(2)]
    split_topic(1) [of a b "''telemetry/v2/'' @ rest"] split_topic(2) [of a b "''telemetry/v2/heartbeat''"]
  by (auto simp: ParseTopicV2_def device_topic_def guarded_def split_on_word)

text \<open>C27: topics.  The topic of every event whose site and device (or collector) are identifiers in the sense of the
  collector's configuration is routed to the parser of the event's version.  The version 1 parser gives back the
  site, the device and the kind; the version 2 parser gives back the site, the device or collector, and
  the kind when both identifiers have at most 128 characters, and refuses the topic when one is longer.\<close>

theorem topics_round_trip:
  assumes "identifierPattern (event_site ev)" "identifierPattern (event_subject ev)"
  shows "contains (Topic ev) ''/telemetry/v2/'' = (\<not> is_v1 ev)
    \<and> (let parts = \<lparr>tp_SiteID = event_site ev, tp_DeviceID = event_device ev, tp_CollectorID = event_collector ev,
          tp_Kind = topic_kind ev\<rparr> in
       if is_v1 ev then ParseTopic (Topic ev) = Inr parts
       else if length (event_site ev) \<le> 128 \<and> length (event_subject ev) \<le> 128 then ParseTopicV2 (Topic ev) = Inr parts
       else (\<exists>e. ParseTopicV2 (Topic ev) = Inl e))"
proof -
  note defs = is_v1_def event_site_def event_device_def event_collector_def event_subject_def topic_kind_def v2_kind_def Let_def
  have v1: "contains (Topic ev) ''/telemetry/v2/'' = (\<not> is_v1 ev)"
    using assms v1_topic(2) [of "event_site ev" "event_subject ev" "''device''" KindDevice]
      v1_topic(2) [of "event_site ev" "event_subject ev" "''interface''" KindInterface]
      v2_topic_contains(1) [of _ _ "''device''"] v2_topic_contains(1) [of _ _ "''interface''"]
      v2_topic_contains(1) [of _ _ "''health''"] v2_topic_contains(2)
    by (cases ev) (simp_all add: defs)
  show ?thesis
  proof (cases "length (event_site ev) \<le> 128 \<and> length (event_subject ev) \<le> 128")
    case True
    then have "wire_id (event_site ev)" "wire_id (event_subject ev)" using assms by (simp_all add: wire_id_def)
    with assms True v1 v1_topic(1) [of "event_site ev" "event_subject ev" "''device''" KindDevice]
      v1_topic(1) [of "event_site ev" "event_subject ev" "''interface''" KindInterface]
      v2_device_topic [of "event_site ev" "event_subject ev" "''device''" KindDeviceV2]
      v2_device_topic [of "event_site ev" "event_subject ev" "''interface''" KindInterfaceV2]
      v2_device_topic [of "event_site ev" "event_subject ev" "''health''" KindHealthV2]
      v2_heartbeat_topic [of "event_site ev" "event_subject ev"]
    show ?thesis by (cases ev) (simp_all add: defs)
  next
    case False
    with assms v1 v1_topic(1) [of "event_site ev" "event_subject ev" "''device''" KindDevice]
      v1_topic(1) [of "event_site ev" "event_subject ev" "''interface''" KindInterface]
      long_topic(1) [OF assms False, of "''device''"] long_topic(1) [OF assms False, of "''interface''"]
      long_topic(1) [OF assms False, of "''health''"] long_topic(2) [OF assms False, of "''health''"]
    show ?thesis unfolding Let_def if_not_P [OF False] by (cases ev) (simp_all add: defs)
  qed
qed

text \<open>A heartbeat of a collector with a long identifier is refused.\<close>

definition sample_heartbeat :: "string \<Rightarrow> out_event" where
  "sample_heartbeat c = HeartbeatEvent \<lparr>en_SchemaVersion = [], en_EventID = [], en_EventType = [], en_SiteID = ''s'',
      en_CollectorID = c, en_DeviceID = [], en_ObservedAt = 0, en_EmittedAt = 0, en_ConfigRevision = []\<rparr>
      \<lparr>hb_Hostname = [], hb_Version = [], hb_GitCommit = [], hb_BuildTime = [], hb_UptimeSeconds = 0,
       hb_SQLiteQueueDepth = 0, hb_MemoryUsageBytes = 0, hb_GoroutineCount = 0\<rparr>"

lemma topics_round_trip_witness:
  "ParseTopicV2 (Topic (sample_heartbeat ''c''))
     = Inr \<lparr>tp_SiteID = ''s'', tp_DeviceID = [], tp_CollectorID = ''c'', tp_Kind = KindHeartbeatV2\<rparr>
   \<and> (\<exists>e. ParseTopicV2 (Topic (sample_heartbeat (replicate 129 (CHR ''c'')))) = Inl e)"
proof -
  have ids: "identifierPattern ''s''" "identifierPattern ''c''" "identifierPattern (replicate 129 (CHR ''c''))" by code_simp+
  then show ?thesis
    using topics_round_trip [of "sample_heartbeat ''c''"] topics_round_trip [of "sample_heartbeat (replicate 129 (CHR ''c''))"]
    by (simp add: sample_heartbeat_def event_site_def event_device_def event_collector_def event_subject_def topic_kind_def is_v1_def Let_def)
qed

section \<open>Health events\<close>

text \<open>The instants the collector can write: from the zero time, in year 1, to the end of year 9999.\<close>

definition good_time :: "time \<Rightarrow> bool" where
  "good_time t \<longleftrightarrow> 0 \<le> t \<and> t < 315537897600 * 10 ^ 9"

definition wire_entry :: "string \<Rightarrow> device_health \<Rightarrow> bool" where
  "wire_entry i e \<longleftrightarrow> wire_id i \<and> (dh_HasState e \<longrightarrow> dh_State e \<noteq> StateNone) \<and> 0 \<le> dh_FailureCount e
     \<and> finite_opt (dh_TemperatureC e) \<and> good_time (dh_LastObservedAt e) \<and> good_time (dh_LastSuccessAt e)"

definition wire_ledger :: "ledger \<Rightarrow> bool" where
  "wire_ledger devs \<longleftrightarrow> (\<forall>i e. map_of devs i = Some e \<longrightarrow> wire_entry i e)"

definition wire_event :: "int \<Rightarrow> string \<Rightarrow> event \<Rightarrow> bool" where
  "wire_event t pr ev \<longleftrightarrow> ev_TemperaturePolicyRevision ev = pr \<and> wire_id (ev_DeviceID ev) \<and> ev_State ev \<noteq> StateNone \<and> ev_Reason ev \<noteq> ReasonNone
     \<and> ev_PreviousState ev \<noteq> Some StateNone \<and> 0 \<le> ev_FailureCount ev \<and> ev_FailureThreshold ev = t
     \<and> finite_opt (ev_TemperatureC ev) \<and> finite_opt (ev_TemperatureWarningC ev)
     \<and> list_all wire_id (ev_UpstreamDeviceIDs ev) \<and> list_all wire_id (ev_UnavailableUpstream ev)
     \<and> list_all wire_id (ev_RootCauseDeviceIDs ev) \<and> good_time (ev_ObservedAt ev)"

lemma wire_ledger_Nil [simp]: "wire_ledger []"
  by (simp add: wire_ledger_def)

lemma wire_ledger_update:
  "wire_ledger devs \<Longrightarrow> wire_entry i e \<Longrightarrow> wire_ledger (AList.update i e devs)"
  by (simp add: wire_ledger_def go_simps)

lemma good_time_0 [simp]: "good_time 0"
  by (simp add: good_time_def)

lemma ensure_entries_wire:
  "wire_ledger devs \<Longrightarrow> list_all wire_id ids \<Longrightarrow> wire_ledger (ensure_entries ids devs)"
  unfolding ensure_entries_def
proof (induction ids arbitrary: devs)
  case (Cons i ids)
  then have "wire_entry i new_entry" by (simp add: wire_entry_def new_entry_def finite_opt_def)
  with Cons show ?case by (simp add: wire_ledger_update)
qed simp

lemma apply_outcome_wire:
  assumes "wire_ledger devs" "finite_opt (po_TemperatureC po)" "good_time (po_ObservedAt po)"
  shows "wire_ledger (apply_outcome po devs)"
proof (cases "map_of devs (po_DeviceID po)")
  case (Some e)
  with assms have "wire_entry (po_DeviceID po) (record_outcome po e)"
    by (auto simp: wire_ledger_def wire_entry_def record_outcome_def Let_def)
  with Some assms(1) show ?thesis by (simp add: apply_outcome_def wire_ledger_update)
qed (use assms in \<open>simp add: apply_outcome_def\<close>)

lemma apply_outcomes_wire:
  "wire_ledger devs \<Longrightarrow> list_all (\<lambda>po. finite_opt (po_TemperatureC po) \<and> good_time (po_ObservedAt po)) os \<Longrightarrow>
   wire_ledger (fold apply_outcome os devs)"
  by (induction os arbitrary: devs) (simp_all add: apply_outcome_wire)

lemma roots_wire:
  assumes "wire_ledger devs" "collectRootCauses devs us = Some roots"
  shows "list_all wire_id roots"
  using assms walk_result [of "map_of devs" us "[]"]
  by (auto simp: collectRootCauses_def list_all_iff critical_def wire_ledger_def wire_entry_def split: option.splits)

lemma evaluateDevice_wire:
  assumes wf: "wire_ledger devs" and e: "wire_entry i e" and us: "list_all wire_id us"
    and d: "evaluateDevice devs e us w t = Some (Some d)"
  shows "el_state d \<noteq> StateNone \<and> el_reason d \<noteq> ReasonNone \<and> finite_opt (el_temperatureC d)
    \<and> list_all wire_id (el_unavailable d) \<and> list_all wire_id (el_rootCauses d)"
proof (cases "dh_LastOutcomeSuccess e")
  case True
  with d e show ?thesis
    by (auto simp: evaluateDevice_def evaluateSuccess_def wire_entry_def split: if_splits)
next
  case False
  with d have "evaluateFailure devs us t = Some (Some d)" by (auto simp: evaluateDevice_def split: if_splits)
  then consider "d = direct_unreachable"
    | roots where "collectRootCauses devs (sort (filter (\<lambda>u. classify_upstream devs t u = UpUnavailable) us)) = Some roots"
      "d = \<lparr>el_state = StateUnknown, el_reason = ReasonUpstreamUnreachable, el_temperatureC = None,
        el_unavailable = sort (filter (\<lambda>u. classify_upstream devs t u = UpUnavailable) us), el_rootCauses = roots\<rparr>"
    by (auto simp: evaluateFailure_def Let_def split: if_splits)
  then show ?thesis
  proof cases
    case 1
    then show ?thesis by (simp add: direct_unreachable_def finite_opt_def)
  next
    case (2 roots)
    with us roots_wire [OF wf 2(1)] show ?thesis by (simp add: finite_opt_def list_all_iff)
  qed
qed

text \<open>The device and the threshold an evaluation uses are those of the configuration.\<close>

definition wire_config :: "config \<Rightarrow> bool" where
  "wire_config cfg \<longleftrightarrow> (\<forall>d \<in> set (c_Devices cfg). wire_id (dc_ID d) \<and> list_all wire_id (ups d)
     \<and> finite_f64 (EffectiveTemperatureWarningC d (c_TemperatureWarningC cfg)))"

lemma eval_step_wire:
  assumes cfg: "wire_config cfg" and wf: "wire_ledger devs"
    and step: "eval_step cfg t pr (device_index (c_Devices cfg)) i devs = Some (devs', evs)"
  shows "wire_ledger devs' \<and> list_all (wire_event t pr) evs"
proof (cases "map_of (device_index (c_Devices cfg)) i")
  case None
  with step wf show ?thesis by (simp add: eval_step_def)
next
  case device: (Some device)
  show ?thesis
  proof (cases "map_of devs i")
    case None
    with step wf device show ?thesis by (simp add: eval_step_def)
  next
    case e: (Some e)
    let ?w = "EffectiveTemperatureWarningC device (c_TemperatureWarningC cfg)"
    let ?us = "normalizeIDs (ups device)"
    let ?v = "evaluateDevice devs e ?us ?w t"
    have "device \<in> set (c_Devices cfg)" using device by (simp add: device_index_Some)
    with cfg have us: "list_all wire_id ?us" and w: "finite_f64 ?w"
      by (auto simp: wire_config_def list_all_iff set_normalizeIDs)
    from wf e have ok: "wire_entry i e" by (simp add: wire_ledger_def)
    consider "?v = None" | "?v = Some None" | d where "?v = Some (Some d)" by (cases ?v) auto
    then show ?thesis
    proof cases
      case (3 d)
      note d = evaluateDevice_wire [OF wf ok us 3]
      let ?al = "AlertsEnabledOrDefault device"
      let ?pc = "dh_HasState e \<and> dh_HasAlertsEnabled e \<and> dh_AlertsEnabledPublished e \<noteq> ?al"
      have res: "devs' = AList.update i (commit_entry e d ?w ?us ?al) devs"
          "evs = (if should_emit e d ?pc then [make_event i t pr e d ?w ?us ?al ?pc] else [])"
        using step device e 3 by (auto simp: eval_step_def Let_def)
      have "wire_entry i (commit_entry e d ?w ?us ?al)"
        using ok d by (simp add: wire_entry_def commit_entry_def)
      moreover have "wire_event t pr (make_event i t pr e d ?w ?us ?al ?pc)"
        using ok d us w
        by (auto simp: wire_event_def make_event_def wire_entry_def event_reason_def previousStatePtr_def finite_opt_def)
      ultimately show ?thesis using res wf by (simp add: wire_ledger_update)
    qed (use step wf device e in \<open>simp_all add: eval_step_def Let_def\<close>)
  qed
qed

lemma eval_loop_wire:
  "wire_config cfg \<Longrightarrow> wire_ledger devs \<Longrightarrow>
   eval_loop cfg t pr (device_index (c_Devices cfg)) ids devs = Some (devs', evs) \<Longrightarrow>
   wire_ledger devs' \<and> list_all (wire_event t pr) evs"
proof (induction ids arbitrary: devs devs' evs)
  case (Cons i ids)
  from Cons.prems(3) obtain d1 e1 e2 where
    d1: "eval_step cfg t pr (device_index (c_Devices cfg)) i devs = Some (d1, e1)"
    and d2: "eval_loop cfg t pr (device_index (c_Devices cfg)) ids d1 = Some (devs', e2)" and "evs = e1 @ e2"
    by (auto split: option.splits)
  with eval_step_wire [OF Cons.prems(1,2) d1] Cons.IH [OF Cons.prems(1) _ d2] show ?case by simp
qed simp

lemma ApplyBatch_wire:
  assumes cfg: "wire_config cfg" and wf: "wire_ledger devs"
    and os: "list_all (\<lambda>po. finite_opt (po_TemperatureC po) \<and> good_time (po_ObservedAt po)) os"
    and batch: "ApplyBatch pr (Some cfg) os devs = Some (devs', evs)"
  shows "wire_ledger devs' \<and> list_all (wire_event (effective_threshold cfg) pr) evs"
proof -
  have "list_all wire_id (map fst (device_index (c_Devices cfg)))"
    using cfg keys_device_index [of "c_Devices cfg"] by (auto simp: list_all_iff wire_config_def)
  then have "wire_ledger (commit_outcomes cfg os devs)"
    unfolding commit_outcomes_def by (intro apply_outcomes_wire ensure_entries_wire wf os)
  with cfg batch show ?thesis
    by (auto simp: ApplyBatch_def Let_def list_all_iff dest!: eval_loop_wire)
qed

lemma apply_batches_wire:
  "wire_config cfg \<Longrightarrow> wire_ledger devs \<Longrightarrow>
   \<forall>os \<in> set oss. list_all (\<lambda>po. finite_opt (po_TemperatureC po) \<and> good_time (po_ObservedAt po)) os \<Longrightarrow>
   apply_batches pr cfg oss devs = Some (devs', evss) \<Longrightarrow>
   \<forall>evs \<in> set evss. list_all (wire_event (effective_threshold cfg) pr) evs"
proof (induction oss arbitrary: devs evss)
  case (Cons os oss)
  from Cons.prems(4) obtain d1 evs evss' where 1: "ApplyBatch pr (Some cfg) os devs = Some (d1, evs)"
    and 2: "apply_batches pr cfg oss d1 = Some (devs', evss')" and evss: "evss = evs # evss'"
    by (auto split: option.splits)
  from ApplyBatch_wire [OF Cons.prems(1,2) _ 1] Cons.prems(3)
  have "wire_ledger d1" "list_all (wire_event (effective_threshold cfg) pr) evs" by simp_all
  with Cons.IH [OF Cons.prems(1) _ _ 2] Cons.prems(3) evss show ?case by simp
qed simp

lemma config_wire:
  assumes "validate ps cfg = None" "list_all (\<lambda>d. length (dc_ID d) \<le> 128) (c_Devices cfg)"
    "list_all (\<lambda>d. finite_f64 (EffectiveTemperatureWarningC d (c_TemperatureWarningC cfg))) (c_Devices cfg)"
  shows "wire_config cfg"
proof -
  note v = validate_None [OF assms(1)]
  from validate_devices_None [OF v(1) [unfolded validateDeviceSource_def]] assms(2)
  have ids: "\<forall>d \<in> set (c_Devices cfg). wire_id (dc_ID d)"
    by (simp add: wire_id_def device_ok_def list_all_iff)
  moreover have "\<forall>d \<in> set (c_Devices cfg). set (ups d) \<subseteq> dc_ID ` set (c_Devices cfg)"
    using v(2) [unfolded validateDependencies_None] unfolding references_ok_def by blast
  ultimately have "\<forall>d \<in> set (c_Devices cfg). list_all wire_id (ups d)"
    by (fastforce simp: list_all_iff)
  with ids assms(3) show ?thesis by (simp add: wire_config_def list_all_iff)
qed

lemma wire_event_payload:
  assumes "wire_event t pr ev" "1 \<le> t" "t < 2 ^ 63" "is_ascii pr" "ev_FailureCount ev < 2 ^ 63"
    "HealthEvent eventID now ctx site ev = HealthStateEvent env p"
  shows "health_ok p"
proof -
  have states: "state_text st \<in> health_states" if "st \<noteq> StateNone" for st
    using that by (cases st) (simp_all add: health_states_def)
  have reasons: "reason_text r \<in> health_reasons" if "r \<noteq> ReasonNone" for r
    using that by (cases r) (simp_all add: health_reasons_def)
  have transitions: "transition_text tr \<in> health_transitions" for tr
    by (cases tr) (simp_all add: health_transitions_def)
  have prev: "case map_option state_text (ev_PreviousState ev) of None \<Rightarrow> True | Some s \<Rightarrow> s \<in> health_states"
    using assms(1) states by (cases "ev_PreviousState ev") (auto simp: wire_event_def)
  show ?thesis
    unfolding assms(6) [unfolded HealthEvent_def out_event.inject, THEN conjunct2, symmetric] health_ok_def
    using assms(1-5) states reasons transitions prev
    by (simp add: wire_event_def coerce_ascii list_all_iff)
qed

lemma HealthEvents_member:
  assumes "x \<in> set (HealthEvents eventIDs now mode ctx site evs)"
    and step: "\<And>n ev. ev \<in> set evs \<Longrightarrow> x = HealthEvent (eventIDs n) now ctx site ev \<Longrightarrow> thesis"
  shows thesis
proof -
  from assms(1) obtain n where "n < length evs" "x = HealthEvent (eventIDs n) now ctx site (evs ! n)"
    by (auto simp: HealthEvents_def in_set_enumerate_eq split: if_splits)
  with assms(2) show thesis by (metis nth_mem)
qed

text \<open>C15: under one configuration the loader accepts, whose identifiers have at most 128 characters and
  whose temperature thresholds are finite, the ingestion service accepts every health event of any
  sequence of batches of finite outcomes, from an empty ledger, as what it reports: the message has the event's device, state, reason,
  transition, counts and causes.\<close>

theorem health_contract:
  assumes "load_config ps secrets brokerEnv password raw managed = Inr cfg"
    and "list_all (\<lambda>i. length i \<le> 128) (c_SiteID cfg # c_CollectorID cfg # map dc_ID (c_Devices cfg))"
    and "list_all (\<lambda>d. finite_f64 (EffectiveTemperatureWarningC d (c_TemperatureWarningC cfg))) (c_Devices cfg)"
    and "\<forall>os \<in> set oss. list_all (\<lambda>po. finite_opt (po_TemperatureC po) \<and> good_time (po_ObservedAt po)) os"
    and "apply_batches pr cfg oss [] = Some (devs, evss)" "evs \<in> set evss"
    and "list_all (\<lambda>ev. ev_FailureCount ev < 2 ^ 63) evs" "is_ascii pr"
    and "tc_CollectorID ctx = c_CollectorID cfg" "wire_text (tc_ConfigRevision ctx)" "good_time (emitted_at ctx now)"
    and "\<And>t. good_time t \<Longrightarrow> clock_ok rfc wp t" "\<And>n. uuid_ok wp (eventIDs n)"
  shows "\<forall>x \<in> set (HealthEvents eventIDs now mode ctx (c_SiteID cfg) evs).
    \<exists>n. \<exists>ev \<in> set evs. \<exists>env p. x = HealthEvent (eventIDs n) now ctx (c_SiteID cfg) ev \<and> x = HealthStateEvent env p
      \<and> Ingest.Validate wp (Topic x) (to_json rfc x) = Inr (MsgHealthV2 (health_of (envelope_of env) p))"
proof
  fix x assume "x \<in> set (HealthEvents eventIDs now mode ctx (c_SiteID cfg) evs)"
  then obtain n ev where ev: "ev \<in> set evs" and x: "x = HealthEvent (eventIDs n) now ctx (c_SiteID cfg) ev"
    by (rule HealthEvents_member)
  note v = load_config_validate [OF assms(1)]
  have cfg: "wire_config cfg" using config_wire [OF v] assms(2,3) by (simp add: list_all_iff)
  from apply_batches_wire [OF cfg wire_ledger_Nil assms(4,5)] assms(6) ev
  have wire: "wire_event (effective_threshold cfg) pr ev" by (simp add: list_all_iff)
  obtain env p where env: "x = HealthStateEvent env p"
      "env = mk_envelope ctx now (eventIDs n) ''health_state'' (c_SiteID cfg) (ev_DeviceID ev) (ev_ObservedAt ev)"
    using x by (simp add: HealthEvent_def)
  have p: "health_ok p"
    using wire_event_payload [OF wire _ _ _ _ x [symmetric, unfolded env(1)]] validate_None(10,11) [OF v] assms(7,8) ev
    by (simp add: effective_threshold_def list_all_iff maxRetries_def)
  have ids: "wire_id (c_SiteID cfg)" "wire_id (c_CollectorID cfg)" "wire_id (ev_DeviceID ev)"
    using validate_None(3,4) [OF v] assms(2) wire by (simp_all add: wire_id_def wire_event_def)
  let ?tp = "\<lparr>tp_SiteID = c_SiteID cfg, tp_DeviceID = ev_DeviceID ev, tp_CollectorID = [], tp_Kind = KindHealthV2\<rparr>"
  from health_accepted [OF p, of "envelope_of env"] obtain b where
    b: "health_json p = Some b" "b \<noteq> JNull" "b \<noteq> JObj []"
       "validateHealthV2 (envelope_of env) b = Inr (health_of (envelope_of env) p)" by blast
  have "envelope_ok rfc wp env"
    using env(2) ids assms(9-13) wire by (simp add: envelope_ok_def mk_envelope_def wire_event_def)
  from envelope_accepted [OF this b(2,3), of ?tp] obtain j raw where
    j: "v2_json rfc env (Some b) = Some j" "decode_struct True envelope_fields j zero_envelope = Some raw"
       "er_Payload raw = Some b" "validateEnvelope wp raw ?tp = Inr (envelope_of env)"
    using env(2) ids by (auto simp: expected_type_def mk_envelope_def is_ascii_def)
  have topic: "Topic x = device_topic (c_SiteID cfg) (ev_DeviceID ev) (''/telemetry/v2/'' @ ''health'')"
    using env by (simp add: mk_envelope_def)
  have "ParseTopicV2 (Topic x) = Inr ?tp"
    unfolding topic by (rule v2_device_topic [OF ids(1,3)]) (simp_all add: v2_kind_def)
  moreover have "contains (Topic x) ''/telemetry/v2/''" unfolding topic by (rule v2_topic_contains)
  moreover have "to_json rfc x = Some j" using env(1) b(1) j(1) by simp
  ultimately have "Ingest.Validate wp (Topic x) (to_json rfc x) = Inr (MsgHealthV2 (health_of (envelope_of env) p))"
    using j b by (simp add: Ingest.Validate_def ValidateV2_def)
  with ev x env(1) show "\<exists>n. \<exists>ev \<in> set evs. \<exists>env p. x = HealthEvent (eventIDs n) now ctx (c_SiteID cfg) ev
      \<and> x = HealthStateEvent env p
      \<and> Ingest.Validate wp (Topic x) (to_json rfc x) = Inr (MsgHealthV2 (health_of (envelope_of env) p))" by blast
qed

section \<open>A sample wire\<close>

text \<open>Times written in decimal, IDs that parse to themselves.\<close>

lemma digits_value_append:
  "digits_value acc (xs @ ys) = (case digits_value acc xs of None \<Rightarrow> None | Some a \<Rightarrow> digits_value a ys)"
  by (induction xs arbitrary: acc) simp_all

lemma digits_value_digits: "digits_value 0 (digits n) = Some n"
proof (induction n rule: digits.induct)
  case (1 n)
  show ?case
  proof (cases "n < 10")
    case True
    then show ?thesis by (simp add: digits.simps [of n] digit_char)
  next
    case False
    with 1 show ?thesis
      by (simp add: digits.simps [of n] digits_value_append digit_char)
  qed
qed

lemma digits_identifier: "identifierPattern (digits n)"
proof (cases "digits n")
  case Nil
  then show ?thesis by (simp add: digits.simps [of n] split: if_splits)
next
  case (Cons c s)
  have "is_digit c" "\<forall>x \<in> set s. is_digit x"
    using digits_digit [of _ n] unfolding Cons by simp_all
  with Cons show ?thesis by (simp add: list_all_iff is_ident_char_def)
qed

definition sample_rfc :: "time \<Rightarrow> string option" where
  "sample_rfc t = Some (itoa t)"

definition sample_wire :: wire_parsers where
  "sample_wire = \<lparr>wp_uuid = Some, wp_rfc3339 = (\<lambda>s. map_option int (digits_value 0 s)), wp_rfc3339nano = (\<lambda>_. None)\<rparr>"

lemma sample_clock: "good_time t \<Longrightarrow> clock_ok sample_rfc sample_wire t"
  using digits_identifier [of "nat t"]
  by (simp add: good_time_def clock_ok_def sample_rfc_def sample_wire_def itoa_def parseTimestamp_def
      coerce_ascii identifier_ascii trim_identifier identifier_nonempty digits_value_digits)

lemma sample_uuid: "uuid_ok sample_wire (digits n)"
  using digits_identifier [of n]
  by (simp add: uuid_ok_def sample_wire_def identifier_ascii trim_identifier)

text \<open>The first batch of an accepted configuration: one device answers, the one behind it does not.\<close>

definition sample_ctx :: tel_context where
  "sample_ctx = \<lparr>tc_SiteID = ''site-1'', tc_CollectorID = ''c-1'', tc_ConfigRevision = ''r1'', tc_EmittedAt = 5\<rparr>"

definition contract_outcomes :: "poll_outcome list" where
  "contract_outcomes = [up_at ''b'' (Fin 20), down ''a'']"

definition contract_check :: "config \<Rightarrow> bool" where
  "contract_check c \<longleftrightarrow>
     list_all (\<lambda>i. length i \<le> 128) (c_SiteID c # c_CollectorID c # map dc_ID (c_Devices c))
     \<and> list_all (\<lambda>d. j_f64 (EffectiveTemperatureWarningC d (c_TemperatureWarningC c)) \<noteq> None) (c_Devices c)
     \<and> c_CollectorID c = ''c-1''
     \<and> (case apply_batches [] c [contract_outcomes] [] of
          Some (_, [evs]) \<Rightarrow> evs \<noteq> [] \<and> list_all (\<lambda>ev. ev_FailureCount ev < 2 ^ 63) evs | _ \<Rightarrow> False)"

lemma contract_sample: "\<exists>c. load_sample = Inr c \<and> contract_check c"
proof -
  have "(case load_sample of Inl _ \<Rightarrow> False | Inr c \<Rightarrow> contract_check c)" by code_simp
  then show ?thesis by (auto split: sum.splits)
qed

lemma health_contract_witness:
  "\<exists>c devs evs. load_sample = Inr c \<and> evs \<noteq> [] \<and> apply_batches [] c [contract_outcomes] [] = Some (devs, [evs])
    \<and> (\<forall>x \<in> set (HealthEvents digits 5 ModeV2 sample_ctx (c_SiteID c) evs).
        \<exists>m. Ingest.Validate sample_wire (Topic x) (to_json sample_rfc x) = Inr (MsgHealthV2 m))"
proof -
  obtain c where c: "load_sample = Inr c" "contract_check c" using contract_sample by blast
  from c(2) obtain devs evs where run: "apply_batches [] c [contract_outcomes] [] = Some (devs, [evs])" "evs \<noteq> []"
      "list_all (\<lambda>ev. ev_FailureCount ev < 2 ^ 63) evs"
    unfolding contract_check_def by (auto split: option.splits prod.splits list.splits)
  have "\<forall>os \<in> set [contract_outcomes]. list_all (\<lambda>po. finite_opt (po_TemperatureC po) \<and> good_time (po_ObservedAt po)) os"
    by (simp add: contract_outcomes_def up_at_def down_def finite_opt_def good_time_def)
  moreover have "is_ascii []" "wire_text (tc_ConfigRevision sample_ctx)" "good_time (emitted_at sample_ctx 5)"
      "tc_CollectorID sample_ctx = c_CollectorID c"
    using c(2) by (simp_all add: is_ascii_def sample_ctx_def wire_text_def emitted_at_def IsZero_def good_time_def
        contract_check_def trim_identifier is_alpha_def is_ident_char_def is_digit_def less_eq_char_def)
  ultimately have "\<forall>x \<in> set (HealthEvents digits 5 ModeV2 sample_ctx (c_SiteID c) evs).
      \<exists>m. Ingest.Validate sample_wire (Topic x) (to_json sample_rfc x) = Inr (MsgHealthV2 m)"
    using health_contract [OF c(1) [unfolded load_sample_def], of "[contract_outcomes]" "[]" devs "[evs]" evs sample_ctx 5
        sample_rfc sample_wire digits ModeV2] c(2) run sample_clock sample_uuid
    unfolding contract_check_def finite_f64_def by fastforce
  with c(1) run(1,2) show ?thesis by blast
qed

end
