(* ===== verification/TelemetryProps.thy ===== *)
theory TelemetryProps
  imports ContractProps
begin

text \<open>
  Which telemetry the ingestion service accepts, in terms of what was polled: device telemetry,
  interface telemetry and heartbeats.
\<close>

section \<open>A message of version 2\<close>

lemma v2_delivered:
  assumes ok: "envelope_ok rfc wp e" and b: "b \<noteq> JNull" "b \<noteq> JObj []"
    and kind: "en_EventType e = expected_type k" "is_ascii (en_EventType e)"
    and topic: "ParseTopicV2 topic = Inr \<lparr>tp_SiteID = en_SiteID e, tp_DeviceID = en_DeviceID e,
      tp_CollectorID = collector, tp_Kind = k\<rparr>" "contains topic ''/telemetry/v2/''"
    and who: "if k = KindHeartbeatV2 then en_DeviceID e = [] \<and> collector = en_CollectorID e
      else wire_id (en_DeviceID e)"
  shows "Ingest.Validate wp topic (v2_json rfc e (Some b)) =
    (case k of
       KindDeviceV2 \<Rightarrow> map_sum id MsgDeviceV2 (validateDeviceV2 wp (envelope_of e) b)
     | KindInterfaceV2 \<Rightarrow> map_sum id MsgInterfaceV2 (validateInterfaceV2 (envelope_of e) b)
     | KindHealthV2 \<Rightarrow> map_sum id MsgHealthV2 (validateHealthV2 (envelope_of e) b)
     | KindHeartbeatV2 \<Rightarrow> map_sum id MsgHeartbeatV2 (validateHeartbeatV2 wp (envelope_of e) b)
     | _ \<Rightarrow> Inl ''unsupported v2 kind'')"
proof -
  let ?tp = "\<lparr>tp_SiteID = en_SiteID e, tp_DeviceID = en_DeviceID e, tp_CollectorID = collector, tp_Kind = k\<rparr>"
  have "\<exists>j raw. v2_json rfc e (Some b) = Some j
    \<and> decode_struct True envelope_fields j zero_envelope = Some raw \<and> er_Payload raw = Some b
    \<and> validateEnvelope wp raw ?tp = Inr (envelope_of e)"
    by (rule envelope_accepted [OF ok b]) (use kind who in \<open>simp_all\<close>)
  then obtain j raw where
    "v2_json rfc e (Some b) = Some j" "decode_struct True envelope_fields j zero_envelope = Some raw"
    "er_Payload raw = Some b" "validateEnvelope wp raw ?tp = Inr (envelope_of e)"
    by blast
  with topic show ?thesis by (simp add: Ingest.Validate_def ValidateV2_def Let_def)
qed

lemma map_sum_Inr: "map_sum f g s = Inr y \<longleftrightarrow> (\<exists>x. s = Inr x \<and> y = g x)"
  "Inr y = map_sum f g s \<longleftrightarrow> (\<exists>x. s = Inr x \<and> y = g x)"
  by (cases s; auto)+

section \<open>Decimal component names\<close>

lemma digits_eq_iff: "digits m = digits n \<longleftrightarrow> m = n"
  by (metis digits_value_digits option.inject)

lemma digits_minus: "CHR ''-'' # xs \<noteq> digits n" "digits n \<noteq> CHR ''-'' # xs"
proof -
  show "CHR ''-'' # xs \<noteq> digits n"
  proof
    assume "CHR ''-'' # xs = digits n"
    then have "is_digit (CHR ''-'')" using digits_digit [of "CHR ''-''" n] by (metis list.set_intros(1))
    then show False by (simp add: is_digit_def less_eq_char_def)
  qed
  then show "digits n \<noteq> CHR ''-'' # xs" by metis
qed

lemma itoa_inj: "itoa i = itoa j \<longleftrightarrow> i = j"
  by (cases "i < 0"; cases "j < 0") (simp_all add: itoa_def digits_eq_iff digits_minus nat_eq_iff)

lemma itoa_chars: "list_all is_ident_char (itoa i)"
  by (auto simp: itoa_def is_ident_char_def list_all_iff dest: digits_digit)

lemma ident_text:
  assumes "list_all is_ident_char s" "s \<noteq> []"
  shows "coerce_utf8 s = s" "trim_space (coerce_utf8 s) \<noteq> []"
proof -
  have "is_ascii s" using assms(1) by (auto simp: is_ascii_def list_all_iff dest: ident_ascii)
  then show "coerce_utf8 s = s" by (rule coerce_ascii)
  with trim_space_chars [of s] assms show "trim_space (coerce_utf8 s) \<noteq> []" by (simp add: list_all_iff)
qed

lemma component_name:
  assumes "list_all is_ident_char name"
  shows "coerce_utf8 (name @ itoa i) = name @ itoa i" "trim_space (coerce_utf8 (name @ itoa i)) \<noteq> []"
  using ident_text [of "name @ itoa i"] assms itoa_chars [of i] by (simp_all add: itoa_nonempty)

lemma component_words: "list_all is_ident_char ''temperature-''" "list_all is_ident_char ''power-''" "list_all is_ident_char []"
  by code_simp+

lemmas component_names = component_words [THEN component_name(1)] component_words [THEN component_name(2)]

section \<open>Device telemetry\<close>

text \<open>
  What of a poll result decides: the system group, the profile, the readings and the components.
  A temperature sensor counts when it has a value.
\<close>

definition nonblank :: "string \<Rightarrow> bool" where
  "nonblank s \<longleftrightarrow> trim_space (coerce_utf8 s) \<noteq> []"

definition component_fits :: "string set \<Rightarrow> component_reading \<Rightarrow> bool" where
  "component_fits units c \<longleftrightarrow> nonblank (cr_Name c) \<and> cr_Unit c \<in> units \<and> finite_opt (cr_Value c)
     \<and> cr_Status c \<in> {[], ''ok'', ''warning'', ''critical'', ''not_present'', ''unknown''}"

definition components_fit :: "string set \<Rightarrow> component_reading list \<Rightarrow> bool" where
  "components_fit units cs \<longleftrightarrow> list_all (component_fits units) cs \<and> distinct (map cr_Index cs)"

definition percentage :: "f64 option \<Rightarrow> bool" where
  "percentage v \<longleftrightarrow> finite_opt v \<and> checkOptionalPct v"

definition reportable :: "poll_result \<Rightarrow> bool" where
  "reportable r \<longleftrightarrow>
     nonblank (id_SysObjectID (px_Identity r)) \<and> nonblank (id_SysName (px_Identity r)) \<and> id_SysDescr (px_Identity r) \<noteq> []
     \<and> finite_f64 (id_UptimeSeconds (px_Identity r)) \<and> \<not> f64_lt (id_UptimeSeconds (px_Identity r)) (Fin 0)
     \<and> vr_Profile (px_Vendor r) \<in> {[], ''core'', ''cisco'', ''arista'', ''unknown''}
     \<and> percentage (map_option sr_Value (vr_CPU (px_Vendor r)))
     \<and> percentage (map_option sr_Value (vr_Memory (px_Vendor r)))
     \<and> components_fit {[], ''celsius''} (filter (\<lambda>c. cr_Value c \<noteq> None) (vr_Temperatures (px_Vendor r)))
     \<and> components_fit {[], ''state'', ''watts'', ''volts'', ''amps'', ''percent'', ''volts_ac'', ''volts_dc'', ''amperes''}
          (vr_Power (px_Vendor r))"

lemma temperature_common:
  "common_ok (temperature_component t c) \<and> cp_Unit (temperature_component t c) = ''celsius'' \<and> finite_opt (cr_Value c)
    \<longleftrightarrow> component_fits {[], ''celsius''} c"
  using component_names [of "cr_Index c"] by (auto simp: common_ok_def temperature_component_def component_fits_def nonblank_def)

lemma power_common:
  "common_ok (power_component t c) \<and> cp_Unit (power_component t c) \<in> {''state'', ''watts'', ''volts'', ''amps'', ''percent''}
     \<and> finite_opt (cr_Value c)
    \<longleftrightarrow> component_fits {[], ''state'', ''watts'', ''volts'', ''amps'', ''percent'', ''volts_ac'', ''volts_dc'', ''amperes''} c"
  using component_names [of "cr_Index c"] by (auto simp: common_ok_def power_component_def component_fits_def nonblank_def normalizePowerUnit_def)

lemma component_ids: "inj (\<lambda>i. ''temperature-'' @ itoa i)" "inj (\<lambda>i. ''power-'' @ itoa i)"
  by (rule injI; simp add: itoa_inj)+

lemma distinct_map_inj: "inj f \<Longrightarrow> distinct (map f xs) \<longleftrightarrow> distinct xs"
  by (simp add: distinct_map inj_on_subset [OF _ subset_UNIV])

lemma component_id:
  "coerce_utf8 (cp_ComponentID (temperature_component t c)) = ''temperature-'' @ itoa (cr_Index c)"
  "coerce_utf8 (cp_ComponentID (power_component t c)) = ''power-'' @ itoa (cr_Index c)"
  using component_names(1,2) [of "cr_Index c"]
  by (simp_all only: temperature_component_def power_component_def component_payload.simps)

lemma temps_fit:
  "temps_ok (temperatureComponents cs t) \<and> list_all (\<lambda>c. finite_opt (cp_Value c)) (temperatureComponents cs t)
   \<longleftrightarrow> components_fit {[], ''celsius''} (filter (\<lambda>c. cr_Value c \<noteq> None) cs)"
proof -
  let ?cs = "filter (\<lambda>c. cr_Value c \<noteq> None) cs"
  have "map (\<lambda>c. coerce_utf8 (cp_ComponentID c)) (temperatureComponents cs t)
      = map (\<lambda>i. ''temperature-'' @ itoa i) (map cr_Index ?cs)"
    by (simp only: temperatureComponents_def map_map comp_def component_id)
  then have ids: "distinct (map (\<lambda>c. coerce_utf8 (cp_ComponentID c)) (temperatureComponents cs t)) \<longleftrightarrow> distinct (map cr_Index ?cs)"
    by (simp only: distinct_map_inj [OF component_ids(1)])
  have "list_all (\<lambda>c. common_ok c \<and> cp_Unit c = ''celsius'' \<and> cp_Value c \<noteq> None) (temperatureComponents cs t)
      \<and> list_all (\<lambda>c. finite_opt (cp_Value c)) (temperatureComponents cs t) \<longleftrightarrow> list_all (component_fits {[], ''celsius''}) ?cs"
    unfolding temperature_common [of t, symmetric]
    by (auto simp: temperatureComponents_def temperature_component_def list_all_iff)
  with ids show ?thesis unfolding temps_ok_def components_fit_def by blast
qed

lemma powers_fit:
  "powers_ok (powerComponents cs t) \<and> list_all (\<lambda>c. finite_opt (cp_Value c)) (powerComponents cs t)
   \<longleftrightarrow> components_fit {[], ''state'', ''watts'', ''volts'', ''amps'', ''percent'', ''volts_ac'', ''volts_dc'', ''amperes''} cs"
  (is "_ \<longleftrightarrow> components_fit ?U cs")
proof -
  have "map (\<lambda>c. coerce_utf8 (cp_ComponentID c)) (powerComponents cs t)
      = map (\<lambda>i. ''power-'' @ itoa i) (map cr_Index cs)"
    by (simp only: powerComponents_def map_map comp_def component_id)
  then have ids: "distinct (map (\<lambda>c. coerce_utf8 (cp_ComponentID c)) (powerComponents cs t)) \<longleftrightarrow> distinct (map cr_Index cs)"
    by (simp only: distinct_map_inj [OF component_ids(2)])
  have val: "cp_Value (power_component t c) = cr_Value c" for c by (simp add: power_component_def)
  have "list_all (\<lambda>c. common_ok c \<and> cp_Unit c \<in> {''state'', ''watts'', ''volts'', ''amps'', ''percent''}) (powerComponents cs t)
      \<and> list_all (\<lambda>c. finite_opt (cp_Value c)) (powerComponents cs t) \<longleftrightarrow> list_all (component_fits ?U) cs"
    unfolding power_common [of t, symmetric] powerComponents_def list_all_iff set_map ball_simps val by blast
  with ids show ?thesis unfolding powers_ok_def components_fit_def by blast
qed

lemma primary_finite:
  "list_all (\<lambda>c. finite_opt (cr_Value c)) cs \<Longrightarrow> finite_opt best \<Longrightarrow> finite_opt (primary_from cs best)"
  by (induction cs best rule: primary_from.induct) (auto simp: finite_opt_def split: option.splits)

lemma capabilities_ok:
  "set (capabilities c) \<subseteq> {''cpu'', ''memory'', ''temperature'', ''power''} \<and> distinct (capabilities c)"
  by (simp add: capabilities_def)

lemma telemetry_reportable:
  assumes "DeviceTelemetry eventID now ctx r = DeviceTelemetryEvent env p"
  shows "telemetry_ok p \<longleftrightarrow> reportable r"
proof -
  let ?v = "px_Vendor r" and ?t = "px_ObservedAt r"
  have p: "p = \<lparr>dt_Hostname = (if id_SysName (px_Identity r) = [] then px_DeviceID r else id_SysName (px_Identity r)),
         dt_ManagementAddress = px_IPAddress r, dt_Role = px_InventoryRole r,
         dt_SysObjectID = id_SysObjectID (px_Identity r), dt_SysName = id_SysName (px_Identity r),
         dt_SysDescr = id_SysDescr (px_Identity r),
         dt_Vendor = [], dt_Model = [], dt_Serial = [], dt_SNMPVersion = ''2c'',
         dt_ProfileName = (if vr_Profile ?v = [] then ''core'' else vr_Profile ?v),
         dt_Capabilities = capabilities (vr_Capabilities ?v),
         dt_UptimeSeconds = id_UptimeSeconds (px_Identity r),
         dt_CPUUtilizationPct = map_option sr_Value (vr_CPU ?v),
         dt_MemoryUtilizationPct = map_option sr_Value (vr_Memory ?v),
         dt_PrimaryTemperatureC = PrimaryTemperaturePtr (vr_Temperatures ?v),
         dt_TemperatureComponents = temperatureComponents (vr_Temperatures ?v) ?t,
         dt_PowerComponents = powerComponents (vr_Power ?v) ?t\<rparr>"
    using assms by (simp add: DeviceTelemetry_def Let_def)
  have temps: "list_all (\<lambda>c. finite_opt (cp_Value c)) (temperatureComponents (vr_Temperatures ?v) ?t)
      \<Longrightarrow> finite_opt (PrimaryTemperaturePtr (vr_Temperatures ?v))"
    unfolding PrimaryTemperaturePtr_def
    by (rule primary_finite)
       (auto simp: temperatureComponents_def temperature_component_def list_all_iff finite_opt_def split: option.splits)
  have "telemetry_ok p \<longleftrightarrow> identity_ok p \<and> readings_ok p \<and> finite_f64 (dt_UptimeSeconds p)
      \<and> finite_opt (dt_CPUUtilizationPct p) \<and> finite_opt (dt_MemoryUtilizationPct p)
      \<and> (temps_ok (dt_TemperatureComponents p) \<and> list_all (\<lambda>c. finite_opt (cp_Value c)) (dt_TemperatureComponents p))
      \<and> (powers_ok (dt_PowerComponents p) \<and> list_all (\<lambda>c. finite_opt (cp_Value c)) (dt_PowerComponents p))"
    using temps unfolding telemetry_ok_def floats_finite_def p by auto
  also have "\<dots> \<longleftrightarrow> reportable r"
    unfolding p device_payload.simps temps_fit powers_fit reportable_def percentage_def identity_ok_def readings_ok_def
    by (auto simp: nonblank_def)
  finally show ?thesis .
qed

lemma device_envelope:
  assumes "DeviceTelemetry eventID now ctx r = DeviceTelemetryEvent env p"
  shows "env = mk_envelope ctx now eventID ''device_telemetry'' (tc_SiteID ctx) (px_DeviceID r) (px_ObservedAt r)"
    and "list_all (\<lambda>c. cp_ObservedAt c = px_ObservedAt r) (dt_TemperatureComponents p @ dt_PowerComponents p)"
    and "caps_ok p"
  using assms capabilities_ok [of "vr_Capabilities (px_Vendor r)"]
  by (auto simp: DeviceTelemetry_def Let_def temperatureComponents_def temperature_component_def powerComponents_def
      power_component_def list_all_iff caps_ok_def)

lemma validated_envelope:
  assumes "validateDeviceV2 wp env b = Inr m"
  shows "vd_Envelope m = env"
  using assms by (auto simp: validateDeviceV2_def Let_def split: option.splits sum.splits)

lemma validated_role:
  assumes "validateDeviceV2 wp env b = Inr m" "decode_struct True device_fields b zero_device = Some raw"
  shows "vd_Role m = trim_space (ri_Role (rd_Identity raw))"
  using assms by (auto simp: validateDeviceV2_def Let_def split: option.splits sum.splits)

lemma json_missing: "ParseTopicV2 topic = Inr tp \<Longrightarrow> contains topic ''/telemetry/v2/'' \<Longrightarrow> Ingest.Validate wp topic None \<noteq> Inr m"
  by (simp add: Ingest.Validate_def ValidateV2_def)

text \<open>The identifiers, the revision, the event ID and the two times of a context and a poll result.\<close>

definition deliverable :: "(time \<Rightarrow> string option) \<Rightarrow> wire_parsers \<Rightarrow> string \<Rightarrow> time \<Rightarrow> tel_context \<Rightarrow> poll_result \<Rightarrow> bool" where
  "deliverable rfc wp eventID now ctx r \<longleftrightarrow> wire_id (tc_SiteID ctx) \<and> wire_id (tc_CollectorID ctx)
     \<and> wire_text (tc_ConfigRevision ctx) \<and> wire_id (px_DeviceID r) \<and> uuid_ok wp eventID
     \<and> clock_ok rfc wp (px_ObservedAt r) \<and> clock_ok rfc wp (emitted_at ctx now)"

lemma deliverable_envelope:
  assumes "deliverable rfc wp eventID now ctx r"
  shows "envelope_ok rfc wp (mk_envelope ctx now eventID type (tc_SiteID ctx) (px_DeviceID r) (px_ObservedAt r))"
  using assms by (simp add: deliverable_def envelope_ok_def mk_envelope_def)

lemma device_topic_parsed:
  assumes "deliverable rfc wp eventID now ctx r" "v2_kind rest = Some k" "CHR ''/'' \<notin> set rest"
  shows "ParseTopicV2 (device_topic (tc_SiteID ctx) (px_DeviceID r) (''/telemetry/v2/'' @ rest))
    = Inr \<lparr>tp_SiteID = tc_SiteID ctx, tp_DeviceID = px_DeviceID r, tp_CollectorID = [], tp_Kind = k\<rparr>"
  using assms by (intro v2_device_topic) (simp_all add: deliverable_def)

lemma device_delivery:
  assumes "deliverable rfc wp eventID now ctx r"
  shows "((\<exists>m. Ingest.Validate wp (Topic (DeviceTelemetry eventID now ctx r))
            (to_json rfc (DeviceTelemetry eventID now ctx r)) = Inr m) \<longleftrightarrow> reportable r)
    \<and> (\<forall>m. Ingest.Validate wp (Topic (DeviceTelemetry eventID now ctx r))
            (to_json rfc (DeviceTelemetry eventID now ctx r)) = Inr m \<longrightarrow>
         (\<exists>d. m = MsgDeviceV2 d \<and> vd_Role d = trim_space (coerce_utf8 (px_InventoryRole r))
            \<and> vd_Envelope d = envelope_of (mk_envelope ctx now eventID ''device_telemetry'' (tc_SiteID ctx) (px_DeviceID r) (px_ObservedAt r))))"
proof -
  obtain env p where x: "DeviceTelemetry eventID now ctx r = DeviceTelemetryEvent env p"
    by (simp add: DeviceTelemetry_def Let_def)
  note env = device_envelope [OF x]
  let ?topic = "device_topic (tc_SiteID ctx) (px_DeviceID r) (''/telemetry/v2/'' @ ''device'')"
  let ?V = "Ingest.Validate wp ?topic (v2_json rfc env (device_json rfc p))"
  obtain to where clock: "rfc (px_ObservedAt r) = Some to" "coerce_utf8 to = to" "parseTimestamp wp to = Some (px_ObservedAt r)"
    using assms by (auto simp: deliverable_def elim: clock_okE)
  have topic: "ParseTopicV2 ?topic = Inr \<lparr>tp_SiteID = tc_SiteID ctx, tp_DeviceID = px_DeviceID r, tp_CollectorID = [], tp_Kind = KindDeviceV2\<rparr>"
    by (rule device_topic_parsed [OF assms]) (simp_all add: v2_kind_def)
  have v2: "contains ?topic ''/telemetry/v2/''" by (rule v2_topic_contains)
  have delivered: "?V = map_sum id MsgDeviceV2 (validateDeviceV2 wp (envelope_of env) b)"
    if "device_json rfc p = Some b" "b \<noteq> JNull" "b \<noteq> JObj []" for b
    using v2_delivered [of rfc wp env b KindDeviceV2 ?topic "[]"] deliverable_envelope [OF assms] assms that topic v2 env(1)
    by (simp add: mk_envelope_def expected_type_def is_ascii_def deliverable_def)
  have json: "b \<noteq> JNull \<and> b \<noteq> JObj []" if "device_json rfc p = Some b" for b
    using that by (auto simp: device_json_def mk_obj_def split: if_splits)
  have accepted: "(\<exists>b m. device_json rfc p = Some b \<and> b \<noteq> JNull \<and> b \<noteq> JObj []
      \<and> validateDeviceV2 wp (envelope_of env) b = Inr m) \<longleftrightarrow> reportable r"
    unfolding telemetry_reportable [OF x, symmetric]
    by (rule device_accepted_iff [where rfc = rfc and wp = wp]) (rule env clock)+
  have iff: "(\<exists>m. ?V = Inr (MsgDeviceV2 m)) \<longleftrightarrow> reportable r"
  proof (cases "device_json rfc p")
    case None
    then have "v2_json rfc env (device_json rfc p) = None" by (simp add: v2_json_def mk_obj_encodable)
    with None json_missing [OF topic v2] accepted show ?thesis by auto
  next
    case (Some b)
    with json delivered accepted show ?thesis by (auto simp: map_sum_Inr)
  qed
  have shape: "\<exists>d. m = MsgDeviceV2 d \<and> vd_Envelope d = envelope_of env" if "?V = Inr m" for m
    using that json_missing [OF topic v2] delivered json
    by (cases "device_json rfc p") (auto simp: v2_json_def mk_obj_encodable map_sum_Inr validated_envelope)
  have role: "vd_Role d = trim_space (coerce_utf8 (px_InventoryRole r))" if "?V = Inr (MsgDeviceV2 d)" for d
  proof -
    from that json_missing [OF topic v2] obtain b where b: "device_json rfc p = Some b"
      by (cases "device_json rfc p") (auto simp: v2_json_def mk_obj_encodable)
    with delivered json that have valid: "validateDeviceV2 wp (envelope_of env) b = Inr d" by (auto simp: map_sum_Inr)
    have "floats_finite p" using device_json_None [where rfc = rfc, OF env(2) clock(1)] b by simp
    moreover have "list_all is_ascii (dt_Capabilities p)" using env(3) by (rule caps_ascii)
    ultimately obtain kvs where "device_json rfc p = Some (JObj kvs)"
        "decode_members True device_fields kvs zero_device = Some (raw_device to p)"
      using device_decodes [where rfc = rfc, OF env(2) clock(1,2)] by blast
    with b have "decode_struct True device_fields b zero_device = Some (raw_device to p)" by (auto simp: decode_struct_def)
    from validated_role [OF valid this] x show ?thesis by (auto simp: raw_device_def DeviceTelemetry_def Let_def)
  qed
  have goal: "Topic (DeviceTelemetry eventID now ctx r) = ?topic"
    "to_json rfc (DeviceTelemetry eventID now ctx r) = v2_json rfc env (device_json rfc p)"
    by (simp_all add: x env(1) mk_envelope_def)
  show ?thesis unfolding goal using iff shape role env(1) by (cases ?V) fastforce+
qed

text \<open>C16: the ingestion service accepts the device telemetry of a poll exactly when the poll is \<open>reportable\<close>:
  the system group is filled in, the profile is a known one, the readings are within their ranges and
  every component has a name, an index of its own and a known unit and status.  One component
  without a name loses the telemetry of the whole device.\<close>

theorem device_contract:
  assumes "deliverable rfc wp eventID now ctx r"
  shows "(\<exists>m. Ingest.Validate wp (Topic (DeviceTelemetry eventID now ctx r))
            (to_json rfc (DeviceTelemetry eventID now ctx r)) = Inr (MsgDeviceV2 m)
          \<and> ve_DeviceID (vd_Envelope m) = px_DeviceID r \<and> ve_ObservedAt (vd_Envelope m) = px_ObservedAt r)
      = reportable r
    \<and> (\<not> reportable r \<longrightarrow> (\<exists>e. Ingest.Validate wp (Topic (DeviceTelemetry eventID now ctx r))
            (to_json rfc (DeviceTelemetry eventID now ctx r)) = Inl e))"
  using device_delivery [OF assms]
  by (cases "Ingest.Validate wp (Topic (DeviceTelemetry eventID now ctx r)) (to_json rfc (DeviceTelemetry eventID now ctx r))")
     (auto simp: envelope_of_def mk_envelope_def)

definition sample_interface :: interface_reading where
  "sample_interface = \<lparr>if_IfIndex = 3, if_IfDescr = ''GigabitEthernet0/1'', if_IfName = [], if_IfAlias = [], if_IfType = 6,
     if_IfTypeName = ''ethernetcsmacd'', if_SpeedBPS = 1000, if_AdminStatus = ''up'', if_OperStatus = ''down'',
     if_LastChangeSeconds = Fin 0, if_InOctets = - 1, if_OutOctets = 5, if_InErrors = 0, if_OutErrors = 0,
     if_HasCounters = True\<rparr>"

definition sample_poll :: poll_result where
  "sample_poll = \<lparr>px_SiteID = ''site-1'', px_DeviceID = ''sw-1'', px_IPAddress = ''10.0.0.1'', px_ObservedAt = 7,
     px_InventoryRole = ''edge'',
     px_Identity = \<lparr>id_SysObjectID = ''1.3.6'', id_SysName = ''sw-1'', id_SysDescr = ''IOS'', id_UptimeSeconds = Fin 90\<rparr>,
     px_Interfaces = [\<lparr>ir_Reading = sample_interface, ir_Selection = Selected, ir_FilterReason = [], ir_RuleID = []\<rparr>],
     px_Vendor = no_vendor\<lparr>vr_Temperatures := [\<lparr>cr_Index = 2, cr_Name = ''inlet'', cr_Value = Some (Fin 31), cr_Unit = [],
        cr_Status = ''ok'', cr_SourceOID = []\<rparr>]\<rparr>,
     px_Filter = no_summary\<rparr>"

lemma wire_id_exec: "wire_id i \<longleftrightarrow> identifierPattern i \<and> length i \<le> 128"
  by (simp add: wire_id_def)

lemma sample_deliverable: "deliverable sample_rfc sample_wire (digits 4) 5 sample_ctx sample_poll"
proof -
  have "wire_id ''site-1'' \<and> wire_id ''c-1'' \<and> wire_text ''r1'' \<and> wire_id ''sw-1''" by code_simp
  then show ?thesis
    by (simp add: deliverable_def sample_ctx_def sample_poll_def sample_clock sample_uuid good_time_def emitted_at_def IsZero_def)
qed

lemma sample_reportable: "reportable sample_poll"
proof -
  have "nonblank ''1.3.6'' \<and> nonblank ''sw-1'' \<and> nonblank ''inlet''" by code_simp
  then show ?thesis
    by (simp add: reportable_def sample_poll_def no_vendor_def percentage_def checkOptionalPct_def components_fit_def
        component_fits_def finite_opt_def)
qed

lemma device_contract_witness:
  "\<exists>m. Ingest.Validate sample_wire (Topic (DeviceTelemetry (digits 4) 5 sample_ctx sample_poll))
      (to_json sample_rfc (DeviceTelemetry (digits 4) 5 sample_ctx sample_poll)) = Inr (MsgDeviceV2 m)"
  using device_contract [OF sample_deliverable] sample_reportable by blast

section \<open>Interface telemetry\<close>

definition interface_fits :: "interface_reading \<Rightarrow> bool" where
  "interface_fits i \<longleftrightarrow> 1 \<le> if_IfIndex i \<and> if_IfIndex i < 2 ^ 63 \<and> nonblank (interface_name i)
     \<and> checkStatusEnum (if_AdminStatus i) \<and> checkStatusEnum (if_OperStatus i) \<and> uint (if_SpeedBPS i) < 2 ^ 63"

lemma sint_small: "uint (w :: 64 word) < 2 ^ 63 \<Longrightarrow> sint w = uint w" "uint w < 2 ^ 63 \<Longrightarrow> 0 \<le> sint w"
proof -
  show "sint w = uint w" if "uint w < 2 ^ 63" for w :: "64 word"
    unfolding sint_uint
    by (rule signed_take_bit_int_eq_self) (use that in \<open>auto intro: order_trans [OF _ uint_ge_0]\<close>)
  from this [of w] show "0 \<le> sint w" if "uint w < 2 ^ 63" using that by simp
qed

lemma interface_fits_ok:
  assumes "interface_event eventID now ctx r i = InterfaceTelemetryEvent env p" "interface_fits (ir_Reading i)"
  shows "interface_ok p"
proof -
  let ?w = "if_SpeedBPS (ir_Reading i)"
  have "uint ?w < 2 ^ 63" using assms(2) by (simp add: interface_fits_def)
  with sint_small [OF this] have "0 \<le> sint ?w \<and> sint ?w < 2 ^ 63" by simp
  moreover have "it_SpeedBps p = (if 0 < ?w then Some (sint ?w) else None)" "it_IfIndex p = if_IfIndex (ir_Reading i)"
    "it_Name p = interface_name (ir_Reading i)" "it_AdminStatus p = if_AdminStatus (ir_Reading i)"
    "it_OperStatus p = if_OperStatus (ir_Reading i)"
    using assms(1) by (auto simp: interface_event_def Let_def)
  ultimately show ?thesis
    using assms(2) by (simp add: interface_ok_def interface_fits_def nonblank_def)
qed

text \<open>
  Of the interfaces of a poll exactly the selected ones with counters are sent, in their order, and the
  ingestion service accepts each that fits.
\<close>

lemma interface_delivery:
  assumes "\<And>n. deliverable rfc wp (eventIDs n) now ctx r"
    and "n < length (filter published (px_Interfaces r))" and "i = filter published (px_Interfaces r) ! n"
    and "x = InterfaceTelemetry eventIDs now ctx r ! n"
  shows "length (InterfaceTelemetry eventIDs now ctx r) = length (filter published (px_Interfaces r))
    \<and> (interface_fits (ir_Reading i) \<longrightarrow>
        (\<exists>m. Ingest.Validate wp (Topic x) (to_json rfc x) = Inr (MsgInterfaceV2 m)
           \<and> ve_DeviceID (vi_Envelope m) = px_DeviceID r \<and> vi_IfIndex m = if_IfIndex (ir_Reading i)
           \<and> vi_InOctets m = if_InOctets (ir_Reading i) \<and> vi_OutOctets m = if_OutOctets (ir_Reading i)
           \<and> vi_InErrors m = if_InErrors (ir_Reading i) \<and> vi_OutErrors m = if_OutErrors (ir_Reading i)))"
proof -
  have len: "length (InterfaceTelemetry eventIDs now ctx r) = length (filter published (px_Interfaces r))"
    by (simp add: InterfaceTelemetry_def)
  have x: "x = interface_event (eventIDs n) now ctx r i"
    using assms(2-4) by (simp add: InterfaceTelemetry_def nth_enumerate_eq)
  then obtain env p where ev: "interface_event (eventIDs n) now ctx r i = InterfaceTelemetryEvent env p"
    and env: "env = mk_envelope ctx now (eventIDs n) ''interface_telemetry'' (tc_SiteID ctx) (px_DeviceID r) (px_ObservedAt r)"
    and p: "it_IfIndex p = if_IfIndex (ir_Reading i)" "it_InOctets p = if_InOctets (ir_Reading i)"
      "it_OutOctets p = if_OutOctets (ir_Reading i)" "it_InErrors p = if_InErrors (ir_Reading i)"
      "it_OutErrors p = if_OutErrors (ir_Reading i)"
    by (simp add: interface_event_def Let_def)
  let ?topic = "device_topic (tc_SiteID ctx) (px_DeviceID r) (''/telemetry/v2/'' @ ''interface'')"
  have topic: "ParseTopicV2 ?topic = Inr \<lparr>tp_SiteID = tc_SiteID ctx, tp_DeviceID = px_DeviceID r, tp_CollectorID = [], tp_Kind = KindInterfaceV2\<rparr>"
    by (rule device_topic_parsed [OF assms(1)]) (simp_all add: v2_kind_def)
  have v2: "contains ?topic ''/telemetry/v2/''" by (rule v2_topic_contains)
  have "\<exists>m. Ingest.Validate wp ?topic (v2_json rfc env (interface_json p)) = Inr (MsgInterfaceV2 m)
      \<and> m = interface_of (envelope_of env) p" if fits: "interface_fits (ir_Reading i)"
  proof -
    from interface_accepted [OF interface_fits_ok [OF ev fits], of "envelope_of env"] obtain b where
      b: "interface_json p = Some b" "b \<noteq> JNull" "b \<noteq> JObj []"
         "validateInterfaceV2 (envelope_of env) b = Inr (interface_of (envelope_of env) p)" by blast
    with v2_delivered [of rfc wp env b KindInterfaceV2 ?topic "[]"] deliverable_envelope [OF assms(1)] assms(1) topic v2 env
    show ?thesis by (simp add: mk_envelope_def expected_type_def is_ascii_def deliverable_def)
  qed
  then show ?thesis
    using len p by (auto simp: x ev env mk_envelope_def interface_of_def envelope_of_def)
qed

section \<open>Heartbeats\<close>

text \<open>The build data is filled in by the linker: an absent value is sent as \<open>unknown\<close>.\<close>

definition heartbeat_fits :: "wire_parsers \<Rightarrow> heartbeat_input \<Rightarrow> bool" where
  "heartbeat_fits wp inp \<longleftrightarrow> nonblank (hi_Hostname inp) \<and> (hi_Version inp = [] \<or> nonblank (hi_Version inp))
     \<and> (hi_GitCommit inp = [] \<or> nonblank (hi_GitCommit inp))
     \<and> (hi_BuildTime inp = [] \<or> hi_BuildTime inp = ''unknown'' \<or> parseTimestamp wp (coerce_utf8 (hi_BuildTime inp)) \<noteq> None)
     \<and> nonneg64 (hi_UptimeSeconds inp) \<and> nonneg64 (hi_SQLiteQueueDepth inp) \<and> nonneg64 (hi_MemoryUsageBytes inp)
     \<and> nonneg64 (hi_GoroutineCount inp)"

lemma or_unknown_nonblank: "s = [] \<or> nonblank s \<Longrightarrow> trim_space (coerce_utf8 (or_unknown s)) \<noteq> []"
proof -
  have "nonblank ''unknown''" by code_simp
  then show "s = [] \<or> nonblank s \<Longrightarrow> trim_space (coerce_utf8 (or_unknown s)) \<noteq> []"
    by (auto simp: or_unknown_def nonblank_def)
qed

lemma build_time_fits:
  assumes "b = [] \<or> b = ''unknown'' \<or> parseTimestamp wp (coerce_utf8 b) \<noteq> None"
  shows "trim_space (coerce_utf8 (or_unknown b)) \<noteq> []"
    "coerce_utf8 (or_unknown b) = ''unknown'' \<or> parseTimestamp wp (coerce_utf8 (or_unknown b)) \<noteq> None"
proof -
  have u: "coerce_utf8 ''unknown'' = ''unknown''" by (rule coerce_ascii) (simp add: is_ascii_def)
  have blank: "trim_space (coerce_utf8 b) \<noteq> []" if "parseTimestamp wp (coerce_utf8 b) \<noteq> None"
    using that by (auto simp: parseTimestamp_def)
  have "nonblank ''unknown''" by code_simp
  with assms blank show "trim_space (coerce_utf8 (or_unknown b)) \<noteq> []"
    by (auto simp: or_unknown_def nonblank_def)
  from assms u show "coerce_utf8 (or_unknown b) = ''unknown'' \<or> parseTimestamp wp (coerce_utf8 (or_unknown b)) \<noteq> None"
    by (auto simp: or_unknown_def)
qed

text \<open>A heartbeat with a host name, a build time in RFC 3339 or none, and counts that are not negative
  is accepted, without a device, under the collector that sent it.\<close>

theorem heartbeat_contract:
  assumes "wire_id (tc_SiteID ctx)" "wire_id (tc_CollectorID ctx)" "wire_text (tc_ConfigRevision ctx)" "uuid_ok wp eventID"
    and "clock_ok rfc wp (emitted_at ctx now)" "\<not> IsZero (hi_ObservedAt inp) \<Longrightarrow> clock_ok rfc wp (hi_ObservedAt inp)"
    and "heartbeat_fits wp inp"
  shows "\<exists>m. Ingest.Validate wp (Topic (Heartbeat eventID now ctx inp)) (to_json rfc (Heartbeat eventID now ctx inp))
      = Inr (MsgHeartbeatV2 m)
    \<and> ve_CollectorID (vb_Envelope m) = tc_CollectorID ctx \<and> ve_DeviceID (vb_Envelope m) = []
    \<and> vb_UptimeSeconds m = hi_UptimeSeconds inp \<and> vb_SQLiteQueueDepth m = hi_SQLiteQueueDepth inp"
proof -
  obtain env p where ev: "Heartbeat eventID now ctx inp = HeartbeatEvent env p"
    by (simp add: Heartbeat_def)
  then have env: "env = mk_envelope ctx now eventID ''collector_heartbeat'' (tc_SiteID ctx) []
         (if IsZero (hi_ObservedAt inp) then emitted_at ctx now else hi_ObservedAt inp)"
    and p: "hb_UptimeSeconds p = hi_UptimeSeconds inp" "hb_SQLiteQueueDepth p = hi_SQLiteQueueDepth inp"
      "hb_MemoryUsageBytes p = hi_MemoryUsageBytes inp" "hb_GoroutineCount p = hi_GoroutineCount inp"
      "hb_Hostname p = hi_Hostname inp" "hb_Version p = or_unknown (hi_Version inp)"
      "hb_GitCommit p = or_unknown (hi_GitCommit inp)" "hb_BuildTime p = or_unknown (hi_BuildTime inp)"
    by (auto simp: Heartbeat_def)
  have ok: "heartbeat_ok wp p"
    using assms(7) p or_unknown_nonblank build_time_fits [of "hi_BuildTime inp" wp]
    by (auto simp: heartbeat_ok_def heartbeat_fits_def nonblank_def)
  have "envelope_ok rfc wp env"
    using assms env by (simp add: envelope_ok_def mk_envelope_def)
  moreover from heartbeat_accepted [OF ok, of "envelope_of env"] obtain b where
    b: "heartbeat_json p = Some b" "b \<noteq> JNull" "b \<noteq> JObj []"
       "validateHeartbeatV2 wp (envelope_of env) b = Inr (heartbeat_of (envelope_of env) p)" by blast
  moreover let ?topic = "''site/'' @ tc_SiteID ctx @ ''/collector/'' @ tc_CollectorID ctx @ ''/telemetry/v2/heartbeat''"
  have "ParseTopicV2 ?topic = Inr \<lparr>tp_SiteID = en_SiteID env, tp_DeviceID = en_DeviceID env,
      tp_CollectorID = tc_CollectorID ctx, tp_Kind = KindHeartbeatV2\<rparr>"
    using v2_heartbeat_topic [OF assms(1,2)] by (simp add: env mk_envelope_def)
  moreover have "contains ?topic ''/telemetry/v2/''" by (rule v2_topic_contains)
  moreover have "en_EventType env = expected_type KindHeartbeatV2" "is_ascii (en_EventType env)"
    "en_DeviceID env = []" "en_CollectorID env = tc_CollectorID ctx"
    by (simp_all add: env mk_envelope_def expected_type_def is_ascii_def)
  ultimately have "Ingest.Validate wp ?topic (v2_json rfc env (Some b)) = Inr (MsgHeartbeatV2 (heartbeat_of (envelope_of env) p))"
    by (subst v2_delivered [where k = KindHeartbeatV2 and collector = "tc_CollectorID ctx"]) simp_all
  moreover have "Topic (Heartbeat eventID now ctx inp) = ?topic" by (simp add: ev env mk_envelope_def)
  moreover have "to_json rfc (Heartbeat eventID now ctx inp) = v2_json rfc env (Some b)" by (simp add: ev b(1))
  ultimately show ?thesis
    using p by (simp add: heartbeat_of_def envelope_of_def env mk_envelope_def)
qed

definition sample_heartbeat :: heartbeat_input where
  "sample_heartbeat = \<lparr>hi_Hostname = ''nuc'', hi_Version = [], hi_GitCommit = ''abc'', hi_BuildTime = [],
     hi_UptimeSeconds = 60, hi_SQLiteQueueDepth = 3, hi_MemoryUsageBytes = 4096, hi_GoroutineCount = 12, hi_ObservedAt = 0\<rparr>"

lemma heartbeat_contract_witness:
  "\<exists>m. Ingest.Validate sample_wire (Topic (Heartbeat (digits 9) 5 sample_ctx sample_heartbeat))
      (to_json sample_rfc (Heartbeat (digits 9) 5 sample_ctx sample_heartbeat)) = Inr (MsgHeartbeatV2 m)
    \<and> vb_SQLiteQueueDepth m = 3"
proof -
  note d = sample_deliverable [unfolded deliverable_def]
  have "nonblank ''nuc'' \<and> nonblank ''abc''" by code_simp
  then have "heartbeat_fits sample_wire sample_heartbeat"
    by (simp add: heartbeat_fits_def sample_heartbeat_def nonneg64_def)
  moreover have "IsZero (hi_ObservedAt sample_heartbeat)" "hi_SQLiteQueueDepth sample_heartbeat = 3"
    by (simp_all add: sample_heartbeat_def IsZero_def)
  ultimately show ?thesis
    using heartbeat_contract [of sample_ctx sample_wire "digits 9" sample_rfc 5 sample_heartbeat] d sample_uuid by metis
qed

end
