(* ===== verification/VendorProps.thy ===== *)
theory VendorProps
  imports Vendors TelemetryProps
begin

text \<open>
  What the profiles report is fit for the wire.  The lemmas go from the numbers of a PDU to the
  columns (the invariants a walk keeps, whatever fails), from the columns to the averages and
  ratios, whose rounded sums stay within their bounds in every order, and to the components.
\<close>

section \<open>Numbers of a PDU\<close>

definition integral :: "pdu_value \<Rightarrow> bool" where
  "integral v \<longleftrightarrow> (case v of PFloat32 _ \<Rightarrow> False | PFloat64 _ \<Rightarrow> False | _ \<Rightarrow> True)"

lemma number_integral:
  assumes "integral v" "number v = Inr x"
  shows "\<exists>i. x = f64_of_int i \<and> \<bar>i\<bar> < 2 ^ 64"
proof -
  have u: "\<bar>uint (w :: 64 word)\<bar> < 2 ^ 64" "\<bar>sint (w :: 64 word)\<bar> < 2 ^ 64" for w
    using uint_lt2p [of w] uint_ge_0 [of w] sint_ge [of w] sint_lt [of w] by auto
  have s: "\<bar>uint (w :: 32 word)\<bar> < 2 ^ 64" "\<bar>sint (w :: 32 word)\<bar> < 2 ^ 64" for w
    using uint_lt2p [of w] uint_ge_0 [of w] sint_ge [of w] sint_lt [of w] by auto
  show ?thesis using assms u s by (cases v) (auto simp: integral_def number_def)
qed

lemma representable_pow2: "0 \<le> k \<Longrightarrow> k \<le> 2 ^ 53 \<Longrightarrow> j < 900 \<Longrightarrow> representable (of_int (k * 2 ^ j))"
proof -
  assume k: "0 \<le> k" "k \<le> 2 ^ 53" and j: "j < 900"
  have eq: "of_int (k * 2 ^ j) = of_int k * (2 :: rat) powi int j" by (simp add: power_int_def)
  have "\<bar>of_int (k * 2 ^ j) :: rat\<bar> = of_int (k * 2 ^ j)" using k by simp
  also have "k * 2 ^ j \<le> 2 ^ 53 * 2 ^ j" using k by (intro mult_right_mono) simp_all
  also have "(2 ^ 53 * 2 ^ j :: int) = 2 ^ (53 + j)" by (simp add: power_add)
  also have "(2 ^ (53 + j) :: int) \<le> 2 ^ 960" using j by (intro power_increasing) simp_all
  finally have "\<bar>of_int (k * 2 ^ j) :: rat\<bar> \<le> of_int (2 ^ 960)" by (simp only: of_int_le_iff)
  also have "\<dots> < (2 ^ 1024 :: rat)" by simp
  finally have "\<bar>of_int (k * 2 ^ j) :: rat\<bar> < 2 ^ 1024" .
  moreover have "\<bar>k\<bar> \<le> 2 ^ 53" "- 1074 \<le> int j" using k by simp_all
  ultimately show ?thesis unfolding representable_def using eq by blast
qed

lemma round64_negative: "i < 0 \<Longrightarrow> f64_lt (f64_of_int i) (Fin 0)"
proof -
  assume i: "i < 0"
  have one: "round_pos 1 = 1" using round_pos_id [of 1] representable_of_int [of 1] by simp
  have "(1 :: rat) \<le> \<bar>of_int i\<bar>" using i by (simp add: of_int_le_iff [of 1, symmetric])
  then have "1 \<le> round_pos \<bar>of_int i\<bar>" using round_pos_mono [of 1 "\<bar>of_int i\<bar>"] one by simp
  then show ?thesis using i by (auto simp: f64_of_int_def round64_def Let_def)
qed

definition in_range :: "rat \<Rightarrow> f64 \<Rightarrow> bool" where
  "in_range b x \<longleftrightarrow> (\<exists>y. x = Fin y \<and> 0 \<le> y \<and> y \<le> b \<and> representable y)"

lemma nonneg_of_int:
  assumes "\<bar>i\<bar> < 2 ^ 64" "\<not> f64_lt (f64_of_int i) (Fin 0)"
  shows "in_range (2 ^ 64) (f64_of_int i)"
proof -
  have "0 \<le> i" using round64_negative assms(2) by force
  then have "(0 :: rat) \<le> of_int i" "(of_int i :: rat) \<le> of_int (2 ^ 64)" using assms(1) by (simp_all only: of_int_le_iff of_int_0_le_iff)
  moreover have "representable (of_int (1 * 2 ^ 64))" by (rule representable_pow2) simp_all
  ultimately show ?thesis using round64_between [of "of_int i" "of_int (2 ^ 64)"] by (simp add: in_range_def f64_of_int_def)
qed

lemma checked_range:
  assumes "integral v" "checked_number valid v = Inr x" "\<And>x. valid x \<Longrightarrow> \<not> f64_lt x (Fin 0)"
  shows "in_range (2 ^ 64) x" "valid x"
proof -
  have x: "number v = Inr x" "valid x" using assms(2) by (auto simp: checked_number_def and_then_def split: sum.splits if_splits)
  with number_integral [OF assms(1) x(1)] nonneg_of_int assms(3) show "in_range (2 ^ 64) x" "valid x" by blast+
qed

lemma valid_nonneg: "percentValue x \<Longrightarrow> \<not> f64_lt x (Fin 0)" "nonNegativeValue x \<Longrightarrow> \<not> f64_lt x (Fin 0)"
  "positiveValue x \<Longrightarrow> \<not> f64_lt x (Fin 0)"
  by (auto simp: percentValue_def nonNegativeValue_def positiveValue_def dest: f64_lt_imp_le)

lemma percent_range: "in_range b x \<Longrightarrow> percentValue x \<Longrightarrow> in_range 100 x"
  by (auto simp: in_range_def percentValue_def)

section \<open>Sums, averages and ratios\<close>

lemma add_range:
  assumes "in_range a x" "in_range b y" "representable (a + b)"
  shows "in_range (a + b) (f64_add x y)"
proof -
  from assms obtain u v where uv: "x = Fin u" "0 \<le> u" "u \<le> a" "y = Fin v" "0 \<le> v" "v \<le> b"
    unfolding in_range_def by blast
  then show ?thesis using round64_between [of "u + v" "a + b"] assms(3) by (simp add: in_range_def)
qed

lemma sum_range:
  assumes "\<forall>x \<in> set xs. in_range b x" "\<And>k. k \<le> n + length xs \<Longrightarrow> representable (of_nat k * b)" "in_range (of_nat n * b) t"
  shows "in_range (of_nat (n + length xs) * b) (fold (\<lambda>x total. f64_add total x) xs t)"
  using assms
proof (induction xs arbitrary: t n)
  case (Cons x xs)
  have "in_range (of_nat n * b + b) (f64_add t x)"
    using Cons.prems(1,3) Cons.prems(2) [of "Suc n"] by (intro add_range) (simp_all add: algebra_simps)
  then have "in_range (of_nat (Suc n) * b) (f64_add t x)" by (simp add: algebra_simps)
  from Cons.IH [OF _ _ this] Cons.prems(1,2) show ?case by simp
qed simp

lemma zero_range: "0 \<le> b \<Longrightarrow> in_range b (Fin 0)"
  using representable_of_int [of 0] by (simp add: in_range_def)

lemma quotient_range:
  assumes "in_range (of_nat n * b) t" "0 < n" "n \<le> 2 ^ 53" "representable b"
  shows "in_range b (f64_div t (f64_of_int (int n)))"
proof -
  from assms(1) obtain y where y: "t = Fin y" "0 \<le> y" "y \<le> of_nat n * b" unfolding in_range_def by blast
  have "int n \<le> 2 ^ 53" using assms(3) zle_int [of n "2 ^ 53"] by simp
  then have "f64_of_int (int n) = Fin (of_nat n)"
    using round64_representable [OF representable_of_int [of "int n"]] by (simp add: f64_of_int_def)
  moreover have "y / of_nat n \<le> b" using y(3) assms(2) by (simp add: pos_divide_le_eq mult.commute)
  ultimately show ?thesis using round64_between [of "y / of_nat n" b] y assms by (simp add: in_range_def)
qed

definition key_order :: "machine \<Rightarrow> bool" where
  "key_order mc \<longleftrightarrow> (\<forall>n ks. set (mc_Order mc n ks) = set ks \<and> length (mc_Order mc n ks) = length ks)"

lemma machine_keys: "machine_ok mc \<Longrightarrow> key_order mc"
  unfolding machine_ok_def key_order_def using mset_eq_setD mset_eq_length by metis

lemma get0_range:
  assumes "\<forall>(k, v) \<in> set m. P v" "k \<in> fst ` set m"
  shows "P (get0 m z k)"
proof -
  from assms(2) obtain v where "map_of m k = Some v" by (cases "map_of m k") (auto simp: map_of_eq_None_iff)
  with assms(1) map_of_SomeD [OF this] show ?thesis by (auto simp: get0_def)
qed

lemma average_range:
  assumes "key_order mc" "\<forall>(k, v) \<in> set m. in_range 100 v" "length m \<le> 2 ^ 32" "average mc m = Some x"
  shows "in_range 100 x"
proof -
  let ?ks = "mc_Order mc 0 (map fst m)"
  let ?xs = "map (get0 m (Fin 0)) ?ks"
  have ks: "set ?ks = fst ` set m" "length ?ks = length m" using assms(1) by (simp_all add: key_order_def)
  have rep: "representable (of_nat k * 100)" if "k \<le> length m" for k
  proof -
    have "int k * 100 \<le> 2 ^ 32 * 100" using that assms(3) by simp
    then show ?thesis using representable_of_int [of "int k * 100"] by simp
  qed
  have "sum_of mc 0 m = fold (\<lambda>x total. f64_add total x) ?xs (Fin 0)"
    by (simp add: sum_of_def fold_map comp_def)
  also have "in_range (of_nat (0 + length ?xs) * 100) \<dots>"
    using get0_range [OF assms(2)] ks rep by (intro sum_range) (auto intro: zero_range)
  finally have "in_range (of_nat (length m) * 100) (sum_of mc 0 m)" using ks by simp
  moreover have "m \<noteq> []" "x = f64_div (sum_of mc 0 m) (f64_of_int (int (length m)))"
    using assms(4) by (auto simp: average_def split: if_splits)
  ultimately show ?thesis
    using quotient_range [of "length m" 100] assms(3) representable_of_int [of 100] by simp
qed

text \<open>A part of a whole, both rounded sums, is between 0 and 100 percent.\<close>

lemma percent_of_range:
  assumes "in_range b u" "in_range c w" "f64_le u w" "\<not> f64_le w (Fin 0)"
  shows "in_range 100 (percent_of u w)"
proof -
  from assms obtain x y where xy: "u = Fin x" "w = Fin y" "0 \<le> x" "x \<le> y" "0 < y"
    unfolding in_range_def by auto
  have "in_range 1 (f64_div u w)"
    using round64_between [of "x / y" 1] representable_of_int [of 1] xy by (simp add: in_range_def)
  then obtain q where q: "f64_div u w = Fin q" "0 \<le> q" "q \<le> 1" unfolding in_range_def by blast
  then show ?thesis
    using round64_between [of "q * 100" 100] representable_of_int [of 100] by (simp add: percent_of_def in_range_def)
qed

lemma in_range_weaken: "in_range b x \<Longrightarrow> b \<le> c \<Longrightarrow> in_range c x"
  by (auto simp: in_range_def)

lemma add_pairs_sums:
  "add_pairs ps (a, b) = (fold (\<lambda>x total. f64_add total x) (map fst ps) a, fold (\<lambda>x total. f64_add total x) (map snd ps) b)"
  unfolding add_pairs_def by (induction ps arbitrary: a b) (simp_all add: split_def)

lemma pow_representable: "k \<le> 2 ^ 33 \<Longrightarrow> j < 900 \<Longrightarrow> representable (of_nat k * 2 ^ j)"
proof -
  assume k: "k \<le> 2 ^ 33" and j: "j < 900"
  have "int k \<le> 2 ^ 33" using k zle_int [of k "2 ^ 33"] by simp
  then show ?thesis using representable_pow2 [of "int k" j] j by simp
qed

lemma add_above:
  assumes "in_range b x" "in_range c y" "representable (b + c)"
  shows "f64_le x (f64_add x y)"
proof -
  from assms obtain u v where uv: "x = Fin u" "0 \<le> u" "representable u" "y = Fin v" "0 \<le> v"
    unfolding in_range_def by blast
  from add_range [OF assms] obtain z where z: "f64_add x y = Fin z" unfolding in_range_def by blast
  with round64_above [of u "u + v" z] uv show ?thesis by simp
qed

lemma memory_range:
  assumes "key_order mc" "\<forall>(k, v) \<in> set used. in_range (2 ^ 64) v" "\<forall>(k, v) \<in> set free. in_range (2 ^ 64) v"
    and "length used \<le> 2 ^ 32" "memoryUtilization mc used free = Some x"
  shows "in_range 100 x"
proof -
  let ?ps = "pools mc used free"
  let ?add = "fold (\<lambda>x total. f64_add total x)"
  let ?u = "?add (map fst ?ps) (Fin 0)" and ?f = "?add (map snd ?ps) (Fin 0)"
  have len: "length ?ps \<le> 2 ^ 32"
  proof -
    have "length ?ps \<le> length (mc_Order mc 1 (map fst used))" by (simp add: pools_def)
    also have "\<dots> = length used" using assms(1) by (simp add: key_order_def)
    finally show ?thesis using assms(4) by linarith
  qed
  have pair: "in_range (2 ^ 64) (fst p) \<and> in_range (2 ^ 64) (snd p)" if "p \<in> set ?ps" for p
  proof -
    from that obtain k where k: "p = (get0 used (Fin 0) k, get0 free (Fin 0) k)" "map_of free k \<noteq> None" "k \<in> fst ` set used"
      using assms(1) unfolding pools_def key_order_def by auto
    moreover have "k \<in> fst ` set free" using k(2) by (simp add: map_of_eq_None_iff)
    ultimately show ?thesis using get0_range [OF assms(2)] get0_range [OF assms(3)] by simp
  qed
  let ?b = "of_nat (length ?ps) * 2 ^ 64 :: rat"
  have rep: "representable (of_nat k * 2 ^ 64)" if "k \<le> 2 * 2 ^ 32" for k
    using that by (intro pow_representable) simp_all
  have "in_range (of_nat (0 + length (map fst ?ps)) * 2 ^ 64) ?u" "in_range (of_nat (0 + length (map snd ?ps)) * 2 ^ 64) ?f"
    using pair len by (intro sum_range rep; auto intro: zero_range)+
  then have u: "in_range ?b ?u" "in_range ?b ?f" by simp_all
  have "representable (of_nat (2 * length ?ps) * 2 ^ 64)" using len by (intro rep) simp
  then have b: "representable (?b + ?b)" by (simp add: algebra_simps)
  have "x = percent_of ?u (f64_add ?u ?f)" "\<not> f64_le (f64_add ?u ?f) (Fin 0)"
    using assms(5) by (auto simp: memoryUtilization_def add_pairs_sums Let_def split: if_splits)
  with percent_of_range [OF u(1) add_range [OF u b] add_above [OF u b]] show ?thesis by simp
qed

section \<open>The fixed memory of a host\<close>

definition below :: "rat \<Rightarrow> f64 \<Rightarrow> f64 \<Rightarrow> bool" where
  "below b u w \<longleftrightarrow> in_range b u \<and> in_range b w \<and> f64_le u w"

lemma below_iff: "below b u w \<longleftrightarrow> (\<exists>x y. u = Fin x \<and> w = Fin y \<and> 0 \<le> x \<and> x \<le> y \<and> y \<le> b \<and> representable x \<and> representable y)"
  unfolding below_def in_range_def by (auto intro: order_trans)

lemma below_round:
  assumes "0 \<le> x" "x \<le> y" "y \<le> b" "representable b"
  shows "below b (round64 x) (round64 y)"
proof -
  obtain v where v: "round64 y = Fin v" "v \<le> b" "representable v" using round64_between [of y b] assms by auto
  with round64_mono [of x y v] assms show ?thesis by (auto simp: below_iff)
qed

lemma below_add:
  assumes "below b u w" "below c x y" "representable (b + c)"
  shows "below (b + c) (f64_add u x) (f64_add w y)"
proof -
  from assms obtain p q r s where "u = Fin p" "w = Fin q" "0 \<le> p" "p \<le> q" "q \<le> b" "x = Fin r" "y = Fin s" "0 \<le> r" "r \<le> s" "s \<le> c"
    unfolding below_iff by blast
  then show ?thesis using below_round [of "p + r" "q + s" "b + c"] assms(3) by simp
qed

lemma below_mul_add:
  assumes "below b u w" "below (2 ^ 64) x y" "in_range (2 ^ 64) z" "representable (b + 2 ^ 128)"
  shows "below (b + 2 ^ 128) (mul_add mc x z u) (mul_add mc y z w)"
proof -
  from assms obtain p q r s t where v: "u = Fin p" "w = Fin q" "0 \<le> p" "p \<le> q" "q \<le> b"
    "x = Fin r" "y = Fin s" "0 \<le> r" "r \<le> s" "s \<le> 2 ^ 64" "z = Fin t" "0 \<le> t" "t \<le> 2 ^ 64"
    unfolding below_iff in_range_def by blast
  have st: "r * t \<le> s * t" "0 \<le> r * t" using v by (simp_all add: mult_right_mono)
  have "s * t \<le> 2 ^ 64 * 2 ^ 64" using v by (intro mult_mono) simp_all
  then have hi: "s * t \<le> 2 ^ 128" by simp
  show ?thesis
  proof (cases "mc_Fused mc")
    case True
    then show ?thesis
      using below_round [of "r * t + p" "s * t + q" "b + 2 ^ 128"] v st hi assms(4)
      by (simp add: mul_add_def)
  next
    case False
    have "below (2 ^ 128) (round64 (r * t)) (round64 (s * t))"
      using st hi pow_representable [of 1 128] by (intro below_round) simp_all
    with below_add [OF assms(1) this assms(4)] False v show ?thesis by (simp add: mul_add_def)
  qed
qed

lemma add_ram_below:
  assumes "\<forall>(unit, size, used) \<in> set rs. in_range (2 ^ 64) unit \<and> below (2 ^ 64) used size"
    and "n + length rs \<le> 2 ^ 32" "below (of_nat n * 2 ^ 128) u w"
  shows "below (of_nat (n + length rs) * 2 ^ 128) (fst (add_ram mc rs (u, w))) (snd (add_ram mc rs (u, w)))"
  using assms
proof (induction rs arbitrary: n u w)
  case (Cons r rs)
  obtain unit size used where r: "r = (unit, size, used)" by (cases r)
  have "representable (of_nat (Suc n) * 2 ^ 128)" using Cons.prems(2) by (intro pow_representable) simp_all
  then have "below (of_nat (Suc n) * 2 ^ 128) (mul_add mc used unit u) (mul_add mc size unit w)"
    using below_mul_add [OF Cons.prems(3), of used size unit mc] Cons.prems(1) r by (simp add: algebra_simps)
  from Cons.IH [OF _ _ this] Cons.prems(1,2) r show ?case by (simp add: add_ram_def)
qed (simp add: add_ram_def)

lemma memory_arista_range:
  assumes "key_order mc" "\<forall>(k, v) \<in> set (ar_allocationUnits t). in_range (2 ^ 64) v"
    and "\<forall>(k, v) \<in> set (ar_storageSizes t). in_range (2 ^ 64) v" "\<forall>(k, v) \<in> set (ar_storageUsed t). in_range (2 ^ 64) v"
    and "length (ar_storageTypes t) \<le> 2 ^ 32" "memoryUtilization_arista mc t = Some x"
  shows "in_range 100 x"
proof -
  let ?rs = "ram mc t"
  have len: "length ?rs \<le> 2 ^ 32"
  proof -
    have "length ?rs \<le> length (mc_Order mc 1 (map fst (ar_storageTypes t)))" by (simp add: ram_def)
    also have "\<dots> = length (ar_storageTypes t)" using assms(1) by (simp add: key_order_def)
    finally show ?thesis using assms(5) by linarith
  qed
  have row: "in_range (2 ^ 64) unit \<and> below (2 ^ 64) used size" if "(unit, size, used) \<in> set ?rs" for unit size used
  proof -
    from that obtain k where k: "unit = get0 (ar_allocationUnits t) (Fin 0) k" "size = get0 (ar_storageSizes t) (Fin 0) k"
        "used = get0 (ar_storageUsed t) (Fin 0) k" "\<not> f64_lt size used"
      and keys: "k \<in> fst ` set (ar_allocationUnits t)" "k \<in> fst ` set (ar_storageSizes t)" "k \<in> fst ` set (ar_storageUsed t)"
      unfolding ram_def by (auto simp: map_of_eq_None_iff)
    have "in_range (2 ^ 64) unit" "in_range (2 ^ 64) size" "in_range (2 ^ 64) used"
      using get0_range [OF assms(2) keys(1)] get0_range [OF assms(3) keys(2)] get0_range [OF assms(4) keys(3)] k by simp_all
    moreover have "f64_le used size" using calculation k(4) by (auto simp: in_range_def)
    ultimately show ?thesis by (simp add: below_def)
  qed
  have rows: "\<forall>(unit, size, used) \<in> set ?rs. in_range (2 ^ 64) unit \<and> below (2 ^ 64) used size"
    by clarify (rule row)
  have "below (of_nat 0 * 2 ^ 128) (Fin 0) (Fin 0)" by (simp add: below_def zero_range)
  from add_ram_below [OF rows _ this, of mc] len
  have sums: "below (of_nat (length ?rs) * 2 ^ 128) (fst (add_ram mc ?rs (Fin 0, Fin 0))) (snd (add_ram mc ?rs (Fin 0, Fin 0)))"
    by simp
  have "x = percent_of (fst (add_ram mc ?rs (Fin 0, Fin 0))) (snd (add_ram mc ?rs (Fin 0, Fin 0)))"
    "\<not> f64_le (snd (add_ram mc ?rs (Fin 0, Fin 0))) (Fin 0)"
    using assms(6) by (auto simp: memoryUtilization_arista_def Let_def split_def split: if_splits)
  with percent_of_range sums show ?thesis unfolding below_def by blast
qed

section \<open>What a walk leaves in the tables\<close>

definition walk_indexes :: "snmp_client \<Rightarrow> string \<Rightarrow> int set" where
  "walk_indexes cl base = {i. \<exists>p \<in> set (wk_PDUs (cl_Walk cl base)). columnIndex base (pd_Name p) = Inr i}"

definition column_ok :: "snmp_client \<Rightarrow> string \<Rightarrow> ('v \<Rightarrow> bool) \<Rightarrow> (int, 'v) gomap \<Rightarrow> bool" where
  "column_ok cl base ok m \<longleftrightarrow> distinct (map fst m) \<and> fst ` set m \<subseteq> walk_indexes cl base \<and> (\<forall>(k, v) \<in> set m. ok v)"

definition table_ok :: "(int \<Rightarrow> 'v \<Rightarrow> bool) \<Rightarrow> (int, 'v) gomap \<Rightarrow> bool" where
  "table_ok ok m \<longleftrightarrow> distinct (map fst m) \<and> (\<forall>(k, v) \<in> set m. ok k v)"

lemma set_update: "distinct (map fst m) \<Longrightarrow> set (AList.update k v m) \<subseteq> insert (k, v) (set m)"
  by (induction m) auto

lemma column_length:
  assumes "column_ok cl base ok m"
  shows "length m \<le> length (wk_PDUs (cl_Walk cl base))"
proof -
  let ?ps = "wk_PDUs (cl_Walk cl base)"
  have sub: "walk_indexes cl base \<subseteq> (\<lambda>p. projr (columnIndex base (pd_Name p))) ` set ?ps"
    unfolding walk_indexes_def by (auto intro: rev_image_eqI)
  have "length m = card (fst ` set m)" using assms distinct_card [of "map fst m"] by (simp add: column_ok_def)
  also have "\<dots> \<le> card ((\<lambda>p. projr (columnIndex base (pd_Name p))) ` set ?ps)"
    using assms sub unfolding column_ok_def by (intro card_mono) auto
  also have "\<dots> \<le> length ?ps" using card_image_le [of "set ?ps"] card_length [of ?ps] by (meson finite_set le_trans)
  finally show ?thesis .
qed

lemma cell_cases:
  "cell base read store p s = (e, s') \<Longrightarrow> s' = s \<or> (\<exists>i v. columnIndex base (pd_Name p) = Inr i \<and> read (pd_Value p) = Inr v \<and> s' = store i v s)"
  by (auto simp: cell_def split: if_splits sum.splits)

lemma cell_column:
  assumes "p \<in> set (wk_PDUs (cl_Walk cl base))" "column_ok cl base ok m" "\<And>v. read (pd_Value p) = Inr v \<Longrightarrow> ok (f v)"
  shows "column_ok cl base ok (snd (cell base read (\<lambda>i v. AList.update i (f v)) p m))"
proof -
  obtain e m' where m': "cell base read (\<lambda>i v. AList.update i (f v)) p m = (e, m')" by fastforce
  from cell_cases [OF this] show ?thesis
  proof (elim disjE exE conjE)
    fix i v assume c: "columnIndex base (pd_Name p) = Inr i" "read (pd_Value p) = Inr v" "m' = AList.update i (f v) m"
    have i: "i \<in> walk_indexes cl base" using assms(1) c(1) by (auto simp: walk_indexes_def)
    have sub: "set m' \<subseteq> insert (i, f v) (set m)" using assms(2) c(3) set_update [of m i "f v"] by (simp add: column_ok_def)
    have "fst ` set m' \<subseteq> walk_indexes cl base" using image_mono [OF sub, of fst] i assms(2) by (auto simp: column_ok_def)
    moreover have "ok w" if "(k, w) \<in> set m'" for k w
      using that sub assms(2) assms(3) [OF c(2)] by (auto simp: column_ok_def)
    moreover have "distinct (map fst m')" using assms(2) c(3) by (simp add: column_ok_def distinct_update)
    ultimately show ?thesis using m' by (auto simp: column_ok_def)
  qed (use assms(2) m' in simp)
qed

lemma cell_table:
  assumes "table_ok ok m" "\<And>i v. read (pd_Value p) = Inr v \<Longrightarrow> ok i (f i v m)"
  shows "table_ok ok (snd (cell base read (\<lambda>i v m. AList.update i (f i v m) m) p m))"
proof -
  obtain e m' where m': "cell base read (\<lambda>i v m. AList.update i (f i v m) m) p m = (e, m')" by fastforce
  from cell_cases [OF this] show ?thesis
  proof (elim disjE exE conjE)
    fix i v assume c: "read (pd_Value p) = Inr v" "m' = AList.update i (f i v m) m"
    have "set m' \<subseteq> insert (i, f i v m) (set m)" using assms(1) c(2) set_update [of m i "f i v m"] by (simp add: table_ok_def)
    then show ?thesis using assms(1) assms(2) [OF c(1), of i] c m' unfolding table_ok_def by (auto simp: distinct_update)
  qed (use assms(1) m' in simp)
qed

lemma run_walk_inv:
  assumes "\<And>p s. p \<in> set ps \<Longrightarrow> P s \<Longrightarrow> P (snd (step p s))" "P s"
  shows "P (snd (run_walk step ps end s))"
  using assms
proof (induction step ps "end" s rule: run_walk.induct)
  case (2 step p ps "end" s)
  have "P (snd (step p s))" using 2 by simp
  then show ?case using 2 by (cases "step p s") (auto split: option.splits)
qed simp

lemma collect_inv:
  assumes "\<And>base step p s. (base, step) \<in> set ws \<Longrightarrow> p \<in> set (wk_PDUs (cl_Walk cl base)) \<Longrightarrow> P s \<Longrightarrow> P (snd (step p s))" "P s"
  shows "P (snd (collect_walks cl ws s))"
  using assms
proof (induction cl ws s rule: collect_walks.induct)
  case (2 cl base step ws s)
  have P: "P (snd (Walk cl base step s))"
    unfolding Walk_def
  proof (rule run_walk_inv [where P = P])
    show "P (snd (step p t))" if "p \<in> set (wk_PDUs (cl_Walk cl base))" "P t" for p t
      by (rule "2.prems"(1)) (use that in simp_all)
  qed (rule "2.prems"(2))
  obtain e s' where w: "Walk cl base step s = (e, s')" by fastforce
  show ?case
  proof (cases "e = None \<or> \<not> wk_Cancelled (cl_Walk cl base)")
    case True
    then have "P (snd (collect_walks cl ws s'))" using w P 2 by (cases e) auto
    with True w show ?thesis by (cases e) (auto split: prod.splits)
  next
    case False
    with w P show ?thesis by (cases e) auto
  qed
qed simp

lemma on_part_snd: "snd (on_part part upd step p s) = upd (\<lambda>_. snd (step p (part s))) s"
  by (simp add: on_part_def split: prod.split)

section \<open>Columns and components\<close>

definition counter :: "f64 \<Rightarrow> bool" where
  "counter x \<longleftrightarrow> in_range (2 ^ 64) x"

definition integral_replies :: "snmp_client \<Rightarrow> bool" where
  "integral_replies cl \<longleftrightarrow> (\<forall>base. length (wk_PDUs (cl_Walk cl base)) \<le> 2 ^ 32
     \<and> (\<forall>p \<in> set (wk_PDUs (cl_Walk cl base)). integral (pd_Value p)))"

lemma numeric_column:
  assumes "integral_replies cl" "p \<in> set (wk_PDUs (cl_Walk cl base))" "column_ok cl base ok m"
    and "\<And>x. valid x \<Longrightarrow> \<not> f64_lt x (Fin 0)" "\<And>x. valid x \<Longrightarrow> counter x \<Longrightarrow> ok x"
  shows "column_ok cl base ok (snd (numericColumn base valid p m))"
proof -
  have "integral (pd_Value p)" using assms(1,2) by (simp add: integral_replies_def)
  with checked_range [of "pd_Value p" valid] assms(4,5) [unfolded counter_def] have "\<And>v. checked_number valid (pd_Value p) = Inr v \<Longrightarrow> ok v" by blast
  with cell_column [OF assms(2,3), where f = id] show ?thesis by (simp add: numericColumn_def)
qed

definition statuses :: "string set" where
  "statuses = {[], ''ok'', ''warning'', ''critical'', ''not_present'', ''unknown''}"

definition component_ok :: "int \<Rightarrow> component \<Rightarrow> bool" where
  "component_ok i c \<longleftrightarrow> ck_index c = i \<and> ck_status c \<in> statuses \<and> (\<forall>v. ck_value c = Some v \<longrightarrow> counter v)"

lemma table_get0: "table_ok ok m \<Longrightarrow> ok i z \<Longrightarrow> ok i (get0 m z i)"
  by (auto simp: table_ok_def get0_def split: option.split dest: map_of_SomeD)

lemma componentAt_ok: "table_ok component_ok m \<Longrightarrow> component_ok i (componentAt m i)"
  unfolding componentAt_def get0_def [symmetric]
  by (rule table_get0) (assumption, simp add: component_ok_def statuses_def)

lemma component_columns:
  assumes "table_ok component_ok m"
  shows "table_ok component_ok (snd (stringColumn base p m))"
    and "integral (pd_Value p) \<Longrightarrow> table_ok component_ok (snd (componentValueColumn base p m))"
    and "(\<And>v. f v \<in> statuses) \<Longrightarrow> table_ok component_ok (snd (componentStatusColumn mc base f p m))"
proof -
  show "table_ok component_ok (snd (stringColumn base p m))"
    unfolding stringColumn_def by (rule cell_table [OF assms]) (use componentAt_ok [OF assms] in \<open>simp add: component_ok_def\<close>)
  show "table_ok component_ok (snd (componentValueColumn base p m))" if "integral (pd_Value p)"
    unfolding componentValueColumn_def
    by (rule cell_table [OF assms])
       (use componentAt_ok [OF assms] checked_range(1) [OF that _ valid_nonneg(2), folded counter_def] in \<open>simp add: component_ok_def\<close>)
  show "table_ok component_ok (snd (componentStatusColumn mc base f p m))" if "\<And>v. f v \<in> statuses"
    unfolding componentStatusColumn_def Let_def
    by (rule cell_table [OF assms]) (use componentAt_ok [OF assms] that in \<open>simp add: component_ok_def\<close>)
qed

lemma status_words: "ciscoEnvironmentStatus v \<in> statuses" "sensorOperStatus v \<in> statuses" "entityOperStatus v \<in> statuses"
  by (simp_all add: ciscoEnvironmentStatus_def sensorOperStatus_def entityOperStatus_def statuses_def)

lemma sorted_components:
  assumes "table_ok component_ok m"
  shows "distinct (map cr_Index (sortedComponents m unit))"
    and "c \<in> set (sortedComponents m unit) \<Longrightarrow> cr_Unit c \<in> {[], unit} \<and> cr_Status c \<in> statuses \<and> finite_opt (cr_Value c)"
proof -
  let ?ks = "sort (map fst (filter (\<lambda>(_, c). \<not> (ck_name c = [] \<and> ck_value c = None \<and> ck_status c = [])) m))"
  have "map cr_Index (sortedComponents m unit) = map (\<lambda>i. ck_index (componentAt m i)) ?ks"
    by (simp add: sortedComponents_def Let_def comp_def)
  also have "\<dots> = ?ks" using componentAt_ok [OF assms] by (simp add: component_ok_def)
  finally show "distinct (map cr_Index (sortedComponents m unit))"
    using assms by (simp add: table_ok_def distinct_map_filter)
  assume "c \<in> set (sortedComponents m unit)"
  then obtain i where "c = (let c = componentAt m i in
         \<lparr>cr_Index = ck_index c, cr_Name = ck_name c, cr_Value = ck_value c,
          cr_Unit = (if ck_value c = None then [] else unit), cr_Status = ck_status c, cr_SourceOID = ck_source c\<rparr>)"
    unfolding sortedComponents_def by auto
  then show "cr_Unit c \<in> {[], unit} \<and> cr_Status c \<in> statuses \<and> finite_opt (cr_Value c)"
    using componentAt_ok [OF assms, of i]
    by (auto simp: Let_def component_ok_def counter_def in_range_def finite_opt_def split: option.split)
qed

definition cisco_ok :: "snmp_client \<Rightarrow> cisco_tables \<Rightarrow> bool" where
  "cisco_ok cl t \<longleftrightarrow> column_ok cl oidCPU5Min (in_range 100) (ci_cpu t)
     \<and> column_ok cl oidMemoryPoolUsed counter (ci_memoryUsed t)
     \<and> column_ok cl oidMemoryPoolFree counter (ci_memoryFree t)
     \<and> table_ok component_ok (ci_temperatures t) \<and> table_ok component_ok (ci_supplies t)"

lemmas numeric_columns =
  numeric_column [where valid = percentValue and ok = "in_range 100", OF _ _ _ valid_nonneg(1) percent_range [OF counter_def [THEN iffD1]]]
  numeric_column [where valid = nonNegativeValue and ok = counter, OF _ _ _ valid_nonneg(2)]
  numeric_column [where valid = positiveValue and ok = counter, OF _ _ _ valid_nonneg(3)]

lemma cisco_walks_ok:
  assumes "integral_replies cl" "(base, step) \<in> set (cisco_walks mc)" "p \<in> set (wk_PDUs (cl_Walk cl base))" "cisco_ok cl t"
  shows "cisco_ok cl (snd (step p t))"
proof -
  have "integral (pd_Value p)" using assms(1,3) by (simp add: integral_replies_def)
  with assms show ?thesis
    unfolding cisco_walks_def
    by (auto simp: on_part_snd cisco_ok_def intro!: numeric_columns component_columns status_words)
qed

lemma CollectCisco_ok:
  assumes "integral_replies cl"
  obtains t where "snd (CollectCisco mc cl) = cisco_readings mc t" "cisco_ok cl t"
proof -
  let ?t0 = "\<lparr>ci_cpu = [], ci_memoryUsed = [], ci_memoryFree = [], ci_temperatures = [], ci_supplies = []\<rparr>"
  have "cisco_ok cl (snd (collect_walks cl (cisco_walks mc) ?t0))"
    by (rule collect_inv [where P = "cisco_ok cl"], rule cisco_walks_ok [OF assms])
       (simp_all add: cisco_ok_def column_ok_def table_ok_def)
  then show ?thesis by (rule that [rotated]) (simp add: CollectCisco_def split_def)
qed

section \<open>Sensors and power supplies\<close>

definition sensor_ok :: "int \<Rightarrow> sensor \<Rightarrow> bool" where
  "sensor_ok i e \<longleftrightarrow> sx_status e \<in> statuses"

definition physical_ok :: "int \<Rightarrow> physical_entity \<Rightarrow> bool" where
  "physical_ok i e \<longleftrightarrow> pe_status e \<in> statuses"

lemma sensorAt_ok: "table_ok sensor_ok m \<Longrightarrow> sensor_ok i (sensorAt m i)"
  unfolding sensorAt_def by (rule table_get0) (assumption, simp add: sensor_ok_def statuses_def)

lemma physicalAt_ok: "table_ok physical_ok m \<Longrightarrow> physical_ok i (physicalAt m i)"
  unfolding physicalAt_def by (rule table_get0) (assumption, simp add: physical_ok_def statuses_def)

lemma physical_columns:
  assumes "table_ok physical_ok m"
  shows "table_ok physical_ok (snd (physicalStringColumn base p m))"
    and "(\<And>v i e. physical_ok i e \<Longrightarrow> physical_ok i (f v e)) \<Longrightarrow> table_ok physical_ok (snd (physicalIntegerColumn mc base f p m))"
  unfolding physicalStringColumn_def physicalIntegerColumn_def
  by (rule cell_table [OF assms], use physicalAt_ok [OF assms] in \<open>simp add: physical_ok_def\<close>)+

lemma sensor_columns:
  assumes "table_ok sensor_ok m"
  shows "(\<And>v i e. sensor_ok i e \<Longrightarrow> sensor_ok i (f v e)) \<Longrightarrow> table_ok sensor_ok (snd (sensorIntegerColumn mc base f p m))"
  unfolding sensorIntegerColumn_def
  by (rule cell_table [OF assms]) (use sensorAt_ok [OF assms] in simp)

definition arista_ok :: "snmp_client \<Rightarrow> arista_tables \<Rightarrow> bool" where
  "arista_ok cl t \<longleftrightarrow> column_ok cl oidProcessorLoad (in_range 100) (ar_cpu t)
     \<and> column_ok cl oidStorageType (\<lambda>_. True) (ar_storageTypes t)
     \<and> column_ok cl oidStorageAllocUnits counter (ar_allocationUnits t)
     \<and> column_ok cl oidStorageSize counter (ar_storageSizes t)
     \<and> column_ok cl oidStorageUsed counter (ar_storageUsed t)
     \<and> table_ok physical_ok (ar_physical t) \<and> table_ok sensor_ok (ar_sensors t)"

lemma arista_walks_ok:
  assumes "integral_replies cl" "(base, step) \<in> set (arista_walks mc)" "p \<in> set (wk_PDUs (cl_Walk cl base))" "arista_ok cl t"
  shows "arista_ok cl (snd (step p t))"
proof -
  have types: "column_ok cl oidStorageType (\<lambda>_. True) (snd (oidColumn oidStorageType p m))"
    if "p \<in> set (wk_PDUs (cl_Walk cl oidStorageType))" "column_ok cl oidStorageType (\<lambda>_. True) m" for m
    unfolding oidColumn_def using cell_column [OF that] by simp
  from assms show ?thesis
    unfolding arista_walks_def
    by (auto simp: on_part_snd arista_ok_def physical_ok_def sensor_ok_def
        intro!: numeric_columns types physical_columns sensor_columns status_words)
qed

lemma CollectArista_ok:
  assumes "integral_replies cl"
  obtains t where "snd (CollectArista mc cl) = arista_readings mc t" "arista_ok cl t"
proof -
  let ?t0 = "\<lparr>ar_cpu = [], ar_storageTypes = [], ar_allocationUnits = [], ar_storageSizes = [], ar_storageUsed = [],
    ar_physical = [], ar_sensors = []\<rparr>"
  have "arista_ok cl (snd (collect_walks cl (arista_walks mc) ?t0))"
    by (rule collect_inv [where P = "arista_ok cl"], rule arista_walks_ok [OF assms])
       (simp_all add: arista_ok_def column_ok_def table_ok_def)
  then show ?thesis by (rule that [rotated]) (simp add: CollectArista_def split_def)
qed

lemma sensor_reading_ok:
  assumes "arista_ok cl t" "c \<in> set (sensor_readings t d)"
  shows "cr_Unit c \<in> {[], ''celsius'', ''watts'', ''volts_ac'', ''volts_dc'', ''amperes''}"
    and "d = ''temperature'' \<Longrightarrow> cr_Unit c \<in> {[], ''celsius''}" "d = ''power'' \<Longrightarrow> cr_Unit c \<noteq> ''celsius''"
    and "cr_Status c \<in> statuses"
proof -
  from assms(2) obtain i where i: "c = sensor_reading t i" "destined d (sensorAt (ar_sensors t) i)"
    unfolding sensor_readings_def by auto
  show "cr_Status c \<in> statuses"
    using assms(1) sensorAt_ok [of "ar_sensors t" i] i(1) by (simp add: arista_ok_def sensor_reading_def sensor_ok_def Let_def)
  show "cr_Unit c \<in> {[], ''celsius'', ''watts'', ''volts_ac'', ''volts_dc'', ''amperes''}"
    "d = ''temperature'' \<Longrightarrow> cr_Unit c \<in> {[], ''celsius''}" "d = ''power'' \<Longrightarrow> cr_Unit c \<noteq> ''celsius''"
    using i by (auto simp: sensor_reading_def Let_def sensor_unit_def sensorDestination_def destined_def split: if_splits)
qed

lemma sensor_indexes: "arista_ok cl t \<Longrightarrow> distinct (map cr_Index (sensor_readings t d))"
  by (simp add: sensor_readings_def sensor_reading_def Let_def comp_def arista_ok_def table_ok_def)

section \<open>The readings of a vendor are reportable\<close>

lemma percentage_Some: "in_range 100 x \<Longrightarrow> percentage (Some x)"
  by (auto simp: percentage_def in_range_def finite_opt_def checkOptionalPct_def)

lemma percentage_None: "percentage None"
  by (simp add: percentage_def finite_opt_def checkOptionalPct_def)

lemma components_fit_names:
  assumes "\<forall>c \<in> set cs. cr_Unit c \<in> units \<and> cr_Status c \<in> statuses"
  shows "components_fit units cs \<longleftrightarrow> (\<forall>c \<in> set cs. nonblank (cr_Name c) \<and> finite_opt (cr_Value c)) \<and> distinct (map cr_Index cs)"
  using assms by (auto simp: components_fit_def component_fits_def list_all_iff statuses_def)

definition valued :: "component_reading list \<Rightarrow> component_reading list" where
  "valued cs = filter (\<lambda>c. cr_Value c \<noteq> None) cs"

lemma distinct_valued: "distinct (map cr_Index cs) \<Longrightarrow> distinct (map cr_Index (valued cs))"
  by (simp add: valued_def distinct_map_filter)

definition named_components :: "vendor_readings \<Rightarrow> bool" where
  "named_components v \<longleftrightarrow> (\<forall>c \<in> set (valued (vr_Temperatures v) @ vr_Power v). nonblank (cr_Name c) \<and> finite_opt (cr_Value c))
     \<and> distinct (map cr_Index (vr_Power v))"

definition vendor_fits :: "vendor_readings \<Rightarrow> bool" where
  "vendor_fits v \<longleftrightarrow> vr_Profile v \<in> {''core'', ''cisco'', ''arista''}
     \<and> percentage (map_option sr_Value (vr_CPU v)) \<and> percentage (map_option sr_Value (vr_Memory v))
     \<and> distinct (map cr_Index (vr_Temperatures v))
     \<and> (\<forall>c \<in> set (vr_Temperatures v). cr_Unit c \<in> {[], ''celsius''} \<and> cr_Status c \<in> statuses)
     \<and> (\<forall>c \<in> set (vr_Power v). cr_Unit c \<in> {[], ''state'', ''watts'', ''volts'', ''amps'', ''percent'', ''volts_ac'', ''volts_dc'', ''amperes''}
          \<and> cr_Status c \<in> statuses)"

lemma cisco_fits:
  assumes "key_order mc" "integral_replies cl"
  shows "vendor_fits (snd (CollectCisco mc cl))"
proof -
  obtain t where t: "snd (CollectCisco mc cl) = cisco_readings mc t" "cisco_ok cl t" using CollectCisco_ok [OF assms(2)] .
  have len: "length (ci_cpu t) \<le> 2 ^ 32" "length (ci_memoryUsed t) \<le> 2 ^ 32"
    using t(2) assms(2) column_length unfolding cisco_ok_def integral_replies_def by (meson order_trans)+
  have "percentage (average mc (ci_cpu t))"
    using average_range [OF assms(1) _ len(1)] t(2) percentage_None percentage_Some
    by (cases "average mc (ci_cpu t)") (auto simp: cisco_ok_def column_ok_def)
  moreover have "percentage (memoryUtilization mc (ci_memoryUsed t) (ci_memoryFree t))"
    using memory_range [OF assms(1) _ _ len(2)] t(2) percentage_None percentage_Some
    by (cases "memoryUtilization mc (ci_memoryUsed t) (ci_memoryFree t)")
       (auto simp: cisco_ok_def column_ok_def counter_def)
  ultimately show ?thesis
    using t sorted_components [where m = "ci_temperatures t" and unit = "''celsius''"]
      sorted_components [where m = "ci_supplies t" and unit = "[]"]
    by (simp add: vendor_fits_def cisco_readings_def temperatureReadings_def powerReadings_def cisco_ok_def option.map_comp comp_def option.map_ident)
qed

lemma arista_fits:
  assumes "key_order mc" "integral_replies cl"
  shows "vendor_fits (snd (CollectArista mc cl))"
proof -
  obtain t where t: "snd (CollectArista mc cl) = arista_readings mc t" "arista_ok cl t" using CollectArista_ok [OF assms(2)] .
  have len: "length (ar_cpu t) \<le> 2 ^ 32" "length (ar_storageTypes t) \<le> 2 ^ 32"
    using t(2) assms(2) column_length unfolding arista_ok_def integral_replies_def by (meson order_trans)+
  have "percentage (average mc (ar_cpu t))"
    using average_range [OF assms(1) _ len(1)] t(2) percentage_None percentage_Some
    by (cases "average mc (ar_cpu t)") (auto simp: arista_ok_def column_ok_def)
  moreover have "percentage (memoryUtilization_arista mc t)"
    using memory_arista_range [OF assms(1) _ _ _ len(2)] t(2) percentage_None percentage_Some
    by (cases "memoryUtilization_arista mc t") (auto simp: arista_ok_def column_ok_def counter_def)
  moreover have "cr_Status c \<in> statuses \<and> cr_Unit c = []" if "c \<in> set (supply_readings t)" for c
    using that t(2) physicalAt_ok [of "ar_physical t"] by (auto simp: supply_readings_def arista_ok_def physical_ok_def)
  moreover have "cr_Unit c \<in> {[], ''celsius''} \<and> cr_Status c \<in> statuses" if "c \<in> set (sensor_readings t ''temperature'')" for c
    using sensor_reading_ok(2) [OF t(2) that refl] sensor_reading_ok(4) [OF t(2) that] by simp
  moreover have "cr_Unit c \<in> {[], ''state'', ''watts'', ''volts'', ''amps'', ''percent'', ''volts_ac'', ''volts_dc'', ''amperes''}
      \<and> cr_Status c \<in> statuses" if "c \<in> set (sensor_readings t ''power'')" for c
    using sensor_reading_ok(1,4) [OF t(2) that] sensor_reading_ok(3) [OF t(2) that refl] by auto
  ultimately show ?thesis
    using t sensor_indexes [OF t(2)] unfolding vendor_fits_def
    by (simp add: arista_readings_def componentReadings_def option.map_comp comp_def option.map_ident ball_Un)
qed

lemma Collect_fits: "key_order mc \<Longrightarrow> integral_replies cl \<Longrightarrow> vendor_fits (snd (Collect mc p cl))"
  using cisco_fits arista_fits by (simp add: Collect_def)

lemma polled_identity:
  assumes "PollDevice cl = Inr i"
  shows "finite_f64 (id_UptimeSeconds i) \<and> \<not> f64_lt (id_UptimeSeconds i) (Fin 0)"
proof -
  obtain w :: "64 word" where w: "id_UptimeSeconds i = f64_div (f64_of_int (uint w)) (Fin 100)"
    using assms
    by (auto simp: PollDevice_def and_then_def TicksToSeconds_def split: sum.splits list.splits)
  have "(0 :: rat) \<le> of_int (uint w)" "(of_int (uint w) :: rat) \<le> of_int (2 ^ 64)"
    using uint_lt2p [of w] by (simp_all only: of_int_le_iff of_int_0_le_iff uint_ge_0, simp)
  moreover have rep: "representable (of_int (1 * 2 ^ 64))" by (rule representable_pow2) simp_all
  ultimately obtain y where y: "f64_of_int (uint w) = Fin y" "0 \<le> y" "y \<le> of_int (2 ^ 64)"
    using round64_between [of "of_int (uint w)" "of_int (2 ^ 64)"] by (auto simp: f64_of_int_def)
  then show ?thesis using round64_between [of "y / 100" "of_int (2 ^ 64)"] rep w by auto
qed

lemma vendor_reportable:
  assumes "vendor_fits (px_Vendor r)" "finite_f64 (id_UptimeSeconds (px_Identity r))" "\<not> f64_lt (id_UptimeSeconds (px_Identity r)) (Fin 0)"
  shows "reportable r \<longleftrightarrow> nonblank (id_SysObjectID (px_Identity r)) \<and> nonblank (id_SysName (px_Identity r))
     \<and> id_SysDescr (px_Identity r) \<noteq> [] \<and> named_components (px_Vendor r)"
proof -
  let ?v = "px_Vendor r"
  have "components_fit {[], ''celsius''} (valued (vr_Temperatures ?v))
      \<longleftrightarrow> (\<forall>c \<in> set (valued (vr_Temperatures ?v)). nonblank (cr_Name c) \<and> finite_opt (cr_Value c))"
    using assms(1) distinct_valued [of "vr_Temperatures ?v"]
    by (subst components_fit_names) (auto simp: vendor_fits_def valued_def)
  moreover have "components_fit {[], ''state'', ''watts'', ''volts'', ''amps'', ''percent'', ''volts_ac'', ''volts_dc'', ''amperes''} (vr_Power ?v)
      \<longleftrightarrow> (\<forall>c \<in> set (vr_Power ?v). nonblank (cr_Name c) \<and> finite_opt (cr_Value c)) \<and> distinct (map cr_Index (vr_Power ?v))"
    using assms(1) by (intro components_fit_names) (simp add: vendor_fits_def)
  moreover have "vr_Profile ?v \<in> {[], ''core'', ''cisco'', ''arista'', ''unknown''}"
    "percentage (map_option sr_Value (vr_CPU ?v))" "percentage (map_option sr_Value (vr_Memory ?v))"
    using assms(1) by (auto simp: vendor_fits_def)
  ultimately show ?thesis
    using assms(2,3) unfolding reportable_def named_components_def valued_def [symmetric] by (auto simp: ball_Un)
qed

end
