(* ===== verification/PollingProps.thy ===== *)
theory PollingProps
  imports Polling
begin

text \<open>The properties of the interface filter and of the choice of the vendor profile.\<close>

section \<open>What a configured filter asks for\<close>

text \<open>A matcher that is empty does not restrict the rule.\<close>

definition type_matches :: "string \<Rightarrow> interface_reading \<Rightarrow> bool" where
  "type_matches t i \<longleftrightarrow> normalizeType t \<in> {[], normalizeType (if_IfTypeName i), itoa (if_IfType i)}"

definition state_matches :: "string \<Rightarrow> string \<Rightarrow> bool" where
  "state_matches s actual \<longleftrightarrow> to_lower s \<in> {[], to_lower actual}"

definition regex_matches :: "(string \<Rightarrow> regex option) \<Rightarrow> string \<Rightarrow> string list \<Rightarrow> bool" where
  "regex_matches compile p texts \<longleftrightarrow> (case compile p of None \<Rightarrow> False | Some re \<Rightarrow> list_ex re texts)"

definition listed :: "(string \<Rightarrow> regex option) \<Rightarrow> int list \<Rightarrow> string list \<Rightarrow> string list \<Rightarrow> string list \<Rightarrow> string list
    \<Rightarrow> string list \<Rightarrow> interface_reading \<Rightarrow> bool" where
  "listed compile indexes names aliases types admins opers i \<longleftrightarrow>
     if_IfIndex i \<in> set indexes
     \<or> list_ex (\<lambda>p. regex_matches compile p [if_IfName i, if_IfDescr i]) names
     \<or> list_ex (\<lambda>p. regex_matches compile p [if_IfAlias i]) aliases
     \<or> list_ex (\<lambda>t. type_matches t i) types
     \<or> list_ex (\<lambda>s. state_matches s (if_AdminStatus i)) admins
     \<or> list_ex (\<lambda>s. state_matches s (if_OperStatus i)) opers"

definition rule_asks :: "(string \<Rightarrow> regex option) \<Rightarrow> filter_rule \<Rightarrow> interface_reading \<Rightarrow> bool" where
  "rule_asks compile r i \<longleftrightarrow>
     (fr_IfIndex r = None \<or> fr_IfIndex r = Some (if_IfIndex i))
     \<and> (fr_NameRegex r = [] \<or> regex_matches compile (fr_NameRegex r) [if_IfName i, if_IfDescr i])
     \<and> (fr_AliasRegex r = [] \<or> regex_matches compile (fr_AliasRegex r) [if_IfAlias i])
     \<and> type_matches (fr_IfType r) i \<and> state_matches (fr_AdminStatus r) (if_AdminStatus i)
     \<and> state_matches (fr_OperStatus r) (if_OperStatus i)"

definition asks_include :: "(string \<Rightarrow> regex option) \<Rightarrow> filter_config \<Rightarrow> interface_reading \<Rightarrow> bool" where
  "asks_include compile c i \<longleftrightarrow>
     listed compile (fc_IncludeIfIndexes c) (fc_IncludeNameRegex c) (fc_IncludeAliasRegex c) (fc_IncludeTypes c)
       (fc_IncludeAdminStatuses c) (fc_IncludeOperStatuses c) i
     \<or> list_ex (\<lambda>r. fr_Action r = ''include'' \<and> rule_asks compile r i) (fc_Rules c)"

definition asks_exclude :: "(string \<Rightarrow> regex option) \<Rightarrow> filter_config \<Rightarrow> interface_reading \<Rightarrow> bool" where
  "asks_exclude compile c i \<longleftrightarrow>
     listed compile (fc_ExcludeIfIndexes c) (fc_ExcludeNameRegex c) (fc_ExcludeAliasRegex c) (fc_ExcludeTypes c)
       (fc_ExcludeAdminStatuses c) (fc_ExcludeOperStatuses c) i
     \<or> list_ex (\<lambda>r. fr_Action r = ''exclude'' \<and> rule_asks compile r i) (fc_Rules c)"

section \<open>What the compiled rules do\<close>

text \<open>A rule acts on an interface, as an include or as an exclude.\<close>

definition acts :: "bool \<times> interface_reading \<Rightarrow> compiled_rule \<Rightarrow> bool" where
  "acts x r \<longleftrightarrow> (co_action r = ''include'') = fst x \<and> matches r (snd x)"

definition rules_act :: "string + compiled_rule list \<Rightarrow> (bool \<times> interface_reading \<Rightarrow> bool) \<Rightarrow> bool" where
  "rules_act c q \<longleftrightarrow> (\<exists>rs. c = Inr rs \<and> (\<forall>x. (\<exists>r \<in> set rs. acts x r) \<longleftrightarrow> q x))"

lemma compile_all_acts:
  assumes "\<And>i x. x \<in> set xs \<Longrightarrow> \<exists>r. f i x = Inr r \<and> (\<forall>y. acts y r \<longleftrightarrow> q y x)"
  shows "rules_act (compile_all f k xs) (\<lambda>y. list_ex (q y) xs)"
  using assms
proof (induction xs arbitrary: k)
  case (Cons x xs)
  from Cons.prems [of x k] obtain r where r: "f k x = Inr r" "\<forall>y. acts y r \<longleftrightarrow> q y x" by auto
  from Cons.IH [of "Suc k"] Cons.prems obtain rs where
    "compile_all f (Suc k) xs = Inr rs" "\<forall>y. (\<exists>r \<in> set rs. acts y r) \<longleftrightarrow> list_ex (q y) xs"
    by (auto simp: rules_act_def)
  with r show ?case by (simp add: rules_act_def)
qed (simp add: rules_act_def)

lemma chain_rules_acts:
  "list_all2 rules_act cs qs \<Longrightarrow> rules_act (chain_rules cs) (\<lambda>y. \<exists>q \<in> set qs. q y)"
proof (induction cs qs rule: list_all2_induct)
  case (Cons c cs q qs)
  then obtain rs rs' where "c = Inr rs" "\<forall>y. (\<exists>r \<in> set rs. acts y r) \<longleftrightarrow> q y"
    "chain_rules cs = Inr rs'" "\<forall>y. (\<exists>r \<in> set rs'. acts y r) \<longleftrightarrow> (\<exists>q \<in> set qs. q y)"
    by (auto simp: rules_act_def)
  then show ?case by (simp add: rules_act_def bex_Un)
qed (simp add: rules_act_def)

lemma matches_simple:
  "matches ((no_rule a n)\<lparr>co_ifIndex := Some v\<rparr>) i \<longleftrightarrow> if_IfIndex i = v"
  "matches ((no_rule a n)\<lparr>co_name := Some re\<rparr>) i \<longleftrightarrow> re (if_IfName i) \<or> re (if_IfDescr i)"
  "matches ((no_rule a n)\<lparr>co_alias := Some re\<rparr>) i \<longleftrightarrow> re (if_IfAlias i)"
  "matches ((no_rule a n)\<lparr>co_ifType := normalizeType t\<rparr>) i \<longleftrightarrow> type_matches t i"
  "matches ((no_rule a n)\<lparr>co_adminStatus := to_lower s\<rparr>) i \<longleftrightarrow> state_matches s (if_AdminStatus i)"
  "matches ((no_rule a n)\<lparr>co_operStatus := to_lower s\<rparr>) i \<longleftrightarrow> state_matches s (if_OperStatus i)"
  by (auto simp: matches_def no_rule_def type_matches_def state_matches_def)

lemma no_rule_action [simp]: "co_action (no_rule a n) = a"
  by (simp add: no_rule_def)

lemma regexRule_acts:
  assumes "compile p \<noteq> None"
  shows "\<exists>r. regexRule compile a n p False = Inr r
      \<and> (\<forall>y. acts y r \<longleftrightarrow> (a = ''include'') = fst y \<and> regex_matches compile p [if_IfName (snd y), if_IfDescr (snd y)])"
    and "\<exists>r. regexRule compile a n p True = Inr r
      \<and> (\<forall>y. acts y r \<longleftrightarrow> (a = ''include'') = fst y \<and> regex_matches compile p [if_IfAlias (snd y)])"
proof -
  from assms obtain re where "compile p = Some re" by blast
  then show "\<exists>r. regexRule compile a n p False = Inr r
      \<and> (\<forall>y. acts y r \<longleftrightarrow> (a = ''include'') = fst y \<and> regex_matches compile p [if_IfName (snd y), if_IfDescr (snd y)])"
    "\<exists>r. regexRule compile a n p True = Inr r
      \<and> (\<forall>y. acts y r \<longleftrightarrow> (a = ''include'') = fst y \<and> regex_matches compile p [if_IfAlias (snd y)])"
    by (simp_all add: regexRule_def acts_def regex_matches_def matches_simple)
qed

lemma simple_lists_act:
  assumes "list_all (\<lambda>p. compile p \<noteq> None) (names @ aliases)"
  shows "list_all2 rules_act (simple_lists compile a indexes names aliases types admins opers)
    [\<lambda>y. list_ex (\<lambda>v. (a = ''include'') = fst y \<and> if_IfIndex (snd y) = v) indexes,
     \<lambda>y. list_ex (\<lambda>p. (a = ''include'') = fst y \<and> regex_matches compile p [if_IfName (snd y), if_IfDescr (snd y)]) names,
     \<lambda>y. list_ex (\<lambda>p. (a = ''include'') = fst y \<and> regex_matches compile p [if_IfAlias (snd y)]) aliases,
     \<lambda>y. list_ex (\<lambda>t. (a = ''include'') = fst y \<and> type_matches t (snd y)) types,
     \<lambda>y. list_ex (\<lambda>s. (a = ''include'') = fst y \<and> state_matches s (if_AdminStatus (snd y))) admins,
     \<lambda>y. list_ex (\<lambda>s. (a = ''include'') = fst y \<and> state_matches s (if_OperStatus (snd y))) opers]"
  using assms unfolding simple_lists_def
  by (simp only: list_all2_Cons list_all2_Nil2, intro conjI compile_all_acts TrueI refl)
     (simp_all add: acts_def matches_simple regexRule_acts [unfolded acts_def] list_all_iff del: split_paired_All)

lemma matches_conj:
  "matches r i \<longleftrightarrow> (co_ifIndex r = None \<or> co_ifIndex r = Some (if_IfIndex i))
     \<and> (case co_name r of None \<Rightarrow> True | Some re \<Rightarrow> list_ex re [if_IfName i, if_IfDescr i])
     \<and> (case co_alias r of None \<Rightarrow> True | Some re \<Rightarrow> list_ex re [if_IfAlias i])
     \<and> co_ifType r \<in> {[], normalizeType (if_IfTypeName i), itoa (if_IfType i)}
     \<and> co_adminStatus r \<in> {[], to_lower (if_AdminStatus i)} \<and> co_operStatus r \<in> {[], to_lower (if_OperStatus i)}"
proof -
  have step: "(if c then False else x) = (\<not> c \<and> x)" for c x by simp
  show ?thesis
    unfolding matches_def step
    by (intro arg_cong2 [where f = "(\<and>)"]) (auto split: option.split)
qed

lemma optional_regex:
  "p = [] \<or> compile p \<noteq> None \<Longrightarrow>
   (case (if p \<noteq> [] then compile p else None) of None \<Rightarrow> True | Some re \<Rightarrow> list_ex re texts) \<longleftrightarrow> p = [] \<or> regex_matches compile p texts"
  by (cases "p = []") (auto simp: regex_matches_def)

lemma compileRule_acts:
  assumes "fr_NameRegex r = [] \<or> compile (fr_NameRegex r) \<noteq> None" "fr_AliasRegex r = [] \<or> compile (fr_AliasRegex r) \<noteq> None"
  shows "\<exists>c. compileRule compile r n = Inr c
    \<and> (\<forall>y. acts y c \<longleftrightarrow> (fr_Action r = ''include'') = fst y \<and> rule_asks compile r (snd y))"
proof -
  let ?c = "(no_rule (fr_Action r) n)\<lparr>co_ifIndex := fr_IfIndex r,
      co_ifType := normalizeType (fr_IfType r), co_adminStatus := to_lower (fr_AdminStatus r),
      co_operStatus := to_lower (fr_OperStatus r),
      co_name := (if fr_NameRegex r \<noteq> [] then compile (fr_NameRegex r) else None),
      co_alias := (if fr_AliasRegex r \<noteq> [] then compile (fr_AliasRegex r) else None)\<rparr>"
  have "compileRule compile r n = Inr ?c" using assms by (auto simp: compileRule_def Let_def)
  moreover have "matches ?c i \<longleftrightarrow> rule_asks compile r i" for i
    unfolding matches_conj rule_asks_def type_matches_def state_matches_def
    using optional_regex [of _ compile] assms by (simp add: no_rule_def)
  ultimately show ?thesis by (simp add: acts_def no_rule_def)
qed

lemma NewFilter_acts:
  assumes names: "list_all (\<lambda>p. compile p \<noteq> None) (fc_IncludeNameRegex c @ fc_IncludeAliasRegex c)"
      "list_all (\<lambda>p. compile p \<noteq> None) (fc_ExcludeNameRegex c @ fc_ExcludeAliasRegex c)"
    and rules: "list_all (\<lambda>r. (fr_Action r = ''include'' \<or> fr_Action r = ''exclude'')
        \<and> (fr_NameRegex r = [] \<or> compile (fr_NameRegex r) \<noteq> None) \<and> (fr_AliasRegex r = [] \<or> compile (fr_AliasRegex r) \<noteq> None)) (fc_Rules c)"
  shows "\<exists>f. NewFilter compile c = Inr f
    \<and> (\<forall>i. (\<exists>r \<in> set (fl_includes f). matches r i) \<longleftrightarrow> asks_include compile c i)
    \<and> (\<forall>i. (\<exists>r \<in> set (fl_excludes f). matches r i) \<longleftrightarrow> asks_exclude compile c i)"
proof -
  let ?lists = "\<lambda>a indexes names aliases types admins opers.
    [\<lambda>y. list_ex (\<lambda>v. (a = ''include'') = fst y \<and> if_IfIndex (snd y) = v) indexes,
     \<lambda>y. list_ex (\<lambda>p. (a = ''include'') = fst y \<and> regex_matches compile p [if_IfName (snd y), if_IfDescr (snd y)]) names,
     \<lambda>y. list_ex (\<lambda>p. (a = ''include'') = fst y \<and> regex_matches compile p [if_IfAlias (snd y)]) aliases,
     \<lambda>y. list_ex (\<lambda>t. (a = ''include'') = fst y \<and> type_matches t (snd y)) types,
     \<lambda>y. list_ex (\<lambda>s. (a = ''include'') = fst y \<and> state_matches s (if_AdminStatus (snd y))) admins,
     \<lambda>y. list_ex (\<lambda>s. (a = ''include'') = fst y \<and> state_matches s (if_OperStatus (snd y))) opers]"
  let ?I = "?lists ''include'' (fc_IncludeIfIndexes c) (fc_IncludeNameRegex c) (fc_IncludeAliasRegex c) (fc_IncludeTypes c)
      (fc_IncludeAdminStatuses c) (fc_IncludeOperStatuses c)"
  let ?E = "?lists ''exclude'' (fc_ExcludeIfIndexes c) (fc_ExcludeNameRegex c) (fc_ExcludeAliasRegex c) (fc_ExcludeTypes c)
      (fc_ExcludeAdminStatuses c) (fc_ExcludeOperStatuses c)"
  let ?R = "\<lambda>y. list_ex (\<lambda>r. (fr_Action r = ''include'') = fst y \<and> rule_asks compile r (snd y)) (fc_Rules c)"
  note inc = simple_lists_act [OF names(1), of "''include''" "fc_IncludeIfIndexes c" "fc_IncludeTypes c"
      "fc_IncludeAdminStatuses c" "fc_IncludeOperStatuses c"]
  note exc = simple_lists_act [OF names(2), of "''exclude''" "fc_ExcludeIfIndexes c" "fc_ExcludeTypes c"
      "fc_ExcludeAdminStatuses c" "fc_ExcludeOperStatuses c"]
  have "rules_act (compile_all (\<lambda>i r. compileRule compile r (rule_id ''rules'' i)) 0 (fc_Rules c))
      ?R"
    using rules by (intro compile_all_acts compileRule_acts) (auto simp: list_all_iff)
  then have "list_all2 rules_act [compile_all (\<lambda>i r. compileRule compile r (rule_id ''rules'' i)) 0 (fc_Rules c)]
      [?R]" by simp
  note chain = chain_rules_acts [OF list_all2_appendI [OF inc list_all2_appendI [OF this exc]]]
  then obtain rs where out: "NewFilter compile c = Inr \<lparr>fl_includes = filter (\<lambda>r. co_action r = ''include'') rs,
      fl_excludes = filter (\<lambda>r. co_action r \<noteq> ''include'') rs\<rparr>"
    and raw: "\<And>y. (\<exists>r \<in> set rs. acts y r) \<longleftrightarrow> (\<exists>q \<in> set (?I @ [?R] @ ?E). q y)"
    unfolding rules_act_def NewFilter_def by auto
  have acts: "(\<exists>r \<in> set rs. acts y r) \<longleftrightarrow> (if fst y then asks_include compile c (snd y)
      else listed compile (fc_ExcludeIfIndexes c) (fc_ExcludeNameRegex c) (fc_ExcludeAliasRegex c) (fc_ExcludeTypes c)
       (fc_ExcludeAdminStatuses c) (fc_ExcludeOperStatuses c) (snd y)
     \<or> list_ex (\<lambda>r. fr_Action r \<noteq> ''include'' \<and> rule_asks compile r (snd y)) (fc_Rules c))" for y
    unfolding raw asks_include_def listed_def list_ex_iff by (cases "fst y") auto
  have "fr_Action r \<noteq> ''include'' \<longleftrightarrow> fr_Action r = ''exclude''" if "r \<in> set (fc_Rules c)" for r
    using rules that by (auto simp: list_all_iff)
  then have excl: "list_ex (\<lambda>r. fr_Action r \<noteq> ''include'' \<and> rule_asks compile r i) (fc_Rules c)
      \<longleftrightarrow> list_ex (\<lambda>r. fr_Action r = ''exclude'' \<and> rule_asks compile r i) (fc_Rules c)" for i
    unfolding list_ex_iff by (auto simp del: not_None_eq)
  have "(\<exists>r \<in> set (filter (\<lambda>r. co_action r = ''include'') rs). matches r i) \<longleftrightarrow> asks_include compile c i"
    "(\<exists>r \<in> set (filter (\<lambda>r. co_action r \<noteq> ''include'') rs). matches r i) \<longleftrightarrow> asks_exclude compile c i" for i
    using acts [of "(True, i)"] acts [of "(False, i)"] excl [of i]
    by (auto simp: acts_def asks_exclude_def)
  with out show ?thesis by simp
qed

section \<open>The filter on a poll\<close>

lemma fold_mark:
  "ir_Reading (fold (mark_rule sel why) rs i) = ir_Reading i
   \<and> ir_Selection (fold (mark_rule sel why) rs i) = (if \<exists>r \<in> set rs. matches r (ir_Reading i) then sel else ir_Selection i)"
  by (induction rs arbitrary: i) (auto simp: mark_rule_def)

lemma annotate_selection:
  "ir_Reading (annotate f i) = ir_Reading i
   \<and> ir_Selection (annotate f i) =
      (if \<exists>r \<in> set (fl_excludes f). matches r (ir_Reading i) then ExcludedRule
       else if (\<exists>r \<in> set (fl_includes f). matches r (ir_Reading i))
         \<or> normalizeType (if_IfTypeName (ir_Reading i)) \<notin> set defaultExcludedTypes then Selected
       else ExcludedDefault)"
  by (simp add: annotate_def Let_def fold_mark)

definition tally :: "selection \<Rightarrow> interface_result list \<Rightarrow> int" where
  "tally sel is = int (length (filter (\<lambda>i. ir_Selection i = sel) is))"

lemma fold_count:
  "fold count_selection is s = s\<lparr>fs_Selected := fs_Selected s + tally Selected is,
     fs_ExcludedDefault := fs_ExcludedDefault s + tally ExcludedDefault is,
     fs_ExcludedRule := fs_ExcludedRule s + tally ExcludedRule is\<rparr>"
  by (induction "is" arbitrary: s) (auto simp: count_selection_def tally_def split: selection.split)

lemma valid_filter:
  assumes "validateInterfaceFilters ps c = None" and "\<And>p. ps_regexOK ps p \<longleftrightarrow> compile p \<noteq> None"
  shows "list_all (\<lambda>p. compile p \<noteq> None) (fc_IncludeNameRegex c @ fc_IncludeAliasRegex c)"
    "list_all (\<lambda>p. compile p \<noteq> None) (fc_ExcludeNameRegex c @ fc_ExcludeAliasRegex c)"
    "list_all (\<lambda>r. (fr_Action r = ''include'' \<or> fr_Action r = ''exclude'')
        \<and> (fr_NameRegex r = [] \<or> compile (fr_NameRegex r) \<noteq> None) \<and> (fr_AliasRegex r = [] \<or> compile (fr_AliasRegex r) \<noteq> None)) (fc_Rules c)"
proof -
  have ok: "list_all (ps_regexOK ps) (fc_IncludeNameRegex c @ fc_ExcludeNameRegex c @ fc_IncludeAliasRegex c @ fc_ExcludeAliasRegex c)"
    and rules: "\<forall>r \<in> set (fc_Rules c). validateFilterRule ps r = None"
    using assms(1) unfolding validateInterfaceFilters_def
    by (auto simp: first_err_None fail_if_None)
  from ok show "list_all (\<lambda>p. compile p \<noteq> None) (fc_IncludeNameRegex c @ fc_IncludeAliasRegex c)"
    "list_all (\<lambda>p. compile p \<noteq> None) (fc_ExcludeNameRegex c @ fc_ExcludeAliasRegex c)"
    by (auto simp: list_all_iff assms(2) simp del: not_None_eq)
  from rules show "list_all (\<lambda>r. (fr_Action r = ''include'' \<or> fr_Action r = ''exclude'')
        \<and> (fr_NameRegex r = [] \<or> compile (fr_NameRegex r) \<noteq> None) \<and> (fr_AliasRegex r = [] \<or> compile (fr_AliasRegex r) \<noteq> None)) (fc_Rules c)"
    by (auto simp: list_all_iff validateFilterRule_def first_err_Cons_None fail_if_None assms(2))
qed

text \<open>C38: a filter that passed the configuration check compiles, and applied to a poll it keeps every reading in its
  place and decides by precedence: what the configuration excludes is excluded, of the rest what it
  includes is selected, and what it does not mention is selected unless its type is a virtual one.
  The summary counts every interface once.\<close>

theorem filter_decides:
  assumes "validateInterfaceFilters ps c = None" and "\<And>p. ps_regexOK ps p \<longleftrightarrow> compile p \<noteq> None"
  shows "\<exists>f. NewFilter compile c = Inr f \<and> (\<forall>is. \<exists>out summary. ApplyFilter f is = (out, summary)
    \<and> map ir_Reading out = map ir_Reading is
    \<and> map ir_Selection out = map (\<lambda>i. if asks_exclude compile c i then ExcludedRule
         else if asks_include compile c i \<or> normalizeType (if_IfTypeName i) \<notin> set defaultExcludedTypes then Selected
         else ExcludedDefault) (map ir_Reading is)
    \<and> fs_Selected summary = tally Selected out \<and> fs_ExcludedDefault summary = tally ExcludedDefault out
    \<and> fs_ExcludedRule summary = tally ExcludedRule out
    \<and> fs_Selected summary + fs_ExcludedDefault summary + fs_ExcludedRule summary = int (length is))"
proof -
  from NewFilter_acts [OF valid_filter [OF assms]] obtain f where f: "NewFilter compile c = Inr f"
    "\<And>i. (\<exists>r \<in> set (fl_includes f). matches r i) \<longleftrightarrow> asks_include compile c i"
    "\<And>i. (\<exists>r \<in> set (fl_excludes f). matches r i) \<longleftrightarrow> asks_exclude compile c i" by blast
  have total: "tally Selected (map (annotate f) is) + tally ExcludedDefault (map (annotate f) is)
      + tally ExcludedRule (map (annotate f) is) = int (length is)" for "is"
    by (induction "is") (auto simp: tally_def annotate_selection)
  show ?thesis
    using f(1) total by (simp add: ApplyFilter_def Let_def fold_count annotate_selection f(2,3))
qed

definition filter_sample :: filter_config where
  "filter_sample = empty_filters\<lparr>fc_IncludeNameRegex := [''Vl''], fc_ExcludeIfIndexes := [7]\<rparr>"

definition filter_parsers :: parsers where
  "filter_parsers = \<lparr>ps_regexOK = (\<lambda>p. p \<noteq> ''[''), ps_cidrOK = (\<lambda>_. True), ps_IP = (\<lambda>_. None),
     ps_brokerOK = (\<lambda>_. True), ps_Duration = (\<lambda>_. None), ps_insecureSkipVerify = False\<rparr>"

definition prefix_regex :: "string \<Rightarrow> regex option" where
  "prefix_regex p = (if p = ''['' then None else Some (prefix p))"

lemma filter_decides_witness: "\<exists>f. NewFilter prefix_regex filter_sample = Inr f"
proof -
  have "validateInterfaceFilters filter_parsers filter_sample = None"
    by (simp add: validateInterfaceFilters_def filter_sample_def empty_filters_def filter_parsers_def fail_if_None)
  moreover have "\<And>p. ps_regexOK filter_parsers p \<longleftrightarrow> prefix_regex p \<noteq> None"
    by (simp add: filter_parsers_def prefix_regex_def)
  ultimately show ?thesis using filter_decides [of filter_parsers filter_sample prefix_regex] by blast
qed

end
