(* ===== verification/PollerProps.thy ===== *)
theory PollerProps
  imports Poller VendorProps PollingProps
begin

text \<open>
  From the device to the ingestion service: what a poll makes of the replies of a device is accepted.
  Then the schedule of the loop.
\<close>

section \<open>The columns of the interface table\<close>

lemma set_update_any: "set (AList.update k v m) \<subseteq> insert (k, v) (set m)"
  by (induction m) auto

lemma walk_column:
  assumes "Walk cl base (column_step read base) [] = (e, m)" "(i, v) \<in> set m"
  shows "\<exists>p \<in> set (wk_PDUs (cl_Walk cl base)). oidIndex base (pd_Name p) = Inr i \<and> read p = Inr v"
proof -
  let ?P = "\<lambda>m. \<forall>(i, v) \<in> set m. \<exists>p \<in> set (wk_PDUs (cl_Walk cl base)). oidIndex base (pd_Name p) = Inr i \<and> read p = Inr v"
  have "?P (snd (column_step read base p m))" if p: "p \<in> set (wk_PDUs (cl_Walk cl base))" and m: "?P m" for p m
  proof (cases "oidIndex base (pd_Name p)")
    case (Inr j)
    then show ?thesis
    proof (cases "read p")
      case (Inr w)
      then have "snd (column_step read base p m) = AList.update j w m"
        using \<open>oidIndex base (pd_Name p) = Inr j\<close> by (simp add: column_step_def)
      then show ?thesis using m p Inr \<open>oidIndex base (pd_Name p) = Inr j\<close> set_update_any [of j w m] by fastforce
    qed (use m in \<open>simp add: column_step_def\<close>)
  qed (use m in \<open>simp add: column_step_def\<close>)
  then have "?P (snd (Walk cl base (column_step read base) []))"
    unfolding Walk_def by (rule run_walk_inv [where P = ?P]) simp_all
  with assms show ?thesis by fastforce
qed

lemma walked_counter:
  assumes "walkCounters cl base = Inr m" "map_of m i = Some v"
  shows "\<exists>p \<in> set (wk_PDUs (cl_Walk cl base)). oidIndex base (pd_Name p) = Inr i \<and> pduToUint64 p = Inr v"
proof -
  obtain e where "Walk cl base (column_step pduToUint64 base) [] = (e, m)"
    using assms(1) by (auto simp: walkCounters_def walk_result_def split: prod.splits option.splits)
  then show ?thesis using map_of_SomeD [OF assms(2)] by (rule walk_column)
qed

lemma walked_string:
  assumes "walkStrings cl base = Inr m" "map_of m i = Some v"
  shows "\<exists>p \<in> set (wk_PDUs (cl_Walk cl base)). oidIndex base (pd_Name p) = Inr i \<and> pduToString p = Inr v"
proof -
  obtain e where "Walk cl base (column_step pduToString base) [] = (e, m)"
    using assms(1) by (auto simp: walkStrings_def walk_result_def split: prod.splits option.splits)
  then show ?thesis using map_of_SomeD [OF assms(2)] by (rule walk_column)
qed

lemma walked_index:
  assumes "walkIndexes cl base = Inr is" "i \<in> set is"
  shows "\<exists>p \<in> set (wk_PDUs (cl_Walk cl base)). oidIndex base (pd_Name p) = Inr i"
proof -
  let ?P = "\<lambda>s. \<forall>i \<in> set s. \<exists>p \<in> set (wk_PDUs (cl_Walk cl base)). oidIndex base (pd_Name p) = Inr i"
  have "?P (snd (Walk cl base (index_step base) []))"
    unfolding Walk_def by (rule run_walk_inv [where P = ?P]) (auto simp: index_step_def split: sum.splits)
  then show ?thesis using assms by (auto simp: walkIndexes_def walk_result_def split: prod.splits option.splits)
qed

lemma Atoi_bound: "Atoi s = Some i \<Longrightarrow> i < 2 ^ 63"
  by (auto simp: Atoi_def Let_def split: list.splits if_splits Option.bind_splits)

lemma oidIndex_bound: "oidIndex base oid = Inr i \<Longrightarrow> i < 2 ^ 63"
  by (auto simp: oidIndex_def Let_def split: if_splits option.splits dest: Atoi_bound)

section \<open>Readings\<close>

text \<open>What the interface table of a well-behaved device satisfies: gauges of 32 bits, indexes from 1, no blank names.\<close>

definition tame_replies :: "snmp_client \<Rightarrow> bool" where
  "tame_replies cl \<longleftrightarrow>
     (\<forall>base \<in> {OIDIfSpeed, OIDIfHighSpeed}. \<forall>p \<in> set (wk_PDUs (cl_Walk cl base)). \<forall>w. pduToUint64 p = Inr w \<longrightarrow> uint w < 2 ^ 32)
     \<and> (\<forall>p \<in> set (wk_PDUs (cl_Walk cl OIDIfIndex)). \<forall>i. oidIndex OIDIfIndex (pd_Name p) = Inr i \<longrightarrow> 1 \<le> i)
     \<and> (\<forall>base \<in> {OIDIfDescr, OIDIfName}. \<forall>p \<in> set (wk_PDUs (cl_Walk cl base)). \<forall>s. pduToString p = Inr s \<longrightarrow> s = [] \<or> nonblank s)"

lemma and_then_Inr: "and_then x f = Inr y \<longleftrightarrow> (\<exists>a. x = Inr a \<and> f a = Inr y)"
  by (cases x) (simp_all add: and_then_def)

lemma polled_interfaces:
  assumes "PollInterfaces cl = Inr ifaces" "i \<in> set ifaces"
  obtains idx c fb where "i = reading_at c fb idx" "read_columns cl = Inr c"
    "\<exists>p \<in> set (wk_PDUs (cl_Walk cl OIDIfIndex)). oidIndex OIDIfIndex (pd_Name p) = Inr idx"
proof -
  obtain ixs where ixs: "walkIndexes cl OIDIfIndex = Inr ixs" "ixs \<noteq> []"
    using assms by (auto simp: PollInterfaces_def and_then_Inr split: if_splits)
  then obtain c fb where c: "read_columns cl = Inr c" "ifaces = sort_key if_IfIndex (map (reading_at c fb) ixs)"
    using assms(1) by (auto simp: PollInterfaces_def and_then_Inr)
  then obtain idx where "idx \<in> set ixs" "i = reading_at c fb idx" using assms(2) by auto
  with that c(1) walked_index [OF ixs(1)] show thesis by blast
qed

lemma polled_order: "PollInterfaces cl = Inr ifaces \<Longrightarrow> sorted (map if_IfIndex ifaces)"
  by (auto simp: PollInterfaces_def and_then_Inr split: if_splits)

lemma status_known: "checkStatusEnum (InterfaceStatusName s)"
  by (simp add: InterfaceStatusName_def checkStatusEnum_def)

lemma small_speed: "uint (w :: 64 word) < 2 ^ 32 \<Longrightarrow> uint (w * 1000000) < 2 ^ 63"
proof -
  assume w: "uint w < 2 ^ 32"
  then have "uint w * 1000000 < 2 ^ 64" using uint_ge_0 [of w] by simp
  then have "uint (w * 1000000) = uint w * 1000000"
    using uint_ge_0 [of w] by (simp add: uint_word_arith_bintrs take_bit_int_eq_self)
  with w show ?thesis by simp
qed

lemma reading_fits:
  assumes "tame_replies cl" "PollInterfaces cl = Inr ifaces" "i \<in> set ifaces"
  shows "interface_fits i"
proof -
  obtain idx c fb where i: "i = reading_at c fb idx" "read_columns cl = Inr c"
    "\<exists>p \<in> set (wk_PDUs (cl_Walk cl OIDIfIndex)). oidIndex OIDIfIndex (pd_Name p) = Inr idx"
    using polled_interfaces [OF assms(2,3)] .
  have cols: "walkCounters cl OIDIfSpeed = Inr (fc_Speeds c)" "walkCounters cl OIDIfHighSpeed = Inr (fc_HighSpeeds c)"
    "walkStrings cl OIDIfDescr = Inr (fc_Descrs c)" "walkStrings cl OIDIfName = Inr (fc_Names c)"
    using i(2) by (auto simp: read_columns_def and_then_Inr)
  have gauge: "uint (get0 m 0 idx) < 2 ^ 32" if "walkCounters cl base = Inr m" "base \<in> {OIDIfSpeed, OIDIfHighSpeed}" for base m
    using walked_counter [OF that(1), of idx] assms(1) that(2) unfolding tame_replies_def get0_def
    by (cases "map_of m idx") fastforce+
  have name: "get0 m [] idx = [] \<or> nonblank (get0 m [] idx)" if "walkStrings cl base = Inr m" "base \<in> {OIDIfDescr, OIDIfName}" for base m
    using walked_string [OF that(1), of idx] assms(1) that(2) unfolding tame_replies_def get0_def
    by (cases "map_of m idx") fastforce+
  have "nonblank (''ifIndex-'' @ itoa idx)"
    using component_name(2) [of "''ifIndex-''" idx] by (simp add: nonblank_def list_all_iff is_ident_char_def is_alpha_def less_eq_char_def)
  with name [OF cols(3)] name [OF cols(4)] have "nonblank (interface_name i)"
    by (auto simp: interface_name_def i(1) reading_at_def Let_def split_def)
  moreover have "uint (if_SpeedBPS i) < 2 ^ 63"
    using gauge [OF cols(1)] gauge [OF cols(2)] small_speed by (auto simp: i(1) reading_at_def Let_def split_def)
  moreover have "1 \<le> if_IfIndex i \<and> if_IfIndex i < 2 ^ 63"
    using i(3) assms(1) oidIndex_bound by (auto simp: i(1) reading_at_def Let_def split_def tame_replies_def)
  ultimately show ?thesis
    by (simp add: interface_fits_def) (simp add: i(1) reading_at_def Let_def split_def status_known)
qed

section \<open>The result of the stages\<close>

lemma enriched_vendor:
  assumes "key_order mc" "integral_replies cl"
  shows "vendor_fits (px_Vendor (enrichProfile mc cl r))"
proof (cases "fst (Match vendor_registry (id_SysObjectID (px_Identity r)))")
  case None
  then show ?thesis by (simp add: enrichProfile_def vendor_fits_def no_vendor_def percentage_None)
next
  case (Some p)
  let ?v = "snd (Collect mc p cl)"
  have fits: "vendor_fits ?v" by (rule Collect_fits [OF assms])
  then have "vr_Profile ?v \<noteq> []" by (auto simp: vendor_fits_def)
  then have "px_Vendor (enrichProfile mc cl r) \<in> {?v, ?v\<lparr>vr_Capabilities := all_capabilities\<rparr>}"
    using Some by (simp add: enrichProfile_def Let_def)
  with fits show ?thesis by (auto simp: vendor_fits_def)
qed

lemma enriched_fields:
  "px_Identity (enrichProfile mc cl r) = px_Identity r" "px_Interfaces (enrichProfile mc cl r) = px_Interfaces r"
  "px_DeviceID (enrichProfile mc cl r) = px_DeviceID r"
  by (simp_all add: enrichProfile_def Let_def split: option.split)

lemma applied_fields:
  "px_Identity (ApplyToResult f r) = px_Identity r" "px_Vendor (ApplyToResult f r) = px_Vendor r"
  "map ir_Reading (px_Interfaces (ApplyToResult f r)) = map ir_Reading (px_Interfaces r)"
  by (simp_all add: ApplyToResult_def ApplyFilter_def Let_def annotate_selection)

lemma poll_stages_result:
  assumes "poll_stages env cfg d = Inr r"
  shows "PollDevice (pv_Client env) = Inr (px_Identity r)"
    and "PollInterfaces (pv_Client env) = Inr (map ir_Reading (px_Interfaces r))"
    and "key_order (pv_Machine env) \<Longrightarrow> integral_replies (pv_Client env) \<Longrightarrow> vendor_fits (px_Vendor r)"
proof -
  obtain identity ifaces f where s: "PollDevice (pv_Client env) = Inr identity" "PollInterfaces (pv_Client env) = Inr ifaces"
    and r: "r = (ApplyToResult f (enrichProfile (pv_Machine env) (pv_Client env)
       (NewDevicePollResult (c_SiteID cfg) (dc_ID d) (dc_Host d) (pv_ObservedAt env) identity ifaces)))\<lparr>px_InventoryRole := dc_Role d\<rparr>"
    using assms by (auto simp: poll_stages_def Let_def split: option.splits sum.splits prod.splits)
  show "PollDevice (pv_Client env) = Inr (px_Identity r)"
    using s by (simp add: r enriched_fields applied_fields NewDevicePollResult_def)
  show "PollInterfaces (pv_Client env) = Inr (map ir_Reading (px_Interfaces r))"
    using s by (simp add: r enriched_fields applied_fields NewDevicePollResult_def comp_def)
  show "vendor_fits (px_Vendor r)" if "key_order (pv_Machine env)" "integral_replies (pv_Client env)"
    using enriched_vendor [OF that] by (simp add: r applied_fields)
qed

text \<open>C25: a device whose SNMP agent answers with integers, as the tables prescribe, is reported exactly when its
  system group is filled in and every component it reports has a name (on Arista: a finite value, and no
  power supply that shares its index with a power sensor).  Whatever walks fail, in whatever order maps
  are visited and whether products are fused or not, the CPU and memory percentages, the uptime, the units
  and the states are always within what the ingestion service accepts.\<close>

theorem polled_device_accepted:
  assumes "poll_stages env cfg d = Inr r" "machine_ok (pv_Machine env)" "integral_replies (pv_Client env)"
    and "deliverable rfc wp eventID now (poll_context env cfg) r"
  shows "(\<exists>m. Ingest.Validate wp (Topic (DeviceTelemetry eventID now (poll_context env cfg) r))
            (to_json rfc (DeviceTelemetry eventID now (poll_context env cfg) r)) = Inr (MsgDeviceV2 m))
    \<longleftrightarrow> nonblank (id_SysObjectID (px_Identity r)) \<and> nonblank (id_SysName (px_Identity r))
       \<and> id_SysDescr (px_Identity r) \<noteq> [] \<and> named_components (px_Vendor r)"
proof -
  note s = poll_stages_result [OF assms(1)]
  have "reportable r \<longleftrightarrow> nonblank (id_SysObjectID (px_Identity r)) \<and> nonblank (id_SysName (px_Identity r))
       \<and> id_SysDescr (px_Identity r) \<noteq> [] \<and> named_components (px_Vendor r)"
    using s(3) [OF machine_keys [OF assms(2)] assms(3)] polled_identity [OF s(1)] by (intro vendor_reportable) simp_all
  with device_delivery [OF assms(4)] show ?thesis by blast
qed

text \<open>C24: from a poll of a device with a well-behaved interface table, one event is sent for each selected
  interface with counters, in the order of the indexes, and the ingestion service accepts all of them,
  with the index and the 64-bit counters that were read.\<close>

theorem polled_interfaces_accepted:
  assumes "poll_stages env cfg d = Inr r" "tame_replies (pv_Client env)"
    and "\<And>n. deliverable rfc wp (eventIDs n) now (poll_context env cfg) r"
    and "evs = InterfaceTelemetry eventIDs now (poll_context env cfg) r"
    and "sent = map ir_Reading (filter published (px_Interfaces r))"
  shows "length evs = length sent \<and> sorted (map if_IfIndex sent)
    \<and> (\<forall>n < length sent. \<exists>m. Ingest.Validate wp (Topic (evs ! n)) (to_json rfc (evs ! n)) = Inr (MsgInterfaceV2 m)
        \<and> vi_IfIndex m = if_IfIndex (sent ! n) \<and> vi_InOctets m = if_InOctets (sent ! n) \<and> vi_OutOctets m = if_OutOctets (sent ! n)
        \<and> vi_InErrors m = if_InErrors (sent ! n) \<and> vi_OutErrors m = if_OutErrors (sent ! n))"
proof -
  note polled = poll_stages_result(2) [OF assms(1)]
  have "sorted (map if_IfIndex (map ir_Reading (px_Interfaces r)))" by (rule polled_order [OF polled])
  then have sorted: "sorted (map if_IfIndex sent)"
    using sorted_filter [of "if_IfIndex \<circ> ir_Reading" "px_Interfaces r" published] assms(5) by (simp add: comp_def)
  have fits: "interface_fits (sent ! n)" if "n < length sent" for n
  proof (rule reading_fits [OF assms(2) polled])
    show "sent ! n \<in> set (map ir_Reading (px_Interfaces r))" using nth_mem [OF that] by (auto simp: assms(5))
  qed
  have len: "length evs = length sent" by (simp add: assms(4,5) InterfaceTelemetry_def)
  have "\<exists>m. Ingest.Validate wp (Topic (evs ! n)) (to_json rfc (evs ! n)) = Inr (MsgInterfaceV2 m)
        \<and> vi_IfIndex m = if_IfIndex (sent ! n) \<and> vi_InOctets m = if_InOctets (sent ! n) \<and> vi_OutOctets m = if_OutOctets (sent ! n)
        \<and> vi_InErrors m = if_InErrors (sent ! n) \<and> vi_OutErrors m = if_OutErrors (sent ! n)" if "n < length sent" for n
    using interface_delivery [of rfc wp eventIDs now "poll_context env cfg" r n, OF assms(3) _ refl refl] fits [OF that] that
    by (auto simp: assms(4,5))
  with len sorted show ?thesis by blast
qed

section \<open>The schedule\<close>

text \<open>The polls of a device.\<close>

definition polls_of :: "string \<Rightarrow> (string \<times> 'a) list \<Rightarrow> 'a list" where
  "polls_of i ps = map snd (filter (\<lambda>p. fst p = i) ps)"

lemma polled_schedule:
  assumes "distinct (map dc_ID due)"
  shows "map_of (sd_NextDue (polled cfg due after s)) i =
    (case find (\<lambda>d. dc_ID d = i) due of
       Some d \<Rightarrow> Some (after + EffectivePollInterval d (c_PollInterval cfg)) | None \<Rightarrow> map_of (sd_NextDue s) i)"
proof -
  have "map_of (fold (\<lambda>d. AList.update (dc_ID d) (after + EffectivePollInterval d (c_PollInterval cfg))) due m) i =
    (case find (\<lambda>d. dc_ID d = i) due of
       Some d \<Rightarrow> Some (after + EffectivePollInterval d (c_PollInterval cfg)) | None \<Rightarrow> map_of m i)" for m
    using assms
  proof (induction due arbitrary: m)
    case (Cons d ds)
    have "find (\<lambda>e. dc_ID e = dc_ID d) ds = None" using Cons.prems by (simp add: find_None_iff) (metis image_eqI)
    with Cons show ?case by (auto simp: update_conv' split: option.split)
  qed simp
  then show ?thesis by (simp add: polled_def)
qed

lemma map_of_keys: "map_of (mprune (\<lambda>i _. P i) m) k = (if P k then map_of m k else None)"
  by (induction m) (auto simp: mprune_def)

lemma iteration_due:
  assumes "iteration cfg now s = (step, s')" "d \<in> set (c_Devices cfg)"
  shows "map_of (sd_NextDue s') (dc_ID d) = map_of (sd_NextDue s) (dc_ID d)" "sd_FirstCycle s' = sd_FirstCycle s"
    and "step = PollNow due \<Longrightarrow> d \<in> set due \<longleftrightarrow> sd_FirstCycle s \<or> (\<forall>t. map_of (sd_NextDue s) (dc_ID d) = Some t \<longrightarrow> t \<le> now)"
    and "step = Sleep w \<Longrightarrow> \<not> sd_FirstCycle s \<and> (\<exists>t. map_of (sd_NextDue s) (dc_ID d) = Some t \<and> now < t)"
proof -
  have kept: "map_of (pruneNextDue (sd_NextDue s) (c_Devices cfg)) (dc_ID d) = map_of (sd_NextDue s) (dc_ID d)"
    using assms(2) by (simp add: pruneNextDue_def map_of_keys)
  note it = assms(1) [unfolded iteration_def Let_def, THEN sym]
  show "map_of (sd_NextDue s') (dc_ID d) = map_of (sd_NextDue s) (dc_ID d)" "sd_FirstCycle s' = sd_FirstCycle s"
    using it kept by simp_all
  show "d \<in> set due \<longleftrightarrow> sd_FirstCycle s \<or> (\<forall>t. map_of (sd_NextDue s) (dc_ID d) = Some t \<longrightarrow> t \<le> now)" if "step = PollNow due"
    using that it kept assms(2) by (auto simp: dueDevices_def split: if_splits option.splits)
  show "\<not> sd_FirstCycle s \<and> (\<exists>t. map_of (sd_NextDue s) (dc_ID d) = Some t \<and> now < t)" if "step = Sleep w"
  proof -
    have "dueDevices cfg (pruneNextDue (sd_NextDue s) (c_Devices cfg)) (sd_FirstCycle s) now = []"
      using that it by (auto split: if_splits)
    then have "\<not> sd_FirstCycle s" "\<not> (case map_of (pruneNextDue (sd_NextDue s) (c_Devices cfg)) (dc_ID d) of
        None \<Rightarrow> True | Some t \<Rightarrow> \<not> now < t)"
      using assms(2) by (auto simp: dueDevices_def filter_empty_conv split: if_splits)
    with kept show ?thesis by (auto split: option.splits)
  qed
qed

lemma iteration_due_distinct:
  "iteration cfg now s = (PollNow due, s') \<Longrightarrow> distinct (map dc_ID (c_Devices cfg)) \<Longrightarrow>
     distinct (map dc_ID due) \<and> set due \<subseteq> set (c_Devices cfg)"
  by (auto simp: iteration_def Let_def dueDevices_def distinct_map_filter split: if_splits)

lemma wait_bounds:
  assumes "list_all (\<lambda>(_, t). now < t) nextDue"
  shows "0 < nextDueWait nextDue now" "(i, t) \<in> set nextDue \<Longrightarrow> nextDueWait nextDue now \<le> t - now"
proof -
  let ?wait = "\<lambda>w. fold (\<lambda>(_, t) wait. if t - now < wait then t - now else wait) nextDue w"
  have pos: "0 < w \<Longrightarrow> 0 < ?wait w" for w
    using assms by (induction nextDue arbitrary: w) auto
  have le: "?wait w \<le> w \<and> (\<forall>(i, t) \<in> set nextDue. ?wait w \<le> t - now)" for w
  proof (induction nextDue arbitrary: w)
    case (Cons e es)
    obtain j t where e: "e = (j, t)" by (cases e)
    let ?w = "if t - now < w then t - now else w"
    show ?case using Cons [of ?w] by (auto simp: e)
  qed simp
  have ex: "\<not> list_ex (\<lambda>(_, t). t < now) nextDue" using assms by (auto simp: list_ex_iff list_all_iff)
  show "0 < nextDueWait nextDue now" using pos [of 3600000000000] by (simp add: nextDueWait_def Let_def ex)
  show "nextDueWait nextDue now \<le> t - now" if "(i, t) \<in> set nextDue"
  proof -
    have "nextDue \<noteq> []" using that by auto
    then show ?thesis using le [of 3600000000000] pos [of 3600000000000] that by (auto simp: nextDueWait_def Let_def ex)
  qed
qed

lemma sleep_wakes:
  assumes "iteration cfg now s = (Sleep w, s')" "d \<in> set (c_Devices cfg)" "distinct (map fst (sd_NextDue s))"
  shows "0 < w \<and> (\<exists>t. map_of (sd_NextDue s) (dc_ID d) = Some t \<and> now + w \<le> t)"
proof -
  let ?next = "pruneNextDue (sd_NextDue s) (c_Devices cfg)"
  have w: "w = nextDueWait ?next now" using assms(1) by (auto simp: iteration_def Let_def split: if_splits)
  have later: "list_all (\<lambda>(_, t). now < t) ?next"
    unfolding list_all_iff
  proof clarify
    fix i t assume it: "(i, t) \<in> set ?next"
    then obtain e where e: "e \<in> set (c_Devices cfg)" "i = dc_ID e" and mem: "(i, t) \<in> set (sd_NextDue s)"
      by (auto simp: pruneNextDue_def set_mprune)
    have "map_of (sd_NextDue s) (dc_ID e) = Some t" using mem e(2) assms(3) by simp
    with iteration_due(4) [OF assms(1) e(1) refl] show "now < t" by auto
  qed
  obtain t where t: "map_of (sd_NextDue s) (dc_ID d) = Some t" using iteration_due(4) [OF assms(1,2) refl] by auto
  have "map_of ?next (dc_ID d) = Some t" using t assms(2) by (simp add: pruneNextDue_def map_of_keys)
  then have "(dc_ID d, t) \<in> set ?next" by (rule map_of_SomeD)
  then have "w \<le> t - now" using wait_bounds(2) [OF later] w by simp
  with wait_bounds(1) [OF later] t w show ?thesis by simp
qed

lemma polls_of_due:
  assumes "distinct (map dc_ID due)" "d \<in> set due"
  shows "polls_of (dc_ID d) (map (\<lambda>d. (dc_ID d, f d)) due @ ps) = f d # polls_of (dc_ID d) ps"
proof -
  have "filter (\<lambda>e. dc_ID e = dc_ID d) due = [d]" using assms
  proof (induction due)
    case (Cons e es)
    then have "dc_ID e = dc_ID d \<Longrightarrow> filter (\<lambda>e. dc_ID e = dc_ID d) es = []" by (auto simp: filter_empty_conv image_iff)
    with Cons show ?case by (auto simp: image_iff)
  qed simp
  then show ?thesis by (simp add: polls_of_def filter_map comp_def)
qed

lemma polls_of_other: "i \<notin> dc_ID ` set due \<Longrightarrow> polls_of i (map (\<lambda>d. (dc_ID d, f d)) due @ ps) = polls_of i ps"
  by (auto simp: polls_of_def filter_empty_conv)

lemma loop_spacing:
  assumes "\<forall>(cfg, _, _) \<in> set ts. distinct (map dc_ID (c_Devices cfg)) \<and> i \<in> dc_ID ` set (c_Devices cfg)"
  shows "successively (\<lambda>(iv, _, a) (_, n, _). a + iv \<le> n) (polls_of i (Run ts s))
    \<and> (\<forall>t iv n a ps. \<not> sd_FirstCycle s \<longrightarrow> map_of (sd_NextDue s) i = Some t
         \<longrightarrow> polls_of i (Run ts s) = (iv, n, a) # ps \<longrightarrow> t \<le> n)"
  using assms
proof (induction ts arbitrary: s)
  case (Cons e ts)
  obtain cfg now after where e: "e = (cfg, now, after)" by (cases e)
  obtain d where d: "d \<in> set (c_Devices cfg)" "i = dc_ID d" and cfg: "distinct (map dc_ID (c_Devices cfg))"
    using Cons.prems by (auto simp: e)
  have rest: "\<forall>(cfg, _, _) \<in> set ts. distinct (map dc_ID (c_Devices cfg)) \<and> i \<in> dc_ID ` set (c_Devices cfg)"
    using Cons.prems by simp
  obtain step s' where it: "iteration cfg now s = (step, s')" by fastforce
  note due = iteration_due [OF it d(1)]
  show ?case
  proof (cases step)
    case (Sleep w)
    with due Cons.IH [OF rest, of s'] it show ?thesis by (simp add: e d(2))
  next
    case (PollNow ds)
    let ?s = "polled cfg ds after s'"
    have ds: "distinct (map dc_ID ds)" "set ds \<subseteq> set (c_Devices cfg)"
      using iteration_due_distinct [OF it [unfolded PollNow] cfg] by simp_all
    have same: "x = d" if "x \<in> set ds" "dc_ID x = dc_ID d" for x
      using that ds(2) cfg d(1) by (auto simp: distinct_map inj_on_def)
    have first: "\<not> sd_FirstCycle ?s" by (simp add: polled_def)
    have run: "Run (e # ts) s = map (\<lambda>d. (dc_ID d, EffectivePollInterval d (c_PollInterval cfg), now, after)) ds @ Run ts ?s"
      using it by (simp add: e PollNow)
    show ?thesis
    proof (cases "d \<in> set ds")
      case True
      obtain x where x: "find (\<lambda>x. dc_ID x = dc_ID d) ds = Some x"
        using True by (cases "find (\<lambda>x. dc_ID x = dc_ID d) ds") (auto simp: find_None_iff)
      then have "x = d" using same by (auto simp: find_Some_iff)
      then have "map_of (sd_NextDue ?s) (dc_ID d) = Some (after + EffectivePollInterval d (c_PollInterval cfg))"
        using x polled_schedule [OF ds(1)] by simp
      moreover have polls: "polls_of (dc_ID d) (Run (e # ts) s)
          = (EffectivePollInterval d (c_PollInterval cfg), now, after) # polls_of (dc_ID d) (Run ts ?s)"
        unfolding run by (rule polls_of_due [OF ds(1) True])
      ultimately show ?thesis using Cons.IH [OF rest, of ?s] first due(3) [OF PollNow] True
        unfolding polls d(2) by (cases "polls_of (dc_ID d) (Run ts ?s)") auto
    next
      case False
      then have none: "dc_ID d \<notin> dc_ID ` set ds" "find (\<lambda>x. dc_ID x = dc_ID d) ds = None"
        using same by (auto simp: find_None_iff)
      then have "map_of (sd_NextDue ?s) (dc_ID d) = map_of (sd_NextDue s) (dc_ID d)"
        using polled_schedule [OF ds(1)] due(1) by simp
      moreover have polls: "polls_of (dc_ID d) (Run (e # ts) s) = polls_of (dc_ID d) (Run ts ?s)"
        unfolding run by (rule polls_of_other [OF none(1)])
      ultimately show ?thesis using Cons.IH [OF rest, of ?s] first unfolding polls d(2) by simp
    qed
  qed
qed (simp add: polls_of_def)

text \<open>C26: while a device stays in the configuration, however often that is reloaded, two of its polls are at least
  the interval apart that was in force at the first of them, from the end of one to the
  start of the next; and every iteration polls exactly the devices whose time has come or that have none, or
  it sleeps for a positive time that ends before the time of any device.\<close>

theorem poll_schedule:
  assumes "\<forall>(cfg, _, _) \<in> set ts. distinct (map dc_ID (c_Devices cfg)) \<and> i \<in> dc_ID ` set (c_Devices cfg)"
    and "distinct (map dc_ID (c_Devices cfg))" "d \<in> set (c_Devices cfg)" "distinct (map fst (sd_NextDue s))"
  shows "successively (\<lambda>(interval, _, ended) (_, started, _). ended + interval \<le> started) (polls_of i (Run ts s))
    \<and> (case fst (iteration cfg now s) of
         PollNow due \<Rightarrow> d \<in> set due \<longleftrightarrow> sd_FirstCycle s \<or> (\<forall>t. map_of (sd_NextDue s) (dc_ID d) = Some t \<longrightarrow> t \<le> now)
       | Sleep w \<Rightarrow> 0 < w \<and> (\<exists>t. map_of (sd_NextDue s) (dc_ID d) = Some t \<and> now + w \<le> t))"
proof -
  obtain step s' where it: "iteration cfg now s = (step, s')" by fastforce
  show ?thesis
    using loop_spacing [OF assms(1)] iteration_due(3) [OF it assms(3)] sleep_wakes [OF _ assms(3,4)] it
    by (cases step) simp_all
qed

section \<open>Witnesses\<close>

definition sample_pdu :: "string \<Rightarrow> pdu_value \<Rightarrow> pdu" where
  "sample_pdu oid v = \<lparr>pd_Name = CHR ''.'' # oid, pd_Type = OtherType, pd_Value = v\<rparr>"

text \<open>A Cisco switch with one interface and a power supply without a description.\<close>

definition sample_walk :: "string \<Rightarrow> pdu list" where
  "sample_walk base =
     (if base = OIDIfIndex then [sample_pdu (base @ ''.3'') (PInt 3)]
      else if base = OIDIfDescr then [sample_pdu (base @ ''.3'') (PBytes ''Gi0/3'')]
      else if base = OIDIfAdminStatus then [sample_pdu (base @ ''.3'') (PInt 1)]
      else if base = OIDIfHighSpeed then [sample_pdu (base @ ''.3'') (PUint32 1000)]
      else if base = OIDIfHCInOctets then [sample_pdu (base @ ''.3'') (PUint64 (- 1))]
      else if base = OIDIfHCOutOctets then [sample_pdu (base @ ''.3'') (PUint64 7)]
      else if base = oidSupplyState then [sample_pdu (base @ ''.1'') (PInt 1)]
      else [])"

definition sample_client :: snmp_client where
  "sample_client = \<lparr>cl_Get = (\<lambda>_. Inr [sample_pdu [] (PString ''.1.3.6.1.4.1.9.1.1745''), sample_pdu [] (PBytes ''sw-1''),
       sample_pdu [] (PBytes ''IOS''), sample_pdu [] (PUint32 9000)]),
     cl_Walk = (\<lambda>base. \<lparr>wk_PDUs = sample_walk base, wk_Error = None, wk_Cancelled = False\<rparr>)\<rparr>"

definition sample_machine :: machine where
  "sample_machine = \<lparr>mc_Order = (\<lambda>_ ks. ks), mc_Int64 = (\<lambda>_. 0), mc_Fused = False\<rparr>"

definition sample_env :: poll_env where
  "sample_env = \<lparr>pv_Getenv = (\<lambda>_. ''public''), pv_ConnectError = None, pv_Client = sample_client, pv_Machine = sample_machine,
     pv_Compile = (\<lambda>_. None), pv_Revision = ''r1'', pv_EventIDs = digits, pv_ObservedAt = 7, pv_EmittedAt = 5, pv_Finished = 8,
     pv_PublishError = None\<rparr>"

definition sample_device :: device_config where
  "sample_device = (load_device ''a'' [])\<lparr>dc_Version := ''2c''\<rparr>"

definition sample_cfg :: config where
  "sample_cfg = load_raw [sample_device, load_device ''b'' []]"

definition sample_check :: "poll_result \<Rightarrow> bool" where
  "sample_check r \<longleftrightarrow> \<not> named_components (px_Vendor r) \<and> wire_id (px_DeviceID r) \<and> px_ObservedAt r = 7
     \<and> map (\<lambda>i. (ir_Selection i = Selected, if_IfIndex (ir_Reading i), if_HasCounters (ir_Reading i), if_InOctets (ir_Reading i)))
         (px_Interfaces r) = [(True, 3, True, - 1)]"

lemma enrich_vendor: "px_Identity r = px_Identity r' \<Longrightarrow> px_Vendor (enrichProfile mc cl r) = px_Vendor (enrichProfile mc cl r')"
  by (simp add: enrichProfile_def Let_def split: option.split)

lemma enrich_others:
  "px_DeviceID (enrichProfile mc cl r) = px_DeviceID r" "px_ObservedAt (enrichProfile mc cl r) = px_ObservedAt r"
  "px_Interfaces (enrichProfile mc cl r) = px_Interfaces r"
  by (simp_all add: enrichProfile_def Let_def split: option.split)

lemma sample_interfaces:
  "\<exists>ifs. PollInterfaces sample_client = Inr ifs
    \<and> map (\<lambda>i. (normalizeType (if_IfTypeName i) \<in> set defaultExcludedTypes, if_IfIndex i, if_HasCounters i, if_InOctets i)) ifs = [(False, 3, True, - 1)]"
proof -
  have "case PollInterfaces sample_client of Inl _ \<Rightarrow> False | Inr ifs \<Rightarrow>
      map (\<lambda>i. (normalizeType (if_IfTypeName i) \<in> set defaultExcludedTypes, if_IfIndex i, if_HasCounters i, if_InOctets i)) ifs = [(False, 3, True, - 1)]"
    by code_simp
  then show ?thesis by (auto split: sum.splits)
qed

lemma sample_vendor:
  "\<exists>d. PollDevice sample_client = Inr d \<and> \<not> named_components (px_Vendor (enrichProfile sample_machine sample_client
      (NewDevicePollResult [] [] [] 0 d [])))"
proof -
  have "case PollDevice sample_client of Inl _ \<Rightarrow> False | Inr d \<Rightarrow>
      \<not> named_components (px_Vendor (enrichProfile sample_machine sample_client (NewDevicePollResult [] [] [] 0 d [])))"
    by code_simp
  then show ?thesis by (auto split: sum.splits)
qed

lemma sample_polled: "\<exists>r. poll_stages sample_env sample_cfg sample_device = Inr r \<and> sample_check r"
proof -
  obtain ifs where ifs: "PollInterfaces sample_client = Inr ifs" "map (\<lambda>i. (normalizeType (if_IfTypeName i) \<in> set defaultExcludedTypes,
      if_IfIndex i, if_HasCounters i, if_InOctets i)) ifs = [(False, 3, True, - 1)]" using sample_interfaces by (elim exE conjE)
  obtain d where d: "PollDevice sample_client = Inr d" "\<not> named_components (px_Vendor (enrichProfile sample_machine sample_client
      (NewDevicePollResult [] [] [] 0 d [])))" using sample_vendor by (elim exE conjE)
  let ?r = "NewDevicePollResult (c_SiteID sample_cfg) (dc_ID sample_device) (dc_Host sample_device) 7 d ifs"
  have vendor: "\<not> named_components (px_Vendor (enrichProfile sample_machine sample_client ?r))"
    using d(2) enrich_vendor [of ?r "NewDevicePollResult [] [] [] 0 d []"] by (simp add: NewDevicePollResult_def)
  have client: "NewClient (pv_Getenv sample_env) sample_device = None" by code_simp
  have "case NewFilter (pv_Compile sample_env) (dc_InterfaceFilters sample_device) of Inl _ \<Rightarrow> False
      | Inr f \<Rightarrow> length (fl_includes f) = 0 \<and> length (fl_excludes f) = 0" by code_simp
  then have filt: "NewFilter (pv_Compile sample_env) (dc_InterfaceFilters sample_device) = Inr \<lparr>fl_includes = [], fl_excludes = []\<rparr>"
    by (simp split: sum.splits)
  have wire: "wire_id (dc_ID sample_device)" by code_simp
  have env: "pv_ConnectError sample_env = None" "pv_Client sample_env = sample_client" "pv_Machine sample_env = sample_machine"
      "pv_ObservedAt sample_env = 7" by (simp_all add: sample_env_def)
  obtain i where i: "ifs = [i]" using ifs(2) by (auto simp: map_eq_Cons_conv)
  define e where "e = enrichProfile sample_machine sample_client ?r"
  have e: "\<not> named_components (px_Vendor e)" "px_DeviceID e = dc_ID sample_device" "px_ObservedAt e = 7"
      "px_Interfaces e = [\<lparr>ir_Reading = i, ir_Selection = SelectionNone, ir_FilterReason = [], ir_RuleID = []\<rparr>]"
    unfolding e_def by (simp only: vendor not_False_eq_True) (simp_all add: enrich_others NewDevicePollResult_def i)
  have "sample_check ((ApplyToResult \<lparr>fl_includes = [], fl_excludes = []\<rparr> e)\<lparr>px_InventoryRole := dc_Role sample_device\<rparr>)"
    using e wire ifs(2) unfolding i sample_check_def ApplyToResult_def ApplyFilter_def Let_def annotate_def by simp
  then show ?thesis by (simp add: poll_stages_def client env d(1) ifs(1) filt Let_def e_def)
qed

lemma sample_sent:
  assumes "sample_check r"
  shows "deliverable sample_rfc sample_wire (digits n) 5 (poll_context sample_env sample_cfg) r"
proof -
  have "wire_id ''site-1'' \<and> wire_id ''c-1'' \<and> wire_text ''r1''" by code_simp
  then show ?thesis using assms
    by (simp add: deliverable_def sample_check_def poll_context_def sample_env_def sample_cfg_def load_raw_def sample_clock sample_uuid
        good_time_def emitted_at_def IsZero_def)
qed

lemma sample_integral: "machine_ok sample_machine" "integral_replies sample_client"
  by (auto simp: machine_ok_def sample_machine_def integral_replies_def sample_client_def sample_walk_def sample_pdu_def integral_def)

lemma sample_tame: "tame_replies sample_client"
proof -
  have "sample_walk OIDIfSpeed = [] \<and> sample_walk OIDIfName = [] \<and> sample_walk OIDIfIndex = [sample_pdu (OIDIfIndex @ ''.3'') (PInt 3)]
    \<and> sample_walk OIDIfHighSpeed = [sample_pdu (OIDIfHighSpeed @ ''.3'') (PUint32 1000)]
    \<and> sample_walk OIDIfDescr = [sample_pdu (OIDIfDescr @ ''.3'') (PBytes ''Gi0/3'')] \<and> nonblank ''Gi0/3''" 
    "oidIndex OIDIfIndex (pd_Name (sample_pdu (OIDIfIndex @ ''.3'') (PInt 3))) = Inr 3"
    by code_simp+
  then show ?thesis
    by (simp add: tame_replies_def sample_client_def) (simp add: pduToUint64_def pduToString_def sample_pdu_def unavailablePDU_def)
qed

lemma polled_device_accepted_witness:
  "\<exists>r. poll_stages sample_env sample_cfg sample_device = Inr r
     \<and> \<not> (\<exists>m. Ingest.Validate sample_wire (Topic (DeviceTelemetry (digits 4) 5 (poll_context sample_env sample_cfg) r))
            (to_json sample_rfc (DeviceTelemetry (digits 4) 5 (poll_context sample_env sample_cfg) r)) = Inr (MsgDeviceV2 m))"
proof -
  obtain r where r: "poll_stages sample_env sample_cfg sample_device = Inr r" "sample_check r" using sample_polled by blast
  have env: "pv_Machine sample_env = sample_machine" "pv_Client sample_env = sample_client" by (simp_all add: sample_env_def)
  have "\<not> named_components (px_Vendor r)"
    using r(2) by (simp add: sample_check_def)
  with polled_device_accepted [OF r(1), of sample_rfc sample_wire "digits 4" 5] sample_integral sample_sent [OF r(2)] r(1)
  show ?thesis by (auto simp: env)
qed

lemma polled_interfaces_accepted_witness:
  "\<exists>r m. poll_stages sample_env sample_cfg sample_device = Inr r
     \<and> Ingest.Validate sample_wire (Topic (InterfaceTelemetry digits 5 (poll_context sample_env sample_cfg) r ! 0))
         (to_json sample_rfc (InterfaceTelemetry digits 5 (poll_context sample_env sample_cfg) r ! 0)) = Inr (MsgInterfaceV2 m)
     \<and> vi_IfIndex m = 3 \<and> vi_InOctets m = - 1"
proof -
  obtain r where r: "poll_stages sample_env sample_cfg sample_device = Inr r" "sample_check r" using sample_polled by blast
  have tame: "tame_replies (pv_Client sample_env)" using sample_tame by (simp add: sample_env_def)
  obtain i where i: "px_Interfaces r = [i]" "ir_Selection i = Selected" "if_IfIndex (ir_Reading i) = 3" "if_HasCounters (ir_Reading i)"
    "if_InOctets (ir_Reading i) = - 1"
    using r(2) by (auto simp: sample_check_def)
  then have "map ir_Reading (filter published (px_Interfaces r)) = [ir_Reading i]" by (simp add: published_def)
  with polled_interfaces_accepted [OF r(1) tame sample_sent [OF r(2), of "_"] refl refl] r(1) i
  show ?thesis by fastforce
qed

text \<open>A reload between the polls shortens the interval: the one of the first poll still counts.\<close>

definition sample_run :: "(config \<times> time \<times> time) list" where
  "sample_run = [(sample_cfg\<lparr>c_PollInterval := 50\<rparr>, 7, 9), (sample_cfg\<lparr>c_PollInterval := 20\<rparr>, 30, 31),
     (sample_cfg\<lparr>c_PollInterval := 20\<rparr>, 60, 61)]"

lemma poll_schedule_witness:
  "(\<exists>n a. polls_of ''a'' (Run sample_run \<lparr>sd_NextDue = [(''a'', 3), (''b'', 9)], sd_FirstCycle = False\<rparr>) = [(50, 7, 9), (20, n, a)]
      \<and> 9 + 50 \<le> n)
   \<and> (case fst (iteration sample_cfg 7 \<lparr>sd_NextDue = [(''a'', 3), (''b'', 9)], sd_FirstCycle = False\<rparr>) of
        PollNow due \<Rightarrow> sample_device \<in> set due | Sleep _ \<Rightarrow> False)"
proof -
  let ?s = "\<lparr>sd_NextDue = [(''a'', 3), (''b'', 9)], sd_FirstCycle = False\<rparr>"
  have ids: "distinct (map dc_ID (c_Devices sample_cfg)) \<and> sample_device \<in> set (c_Devices sample_cfg) \<and> dc_ID sample_device = ''a''"
    by code_simp
  have ts: "\<forall>(cfg, _, _) \<in> set sample_run. distinct (map dc_ID (c_Devices cfg)) \<and> ''a'' \<in> dc_ID ` set (c_Devices cfg)"
    using ids by (simp add: sample_run_def) (metis image_eqI)
  have polls: "polls_of ''a'' (Run sample_run ?s) = [(50, 7, 9), (20, 60, 61)]" by code_simp
  have step: "case fst (iteration sample_cfg 7 ?s) of PollNow _ \<Rightarrow> True | Sleep _ \<Rightarrow> False" by code_simp
  have "distinct (map fst (sd_NextDue ?s))" by simp
  note poll_schedule [OF ts conjunct1 [OF ids] conjunct1 [OF conjunct2 [OF ids]] this, of 7]
  then show ?thesis using ids polls step by (simp split: next_step.splits)
qed

end
