(* ===== verification/Transform.thy ===== *)
theory Transform
  imports Ingest
begin

text \<open>
  From validated messages to the samples that are stored: \<open>internal/transform/transform.go\<close> and
  \<open>v2.go\<close> of the ingestion service.

  \<open>uuid.NewSHA1\<close> in the project's namespace is the argument \<open>sha\<close>: it gives every name its UUID.
\<close>

section \<open>Identifiers\<close>

definition SiteUUID :: "(string \<Rightarrow> string) \<Rightarrow> string \<Rightarrow> string" where
  "SiteUUID sha siteID = sha (''site:'' @ siteID)"

definition DeviceUUID :: "(string \<Rightarrow> string) \<Rightarrow> string \<Rightarrow> string \<Rightarrow> string" where
  "DeviceUUID sha siteID deviceID = sha (''device:'' @ siteID @ ''/'' @ deviceID)"

definition InterfaceUUID :: "(string \<Rightarrow> string) \<Rightarrow> string \<Rightarrow> int \<Rightarrow> string" where
  "InterfaceUUID sha deviceUUID ifIndex = sha (''interface:'' @ deviceUUID @ ''/'' @ itoa ifIndex)"

definition CollectorUUID :: "(string \<Rightarrow> string) \<Rightarrow> string \<Rightarrow> string \<Rightarrow> string" where
  "CollectorUUID sha siteID collectorID = sha (''collector:'' @ siteID @ ''/'' @ collectorID)"

definition ComponentUUID :: "(string \<Rightarrow> string) \<Rightarrow> string \<Rightarrow> string \<Rightarrow> string \<Rightarrow> string" where
  "ComponentUUID sha deviceUUID knd componentID = sha (knd @ '':'' @ deviceUUID @ ''/'' @ componentID)"

section \<open>Version 1 samples\<close>

record device_sample =
  ds_SiteUUID :: string
  ds_SiteName :: string
  ds_DeviceUUID :: string
  ds_DeviceHostname :: string
  ds_DeviceIPAddress :: string
  ds_MetricName :: string
  ds_Value :: f64
  ds_CollectedAt :: time

record interface_sample =
  is_SiteUUID :: string
  is_SiteName :: string
  is_DeviceUUID :: string
  is_DeviceHostname :: string
  is_InterfaceUUID :: string
  is_IfIndex :: int
  is_InOctets :: "64 word"
  is_OutOctets :: "64 word"
  is_InErrors :: "64 word"
  is_OutErrors :: "64 word"
  is_CollectedAt :: time

definition DeviceSampleFromValidated :: "(string \<Rightarrow> string) \<Rightarrow> device_message \<Rightarrow> device_sample" where
  "DeviceSampleFromValidated sha msg =
     \<lparr>ds_SiteUUID = SiteUUID sha (ms_SiteID msg), ds_SiteName = ms_SiteID msg,
      ds_DeviceUUID = DeviceUUID sha (ms_SiteID msg) (ms_DeviceID msg), ds_DeviceHostname = ms_DeviceID msg,
      ds_DeviceIPAddress = ms_IPAddress msg, ds_MetricName = ms_Metric msg, ds_Value = ms_Value msg,
      ds_CollectedAt = ms_Timestamp msg\<rparr>"

definition InterfaceSampleFromValidated :: "(string \<Rightarrow> string) \<Rightarrow> interface_message \<Rightarrow> interface_sample" where
  "InterfaceSampleFromValidated sha msg =
     (let devUUID = DeviceUUID sha (mi_SiteID msg) (mi_DeviceID msg) in
      \<lparr>is_SiteUUID = SiteUUID sha (mi_SiteID msg), is_SiteName = mi_SiteID msg, is_DeviceUUID = devUUID,
       is_DeviceHostname = mi_DeviceID msg, is_InterfaceUUID = InterfaceUUID sha devUUID (mi_IfIndex msg),
       is_IfIndex = mi_IfIndex msg, is_InOctets = mi_InOctets msg, is_OutOctets = mi_OutOctets msg,
       is_InErrors = mi_InErrors msg, is_OutErrors = mi_OutErrors msg, is_CollectedAt = mi_Timestamp msg\<rparr>)"

section \<open>Version 2 samples\<close>

record device_telemetry_sample =
  ts_EventID :: string
  ts_SiteUUID :: string
  ts_SiteName :: string
  ts_DeviceUUID :: string
  ts_DeviceID :: string
  ts_CollectorID :: string
  ts_ConfigRevision :: string
  ts_ObservedAt :: time
  ts_Hostname :: string
  ts_ManagementAddress :: string
  ts_Role :: string
  ts_SysObjectID :: string
  ts_SysName :: string
  ts_SysDescr :: string
  ts_Vendor :: string
  ts_Model :: string
  ts_Serial :: string
  ts_SNMPVersion :: string
  ts_ProfileName :: string
  ts_Capabilities :: "string list"
  ts_UptimeSeconds :: f64
  ts_CPUUtilizationPct :: "f64 option"
  ts_MemoryUtilizationPct :: "f64 option"
  ts_PrimaryTemperatureC :: "f64 option"
  ts_TemperatureComponents :: "component_v2 list"
  ts_PowerComponents :: "component_v2 list"

record interface_telemetry_sample =
  ti_EventID :: string
  ti_SiteUUID :: string
  ti_SiteName :: string
  ti_DeviceUUID :: string
  ti_DeviceID :: string
  ti_InterfaceUUID :: string
  ti_CollectorID :: string
  ti_ConfigRevision :: string
  ti_ObservedAt :: time
  ti_IfIndex :: int
  ti_Name :: string
  ti_Alias :: string
  ti_Type :: string
  ti_AdminStatus :: string
  ti_OperStatus :: string
  ti_SpeedBps :: "int option"
  ti_InOctets :: "64 word"
  ti_OutOctets :: "64 word"
  ti_InErrors :: "64 word"
  ti_OutErrors :: "64 word"
  ti_InDiscards :: "64 word option"
  ti_OutDiscards :: "64 word option"

record health_sample =
  hs_EventID :: string
  hs_SiteUUID :: string
  hs_SiteName :: string
  hs_DeviceUUID :: string
  hs_DeviceID :: string
  hs_CollectorID :: string
  hs_ConfigRevision :: string
  hs_ObservedAt :: time
  hs_State :: string
  hs_Reason :: string
  hs_PreviousState :: "string option"
  hs_Transition :: string
  hs_FailureCount :: int
  hs_FailureThreshold :: int
  hs_TemperatureC :: "f64 option"
  hs_TemperatureWarningC :: "f64 option"
  hs_TemperaturePolicyRevision :: "string option"
  hs_UpstreamDeviceIDs :: "string list"
  hs_UnavailableUpstreamDeviceIDs :: "string list"
  hs_RootCauseDeviceIDs :: "string list"
  hs_AlertsEnabled :: bool

record heartbeat_sample =
  bs_EventID :: string
  bs_SiteUUID :: string
  bs_SiteName :: string
  bs_CollectorUUID :: string
  bs_CollectorID :: string
  bs_ConfigRevision :: string
  bs_ObservedAt :: time
  bs_Hostname :: string
  bs_Version :: string
  bs_GitCommit :: string
  bs_BuildTime :: string
  bs_UptimeSeconds :: int
  bs_SQLiteQueueDepth :: int
  bs_MemoryUsageBytes :: int
  bs_GoroutineCount :: int

definition DeviceTelemetryFromValidated :: "(string \<Rightarrow> string) \<Rightarrow> device_v2 \<Rightarrow> device_telemetry_sample" where
  "DeviceTelemetryFromValidated sha msg =
     (let e = vd_Envelope msg in
      \<lparr>ts_EventID = ve_EventID e, ts_SiteUUID = SiteUUID sha (ve_SiteID e), ts_SiteName = ve_SiteID e,
       ts_DeviceUUID = DeviceUUID sha (ve_SiteID e) (ve_DeviceID e), ts_DeviceID = ve_DeviceID e,
       ts_CollectorID = ve_CollectorID e, ts_ConfigRevision = ve_ConfigRevision e, ts_ObservedAt = ve_ObservedAt e,
       ts_Hostname = vd_Hostname msg, ts_ManagementAddress = vd_ManagementAddress msg, ts_Role = vd_Role msg,
       ts_SysObjectID = vd_SysObjectID msg, ts_SysName = vd_SysName msg, ts_SysDescr = vd_SysDescr msg,
       ts_Vendor = vd_Vendor msg, ts_Model = vd_Model msg, ts_Serial = vd_Serial msg,
       ts_SNMPVersion = vd_SNMPVersion msg, ts_ProfileName = vd_ProfileName msg,
       ts_Capabilities = vd_Capabilities msg, ts_UptimeSeconds = vd_UptimeSeconds msg,
       ts_CPUUtilizationPct = vd_CPUUtilizationPct msg, ts_MemoryUtilizationPct = vd_MemoryUtilizationPct msg,
       ts_PrimaryTemperatureC = vd_PrimaryTemperatureC msg,
       ts_TemperatureComponents = vd_TemperatureComponents msg, ts_PowerComponents = vd_PowerComponents msg\<rparr>)"

definition InterfaceTelemetryFromValidated :: "(string \<Rightarrow> string) \<Rightarrow> interface_v2 \<Rightarrow> interface_telemetry_sample" where
  "InterfaceTelemetryFromValidated sha msg =
     (let e = vi_Envelope msg; devUUID = DeviceUUID sha (ve_SiteID e) (ve_DeviceID e) in
      \<lparr>ti_EventID = ve_EventID e, ti_SiteUUID = SiteUUID sha (ve_SiteID e), ti_SiteName = ve_SiteID e,
       ti_DeviceUUID = devUUID, ti_DeviceID = ve_DeviceID e,
       ti_InterfaceUUID = InterfaceUUID sha devUUID (vi_IfIndex msg), ti_CollectorID = ve_CollectorID e,
       ti_ConfigRevision = ve_ConfigRevision e, ti_ObservedAt = ve_ObservedAt e, ti_IfIndex = vi_IfIndex msg,
       ti_Name = vi_Name msg, ti_Alias = vi_Alias msg, ti_Type = vi_Type msg, ti_AdminStatus = vi_AdminStatus msg,
       ti_OperStatus = vi_OperStatus msg, ti_SpeedBps = vi_SpeedBps msg, ti_InOctets = vi_InOctets msg,
       ti_OutOctets = vi_OutOctets msg, ti_InErrors = vi_InErrors msg, ti_OutErrors = vi_OutErrors msg,
       ti_InDiscards = vi_InDiscards msg, ti_OutDiscards = vi_OutDiscards msg\<rparr>)"

definition HealthFromValidated :: "(string \<Rightarrow> string) \<Rightarrow> health_v2 \<Rightarrow> health_sample" where
  "HealthFromValidated sha msg =
     (let e = vh_Envelope msg in
      \<lparr>hs_EventID = ve_EventID e, hs_SiteUUID = SiteUUID sha (ve_SiteID e), hs_SiteName = ve_SiteID e,
       hs_DeviceUUID = DeviceUUID sha (ve_SiteID e) (ve_DeviceID e), hs_DeviceID = ve_DeviceID e,
       hs_CollectorID = ve_CollectorID e, hs_ConfigRevision = ve_ConfigRevision e, hs_ObservedAt = ve_ObservedAt e,
       hs_State = vh_State msg, hs_Reason = vh_Reason msg, hs_PreviousState = vh_PreviousState msg,
       hs_Transition = vh_Transition msg, hs_FailureCount = vh_FailureCount msg,
       hs_FailureThreshold = vh_FailureThreshold msg, hs_TemperatureC = vh_TemperatureC msg,
       hs_TemperatureWarningC = vh_TemperatureWarningC msg,
       hs_TemperaturePolicyRevision = vh_TemperaturePolicyRevision msg,
       hs_UpstreamDeviceIDs = vh_UpstreamDeviceIDs msg,
       hs_UnavailableUpstreamDeviceIDs = vh_UnavailableUpstreamDeviceIDs msg,
       hs_RootCauseDeviceIDs = vh_RootCauseDeviceIDs msg, hs_AlertsEnabled = vh_AlertsEnabled msg\<rparr>)"

definition HeartbeatFromValidated :: "(string \<Rightarrow> string) \<Rightarrow> heartbeat_v2 \<Rightarrow> heartbeat_sample" where
  "HeartbeatFromValidated sha msg =
     (let e = vb_Envelope msg in
      \<lparr>bs_EventID = ve_EventID e, bs_SiteUUID = SiteUUID sha (ve_SiteID e), bs_SiteName = ve_SiteID e,
       bs_CollectorUUID = CollectorUUID sha (ve_SiteID e) (ve_CollectorID e), bs_CollectorID = ve_CollectorID e,
       bs_ConfigRevision = ve_ConfigRevision e, bs_ObservedAt = ve_ObservedAt e, bs_Hostname = vb_Hostname msg,
       bs_Version = vb_Version msg, bs_GitCommit = vb_GitCommit msg, bs_BuildTime = vb_BuildTime msg,
       bs_UptimeSeconds = vb_UptimeSeconds msg, bs_SQLiteQueueDepth = vb_SQLiteQueueDepth msg,
       bs_MemoryUsageBytes = vb_MemoryUsageBytes msg, bs_GoroutineCount = vb_GoroutineCount msg\<rparr>)"

end
