(* ===== verification/IngestStore.thy ===== *)
theory IngestStore
  imports Transform "HOL-Library.AList"
begin

text \<open>
  The persistence of the ingestion service: \<open>internal/store/store.go\<close> and \<open>v2.go\<close>, with the tables of
  \<open>database/migrations/\<close>, and \<open>internal/handler/handler.go\<close>.

  A table is a map from its unique key to the row; the history tables keep the order of insertion.
  A statement fails when a value does not fit its column: \<open>VARCHAR(n)\<close>, \<open>INTEGER\<close>, \<open>BIGINT\<close>,
  \<open>NOT NULL\<close>, \<open>inet\<close>.  PostgreSQL checks the row an \<open>INSERT\<close> proposes before it looks for a conflict.
  A text with a NUL byte is refused.  Times are stored in microseconds.  The rest of the
  environment is a \<open>tx_env\<close> for each transaction: it works, it fails at some point and is rolled
  back, or its commit takes effect but the answer is lost.  The columns filled by
  \<open>NOW()\<close> are left out, as is the collision of two UUIDs made by \<open>uuid.NewSHA1\<close>.
\<close>

section \<open>Rows and tables\<close>

record event_row =
  er_type :: string
  er_site :: string
  er_collector :: "string option"
  er_device :: "string option"
  er_observed :: time

record device_row =
  dr_site_id :: string
  dr_hostname :: string
  dr_ip_address :: string
  dr_vendor :: string
  dr_model :: string
  dr_snmp_version :: string
  dr_status :: string
  dr_last_seen :: "time option"
  dr_serial :: "string option"
  dr_sys_object_id :: "string option"
  dr_sys_name :: "string option"
  dr_sys_descr :: "string option"
  dr_profile_name :: "string option"
  dr_capabilities :: "string list option"
  dr_collector_id :: "string option"
  dr_config_revision :: "string option"
  dr_last_observed_at :: "time option"
  dr_role :: string
  dr_inventory_device_id :: string

record iface_row =
  fr_id :: string
  fr_name :: "string option"
  fr_description :: "string option"
  fr_admin_status :: "string option"
  fr_oper_status :: "string option"
  fr_speed_bps :: "int option"
  fr_if_alias :: "string option"
  fr_if_type :: "string option"
  fr_last_observed_at :: "time option"

record reading_row =
  rw_value :: "f64 option"
  rw_unit :: string
  rw_status :: string
  rw_event_id :: string

record health_row =
  hr_device_id :: string
  hr_sample :: health_sample
  hr_observed_at :: time

record heartbeat_row =
  br_collector_uuid :: string
  br_sample :: heartbeat_sample
  br_observed_at :: time

type_synonym counters = "64 word \<times> 64 word \<times> 64 word \<times> 64 word \<times> 64 word option \<times> 64 word option"

record database =
  db_events :: "(string, event_row) gomap"
  db_sites :: "(string, string) gomap"
  db_devices :: "(string, device_row) gomap"
  db_interfaces :: "(string \<times> int, iface_row) gomap"
  db_metric_types :: "(string, string) gomap"
  db_metric_samples :: "(string \<times> string \<times> time, f64) gomap"
  db_interface_samples :: "(string \<times> time, counters) gomap"
  db_temp_components :: "(string \<times> string, string \<times> string \<times> string) gomap"
  db_temp_readings :: "(string \<times> string \<times> time, reading_row) gomap"
  db_power_components :: "(string \<times> string, string \<times> string \<times> string) gomap"
  db_power_readings :: "(string \<times> string \<times> time, reading_row) gomap"
  db_health_history :: "(string, health_row) gomap"
  db_health_current :: "(string, health_row) gomap"
  db_collectors :: "(string \<times> string, string) gomap"
  db_heartbeat_history :: "(string, heartbeat_row) gomap"
  db_collector_status :: "(string, heartbeat_row) gomap"

section \<open>Statements\<close>

datatype sql_error = ErrUnknownMetricType | DbError

type_synonym 'a sql = "database \<Rightarrow> sql_error + ('a \<times> database)"

definition sql_return :: "'a \<Rightarrow> 'a sql" where
  "sql_return x db = Inr (x, db)"

definition sql_bind :: "'a sql \<Rightarrow> ('a \<Rightarrow> 'b sql) \<Rightarrow> 'b sql" where
  "sql_bind m f db = (case m db of Inl e \<Rightarrow> Inl e | Inr (x, db') \<Rightarrow> f x db')"

definition sql_then :: "unit sql \<Rightarrow> 'b sql \<Rightarrow> 'b sql" where
  "sql_then m k = sql_bind m (\<lambda>_. k)"

definition exec :: "bool \<Rightarrow> (database \<Rightarrow> database) \<Rightarrow> unit sql" where
  "exec fits upd db = (if fits then Inr ((), upd db) else Inl DbError)"

fun sql_each :: "('a \<Rightarrow> unit sql) \<Rightarrow> 'a list \<Rightarrow> unit sql" where
  "sql_each f [] = sql_return ()"
| "sql_each f (x # xs) = sql_then (f x) (sql_each f xs)"

definition pg_time :: "time \<Rightarrow> time" where
  "pg_time t = t div 1000 * 1000"

definition text_ok :: "string \<Rightarrow> bool" where
  "text_ok s \<longleftrightarrow> CHR 0x00 \<notin> set s"

definition runes :: "string \<Rightarrow> nat" where
  "runes s = length (filter (\<lambda>c. \<not> (0x80 \<le> (of_char c :: nat) \<and> (of_char c :: nat) < 0xC0)) s)"

definition varchar :: "nat \<Rightarrow> string \<Rightarrow> bool" where
  "varchar n s \<longleftrightarrow> text_ok s \<and> runes s \<le> n"

definition varchar_opt :: "nat \<Rightarrow> string option \<Rightarrow> bool" where
  "varchar_opt n v \<longleftrightarrow> (case v of None \<Rightarrow> True | Some s \<Rightarrow> varchar n s)"

definition int4 :: "int \<Rightarrow> bool" where
  "int4 i \<longleftrightarrow> - (2 ^ 31) \<le> i \<and> i < 2 ^ 31"

definition int8_word :: "64 word \<Rightarrow> bool" where
  "int8_word w \<longleftrightarrow> uint w < 2 ^ 63"

definition int8_word_opt :: "64 word option \<Rightarrow> bool" where
  "int8_word_opt v \<longleftrightarrow> (case v of None \<Rightarrow> True | Some w \<Rightarrow> int8_word w)"

text \<open>\<open>NULLIF(s, '')\<close>, and \<open>ON CONFLICT DO NOTHING\<close>.\<close>

definition nullif :: "string \<Rightarrow> string option" where
  "nullif s = (if s = [] then None else Some s)"

definition insert_new :: "'k \<Rightarrow> 'v \<Rightarrow> ('k, 'v) gomap \<Rightarrow> ('k, 'v) gomap" where
  "insert_new k v m = (if map_of m k = None then m @ [(k, v)] else m)"

definition upsertSite :: "string \<Rightarrow> string \<Rightarrow> unit sql" where
  "upsertSite i name = exec (varchar 100 name) (\<lambda>db. db\<lparr>db_sites := AList.update i name (db_sites db)\<rparr>)"

record store_env =
  sv_sha :: "string \<Rightarrow> string"
  sv_inet :: "string \<Rightarrow> string option"

definition inet_of :: "store_env \<Rightarrow> string \<Rightarrow> string option" where
  "inet_of sv s = sv_inet sv (if s = [] then ''0.0.0.0'' else s)"

definition upsertDevice :: "store_env \<Rightarrow> string \<Rightarrow> string \<Rightarrow> string \<Rightarrow> string \<Rightarrow> time \<Rightarrow> unit sql" where
  "upsertDevice sv i siteID hostname ipAddress lastSeen =
     exec (varchar 255 hostname \<and> inet_of sv ipAddress \<noteq> None)
       (\<lambda>db. let ip = the (inet_of sv ipAddress) in
          db\<lparr>db_devices := AList.update i
            (case map_of (db_devices db) i of
               None \<Rightarrow> \<lparr>dr_site_id = siteID, dr_hostname = hostname, dr_ip_address = ip, dr_vendor = ''unknown'',
                 dr_model = ''unknown'', dr_snmp_version = ''2c'', dr_status = ''online'',
                 dr_last_seen = Some (pg_time lastSeen), dr_serial = None, dr_sys_object_id = None,
                 dr_sys_name = None, dr_sys_descr = None, dr_profile_name = None, dr_capabilities = None,
                 dr_collector_id = None, dr_config_revision = None, dr_last_observed_at = None,
                 dr_role = [], dr_inventory_device_id = []\<rparr>
             | Some d \<Rightarrow> d\<lparr>dr_last_seen := Some (pg_time lastSeen), dr_status := ''online'', dr_hostname := hostname,
                 dr_ip_address := (if ipAddress \<noteq> [] then ip else dr_ip_address d)\<rparr>)
            (db_devices db)\<rparr>)"

definition upsertInterface :: "string \<Rightarrow> string \<Rightarrow> int \<Rightarrow> string sql" where
  "upsertInterface i deviceID ifIndex =
     sql_then (exec (int4 ifIndex) (\<lambda>db. db\<lparr>db_interfaces :=
         (let name = ''ifIndex-'' @ itoa ifIndex in
          AList.update (deviceID, ifIndex)
            (case map_of (db_interfaces db) (deviceID, ifIndex) of
               None \<Rightarrow> \<lparr>fr_id = i, fr_name = Some name, fr_description = None, fr_admin_status = None,
                 fr_oper_status = None, fr_speed_bps = None, fr_if_alias = None, fr_if_type = None,
                 fr_last_observed_at = None\<rparr>
             | Some f \<Rightarrow> f\<lparr>fr_name := (case fr_name f of None \<Rightarrow> Some name | Some n \<Rightarrow> Some n)\<rparr>)
            (db_interfaces db))\<rparr>))
       (\<lambda>db. Inr (fr_id (the (map_of (db_interfaces db) (deviceID, ifIndex))), db))"

definition lookupMetricType :: "string \<Rightarrow> string sql" where
  "lookupMetricType name db = (case map_of (db_metric_types db) name of
      None \<Rightarrow> if text_ok name then Inl ErrUnknownMetricType else Inl DbError
    | Some i \<Rightarrow> Inr (i, db))"

datatype result = ResultInserted | ResultDuplicate

definition PersistDeviceSample :: "store_env \<Rightarrow> device_sample \<Rightarrow> result sql" where
  "PersistDeviceSample sv s =
     sql_then (upsertSite (ds_SiteUUID s) (ds_SiteName s))
     (sql_then (upsertDevice sv (ds_DeviceUUID s) (ds_SiteUUID s) (ds_DeviceHostname s) (ds_DeviceIPAddress s) (ds_CollectedAt s))
     (sql_bind (lookupMetricType (ds_MetricName s)) (\<lambda>metricTypeID db.
        let key = (ds_DeviceUUID s, metricTypeID, pg_time (ds_CollectedAt s)) in
        Inr (if map_of (db_metric_samples db) key = None then ResultInserted else ResultDuplicate,
             db\<lparr>db_metric_samples := insert_new key (ds_Value s) (db_metric_samples db)\<rparr>))))"

definition insert_interface_sample :: "string \<Rightarrow> time \<Rightarrow> counters \<Rightarrow> result sql" where
  "insert_interface_sample ifaceID t c = (\<lambda>db. case c of (inO, outO, inE, outE, inD, outD) \<Rightarrow>
     if int8_word inO \<and> int8_word outO \<and> int8_word inE \<and> int8_word outE \<and> int8_word_opt inD \<and> int8_word_opt outD
     then Inr (if map_of (db_interface_samples db) (ifaceID, pg_time t) = None then ResultInserted else ResultDuplicate,
               db\<lparr>db_interface_samples := insert_new (ifaceID, pg_time t) c (db_interface_samples db)\<rparr>)
     else Inl DbError)"

definition PersistInterfaceSample :: "store_env \<Rightarrow> interface_sample \<Rightarrow> result sql" where
  "PersistInterfaceSample sv s =
     sql_then (upsertSite (is_SiteUUID s) (is_SiteName s))
     (sql_then (upsertDevice sv (is_DeviceUUID s) (is_SiteUUID s) (is_DeviceHostname s) [] (is_CollectedAt s))
     (sql_bind (upsertInterface (is_InterfaceUUID s) (is_DeviceUUID s) (is_IfIndex s)) (\<lambda>ifaceID.
        insert_interface_sample ifaceID (is_CollectedAt s)
          (is_InOctets s, is_OutOctets s, is_InErrors s, is_OutErrors s, None, None))))"

section \<open>Version 2\<close>

definition insertIngestedEvent :: "string \<Rightarrow> string \<Rightarrow> string \<Rightarrow> string \<Rightarrow> string \<Rightarrow> time \<Rightarrow> bool sql" where
  "insertIngestedEvent eventID eventType siteID collectorID deviceID observedAt db =
     (if varchar 40 eventType \<and> varchar 100 siteID \<and> varchar_opt 100 (nullif collectorID) \<and> varchar_opt 100 (nullif deviceID)
      then Inr (map_of (db_events db) eventID \<noteq> None,
        db\<lparr>db_events := insert_new eventID \<lparr>er_type = eventType, er_site = siteID, er_collector = nullif collectorID,
             er_device = nullif deviceID, er_observed = pg_time observedAt\<rparr> (db_events db)\<rparr>)
      else Inl DbError)"

text \<open>\<open>last_observed_at < EXCLUDED.last_observed_at\<close> is not true of a null.\<close>

definition newer :: "time option \<Rightarrow> time \<Rightarrow> bool" where
  "newer old t = (case old of None \<Rightarrow> False | Some u \<Rightarrow> u < t)"

definition greatest :: "time option \<Rightarrow> time \<Rightarrow> time option" where
  "greatest old t = (case old of None \<Rightarrow> Some t | Some u \<Rightarrow> Some (max u t))"

definition merge_device :: "device_row \<Rightarrow> device_row \<Rightarrow> time \<Rightarrow> bool \<Rightarrow> device_row" where
  "merge_device d x t hasIP =
     (if newer (dr_last_observed_at d) t
      then d\<lparr>dr_last_seen := dr_last_seen x, dr_status := ''online'', dr_hostname := dr_hostname x,
        dr_ip_address := (if hasIP then dr_ip_address x else dr_ip_address d), dr_role := dr_role x,
        dr_inventory_device_id := dr_inventory_device_id x,
        dr_vendor := (if dr_vendor x \<noteq> ''unknown'' then dr_vendor x else dr_vendor d),
        dr_model := (if dr_model x \<noteq> ''unknown'' then dr_model x else dr_model d),
        dr_snmp_version := dr_snmp_version x,
        dr_serial := (case dr_serial x of None \<Rightarrow> dr_serial d | Some v \<Rightarrow> Some v),
        dr_sys_object_id := dr_sys_object_id x, dr_sys_name := dr_sys_name x, dr_sys_descr := dr_sys_descr x,
        dr_profile_name := dr_profile_name x, dr_capabilities := dr_capabilities x,
        dr_collector_id := dr_collector_id x, dr_config_revision := dr_config_revision x\<rparr>
      else d)\<lparr>dr_last_observed_at := greatest (dr_last_observed_at d) t\<rparr>"

definition device_fits :: "store_env \<Rightarrow> string \<Rightarrow> string \<Rightarrow> device_telemetry_sample \<Rightarrow> bool" where
  "device_fits sv vendor model s \<longleftrightarrow>
     varchar 255 (ts_Hostname s) \<and> inet_of sv (ts_ManagementAddress s) \<noteq> None \<and> varchar 50 vendor \<and> varchar 100 model
     \<and> varchar 20 (ts_SNMPVersion s) \<and> varchar_opt 255 (nullif (ts_Serial s)) \<and> varchar 255 (ts_SysObjectID s)
     \<and> varchar 255 (ts_SysName s) \<and> text_ok (ts_SysDescr s) \<and> varchar 50 (ts_ProfileName s)
     \<and> list_all text_ok (ts_Capabilities s) \<and> varchar 100 (ts_CollectorID s) \<and> varchar 128 (ts_ConfigRevision s)
     \<and> nullif (ts_Role s) \<noteq> None \<and> text_ok (ts_Role s) \<and> nullif (ts_DeviceID s) \<noteq> None \<and> varchar 100 (ts_DeviceID s)"

definition upsertDeviceV2 :: "store_env \<Rightarrow> device_telemetry_sample \<Rightarrow> unit sql" where
  "upsertDeviceV2 sv s =
     (let vendor = (if ts_Vendor s = [] then ''unknown'' else ts_Vendor s);
          model = (if ts_Model s = [] then ''unknown'' else ts_Model s);
          t = pg_time (ts_ObservedAt s) in
      exec (device_fits sv vendor model s)
        (\<lambda>db. let x = \<lparr>dr_site_id = ts_SiteUUID s, dr_hostname = ts_Hostname s,
              dr_ip_address = the (inet_of sv (ts_ManagementAddress s)), dr_vendor = vendor, dr_model = model,
              dr_snmp_version = ts_SNMPVersion s, dr_status = ''online'', dr_last_seen = Some t,
              dr_serial = nullif (ts_Serial s), dr_sys_object_id = Some (ts_SysObjectID s),
              dr_sys_name = Some (ts_SysName s), dr_sys_descr = Some (ts_SysDescr s),
              dr_profile_name = Some (ts_ProfileName s), dr_capabilities = Some (ts_Capabilities s),
              dr_collector_id = Some (ts_CollectorID s), dr_config_revision = Some (ts_ConfigRevision s),
              dr_last_observed_at = Some t, dr_role = ts_Role s, dr_inventory_device_id = ts_DeviceID s\<rparr> in
           db\<lparr>db_devices := AList.update (ts_DeviceUUID s)
             (case map_of (db_devices db) (ts_DeviceUUID s) of
                None \<Rightarrow> x | Some d \<Rightarrow> merge_device d x t (ts_ManagementAddress s \<noteq> []))
             (db_devices db)\<rparr>))"

definition interface_fits_row :: "interface_telemetry_sample \<Rightarrow> bool" where
  "interface_fits_row s \<longleftrightarrow> int4 (ti_IfIndex s) \<and> varchar 255 (ti_Name s) \<and> varchar_opt 255 (nullif (ti_Alias s))
     \<and> varchar 20 (ti_AdminStatus s) \<and> varchar 20 (ti_OperStatus s) \<and> varchar_opt 100 (nullif (ti_Type s))"

definition merge_interface :: "iface_row \<Rightarrow> iface_row \<Rightarrow> time \<Rightarrow> iface_row" where
  "merge_interface f x t =
     (if newer (fr_last_observed_at f) t
      then f\<lparr>fr_name := fr_name x,
        fr_description := (case fr_description x of None \<Rightarrow> fr_description f | Some v \<Rightarrow> Some v),
        fr_admin_status := fr_admin_status x, fr_oper_status := fr_oper_status x, fr_speed_bps := fr_speed_bps x,
        fr_if_alias := fr_if_alias x, fr_if_type := fr_if_type x\<rparr>
      else f)\<lparr>fr_last_observed_at := greatest (fr_last_observed_at f) t\<rparr>"

definition upsertInterfaceV2 :: "interface_telemetry_sample \<Rightarrow> string sql" where
  "upsertInterfaceV2 s =
     (let key = (ti_DeviceUUID s, ti_IfIndex s); t = pg_time (ti_ObservedAt s);
          x = \<lparr>fr_id = ti_InterfaceUUID s, fr_name = Some (ti_Name s), fr_description = nullif (ti_Alias s),
            fr_admin_status = Some (ti_AdminStatus s), fr_oper_status = Some (ti_OperStatus s),
            fr_speed_bps = ti_SpeedBps s, fr_if_alias = nullif (ti_Alias s), fr_if_type = nullif (ti_Type s),
            fr_last_observed_at = Some t\<rparr> in
      sql_then (exec (interface_fits_row s) (\<lambda>db. db\<lparr>db_interfaces := AList.update key
          (case map_of (db_interfaces db) key of None \<Rightarrow> x | Some f \<Rightarrow> merge_interface f x t) (db_interfaces db)\<rparr>))
        (\<lambda>db. Inr (fr_id (the (map_of (db_interfaces db) key)), db)))"

definition upsertCollector :: "string \<Rightarrow> string \<Rightarrow> string \<Rightarrow> unit sql" where
  "upsertCollector i siteID collectorID = exec (varchar 100 collectorID)
     (\<lambda>db. db\<lparr>db_collectors := insert_new (siteID, collectorID) i (db_collectors db)\<rparr>)"

definition insertMetricSample :: "string \<Rightarrow> time \<Rightarrow> string \<times> f64 option \<Rightarrow> unit sql" where
  "insertMetricSample deviceID observedAt m = (case m of
      (_, None) \<Rightarrow> sql_return ()
    | (name, Some v) \<Rightarrow> sql_bind (lookupMetricType name) (\<lambda>metricTypeID.
        exec True (\<lambda>db. db\<lparr>db_metric_samples :=
          insert_new (deviceID, metricTypeID, pg_time observedAt) v (db_metric_samples db)\<rparr>)))"

definition component_row_fits :: "component_v2 \<Rightarrow> bool" where
  "component_row_fits c \<longleftrightarrow> varchar 128 (vc_ComponentID c) \<and> varchar 255 (vc_Name c) \<and> varchar 64 (vc_Index c)"

definition reading_of :: "string \<Rightarrow> component_v2 \<Rightarrow> reading_row" where
  "reading_of eventID c = \<lparr>rw_value = vc_Value c, rw_unit = vc_Unit c, rw_status = vc_Status c, rw_event_id = eventID\<rparr>"

definition reading_fits :: "component_v2 \<Rightarrow> bool" where
  "reading_fits c \<longleftrightarrow> varchar 128 (vc_ComponentID c) \<and> varchar 25 (vc_Unit c) \<and> varchar 50 (vc_Status c)"

text \<open>\<open>ON CONFLICT DO UPDATE SET name, component_index\<close>: the row keeps its own id.\<close>

definition put_component :: "string \<Rightarrow> string \<times> string \<Rightarrow> component_v2 \<Rightarrow> (string \<times> string, string \<times> string \<times> string) gomap
    \<Rightarrow> (string \<times> string, string \<times> string \<times> string) gomap" where
  "put_component i key c m = AList.update key
     ((case map_of m key of None \<Rightarrow> i | Some (j, _, _) \<Rightarrow> j), vc_Name c, vc_Index c) m"

definition upsertTempComponent :: "store_env \<Rightarrow> string \<Rightarrow> component_v2 \<Rightarrow> unit sql" where
  "upsertTempComponent sv deviceID c = exec (component_row_fits c)
     (\<lambda>db. db\<lparr>db_temp_components := put_component (ComponentUUID (sv_sha sv) deviceID ''temperature'' (vc_ComponentID c))
        (deviceID, vc_ComponentID c) c (db_temp_components db)\<rparr>)"

definition insertTempReading :: "string \<Rightarrow> string \<Rightarrow> component_v2 \<Rightarrow> unit sql" where
  "insertTempReading deviceID eventID c = exec (reading_fits c)
     (\<lambda>db. db\<lparr>db_temp_readings := insert_new (deviceID, vc_ComponentID c, pg_time (vc_ObservedAt c))
        (reading_of eventID c) (db_temp_readings db)\<rparr>)"

definition upsertPowerComponent :: "store_env \<Rightarrow> string \<Rightarrow> component_v2 \<Rightarrow> unit sql" where
  "upsertPowerComponent sv deviceID c = exec (component_row_fits c)
     (\<lambda>db. db\<lparr>db_power_components := put_component (ComponentUUID (sv_sha sv) deviceID ''power'' (vc_ComponentID c))
        (deviceID, vc_ComponentID c) c (db_power_components db)\<rparr>)"

definition insertPowerReading :: "string \<Rightarrow> string \<Rightarrow> component_v2 \<Rightarrow> unit sql" where
  "insertPowerReading deviceID eventID c = exec (reading_fits c)
     (\<lambda>db. db\<lparr>db_power_readings := insert_new (deviceID, vc_ComponentID c, pg_time (vc_ObservedAt c))
        (reading_of eventID c) (db_power_readings db)\<rparr>)"

text \<open>A duplicate commits nothing but the transaction's end.\<close>

definition once :: "bool sql \<Rightarrow> unit sql \<Rightarrow> result sql" where
  "once event rest = sql_bind event (\<lambda>dup.
     if dup then sql_return ResultDuplicate else sql_then rest (sql_return ResultInserted))"

definition PersistDeviceTelemetry :: "store_env \<Rightarrow> device_telemetry_sample \<Rightarrow> result sql" where
  "PersistDeviceTelemetry sv s = once
     (insertIngestedEvent (ts_EventID s) ''device_telemetry'' (ts_SiteName s) (ts_CollectorID s) (ts_DeviceID s) (ts_ObservedAt s))
     (sql_then (upsertSite (ts_SiteUUID s) (ts_SiteName s))
     (sql_then (upsertDeviceV2 sv s)
     (sql_then (sql_each (insertMetricSample (ts_DeviceUUID s) (ts_ObservedAt s))
        [(''uptime_seconds'', Some (ts_UptimeSeconds s)), (''cpu_utilization_pct'', ts_CPUUtilizationPct s),
         (''memory_utilization_pct'', ts_MemoryUtilizationPct s), (''primary_temperature_c'', ts_PrimaryTemperatureC s)])
     (sql_then (sql_each (\<lambda>c. sql_then (upsertTempComponent sv (ts_DeviceUUID s) c)
          (insertTempReading (ts_DeviceUUID s) (ts_EventID s) c)) (ts_TemperatureComponents s))
       (sql_each (\<lambda>c. sql_then (upsertPowerComponent sv (ts_DeviceUUID s) c)
          (insertPowerReading (ts_DeviceUUID s) (ts_EventID s) c)) (ts_PowerComponents s))))))"

definition PersistInterfaceTelemetry :: "store_env \<Rightarrow> interface_telemetry_sample \<Rightarrow> result sql" where
  "PersistInterfaceTelemetry sv s = once
     (insertIngestedEvent (ti_EventID s) ''interface_telemetry'' (ti_SiteName s) (ti_CollectorID s) (ti_DeviceID s) (ti_ObservedAt s))
     (sql_then (upsertSite (ti_SiteUUID s) (ti_SiteName s))
     (sql_then (upsertDevice sv (ti_DeviceUUID s) (ti_SiteUUID s) (ti_DeviceID s) [] (ti_ObservedAt s))
     (sql_bind (sql_bind (upsertInterfaceV2 s) (\<lambda>ifaceID. insert_interface_sample ifaceID (ti_ObservedAt s)
        (ti_InOctets s, ti_OutOctets s, ti_InErrors s, ti_OutErrors s, ti_InDiscards s, ti_OutDiscards s)))
       (\<lambda>_. sql_return ()))))"

definition health_fits :: "health_sample \<Rightarrow> bool" where
  "health_fits s \<longleftrightarrow> varchar 20 (hs_State s) \<and> varchar 40 (hs_Reason s) \<and> varchar 20 (hs_Transition s)
     \<and> varchar_opt 20 (hs_PreviousState s) \<and> int4 (hs_FailureCount s) \<and> int4 (hs_FailureThreshold s)
     \<and> varchar_opt 128 (hs_TemperaturePolicyRevision s) \<and> list_all text_ok (hs_UpstreamDeviceIDs s)
     \<and> list_all text_ok (hs_UnavailableUpstreamDeviceIDs s) \<and> list_all text_ok (hs_RootCauseDeviceIDs s)
     \<and> varchar 128 (hs_ConfigRevision s)"

text \<open>An \<open>INSERT\<close> without a conflict clause fails on a key that is there.\<close>

definition append_history :: "bool \<Rightarrow> (database \<Rightarrow> (string, 'r) gomap) \<Rightarrow> ((string, 'r) gomap \<Rightarrow> database \<Rightarrow> database)
    \<Rightarrow> string \<Rightarrow> 'r \<Rightarrow> unit sql" where
  "append_history fits tab set_tab eventID row db =
     (if fits \<and> map_of (tab db) eventID = None then Inr ((), set_tab (tab db @ [(eventID, row)]) db) else Inl DbError)"

definition health_row_of :: "health_sample \<Rightarrow> health_row" where
  "health_row_of s = \<lparr>hr_device_id = hs_DeviceUUID s, hr_sample = s, hr_observed_at = pg_time (hs_ObservedAt s)\<rparr>"

definition put_current_health :: "health_row \<Rightarrow> database \<Rightarrow> database" where
  "put_current_health row db = db\<lparr>db_health_current :=
     (case map_of (db_health_current db) (hr_device_id row) of
        None \<Rightarrow> AList.update (hr_device_id row) row (db_health_current db)
      | Some old \<Rightarrow> if hr_observed_at old \<le> hr_observed_at row
          then AList.update (hr_device_id row) row (db_health_current db) else db_health_current db)\<rparr>"

definition PersistHealth :: "store_env \<Rightarrow> health_sample \<Rightarrow> result sql" where
  "PersistHealth sv s = once
     (insertIngestedEvent (hs_EventID s) ''health_state'' (hs_SiteName s) (hs_CollectorID s) (hs_DeviceID s) (hs_ObservedAt s))
     (sql_then (upsertSite (hs_SiteUUID s) (hs_SiteName s))
     (sql_then (upsertDevice sv (hs_DeviceUUID s) (hs_SiteUUID s) (hs_DeviceID s) [] (hs_ObservedAt s))
     (sql_then (append_history (health_fits s) db_health_history (\<lambda>h db. db\<lparr>db_health_history := h\<rparr>)
        (hs_EventID s) (health_row_of s))
       (exec (health_fits s) (put_current_health (health_row_of s))))))"

definition heartbeat_row_fits :: "heartbeat_sample \<Rightarrow> bool" where
  "heartbeat_row_fits s \<longleftrightarrow> varchar 100 (bs_CollectorID s) \<and> varchar 255 (bs_Hostname s) \<and> varchar 128 (bs_Version s)
     \<and> varchar 128 (bs_GitCommit s) \<and> varchar 128 (bs_BuildTime s) \<and> int4 (bs_GoroutineCount s)
     \<and> varchar 128 (bs_ConfigRevision s)"

definition heartbeat_row_of :: "heartbeat_sample \<Rightarrow> heartbeat_row" where
  "heartbeat_row_of s = \<lparr>br_collector_uuid = bs_CollectorUUID s, br_sample = s, br_observed_at = pg_time (bs_ObservedAt s)\<rparr>"

definition put_collector_status :: "heartbeat_row \<Rightarrow> database \<Rightarrow> database" where
  "put_collector_status row db = db\<lparr>db_collector_status :=
     (case map_of (db_collector_status db) (br_collector_uuid row) of
        None \<Rightarrow> AList.update (br_collector_uuid row) row (db_collector_status db)
      | Some old \<Rightarrow> if br_observed_at old < br_observed_at row
          then AList.update (br_collector_uuid row) row (db_collector_status db) else db_collector_status db)\<rparr>"

definition PersistHeartbeat :: "store_env \<Rightarrow> heartbeat_sample \<Rightarrow> result sql" where
  "PersistHeartbeat sv s = once
     (insertIngestedEvent (bs_EventID s) ''collector_heartbeat'' (bs_SiteName s) (bs_CollectorID s) [] (bs_ObservedAt s))
     (sql_then (upsertSite (bs_SiteUUID s) (bs_SiteName s))
     (sql_then (upsertCollector (bs_CollectorUUID s) (bs_SiteUUID s) (bs_CollectorID s))
     (sql_then (append_history (heartbeat_row_fits s) db_heartbeat_history (\<lambda>h db. db\<lparr>db_heartbeat_history := h\<rparr>)
        (bs_EventID s) (heartbeat_row_of s))
       (exec (heartbeat_row_fits s) (put_collector_status (heartbeat_row_of s))))))"

section \<open>The handler\<close>

datatype tx_env = TxWorks | TxFails | CommitLost

definition run_tx :: "tx_env \<Rightarrow> result sql \<Rightarrow> database \<Rightarrow> (sql_error + result) \<times> database" where
  "run_tx env tx db =
     (if env = TxFails then (Inl DbError, db)
      else (case tx db of
          Inl e \<Rightarrow> (Inl e, db)
        | Inr (r, db') \<Rightarrow> (if env = CommitLost then Inl DbError else Inr r, db')))"

record ingestion =
  mt_MessagesReceived :: nat
  mt_MessagesAccepted :: nat
  mt_MessagesRejected :: nat
  mt_MessagesDeduplicated :: nat
  mt_DBWriteFailure :: nat

definition recordResult :: "result \<Rightarrow> ingestion \<Rightarrow> bool \<times> ingestion" where
  "recordResult r m = (True, case r of
      ResultDuplicate \<Rightarrow> m\<lparr>mt_MessagesDeduplicated := Suc (mt_MessagesDeduplicated m)\<rparr>
    | ResultInserted \<Rightarrow> m\<lparr>mt_MessagesAccepted := Suc (mt_MessagesAccepted m)\<rparr>)"

definition rejected :: "ingestion \<Rightarrow> bool \<times> ingestion" where
  "rejected m = (True, m\<lparr>mt_MessagesRejected := Suc (mt_MessagesRejected m)\<rparr>)"

definition write_failed :: "ingestion \<Rightarrow> bool \<times> ingestion" where
  "write_failed m = (False, m\<lparr>mt_DBWriteFailure := Suc (mt_DBWriteFailure m)\<rparr>)"

text \<open>The handlers of the device kinds reject an unknown metric type; the others do not look for it.\<close>

definition settle :: "bool \<Rightarrow> (sql_error + result) \<times> database \<Rightarrow> ingestion \<Rightarrow> bool \<times> ingestion \<times> database" where
  "settle checksMetric out m = (case out of
      (Inl e, db) \<Rightarrow> (let (ack, m') = (if checksMetric \<and> e = ErrUnknownMetricType then rejected m else write_failed m)
                     in (ack, m', db))
    | (Inr r, db) \<Rightarrow> (let (ack, m') = recordResult r m in (ack, m', db)))"

definition handleDevice :: "store_env \<Rightarrow> tx_env \<Rightarrow> device_message \<Rightarrow> ingestion \<Rightarrow> database \<Rightarrow> bool \<times> ingestion \<times> database" where
  "handleDevice sv env x m db =
     settle True (run_tx env (PersistDeviceSample sv (DeviceSampleFromValidated (sv_sha sv) x)) db) m"

definition handleInterface :: "store_env \<Rightarrow> tx_env \<Rightarrow> interface_message \<Rightarrow> ingestion \<Rightarrow> database \<Rightarrow> bool \<times> ingestion \<times> database" where
  "handleInterface sv env x m db =
     settle False (run_tx env (PersistInterfaceSample sv (InterfaceSampleFromValidated (sv_sha sv) x)) db) m"

definition handleDeviceV2 :: "store_env \<Rightarrow> tx_env \<Rightarrow> device_v2 \<Rightarrow> ingestion \<Rightarrow> database \<Rightarrow> bool \<times> ingestion \<times> database" where
  "handleDeviceV2 sv env x m db =
     settle True (run_tx env (PersistDeviceTelemetry sv (DeviceTelemetryFromValidated (sv_sha sv) x)) db) m"

definition handleInterfaceV2 :: "store_env \<Rightarrow> tx_env \<Rightarrow> interface_v2 \<Rightarrow> ingestion \<Rightarrow> database \<Rightarrow> bool \<times> ingestion \<times> database" where
  "handleInterfaceV2 sv env x m db =
     settle False (run_tx env (PersistInterfaceTelemetry sv (InterfaceTelemetryFromValidated (sv_sha sv) x)) db) m"

definition handleHealthV2 :: "store_env \<Rightarrow> tx_env \<Rightarrow> health_v2 \<Rightarrow> ingestion \<Rightarrow> database \<Rightarrow> bool \<times> ingestion \<times> database" where
  "handleHealthV2 sv env x m db = settle False (run_tx env (PersistHealth sv (HealthFromValidated (sv_sha sv) x)) db) m"

definition handleHeartbeatV2 :: "store_env \<Rightarrow> tx_env \<Rightarrow> heartbeat_v2 \<Rightarrow> ingestion \<Rightarrow> database \<Rightarrow> bool \<times> ingestion \<times> database" where
  "handleHeartbeatV2 sv env x m db =
     settle False (run_tx env (PersistHeartbeat sv (HeartbeatFromValidated (sv_sha sv) x)) db) m"

text \<open>A message that no handler knows does not exist: \<open>Validate\<close> returns one of the six kinds, so the default
  branch of \<open>Handle\<close> has no constructor here.\<close>

definition Handle :: "store_env \<Rightarrow> wire_parsers \<Rightarrow> tx_env \<Rightarrow> string \<Rightarrow> json option \<Rightarrow> ingestion \<times> database
    \<Rightarrow> bool \<times> ingestion \<times> database" where
  "Handle sv wp env topic payload s = (case s of (m0, db) \<Rightarrow>
     (let m = m0\<lparr>mt_MessagesReceived := Suc (mt_MessagesReceived m0)\<rparr> in
      case Validate wp topic payload of
        Inl _ \<Rightarrow> (let (ack, m') = rejected m in (ack, m', db))
      | Inr (MsgDevice x) \<Rightarrow> handleDevice sv env x m db
      | Inr (MsgInterface x) \<Rightarrow> handleInterface sv env x m db
      | Inr (MsgDeviceV2 x) \<Rightarrow> handleDeviceV2 sv env x m db
      | Inr (MsgInterfaceV2 x) \<Rightarrow> handleInterfaceV2 sv env x m db
      | Inr (MsgHealthV2 x) \<Rightarrow> handleHealthV2 sv env x m db
      | Inr (MsgHeartbeatV2 x) \<Rightarrow> handleHeartbeatV2 sv env x m db))"

lemmas handle_kinds = handleDevice_def handleInterface_def handleDeviceV2_def handleInterfaceV2_def
  handleHealthV2_def handleHeartbeatV2_def

end
