(* ===== verification/IngestProps.thy ===== *)
theory IngestProps
  imports IngestStore TelemetryProps "HOL-Library.Sublist"
begin

text \<open>
  What the ingestion service stores: every event once whatever is redelivered, the current tables
  as the newest rows of the histories, and which messages are acknowledged.
\<close>

section \<open>What a transaction leaves alone\<close>

definition keeps :: "(database \<Rightarrow> 'x) \<Rightarrow> 'a sql \<Rightarrow> bool" where
  "keeps f m \<longleftrightarrow> (\<forall>db r db'. m db = Inr (r, db') \<longrightarrow> f db' = f db)"

named_theorems frame "what a statement keeps"

lemma keeps_return [frame]: "keeps f (sql_return x)"
  by (simp add: keeps_def sql_return_def)

lemma keeps_bind [frame]: "keeps f m \<Longrightarrow> (\<And>x. keeps f (k x)) \<Longrightarrow> keeps f (sql_bind m k)"
  unfolding keeps_def sql_bind_def by (fastforce split: sum.splits prod.splits)

lemma keeps_then [frame]: "keeps f m \<Longrightarrow> keeps f k \<Longrightarrow> keeps f (sql_then m k)"
  unfolding sql_then_def by (intro keeps_bind)

lemma keeps_exec [frame]: "(\<And>db. f (upd db) = f db) \<Longrightarrow> keeps f (exec fits upd)"
  by (auto simp: keeps_def exec_def split: if_splits)

lemma keeps_each [frame]: "(\<And>x. keeps f (g x)) \<Longrightarrow> keeps f (sql_each g xs)"
  by (induction xs) (auto intro: frame)

lemma keeps_read [frame]: "keeps f (\<lambda>db. Inr (g db, db))"
  by (simp add: keeps_def)

lemma keeps_lookup [frame]: "keeps f (lookupMetricType name)"
  by (auto simp: keeps_def lookupMetricType_def split: option.splits if_splits)

definition inventory_frame :: "(database \<Rightarrow> 'x) \<Rightarrow> bool" where
  "inventory_frame f \<longleftrightarrow> (\<forall>db g. f (db\<lparr>db_sites := g\<rparr>) = f db) \<and> (\<forall>db g. f (db\<lparr>db_devices := g\<rparr>) = f db)
     \<and> (\<forall>db g. f (db\<lparr>db_interfaces := g\<rparr>) = f db) \<and> (\<forall>db g. f (db\<lparr>db_collectors := g\<rparr>) = f db)
     \<and> (\<forall>db g. f (db\<lparr>db_metric_samples := g\<rparr>) = f db) \<and> (\<forall>db g. f (db\<lparr>db_interface_samples := g\<rparr>) = f db)
     \<and> (\<forall>db g. f (db\<lparr>db_temp_components := g\<rparr>) = f db) \<and> (\<forall>db g. f (db\<lparr>db_temp_readings := g\<rparr>) = f db)
     \<and> (\<forall>db g. f (db\<lparr>db_power_components := g\<rparr>) = f db) \<and> (\<forall>db g. f (db\<lparr>db_power_readings := g\<rparr>) = f db)"

lemma inventory_frames:
  "inventory_frame db_events" "inventory_frame db_metric_types" "inventory_frame db_health_history"
  "inventory_frame db_health_current" "inventory_frame db_heartbeat_history" "inventory_frame db_collector_status"
  by (simp_all add: inventory_frame_def)

lemma keeps_interface_sample [frame]:
  assumes "inventory_frame f"
  shows "keeps f (insert_interface_sample i t c)"
  using assms by (cases c) (auto simp: keeps_def insert_interface_sample_def inventory_frame_def split: if_splits)

lemma keeps_inventory [frame]:
  assumes "inventory_frame f"
  shows "keeps f (upsertSite i name)" "keeps f (upsertDevice sv i site host ip t)" "keeps f (upsertInterface i d n)"
    "keeps f (upsertDeviceV2 sv ts)" "keeps f (upsertInterfaceV2 ti)"
    "keeps f (upsertCollector i site coll)" "keeps f (insertMetricSample d t mv)"
    "keeps f (upsertTempComponent sv d cmp)" "keeps f (insertTempReading d e cmp)"
    "keeps f (upsertPowerComponent sv d cmp)" "keeps f (insertPowerReading d e cmp)"
  using assms
  unfolding inventory_frame_def upsertSite_def upsertDevice_def upsertInterface_def upsertDeviceV2_def
    upsertInterfaceV2_def upsertCollector_def upsertTempComponent_def insertTempReading_def
    upsertPowerComponent_def insertPowerReading_def Let_def
  by (auto simp: insertMetricSample_def split: option.split prod.split intro!: frame)

lemma keeps_append [frame]:
  "(\<And>g db. f (set_tab g db) = f db) \<Longrightarrow> keeps f (append_history fits tab set_tab e row)"
  by (auto simp: keeps_def append_history_def split: if_splits)

lemma keeps_event [frame]:
  "inventory_frame f \<Longrightarrow> (\<And>g db. f (db\<lparr>db_events := g\<rparr>) = f db) \<Longrightarrow> keeps f (insertIngestedEvent eid ty si co de t)"
  by (auto simp: keeps_def insertIngestedEvent_def split: if_splits)

lemma keeps_once [frame]: "keeps f ev \<Longrightarrow> keeps f rest \<Longrightarrow> keeps f (once ev rest)"
  unfolding once_def by (intro frame) (auto intro: frame)

lemma keeps_device_sample [frame]:
  assumes "inventory_frame f"
  shows "keeps f (PersistDeviceSample sv s)"
proof -
  have "keeps f (\<lambda>db. Inr (g db, db\<lparr>db_metric_samples := h db\<rparr>))" for g :: "database \<Rightarrow> result" and h
    using assms by (simp add: keeps_def inventory_frame_def)
  then show ?thesis unfolding PersistDeviceSample_def Let_def using assms by (intro frame)
qed

lemma keeps_interface_v1 [frame]: "inventory_frame f \<Longrightarrow> keeps f (PersistInterfaceSample sv s)"
  unfolding PersistInterfaceSample_def by (auto intro!: frame)

lemma keeps_telemetry [frame]:
  "inventory_frame f \<Longrightarrow> (\<And>g db. f (db\<lparr>db_events := g\<rparr>) = f db) \<Longrightarrow> keeps f (PersistDeviceTelemetry sv s)"
  unfolding PersistDeviceTelemetry_def by (auto intro!: frame)

lemma keeps_interfaces [frame]:
  "inventory_frame f \<Longrightarrow> (\<And>g db. f (db\<lparr>db_events := g\<rparr>) = f db) \<Longrightarrow> keeps f (PersistInterfaceTelemetry sv s)"
  unfolding PersistInterfaceTelemetry_def by (auto intro!: frame)

lemma keeps_health [frame]:
  assumes "inventory_frame f" "\<And>g db. f (db\<lparr>db_events := g\<rparr>) = f db"
    "\<And>g db. f (db\<lparr>db_health_history := g\<rparr>) = f db" "\<And>g db. f (db\<lparr>db_health_current := g\<rparr>) = f db"
  shows "keeps f (PersistHealth sv s)"
  unfolding PersistHealth_def put_current_health_def by (auto intro!: frame simp: assms)

lemma keeps_heartbeat [frame]:
  assumes "inventory_frame f" "\<And>g db. f (db\<lparr>db_events := g\<rparr>) = f db"
    "\<And>g db. f (db\<lparr>db_heartbeat_history := g\<rparr>) = f db" "\<And>g db. f (db\<lparr>db_collector_status := g\<rparr>) = f db"
  shows "keeps f (PersistHeartbeat sv s)"
  unfolding PersistHeartbeat_def put_collector_status_def by (auto intro!: frame simp: assms)

section \<open>Events that are stored once\<close>

definition event_id_of :: "message \<Rightarrow> string option" where
  "event_id_of x = (case x of MsgDeviceV2 v \<Rightarrow> Some (ve_EventID (vd_Envelope v))
    | MsgInterfaceV2 v \<Rightarrow> Some (ve_EventID (vi_Envelope v)) | MsgHealthV2 v \<Rightarrow> Some (ve_EventID (vh_Envelope v))
    | MsgHeartbeatV2 v \<Rightarrow> Some (ve_EventID (vb_Envelope v)) | _ \<Rightarrow> None)"

definition tx_of :: "store_env \<Rightarrow> message \<Rightarrow> result sql" where
  "tx_of sv x = (let sha = sv_sha sv in case x of
      MsgDevice v \<Rightarrow> PersistDeviceSample sv (DeviceSampleFromValidated sha v)
    | MsgInterface v \<Rightarrow> PersistInterfaceSample sv (InterfaceSampleFromValidated sha v)
    | MsgDeviceV2 v \<Rightarrow> PersistDeviceTelemetry sv (DeviceTelemetryFromValidated sha v)
    | MsgInterfaceV2 v \<Rightarrow> PersistInterfaceTelemetry sv (InterfaceTelemetryFromValidated sha v)
    | MsgHealthV2 v \<Rightarrow> PersistHealth sv (HealthFromValidated sha v)
    | MsgHeartbeatV2 v \<Rightarrow> PersistHeartbeat sv (HeartbeatFromValidated sha v))"

definition checks_metric :: "message \<Rightarrow> bool" where
  "checks_metric x = (case x of MsgDevice _ \<Rightarrow> True | MsgDeviceV2 _ \<Rightarrow> True | _ \<Rightarrow> False)"

lemma Handle_tx:
  "Handle sv wp env topic payload (m0, db) =
     (let m = m0\<lparr>mt_MessagesReceived := Suc (mt_MessagesReceived m0)\<rparr> in
      case Ingest.Validate wp topic payload of
        Inl _ \<Rightarrow> (True, m\<lparr>mt_MessagesRejected := Suc (mt_MessagesRejected m)\<rparr>, db)
      | Inr x \<Rightarrow> settle (checks_metric x) (run_tx env (tx_of sv x) db) m)"
  by (simp add: Handle_def handle_kinds tx_of_def checks_metric_def rejected_def Let_def split: sum.split message.split)

lemma settle_db: "snd (snd (settle c out m)) = snd out"
  by (cases out) (simp add: settle_def rejected_def write_failed_def recordResult_def Let_def split: sum.split)

lemma settle_ack: "fst (settle c out m) \<longleftrightarrow> (case fst out of Inr _ \<Rightarrow> True | Inl e \<Rightarrow> c \<and> e = ErrUnknownMetricType)"
  by (cases out) (simp add: settle_def rejected_def write_failed_def recordResult_def Let_def split: sum.split)

lemma once_tx:
  assumes "once (insertIngestedEvent eid ty si co de t) rest db = Inr (r, db')" "keeps db_events rest"
  shows "(map_of (db_events db) eid \<noteq> None \<longrightarrow> db' = db)
    \<and> (map_of (db_events db) eid = None \<longrightarrow> (\<exists>row. db_events db' = db_events db @ [(eid, row)]))"
  using assms
  by (auto simp: once_def sql_bind_def sql_then_def sql_return_def insertIngestedEvent_def insert_new_def keeps_def
      split: sum.splits if_splits)

lemma v2_tx:
  assumes "event_id_of x = Some eid"
  obtains ty si co de t rest where "tx_of sv x = once (insertIngestedEvent eid ty si co de t) rest" "keeps db_events rest"
proof (cases x)
  case (MsgDeviceV2 v)
  with assms show thesis
    by (intro that) (simp add: tx_of_def event_id_of_def PersistDeviceTelemetry_def DeviceTelemetryFromValidated_def Let_def,
        auto intro!: frame inventory_frames)
next
  case (MsgInterfaceV2 v)
  with assms show thesis
    by (intro that) (simp add: tx_of_def event_id_of_def PersistInterfaceTelemetry_def InterfaceTelemetryFromValidated_def Let_def,
        auto intro!: frame inventory_frames)
next
  case (MsgHealthV2 v)
  with assms show thesis
    by (intro that) (simp add: tx_of_def event_id_of_def PersistHealth_def HealthFromValidated_def Let_def,
        auto intro!: frame inventory_frames simp: put_current_health_def)
next
  case (MsgHeartbeatV2 v)
  with assms show thesis
    by (intro that) (simp add: tx_of_def event_id_of_def PersistHeartbeat_def HeartbeatFromValidated_def Let_def,
        auto intro!: frame inventory_frames simp: put_collector_status_def)
qed (use assms in \<open>simp_all add: event_id_of_def\<close>)

text \<open>A delivery: what happens to its transaction, the topic and the payload.\<close>

type_synonym delivery = "tx_env \<times> string \<times> json option"

fun deliveries :: "store_env \<Rightarrow> wire_parsers \<Rightarrow> delivery list \<Rightarrow> ingestion \<times> database \<Rightarrow> bool list \<times> ingestion \<times> database" where
  "deliveries sv wp [] s = ([], s)"
| "deliveries sv wp ((env, topic, payload) # ds) s =
     (case Handle sv wp env topic payload s of (ack, s1) \<Rightarrow>
      case deliveries sv wp ds s1 of (acks, s2) \<Rightarrow> (ack # acks, s2))"

definition event_of :: "wire_parsers \<Rightarrow> delivery \<Rightarrow> string option" where
  "event_of wp d = (case d of (_, topic, payload) \<Rightarrow>
     (case Ingest.Validate wp topic payload of Inl _ \<Rightarrow> None | Inr x \<Rightarrow> event_id_of x))"

definition is_v2 :: "delivery \<Rightarrow> bool" where
  "is_v2 d = contains (fst (snd d)) ''/telemetry/v2/''"

definition undisturbed :: "delivery \<Rightarrow> delivery" where
  "undisturbed d = (TxWorks, snd d)"

lemma v2_message:
  assumes "contains topic ''/telemetry/v2/''" "Ingest.Validate wp topic payload = Inr x"
  shows "event_id_of x \<noteq> None"
proof (cases x)
  case (MsgDevice v)
  with assms show ?thesis by (auto simp: Ingest.Validate_def ValidateV2_def Let_def map_sum_Inr split: sum.splits option.splits kind.splits)
next
  case (MsgInterface v)
  with assms show ?thesis by (auto simp: Ingest.Validate_def ValidateV2_def Let_def map_sum_Inr split: sum.splits option.splits kind.splits)
qed (simp_all add: event_id_of_def)

text \<open>The database after a delivery does not depend on the counters.\<close>

definition stored :: "store_env \<Rightarrow> wire_parsers \<Rightarrow> delivery \<Rightarrow> database \<Rightarrow> database" where
  "stored sv wp d db = (case d of (env, topic, payload) \<Rightarrow>
     (case Ingest.Validate wp topic payload of Inl _ \<Rightarrow> db | Inr x \<Rightarrow> snd (run_tx env (tx_of sv x) db)))"

lemma Handle_stored: "snd (snd (Handle sv wp env topic payload (m, db))) = stored sv wp (env, topic, payload) db"
  by (simp add: Handle_tx Let_def stored_def settle_db split: sum.split)

lemma deliveries_stored: "snd (snd (deliveries sv wp ds (m, db))) = fold (stored sv wp) ds db"
proof (induction ds arbitrary: m db)
  case (Cons d ds)
  obtain env topic payload where d: "d = (env, topic, payload)" by (cases d)
  obtain ack m1 db1 where h: "Handle sv wp env topic payload (m, db) = (ack, m1, db1)" by (cases "Handle sv wp env topic payload (m, db)")
  with Handle_stored [of sv wp env topic payload m db] have "db1 = stored sv wp d db" by (simp add: d)
  with Cons.IH [of m1 db1] h show ?case
    by (cases "deliveries sv wp ds (m1, db1)") (simp add: d)
qed simp

lemma stored_once:
  assumes "event_of wp d = Some e"
  shows "stored sv wp d db = db \<or> (map_of (db_events db) e = None \<and> stored sv wp d db = stored sv wp (undisturbed d) db
    \<and> (\<exists>row. db_events (stored sv wp d db) = db_events db @ [(e, row)]))"
proof -
  obtain env topic payload where d: "d = (env, topic, payload)" by (cases d)
  with assms obtain x where x: "Ingest.Validate wp topic payload = Inr x" "event_id_of x = Some e"
    by (auto simp: event_of_def split: sum.splits)
  obtain ty si co de t rest where tx: "tx_of sv x = once (insertIngestedEvent e ty si co de t) rest" "keeps db_events rest"
    by (rule v2_tx [OF x(2), of sv])
  have works: "stored sv wp (undisturbed d) db = (case tx_of sv x db of Inl _ \<Rightarrow> db | Inr (_, db') \<Rightarrow> db')"
    by (simp add: undisturbed_def d stored_def x(1) run_tx_def split: sum.split prod.split)
  have "stored sv wp d db = db \<or> stored sv wp d db = stored sv wp (undisturbed d) db \<and> (\<exists>r. tx_of sv x db = Inr (r, stored sv wp d db))"
    unfolding works by (auto simp: d stored_def x(1) run_tx_def split: sum.split prod.split)
  with once_tx [OF _ tx(2)] tx(1) show ?thesis by metis
qed

section \<open>Acknowledgements\<close>

text \<open>The metric types the migrations insert; no statement of the service changes them.\<close>

definition seeded :: "database \<Rightarrow> bool" where
  "seeded db \<longleftrightarrow> list_all (\<lambda>n. map_of (db_metric_types db) n \<noteq> None)
     [''uptime_seconds'', ''cpu_utilization_pct'', ''memory_utilization_pct'', ''primary_temperature_c'']"

definition knows :: "'a sql \<Rightarrow> bool" where
  "knows m \<longleftrightarrow> (\<forall>db. seeded db \<longrightarrow> m db \<noteq> Inl ErrUnknownMetricType)"

named_theorems metrics_known "what cannot fail for an unknown metric type"

lemma knows_return [metrics_known]: "knows (sql_return x)"
  by (simp add: knows_def sql_return_def)

lemma seeded_keeps: "keeps db_metric_types m \<Longrightarrow> seeded db \<Longrightarrow> m db = Inr (r, db') \<Longrightarrow> seeded db'"
  by (simp add: keeps_def seeded_def)

lemma knows_bind [metrics_known]:
  "knows m \<Longrightarrow> keeps db_metric_types m \<Longrightarrow> (\<And>x. knows (k x)) \<Longrightarrow> knows (sql_bind m k)"
  unfolding knows_def sql_bind_def by (auto split: sum.split prod.split dest: seeded_keeps)

lemma knows_then [metrics_known]: "knows m \<Longrightarrow> keeps db_metric_types m \<Longrightarrow> knows k \<Longrightarrow> knows (sql_then m k)"
  unfolding sql_then_def by (intro knows_bind)

lemma knows_exec [metrics_known]: "knows (exec fits upd)"
  by (simp add: knows_def exec_def)

lemma knows_each [metrics_known]:
  "(\<And>x. x \<in> set xs \<Longrightarrow> knows (g x)) \<Longrightarrow> (\<And>x. keeps db_metric_types (g x)) \<Longrightarrow> knows (sql_each g xs)"
  by (induction xs) (auto intro!: metrics_known)

lemma knows_simple [metrics_known]:
  "knows (upsertSite i name)" "knows (upsertDevice sv i site host ip t)" "knows (upsertDeviceV2 sv ts)"
  "knows (upsertInterfaceV2 ti)" "knows (upsertCollector i site coll)"
  "knows (upsertTempComponent sv d cmp)" "knows (insertTempReading d e cmp)"
  "knows (upsertPowerComponent sv d cmp)" "knows (insertPowerReading d e cmp)"
  "knows (insertIngestedEvent eid ty si co de t)" "knows (insert_interface_sample i t c)"
  "knows (append_history fits tab set_tab e row)"
  unfolding upsertSite_def upsertDevice_def upsertDeviceV2_def upsertCollector_def upsertTempComponent_def
    insertTempReading_def upsertPowerComponent_def insertPowerReading_def Let_def
  by (auto intro!: metrics_known
      simp: knows_def upsertInterfaceV2_def sql_then_def sql_bind_def exec_def Let_def insertIngestedEvent_def insert_interface_sample_def
        append_history_def split: prod.split)

lemma knows_metric:
  assumes "fst mv \<in> {''uptime_seconds'', ''cpu_utilization_pct'', ''memory_utilization_pct'', ''primary_temperature_c''}"
  shows "knows (insertMetricSample d t mv)"
  using assms
  by (cases mv) (auto simp: knows_def insertMetricSample_def lookupMetricType_def seeded_def sql_bind_def sql_return_def exec_def
      split: option.splits)

lemma knows_once: "knows rest \<Longrightarrow> keeps db_metric_types rest \<Longrightarrow> knows (once (insertIngestedEvent eid ty si co de t) rest)"
  unfolding once_def
  by (intro metrics_known frame inventory_frames) (auto intro: metrics_known)

lemma v2_knows: "event_id_of x = Some e \<Longrightarrow> knows (tx_of sv x)"
proof (cases x)
  case (MsgDeviceV2 v)
  have "knows (PersistDeviceTelemetry sv s)" for s
    unfolding PersistDeviceTelemetry_def
    by (intro knows_once metrics_known knows_metric frame inventory_frames) auto
  then show ?thesis by (simp add: tx_of_def MsgDeviceV2)
next
  case (MsgInterfaceV2 v)
  have "knows (PersistInterfaceTelemetry sv s)" for s
    unfolding PersistInterfaceTelemetry_def
    by (intro knows_once metrics_known frame inventory_frames)
  then show ?thesis by (simp add: tx_of_def MsgInterfaceV2)
next
  case (MsgHealthV2 v)
  have "knows (PersistHealth sv s)" for s
    unfolding PersistHealth_def
    by (intro knows_once metrics_known frame inventory_frames) (simp_all add: put_current_health_def)
  then show ?thesis by (simp add: tx_of_def MsgHealthV2)
next
  case (MsgHeartbeatV2 v)
  have "knows (PersistHeartbeat sv s)" for s
    unfolding PersistHeartbeat_def
    by (intro knows_once metrics_known frame inventory_frames) (simp_all add: put_collector_status_def)
  then show ?thesis by (simp add: tx_of_def MsgHeartbeatV2)
qed (simp_all add: event_id_of_def)

section \<open>Each event once\<close>

lemma stored_events_stay:
  assumes "is_v2 d" "map_of (db_events db) e \<noteq> None"
  shows "map_of (db_events (stored sv wp d db)) e \<noteq> None"
proof (cases "event_of wp d")
  case None
  with assms(1) have "stored sv wp d db = db"
    by (auto simp: event_of_def stored_def is_v2_def split: prod.splits sum.splits dest: v2_message)
  with assms(2) show ?thesis by simp
next
  case (Some i)
  from stored_once [OF this, of sv db] assms(2) show ?thesis by (auto simp: map_add_def split: option.splits)
qed

lemma fold_stored_events_stay:
  "list_all is_v2 ds \<Longrightarrow> map_of (db_events db) e \<noteq> None \<Longrightarrow> map_of (db_events (fold (stored sv wp) ds db)) e \<noteq> None"
  by (induction ds arbitrary: db) (simp_all add: stored_events_stay del: not_None_eq)

lemma keeps_metric_types: "keeps db_metric_types (tx_of sv x)"
  by (cases x) (auto simp: tx_of_def intro!: frame inventory_frames)

lemma stored_seeded: "seeded db \<Longrightarrow> seeded (stored sv wp d db)"
  using seeded_keeps [OF keeps_metric_types]
  by (auto simp: stored_def run_tx_def split: prod.split sum.split)

lemma acknowledged_stored:
  assumes "seeded db" "event_of wp (env, topic, payload) = Some e" "fst (Handle sv wp env topic payload (m, db))"
  shows "map_of (db_events (stored sv wp (env, topic, payload) db)) e \<noteq> None"
proof -
  from assms(2) obtain x where x: "Ingest.Validate wp topic payload = Inr x" "event_id_of x = Some e"
    by (auto simp: event_of_def split: sum.splits)
  obtain ty si co de t rest where tx: "tx_of sv x = once (insertIngestedEvent e ty si co de t) rest" "keeps db_events rest"
    by (rule v2_tx [OF x(2), of sv])
  from v2_knows [OF x(2)] assms(1) have known: "tx_of sv x db \<noteq> Inl ErrUnknownMetricType" by (simp add: knows_def)
  from assms(3) x(1) have "case fst (run_tx env (tx_of sv x) db) of Inr _ \<Rightarrow> True | Inl e \<Rightarrow> e = ErrUnknownMetricType"
    by (auto simp: Handle_tx Let_def settle_ack split: sum.splits)
  with known obtain r db' where "tx_of sv x db = Inr (r, db')" "stored sv wp (env, topic, payload) db = db'"
    by (auto simp: run_tx_def stored_def x(1) split: if_splits sum.splits)
  with once_tx [OF _ tx(2)] tx(1) show ?thesis by (cases "map_of (db_events db) e") fastforce+
qed

lemma acknowledged_deliveries:
  assumes "list_all is_v2 ds" "seeded db" "i < length ds" "fst (deliveries sv wp ds (m, db)) ! i" "event_of wp (ds ! i) = Some e"
  shows "map_of (db_events (fold (stored sv wp) ds db)) e \<noteq> None"
  using assms
proof (induction ds arbitrary: m db i)
  case (Cons d ds)
  obtain env topic payload where d: "d = (env, topic, payload)" by (cases d)
  obtain ack m1 db1 where h: "Handle sv wp env topic payload (m, db) = (ack, m1, db1)" by (cases "Handle sv wp env topic payload (m, db)")
  with Handle_stored [of sv wp env topic payload m db] have db1: "db1 = stored sv wp d db" by (simp add: d)
  have acks: "fst (deliveries sv wp (d # ds) (m, db)) = ack # fst (deliveries sv wp ds (m1, db1))"
    by (simp add: d h split: prod.split)
  show ?case
  proof (cases i)
    case 0
    with Cons.prems acks h d have "fst (Handle sv wp env topic payload (m, db))" "event_of wp (env, topic, payload) = Some e"
      by simp_all
    from acknowledged_stored [OF Cons.prems(2) this(2,1)] have "map_of (db_events (stored sv wp d db)) e \<noteq> None" by (simp add: d)
    with Cons.prems(1) show ?thesis by (simp add: fold_stored_events_stay del: not_None_eq)
  next
    case (Suc j)
    have "map_of (db_events (fold (stored sv wp) ds db1)) e \<noteq> None"
    proof (rule Cons.IH)
      show "seeded db1" using Cons.prems(2) by (simp add: db1 stored_seeded)
      show "fst (deliveries sv wp ds (m1, db1)) ! j" using Cons.prems(4) acks Suc by simp
    qed (use Cons.prems Suc in simp_all)
    then show ?thesis by (simp add: db1)
  qed
qed simp

lemma stored_refines:
  assumes "list_all is_v2 ds"
  shows "\<exists>ds'. subseq ds' ds \<and> distinct (map (event_of wp) ds')
    \<and> (\<forall>d \<in> set ds'. \<exists>e. event_of wp d = Some e \<and> map_of (db_events db) e = None)
    \<and> fold (stored sv wp) ds db = fold (stored sv wp) (map undisturbed ds') db"
  using assms
proof (induction ds arbitrary: db)
  case (Cons d ds)
  from Cons.IH [of "stored sv wp d db"] Cons.prems obtain ds' where ds': "subseq ds' ds" "distinct (map (event_of wp) ds')"
    "\<forall>d' \<in> set ds'. \<exists>e. event_of wp d' = Some e \<and> map_of (db_events (stored sv wp d db)) e = None"
    "fold (stored sv wp) ds (stored sv wp d db) = fold (stored sv wp) (map undisturbed ds') (stored sv wp d db)" by auto
  show ?case
  proof (cases "stored sv wp d db = db")
    case True
    with ds' show ?thesis by (intro exI [of _ ds']) auto
  next
    case False
    have "event_of wp d \<noteq> None"
      using False Cons.prems by (auto simp: event_of_def stored_def is_v2_def split: prod.splits sum.splits dest: v2_message)
    then obtain e where e: "event_of wp d = Some e" by blast
    from stored_once [OF e, of sv db] False obtain row where new: "map_of (db_events db) e = None"
      "stored sv wp d db = stored sv wp (undisturbed d) db" "db_events (stored sv wp d db) = db_events db @ [(e, row)]" by blast
    have fresh: "i \<noteq> e \<and> map_of (db_events db) i = None" if "map_of (db_events (stored sv wp d db)) i = None" for i
      using that new(3) by (auto simp: map_add_def split: option.splits if_splits)
    have others: "\<exists>i. event_of wp d' = Some i \<and> i \<noteq> e \<and> map_of (db_events db) i = None" if "d' \<in> set ds'" for d'
      using that ds'(3) fresh by blast
    then have "Some e \<notin> event_of wp ` set ds'" by force
    moreover have "\<forall>d' \<in> set (d # ds'). \<exists>i. event_of wp d' = Some i \<and> map_of (db_events db) i = None"
      using others e new(1) unfolding list.set by blast
    ultimately show ?thesis
      using ds' new(2) e by (intro exI [of _ "d # ds'"]) simp
  qed
next
  case Nil
  then show ?case by (intro exI [of _ "[]"]) simp
qed

text \<open>C2: whatever transactions fail, are cut off after their commit or are delivered again, a run over version 2
  messages leaves the database that a subsequence of the deliveries leaves in an undisturbed run, one delivery
  for each event, none of them stored before; and no acknowledged event is lost.\<close>

theorem delivered_once:
  assumes "list_all is_v2 ds" and "seeded db"
  shows "(\<exists>ds'. subseq ds' ds \<and> distinct (map (event_of wp) ds')
      \<and> (\<forall>d \<in> set ds'. \<exists>e. event_of wp d = Some e \<and> map_of (db_events db) e = None)
      \<and> snd (snd (deliveries sv wp ds (m, db))) = snd (snd (deliveries sv wp (map undisturbed ds') (m, db))))
    \<and> (\<forall>i < length ds. \<forall>e. fst (deliveries sv wp ds (m, db)) ! i \<longrightarrow> event_of wp (ds ! i) = Some e \<longrightarrow>
        map_of (db_events (snd (snd (deliveries sv wp ds (m, db))))) e \<noteq> None)"
  using stored_refines [OF assms(1), of wp db sv] acknowledged_deliveries [OF assms]
  by (auto simp: deliveries_stored)

section \<open>Current rows and histories\<close>

definition latest :: "(time \<Rightarrow> time \<Rightarrow> bool) \<Rightarrow> ('r \<Rightarrow> time) \<Rightarrow> 'r list \<Rightarrow> 'r option" where
  "latest replaces tm rows = foldl (\<lambda>cur r. case cur of
      None \<Rightarrow> Some r | Some c \<Rightarrow> if replaces (tm c) (tm r) then Some r else cur) None rows"

lemma latest_snoc:
  "latest replaces tm (rows @ [r]) = (case latest replaces tm rows of
      None \<Rightarrow> Some r | Some c \<Rightarrow> if replaces (tm c) (tm r) then Some r else Some c)"
  by (simp add: latest_def split: option.split)

lemma latest_Nil [simp]: "latest replaces tm [] = None"
  by (simp add: latest_def)

lemma latest_None: "latest replaces tm rows = None \<longleftrightarrow> rows = []"
  by (cases rows rule: rev_cases) (auto simp: latest_snoc split: option.split)

text \<open>The rows before the latest one do not replace it, and neither do those after.\<close>

lemma latest_Some:
  assumes "\<And>a b c. replaces a b \<Longrightarrow> replaces b c \<Longrightarrow> replaces a c" "\<And>a b c :: time. \<not> replaces a b \<Longrightarrow> replaces a c \<Longrightarrow> replaces b c"
    and "latest replaces tm rows = Some r"
  shows "\<exists>as bs. rows = as @ r # bs \<and> (\<forall>a \<in> set as. replaces (tm a) (tm r)) \<and> (\<forall>b \<in> set bs. \<not> replaces (tm r) (tm b))"
  using assms(3)
proof (induction rows arbitrary: r rule: rev_induct)
  case (snoc x rows)
  show ?case
  proof (cases "latest replaces tm rows")
    case None
    with snoc.prems have "rows @ [x] = [] @ r # []" by (simp add: latest_snoc latest_None)
    then show ?thesis by (metis empty_iff list.set(1))
  next
    case (Some c)
    from snoc.IH [OF this] obtain as bs where split: "rows = as @ c # bs" "\<forall>a \<in> set as. replaces (tm a) (tm c)"
      "\<forall>b \<in> set bs. \<not> replaces (tm c) (tm b)" by blast
    show ?thesis
    proof (cases "replaces (tm c) (tm x)")
      case True
      with snoc.prems Some have "r = x" by (simp add: latest_snoc)
      moreover have "\<forall>a \<in> set rows. replaces (tm a) (tm x)"
      proof
        fix a assume "a \<in> set rows"
        then consider "a \<in> set as" | "a = c" | "a \<in> set bs" using split(1) by auto
        then show "replaces (tm a) (tm x)"
          by cases (use split(2,3) True assms(1) [of "tm a" "tm c" "tm x"] assms(2) [of "tm c" "tm a" "tm x"] in auto)
      qed
      ultimately show ?thesis by (intro exI [of _ rows] exI [of _ "[]"]) simp
    next
      case False
      with snoc.prems Some have "r = c" by (simp add: latest_snoc)
      with split False show ?thesis by (intro exI [of _ as] exI [of _ "bs @ [x]"]) auto
    qed
  qed
qed simp

lemma subseq_set: "subseq xs ys \<Longrightarrow> set xs \<subseteq> set ys"
  by (auto elim: list_emb_set)

definition health_rows :: "database \<Rightarrow> string \<Rightarrow> health_row list" where
  "health_rows db i = filter (\<lambda>r. hr_device_id r = i) (map snd (db_health_history db))"

definition heartbeat_rows :: "database \<Rightarrow> string \<Rightarrow> heartbeat_row list" where
  "heartbeat_rows db i = filter (\<lambda>r. br_collector_uuid r = i) (map snd (db_heartbeat_history db))"

text \<open>\<open>H\<close> and \<open>B\<close> are the rows that were ever stored for each device and collector; the histories hold those of
  them that were not pruned.\<close>

definition tracked :: "(string \<Rightarrow> health_row list) \<Rightarrow> (string \<Rightarrow> heartbeat_row list) \<Rightarrow> database \<Rightarrow> bool" where
  "tracked H B db \<longleftrightarrow>
     (\<forall>i. subseq (health_rows db i) (H i) \<and> map_of (db_health_current db) i = latest (\<le>) hr_observed_at (H i))
     \<and> (\<forall>i. subseq (heartbeat_rows db i) (B i) \<and> map_of (db_collector_status db) i = latest (<) br_observed_at (B i))"

definition complete :: "(string \<Rightarrow> health_row list) \<Rightarrow> (string \<Rightarrow> heartbeat_row list) \<Rightarrow> database \<Rightarrow> bool" where
  "complete H B db \<longleftrightarrow> H = health_rows db \<and> B = heartbeat_rows db"

definition current_ok :: "database \<Rightarrow> bool" where
  "current_ok db \<longleftrightarrow> tracked (health_rows db) (heartbeat_rows db) db"

definition current_part where
  "current_part db = (db_health_history db, db_health_current db, db_heartbeat_history db, db_collector_status db)"

lemma current_part_frame: "inventory_frame current_part" "current_part (db\<lparr>db_events := g\<rparr>) = current_part db"
  by (simp_all add: inventory_frame_def current_part_def)

lemma current_part_rows:
  assumes "current_part db' = current_part db"
  shows "tracked H B db' = tracked H B db" "complete H B db' = complete H B db"
  using assms by (simp_all add: current_part_def tracked_def complete_def health_rows_def heartbeat_rows_def fun_eq_iff)

text \<open>What a step keeps, with the rows it adds.\<close>

definition keeps_tracked :: "database \<Rightarrow> database \<Rightarrow> bool" where
  "keeps_tracked db db' \<longleftrightarrow> (\<forall>H B. tracked H B db \<longrightarrow>
     (\<exists>H' B'. tracked H' B' db' \<and> (complete H B db \<longrightarrow> complete H' B' db')))"

lemma keeps_tracked_part:
  assumes "current_part db' = current_part db"
  shows "keeps_tracked db db'"
  unfolding keeps_tracked_def current_part_rows [OF assms] by blast

lemma once_tail:
  assumes "once ev (sql_then a (sql_then b k)) db = Inr (r, db')" "keeps f ev" "keeps f a" "keeps f b"
  shows "f db' = f db \<or> (\<exists>db1. f db1 = f db \<and> k db1 = Inr ((), db'))"
  using assms
  by (auto simp: once_def sql_bind_def sql_then_def sql_return_def keeps_def split: sum.splits if_splits)

lemma keeps_tracked_health:
  assumes "current_part db1 = current_part db"
    "sql_then (append_history fits db_health_history (\<lambda>h db. db\<lparr>db_health_history := h\<rparr>) e row)
       (exec fits (put_current_health row)) db1 = Inr ((), db')"
  shows "keeps_tracked db db'"
  unfolding keeps_tracked_def
proof (intro allI impI)
  fix H B assume "tracked H B db"
  then have ok: "tracked H B db1" using current_part_rows [OF assms(1)] by simp
  from assms(2) have db': "db' = put_current_health row (db1\<lparr>db_health_history := db_health_history db1 @ [(e, row)]\<rparr>)"
    by (auto simp: sql_then_def sql_bind_def append_history_def exec_def split: if_splits)
  let ?H = "H(hr_device_id row := H (hr_device_id row) @ [row])"
  have rows: "health_rows db' i = (if i = hr_device_id row then health_rows db1 i @ [row] else health_rows db1 i)"
    "heartbeat_rows db' i = heartbeat_rows db1 i" "db_collector_status db' = db_collector_status db1" for i
    by (simp_all add: db' health_rows_def heartbeat_rows_def put_current_health_def)
  have "map_of (db_health_current db') i = latest (\<le>) hr_observed_at (?H i)" for i
    using ok unfolding tracked_def
    by (auto simp: db' put_current_health_def latest_snoc go_simps split: option.split)
  with ok have "tracked ?H B db'" by (simp add: tracked_def rows list_emb_append_mono)
  moreover have "complete H B db \<longrightarrow> complete ?H B db'"
    using current_part_rows(2) [OF assms(1), of H B] by (auto simp: complete_def rows fun_eq_iff)
  ultimately show "\<exists>H' B'. tracked H' B' db' \<and> (complete H B db \<longrightarrow> complete H' B' db')" by blast
qed

lemma keeps_tracked_heartbeat:
  assumes "current_part db1 = current_part db"
    "sql_then (append_history fits db_heartbeat_history (\<lambda>h db. db\<lparr>db_heartbeat_history := h\<rparr>) e row)
       (exec fits (put_collector_status row)) db1 = Inr ((), db')"
  shows "keeps_tracked db db'"
  unfolding keeps_tracked_def
proof (intro allI impI)
  fix H B assume "tracked H B db"
  then have ok: "tracked H B db1" using current_part_rows [OF assms(1)] by simp
  from assms(2) have db': "db' = put_collector_status row (db1\<lparr>db_heartbeat_history := db_heartbeat_history db1 @ [(e, row)]\<rparr>)"
    by (auto simp: sql_then_def sql_bind_def append_history_def exec_def split: if_splits)
  let ?B = "B(br_collector_uuid row := B (br_collector_uuid row) @ [row])"
  have rows: "heartbeat_rows db' i = (if i = br_collector_uuid row then heartbeat_rows db1 i @ [row] else heartbeat_rows db1 i)"
    "health_rows db' i = health_rows db1 i" "db_health_current db' = db_health_current db1" for i
    by (simp_all add: db' health_rows_def heartbeat_rows_def put_collector_status_def)
  have "map_of (db_collector_status db') i = latest (<) br_observed_at (?B i)" for i
    using ok unfolding tracked_def
    by (auto simp: db' put_collector_status_def latest_snoc go_simps split: option.split)
  with ok have "tracked H ?B db'" by (simp add: tracked_def rows list_emb_append_mono)
  moreover have "complete H B db \<longrightarrow> complete H ?B db'"
    using current_part_rows(2) [OF assms(1), of H B] by (auto simp: complete_def rows fun_eq_iff)
  ultimately show "\<exists>H' B'. tracked H' B' db' \<and> (complete H B db \<longrightarrow> complete H' B' db')" by blast
qed

lemma tx_keeps_tracked:
  assumes tx: "tx_of sv x db = Inr (r, db')"
  shows "keeps_tracked db db'"
proof -
  note part = keeps_tracked_part
  show ?thesis
  proof (cases x)
    case (MsgHealthV2 v)
    with tx have "PersistHealth sv (HealthFromValidated (sv_sha sv) v) db = Inr (r, db')" by (simp add: tx_of_def)
    from once_tail [OF this [unfolded PersistHealth_def], where f = current_part] part show ?thesis
      by (auto intro!: frame current_part_frame intro: keeps_tracked_health)
  next
    case (MsgHeartbeatV2 v)
    with tx have "PersistHeartbeat sv (HeartbeatFromValidated (sv_sha sv) v) db = Inr (r, db')" by (simp add: tx_of_def)
    from once_tail [OF this [unfolded PersistHeartbeat_def], where f = current_part] part show ?thesis
      by (auto intro!: frame current_part_frame intro: keeps_tracked_heartbeat)
  next
    case (MsgDevice v)
    with tx have "PersistDeviceSample sv (DeviceSampleFromValidated (sv_sha sv) v) db = Inr (r, db')" by (simp add: tx_of_def)
    then show ?thesis using keeps_device_sample [OF current_part_frame(1)] by (intro part) (simp add: keeps_def)
  next
    case (MsgInterface v)
    with tx have "PersistInterfaceSample sv (InterfaceSampleFromValidated (sv_sha sv) v) db = Inr (r, db')" by (simp add: tx_of_def)
    then show ?thesis using keeps_interface_v1 [OF current_part_frame(1)] by (intro part) (simp add: keeps_def)
  next
    case (MsgDeviceV2 v)
    with tx have "PersistDeviceTelemetry sv (DeviceTelemetryFromValidated (sv_sha sv) v) db = Inr (r, db')" by (simp add: tx_of_def)
    then show ?thesis using keeps_telemetry [OF current_part_frame] by (intro part) (simp add: keeps_def)
  next
    case (MsgInterfaceV2 v)
    with tx have "PersistInterfaceTelemetry sv (InterfaceTelemetryFromValidated (sv_sha sv) v) db = Inr (r, db')" by (simp add: tx_of_def)
    then show ?thesis using keeps_interfaces [OF current_part_frame] by (intro part) (simp add: keeps_def)
  qed
qed

lemma run_keeps_tracked: "keeps_tracked db (fold (stored sv wp) ds db)"
proof (induction ds arbitrary: db)
  case (Cons d ds)
  have "keeps_tracked db (stored sv wp d db)"
    by (auto simp: stored_def run_tx_def split: prod.split sum.split intro: tx_keeps_tracked keeps_tracked_part)
  then show ?case using Cons [of "stored sv wp d db"] unfolding keeps_tracked_def fold_simps by meson
qed (auto simp: keeps_tracked_def)

text \<open>Deliveries and runs of the retention job, which deletes rows of the histories and leaves the current tables alone;
  what it does to the other tables does not matter here.  The flag tells whether it ran.\<close>

definition pruned :: "database \<Rightarrow> database \<Rightarrow> bool" where
  "pruned db db' \<longleftrightarrow> subseq (db_health_history db') (db_health_history db)
     \<and> subseq (db_heartbeat_history db') (db_heartbeat_history db)
     \<and> db_health_current db' = db_health_current db \<and> db_collector_status db' = db_collector_status db"

inductive store_run :: "store_env \<Rightarrow> wire_parsers \<Rightarrow> database \<Rightarrow> bool \<Rightarrow> database \<Rightarrow> bool" for sv wp db where
  start: "store_run sv wp db False db"
| deliver: "store_run sv wp db p db1 \<Longrightarrow> store_run sv wp db p (snd (snd (deliveries sv wp ds (m, db1))))"
| retain: "store_run sv wp db p db1 \<Longrightarrow> pruned db1 db2 \<Longrightarrow> store_run sv wp db True db2"

lemma pruned_tracked:
  assumes "pruned db db'" "tracked H B db"
  shows "tracked H B db'"
proof -
  have "subseq (health_rows db' i) (health_rows db i)" "subseq (heartbeat_rows db' i) (heartbeat_rows db i)" for i
    using assms(1) unfolding pruned_def health_rows_def heartbeat_rows_def
    by (simp_all add: subseq_filter subseq_map)
  moreover have "db_health_current db' = db_health_current db" "db_collector_status db' = db_collector_status db"
    using assms(1) by (simp_all add: pruned_def)
  ultimately show ?thesis using assms(2) unfolding tracked_def by (metis subseq_order.order_trans)
qed

lemma store_run_tracked:
  assumes "store_run sv wp db p db'" "current_ok db"
  shows "\<exists>H B. tracked H B db' \<and> (\<not> p \<longrightarrow> complete H B db')"
  using assms
proof (induction rule: store_run.induct)
  case start
  then show ?case by (auto simp: current_ok_def complete_def)
next
  case (deliver p db1 ds m)
  then show ?case using run_keeps_tracked [of db1 sv wp ds] unfolding keeps_tracked_def deliveries_stored by (simp, meson)
next
  case (retain p db1 db2)
  then show ?case using pruned_tracked by blast
qed

text \<open>C22: after any deliveries of any kind and any runs of the retention job in between, the current health of a device
  and the current status of a collector is at least as new as every row of its history, and there is no
  history without a current row.  As long as the retention job has not run, there is a current row exactly
  when there is a history, and it is the last stored of the newest rows for the health of a device and the
  first stored of the newest rows for the status of a collector.  (From a database in which this holds, such as a new one.)\<close>

theorem current_is_newest:
  assumes "store_run sv wp db p db'" and "current_ok db"
  shows "(\<forall>i. \<forall>h \<in> set (health_rows db' i). \<exists>r. map_of (db_health_current db') i = Some r \<and> hr_observed_at h \<le> hr_observed_at r)
    \<and> (\<forall>i. \<forall>h \<in> set (heartbeat_rows db' i). \<exists>r. map_of (db_collector_status db') i = Some r \<and> br_observed_at h \<le> br_observed_at r)
    \<and> (\<not> p \<longrightarrow> (\<forall>i. map_of (db_health_current db') i = None \<longleftrightarrow> health_rows db' i = [])
      \<and> (\<forall>i r. map_of (db_health_current db') i = Some r \<longrightarrow> (\<exists>as bs. health_rows db' i = as @ r # bs
           \<and> (\<forall>a \<in> set as. hr_observed_at a \<le> hr_observed_at r) \<and> (\<forall>b \<in> set bs. hr_observed_at b < hr_observed_at r)))
      \<and> (\<forall>i. map_of (db_collector_status db') i = None \<longleftrightarrow> heartbeat_rows db' i = [])
      \<and> (\<forall>i r. map_of (db_collector_status db') i = Some r \<longrightarrow> (\<exists>as bs. heartbeat_rows db' i = as @ r # bs
           \<and> (\<forall>a \<in> set as. br_observed_at a < br_observed_at r) \<and> (\<forall>b \<in> set bs. br_observed_at b \<le> br_observed_at r))))"
proof -
  obtain H B where inv: "tracked H B db'" and all: "\<not> p \<longrightarrow> complete H B db'" using store_run_tracked [OF assms] by blast
  have health: "map_of (db_health_current db') i = latest (\<le>) hr_observed_at (H i)" "set (health_rows db' i) \<subseteq> set (H i)"
    and status: "map_of (db_collector_status db') i = latest (<) br_observed_at (B i)" "set (heartbeat_rows db' i) \<subseteq> set (B i)" for i
    using inv by (auto simp: tracked_def dest!: subseq_set)
  have newest: "\<exists>as bs. H i = as @ r # bs \<and> (\<forall>a \<in> set as. hr_observed_at a \<le> hr_observed_at r) \<and> (\<forall>b \<in> set bs. hr_observed_at b < hr_observed_at r)"
    if "latest (\<le>) hr_observed_at (H i) = Some r" for i r
    using latest_Some [OF _ _ that] by (simp add: not_le)
  have newest': "\<exists>as bs. B i = as @ r # bs \<and> (\<forall>a \<in> set as. br_observed_at a < br_observed_at r) \<and> (\<forall>b \<in> set bs. br_observed_at b \<le> br_observed_at r)"
    if "latest (<) br_observed_at (B i) = Some r" for i r
    using latest_Some [OF _ _ that] by (simp add: not_less)
  have "\<exists>r. latest (\<le>) hr_observed_at (H i) = Some r \<and> hr_observed_at h \<le> hr_observed_at r" if "h \<in> set (H i)" for i h
  proof (cases "latest (\<le>) hr_observed_at (H i)")
    case (Some r)
    with newest [OF Some] that show ?thesis by force
  qed (use that in \<open>simp add: latest_None\<close>)
  moreover have "\<exists>r. latest (<) br_observed_at (B i) = Some r \<and> br_observed_at h \<le> br_observed_at r" if "h \<in> set (B i)" for i h
  proof (cases "latest (<) br_observed_at (B i)")
    case (Some r)
    with newest' [OF Some] that show ?thesis by force
  qed (use that in \<open>simp add: latest_None\<close>)
  ultimately have pruned: "\<forall>i. \<forall>h \<in> set (health_rows db' i). \<exists>r. map_of (db_health_current db') i = Some r \<and> hr_observed_at h \<le> hr_observed_at r"
      "\<forall>i. \<forall>h \<in> set (heartbeat_rows db' i). \<exists>r. map_of (db_collector_status db') i = Some r \<and> br_observed_at h \<le> br_observed_at r"
    using health status by (simp_all add: subset_iff)
  show ?thesis
  proof (cases p)
    case False
    then have "H = health_rows db'" "B = heartbeat_rows db'" using all by (simp_all add: complete_def)
    with pruned health(1) status(1) newest newest' show ?thesis by (simp add: latest_None)
  qed (use pruned in simp)
qed

section \<open>A device without a role\<close>

lemma roleless_tx:
  assumes "ts_Role s = []" "map_of (db_events db) (ts_EventID s) = None"
  shows "PersistDeviceTelemetry sv s db = Inl DbError"
proof -
  have "upsertDeviceV2 sv s db' = Inl DbError" for db'
    using assms(1) by (simp add: upsertDeviceV2_def Let_def exec_def device_fits_def nullif_def)
  with assms(2) show ?thesis
    by (simp add: PersistDeviceTelemetry_def once_def sql_bind_def sql_then_def insertIngestedEvent_def upsertSite_def exec_def)
qed

text \<open>C23: the device telemetry of a device whose inventory has no role, the default, passes the validation and is never
  stored: the column is \<open>NOT NULL\<close> and the insert proposes a null, so the transaction fails in every
  database, the message is not acknowledged, and the database is left as it was.\<close>

theorem roleless_device_stuck:
  assumes "deliverable rfc wp eventID now ctx r" "reportable r" "px_InventoryRole r = []"
    and "map_of (db_events db) eventID = None"
  shows "Handle sv wp env (Topic (DeviceTelemetry eventID now ctx r)) (to_json rfc (DeviceTelemetry eventID now ctx r)) (m, db)
    = (False, m\<lparr>mt_MessagesReceived := Suc (mt_MessagesReceived m), mt_DBWriteFailure := Suc (mt_DBWriteFailure m)\<rparr>, db)"
proof -
  let ?x = "DeviceTelemetry eventID now ctx r"
  from device_delivery [OF assms(1)] assms(2,3) obtain d where d:
    "Ingest.Validate wp (Topic ?x) (to_json rfc ?x) = Inr (MsgDeviceV2 d)" "vd_Role d = []" "ve_EventID (vd_Envelope d) = eventID"
    by (fastforce simp: envelope_of_def mk_envelope_def)
  then have "tx_of sv (MsgDeviceV2 d) db = Inl DbError"
    using roleless_tx [of "DeviceTelemetryFromValidated (sv_sha sv) d" db sv] assms(4)
    by (simp add: tx_of_def DeviceTelemetryFromValidated_def Let_def)
  then have "run_tx env (tx_of sv (MsgDeviceV2 d)) db = (Inl DbError, db)" by (simp add: run_tx_def)
  with d(1) show ?thesis by (simp add: Handle_tx Let_def settle_def write_failed_def)
qed

section \<open>A sample run\<close>

text \<open>The database after the migrations.\<close>

definition migrated :: database where
  "migrated = \<lparr>db_events = [], db_sites = [], db_devices = [], db_interfaces = [],
     db_metric_types = map (\<lambda>n. (n, n)) [''uptime_seconds'', ''cpu_utilization_pct'', ''memory_utilization_pct'',
       ''primary_temperature_c'', ''power_state'', ''power_watts'', ''power_volts'', ''power_amps''],
     db_metric_samples = [], db_interface_samples = [], db_temp_components = [], db_temp_readings = [],
     db_power_components = [], db_power_readings = [], db_health_history = [], db_health_current = [],
     db_collectors = [], db_heartbeat_history = [], db_collector_status = []\<rparr>"

definition no_counts :: ingestion where
  "no_counts = \<lparr>mt_MessagesReceived = 0, mt_MessagesAccepted = 0, mt_MessagesRejected = 0, mt_MessagesDeduplicated = 0,
     mt_DBWriteFailure = 0\<rparr>"

definition sample_store_env :: store_env where
  "sample_store_env = \<lparr>sv_sha = id, sv_inet = Some\<rparr>"

lemma migrated_ok: "seeded migrated" "current_ok migrated"
  by (simp_all add: seeded_def migrated_def current_ok_def tracked_def health_rows_def heartbeat_rows_def)

text \<open>A heartbeat whose commit is not confirmed, delivered again.\<close>

definition beat :: "tx_env \<Rightarrow> delivery" where
  "beat env = (env, Topic (Heartbeat (digits 9) 5 sample_ctx sample_heartbeat),
     to_json sample_rfc (Heartbeat (digits 9) 5 sample_ctx sample_heartbeat))"

lemma delivered_once_witness:
  "\<exists>ds'. subseq ds' [beat CommitLost, beat TxFails, beat TxWorks] \<and> distinct (map (event_of sample_wire) ds')"
proof -
  have "list_all is_v2 [beat CommitLost, beat TxFails, beat TxWorks]"
    using v2_topic_contains(2) [of "tc_SiteID sample_ctx" "tc_CollectorID sample_ctx"]
    by (simp add: is_v2_def beat_def Heartbeat_def mk_envelope_def)
  from delivered_once [OF this migrated_ok(1), of sample_wire sample_store_env no_counts] show ?thesis by blast
qed

lemma current_is_newest_witness:
  "\<exists>db'. db' = snd (snd (deliveries sample_store_env sample_wire [beat CommitLost, beat TxWorks] (no_counts, migrated)))
     \<and> (\<forall>i. map_of (db_collector_status db') i = None \<longleftrightarrow> heartbeat_rows db' i = [])"
  using current_is_newest [OF store_run.deliver [OF store_run.start] migrated_ok(2),
      of sample_store_env sample_wire "[beat CommitLost, beat TxWorks]" no_counts]
  by blast

lemma roleless_device_stuck_witness:
  "fst (Handle sample_store_env sample_wire TxWorks (Topic (DeviceTelemetry (digits 4) 5 sample_ctx (sample_poll\<lparr>px_InventoryRole := []\<rparr>)))
    (to_json sample_rfc (DeviceTelemetry (digits 4) 5 sample_ctx (sample_poll\<lparr>px_InventoryRole := []\<rparr>))) (no_counts, migrated)) = False"
proof -
  have "deliverable sample_rfc sample_wire (digits 4) 5 sample_ctx (sample_poll\<lparr>px_InventoryRole := []\<rparr>)"
    "reportable (sample_poll\<lparr>px_InventoryRole := []\<rparr>)" "map_of (db_events migrated) (digits 4) = None"
    using sample_deliverable sample_reportable by (simp_all add: deliverable_def reportable_def migrated_def)
  from roleless_device_stuck [OF this(1,2) _ this(3)] show ?thesis by simp
qed

end
