(* ===== verification/Managed.thy ===== *)
theory Managed
  imports Config
begin

text \<open>
  The managed inventory on disk and the reload of the configuration
  (\<open>internal/config/config.go\<close>, \<open>internal/config/snapshot.go\<close>): \<open>WriteManagedDocument\<close>,
  \<open>WriteManagedInventory\<close>, \<open>ValidatePendingDependencyMutation\<close>, \<open>Load\<close> and \<open>Manager.Reload\<close>.

  The disk holds the decoded configuration file and the managed document.  What decoding an encoded
  document gives is an argument, \<open>le_Stored\<close> (the YAML library); a write fails before or after the
  file is replaced, as a \<open>write_fault\<close> says.  The temporary file is in the same directory, so the
  copy for another device does not arise.
\<close>

record disk =
  dk_Raw :: config
  dk_Managed :: managed_inventory

record load_env =
  le_Parsers :: parsers
  le_Broker :: string
  le_Password :: string
  le_Stored :: "managed_inventory \<Rightarrow> managed_inventory"

section \<open>Reading and loading\<close>

definition ManagedInventoryPath :: "config \<Rightarrow> string" where
  "ManagedInventoryPath c = (if trim_space (c_ManagedPath c) = [] then [] else c_ManagedPath c)"

definition ReadManagedDocument :: "string \<Rightarrow> disk \<Rightarrow> managed_inventory" where
  "ReadManagedDocument path dk = (if trim_space path = [] then empty_managed else dk_Managed dk)"

definition Load :: "load_env \<Rightarrow> disk \<Rightarrow> string + config" where
  "Load env dk = load_config (le_Parsers env) True (le_Broker env) (le_Password env) (dk_Raw dk)
     (Inr (ReadManagedDocument (c_ManagedPath (dk_Raw dk)) dk))"

definition validateReload :: "config \<Rightarrow> config \<Rightarrow> string option" where
  "validateReload current new = first_err
     [fail_if (c_SiteID current \<noteq> c_SiteID new) ''site_id cannot change during reload'',
      fail_if (c_CollectorID current \<noteq> c_CollectorID new) ''collector.id cannot change during reload'',
      fail_if (c_AdminListen current \<noteq> c_AdminListen new \<or> c_ControlSocket current \<noteq> c_ControlSocket new)
        ''admin settings cannot change during reload'',
      fail_if (c_PublisherMode current \<noteq> c_PublisherMode new \<or> c_PublisherTimeout current \<noteq> c_PublisherTimeout new
          \<or> c_TelemetryVersion current \<noteq> c_TelemetryVersion new) ''publisher settings cannot change during reload'',
      fail_if (c_Buffer current \<noteq> c_Buffer new) ''buffer settings cannot change during reload'',
      fail_if (c_MQTT current \<noteq> c_MQTT new) ''mqtt settings cannot change during reload'']"

definition Reload :: "load_env \<Rightarrow> disk \<Rightarrow> config \<Rightarrow> string + config" where
  "Reload env dk current =
     (case Load env dk of
        Inl e \<Rightarrow> Inl e
      | Inr new \<Rightarrow> (case validateReload current new of Some e \<Rightarrow> Inl e | None \<Rightarrow> Inr new))"

section \<open>Writing\<close>

datatype write_fault = NoFault | FaultBefore string | FaultAfter string

definition normalized :: "managed_inventory \<Rightarrow> managed_inventory" where
  "normalized m = m\<lparr>mi_Devices := applyDeviceDefaults (mi_Devices m)\<rparr>"

definition validate_written :: "parsers \<Rightarrow> managed_inventory \<Rightarrow> string option" where
  "validate_written ps m = first_err
     [first_err (map (\<lambda>d. if trim_space (dc_Host d) = [] then validateManagedOverlay ps d else None) (mi_Devices m)),
      validateDeviceSource ps (filter (\<lambda>d. trim_space (dc_Host d) \<noteq> []) (mi_Devices m)),
      managed_policy_errors m]"

definition WriteManagedDocument :: "load_env \<Rightarrow> write_fault \<Rightarrow> string \<Rightarrow> managed_inventory \<Rightarrow> disk \<Rightarrow> string option \<times> disk" where
  "WriteManagedDocument env fault path m dk =
     (if trim_space path = [] then (Some ''managed inventory path is required'', dk)
      else
        (let n = normalized m; written = dk\<lparr>dk_Managed := le_Stored env n\<rparr> in
         case validate_written (le_Parsers env) n of
           Some e \<Rightarrow> (Some e, dk)
         | None \<Rightarrow> (case fault of
              NoFault \<Rightarrow> (None, written)
            | FaultBefore e \<Rightarrow> (Some e, dk)
            | FaultAfter e \<Rightarrow> (Some e, written))))"

definition WriteManagedInventory :: "load_env \<Rightarrow> write_fault \<Rightarrow> string \<Rightarrow> device_config list \<Rightarrow> disk \<Rightarrow> string option \<times> disk" where
  "WriteManagedInventory env fault path ds dk =
     WriteManagedDocument env fault path ((ReadManagedDocument path dk)\<lparr>mi_Devices := ds\<rparr>) dk"

section \<open>Entries\<close>

text \<open>The loops that look for the entry of a device change the first one, or append one.\<close>

fun update_first :: "string \<Rightarrow> (device_config \<Rightarrow> device_config) \<Rightarrow> device_config list \<Rightarrow> device_config list" where
  "update_first i f [] = []"
| "update_first i f (d # ds) = (if dc_ID d = i then f d # ds else d # update_first i f ds)"

definition upsert_entry :: "string \<Rightarrow> (device_config \<Rightarrow> device_config) \<Rightarrow> device_config \<Rightarrow> device_config list \<Rightarrow> device_config list" where
  "upsert_entry i f new ds = (if list_ex (\<lambda>d. dc_ID d = i) ds then update_first i f ds else ds @ [new])"

definition ValidatePendingDependencyMutation :: "disk \<Rightarrow> string \<Rightarrow> string \<Rightarrow> string list \<Rightarrow> string option" where
  "ValidatePendingDependencyMutation dk path i us =
     (let statics = applyDeviceDefaults (c_Devices (dk_Raw dk));
          managed = upsert_entry i (\<lambda>d. d\<lparr>dc_UpstreamDeviceIDs := append_nil us\<rparr>)
            ((mk_device i)\<lparr>dc_UpstreamDeviceIDs := Some us\<rparr>) (mi_Devices (ReadManagedDocument path dk));
          merged = mergeInventories statics managed
      in if \<not> list_ex (\<lambda>d. dc_ID d = i) merged then Some ''device_id not found in active inventory''
         else map_option (\<lambda>_. ''dependencies'') (validateDependencies merged))"

end
