(* ===== verification/Review.thy ===== *)
theory Review
  imports Managed
begin

text \<open>
  The review of discovery results (\<open>internal/discovery/review.go\<close>): which approved candidates become
  managed devices.  \<open>parse\<close> is \<open>netip.ParseAddr\<close> followed by \<open>Unmap\<close> and \<open>String\<close>: two addresses are
  equal after \<open>Unmap\<close> when their texts are.  The files of candidates and reviews are not modelled.
\<close>

record candidate =
  ca_IP :: string
  ca_Fingerprint :: string
  ca_DetectedProfile :: string
  ca_Hostname :: string
  ca_Description :: string
  ca_Result :: string
  ca_Error :: string
  ca_Timestamp :: time

definition ProbeSucceeded :: string where "ProbeSucceeded = ''success''"
definition ProbeFailed :: string where "ProbeFailed = ''error''"

record review =
  rv_Candidate :: candidate
  rv_Device :: device_config
  rv_Approved :: bool

type_synonym addr_parser = "string \<Rightarrow> string option"

definition canonicalHost_review :: "addr_parser \<Rightarrow> string \<Rightarrow> string" where
  "canonicalHost_review parse host =
     (let h = trim_space (if suffix ''.'' host then butlast host else host)
      in case parse h of Some ip \<Rightarrow> ip | None \<Rightarrow> to_lower h)"

text \<open>The checks of one approved review, and the device it proposes.\<close>

definition proposed_device :: "addr_parser \<Rightarrow> review \<Rightarrow> string + device_config" where
  "proposed_device parse r =
     (let d = rv_Device r; c = rv_Candidate r;
          d1 = (if dc_Port d = 0 then d\<lparr>dc_Port := 161\<rparr> else d);
          d2 = (if dc_Version d1 = [] then d1\<lparr>dc_Version := ''2c''\<rparr> else d1);
          d3 = (if dc_Vendor d2 = [] \<and> ca_DetectedProfile c \<in> {''core'', ''cisco'', ''arista''}
                then d2\<lparr>dc_Vendor := ca_DetectedProfile c\<rparr> else d2)
      in if ca_Result c \<noteq> ProbeSucceeded then Inl ''only successful candidates can be approved''
         else (case parse (trim_space (ca_IP c)) of
            None \<Rightarrow> Inl ''candidate IP is invalid''
          | Some ip \<Rightarrow>
              if parse (trim_space (dc_Host d)) \<noteq> Some ip then Inl ''device host must match candidate IP''
              else if trim_space (dc_ID d) = [] then Inl ''device ID is required''
              else if trim_space (dc_CommunityEnv d) = [] then Inl ''community_env is required''
              else if dc_Version d2 \<noteq> ''2c'' then Inl ''only SNMP version 2c is supported''
              else Inr d3))"

fun approve :: "addr_parser \<Rightarrow> string list \<Rightarrow> string list \<Rightarrow> review list \<Rightarrow> string + device_config list" where
  "approve parse seenIDs seenHosts [] = Inr []"
| "approve parse seenIDs seenHosts (r # rs) =
     (if \<not> rv_Approved r then approve parse seenIDs seenHosts rs
      else (case proposed_device parse r of
          Inl e \<Rightarrow> Inl e
        | Inr d \<Rightarrow>
            if dc_ID d \<in> set seenIDs then Inl ''duplicate reviewed device ID''
            else if canonicalHost_review parse (dc_Host d) \<in> set seenHosts then Inl ''duplicate reviewed device host''
            else (case approve parse (dc_ID d # seenIDs) (canonicalHost_review parse (dc_Host d) # seenHosts) rs of
                Inl e \<Rightarrow> Inl e
              | Inr ds \<Rightarrow> Inr (d # ds))))"

definition approvedDevices :: "addr_parser \<Rightarrow> review list \<Rightarrow> string + device_config list" where
  "approvedDevices parse reviews =
     (case approve parse [] [] reviews of
        Inl e \<Rightarrow> Inl e
      | Inr [] \<Rightarrow> Inl ''at least one approved candidate is required''
      | Inr ds \<Rightarrow> Inr ds)"

definition rejectActiveDuplicates :: "addr_parser \<Rightarrow> device_config list \<Rightarrow> device_config list \<Rightarrow> string option" where
  "rejectActiveDuplicates parse active proposed =
     first_err (map (\<lambda>d. if dc_ID d \<in> dc_ID ` set active then Some ''device ID already exists in active inventory''
       else fail_if (canonicalHost_review parse (dc_Host d) \<in> (\<lambda>a. canonicalHost_review parse (dc_Host a)) ` set active)
         ''device host already exists in active inventory'') proposed)"

definition filterNewManagedAppends :: "addr_parser \<Rightarrow> device_config list \<Rightarrow> device_config list \<Rightarrow> device_config list" where
  "filterNewManagedAppends parse currentManaged proposed =
     (let ids = map dc_ID (filter (\<lambda>d. trim_space (dc_ID d) \<noteq> []) currentManaged);
          hosts = map (\<lambda>d. canonicalHost_review parse (dc_Host d)) (filter (\<lambda>d. trim_space (dc_Host d) \<noteq> []) currentManaged)
      in filter (\<lambda>d. dc_ID d \<notin> set ids \<and> canonicalHost_review parse (dc_Host d) \<notin> set hosts) proposed)"

definition AcceptReviewed :: "addr_parser \<Rightarrow> load_env \<Rightarrow> write_fault \<Rightarrow> string \<Rightarrow> device_config list \<Rightarrow> device_config list
    \<Rightarrow> review list \<Rightarrow> disk \<Rightarrow> string option \<times> disk" where
  "AcceptReviewed parse env fault path currentManaged active reviews dk =
     (case approvedDevices parse reviews of
        Inl e \<Rightarrow> (Some e, dk)
      | Inr devices \<Rightarrow> (case rejectActiveDuplicates parse active devices of
          Some e \<Rightarrow> (Some e, dk)
        | None \<Rightarrow>
            (let new = filterNewManagedAppends parse currentManaged devices in
             if new = [] then (None, dk)
             else WriteManagedInventory env fault path (currentManaged @ new) dk)))"

end
