(* ===== verification/Control.thy ===== *)
theory Control
  imports Poller Review
begin

text \<open>
  The mutating side of the control plane (\<open>internal/control\<close>: \<open>pending.go\<close>, the prepare and commit
  handlers and \<open>config.reload\<close> of \<open>handlers.go\<close> and \<open>discovery_handlers.go\<close>, \<open>discovery_scan.go\<close>).

  A request carries its decoded parameters, the clock, the random token (or none, when reading the
  random source fails) and what becomes of a write.  \<open>any\<close> is what \<open>encoding/json\<close> decodes into an
  empty interface.  The revision of a configuration (a hash) is an argument, and so is what
  \<open>fmt.Sprint\<close> makes of a number, a list or an object.  Messages and times of the audit log are left out.
\<close>

datatype any = AnyNil | AnyBool bool | AnyFloat f64 | AnyStr string | AnyArr "any list" | AnyObj "(string \<times> any) list"

type_synonym params = "(string, any) gomap"

datatype proto_code = CodeUnsupportedVersion | CodeInvalidRequest | CodeMethodNotFound | CodeConfirmExpired
  | CodeRevisionMismatch | CodeValidationFailed | CodeConfigReloadFailed | CodeNotFound | CodeConflict | CodeInternal

record pending_mutation =
  pm_Token :: string
  pm_Revision :: string
  pm_Action :: string
  pm_ExpiresAt :: time
  pm_Payload :: params

record audit_entry =
  au_Action :: string
  au_Success :: bool
  au_Code :: "proto_code option"
  au_Revision :: string

record control =
  ct_Disk :: disk
  ct_Current :: config
  ct_Pending :: "(string, pending_mutation) gomap"
  ct_Status :: status_store
  ct_Audit :: "audit_entry list"

record control_env =
  ce_Load :: load_env
  ce_Addr :: addr_parser
  ce_Machine :: machine
  ce_Uint16 :: "f64 \<Rightarrow> int"
  ce_Sprint :: "any \<Rightarrow> string"
  ce_Revision :: "config \<Rightarrow> string"

record request =
  rq_Method :: string
  rq_Params :: params
  rq_Now :: time
  rq_Token :: "string option"
  rq_Fault :: write_fault

datatype answer = Failed proto_code | Prepared string string time | Committed string | Reloaded string nat

section \<open>Parameters\<close>

definition param :: "params \<Rightarrow> string \<Rightarrow> any" where
  "param ps k = get0 ps AnyNil k"

definition text_param :: "params \<Rightarrow> string \<Rightarrow> string" where
  "text_param ps k = (case param ps k of AnyStr s \<Rightarrow> s | _ \<Rightarrow> [])"

definition asFloat :: "any \<Rightarrow> f64 option" where
  "asFloat v = (case v of AnyFloat x \<Rightarrow> Some x | _ \<Rightarrow> None)"

fun strings_of :: "any list \<Rightarrow> string list option" where
  "strings_of [] = Some []"
| "strings_of (AnyStr s # vs) = map_option ((#) s) (strings_of vs)"
| "strings_of (_ # vs) = None"

definition asStringSlice :: "any \<Rightarrow> string list option" where
  "asStringSlice v = (case v of AnyArr vs \<Rightarrow> strings_of vs | AnyNil \<Rightarrow> Some [] | _ \<Rightarrow> None)"

definition invalid_if :: "bool \<Rightarrow> proto_code option" where
  "invalid_if b = (if b then Some CodeValidationFailed else None)"

definition validateThresholdParams :: "params \<Rightarrow> proto_code option" where
  "validateThresholdParams ps = invalid_if
     ((map_of ps ''temperature_warning_c'' \<noteq> None \<and> asFloat (param ps ''temperature_warning_c'') = None)
      \<or> (param ps ''device_id'' \<noteq> AnyNil \<and> text_param ps ''device_id'' = [])
      \<or> param ps ''temperature_warning_c'' = AnyNil)"

definition validateDependencyParams :: "params \<Rightarrow> proto_code option" where
  "validateDependencyParams ps = invalid_if
     (text_param ps ''device_id'' = [] \<or> map_of ps ''upstream_device_ids'' = None
      \<or> asStringSlice (param ps ''upstream_device_ids'') = None)"

definition bool_param :: "params \<Rightarrow> string \<Rightarrow> bool option" where
  "bool_param ps k = (case param ps k of AnyBool b \<Rightarrow> Some b | _ \<Rightarrow> None)"

definition validateAlertingParams :: "params \<Rightarrow> proto_code option" where
  "validateAlertingParams ps = invalid_if (text_param ps ''device_id'' = [] \<or> bool_param ps ''alerts_enabled'' = None)"

definition validateDiscoveryPolicyParams :: "params \<Rightarrow> proto_code option" where
  "validateDiscoveryPolicyParams ps =
     (case asStringSlice (param ps ''allowed_cidrs'') of
        None \<Rightarrow> Some CodeValidationFailed
      | Some cidrs \<Rightarrow> invalid_if
          (cidrs = [] \<or> list_ex (\<lambda>c. trim_space c = []) cidrs
           \<or> (param ps ''community_env'' \<noteq> AnyNil \<and> trim_space (text_param ps ''community_env'') = [])
           \<or> (param ps ''max_probes_per_second'' \<noteq> AnyNil \<and> asFloat (param ps ''max_probes_per_second'') = None)
           \<or> (param ps ''probe_burst'' \<noteq> AnyNil \<and> asFloat (param ps ''probe_burst'') = None)))"

definition validateDiscoveryAcceptParams :: "params \<Rightarrow> proto_code option" where
  "validateDiscoveryAcceptParams ps = invalid_if (case param ps ''reviews'' of AnyArr vs \<Rightarrow> vs = [] | _ \<Rightarrow> True)"

section \<open>Reviews\<close>

definition Sprint :: "control_env \<Rightarrow> any \<Rightarrow> string" where
  "Sprint env v = (case v of AnyStr s \<Rightarrow> s | AnyNil \<Rightarrow> ''<nil>'' | AnyBool b \<Rightarrow> (if b then ''true'' else ''false'') | _ \<Rightarrow> ce_Sprint env v)"

definition to_uint16 :: "control_env \<Rightarrow> f64 \<Rightarrow> int" where
  "to_uint16 env x = (case x of
      Fin v \<Rightarrow> let i = (if v < 0 then \<lceil>v\<rceil> else \<lfloor>v\<rfloor>) in if 0 \<le> i \<and> i < 2 ^ 16 then i else ce_Uint16 env x
    | _ \<Rightarrow> ce_Uint16 env x)"

definition empty_candidate :: candidate where
  "empty_candidate = \<lparr>ca_IP = [], ca_Fingerprint = [], ca_DetectedProfile = [], ca_Hostname = [], ca_Description = [],
     ca_Result = [], ca_Error = [], ca_Timestamp = 0\<rparr>"

definition review_candidate :: "control_env \<Rightarrow> params \<Rightarrow> candidate" where
  "review_candidate env m = (case param m ''candidate'' of
      AnyObj c \<Rightarrow> empty_candidate\<lparr>ca_IP := Sprint env (param c ''ip''), ca_Fingerprint := Sprint env (param c ''fingerprint''),
        ca_DetectedProfile := Sprint env (param c ''detected_profile''), ca_Hostname := Sprint env (param c ''hostname''),
        ca_Description := Sprint env (param c ''description''), ca_Result := Sprint env (param c ''result'')\<rparr>
    | _ \<Rightarrow> empty_candidate)"

definition review_device :: "control_env \<Rightarrow> params \<Rightarrow> device_config" where
  "review_device env m = (case param m ''device'' of
      AnyObj d \<Rightarrow>
        (let version = Sprint env (param d ''version'') in
         (mk_device (Sprint env (param d ''id'')))\<lparr>dc_Host := Sprint env (param d ''host''),
           dc_Port := (case asFloat (param d ''port'') of Some p \<Rightarrow> to_uint16 env p | None \<Rightarrow> 0),
           dc_CommunityEnv := Sprint env (param d ''community_env''),
           dc_Version := (if version = [] then ''2c'' else version)\<rparr>)
    | _ \<Rightarrow> mk_device [])"

fun parse_reviews :: "control_env \<Rightarrow> any list \<Rightarrow> review list option" where
  "parse_reviews env [] = Some []"
| "parse_reviews env (AnyObj m # vs) =
     map_option ((#) \<lparr>rv_Candidate = review_candidate env m, rv_Device = review_device env m,
       rv_Approved = (case bool_param m ''approved'' of Some b \<Rightarrow> b | None \<Rightarrow> True)\<rparr>) (parse_reviews env vs)"
| "parse_reviews env (_ # vs) = None"

definition parseReviewedCandidates :: "control_env \<Rightarrow> any \<Rightarrow> review list option" where
  "parseReviewedCandidates env v = (case v of AnyArr vs \<Rightarrow> parse_reviews env vs | _ \<Rightarrow> None)"

section \<open>The mutations\<close>

definition device_known :: "control \<Rightarrow> string \<Rightarrow> bool" where
  "device_known s i \<longleftrightarrow> list_ex (\<lambda>d. dc_ID d = i) (c_Devices (ct_Current s))"

definition managed_path :: "control \<Rightarrow> string" where
  "managed_path s = ManagedInventoryPath (ct_Current s)"

definition write_document :: "control_env \<Rightarrow> request \<Rightarrow> managed_inventory \<Rightarrow> control \<Rightarrow> proto_code option \<times> control" where
  "write_document env rq doc s =
     (case WriteManagedDocument (ce_Load env) (rq_Fault rq) (managed_path s) doc (ct_Disk s) of
        (e, dk) \<Rightarrow> (map_option (\<lambda>_. CodeValidationFailed) e, s\<lparr>ct_Disk := dk\<rparr>))"

definition document :: "control \<Rightarrow> managed_inventory" where
  "document s = ReadManagedDocument (managed_path s) (ct_Disk s)"

definition set_entry :: "string \<Rightarrow> (device_config \<Rightarrow> device_config) \<Rightarrow> managed_inventory \<Rightarrow> managed_inventory" where
  "set_entry i f m = m\<lparr>mi_Devices := upsert_entry i f (f (mk_device i)) (mi_Devices m)\<rparr>"

definition applyThresholdMutation :: "control_env \<Rightarrow> request \<Rightarrow> params \<Rightarrow> control \<Rightarrow> proto_code option \<times> control" where
  "applyThresholdMutation env rq ps s =
     (if managed_path s = [] then (Some CodeValidationFailed, s)
      else (case asFloat (param ps ''temperature_warning_c'') of
          None \<Rightarrow> (Some CodeValidationFailed, s)
        | Some v \<Rightarrow>
            (let i = text_param ps ''device_id'' in
             if i \<noteq> [] \<and> \<not> device_known s i then (Some CodeValidationFailed, s)
             else if i = [] then write_document env rq ((document s)\<lparr>mi_TemperatureWarningC := Some v\<rparr>) s
             else write_document env rq (set_entry i (\<lambda>d. d\<lparr>dc_TemperatureWarningC := Some v\<rparr>) (document s)) s)))"

text \<open>The check of the targets runs before the lock of the mutations is taken; what follows holds the lock.\<close>

definition validateDependencyTargets :: "params \<Rightarrow> control \<Rightarrow> proto_code option" where
  "validateDependencyTargets ps s =
     (if managed_path s = [] then Some CodeValidationFailed
      else (case asStringSlice (param ps ''upstream_device_ids'') of
          None \<Rightarrow> Some CodeValidationFailed
        | Some us \<Rightarrow>
            (let i = text_param ps ''device_id'' in
             if \<not> device_known s i then Some CodeValidationFailed
             else map_option (\<lambda>_. CodeValidationFailed)
               (ValidatePendingDependencyMutation (ct_Disk s) (managed_path s) i us))))"

definition writeDependencies :: "control_env \<Rightarrow> request \<Rightarrow> params \<Rightarrow> control \<Rightarrow> proto_code option \<times> control" where
  "writeDependencies env rq ps s =
     (case asStringSlice (param ps ''upstream_device_ids'') of
        None \<Rightarrow> (Some CodeValidationFailed, s)
      | Some us \<Rightarrow> write_document env rq
          (set_entry (text_param ps ''device_id'') (\<lambda>d. d\<lparr>dc_UpstreamDeviceIDs := Some us\<rparr>) (document s)) s)"

definition applyDependencyMutation :: "control_env \<Rightarrow> request \<Rightarrow> params \<Rightarrow> control \<Rightarrow> proto_code option \<times> control" where
  "applyDependencyMutation env rq ps s =
     (case validateDependencyTargets ps s of
        Some e \<Rightarrow> (Some e, s)
      | None \<Rightarrow> writeDependencies env rq ps s)"

definition applyAlertingMutation :: "control_env \<Rightarrow> request \<Rightarrow> params \<Rightarrow> control \<Rightarrow> proto_code option \<times> control" where
  "applyAlertingMutation env rq ps s =
     (if managed_path s = [] then (Some CodeValidationFailed, s)
      else (case bool_param ps ''alerts_enabled'' of
          None \<Rightarrow> (Some CodeValidationFailed, s)
        | Some b \<Rightarrow>
            (let i = text_param ps ''device_id'' in
             if \<not> device_known s i then (Some CodeValidationFailed, s)
             else write_document env rq (set_entry i (\<lambda>d. d\<lparr>dc_AlertsEnabled := Some b\<rparr>) (document s)) s)))"

definition policy_float :: "params \<Rightarrow> string \<Rightarrow> f64 option option" where
  "policy_float ps k = (if param ps k = AnyNil then Some None else map_option Some (asFloat (param ps k)))"

definition applyDiscoveryPolicyMutation :: "control_env \<Rightarrow> request \<Rightarrow> params \<Rightarrow> control \<Rightarrow> proto_code option \<times> control" where
  "applyDiscoveryPolicyMutation env rq ps s =
     (if managed_path s = [] then (Some CodeValidationFailed, s)
      else (case (asStringSlice (param ps ''allowed_cidrs''), policy_float ps ''max_probes_per_second'',
          policy_float ps ''probe_burst'', policy_float ps ''max_targets'') of
        (Some cidrs, Some rate, Some burst, Some targets) \<Rightarrow>
          (let p = mi_Discovery (document s);
               name = trim_space (text_param ps ''community_env'');
               int_of = to_int64 (ce_Machine env);
               p' = p\<lparr>md_AllowedCIDRs := cidrs,
                 md_CommunityEnv := (if name \<noteq> [] then name else md_CommunityEnv p),
                 md_MaxProbesPerSecond := (if rate \<noteq> None then rate else md_MaxProbesPerSecond p),
                 md_ProbeBurst := (if burst \<noteq> None then map_option int_of burst else md_ProbeBurst p),
                 md_MaxTargets := (if targets \<noteq> None then map_option int_of targets else md_MaxTargets p)\<rparr>
           in write_document env rq ((document s)\<lparr>mi_Discovery := p'\<rparr>) s)
      | _ \<Rightarrow> (Some CodeValidationFailed, s)))"

definition applyDiscoveryAcceptMutation :: "control_env \<Rightarrow> request \<Rightarrow> params \<Rightarrow> control \<Rightarrow> proto_code option \<times> control" where
  "applyDiscoveryAcceptMutation env rq ps s =
     (if managed_path s = [] then (Some CodeValidationFailed, s)
      else (case parseReviewedCandidates env (param ps ''reviews'') of
          None \<Rightarrow> (Some CodeValidationFailed, s)
        | Some reviews \<Rightarrow>
            (case AcceptReviewed (ce_Addr env) (ce_Load env) (rq_Fault rq) (managed_path s) (mi_Devices (document s))
                (c_Devices (ct_Current s)) reviews (ct_Disk s) of
               (e, dk) \<Rightarrow> (map_option (\<lambda>_. CodeValidationFailed) e, s\<lparr>ct_Disk := dk\<rparr>))))"

section \<open>Prepare and commit\<close>

definition ConfirmTTL :: duration where "ConfirmTTL = 60 * Second"

definition activeRevision :: "control_env \<Rightarrow> control \<Rightarrow> string" where
  "activeRevision env s = ce_Revision env (ct_Current s)"

definition record_audit :: "string \<Rightarrow> bool \<Rightarrow> proto_code option \<Rightarrow> string \<Rightarrow> control \<Rightarrow> control" where
  "record_audit action success code revision s =
     s\<lparr>ct_Audit := ct_Audit s @ [\<lparr>au_Action = action, au_Success = success, au_Code = code, au_Revision = revision\<rparr>]\<rparr>"

definition put_pending :: "request \<Rightarrow> string \<Rightarrow> string \<Rightarrow> params \<Rightarrow> control \<Rightarrow> pending_mutation option \<times> control" where
  "put_pending rq action revision payload s =
     (case rq_Token rq of
        None \<Rightarrow> (None, s)
      | Some token \<Rightarrow>
          (let item = \<lparr>pm_Token = token, pm_Revision = revision, pm_Action = action,
               pm_ExpiresAt = rq_Now rq + ConfirmTTL, pm_Payload = payload\<rparr>
           in (Some item, s\<lparr>ct_Pending := AList.update token item (ct_Pending s)\<rparr>)))"

definition take_pending :: "request \<Rightarrow> string \<Rightarrow> string \<Rightarrow> string \<Rightarrow> control \<Rightarrow> (proto_code + pending_mutation) \<times> control" where
  "take_pending rq token revision action s =
     (case map_of (ct_Pending s) token of
        None \<Rightarrow> (Inl CodeConfirmExpired, s)
      | Some item \<Rightarrow>
          (if rq_Now rq > pm_ExpiresAt item then Inl CodeConfirmExpired
           else if pm_Action item \<noteq> action then Inl CodeInvalidRequest
           else if pm_Revision item \<noteq> revision then Inl CodeRevisionMismatch
           else Inr item,
           s\<lparr>ct_Pending := AList.delete token (ct_Pending s)\<rparr>))"

text \<open>The five prepare handlers and the five commit handlers; only some of them write failures to the audit log.\<close>

record mutation =
  mu_Action :: string
  mu_Check :: "params \<Rightarrow> proto_code option"
  mu_Apply :: "control_env \<Rightarrow> request \<Rightarrow> params \<Rightarrow> control \<Rightarrow> proto_code option \<times> control"
  mu_AuditPrepare :: bool
  mu_AuditCommit :: bool

definition handlePrepare :: "control_env \<Rightarrow> mutation \<Rightarrow> request \<Rightarrow> control \<Rightarrow> answer \<times> control" where
  "handlePrepare env mu rq s =
     (let action = mu_Action mu @ ''.prepare'' in
      case mu_Check mu (rq_Params rq) of
        Some e \<Rightarrow> (Failed e, if mu_AuditPrepare mu then record_audit action False (Some CodeValidationFailed) [] s else s)
      | None \<Rightarrow>
          (let rev = activeRevision env s in
           case put_pending rq (mu_Action mu) rev (rq_Params rq) s of
             (None, s') \<Rightarrow> (Failed CodeInternal, s')
           | (Some item, s') \<Rightarrow> (Prepared (pm_Token item) (pm_Revision item) (pm_ExpiresAt item),
               record_audit action True None rev s')))"

definition handleCommit :: "control_env \<Rightarrow> mutation \<Rightarrow> request \<Rightarrow> control \<Rightarrow> answer \<times> control" where
  "handleCommit env mu rq s =
     (let action = mu_Action mu @ ''.commit'';
          fail = (\<lambda>code audit_code rev s. (Failed code, if mu_AuditCommit mu then record_audit action False (Some audit_code) rev s else s));
          token = text_param (rq_Params rq) ''confirm_token'';
          revision = text_param (rq_Params rq) ''revision''
      in if token = [] \<or> revision = [] then fail CodeInvalidRequest CodeInvalidRequest [] s
         else if revision \<noteq> activeRevision env s then fail CodeRevisionMismatch CodeRevisionMismatch (activeRevision env s) s
         else (case take_pending rq token revision (mu_Action mu) s of
             (Inl e, s') \<Rightarrow> fail e e revision s'
           | (Inr item, s') \<Rightarrow> (case mu_Apply mu env rq (pm_Payload item) s' of
                 (Some e, s'') \<Rightarrow> fail e CodeValidationFailed revision s''
               | (None, s'') \<Rightarrow> (Committed revision, record_audit action True None revision s''))))"

definition handleConfigReload :: "control_env \<Rightarrow> request \<Rightarrow> control \<Rightarrow> answer \<times> control" where
  "handleConfigReload env rq s =
     (case Reload (ce_Load env) (ct_Disk s) (ct_Current s) of
        Inl e \<Rightarrow>
          (Failed CodeConfigReloadFailed,
           record_audit ''config.reload'' False (Some CodeConfigReloadFailed) []
             (s\<lparr>ct_Status := RecordReload (rq_Now rq) False e (activeRevision env s) (ct_Status s)\<rparr>))
      | Inr c \<Rightarrow>
          (let rev = ce_Revision env c in
           (Reloaded rev (length (c_Devices c)),
            record_audit ''config.reload'' True None rev
              (s\<lparr>ct_Current := c,
                 ct_Status := SetRevision rev (RecordReload (rq_Now rq) True [] rev (ct_Status s))\<rparr>))))"

definition thresholds :: mutation where
  "thresholds = \<lparr>mu_Action = ''thresholds'', mu_Check = validateThresholdParams, mu_Apply = applyThresholdMutation,
     mu_AuditPrepare = True, mu_AuditCommit = True\<rparr>"

definition dependencies :: mutation where
  "dependencies = \<lparr>mu_Action = ''dependencies'', mu_Check = validateDependencyParams, mu_Apply = applyDependencyMutation,
     mu_AuditPrepare = True, mu_AuditCommit = True\<rparr>"

definition alerting :: mutation where
  "alerting = \<lparr>mu_Action = ''device.alerting'', mu_Check = validateAlertingParams, mu_Apply = applyAlertingMutation,
     mu_AuditPrepare = True, mu_AuditCommit = True\<rparr>"

definition discovery_policy :: mutation where
  "discovery_policy = \<lparr>mu_Action = ''discovery.policy'', mu_Check = validateDiscoveryPolicyParams, mu_Apply = applyDiscoveryPolicyMutation,
     mu_AuditPrepare = True, mu_AuditCommit = False\<rparr>"

definition discovery_accept :: mutation where
  "discovery_accept = \<lparr>mu_Action = ''discovery.accept'', mu_Check = validateDiscoveryAcceptParams, mu_Apply = applyDiscoveryAcceptMutation,
     mu_AuditPrepare = False, mu_AuditCommit = False\<rparr>"

definition handleThresholdsPrepare :: "control_env \<Rightarrow> request \<Rightarrow> control \<Rightarrow> answer \<times> control" where
  "handleThresholdsPrepare env = handlePrepare env thresholds"

definition handleThresholdsCommit :: "control_env \<Rightarrow> request \<Rightarrow> control \<Rightarrow> answer \<times> control" where
  "handleThresholdsCommit env = handleCommit env thresholds"

definition handleDependenciesPrepare :: "control_env \<Rightarrow> request \<Rightarrow> control \<Rightarrow> answer \<times> control" where
  "handleDependenciesPrepare env = handlePrepare env dependencies"

definition handleDependenciesCommit :: "control_env \<Rightarrow> request \<Rightarrow> control \<Rightarrow> answer \<times> control" where
  "handleDependenciesCommit env = handleCommit env dependencies"

definition handleAlertingPrepare :: "control_env \<Rightarrow> request \<Rightarrow> control \<Rightarrow> answer \<times> control" where
  "handleAlertingPrepare env = handlePrepare env alerting"

definition handleAlertingCommit :: "control_env \<Rightarrow> request \<Rightarrow> control \<Rightarrow> answer \<times> control" where
  "handleAlertingCommit env = handleCommit env alerting"

definition handleDiscoveryPolicyPrepare :: "control_env \<Rightarrow> request \<Rightarrow> control \<Rightarrow> answer \<times> control" where
  "handleDiscoveryPolicyPrepare env = handlePrepare env discovery_policy"

definition handleDiscoveryPolicyCommit :: "control_env \<Rightarrow> request \<Rightarrow> control \<Rightarrow> answer \<times> control" where
  "handleDiscoveryPolicyCommit env = handleCommit env discovery_policy"

definition handleDiscoveryAcceptPrepare :: "control_env \<Rightarrow> request \<Rightarrow> control \<Rightarrow> answer \<times> control" where
  "handleDiscoveryAcceptPrepare env = handlePrepare env discovery_accept"

definition handleDiscoveryAcceptCommit :: "control_env \<Rightarrow> request \<Rightarrow> control \<Rightarrow> answer \<times> control" where
  "handleDiscoveryAcceptCommit env = handleCommit env discovery_accept"

text \<open>The mutating methods of \<open>handle\<close>; the other methods only read.\<close>

definition handle_mutating :: "control_env \<Rightarrow> request \<Rightarrow> control \<Rightarrow> (answer \<times> control) option" where
  "handle_mutating env rq s =
     (let m = rq_Method rq in
      if m = ''discovery.policy.prepare'' then Some (handleDiscoveryPolicyPrepare env rq s)
      else if m = ''discovery.policy.commit'' then Some (handleDiscoveryPolicyCommit env rq s)
      else if m = ''discovery.accept.prepare'' then Some (handleDiscoveryAcceptPrepare env rq s)
      else if m = ''discovery.accept.commit'' then Some (handleDiscoveryAcceptCommit env rq s)
      else if m = ''config.reload'' then Some (handleConfigReload env rq s)
      else if m = ''thresholds.prepare'' then Some (handleThresholdsPrepare env rq s)
      else if m = ''thresholds.commit'' then Some (handleThresholdsCommit env rq s)
      else if m = ''dependencies.prepare'' then Some (handleDependenciesPrepare env rq s)
      else if m = ''dependencies.commit'' then Some (handleDependenciesCommit env rq s)
      else if m = ''device.alerting.prepare'' then Some (handleAlertingPrepare env rq s)
      else if m = ''device.alerting.commit'' then Some (handleAlertingCommit env rq s)
      else None)"

fun serve :: "control_env \<Rightarrow> request list \<Rightarrow> control \<Rightarrow> answer list \<times> control" where
  "serve env [] s = ([], s)"
| "serve env (rq # rqs) s =
     (case handle_mutating env rq s of
        None \<Rightarrow> serve env rqs s
      | Some (a, s') \<Rightarrow> (case serve env rqs s' of (as, s'') \<Rightarrow> (a # as, s'')))"

section \<open>The state of a scan\<close>

record scan_state =
  ss_running :: bool
  ss_startedAt :: time
  ss_finishedAt :: time
  ss_total :: int
  ss_probed :: int
  ss_err :: string

definition tryBeginScan :: "time \<Rightarrow> int \<Rightarrow> scan_state \<Rightarrow> proto_code option \<times> scan_state" where
  "tryBeginScan now targets s =
     (if ss_running s then (Some CodeConflict, s)
      else (None, \<lparr>ss_running = True, ss_startedAt = now, ss_finishedAt = 0, ss_total = targets, ss_probed = 0, ss_err = []\<rparr>))"

definition updateScanProgress :: "int \<Rightarrow> int \<Rightarrow> scan_state \<Rightarrow> scan_state" where
  "updateScanProgress probed targets s =
     (if \<not> ss_running s then s
      else s\<lparr>ss_probed := probed, ss_total := (if targets > 0 then targets else ss_total s)\<rparr>)"

definition finishScan :: "time \<Rightarrow> string \<Rightarrow> scan_state \<Rightarrow> scan_state" where
  "finishScan now e s = s\<lparr>ss_running := False, ss_finishedAt := now, ss_err := e\<rparr>"

end
