(* ===== verification/ManagedProps.thy ===== *)
theory ManagedProps
  imports Review ConfigProps
begin

text \<open>
  What a managed document must satisfy for the configuration to load, in closed form, and how the
  writes of the control plane change it.
\<close>

section \<open>The merge in closed form\<close>

definition entry_of :: "device_config list \<Rightarrow> string \<Rightarrow> device_config option" where
  "entry_of ms i = find (\<lambda>d. dc_ID d = i) ms"

definition overlaid :: "device_config list \<Rightarrow> device_config \<Rightarrow> device_config" where
  "overlaid ms s = (case entry_of ms (dc_ID s) of None \<Rightarrow> s | Some e \<Rightarrow> applyDeviceOverlay s e)"

lemma entry_of_simps [simp]:
  "entry_of [] i = None" "entry_of (d # ms) i = (if dc_ID d = i then Some d else entry_of ms i)"
  by (simp_all add: entry_of_def)

lemma entry_of_None: "entry_of ms i = None \<longleftrightarrow> i \<notin> dc_ID ` set ms"
  by (induction ms) auto

lemma entry_of_Some: "entry_of ms i = Some d \<Longrightarrow> d \<in> set ms \<and> dc_ID d = i"
  by (induction ms) (auto split: if_splits)

lemma overlay_ID [simp]: "dc_ID (applyDeviceOverlay b d) = dc_ID b" "dc_Host (applyDeviceOverlay b d) = dc_Host b"
  using overlay_identity [of b d] by (simp_all add: identity_of_def)

lemma overlaid_ID [simp]: "dc_ID (overlaid ms s) = dc_ID s" "dc_Host (overlaid ms s) = dc_Host s"
  by (simp_all add: overlaid_def split: option.split)

lemma merge_managed_closed:
  assumes "distinct (map dc_ID st)" "\<And>k. map_of idx k = None \<longleftrightarrow> k \<notin> dc_ID ` set st"
    and "\<And>k i. map_of idx k = Some i \<Longrightarrow> i < length st \<and> dc_ID (st ! i) = k"
    and "distinct (filter (\<lambda>k. k \<in> dc_ID ` set st) (map dc_ID ms))"
  shows "merge_managed idx (st @ ap) ms = map (overlaid ms) st @ ap @ filter (\<lambda>d. dc_ID d \<notin> dc_ID ` set st) ms"
  using assms
proof (induction ms arbitrary: st ap)
  case Nil
  then show ?case by (simp add: overlaid_def)
next
  case (Cons d ms)
  show ?case
  proof (cases "map_of idx (dc_ID d)")
    case None
    then have out: "dc_ID d \<notin> dc_ID ` set st" using Cons.prems(2) by simp
    then have "map (overlaid (d # ms)) st = map (overlaid ms) st" by (auto simp: overlaid_def)
    moreover have "merge_managed idx (st @ (ap @ [d])) ms = map (overlaid ms) st @ (ap @ [d]) @ filter (\<lambda>d. dc_ID d \<notin> dc_ID ` set st) ms"
      using Cons.prems out by (intro Cons.IH) simp_all
    ultimately show ?thesis using None out by simp
  next
    case (Some i)
    have i: "i < length st" "dc_ID (st ! i) = dc_ID d" using Cons.prems(3) [OF Some] by simp_all
    let ?st = "st[i := applyDeviceOverlay (st ! i) d]"
    have ids: "map dc_ID ?st = map dc_ID st" by (simp add: map_update list_update_same_conv i(1))
    then have set_ids: "dc_ID ` set ?st = dc_ID ` set st" by (metis set_map)
    have mem: "dc_ID d \<in> dc_ID ` set st" using i by (metis image_eqI nth_mem)
    have later: "dc_ID d \<notin> dc_ID ` set ms" using Cons.prems(4) mem by auto
    have nth: "dc_ID (?st ! j) = dc_ID (st ! j)" if "j < length st" for j
      using ids that by (metis length_list_update nth_map)
    have "merge_managed idx (?st @ ap) ms = map (overlaid ms) ?st @ ap @ filter (\<lambda>d. dc_ID d \<notin> dc_ID ` set ?st) ms"
    proof (rule Cons.IH)
      show "distinct (map dc_ID ?st)" using Cons.prems(1) ids by simp
      show "map_of idx k = None \<longleftrightarrow> k \<notin> dc_ID ` set ?st" for k using Cons.prems(2) set_ids by simp
      show "distinct (filter (\<lambda>k. k \<in> dc_ID ` set ?st) (map dc_ID ms))"
        unfolding set_ids using Cons.prems(4) by (simp split: if_splits)
      show "j < length ?st \<and> dc_ID (?st ! j) = k" if "map_of idx k = Some j" for k j
        using Cons.prems(3) [OF that] nth by simp
    qed
    moreover have "map (overlaid ms) ?st = map (overlaid (d # ms)) st"
    proof (rule nth_equalityI)
      fix j assume "j < length (map (overlaid ms) ?st)"
      then have j: "j < length st" by simp
      show "map (overlaid ms) ?st ! j = map (overlaid (d # ms)) st ! j"
      proof (cases "j = i")
        case True
        have "entry_of ms (dc_ID d) = None" using later by (simp add: entry_of_None)
        with True i show ?thesis by (simp add: overlaid_def)
      next
        case False
        then have "dc_ID (st ! j) \<noteq> dc_ID d"
          using Cons.prems(1) i j by (metis distinct_conv_nth length_map nth_map)
        then show ?thesis using False j by (simp add: overlaid_def)
      qed
    qed simp
    moreover have "(st @ ap)[i := applyDeviceOverlay ((st @ ap) ! i) d] = ?st @ ap"
      using i(1) by (simp add: list_update_append nth_append)
    ultimately show ?thesis using Some mem by (simp add: set_ids)
  qed
qed

lemma merge_closed:
  assumes "distinct (map dc_ID statics)" "distinct (filter (\<lambda>k. k \<in> dc_ID ` set statics) (map dc_ID ms))"
  shows "mergeInventories statics ms = map (overlaid ms) statics @ filter (\<lambda>d. dc_ID d \<notin> dc_ID ` set statics) ms"
proof -
  have "map_of (static_index statics) k = None \<longleftrightarrow> k \<notin> dc_ID ` set statics" for k
    using dom_static_index [of statics] by (auto simp: domIff)
  then show ?thesis
    using merge_managed_closed [of statics "static_index statics" ms "[]"] assms static_index_lookup [of statics]
    by (simp add: mergeInventories_def)
qed

section \<open>Validation in closed form\<close>

definition dev_valid :: "parsers \<Rightarrow> device_config \<Rightarrow> bool" where
  "dev_valid ps d \<longleftrightarrow> validate_device ps [] [] d = None"

lemma validate_device_iff:
  "validate_device ps seenIDs seenHosts d = None \<longleftrightarrow>
     dev_valid ps d \<and> dc_ID d \<notin> set seenIDs \<and> canonicalHost ps (dc_Host d) \<notin> set seenHosts"
  unfolding dev_valid_def validate_device_def first_err_Cons_None fail_if_None by auto

abbreviation hosts :: "parsers \<Rightarrow> device_config list \<Rightarrow> string list" where
  "hosts ps ds \<equiv> map (\<lambda>d. canonicalHost ps (dc_Host d)) ds"

lemma validate_devices_iff:
  "validate_devices ps seenIDs seenHosts ds = None \<longleftrightarrow>
     (\<forall>d \<in> set ds. dev_valid ps d) \<and> distinct (map dc_ID ds) \<and> dc_ID ` set ds \<inter> set seenIDs = {}
     \<and> distinct (hosts ps ds) \<and> set (hosts ps ds) \<inter> set seenHosts = {}"
proof (induction ps seenIDs seenHosts ds rule: validate_devices.induct)
  case (2 ps seenIDs seenHosts d ds)
  show ?case
  proof (cases "validate_device ps seenIDs seenHosts d")
    case None
    then show ?thesis using "2.IH" [OF None] validate_device_iff [of ps seenIDs seenHosts d] by auto
  next
    case (Some e)
    then show ?thesis using validate_device_iff [of ps seenIDs seenHosts d] by auto
  qed
qed simp

lemma check_unique_iff:
  "check_unique ps seenIDs seenHosts ds = None \<longleftrightarrow>
     distinct (map dc_ID ds) \<and> dc_ID ` set ds \<inter> set seenIDs = {}
     \<and> distinct (hosts ps ds) \<and> set (hosts ps ds) \<inter> set seenHosts = {}"
  by (induction ps seenIDs seenHosts ds rule: check_unique.induct) auto

lemma split_managed_iff:
  "split_managed ps S ds = Inr r \<longleftrightarrow>
     (\<forall>d \<in> set ds. dc_ID d \<in> set S \<longrightarrow> validateManagedOverlay ps d = None)
     \<and> r = (filter (\<lambda>d. dc_ID d \<in> set S) ds, filter (\<lambda>d. dc_ID d \<notin> set S) ds)"
proof (induction ps S ds arbitrary: r rule: split_managed.induct)
  case (2 ps S d ds)
  show ?case
  proof (cases "dc_ID d \<in> set S")
    case True
    then show ?thesis using "2.IH"(1) [OF True]
      by (cases "validateManagedOverlay ps d"; cases "split_managed ps S ds") (auto split: prod.splits)
  next
    case False
    then show ?thesis using "2.IH"(2) [OF False] by (cases "split_managed ps S ds") (auto split: prod.splits)
  qed
qed auto

section \<open>What loads\<close>

definition with_defaults :: "load_env \<Rightarrow> config \<Rightarrow> config" where
  "with_defaults env raw = applyEnvOverrides (le_Broker env) (applyDefaults raw)"

definition statics_of :: "config \<Rightarrow> device_config list" where
  "statics_of raw = applyDeviceDefaults (c_Devices raw)"

definition appends_of :: "config \<Rightarrow> managed_inventory \<Rightarrow> device_config list" where
  "appends_of raw m = map applyDeviceDefault (filter (\<lambda>d. dc_ID d \<notin> dc_ID ` set (c_Devices raw)) (mi_Devices m))"

definition merged_of :: "config \<Rightarrow> managed_inventory \<Rightarrow> device_config list" where
  "merged_of raw m = map (overlaid (mi_Devices m)) (statics_of raw) @ appends_of raw m"

definition entries_ok :: "parsers \<Rightarrow> string set \<Rightarrow> device_config list \<Rightarrow> bool" where
  "entries_ok ps S ms \<longleftrightarrow> (\<forall>d \<in> set ms. dc_ID d \<in> S \<longrightarrow> validateManagedOverlay ps d = None)
     \<and> distinct (filter (\<lambda>k. k \<in> S) (map dc_ID ms))"

definition inventory_ok :: "parsers \<Rightarrow> config \<Rightarrow> managed_inventory \<Rightarrow> bool" where
  "inventory_ok ps raw m \<longleftrightarrow> entries_ok ps (dc_ID ` set (c_Devices raw)) (mi_Devices m)
     \<and> (\<forall>d \<in> set (appends_of raw m). dev_valid ps d)
     \<and> distinct (map dc_ID (statics_of raw @ appends_of raw m))
     \<and> distinct (hosts ps (statics_of raw @ appends_of raw m))
     \<and> validateDependencies (merged_of raw m) = None"

lemma default_ID [simp]: "dc_ID (applyDeviceDefault d) = dc_ID d" "dc_Host (applyDeviceDefault d) = dc_Host d"
  "ups (applyDeviceDefault d) = ups d"
  by (simp_all add: applyDeviceDefault_def Let_def ups_def)

lemma statics_IDs: "map dc_ID (statics_of raw) = map dc_ID (c_Devices raw)" "dc_ID ` set (statics_of raw) = dc_ID ` set (c_Devices raw)"
  by (simp_all add: statics_of_def applyDeviceDefaults_def image_image)

lemma overlay_fields:
  "dc_Port (applyDeviceOverlay b d) = dc_Port b" "dc_Version (applyDeviceOverlay b d) = dc_Version b"
  "dc_CommunityEnv (applyDeviceOverlay b d) = dc_CommunityEnv b" "dc_Vendor (applyDeviceOverlay b d) = dc_Vendor b"
  "dc_PollInterval (applyDeviceOverlay b d) = dc_PollInterval b" "dc_Timeout (applyDeviceOverlay b d) = dc_Timeout b"
  "dc_Retries (applyDeviceOverlay b d) = dc_Retries b"
  "dc_TemperatureWarningC (applyDeviceOverlay b d) = (case dc_TemperatureWarningC d of None \<Rightarrow> dc_TemperatureWarningC b | Some v \<Rightarrow> Some v)"
  "dc_InterfaceFilters (applyDeviceOverlay b d) \<in> {dc_InterfaceFilters b, cloneInterfaceFilters (dc_InterfaceFilters d)}"
  by (simp_all add: applyDeviceOverlay_def Let_def split: option.split)

lemma clone_filters [simp]: "cloneInterfaceFilters f = f"
  by (simp add: cloneInterfaceFilters_def)

lemma dev_valid_fields:
  "dev_valid ps d \<longleftrightarrow> trim_space (dc_ID d) \<noteq> [] \<and> identifierPattern (dc_ID d) \<and> trim_space (dc_Host d) \<noteq> [] \<and> dc_Port d \<noteq> 0
     \<and> dc_Version d = ''2c'' \<and> validateEnvName (dc_CommunityEnv d) = None
     \<and> to_lower (trim_space (dc_Vendor d)) \<in> {[], ''core'', ''cisco'', ''arista''}
     \<and> 0 \<le> dc_PollInterval d \<and> dc_PollInterval d \<le> maxPollInterval \<and> 0 \<le> dc_Timeout d \<and> dc_Timeout d \<le> maxSNMPTimeout
     \<and> 0 \<le> dc_Retries d \<and> dc_Retries d \<le> maxRetries
     \<and> (\<forall>v. dc_TemperatureWarningC d = Some v \<longrightarrow> \<not> temperature_out_of_range v)
     \<and> validateInterfaceFilters ps (dc_InterfaceFilters d) = None"
  unfolding dev_valid_def validate_device_def first_err_Cons_None fail_if_None
  by (auto simp: not_less not_le split: option.splits)

lemma overlay_valid_fields:
  "validateManagedOverlay ps d = None \<longleftrightarrow> trim_space (dc_ID d) \<noteq> [] \<and> identifierPattern (dc_ID d)
     \<and> (\<forall>v. dc_TemperatureWarningC d = Some v \<longrightarrow> \<not> temperature_out_of_range v)
     \<and> validateInterfaceFilters ps (dc_InterfaceFilters d) = None"
  unfolding validateManagedOverlay_def first_err_Cons_None fail_if_None by (auto split: option.splits)

lemma dev_valid_overlay:
  assumes "dev_valid ps s" "validateManagedOverlay ps e = None"
  shows "dev_valid ps (applyDeviceOverlay s e)"
  using assms overlay_fields(9) [of s e] unfolding dev_valid_fields overlay_valid_fields
  by (auto simp: overlay_fields(1-8) split: option.splits)

lemma merged_fields:
  "map dc_ID (merged_of raw m) = map dc_ID (statics_of raw @ appends_of raw m)"
  "hosts ps (merged_of raw m) = hosts ps (statics_of raw @ appends_of raw m)"
  by (simp_all add: merged_of_def)

lemma merged_valid:
  assumes "entries_ok ps (dc_ID ` set (c_Devices raw)) (mi_Devices m)" "\<forall>d \<in> set (statics_of raw). dev_valid ps d"
    and "\<forall>d \<in> set (appends_of raw m). dev_valid ps d"
  shows "\<forall>d \<in> set (merged_of raw m). dev_valid ps d"
proof -
  have "dev_valid ps (overlaid (mi_Devices m) s)" if "s \<in> set (statics_of raw)" for s
  proof (cases "entry_of (mi_Devices m) (dc_ID s)")
    case None
    then show ?thesis using assms(2) that by (simp add: overlaid_def)
  next
    case (Some e)
    have "dc_ID s \<in> dc_ID ` set (c_Devices raw)" using that statics_IDs(2) by blast
    then have "validateManagedOverlay ps e = None"
      using entry_of_Some [OF Some] assms(1) by (auto simp: entries_ok_def)
    then show ?thesis using assms(2) that Some dev_valid_overlay by (simp add: overlaid_def)
  qed
  with assms(3) show ?thesis by (auto simp: merged_of_def)
qed

lemma appends_filter:
  "filter (\<lambda>d. dc_ID d \<notin> S) (map (\<lambda>d. if dc_ID d \<in> S then d else applyDeviceDefault d) ms)
     = map applyDeviceDefault (filter (\<lambda>d. dc_ID d \<notin> S) ms)"
  by (induction ms) auto

lemma overlaid_defaults:
  assumes "dc_ID s \<in> S"
  shows "overlaid (map (\<lambda>d. if dc_ID d \<in> S then d else applyDeviceDefault d) ms) s = overlaid ms s"
proof -
  have "entry_of (map (\<lambda>d. if dc_ID d \<in> S then d else applyDeviceDefault d) ms) (dc_ID s) = entry_of ms (dc_ID s)"
    using assms by (induction ms) auto
  then show ?thesis by (simp add: overlaid_def)
qed

definition loaded :: "parsers \<Rightarrow> load_env \<Rightarrow> config \<Rightarrow> managed_inventory \<Rightarrow> config" where
  "loaded ps env raw m = applyManagedPolicy ps m ((applyEnvOverrides (le_Broker env) (applyDefaults raw))\<lparr>c_Devices := merged_of raw m\<rparr>)"

lemma defaults_devices: "c_Devices (applyEnvOverrides b (applyDefaults raw)) = statics_of raw"
  by (simp add: applyEnvOverrides_def applyDefaults_def statics_of_def)

definition load_doc :: "load_env \<Rightarrow> config \<Rightarrow> managed_inventory \<Rightarrow> string + config" where
  "load_doc env raw m = load_config (le_Parsers env) True (le_Broker env) (le_Password env) raw (Inr m)"

lemma load_doc_iff:
  assumes "distinct (map dc_ID (statics_of raw))" "entries_ok ps (dc_ID ` set (c_Devices raw)) (mi_Devices m)"
    and "ps = le_Parsers env"
  shows "load_doc env raw m = Inr c \<longleftrightarrow>
     validateDeviceSource ps (statics_of raw) = None \<and> managed_policy_errors m = None
     \<and> validateManagedDiscoveryPolicy ps (mi_Discovery m) = None \<and> validateDeviceSource ps (appends_of raw m) = None
     \<and> validate ps (loaded ps env raw m) = None \<and> validateRuntimeSecrets (le_Password env) (loaded ps env raw m) = None
     \<and> c = loaded ps env raw m"
proof -
  let ?S = "dc_ID ` set (c_Devices raw)"
  have S: "set (map dc_ID (statics_of raw)) = ?S" using statics_IDs(2) by simp
  let ?ms = "map (\<lambda>d. if dc_ID d \<in> ?S then d else applyDeviceDefault d) (mi_Devices m)"
  have split: "split_managed ps (map dc_ID (statics_of raw)) (mi_Devices m)
      = Inr (filter (\<lambda>d. dc_ID d \<in> ?S) (mi_Devices m), filter (\<lambda>d. dc_ID d \<notin> ?S) (mi_Devices m))"
    using assms(2) S split_managed_iff by (auto simp: entries_ok_def)
  have "map dc_ID ?ms = map dc_ID (mi_Devices m)" by (simp add: comp_def if_distrib cong: if_cong)
  then have dist: "distinct (filter (\<lambda>k. k \<in> dc_ID ` set (statics_of raw)) (map dc_ID ?ms))"
    unfolding \<open>map dc_ID ?ms = map dc_ID (mi_Devices m)\<close> using assms(2) statics_IDs(2) by (simp only: entries_ok_def)
  have merge: "mergeInventories (statics_of raw) ?ms = merged_of raw m"
    unfolding merge_closed [OF assms(1) dist] merged_of_def appends_of_def statics_IDs(2) appends_filter
    using statics_IDs(2) by (auto intro!: overlaid_defaults)
  have overlays: "distinct (map dc_ID (filter (\<lambda>d. dc_ID d \<in> ?S) (mi_Devices m)))"
    using assms(2) by (simp add: entries_ok_def filter_map comp_def)
  show ?thesis
    unfolding load_doc_def load_config_def Let_def defaults_devices validateManagedDocument_def assms(3) [symmetric] S
    using overlays by (auto simp: split merge appends_of_def applyDeviceDefaults_def loaded_def fail_if_def split: option.splits)
qed

lemma load_doc_entries:
  assumes "load_doc env raw m = Inr c" "ps = le_Parsers env"
  shows "entries_ok ps (dc_ID ` set (c_Devices raw)) (mi_Devices m)" "distinct (map dc_ID (statics_of raw))"
proof -
  have doc: "validateManagedDocument ps m (statics_of raw) = None" and st: "validateDeviceSource ps (statics_of raw) = None"
    using assms by (auto simp: load_doc_def load_config_def Let_def defaults_devices split: option.splits sum.splits)
  have S: "set (map dc_ID (statics_of raw)) = dc_ID ` set (c_Devices raw)" using statics_IDs(2) by simp
  show "distinct (map dc_ID (statics_of raw))" using st by (simp add: validateDeviceSource_def validate_devices_iff)
  obtain r where r: "split_managed ps (map dc_ID (statics_of raw)) (mi_Devices m) = Inr r" "distinct (map dc_ID (fst r))"
    using doc by (auto simp: validateManagedDocument_def split: option.splits sum.splits)
  show "entries_ok ps (dc_ID ` set (c_Devices raw)) (mi_Devices m)"
    using r unfolding split_managed_iff S entries_ok_def by (simp add: filter_map comp_def)
qed

lemma validate_devices_part:
  assumes "validate ps c = None"
  shows "validateDeviceSource ps (c_Devices c) = None" "validateDependencies (c_Devices c) = None"
  using validate_None(1,2) [OF assms] by simp_all

text \<open>A document loads when its inventory is in order and its settings are those of a document that loads.\<close>

lemma load_doc_inventory:
  assumes "load_doc env raw m = Inr c" "ps = le_Parsers env"
  shows "inventory_ok ps raw m" "\<forall>d \<in> set (statics_of raw). dev_valid ps d" "c = loaded ps env raw m"
proof -
  note e = load_doc_entries [OF assms]
  note l = iffD1 [OF load_doc_iff [OF e(2,1) assms(2)] assms(1)]
  show "\<forall>d \<in> set (statics_of raw). dev_valid ps d" using l by (simp add: validateDeviceSource_def validate_devices_iff)
  show c: "c = loaded ps env raw m" using l by blast
  have ds: "c_Devices (loaded ps env raw m) = merged_of raw m" by (simp add: loaded_def applyManagedPolicy_def)
  have "validateDeviceSource ps (merged_of raw m) = None" "validateDependencies (merged_of raw m) = None"
    using validate_devices_part [of ps "loaded ps env raw m"] l ds by simp_all
  then show "inventory_ok ps raw m"
    unfolding inventory_ok_def merged_fields(1) [symmetric] merged_fields(2) [of ps, symmetric]
    using e l by (simp add: validateDeviceSource_def validate_devices_iff)
qed

lemma validate_transfer:
  assumes "validate ps c = None" "\<not> temperature_out_of_range v" "ds = [] \<longrightarrow> c_Devices c = []"
    and "validateDeviceSource ps ds = None" "validateInventoryUniqueness ps ds = None" "validateDependencies ds = None"
  shows "validate ps (c\<lparr>c_TemperatureWarningC := v, c_Devices := ds\<rparr>) = None"
proof -
  have mqtt: "validateMQTT ps (c\<lparr>c_TemperatureWarningC := v, c_Devices := ds\<rparr>) = validateMQTT ps c"
    by (simp add: validateMQTT_def)
  show ?thesis
    using assms unfolding validate_def first_err_Cons_None fail_if_None by (simp add: mqtt) (auto split: if_splits)
qed

lemma load_transfer:
  assumes "load_doc env raw m = Inr c" "ps = le_Parsers env" "inventory_ok ps raw m'"
    and "mi_Discovery m' = mi_Discovery m" "managed_policy_errors m' = None"
    and "mi_TemperatureWarningC m' = mi_TemperatureWarningC m \<or> mi_TemperatureWarningC m' \<noteq> None"
    and "merged_of raw m' = [] \<Longrightarrow> merged_of raw m = []"
  shows "\<exists>v. load_doc env raw m' = Inr (c\<lparr>c_TemperatureWarningC := v, c_Devices := merged_of raw m'\<rparr>)"
proof -
  note e = load_doc_entries [OF assms(1,2)]
  note inv = load_doc_inventory [OF assms(1,2)]
  note l = iffD1 [OF load_doc_iff [OF e(2,1) assms(2)] assms(1)]
  have ok: "entries_ok ps (dc_ID ` set (c_Devices raw)) (mi_Devices m')" using assms(3) by (simp add: inventory_ok_def)
  have ds: "c_Devices (loaded ps env raw m) = merged_of raw m" by (simp add: loaded_def applyManagedPolicy_def)
  obtain v where v: "loaded ps env raw m' = (loaded ps env raw m)\<lparr>c_TemperatureWarningC := v, c_Devices := merged_of raw m'\<rparr>"
      "v = c_TemperatureWarningC (loaded ps env raw m) \<or> mi_TemperatureWarningC m' = Some v"
  proof (cases "mi_TemperatureWarningC m'")
    case None
    with assms(4,6) show ?thesis by (intro that [of "c_TemperatureWarningC (loaded ps env raw m)"]) (simp_all add: loaded_def applyManagedPolicy_def)
  next
    case (Some w)
    with assms(4) show ?thesis by (intro that [of w]) (simp_all add: loaded_def applyManagedPolicy_def)
  qed
  have "\<not> temperature_out_of_range (c_TemperatureWarningC (loaded ps env raw m))"
    using l unfolding validate_def first_err_Cons_None fail_if_None by simp
  moreover have "\<not> temperature_out_of_range v" if "mi_TemperatureWarningC m' = Some v"
    using assms(5) that unfolding managed_policy_errors_def first_err_Cons_None by simp
  ultimately have range: "\<not> temperature_out_of_range v" using v(2) by blast
  have valid: "\<forall>d \<in> set (merged_of raw m'). dev_valid ps d"
    using assms(3) inv(2) by (intro merged_valid) (simp_all add: inventory_ok_def)
  have "validateDeviceSource ps (merged_of raw m') = None \<and> validateInventoryUniqueness ps (merged_of raw m') = None
      \<and> validateDeviceSource ps (appends_of raw m') = None"
    using assms(3) valid merged_fields [where raw = raw and m = m']
    by (simp add: inventory_ok_def validateDeviceSource_def validateInventoryUniqueness_def validate_devices_iff check_unique_iff)
  moreover have "validate ps (loaded ps env raw m') = None"
    unfolding v(1) using l range assms(3,7) ds calculation by (intro validate_transfer) (simp_all add: inventory_ok_def)
  moreover have "validateRuntimeSecrets (le_Password env) (loaded ps env raw m') = None"
    using l unfolding v(1) by (simp add: validateRuntimeSecrets_def)
  ultimately have "load_doc env raw m' = Inr (loaded ps env raw m')"
    using load_doc_iff [OF e(2) ok assms(2)] l assms(4,5) by simp
  then show ?thesis using v(1) inv(3) by auto
qed

section \<open>Dependencies\<close>

lemma deps_shrink:
  assumes "validateDependencies ds0 = None" "distinct (map dc_ID ds0)" "distinct (map dc_ID ds)"
    and "dc_ID ` set ds0 \<subseteq> dc_ID ` set ds"
    and "\<And>d. d \<in> set ds \<Longrightarrow> ups d \<noteq> [] \<Longrightarrow> \<exists>d0 \<in> set ds0. dc_ID d0 = dc_ID d \<and> ups d0 = ups d"
  shows "validateDependencies ds = None"
proof -
  have v: "references_ok ds0" "acyclic (dep_graph (upstreams_of (device_index ds0)))"
    using assms(1) by (simp_all add: validateDependencies_None)
  have "distinct (ups d) \<and> dc_ID d \<notin> set (ups d) \<and> set (ups d) \<subseteq> dc_ID ` set ds" if d: "d \<in> set ds" for d
  proof (cases "ups d = []")
    case False
    then obtain d0 where "d0 \<in> set ds0" "dc_ID d0 = dc_ID d" "ups d0 = ups d" using assms(5) [OF d] by blast
    then show ?thesis using v(1) assms(4) unfolding references_ok_def by (metis order_trans)
  qed simp
  then have "references_ok ds" by (auto simp: references_ok_def)
  moreover have "dep_graph (upstreams_of (device_index ds)) \<subseteq> dep_graph (upstreams_of (device_index ds0))"
  proof (clarsimp simp: dep_graph_def)
    fix x y assume y: "y \<in> set (upstreams_of (device_index ds) x)"
    then obtain d where d: "map_of (device_index ds) x = Some d" "y \<in> set (ups d)"
      by (cases "map_of (device_index ds) x") (simp_all add: upstreams_of_def)
    then have "d \<in> set ds" "dc_ID d = x" "ups d \<noteq> []" using device_index_Some by auto
    then obtain d0 where "d0 \<in> set ds0" "dc_ID d0 = x" "ups d0 = ups d" using assms(5) by blast
    then show "y \<in> set (upstreams_of (device_index ds0) x)"
      using d(2) device_index_distinct [OF assms(2)] by (auto simp: upstreams_of_def)
  qed
  ultimately show ?thesis using v(2) acyclic_subset by (auto simp: validateDependencies_None)
qed

section \<open>What a write stores\<close>

text \<open>Decoding an encoded document gives it back, but a nil list, which is encoded as an empty one, is not nil any more.\<close>

definition yaml_keeps :: "load_env \<Rightarrow> bool" where
  "yaml_keeps env \<longleftrightarrow>
     (\<forall>m. le_Stored env m = m\<lparr>mi_Devices := map (\<lambda>d. d\<lparr>dc_UpstreamDeviceIDs := Some (ups d)\<rparr>) (mi_Devices m)\<rparr>)"

definition stored_entry :: "device_config \<Rightarrow> device_config" where
  "stored_entry d = (applyDeviceDefault d)\<lparr>dc_UpstreamDeviceIDs := Some (ups d)\<rparr>"

definition stored :: "managed_inventory \<Rightarrow> managed_inventory" where
  "stored m = m\<lparr>mi_Devices := map stored_entry (mi_Devices m)\<rparr>"

lemma stored_normalized: "yaml_keeps env \<Longrightarrow> le_Stored env (normalized m) = stored m"
  by (simp add: yaml_keeps_def normalized_def stored_def stored_entry_def applyDeviceDefaults_def comp_def)

lemma stored_entry_simps [simp]: "dc_ID (stored_entry d) = dc_ID d" "dc_Host (stored_entry d) = dc_Host d"
  "ups (stored_entry d) = ups d" "dc_UpstreamDeviceIDs (stored_entry d) = Some (ups d)"
  "dc_TemperatureWarningC (stored_entry d) = dc_TemperatureWarningC d"
  "dc_InterfaceFilters (stored_entry d) = dc_InterfaceFilters d"
  by (simp_all add: stored_entry_def applyDeviceDefault_def Let_def ups_def)

lemma stored_default: "dev_valid ps (applyDeviceDefault (stored_entry d)) \<longleftrightarrow> dev_valid ps (applyDeviceDefault d)"
  unfolding dev_valid_fields by (simp add: stored_entry_def applyDeviceDefault_def Let_def)

lemma entry_of_map: "(\<And>d. dc_ID (g d) = dc_ID d) \<Longrightarrow> entry_of (map g ms) k = map_option g (entry_of ms k)"
  by (induction ms) auto

lemma filter_map_ID: "(\<And>d. dc_ID (g d) = dc_ID d) \<Longrightarrow> filter (\<lambda>d. P (dc_ID d)) (map g ms) = map g (filter (\<lambda>d. P (dc_ID d)) ms)"
  by (induction ms) auto

lemma appends_stored:
  "appends_of raw (stored m) = map (\<lambda>d. applyDeviceDefault (stored_entry d)) (filter (\<lambda>d. dc_ID d \<notin> dc_ID ` set (c_Devices raw)) (mi_Devices m))"
  by (simp add: appends_of_def stored_def filter_map_ID [of stored_entry "\<lambda>i. i \<notin> dc_ID ` set (c_Devices raw)"])

lemma appends_IDs: "map dc_ID (appends_of raw m) = filter (\<lambda>k. k \<notin> dc_ID ` set (c_Devices raw)) (map dc_ID (mi_Devices m))"
  by (simp add: appends_of_def filter_map comp_def)

lemma stored_IDs: "map dc_ID (mi_Devices (stored m)) = map dc_ID (mi_Devices m)"
  by (simp add: stored_def)

text \<open>The inventory before the write, in which only the new document's dependencies are checked.\<close>

definition plain_merge :: "config \<Rightarrow> device_config list \<Rightarrow> device_config list" where
  "plain_merge raw ms = map (overlaid ms) (statics_of raw) @ filter (\<lambda>d. dc_ID d \<notin> dc_ID ` set (c_Devices raw)) ms"

lemma plain_merge_IDs: "map dc_ID (plain_merge raw ms) = map dc_ID (statics_of raw) @ filter (\<lambda>k. k \<notin> dc_ID ` set (c_Devices raw)) (map dc_ID ms)"
  by (simp add: plain_merge_def filter_map comp_def)

definition covers :: "config \<Rightarrow> device_config list \<Rightarrow> device_config list \<Rightarrow> bool" where
  "covers raw base ds0 \<longleftrightarrow>
     (\<forall>s \<in> set (statics_of raw). \<exists>d0 \<in> set ds0. dc_ID d0 = dc_ID s \<and> ups d0 = ups (overlaid base s))
     \<and> (\<forall>e \<in> set base. dc_ID e \<notin> dc_ID ` set (c_Devices raw) \<longrightarrow> (\<exists>d0 \<in> set ds0. dc_ID d0 = dc_ID e \<and> ups d0 = ups e))"

lemma covers_plain: "covers raw base (plain_merge raw base)"
  unfolding covers_def plain_merge_def
proof (intro conjI ballI impI)
  fix s assume "s \<in> set (statics_of raw)"
  then show "\<exists>d0 \<in> set (map (overlaid base) (statics_of raw) @ filter (\<lambda>d. dc_ID d \<notin> dc_ID ` set (c_Devices raw)) base).
      dc_ID d0 = dc_ID s \<and> ups d0 = ups (overlaid base s)"
    by (intro bexI [of _ "overlaid base s"]) simp_all
qed auto

lemma covers_merged: "covers raw (mi_Devices m) (merged_of raw m)"
  unfolding covers_def merged_of_def
proof (intro conjI ballI impI)
  fix s assume "s \<in> set (statics_of raw)"
  then show "\<exists>d0 \<in> set (map (overlaid (mi_Devices m)) (statics_of raw) @ appends_of raw m).
      dc_ID d0 = dc_ID s \<and> ups d0 = ups (overlaid (mi_Devices m) s)"
    by (intro bexI [of _ "overlaid (mi_Devices m) s"]) simp_all
next
  fix e assume "e \<in> set (mi_Devices m)" "dc_ID e \<notin> dc_ID ` set (c_Devices raw)"
  then show "\<exists>d0 \<in> set (map (overlaid (mi_Devices m)) (statics_of raw) @ appends_of raw m). dc_ID d0 = dc_ID e \<and> ups d0 = ups e"
    by (intro bexI [of _ "applyDeviceDefault e"]) (simp_all add: appends_of_def)
qed

lemma deps_written:
  assumes "validateDependencies ds0 = None" "distinct (map dc_ID ds0)" "covers raw base ds0"
    and "distinct (map dc_ID (statics_of raw @ appends_of raw (stored m)))"
    and "dc_ID ` set ds0 \<subseteq> dc_ID ` set (merged_of raw (stored m))"
    and changed: "\<And>k e. entry_of (mi_Devices m) k = Some e \<Longrightarrow> ups e \<noteq> [] \<Longrightarrow>
        \<exists>e0. entry_of base k = Some e0 \<and> dc_UpstreamDeviceIDs e0 = Some (ups e)"
    and kept: "\<And>k. entry_of (mi_Devices m) k = None \<Longrightarrow> entry_of base k = None"
    and single: "\<And>e. e \<in> set (mi_Devices m) \<Longrightarrow> entry_of (mi_Devices m) (dc_ID e) = Some e"
  shows "validateDependencies (merged_of raw (stored m)) = None"
proof (rule deps_shrink [OF assms(1,2) _ assms(5)])
  show "distinct (map dc_ID (merged_of raw (stored m)))" using assms(4) by (simp only: merged_fields)
  have ups_of: "ups e0 = us" if "dc_UpstreamDeviceIDs e0 = Some us" for e0 us using that by (simp add: ups_def)
  fix d assume d: "d \<in> set (merged_of raw (stored m))" "ups d \<noteq> []"
  show "\<exists>d0 \<in> set ds0. dc_ID d0 = dc_ID d \<and> ups d0 = ups d"
  proof (cases "d \<in> overlaid (mi_Devices (stored m)) ` set (statics_of raw)")
    case True
    then obtain s where s: "s \<in> set (statics_of raw)" "d = overlaid (mi_Devices (stored m)) s" by blast
    have e': "entry_of (mi_Devices (stored m)) (dc_ID s) = map_option stored_entry (entry_of (mi_Devices m) (dc_ID s))"
      by (simp add: stored_def entry_of_map)
    have "ups (overlaid base s) = ups d"
    proof (cases "entry_of (mi_Devices m) (dc_ID s)")
      case None
      then show ?thesis using s e' kept by (simp add: overlaid_def)
    next
      case (Some e)
      then have "ups d = ups e" using s e' by (simp add: overlaid_def overlay_ups)
      moreover obtain e0 where "entry_of base (dc_ID s) = Some e0" "dc_UpstreamDeviceIDs e0 = Some (ups e)"
        using changed [OF Some] d(2) \<open>ups d = ups e\<close> by auto
      ultimately show ?thesis by (simp add: overlaid_def overlay_ups)
    qed
    moreover have "\<exists>d0 \<in> set ds0. dc_ID d0 = dc_ID s \<and> ups d0 = ups (overlaid base s)"
      using assms(3) s(1) unfolding covers_def by blast
    ultimately show ?thesis using s(2) by simp
  next
    case False
    then obtain e where e: "e \<in> set (mi_Devices m)" "dc_ID e \<notin> dc_ID ` set (c_Devices raw)" "dc_ID d = dc_ID e" "ups d = ups e"
      using d(1) by (auto simp: merged_of_def appends_stored)
    then obtain e0 where e0: "entry_of base (dc_ID e) = Some e0" "dc_UpstreamDeviceIDs e0 = Some (ups e)"
      using changed [OF single] d(2) by auto
    have "e0 \<in> set base" "dc_ID e0 = dc_ID e" using entry_of_Some [OF e0(1)] by simp_all
    then have "\<exists>d0 \<in> set ds0. dc_ID d0 = dc_ID e0 \<and> ups d0 = ups e0"
      using assms(3) e(2) unfolding covers_def by metis
    with e(3,4) \<open>dc_ID e0 = dc_ID e\<close> ups_of [OF e0(2)] show ?thesis by simp
  qed
qed

section \<open>Entries\<close>

definition temp_ok :: "device_config \<Rightarrow> bool" where
  "temp_ok d \<longleftrightarrow> (\<forall>v. dc_TemperatureWarningC d = Some v \<longrightarrow> \<not> temperature_out_of_range v)"

text \<open>An entry that differs only in what an overlay may change.\<close>

definition near :: "device_config \<Rightarrow> device_config \<Rightarrow> bool" where
  "near d e \<longleftrightarrow> (\<exists>t us a. e = d\<lparr>dc_TemperatureWarningC := t, dc_UpstreamDeviceIDs := us, dc_AlertsEnabled := a\<rparr>)"

lemma near_fields:
  assumes "near d e"
  shows "dc_ID e = dc_ID d" "dc_Host e = dc_Host d" "dc_InterfaceFilters e = dc_InterfaceFilters d"
    and "temp_ok e \<Longrightarrow> dev_valid ps (applyDeviceDefault d) \<Longrightarrow> dev_valid ps (applyDeviceDefault e)"
    and "temp_ok e \<Longrightarrow> validateManagedOverlay ps d = None \<Longrightarrow> validateManagedOverlay ps e = None"
proof -
  obtain t us a where e: "e = d\<lparr>dc_TemperatureWarningC := t, dc_UpstreamDeviceIDs := us, dc_AlertsEnabled := a\<rparr>"
    using assms unfolding near_def by blast
  show "dc_ID e = dc_ID d" "dc_Host e = dc_Host d" "dc_InterfaceFilters e = dc_InterfaceFilters d" by (simp_all add: e)
  show "temp_ok e \<Longrightarrow> dev_valid ps (applyDeviceDefault d) \<Longrightarrow> dev_valid ps (applyDeviceDefault e)"
    unfolding dev_valid_fields temp_ok_def e by (simp add: applyDeviceDefault_def Let_def split: if_splits)
  show "temp_ok e \<Longrightarrow> validateManagedOverlay ps d = None \<Longrightarrow> validateManagedOverlay ps e = None"
    unfolding overlay_valid_fields temp_ok_def e by simp
qed

lemma near_refl [simp]: "near d d"
  unfolding near_def by (intro exI [of _ "dc_TemperatureWarningC d"] exI [of _ "dc_UpstreamDeviceIDs d"] exI [of _ "dc_AlertsEnabled d"]) simp

lemma inventory_written:
  assumes "inventory_ok ps raw m" "mi_Devices m' = xs @ news" "list_all2 near (mi_Devices m) xs"
    and temps: "\<forall>e \<in> set xs. temp_ok e"
    and "\<forall>e \<in> set news. if dc_ID e \<in> dc_ID ` set (c_Devices raw) then validateManagedOverlay ps e = None
          else dev_valid ps (applyDeviceDefault e)"
    and "distinct (map dc_ID news)" "dc_ID ` set news \<inter> dc_ID ` set (mi_Devices m) = {}"
    and "distinct (hosts ps (statics_of raw @ appends_of raw m @ filter (\<lambda>d. dc_ID d \<notin> dc_ID ` set (c_Devices raw)) news))"
    and "validateDependencies (merged_of raw (stored m')) = None"
  shows "inventory_ok ps raw (stored m')"
proof -
  let ?S = "dc_ID ` set (c_Devices raw)"
  note inv = assms(1) [unfolded inventory_ok_def entries_ok_def]
  have ids: "map dc_ID xs = map dc_ID (mi_Devices m)" and hs: "map dc_Host xs = map dc_Host (mi_Devices m)"
    using assms(3) by (induction rule: list_all2_induct) (simp_all add: near_fields(1,2))
  have old: "\<exists>d \<in> set (mi_Devices m). near d e" if "e \<in> set xs" for e
    using assms(3) that by (induction rule: list_all2_induct) auto
  have "validateManagedOverlay ps e = None" if "e \<in> set (xs @ news)" "dc_ID e \<in> ?S" for e
  proof (cases "e \<in> set xs")
    case True
    then obtain d where d: "d \<in> set (mi_Devices m)" "near d e" using old by blast
    then show ?thesis using near_fields(5) [OF d(2)] near_fields(1) [OF d(2)] temps True inv that(2) by auto
  qed (use assms(5) that in auto)
  moreover have "validateManagedOverlay ps (stored_entry e) = validateManagedOverlay ps e" for e
    by (simp add: validateManagedOverlay_def)
  moreover have "distinct (filter (\<lambda>k. k \<in> ?S) (map dc_ID (xs @ news)))"
    using inv assms(6,7) unfolding map_append ids by (auto simp: distinct_filter)
  ultimately have entries: "entries_ok ps ?S (mi_Devices (stored m'))"
    unfolding entries_ok_def stored_IDs assms(2) by (auto simp: stored_def assms(2))
  have "dev_valid ps (applyDeviceDefault e)" if "e \<in> set (xs @ news)" "dc_ID e \<notin> ?S" for e
  proof (cases "e \<in> set xs")
    case True
    then obtain d where d: "d \<in> set (mi_Devices m)" "near d e" using old by blast
    then have "applyDeviceDefault d \<in> set (appends_of raw m)" using that(2) near_fields(1) [OF d(2)] by (simp add: appends_of_def)
    then show ?thesis using near_fields(4) [OF d(2)] temps True inv by auto
  qed (use assms(5) that in auto)
  then have valid: "\<forall>d \<in> set (appends_of raw (stored m')). dev_valid ps d"
    unfolding appends_stored assms(2) by (auto simp: stored_default)
  have "distinct (filter (\<lambda>k. k \<notin> ?S) (map dc_ID (xs @ news)))"
    using inv assms(6,7) unfolding map_append ids appends_IDs by (auto simp: distinct_filter)
  then have dist: "distinct (map dc_ID (statics_of raw @ appends_of raw (stored m')))"
    using inv statics_IDs(2) [of raw] unfolding map_append appends_IDs stored_IDs assms(2) by auto
  have "filter (\<lambda>d. dc_ID d \<notin> ?S) (xs @ news) = filter (\<lambda>d. dc_ID d \<notin> ?S) xs @ filter (\<lambda>d. dc_ID d \<notin> ?S) news" by simp
  moreover have "hosts ps (filter (\<lambda>d. dc_ID d \<notin> ?S) xs) = hosts ps (filter (\<lambda>d. dc_ID d \<notin> ?S) (mi_Devices m))"
    using assms(3) by (induction rule: list_all2_induct) (simp_all add: near_fields(1,2))
  ultimately have hosts: "hosts ps (appends_of raw (stored m')) = hosts ps (appends_of raw m @ filter (\<lambda>d. dc_ID d \<notin> ?S) news)"
    unfolding appends_stored assms(2) by (simp add: appends_of_def comp_def)
  show ?thesis
    unfolding inventory_ok_def using entries valid dist assms(8,9) unfolding map_append hosts by (intro conjI) assumption+
qed

section \<open>A write keeps the configuration loadable\<close>

lemma entry_of_distinct: "distinct (map dc_ID ms) \<Longrightarrow> e \<in> set ms \<Longrightarrow> entry_of ms (dc_ID e) = Some e"
  by (induction ms) auto

lemma inventory_distinct:
  assumes "inventory_ok ps raw m"
  shows "distinct (map dc_ID (mi_Devices m))"
proof -
  let ?S = "dc_ID ` set (c_Devices raw)"
  have split: "distinct (filter (\<lambda>k. k \<in> ?S) ks) \<Longrightarrow> distinct (filter (\<lambda>k. k \<notin> ?S) ks) \<Longrightarrow> distinct ks" for ks
    by (induction ks) (auto split: if_splits)
  from assms have "distinct (filter (\<lambda>k. k \<in> ?S) (map dc_ID (mi_Devices m)))" "distinct (filter (\<lambda>k. k \<notin> ?S) (map dc_ID (mi_Devices m)))"
    unfolding inventory_ok_def entries_ok_def map_append appends_IDs by simp_all
  then show ?thesis by (rule split)
qed

lemma merged_IDs: "dc_ID ` set (merged_of raw (stored m)) = dc_ID ` set (c_Devices raw) \<union> dc_ID ` set (mi_Devices m)"
proof -
  have "dc_ID ` set (merged_of raw (stored m)) = set (map dc_ID (merged_of raw (stored m)))" by simp
  then show ?thesis unfolding merged_fields map_append appends_IDs stored_IDs set_append using statics_IDs(2) by auto
qed

lemma validate_written_temps:
  assumes "validate_written ps (normalized m) = None" "e \<in> set (mi_Devices m)"
  shows "temp_ok e"
proof -
  let ?d = "applyDeviceDefault e"
  have mem: "?d \<in> set (mi_Devices (normalized m))" using assms(2) by (simp add: normalized_def applyDeviceDefaults_def)
  have temp: "dc_TemperatureWarningC ?d = dc_TemperatureWarningC e" by (simp add: applyDeviceDefault_def Let_def)
  note v = assms(1) [unfolded validate_written_def first_err_Cons_None]
  show ?thesis
  proof (cases "trim_space (dc_Host ?d) = []")
    case True
    with v mem have "validateManagedOverlay ps ?d = None" by (auto simp: first_err_None)
    then show ?thesis by (simp add: overlay_valid_fields temp_ok_def temp)
  next
    case False
    with v mem have "dev_valid ps ?d" by (auto simp: validateDeviceSource_def validate_devices_iff)
    then show ?thesis by (simp add: dev_valid_fields temp_ok_def temp)
  qed
qed

lemma validate_written_policy: "validate_written ps (normalized m) = None \<Longrightarrow> managed_policy_errors (stored m) = None"
  unfolding validate_written_def first_err_Cons_None by (simp add: managed_policy_errors_def normalized_def stored_def)

lemma document_keeps:
  assumes load: "load_doc env raw m = Inr c" and ps: "ps = le_Parsers env"
    and m': "mi_Devices m' = xs @ news" "list_all2 near (mi_Devices m) xs" "validate_written ps (normalized m') = None"
      "mi_Discovery m' = mi_Discovery m" "mi_TemperatureWarningC m' = mi_TemperatureWarningC m \<or> mi_TemperatureWarningC m' \<noteq> None"
    and news: "\<forall>e \<in> set news. if dc_ID e \<in> dc_ID ` set (c_Devices raw) then validateManagedOverlay ps e = None
          else dev_valid ps (applyDeviceDefault e)"
      "distinct (map dc_ID news)" "dc_ID ` set news \<inter> dc_ID ` set (mi_Devices m) = {}"
      "distinct (hosts ps (statics_of raw @ appends_of raw m @ filter (\<lambda>d. dc_ID d \<notin> dc_ID ` set (c_Devices raw)) news))"
    and deps: "validateDependencies ds0 = None" "distinct (map dc_ID ds0)" "covers raw base ds0"
      "dc_ID ` set ds0 \<subseteq> dc_ID ` set (c_Devices raw) \<union> dc_ID ` set (mi_Devices m')"
      "\<And>k e. entry_of (mi_Devices m') k = Some e \<Longrightarrow> ups e \<noteq> [] \<Longrightarrow>
        \<exists>e0. entry_of base k = Some e0 \<and> dc_UpstreamDeviceIDs e0 = Some (ups e)"
      "\<And>k. entry_of (mi_Devices m') k = None \<Longrightarrow> entry_of base k = None"
  shows "\<exists>v. load_doc env raw (stored m') = Inr (c\<lparr>c_TemperatureWarningC := v, c_Devices := merged_of raw (stored m')\<rparr>)"
proof (rule load_transfer [OF load ps])
  note inv = load_doc_inventory(1) [OF load ps]
  have ids: "map dc_ID xs = map dc_ID (mi_Devices m)"
    using m'(2) by (induction rule: list_all2_induct) (simp_all add: near_fields(1))
  then have dist': "distinct (map dc_ID (mi_Devices m'))"
    using inventory_distinct [OF inv] news(2,3) unfolding m'(1) map_append ids by auto
  have "distinct (map dc_ID (statics_of raw))" by (rule load_doc_entries(2) [OF load ps])
  then have dist: "distinct (map dc_ID (statics_of raw @ appends_of raw (stored m')))"
    using dist' statics_IDs(2) [of raw] unfolding map_append appends_IDs stored_IDs by auto
  have "validateDependencies (merged_of raw (stored m')) = None"
    using deps dist entry_of_distinct [OF dist'] by (intro deps_written [of ds0 raw base m']) (simp_all only: merged_IDs)
  moreover have "\<forall>e \<in> set xs. temp_ok e" using validate_written_temps [OF m'(3)] by (simp add: m'(1))
  ultimately show "inventory_ok ps raw (stored m')"
    using inventory_written [OF inv m'(1,2) _ news] by blast
  show "mi_Discovery (stored m') = mi_Discovery m" "managed_policy_errors (stored m') = None"
    "mi_TemperatureWarningC (stored m') = mi_TemperatureWarningC m \<or> mi_TemperatureWarningC (stored m') \<noteq> None"
    using m'(4,5) validate_written_policy [OF m'(3)] by (simp_all add: stored_def)
  assume "merged_of raw (stored m') = []"
  then have "c_Devices raw = [] \<and> mi_Devices m' = []" using merged_IDs [of raw m'] by auto
  with ids m'(1) show "merged_of raw m = []" by (simp add: merged_of_def statics_of_def applyDeviceDefaults_def appends_of_def)
qed

lemma load_doc_settings:
  assumes "load_doc env raw m = Inr c"
  shows "c_ManagedPath c = c_ManagedPath raw" "dc_ID ` set (c_Devices c) = dc_ID ` set (c_Devices raw) \<union> dc_ID ` set (mi_Devices m)"
    and "set (hosts ps (statics_of raw)) \<subseteq> set (hosts ps (c_Devices c))"
proof -
  have c: "c = loaded (le_Parsers env) env raw m" by (rule load_doc_inventory(3) [OF assms refl])
  show "c_ManagedPath c = c_ManagedPath raw"
    by (simp add: c loaded_def applyManagedPolicy_def applyEnvOverrides_def applyDefaults_def)
  have ds: "c_Devices c = merged_of raw m" by (simp add: c loaded_def applyManagedPolicy_def)
  have "dc_ID ` set (merged_of raw m) = set (map dc_ID (merged_of raw m))" by simp
  then show "dc_ID ` set (c_Devices c) = dc_ID ` set (c_Devices raw) \<union> dc_ID ` set (mi_Devices m)"
    unfolding ds merged_fields map_append appends_IDs set_append using statics_IDs(2) by auto
  show "set (hosts ps (statics_of raw)) \<subseteq> set (hosts ps (c_Devices c))"
    unfolding ds merged_fields by simp
qed

lemma reload_accepts:
  assumes "load_doc env raw m = Inr c" "load_doc env raw m' = Inr c'"
  shows "validateReload c c' = None"
  unfolding load_doc_inventory(3) [OF assms(1) refl] load_doc_inventory(3) [OF assms(2) refl]
  by (simp add: loaded_def applyManagedPolicy_def applyEnvOverrides_def applyDefaults_def validateReload_def)

end
