(* ===== verification/ControlProps.thy ===== *)
theory ControlProps
  imports Control ManagedProps
begin

text \<open>
  The properties of the control plane: which sequences of requests keep the configuration loadable,
  and what the ones that do not keep it so do.
\<close>

section \<open>A loaded control plane\<close>

abbreviation raw_of :: "control \<Rightarrow> config" where "raw_of s \<equiv> dk_Raw (ct_Disk s)"

definition known_IDs :: "config \<Rightarrow> managed_inventory \<Rightarrow> string set" where
  "known_IDs raw m = dc_ID ` set (c_Devices raw) \<union> dc_ID ` set (mi_Devices m)"

text \<open>The files load, and the configuration in use was loaded from them or from an earlier document.\<close>

definition wf_control :: "control_env \<Rightarrow> control \<Rightarrow> bool" where
  "wf_control env s \<longleftrightarrow>
     (\<exists>c. load_doc (ce_Load env) (raw_of s) (document s) = Inr c)
     \<and> (\<exists>m0. load_doc (ce_Load env) (raw_of s) m0 = Inr (ct_Current s) \<and> known_IDs (raw_of s) m0 \<subseteq> known_IDs (raw_of s) (document s))"

lemma wf_loads:
  assumes "wf_control env s"
  shows "managed_path s = ManagedInventoryPath (raw_of s)" "document s = ReadManagedDocument (c_ManagedPath (raw_of s)) (ct_Disk s)"
    and "dc_ID ` set (c_Devices (ct_Current s)) \<subseteq> known_IDs (raw_of s) (document s)"
    and "\<exists>c. Load (ce_Load env) (ct_Disk s) = Inr c"
    and "\<exists>c. Reload (ce_Load env) (ct_Disk s) (ct_Current s) = Inr c"
proof -
  obtain c m0 where c: "load_doc (ce_Load env) (raw_of s) (document s) = Inr c"
      "load_doc (ce_Load env) (raw_of s) m0 = Inr (ct_Current s)" "known_IDs (raw_of s) m0 \<subseteq> known_IDs (raw_of s) (document s)"
    using assms unfolding wf_control_def by blast
  note set0 = load_doc_settings [OF c(2)]
  show path: "managed_path s = ManagedInventoryPath (raw_of s)" by (simp add: managed_path_def ManagedInventoryPath_def set0(1))
  show doc: "document s = ReadManagedDocument (c_ManagedPath (raw_of s)) (ct_Disk s)"
    by (simp add: document_def path ManagedInventoryPath_def ReadManagedDocument_def trim_space_def)
  show "dc_ID ` set (c_Devices (ct_Current s)) \<subseteq> known_IDs (raw_of s) (document s)"
    using c(3) set0(2) by (simp add: known_IDs_def)
  have load: "Load (ce_Load env) (ct_Disk s) = Inr c" using c(1) by (simp add: Load_def load_doc_def doc)
  then show "\<exists>c. Load (ce_Load env) (ct_Disk s) = Inr c" by blast
  show "\<exists>c. Reload (ce_Load env) (ct_Disk s) (ct_Current s) = Inr c"
    using load reload_accepts [OF c(2,1)] by (simp add: Reload_def)
qed

text \<open>Everything but the disk and the configuration in use is irrelevant.\<close>

lemma wf_control_cong:
  "ct_Disk s' = ct_Disk s \<Longrightarrow> ct_Current s' = ct_Current s \<Longrightarrow> wf_control env s' = wf_control env s"
  by (simp add: wf_control_def document_def managed_path_def)

lemma write_disk:
  assumes "yaml_keeps env" "dk' = snd (WriteManagedDocument env fault path m dk)" "dk' \<noteq> dk"
  shows "validate_written (le_Parsers env) (normalized m) = None" "dk' = dk\<lparr>dk_Managed := stored m\<rparr>"
proof -
  have blank: "trim_space path \<noteq> []" using assms(2,3) by (auto simp: WriteManagedDocument_def)
  show v: "validate_written (le_Parsers env) (normalized m) = None"
    using assms(2,3) blank by (cases "validate_written (le_Parsers env) (normalized m)") (simp_all add: WriteManagedDocument_def)
  show "dk' = dk\<lparr>dk_Managed := stored m\<rparr>"
    using assms(2,3) blank v by (cases fault) (simp_all add: WriteManagedDocument_def stored_normalized [OF assms(1)])
qed

lemma write_wf:
  assumes wf: "wf_control env s" and yaml: "yaml_keeps (ce_Load env)" and path: "managed_path s \<noteq> []"
    and ids: "dc_ID ` set (mi_Devices (document s)) \<subseteq> dc_ID ` set (mi_Devices m)"
    and load: "validate_written (le_Parsers (ce_Load env)) (normalized m) = None \<Longrightarrow> \<exists>c. load_doc (ce_Load env) (raw_of s) (stored m) = Inr c"
    and dk: "dk = snd (WriteManagedDocument (ce_Load env) fault (managed_path s) m (ct_Disk s))"
  shows "wf_control env (s\<lparr>ct_Disk := dk\<rparr>)"
proof (cases "dk = ct_Disk s")
  case True
  then show ?thesis using wf wf_control_cong [of "s\<lparr>ct_Disk := dk\<rparr>" s env] by simp
next
  case False
  have blank: "trim_space (managed_path s) \<noteq> []" using path by (auto simp: managed_path_def ManagedInventoryPath_def split: if_splits)
  note ok = write_disk(1) [OF yaml dk False] and dk' = write_disk(2) [OF yaml dk False]
  have doc: "document (s\<lparr>ct_Disk := dk\<rparr>) = stored m"
    using blank by (simp add: document_def managed_path_def ReadManagedDocument_def dk')
  have raw: "raw_of (s\<lparr>ct_Disk := dk\<rparr>) = raw_of s" by (simp add: dk')
  have "known_IDs (raw_of s) (document s) \<subseteq> known_IDs (raw_of s) (stored m)"
    using ids unfolding known_IDs_def set_map [symmetric] stored_IDs by auto
  moreover obtain m0 where "load_doc (ce_Load env) (raw_of s) m0 = Inr (ct_Current s)"
      "known_IDs (raw_of s) m0 \<subseteq> known_IDs (raw_of s) (document s)"
    using wf unfolding wf_control_def by blast
  ultimately show ?thesis
    using load [OF ok] unfolding wf_control_def doc raw by (intro conjI exI [of _ m0]) simp_all
qed

section \<open>Changing the entry of a device\<close>

lemma update_first_IDs: "(\<And>d. dc_ID (f d) = dc_ID d) \<Longrightarrow> map dc_ID (update_first i f ds) = map dc_ID ds"
  by (induction ds) simp_all

lemma update_first_near: "(\<And>d. near d (f d)) \<Longrightarrow> list_all2 near ds (update_first i f ds)"
  by (induction ds) (simp_all add: list_all2_refl)

lemma update_first_entry:
  "(\<And>d. dc_ID (f d) = dc_ID d) \<Longrightarrow> entry_of (update_first i f ds) k = (if k = i then map_option f (entry_of ds k) else entry_of ds k)"
  by (induction ds) auto

lemma entry_of_append: "entry_of (xs @ ys) k = (case entry_of xs k of None \<Rightarrow> entry_of ys k | Some d \<Rightarrow> Some d)"
  by (induction xs) simp_all

lemma has_entry: "list_ex (\<lambda>d. dc_ID d = i) ds \<longleftrightarrow> i \<in> dc_ID ` set ds"
  by (auto simp: list_ex_iff)

lemma upsert_entry_IDs:
  assumes "\<And>d. dc_ID (f d) = dc_ID d" "dc_ID new = i"
  shows "map dc_ID (upsert_entry i f new ds) = map dc_ID ds @ (if i \<in> dc_ID ` set ds then [] else [i])"
  using assms by (simp add: upsert_entry_def has_entry update_first_IDs)

lemma upsert_entry_lookup:
  assumes "\<And>d. dc_ID (f d) = dc_ID d" "dc_ID new = i"
  shows "entry_of (upsert_entry i f new ds) k =
    (if k = i then Some (case entry_of ds i of None \<Rightarrow> new | Some d \<Rightarrow> f d) else entry_of ds k)"
proof (cases "i \<in> dc_ID ` set ds")
  case True
  then have "entry_of ds i \<noteq> None" by (simp add: entry_of_None del: not_None_eq)
  then show ?thesis using True assms by (auto simp: upsert_entry_def has_entry update_first_entry)
next
  case False
  then have "entry_of ds i = None" by (simp add: entry_of_None)
  then show ?thesis using False assms by (auto simp: upsert_entry_def has_entry entry_of_append split: option.split)
qed

lemma overlay_defaults_valid: "validateManagedOverlay ps (applyDeviceDefault d) = validateManagedOverlay ps d"
  by (simp add: validateManagedOverlay_def applyDeviceDefault_def Let_def)

lemma set_entry_keeps:
  assumes load: "load_doc env raw m = Inr c" and known: "i \<in> known_IDs raw m"
    and f: "\<And>d. near d (f d)" and ok: "validate_written (le_Parsers env) (normalized (set_entry i f m)) = None"
    and deps: "validateDependencies ds0 = None" "distinct (map dc_ID ds0)" "covers raw base ds0"
      "dc_ID ` set ds0 \<subseteq> known_IDs raw (set_entry i f m)"
    and ups: "\<And>k e. entry_of (mi_Devices (set_entry i f m)) k = Some e \<Longrightarrow> ups e \<noteq> [] \<Longrightarrow>
        \<exists>e0. entry_of base k = Some e0 \<and> dc_UpstreamDeviceIDs e0 = Some (ups e)"
      "\<And>k. entry_of (mi_Devices (set_entry i f m)) k = None \<Longrightarrow> entry_of base k = None"
  shows "\<exists>c. load_doc env raw (stored (set_entry i f m)) = Inr c"
proof -
  let ?ps = "le_Parsers env" and ?ds = "mi_Devices m" and ?S = "dc_ID ` set (c_Devices raw)"
  let ?old = "i \<in> dc_ID ` set ?ds"
  define xs where "xs = (if ?old then update_first i f ?ds else ?ds)"
  define news where "news = (if ?old then [] else [f (mk_device i)])"
  have m': "mi_Devices (set_entry i f m) = xs @ news" by (simp add: set_entry_def upsert_entry_def has_entry xs_def news_def)
  have new: "dc_ID (f (mk_device i)) = i" "dc_Host (f (mk_device i)) = []"
    using near_fields(1,2) [OF f, of "mk_device i"] by (simp_all add: mk_device_def)
  have overlay: "validateManagedOverlay ?ps (f (mk_device i)) = None" if "\<not> ?old"
  proof -
    have "applyDeviceDefault (f (mk_device i)) \<in> set (mi_Devices (normalized (set_entry i f m)))"
      using that by (simp add: normalized_def applyDeviceDefaults_def m' news_def)
    then have "validateManagedOverlay ?ps (applyDeviceDefault (f (mk_device i))) = None"
      using ok new(2) unfolding validate_written_def first_err_Cons_None
      by (auto simp: first_err_None trim_space_def)
    then show ?thesis by (simp add: overlay_defaults_valid)
  qed
  have static: "i \<in> ?S" if "\<not> ?old" using known that by (simp add: known_IDs_def)
  have none: "filter (\<lambda>d. dc_ID d \<notin> ?S) news = []" using static new(1) by (simp add: news_def)
  have inv: "inventory_ok ?ps raw m" using load_doc_inventory(1) [OF load refl] .
  have "\<exists>v. load_doc env raw (stored (set_entry i f m))
      = Inr (c\<lparr>c_TemperatureWarningC := v, c_Devices := merged_of raw (stored (set_entry i f m))\<rparr>)"
  proof (rule document_keeps [OF load refl m' _ ok _ _ _ _ _ _ deps(1-3) _ ups])
    show "list_all2 near ?ds xs" by (simp add: xs_def update_first_near [OF f] list_all2_refl)
    show "\<forall>e \<in> set news. if dc_ID e \<in> ?S then validateManagedOverlay ?ps e = None else dev_valid ?ps (applyDeviceDefault e)"
      using overlay static new(1) by (simp add: news_def)
    show "dc_ID ` set news \<inter> dc_ID ` set ?ds = {}" using new(1) by (simp add: news_def)
    show "distinct (hosts ?ps (statics_of raw @ appends_of raw m @ filter (\<lambda>d. dc_ID d \<notin> ?S) news))"
      using inv unfolding none inventory_ok_def by simp
    show "dc_ID ` set ds0 \<subseteq> ?S \<union> dc_ID ` set (mi_Devices (set_entry i f m))" using deps(4) by (simp add: known_IDs_def)
  qed (simp_all add: set_entry_def news_def)
  then show ?thesis by blast
qed


lemma near_setters [simp]:
  "near d (d\<lparr>dc_TemperatureWarningC := t\<rparr>)" "near d (d\<lparr>dc_UpstreamDeviceIDs := us\<rparr>)" "near d (d\<lparr>dc_AlertsEnabled := a\<rparr>)"
proof -
  show "near d (d\<lparr>dc_TemperatureWarningC := t\<rparr>)"
    unfolding near_def by (intro exI [of _ t] exI [of _ "dc_UpstreamDeviceIDs d"] exI [of _ "dc_AlertsEnabled d"]) simp
  show "near d (d\<lparr>dc_UpstreamDeviceIDs := us\<rparr>)"
    unfolding near_def by (intro exI [of _ "dc_TemperatureWarningC d"] exI [of _ us] exI [of _ "dc_AlertsEnabled d"]) simp
  show "near d (d\<lparr>dc_AlertsEnabled := a\<rparr>)"
    unfolding near_def by (intro exI [of _ "dc_TemperatureWarningC d"] exI [of _ "dc_UpstreamDeviceIDs d"] exI [of _ a]) simp
qed

lemma set_entry_IDs:
  assumes "\<And>d. near d (f d)"
  shows "map dc_ID (mi_Devices (set_entry i f m)) = map dc_ID (mi_Devices m) @ (if i \<in> dc_ID ` set (mi_Devices m) then [] else [i])"
  using near_fields(1) [OF assms] by (simp add: set_entry_def upsert_entry_IDs mk_device_def)

lemma set_entry_known:
  assumes "\<And>d. near d (f d)"
  shows "dc_ID ` set (mi_Devices m) \<subseteq> dc_ID ` set (mi_Devices (set_entry i f m))"
    and "known_IDs raw (set_entry i f m) = insert i (known_IDs raw m)"
proof -
  have "dc_ID ` set (mi_Devices (set_entry i f m)) = insert i (dc_ID ` set (mi_Devices m))"
    using arg_cong [OF set_entry_IDs [OF assms], of set, of i m] by (auto split: if_splits)
  then show "dc_ID ` set (mi_Devices m) \<subseteq> dc_ID ` set (mi_Devices (set_entry i f m))"
    and "known_IDs raw (set_entry i f m) = insert i (known_IDs raw m)" by (auto simp: known_IDs_def)
qed

lemma set_entry_lookup:
  assumes "\<And>d. near d (f d)"
  shows "entry_of (mi_Devices (set_entry i f m)) k =
    (if k = i then Some (f (case entry_of (mi_Devices m) i of None \<Rightarrow> mk_device i | Some d \<Rightarrow> d)) else entry_of (mi_Devices m) k)"
  using near_fields(1) [OF assms] by (simp add: set_entry_def upsert_entry_lookup mk_device_def split: option.split)

lemma merged_known: "set (map dc_ID (merged_of raw m)) = known_IDs raw m"
  unfolding merged_fields map_append appends_IDs set_append statics_IDs(1) known_IDs_def by auto

text \<open>A change that leaves the dependencies alone.\<close>

lemma setting_keeps:
  assumes load: "load_doc env raw m = Inr c" and known: "i \<in> known_IDs raw m"
    and f: "\<And>d. near d (f d)" "\<And>d. dc_UpstreamDeviceIDs (f d) = dc_UpstreamDeviceIDs d"
    and ok: "validate_written (le_Parsers env) (normalized (set_entry i f m)) = None"
  shows "\<exists>c. load_doc env raw (stored (set_entry i f m)) = Inr c"
proof (rule set_entry_keeps [OF load known f(1) ok, where ?ds0.0 = "merged_of raw m" and base = "mi_Devices m"])
  have inv: "inventory_ok (le_Parsers env) raw m" using load_doc_inventory(1) [OF load refl] .
  then show "validateDependencies (merged_of raw m) = None" "distinct (map dc_ID (merged_of raw m))"
    unfolding merged_fields inventory_ok_def by simp_all
  show "covers raw (mi_Devices m) (merged_of raw m)" by (rule covers_merged)
  show "dc_ID ` set (merged_of raw m) \<subseteq> known_IDs raw (set_entry i f m)"
    using merged_known [of raw m] set_entry_known(2) [OF f(1)] by auto
  have ups: "ups e \<noteq> [] \<Longrightarrow> dc_UpstreamDeviceIDs e = Some (ups e)" for e by (simp add: ups_def split: option.splits)
  have same: "ups (f d) = ups d" for d by (simp add: ups_def f(2))
  fix k e assume "entry_of (mi_Devices (set_entry i f m)) k = Some e" "ups e \<noteq> []"
  then show "\<exists>e0. entry_of (mi_Devices m) k = Some e0 \<and> dc_UpstreamDeviceIDs e0 = Some (ups e)"
    unfolding set_entry_lookup [OF f(1)] using ups
    by (auto simp: same split: if_splits option.splits) (simp add: ups_def mk_device_def)
next
  fix k assume "entry_of (mi_Devices (set_entry i f m)) k = None"
  then show "entry_of (mi_Devices m) k = None" unfolding set_entry_lookup [OF f(1)] by (simp split: if_splits)
qed

lemma dependencies_keep:
  assumes load: "load_doc env raw m = Inr c" and known: "i \<in> known_IDs raw m"
    and disk: "dk_Raw dk = raw" "ReadManagedDocument path dk = m"
    and pend: "ValidatePendingDependencyMutation dk path i us = None"
    and ok: "validate_written (le_Parsers env) (normalized (set_entry i (\<lambda>d. d\<lparr>dc_UpstreamDeviceIDs := Some us\<rparr>) m)) = None"
  shows "\<exists>c. load_doc env raw (stored (set_entry i (\<lambda>d. d\<lparr>dc_UpstreamDeviceIDs := Some us\<rparr>) m)) = Inr c"
proof -
  let ?f = "\<lambda>d. d\<lparr>dc_UpstreamDeviceIDs := Some us\<rparr>"
  define base where "base = upsert_entry i (\<lambda>d. d\<lparr>dc_UpstreamDeviceIDs := append_nil us\<rparr>)
    ((mk_device i)\<lparr>dc_UpstreamDeviceIDs := Some us\<rparr>) (mi_Devices m)"
  have inv: "inventory_ok (le_Parsers env) raw m" using load_doc_inventory(1) [OF load refl] .
  have IDs: "map dc_ID base = map dc_ID (mi_Devices (set_entry i ?f m))"
    unfolding set_entry_IDs [of ?f, OF near_setters(2)] base_def by (subst upsert_entry_IDs) (simp_all add: mk_device_def)
  have dist: "distinct (map dc_ID base)"
    using inventory_distinct [OF inv] unfolding IDs set_entry_IDs [of ?f, OF near_setters(2)] by auto
  have st: "distinct (map dc_ID (statics_of raw))" by (rule load_doc_entries(2) [OF load refl])
  have "mergeInventories (statics_of raw) base = plain_merge raw base"
    using merge_closed [OF st, of base] dist by (simp add: plain_merge_def statics_IDs(2))
  then have deps: "validateDependencies (plain_merge raw base) = None"
    using pend by (auto simp: ValidatePendingDependencyMutation_def Let_def disk base_def statics_of_def split: if_splits)
  have look: "entry_of base k = (if k = i then Some (case entry_of (mi_Devices m) i of
      None \<Rightarrow> (mk_device i)\<lparr>dc_UpstreamDeviceIDs := Some us\<rparr> | Some d \<Rightarrow> d\<lparr>dc_UpstreamDeviceIDs := append_nil us\<rparr>)
      else entry_of (mi_Devices m) k)" for k
    unfolding base_def by (rule upsert_entry_lookup) (simp_all add: mk_device_def)
  show ?thesis
  proof (rule set_entry_keeps [OF load known near_setters(2) ok deps _ covers_plain])
    show "distinct (map dc_ID (plain_merge raw base))"
      unfolding plain_merge_IDs using st dist statics_IDs(2) [of raw] by auto
    have "set (map dc_ID (plain_merge raw base)) \<subseteq> known_IDs raw (set_entry i ?f m)"
      unfolding plain_merge_IDs IDs known_IDs_def statics_IDs(1) by auto
    then show "dc_ID ` set (plain_merge raw base) \<subseteq> known_IDs raw (set_entry i ?f m)" by simp
    fix k e assume "entry_of (mi_Devices (set_entry i ?f m)) k = Some e" "ups e \<noteq> []"
    then show "\<exists>e0. entry_of base k = Some e0 \<and> dc_UpstreamDeviceIDs e0 = Some (ups e)"
      unfolding set_entry_lookup [of ?f, OF near_setters(2)] look
      by (auto simp: ups_def append_nil_def split: if_splits option.splits)
  next
    fix k assume "entry_of (mi_Devices (set_entry i ?f m)) k = None"
    then show "entry_of base k = None"
      unfolding set_entry_lookup [of ?f, OF near_setters(2)] look by (simp split: if_splits)
  qed
qed


section \<open>Each mutation keeps the configuration loadable\<close>

lemma wf_document:
  assumes "wf_control env s"
  obtains c where "load_doc (ce_Load env) (raw_of s) (document s) = Inr c"
  using assms unfolding wf_control_def by blast

lemma snd_write: "snd (write_document env rq m s)
    = s\<lparr>ct_Disk := snd (WriteManagedDocument (ce_Load env) (rq_Fault rq) (managed_path s) m (ct_Disk s))\<rparr>"
  by (simp add: write_document_def split: prod.split)

lemma write_document_wf:
  assumes "wf_control env s" "yaml_keeps (ce_Load env)" "managed_path s \<noteq> []"
    and "dc_ID ` set (mi_Devices (document s)) \<subseteq> dc_ID ` set (mi_Devices m)"
    and "validate_written (le_Parsers (ce_Load env)) (normalized m) = None \<Longrightarrow> \<exists>c. load_doc (ce_Load env) (raw_of s) (stored m) = Inr c"
  shows "wf_control env (snd (write_document env rq m s))"
  unfolding snd_write using assms by (rule write_wf) simp_all

lemma device_known_IDs: "wf_control env s \<Longrightarrow> device_known s i \<Longrightarrow> i \<in> known_IDs (raw_of s) (document s)"
  using wf_loads(3) [of env s] by (auto simp: device_known_def has_entry)

lemma set_entry_wf:
  assumes wf: "wf_control env s" and yaml: "yaml_keeps (ce_Load env)" "managed_path s \<noteq> []" "device_known s i"
    and f: "\<And>d. near d (f d)" "\<And>d. dc_UpstreamDeviceIDs (f d) = dc_UpstreamDeviceIDs d"
  shows "wf_control env (snd (write_document env rq (set_entry i f (document s)) s))"
proof -
  obtain c where c: "load_doc (ce_Load env) (raw_of s) (document s) = Inr c" using wf by (rule wf_document)
  show ?thesis
    using setting_keeps [OF c device_known_IDs [OF wf yaml(3)] f] set_entry_known(1) [OF f(1)]
    by (intro write_document_wf [OF wf yaml(1,2)]) simp_all
qed

lemma threshold_wf:
  assumes wf: "wf_control env s" and yaml: "yaml_keeps (ce_Load env)"
  shows "wf_control env (snd (applyThresholdMutation env rq ps s))"
proof -
  obtain c where c: "load_doc (ce_Load env) (raw_of s) (document s) = Inr c" using wf by (rule wf_document)
  have inv: "inventory_ok (le_Parsers (ce_Load env)) (raw_of s) (document s)" by (rule load_doc_inventory(1) [OF c refl])
  have default: "wf_control env (snd (write_document env rq ((document s)\<lparr>mi_TemperatureWarningC := Some v\<rparr>) s))"
    if path: "managed_path s \<noteq> []" for v
  proof (rule write_document_wf [OF wf yaml path])
    let ?m = "(document s)\<lparr>mi_TemperatureWarningC := Some v\<rparr>"
    assume ok: "validate_written (le_Parsers (ce_Load env)) (normalized ?m) = None"
    have "\<exists>w. load_doc (ce_Load env) (raw_of s) (stored ?m)
        = Inr (c\<lparr>c_TemperatureWarningC := w, c_Devices := merged_of (raw_of s) (stored ?m)\<rparr>)"
    proof (rule document_keeps [OF c refl _ _ ok, where news = "[]" and xs = "mi_Devices (document s)"])
      show "list_all2 near (mi_Devices (document s)) (mi_Devices (document s))" by (simp add: list_all2_refl)
      show "distinct (hosts (le_Parsers (ce_Load env)) (statics_of (raw_of s) @ appends_of (raw_of s) (document s)
          @ filter (\<lambda>d. dc_ID d \<notin> dc_ID ` set (c_Devices (raw_of s))) []))" using inv by (simp add: inventory_ok_def)
      show "validateDependencies (merged_of (raw_of s) (document s)) = None" "distinct (map dc_ID (merged_of (raw_of s) (document s)))"
        using inv unfolding merged_fields inventory_ok_def by simp_all
      show "covers (raw_of s) (mi_Devices (document s)) (merged_of (raw_of s) (document s))" by (rule covers_merged)
      show "dc_ID ` set (merged_of (raw_of s) (document s)) \<subseteq> dc_ID ` set (c_Devices (raw_of s)) \<union> dc_ID ` set (mi_Devices ?m)"
        using merged_known [of "raw_of s" "document s"] by (auto simp: known_IDs_def)
      fix k e assume "entry_of (mi_Devices ?m) k = Some e" "ups e \<noteq> []"
      then show "\<exists>e0. entry_of (mi_Devices (document s)) k = Some e0 \<and> dc_UpstreamDeviceIDs e0 = Some (ups e)"
        by (simp add: ups_def split: option.splits)
    qed simp_all
    then show "\<exists>c. load_doc (ce_Load env) (raw_of s) (stored ?m) = Inr c" by blast
  qed simp
  show ?thesis
    using wf default set_entry_wf [OF wf yaml, where f = "\<lambda>d. d\<lparr>dc_TemperatureWarningC := Some v\<rparr>" for v]
    by (auto simp: applyThresholdMutation_def Let_def split: option.split)
qed

lemma alerting_wf:
  assumes "wf_control env s" "yaml_keeps (ce_Load env)"
  shows "wf_control env (snd (applyAlertingMutation env rq ps s))"
  using assms set_entry_wf [OF assms, where f = "\<lambda>d. d\<lparr>dc_AlertsEnabled := Some b\<rparr>" for b]
  by (auto simp: applyAlertingMutation_def Let_def split: option.split)

lemma dependency_wf:
  assumes wf: "wf_control env s" and yaml: "yaml_keeps (ce_Load env)"
  shows "wf_control env (snd (applyDependencyMutation env rq ps s))"
proof (cases "validateDependencyTargets ps s")
  case None
  then obtain us where us: "managed_path s \<noteq> []" "asStringSlice (param ps ''upstream_device_ids'') = Some us"
      "device_known s (text_param ps ''device_id'')"
      "ValidatePendingDependencyMutation (ct_Disk s) (managed_path s) (text_param ps ''device_id'') us = None"
    by (auto simp: validateDependencyTargets_def Let_def split: if_splits option.splits)
  obtain c where c: "load_doc (ce_Load env) (raw_of s) (document s) = Inr c" using wf by (rule wf_document)
  have "wf_control env (snd (write_document env rq
      (set_entry (text_param ps ''device_id'') (\<lambda>d. d\<lparr>dc_UpstreamDeviceIDs := Some us\<rparr>) (document s)) s))"
    using dependencies_keep [OF c device_known_IDs [OF wf us(3)] refl document_def [symmetric] us(4)]
    by (intro write_document_wf [OF wf yaml us(1)] set_entry_known(1)) simp_all
  then show ?thesis using None us(2) by (simp add: applyDependencyMutation_def writeDependencies_def)
qed (use wf in \<open>simp add: applyDependencyMutation_def\<close>)


section \<open>Accepting discovered devices\<close>

text \<open>Only the bytes of space runes are trimmed.\<close>

lemma strip_mem: "\<forall>e \<in> set es. c \<notin> set e \<Longrightarrow> c \<in> set (strip es s) \<longleftrightarrow> c \<in> set s"
proof (induction es s rule: strip.induct)
  case (1 es s)
  show ?case
  proof (cases "find (\<lambda>e. e \<noteq> [] \<and> prefix e s) es")
    case None
    then show ?thesis by (simp add: strip.simps)
  next
    case (Some e)
    then have step: "strip es s = strip es (drop (length e) s)" by (subst strip.simps) simp
    obtain t where "e \<in> set es" "s = e @ t" using Some by (auto simp: find_Some_iff prefix_def)
    then show ?thesis using "1.IH" [OF Some "1.prems"] "1.prems" unfolding step by auto
  qed
qed

lemma trim_space_mem: "\<forall>e \<in> set space_runes. c \<notin> set e \<Longrightarrow> c \<in> set (trim_space s) \<longleftrightarrow> c \<in> set s"
  by (simp add: trim_space_def strip_mem)

text \<open>The review reads an address with \<open>netip.ParseAddr\<close>, the loader with \<open>net.ParseIP\<close>.  Both read the addresses
  without a zone alike; \<open>ParseIP\<close> refuses the ones with a zone, such as \<open>fe80::1%eth0\<close>, which \<open>ParseAddr\<close> reads.  The
  empty text is no address.\<close>

definition zoned :: "string \<Rightarrow> bool" where
  "zoned h \<longleftrightarrow> CHR ''%'' \<in> set h"

definition addresses_agree :: "control_env \<Rightarrow> bool" where
  "addresses_agree env \<longleftrightarrow> (\<forall>h. \<not> zoned h \<longrightarrow> ce_Addr env h = ps_IP (le_Parsers (ce_Load env)) h)
     \<and> (\<forall>h. zoned h \<longrightarrow> ps_IP (le_Parsers (ce_Load env)) h = None)
     \<and> (\<forall>h a. ps_IP (le_Parsers (ce_Load env)) h = Some a \<longrightarrow> \<not> zoned a) \<and> ce_Addr env [] = None"

lemma zoned_trim: "zoned (trim_space h) = zoned h"
proof -
  have "list_all (\<lambda>e. CHR ''%'' \<notin> set e) space_runes" by code_simp
  then show ?thesis unfolding zoned_def by (intro trim_space_mem) (simp add: list_all_iff)
qed

lemma lower_char:
  "(if CHR ''A'' \<le> c \<and> c \<le> CHR ''Z'' then char_of (of_char c + (32 :: nat)) else c) = CHR ''%'' \<longleftrightarrow> c = CHR ''%''"
proof (cases "CHR ''A'' \<le> c \<and> c \<le> CHR ''Z''")
  case True
  then have b: "65 \<le> (of_char c :: nat)" "(of_char c :: nat) \<le> 90" by (simp_all add: less_eq_char_def)
  have "of_char (char_of (of_char c + (32 :: nat)) :: char) = of_char c + (32 :: nat)" using b by simp
  moreover have "of_char (CHR ''%'') = (37 :: nat)" by simp
  ultimately have "char_of (of_char c + (32 :: nat)) \<noteq> CHR ''%''" using b by (intro notI) simp
  moreover have "c \<noteq> CHR ''%''" using b by auto
  ultimately show ?thesis using True by simp
qed auto

lemma zoned_lower: "zoned (to_lower h) = zoned h"
proof -
  have "CHR ''%'' \<in> f ` set h \<longleftrightarrow> (\<exists>c \<in> set h. f c = CHR ''%'')" for f :: "char \<Rightarrow> char" by force
  then show ?thesis unfolding zoned_def to_lower_def set_map by (simp only: lower_char) blast
qed
lemma zoned_dot: "zoned (if suffix ''.'' h then butlast h else h) = zoned h"
  by (auto simp: zoned_def suffix_def)

lemma canonical_agree:
  "addresses_agree env \<Longrightarrow> \<not> zoned h \<Longrightarrow> canonicalHost_review (ce_Addr env) h = canonicalHost (le_Parsers (ce_Load env)) h"
  using zoned_trim [of "if suffix ''.'' h then butlast h else h"] zoned_dot [of h]
  by (simp add: addresses_agree_def canonicalHost_review_def canonicalHost_def Let_def)

lemma canonical_zoned:
  assumes "addresses_agree env"
  shows "zoned (canonicalHost (le_Parsers (ce_Load env)) h) = zoned h"
proof -
  let ?h = "trim_space (if suffix ''.'' h then butlast h else h)"
  have z: "zoned ?h = zoned h" by (simp only: zoned_trim zoned_dot)
  show ?thesis
  proof (cases "ps_IP (le_Parsers (ce_Load env)) ?h")
    case None
    then show ?thesis by (simp only: canonicalHost_def Let_def option.case zoned_lower z)
  next
    case (Some a)
    then have "\<not> zoned a" "\<not> zoned ?h" using assms unfolding addresses_agree_def by fastforce+
    then show ?thesis using Some z by (simp only: canonicalHost_def Let_def option.case)
  qed
qed

text \<open>A host without a zone that the review finds to be new is new for the loader.\<close>

lemma host_apart:
  assumes "addresses_agree env" "\<not> zoned h" "canonicalHost_review (ce_Addr env) h \<notin> (\<lambda>a. canonicalHost_review (ce_Addr env) (dc_Host a)) ` A"
  shows "canonicalHost (le_Parsers (ce_Load env)) h \<notin> (\<lambda>a. canonicalHost (le_Parsers (ce_Load env)) (dc_Host a)) ` A"
proof
  assume "canonicalHost (le_Parsers (ce_Load env)) h \<in> (\<lambda>a. canonicalHost (le_Parsers (ce_Load env)) (dc_Host a)) ` A"
  then obtain a where a: "a \<in> A" "canonicalHost (le_Parsers (ce_Load env)) h = canonicalHost (le_Parsers (ce_Load env)) (dc_Host a)" by blast
  then have "\<not> zoned (dc_Host a)" using canonical_zoned [OF assms(1)] assms(2) by metis
  then have "canonicalHost_review (ce_Addr env) h = canonicalHost_review (ce_Addr env) (dc_Host a)"
    using a(2) canonical_agree [OF assms(1)] assms(2) by simp
  then show False using assms(3) a(1) by blast
qed

lemma proposed_device_fields:
  assumes "proposed_device parse r = Inr d"
  shows "dc_UpstreamDeviceIDs d = dc_UpstreamDeviceIDs (rv_Device r)" "parse (trim_space (dc_Host d)) \<noteq> None"
    and "trim_space (dc_ID d) \<noteq> []" "dc_Host d = dc_Host (rv_Device r)"
  using assms by (auto simp: proposed_device_def Let_def split: if_splits option.splits)

lemma approve_Inr:
  assumes "approve parse seenIDs seenHosts rs = Inr ds"
  shows "distinct (map dc_ID ds) \<and> dc_ID ` set ds \<inter> set seenIDs = {}
    \<and> distinct (map (\<lambda>d. canonicalHost_review parse (dc_Host d)) ds)
    \<and> (\<lambda>d. canonicalHost_review parse (dc_Host d)) ` set ds \<inter> set seenHosts = {}
    \<and> (\<forall>d \<in> set ds. \<exists>r \<in> set rs. proposed_device parse r = Inr d)"
  using assms
proof (induction parse seenIDs seenHosts rs arbitrary: ds rule: approve.induct)
  case (2 parse seenIDs seenHosts r rs)
  show ?case
  proof (cases "rv_Approved r")
    case False
    with 2 show ?thesis by auto
  next
    case True
    with "2.prems" obtain d ds' where d: "proposed_device parse r = Inr d" "dc_ID d \<notin> set seenIDs"
        "canonicalHost_review parse (dc_Host d) \<notin> set seenHosts" "ds = d # ds'"
        "approve parse (dc_ID d # seenIDs) (canonicalHost_review parse (dc_Host d) # seenHosts) rs = Inr ds'"
      by (auto split: sum.splits if_splits)
    from "2.IH"(2) [OF _ d(1) d(2) d(3) d(5)] True d(1-4) show ?thesis by auto
  qed
qed simp

lemma parse_reviews_plain: "parse_reviews env vs = Some rs \<Longrightarrow> r \<in> set rs \<Longrightarrow> dc_UpstreamDeviceIDs (rv_Device r) = None"
  by (induction env vs arbitrary: rs rule: parse_reviews.induct)
     (auto simp: review_device_def mk_device_def Let_def split: any.splits)

lemma reject_None:
  assumes "rejectActiveDuplicates parse active ds = None" "d \<in> set ds"
  shows "dc_ID d \<notin> dc_ID ` set active \<and> canonicalHost_review parse (dc_Host d) \<notin> (\<lambda>a. canonicalHost_review parse (dc_Host a)) ` set active"
proof -
  let ?check = "\<lambda>d. if dc_ID d \<in> dc_ID ` set active then Some ''device ID already exists in active inventory''
       else fail_if (canonicalHost_review parse (dc_Host d) \<in> (\<lambda>a. canonicalHost_review parse (dc_Host a)) ` set active)
         ''device host already exists in active inventory''"
  have "\<forall>x \<in> set (map ?check ds). x = None"
    using assms(1) unfolding rejectActiveDuplicates_def first_err_None .
  then have "?check d = None" using assms(2) by (simp only: set_map ball_simps)
  then show ?thesis by (simp add: fail_if_None split: if_splits)
qed

lemma filterNew_mem:
  "d \<in> set (filterNewManagedAppends parse ms ds) \<longleftrightarrow> d \<in> set ds
     \<and> dc_ID d \<notin> dc_ID ` set (filter (\<lambda>d. trim_space (dc_ID d) \<noteq> []) ms)
     \<and> canonicalHost_review parse (dc_Host d) \<notin> (\<lambda>d. canonicalHost_review parse (dc_Host d)) ` set (filter (\<lambda>d. trim_space (dc_Host d) \<noteq> []) ms)"
  unfolding filterNewManagedAppends_def Let_def set_filter set_map by simp

lemma disjoint_imageI: "(\<And>x. x \<in> A \<Longrightarrow> f x \<notin> B) \<Longrightarrow> f ` A \<inter> B = {}"
  by blast

lemma accepted_devices:
  assumes "addresses_agree env" "approvedDevices (ce_Addr env) rs = Inr ds" "rejectActiveDuplicates (ce_Addr env) active ds = None"
    and "new = filterNewManagedAppends (ce_Addr env) managed ds" "\<forall>r \<in> set rs. \<not> zoned (dc_Host (rv_Device r))"
  shows "distinct (map dc_ID new)" "distinct (hosts (le_Parsers (ce_Load env)) new)"
    and "dc_ID ` set new \<inter> (dc_ID ` set managed \<union> dc_ID ` set active) = {}"
    and "set (hosts (le_Parsers (ce_Load env)) new) \<inter> set (hosts (le_Parsers (ce_Load env)) active) = {}"
    and "set (hosts (le_Parsers (ce_Load env)) new) \<inter> set (hosts (le_Parsers (ce_Load env)) (filter (\<lambda>d. trim_space (dc_Host d) \<noteq> []) managed)) = {}"
    and "\<And>d. d \<in> set new \<Longrightarrow> trim_space (dc_Host d) \<noteq> [] \<and> (\<exists>r \<in> set rs. proposed_device (ce_Addr env) r = Inr d)"
proof -
  have ap: "approve (ce_Addr env) [] [] rs = Inr ds"
    using assms(2) by (auto simp: approvedDevices_def split: sum.splits list.splits)
  note a = approve_Inr [OF ap]
  have sub: "set new \<subseteq> set ds" by (auto simp: assms(4) filterNewManagedAppends_def Let_def)
  have plain: "\<not> zoned (dc_Host d)" if "d \<in> set ds" for d
  proof -
    have "\<exists>r \<in> set rs. proposed_device (ce_Addr env) r = Inr d" using a that by simp
    then obtain r where r: "r \<in> set rs" "proposed_device (ce_Addr env) r = Inr d" by blast
    show ?thesis using proposed_device_fields(4) [OF r(2)] assms(5) r(1) by simp
  qed
  then have "hosts (le_Parsers (ce_Load env)) ds = map (\<lambda>d. canonicalHost_review (ce_Addr env) (dc_Host d)) ds"
    using canonical_agree [OF assms(1)] by simp
  then have "distinct (hosts (le_Parsers (ce_Load env)) ds)" using conjunct1 [OF conjunct2 [OF conjunct2 [OF a]]] by (simp only:)
  then show "distinct (map dc_ID new)" "distinct (hosts (le_Parsers (ce_Load env)) new)"
    using a by (simp_all add: assms(4) filterNewManagedAppends_def Let_def distinct_map_filter)
  have rev: "\<exists>r \<in> set rs. proposed_device (ce_Addr env) r = Inr d" if "d \<in> set ds" for d using a that by simp
  have host: "trim_space (dc_Host d) \<noteq> []" "trim_space (dc_ID d) \<noteq> []" if "d \<in> set ds" for d
  proof -
    obtain r where r: "proposed_device (ce_Addr env) r = Inr d" using rev [OF \<open>d \<in> set ds\<close>] by blast
    show "trim_space (dc_ID d) \<noteq> []" by (rule proposed_device_fields(3) [OF r])
    show "trim_space (dc_Host d) \<noteq> []"
      using proposed_device_fields(2) [OF r] assms(1) unfolding addresses_agree_def by metis
  qed
  show "trim_space (dc_Host d) \<noteq> [] \<and> (\<exists>r \<in> set rs. proposed_device (ce_Addr env) r = Inr d)" if "d \<in> set new" for d
    using host(1) [of d] rev [of d] subsetD [OF sub that] by blast
  have act: "dc_ID d \<notin> dc_ID ` set active" "canonicalHost (le_Parsers (ce_Load env)) (dc_Host d) \<notin> set (hosts (le_Parsers (ce_Load env)) active)"
    if "d \<in> set new" for d
  proof -
    note r = reject_None [OF assms(3) subsetD [OF sub that]]
    show "dc_ID d \<notin> dc_ID ` set active" by (rule conjunct1 [OF r])
    show "canonicalHost (le_Parsers (ce_Load env)) (dc_Host d) \<notin> set (hosts (le_Parsers (ce_Load env)) active)"
      unfolding set_map by (rule host_apart [OF assms(1) plain [OF subsetD [OF sub that]] conjunct2 [OF r]])
  qed
  have man: "dc_ID d \<notin> dc_ID ` set managed" if "d \<in> set new" for d
  proof
    assume "dc_ID d \<in> dc_ID ` set managed"
    then obtain e where e: "e \<in> set managed" "dc_ID d = dc_ID e" by (rule imageE)
    have "trim_space (dc_ID d) \<noteq> []" using host(2) [OF subsetD [OF sub that]] .
    with e show False using that unfolding assms(4) filterNew_mem by simp
  qed
  show "dc_ID ` set new \<inter> (dc_ID ` set managed \<union> dc_ID ` set active) = {}"
    using act(1) man by (intro disjoint_imageI) simp
  show "set (hosts (le_Parsers (ce_Load env)) new) \<inter> set (hosts (le_Parsers (ce_Load env)) active) = {}"
    using act(2) by (simp only: set_map) (intro disjoint_imageI, simp)
  show "set (hosts (le_Parsers (ce_Load env)) new) \<inter> set (hosts (le_Parsers (ce_Load env)) (filter (\<lambda>d. trim_space (dc_Host d) \<noteq> []) managed)) = {}"
    unfolding set_map
  proof (intro disjoint_imageI)
    fix d assume d: "d \<in> set new"
    then show "canonicalHost (le_Parsers (ce_Load env)) (dc_Host d)
        \<notin> (\<lambda>d. canonicalHost (le_Parsers (ce_Load env)) (dc_Host d)) ` set (filter (\<lambda>d. trim_space (dc_Host d) \<noteq> []) managed)"
      using host_apart [OF assms(1) plain [OF subsetD [OF sub d]]] unfolding assms(4) filterNew_mem by blast
  qed
qed

lemma ups_default_None: "dc_UpstreamDeviceIDs e = None \<Longrightarrow> ups e = []"
  by (simp add: ups_def)

lemma accept_keeps:
  assumes load: "load_doc env raw m = Inr c" and ok: "validate_written (le_Parsers env) (normalized m') = None"
    and m': "m' = m\<lparr>mi_Devices := mi_Devices m @ news\<rparr>"
    and new: "distinct (map dc_ID news)" "distinct (hosts (le_Parsers env) news)"
      "dc_ID ` set news \<inter> (dc_ID ` set (mi_Devices m) \<union> dc_ID ` set (c_Devices raw)) = {}"
      "set (hosts (le_Parsers env) news) \<inter> set (hosts (le_Parsers env) (statics_of raw)) = {}"
      "set (hosts (le_Parsers env) news) \<inter> set (hosts (le_Parsers env) (filter (\<lambda>d. trim_space (dc_Host d) \<noteq> []) (mi_Devices m))) = {}"
      "\<And>d. d \<in> set news \<Longrightarrow> trim_space (dc_Host d) \<noteq> [] \<and> ups d = []"
  shows "\<exists>c. load_doc env raw (stored m') = Inr c"
proof -
  let ?ps = "le_Parsers env" and ?S = "dc_ID ` set (c_Devices raw)"
  have inv: "inventory_ok ?ps raw m" by (rule load_doc_inventory(1) [OF load refl])
  have devs: "mi_Devices m' = mi_Devices m @ news" by (simp add: m')
  have valid: "dev_valid ?ps (applyDeviceDefault e)" if "e \<in> set news" for e
  proof -
    have "applyDeviceDefault e \<in> set (filter (\<lambda>d. trim_space (dc_Host d) \<noteq> []) (mi_Devices (normalized m')))"
      using that new(6) by (simp add: normalized_def applyDeviceDefaults_def devs)
    then show ?thesis
      using ok unfolding validate_written_def first_err_Cons_None validateDeviceSource_def validate_devices_iff by blast
  qed
  have out: "dc_ID e \<notin> ?S" if "e \<in> set news" for e using new(3) that by blast
  then have all: "filter (\<lambda>d. dc_ID d \<notin> ?S) news = news" by simp
  have "set (hosts ?ps (appends_of raw m)) \<subseteq> set (hosts ?ps (filter (\<lambda>d. trim_space (dc_Host d) \<noteq> []) (mi_Devices m)))"
  proof
    fix h assume "h \<in> set (hosts ?ps (appends_of raw m))"
    then obtain d where d: "d \<in> set (mi_Devices m)" "dc_ID d \<notin> ?S" "h = canonicalHost ?ps (dc_Host d)"
      by (auto simp: appends_of_def)
    then have "dev_valid ?ps (applyDeviceDefault d)" using inv by (auto simp: inventory_ok_def appends_of_def)
    with d show "h \<in> set (hosts ?ps (filter (\<lambda>d. trim_space (dc_Host d) \<noteq> []) (mi_Devices m)))" by (auto simp: dev_valid_fields)
  qed
  then have hs: "distinct (hosts ?ps (statics_of raw @ appends_of raw m @ filter (\<lambda>d. dc_ID d \<notin> ?S) news))"
    unfolding all using inv new(2,4,5) unfolding inventory_ok_def map_append distinct_append set_append by blast
  have "\<exists>v. load_doc env raw (stored m') = Inr (c\<lparr>c_TemperatureWarningC := v, c_Devices := merged_of raw (stored m')\<rparr>)"
  proof (rule document_keeps [OF load refl devs _ ok _ _ _ new(1) _ hs])
    show "list_all2 near (mi_Devices m) (mi_Devices m)" by (simp add: list_all2_refl)
    show "\<forall>e \<in> set news. if dc_ID e \<in> ?S then validateManagedOverlay ?ps e = None else dev_valid ?ps (applyDeviceDefault e)"
      using valid out by simp
    show "dc_ID ` set news \<inter> dc_ID ` set (mi_Devices m) = {}" using new(3) by blast
    show "validateDependencies (merged_of raw m) = None" "distinct (map dc_ID (merged_of raw m))"
      using inv unfolding merged_fields inventory_ok_def by simp_all
    show "covers raw (mi_Devices m) (merged_of raw m)" by (rule covers_merged)
    show "dc_ID ` set (merged_of raw m) \<subseteq> ?S \<union> dc_ID ` set (mi_Devices m')"
      using merged_known [of raw m] by (auto simp: known_IDs_def devs)
    fix k e assume e: "entry_of (mi_Devices m') k = Some e" "ups e \<noteq> []"
    then have "entry_of (mi_Devices m) k = Some e \<or> entry_of news k = Some e"
      by (auto simp: devs entry_of_append split: option.splits)
    then have "entry_of (mi_Devices m) k = Some e" using new(6) [of e] entry_of_Some [of news k e] e(2) by blast
    then show "\<exists>e0. entry_of (mi_Devices m) k = Some e0 \<and> dc_UpstreamDeviceIDs e0 = Some (ups e)"
      using e(2) by (simp add: ups_def split: option.splits)
  next
    fix k assume "entry_of (mi_Devices m') k = None"
    then show "entry_of (mi_Devices m) k = None" by (simp add: devs entry_of_append split: option.splits)
  qed (simp_all add: m')
  then show ?thesis by blast
qed


text \<open>The parameters of a request that accepts no device whose host has a zone.\<close>

definition unzoned :: "control_env \<Rightarrow> params \<Rightarrow> bool" where
  "unzoned env ps \<longleftrightarrow> (case parseReviewedCandidates env (param ps ''reviews'') of
      None \<Rightarrow> True | Some rs \<Rightarrow> list_all (\<lambda>r. \<not> zoned (dc_Host (rv_Device r))) rs)"

lemma accept_wf:
  assumes wf: "wf_control env s" and yaml: "yaml_keeps (ce_Load env)" and agree: "addresses_agree env" and zones: "unzoned env ps"
  shows "wf_control env (snd (applyDiscoveryAcceptMutation env rq ps s))"
proof (cases "managed_path s = []")
  case False
  show ?thesis
  proof (cases "parseReviewedCandidates env (param ps ''reviews'')")
    case (Some reviews)
    let ?parse = "ce_Addr env" and ?active = "c_Devices (ct_Current s)" and ?managed = "mi_Devices (document s)"
    let ?new = "\<lambda>ds. filterNewManagedAppends ?parse ?managed ds"
    let ?result = "snd (AcceptReviewed ?parse (ce_Load env) (rq_Fault rq) (managed_path s) ?managed ?active reviews (ct_Disk s))"
    have wf': "wf_control env (s\<lparr>ct_Disk := ?result\<rparr>)"
    proof (cases "\<exists>ds. approvedDevices ?parse reviews = Inr ds \<and> rejectActiveDuplicates ?parse ?active ds = None \<and> ?new ds \<noteq> []")
      case False
      then have "?result = ct_Disk s"
        by (auto simp: AcceptReviewed_def Let_def split: sum.splits option.splits)
      then show ?thesis using wf wf_control_cong [of "s\<lparr>ct_Disk := ?result\<rparr>" s env] by simp
    next
      case True
      then obtain ds where ds: "approvedDevices ?parse reviews = Inr ds" "rejectActiveDuplicates ?parse ?active ds = None" "?new ds \<noteq> []"
        by blast
      have "\<forall>r \<in> set reviews. \<not> zoned (dc_Host (rv_Device r))" using zones Some by (simp add: unzoned_def list_all_iff)
      note acc = accepted_devices [OF agree ds(1,2) refl this, where managed = ?managed]
      let ?m = "(document s)\<lparr>mi_Devices := ?managed @ ?new ds\<rparr>"
      have res: "?result = snd (WriteManagedDocument (ce_Load env) (rq_Fault rq) (managed_path s) ?m (ct_Disk s))"
        using ds by (simp add: AcceptReviewed_def WriteManagedInventory_def document_def Let_def)
      obtain c where c: "load_doc (ce_Load env) (raw_of s) (document s) = Inr c" using wf by (rule wf_document)
      obtain m0 where "load_doc (ce_Load env) (raw_of s) m0 = Inr (ct_Current s)" using wf unfolding wf_control_def by blast
      note cur = load_doc_settings(2,3) [OF this]
      show ?thesis
      proof (rule write_wf [OF wf yaml False _ _ res])
        assume ok: "validate_written (le_Parsers (ce_Load env)) (normalized ?m) = None"
        have plain: "ups d = []" if d: "d \<in> set (?new ds)" for d
        proof -
          obtain r where r: "r \<in> set reviews" "proposed_device ?parse r = Inr d" using acc(6) [OF d] by blast
          have "dc_UpstreamDeviceIDs (rv_Device r) = None"
            using Some r(1) parse_reviews_plain by (auto simp: parseReviewedCandidates_def split: any.splits)
          then show ?thesis using proposed_device_fields(1) [OF r(2)] by (simp add: ups_def)
        qed
        show "\<exists>c. load_doc (ce_Load env) (raw_of s) (stored ?m) = Inr c"
        proof (rule accept_keeps [OF c ok refl acc(1,2) _ _ acc(5)])
          show "dc_ID ` set (?new ds) \<inter> (dc_ID ` set ?managed \<union> dc_ID ` set (c_Devices (raw_of s))) = {}"
            using acc(3) cur(1) by blast
          show "set (hosts (le_Parsers (ce_Load env)) (?new ds)) \<inter> set (hosts (le_Parsers (ce_Load env)) (statics_of (raw_of s))) = {}"
            using acc(4) cur(2) [of "le_Parsers (ce_Load env)"] by blast
          fix d assume "d \<in> set (?new ds)"
          then show "trim_space (dc_Host d) \<noteq> [] \<and> ups d = []" using acc(6) plain by blast
        qed
      qed auto
    qed
    obtain e dk where res: "AcceptReviewed ?parse (ce_Load env) (rq_Fault rq) (managed_path s) ?managed ?active reviews (ct_Disk s) = (e, dk)"
      by fastforce
    show ?thesis using False Some wf' by (simp add: applyDiscoveryAcceptMutation_def res)
  qed (use wf in \<open>simp add: applyDiscoveryAcceptMutation_def\<close>)
qed (use wf in \<open>simp add: applyDiscoveryAcceptMutation_def\<close>)

section \<open>Requests\<close>

definition mutations :: "mutation list" where
  "mutations = [thresholds, dependencies, alerting, discovery_policy, discovery_accept]"

lemmas mutation_defs = thresholds_def dependencies_def alerting_def discovery_policy_def discovery_accept_def

lemmas handler_defs = handleThresholdsPrepare_def handleThresholdsCommit_def handleDependenciesPrepare_def handleDependenciesCommit_def
  handleAlertingPrepare_def handleAlertingCommit_def handleDiscoveryPolicyPrepare_def handleDiscoveryPolicyCommit_def
  handleDiscoveryAcceptPrepare_def handleDiscoveryAcceptCommit_def

lemma mutation_actions [simp]:
  "mu_Action thresholds = ''thresholds''" "mu_Action dependencies = ''dependencies''" "mu_Action alerting = ''device.alerting''"
  "mu_Action discovery_policy = ''discovery.policy''" "mu_Action discovery_accept = ''discovery.accept''"
  by (simp_all add: mutation_defs)

lemma mutations_unfold: "mutations =
   [\<lparr>mu_Action = ''thresholds'', mu_Check = validateThresholdParams, mu_Apply = applyThresholdMutation,
      mu_AuditPrepare = True, mu_AuditCommit = True\<rparr>,
    \<lparr>mu_Action = ''dependencies'', mu_Check = validateDependencyParams, mu_Apply = applyDependencyMutation,
      mu_AuditPrepare = True, mu_AuditCommit = True\<rparr>,
    \<lparr>mu_Action = ''device.alerting'', mu_Check = validateAlertingParams, mu_Apply = applyAlertingMutation,
      mu_AuditPrepare = True, mu_AuditCommit = True\<rparr>,
    \<lparr>mu_Action = ''discovery.policy'', mu_Check = validateDiscoveryPolicyParams, mu_Apply = applyDiscoveryPolicyMutation,
      mu_AuditPrepare = True, mu_AuditCommit = False\<rparr>,
    \<lparr>mu_Action = ''discovery.accept'', mu_Check = validateDiscoveryAcceptParams, mu_Apply = applyDiscoveryAcceptMutation,
      mu_AuditPrepare = False, mu_AuditCommit = False\<rparr>]"
  by (simp add: mutations_def mutation_defs)

text \<open>The switch over the methods as a search in the list of the mutations.\<close>

lemma handle_mutating_find: "handle_mutating env rq s =
   (if rq_Method rq = ''config.reload'' then Some (handleConfigReload env rq s)
    else (case find (\<lambda>mu. rq_Method rq = mu_Action mu @ ''.prepare'') mutations of
        Some mu \<Rightarrow> Some (handlePrepare env mu rq s)
      | None \<Rightarrow> map_option (\<lambda>mu. handleCommit env mu rq s) (find (\<lambda>mu. rq_Method rq = mu_Action mu @ ''.commit'') mutations)))"
  unfolding handle_mutating_def handler_defs Let_def mutations_def by simp

lemma audit_same [simp]: "ct_Disk (record_audit a b c r s) = ct_Disk s" "ct_Current (record_audit a b c r s) = ct_Current s"
  "ct_Pending (record_audit a b c r s) = ct_Pending s"
  by (simp_all add: record_audit_def)

lemma take_same: "ct_Disk (snd (take_pending rq t r a s)) = ct_Disk s \<and> ct_Current (snd (take_pending rq t r a s)) = ct_Current s"
  by (simp add: take_pending_def split: option.split)

lemma put_same: "ct_Disk (snd (put_pending rq a r p s)) = ct_Disk s \<and> ct_Current (snd (put_pending rq a r p s)) = ct_Current s"
  by (simp add: put_pending_def Let_def split: option.split)

lemma prepare_same: "ct_Disk (snd (handlePrepare env mu rq s)) = ct_Disk s \<and> ct_Current (snd (handlePrepare env mu rq s)) = ct_Current s"
  using put_same [of rq "mu_Action mu" "activeRevision env s" "rq_Params rq" s]
  by (cases "put_pending rq (mu_Action mu) (activeRevision env s) (rq_Params rq) s")
     (simp add: handlePrepare_def Let_def split: option.split)

text \<open>A commit leaves the files and the configuration in use as they were, or as the mutation left them.\<close>

lemma commit_effect:
  obtains "ct_Disk (snd (handleCommit env mu rq s)) = ct_Disk s" "ct_Current (snd (handleCommit env mu rq s)) = ct_Current s"
  | s1 ps t item where "ct_Disk s1 = ct_Disk s" "ct_Current s1 = ct_Current s"
      "map_of (ct_Pending s) t = Some item" "ps = pm_Payload item"
      "ct_Disk (snd (handleCommit env mu rq s)) = ct_Disk (snd (mu_Apply mu env rq ps s1))"
      "ct_Current (snd (handleCommit env mu rq s)) = ct_Current (snd (mu_Apply mu env rq ps s1))"
proof -
  let ?t = "text_param (rq_Params rq) ''confirm_token''" and ?r = "text_param (rq_Params rq) ''revision''"
  obtain res s1 where tk: "take_pending rq ?t ?r (mu_Action mu) s = (res, s1)" by fastforce
  have same: "ct_Disk s1 = ct_Disk s" "ct_Current s1 = ct_Current s"
    using take_same [of rq ?t ?r "mu_Action mu" s] unfolding tk by simp_all
  show ?thesis
  proof (cases "?t = [] \<or> ?r = [] \<or> ?r \<noteq> activeRevision env s")
    case True
    then show ?thesis by (intro that(1)) (auto simp: handleCommit_def Let_def)
  next
    case False
    show ?thesis
    proof (cases res)
      case (Inl e)
      then show ?thesis using False same tk by (intro that(1)) (simp_all add: handleCommit_def Let_def)
    next
      case (Inr item)
      have item: "map_of (ct_Pending s) ?t = Some item"
        using tk Inr by (auto simp: take_pending_def split: option.splits if_splits)
      obtain e s2 where ap: "mu_Apply mu env rq (pm_Payload item) s1 = (e, s2)" by fastforce
      have "ct_Disk (snd (handleCommit env mu rq s)) = ct_Disk s2 \<and> ct_Current (snd (handleCommit env mu rq s)) = ct_Current s2"
        using False tk ap Inr by (cases e) (auto simp: handleCommit_def Let_def)
      then show ?thesis using that(2) [OF same item refl] by (simp add: ap)
    qed
  qed
qed

lemma commit_wf:
  assumes "\<And>ps s. P ps \<Longrightarrow> wf_control env s \<Longrightarrow> wf_control env (snd (mu_Apply mu env rq ps s))" "wf_control env s"
    and "\<And>t item. map_of (ct_Pending s) t = Some item \<Longrightarrow> P (pm_Payload item)"
  shows "wf_control env (snd (handleCommit env mu rq s))"
proof (cases rule: commit_effect [of env mu rq s])
  case 1
  then show ?thesis using assms(2) wf_control_cong [of "snd (handleCommit env mu rq s)" s env] by simp
next
  case (2 s1 ps t item)
  then have "wf_control env (snd (mu_Apply mu env rq ps s1))" using assms wf_control_cong [of s1 s env] by simp
  then show ?thesis using wf_control_cong [OF 2(5,6), of env] by simp
qed

lemma reload_wf:
  assumes wf: "wf_control env s"
  shows "wf_control env (snd (handleConfigReload env rq s))"
proof (cases "Reload (ce_Load env) (ct_Disk s) (ct_Current s)")
  case (Inl e)
  then show ?thesis
    using wf wf_control_cong [of "snd (handleConfigReload env rq s)" s env] by (simp add: handleConfigReload_def)
next
  case (Inr c)
  then have "Load (ce_Load env) (ct_Disk s) = Inr c" by (auto simp: Reload_def split: sum.splits option.splits)
  then have load: "load_doc (ce_Load env) (raw_of s) (document s) = Inr c"
    by (simp add: Load_def load_doc_def wf_loads(2) [OF wf])
  let ?s = "snd (handleConfigReload env rq s)"
  have s': "ct_Disk ?s = ct_Disk s" "ct_Current ?s = c" using Inr by (simp_all add: handleConfigReload_def Let_def)
  have "managed_path ?s = managed_path s"
    using load_doc_settings(1) [OF load] wf_loads(1) [OF wf] by (simp add: managed_path_def s' ManagedInventoryPath_def)
  then have "document ?s = document s" by (simp add: document_def s')
  then show ?thesis using load unfolding wf_control_def s' by auto
qed

text \<open>The requests that change nothing but the managed devices and settings outside the discovery policy.\<close>

definition spares_policy :: "request \<Rightarrow> bool" where
  "spares_policy rq \<longleftrightarrow> rq_Method rq \<noteq> ''discovery.policy.commit''"

lemma handled:
  assumes "handle_mutating env rq s = Some (a, s')" "spares_policy rq"
  obtains "(a, s') = handleConfigReload env rq s"
  | mu where "mu \<in> set mutations" "(a, s') = handlePrepare env mu rq s"
  | mu where "mu_Apply mu \<in> {applyThresholdMutation, applyDependencyMutation, applyAlertingMutation, applyDiscoveryAcceptMutation}"
      "(a, s') = handleCommit env mu rq s"
proof (cases "rq_Method rq = ''config.reload''")
  case True
  then show ?thesis using assms(1) by (intro that(1)) (simp add: handle_mutating_find)
next
  case reload: False
  show ?thesis
  proof (cases "find (\<lambda>mu. rq_Method rq = mu_Action mu @ ''.prepare'') mutations")
    case (Some mu)
    then have "mu \<in> set mutations" by (auto simp: find_Some_iff)
    moreover have "(a, s') = handlePrepare env mu rq s" using assms(1) reload Some by (simp add: handle_mutating_find)
    ultimately show ?thesis by (rule that(2))
  next
    case None
    then obtain mu where mu: "find (\<lambda>mu. rq_Method rq = mu_Action mu @ ''.commit'') mutations = Some mu"
        "(a, s') = handleCommit env mu rq s"
      using assms(1) reload by (auto simp: handle_mutating_find)
    then have "mu \<in> set mutations" "rq_Method rq = mu_Action mu @ ''.commit''" by (auto simp: find_Some_iff)
    then have "mu_Apply mu \<in> {applyThresholdMutation, applyDependencyMutation, applyAlertingMutation, applyDiscoveryAcceptMutation}"
      using assms(2) by (auto simp: mutations_unfold spares_policy_def)
    then show ?thesis using mu(2) by (rule that(3))
  qed
qed

lemma handle_wf:
  assumes "wf_control env s" "yaml_keeps (ce_Load env)" "addresses_agree env"
    and "handle_mutating env rq s = Some (a, s')" "spares_policy rq"
    and zones: "\<And>t item. map_of (ct_Pending s) t = Some item \<Longrightarrow> unzoned env (pm_Payload item)"
  shows "wf_control env s'"
  using assms(4,5)
proof (cases rule: handled)
  case 1
  then show ?thesis using reload_wf [OF assms(1), of rq] by (metis snd_conv)
next
  case (2 mu)
  then have "s' = snd (handlePrepare env mu rq s)" by (metis snd_conv)
  then show ?thesis using assms(1) prepare_same [of env mu rq s] wf_control_cong [of s' s env] by simp
next
  case (3 mu)
  have "wf_control env (snd (mu_Apply mu env rq ps s))" if "unzoned env ps" "wf_control env s" for ps s
    using 3(1) threshold_wf [OF that(2) assms(2)] dependency_wf [OF that(2) assms(2)] alerting_wf [OF that(2) assms(2)]
      accept_wf [OF that(2) assms(2,3) that(1)] by auto
  then have "wf_control env (snd (handleCommit env mu rq s))"
    using assms(1) by (rule commit_wf [where P = "unzoned env"]) (simp_all add: zones)
  then show ?thesis using 3(2) by (metis snd_conv)
qed

text \<open>A property of the state that every request keeps holds after all of them.\<close>

lemma serve_invariant:
  assumes "I s" "\<And>rq s a s'. rq \<in> set rqs \<Longrightarrow> I s \<Longrightarrow> handle_mutating env rq s = Some (a, s') \<Longrightarrow> I s'"
  shows "I (snd (serve env rqs s))"
  using assms
proof (induction rqs arbitrary: s)
  case (Cons rq rqs)
  show ?case
  proof (cases "handle_mutating env rq s")
    case None
    have "I (snd (serve env rqs s))" by (rule Cons.IH [OF Cons.prems(1)]) (rule Cons.prems(2), simp_all)
    then show ?thesis using None by simp
  next
    case (Some r)
    then obtain a s' where r: "handle_mutating env rq s = Some (a, s')" by (cases r) simp
    have "I (snd (serve env rqs s'))"
      by (rule Cons.IH [OF Cons.prems(2) [OF _ Cons.prems(1) r]]) (simp, rule Cons.prems(2), simp_all)
    then show ?thesis using r by (cases "serve env rqs s'") simp
  qed
qed simp


lemma load_wf:
  assumes "Load (ce_Load env) (ct_Disk s) = Inr (ct_Current s)"
  shows "wf_control env s"
proof -
  let ?m = "ReadManagedDocument (c_ManagedPath (raw_of s)) (ct_Disk s)"
  have c: "load_doc (ce_Load env) (raw_of s) ?m = Inr (ct_Current s)" using assms by (simp add: Load_def load_doc_def)
  then have "document s = ?m"
    using load_doc_settings(1) [OF c] by (simp add: document_def managed_path_def ManagedInventoryPath_def ReadManagedDocument_def)
  with c show ?thesis unfolding wf_control_def by auto
qed

section \<open>Samples\<close>

definition sample_stored :: "managed_inventory \<Rightarrow> managed_inventory" where
  "sample_stored m = m\<lparr>mi_Devices := map (\<lambda>d. d\<lparr>dc_UpstreamDeviceIDs := Some (ups d)\<rparr>) (mi_Devices m)\<rparr>"

definition control_load_env :: load_env where
  "control_load_env = \<lparr>le_Parsers = load_parsers\<lparr>ps_cidrOK := (\<lambda>c. c = ''10.0.0.0/8'')\<rparr>, le_Broker = [], le_Password = [],
     le_Stored = sample_stored\<rparr>"

definition control_sample_env :: control_env where
  "control_sample_env = \<lparr>ce_Load = control_load_env, ce_Addr = (\<lambda>_. None),
     ce_Machine = \<lparr>mc_Order = (\<lambda>_ ks. ks), mc_Int64 = (\<lambda>_. 0), mc_Fused = False\<rparr>, ce_Uint16 = (\<lambda>_. 0),
     ce_Sprint = (\<lambda>_. []), ce_Revision = (\<lambda>_. ''r'')\<rparr>"

text \<open>A collector that has just started on a disk.\<close>

definition started :: "control_env \<Rightarrow> disk \<Rightarrow> control" where
  "started env dk = \<lparr>ct_Disk = dk, ct_Current = (case Load (ce_Load env) dk of Inr c \<Rightarrow> c | Inl _ \<Rightarrow> dk_Raw dk), ct_Pending = [],
     ct_Status = \<lparr>sc_Devices = [], sc_Reload = None, sc_Revision = []\<rparr>, ct_Audit = []\<rparr>"

definition control_sample :: "string list \<Rightarrow> control" where
  "control_sample us = started control_sample_env
     \<lparr>dk_Raw = (load_raw [load_device ''b'' [], load_device ''a'' us])\<lparr>c_ManagedPath := ''m''\<rparr>, dk_Managed = empty_managed\<rparr>"

definition control_request :: "string \<Rightarrow> params \<Rightarrow> request" where
  "control_request m ps = \<lparr>rq_Method = m, rq_Params = ps, rq_Now = 0, rq_Token = Some ''t'', rq_Fault = NoFault\<rparr>"

definition confirm :: params where
  "confirm = [(''confirm_token'', AnyStr ''t''), (''revision'', AnyStr ''r'')]"

definition threshold_params :: params where
  "threshold_params = [(''device_id'', AnyStr ''a''), (''temperature_warning_c'', AnyFloat (Fin 50))]"

definition upstream_params :: "string \<Rightarrow> string \<Rightarrow> params" where
  "upstream_params i u = [(''device_id'', AnyStr i), (''upstream_device_ids'', AnyArr [AnyStr u])]"

lemma sample_yaml: "yaml_keeps (ce_Load control_sample_env)"
  by (simp add: yaml_keeps_def control_sample_env_def control_load_env_def sample_stored_def)

lemma sample_agrees: "addresses_agree control_sample_env"
  by (simp add: addresses_agree_def control_sample_env_def control_load_env_def load_parsers_def)

lemma started_loads:
  assumes "case Load (ce_Load env) (ct_Disk (started env dk)) of Inl _ \<Rightarrow> False | Inr _ \<Rightarrow> True"
  shows "Load (ce_Load env) (ct_Disk (started env dk)) = Inr (ct_Current (started env dk))"
  using assms by (auto simp: started_def split: sum.splits)

lemma sample_loads:
  assumes "us \<in> {[], [''b'']}"
  shows "Load (ce_Load control_sample_env) (ct_Disk (control_sample us)) = Inr (ct_Current (control_sample us))"
proof -
  have "case Load (ce_Load control_sample_env) (ct_Disk (control_sample [])) of Inl _ \<Rightarrow> False | Inr _ \<Rightarrow> True" by code_simp
  moreover have "case Load (ce_Load control_sample_env) (ct_Disk (control_sample [''b''])) of Inl _ \<Rightarrow> False | Inr _ \<Rightarrow> True" by code_simp
  ultimately show ?thesis using assms unfolding control_sample_def by (auto intro!: started_loads)
qed

section \<open>A policy that cannot be loaded\<close>

definition bricked :: "control_env \<Rightarrow> control \<Rightarrow> bool" where
  "bricked env s \<longleftrightarrow> managed_path s = ManagedInventoryPath (raw_of s) \<and> trim_space (c_ManagedPath (raw_of s)) \<noteq> []
     \<and> validateManagedDiscoveryPolicy (le_Parsers (ce_Load env)) (mi_Discovery (dk_Managed (ct_Disk s))) \<noteq> None"

lemma bricked_cong: "ct_Disk s' = ct_Disk s \<Longrightarrow> ct_Current s' = ct_Current s \<Longrightarrow> bricked env s' = bricked env s"
  by (simp add: bricked_def managed_path_def)

lemma bricked_fails:
  assumes "bricked env s"
  shows "Load (ce_Load env) (ct_Disk s) \<noteq> Inr c" "Reload (ce_Load env) (ct_Disk s) (ct_Current s) \<noteq> Inr c"
proof -
  have no: "Load (ce_Load env) (ct_Disk s) \<noteq> Inr c'" for c'
  proof
    let ?m = "dk_Managed (ct_Disk s)"
    assume "Load (ce_Load env) (ct_Disk s) = Inr c'"
    then have load: "load_doc (ce_Load env) (raw_of s) ?m = Inr c'"
      using assms by (simp add: Load_def load_doc_def bricked_def ReadManagedDocument_def)
    note e = load_doc_entries [OF load refl]
    show False using iffD1 [OF load_doc_iff [OF e(2,1) refl] load] assms by (simp add: bricked_def)
  qed
  show "Load (ce_Load env) (ct_Disk s) \<noteq> Inr c" by (rule no)
  show "Reload (ce_Load env) (ct_Disk s) (ct_Current s) \<noteq> Inr c"
    using no by (auto simp: Reload_def split: sum.splits option.splits)
qed

lemma bricked_write:
  assumes "bricked env s" "yaml_keeps (ce_Load env)" "mi_Discovery m = mi_Discovery (document s)"
  shows "bricked env (s\<lparr>ct_Disk := snd (WriteManagedDocument (ce_Load env) fault (managed_path s) m (ct_Disk s))\<rparr>)"
proof -
  let ?dk = "snd (WriteManagedDocument (ce_Load env) fault (managed_path s) m (ct_Disk s))"
  have "trim_space (managed_path s) \<noteq> []" using assms(1) by (auto simp: bricked_def ManagedInventoryPath_def split: if_splits)
  then have doc: "document s = dk_Managed (ct_Disk s)" by (simp add: document_def ReadManagedDocument_def)
  show ?thesis
  proof (cases "?dk = ct_Disk s")
    case True
    then show ?thesis using assms(1) bricked_cong [of "s\<lparr>ct_Disk := ?dk\<rparr>" s env] by simp
  next
    case False
    note dk = write_disk(2) [OF assms(2) refl False]
    show ?thesis using assms(1,3) unfolding bricked_def dk by (simp add: managed_path_def stored_def doc)
  qed
qed

lemma bricked_write_document:
  assumes "bricked env s" "yaml_keeps (ce_Load env)" "mi_Discovery m = mi_Discovery (document s)"
  shows "bricked env (snd (write_document env rq m s))"
  unfolding snd_write by (rule bricked_write [OF assms])

lemma bricked_apply:
  assumes b: "bricked env s" and yaml: "yaml_keeps (ce_Load env)"
    and f: "f \<in> {applyThresholdMutation, applyDependencyMutation, applyAlertingMutation, applyDiscoveryAcceptMutation}"
  shows "bricked env (snd (f env rq ps s))"
proof -
  note w = bricked_write_document [OF b yaml]
  have "bricked env (snd (applyThresholdMutation env rq ps s))"
    using b by (auto simp: applyThresholdMutation_def Let_def set_entry_def split: option.split intro!: w)
  moreover have "bricked env (snd (applyDependencyMutation env rq ps s))"
    using b by (auto simp: applyDependencyMutation_def writeDependencies_def set_entry_def split: option.split intro!: w)
  moreover have "bricked env (snd (applyAlertingMutation env rq ps s))"
    using b by (auto simp: applyAlertingMutation_def Let_def set_entry_def split: option.split intro!: w)
  moreover have "bricked env (snd (applyDiscoveryAcceptMutation env rq ps s))"
  proof (cases "managed_path s = [] \<or> parseReviewedCandidates env (param ps ''reviews'') = None")
    case True
    then show ?thesis using b by (auto simp: applyDiscoveryAcceptMutation_def)
  next
    case False
    then obtain reviews where r: "parseReviewedCandidates env (param ps ''reviews'') = Some reviews" by blast
    obtain e dk where res: "AcceptReviewed (ce_Addr env) (ce_Load env) (rq_Fault rq) (managed_path s) (mi_Devices (document s))
        (c_Devices (ct_Current s)) reviews (ct_Disk s) = (e, dk)" by fastforce
    then have "dk = ct_Disk s \<or> (\<exists>ds. dk = snd (WriteManagedInventory (ce_Load env) (rq_Fault rq) (managed_path s) ds (ct_Disk s)))"
      by (auto simp: AcceptReviewed_def Let_def split: sum.splits option.splits if_splits) (metis snd_conv)
    moreover have "bricked env (s\<lparr>ct_Disk := snd (WriteManagedInventory (ce_Load env) (rq_Fault rq) (managed_path s) ds (ct_Disk s))\<rparr>)" for ds
      unfolding WriteManagedInventory_def by (rule bricked_write [OF b yaml]) (simp add: document_def)
    ultimately have "bricked env (s\<lparr>ct_Disk := dk\<rparr>)" using b bricked_cong [of "s\<lparr>ct_Disk := dk\<rparr>" s env] by auto
    then show ?thesis using False r by (simp add: applyDiscoveryAcceptMutation_def res)
  qed
  ultimately show ?thesis using f by blast
qed

lemma bricked_handle:
  assumes b: "bricked env s" and yaml: "yaml_keeps (ce_Load env)"
    and "handle_mutating env rq s = Some (a, s')" "spares_policy rq"
  shows "bricked env s'"
  using assms(3,4)
proof (cases rule: handled)
  case 1
  have "Reload (ce_Load env) (ct_Disk s) (ct_Current s) \<noteq> Inr c" for c by (rule bricked_fails(2) [OF b])
  then obtain e where "Reload (ce_Load env) (ct_Disk s) (ct_Current s) = Inl e"
    by (cases "Reload (ce_Load env) (ct_Disk s) (ct_Current s)") auto
  then have "ct_Disk s' = ct_Disk s" "ct_Current s' = ct_Current s" using 1 by (simp_all add: handleConfigReload_def)
  then show ?thesis using b bricked_cong by blast
next
  case (2 mu)
  then have "s' = snd (handlePrepare env mu rq s)" by (metis snd_conv)
  then show ?thesis using b prepare_same [of env mu rq s] bricked_cong [of s' s env] by simp
next
  case (3 mu)
  have s': "s' = snd (handleCommit env mu rq s)" using 3(2) by (metis snd_conv)
  show ?thesis
  proof (cases rule: commit_effect [of env mu rq s])
    case 1
    then show ?thesis using b bricked_cong [of s' s env] s' by simp
  next
    case (2 s1 ps t item)
    then have "bricked env (snd (mu_Apply mu env rq ps s1))"
      using b bricked_cong [of s1 s env] by (intro bricked_apply yaml 3(1)) simp
    then show ?thesis using bricked_cong [OF 2(5,6), of env] s' by simp
  qed
qed


lemma write_document_None:
  assumes "write_document env rq m s = (None, s')" "yaml_keeps (ce_Load env)"
  shows "s' = s\<lparr>ct_Disk := (ct_Disk s)\<lparr>dk_Managed := stored m\<rparr>\<rparr>" "validate_written (le_Parsers (ce_Load env)) (normalized m) = None"
    and "trim_space (managed_path s) \<noteq> []"
proof -
  obtain e dk where w: "WriteManagedDocument (ce_Load env) (rq_Fault rq) (managed_path s) m (ct_Disk s) = (e, dk)" by fastforce
  then have none: "e = None" and s': "s' = s\<lparr>ct_Disk := dk\<rparr>" using assms(1) by (simp_all add: write_document_def)
  show blank: "trim_space (managed_path s) \<noteq> []" using w none by (auto simp: WriteManagedDocument_def)
  show v: "validate_written (le_Parsers (ce_Load env)) (normalized m) = None"
    using w none blank by (cases "validate_written (le_Parsers (ce_Load env)) (normalized m)") (simp_all add: WriteManagedDocument_def)
  have "dk = (ct_Disk s)\<lparr>dk_Managed := stored m\<rparr>"
    using w none blank v by (cases "rq_Fault rq") (simp_all add: WriteManagedDocument_def stored_normalized [OF assms(2)])
  then show "s' = s\<lparr>ct_Disk := (ct_Disk s)\<lparr>dk_Managed := stored m\<rparr>\<rparr>" using s' by simp
qed

lemma commit_None:
  assumes "handleCommit env mu rq s = (Committed revision, s')"
  obtains item s1 s2 where "map_of (ct_Pending s) (text_param (rq_Params rq) ''confirm_token'') = Some item"
    "s1 = s\<lparr>ct_Pending := AList.delete (text_param (rq_Params rq) ''confirm_token'') (ct_Pending s)\<rparr>"
    "pm_Action item = mu_Action mu" "pm_Revision item = activeRevision env s" "rq_Now rq \<le> pm_ExpiresAt item"
    "mu_Apply mu env rq (pm_Payload item) s1 = (None, s2)" "revision = activeRevision env s"
    "ct_Disk s' = ct_Disk s2" "ct_Current s' = ct_Current s2" "ct_Pending s' = ct_Pending s2"
proof -
  let ?t = "text_param (rq_Params rq) ''confirm_token''" and ?r = "text_param (rq_Params rq) ''revision''"
  have ok: "?r = activeRevision env s" using assms by (auto simp: handleCommit_def Let_def split: if_splits)
  obtain res s1 where tk: "take_pending rq ?t ?r (mu_Action mu) s = (res, s1)" by fastforce
  obtain item where item: "res = Inr item"
    using assms tk ok by (cases res) (auto simp: handleCommit_def Let_def split: if_splits)
  obtain e s2 where ap: "mu_Apply mu env rq (pm_Payload item) s1 = (e, s2)" by fastforce
  have e: "e = None" and s': "revision = ?r" "ct_Disk s' = ct_Disk s2" "ct_Current s' = ct_Current s2" "ct_Pending s' = ct_Pending s2"
    using assms tk ok item ap by (cases e; auto simp: handleCommit_def Let_def split: if_splits)+
  show ?thesis
    using tk ok ap s' unfolding item e take_pending_def
    by (intro that [of item s1 s2]) (auto split: option.splits if_splits)
qed

lemma policy_commit:
  assumes "rq_Method rq = ''discovery.policy.commit''" "handle_mutating env rq s = Some (a, s')"
  obtains mu where "mu_Action mu = ''discovery.policy''" "mu_Apply mu = applyDiscoveryPolicyMutation" "handleCommit env mu rq s = (a, s')"
proof -
  have "handleCommit env (mutations ! 3) rq s = (a, s')" using assms by (simp add: handle_mutating_find mutations_unfold)
  then show ?thesis by (intro that [of "mutations ! 3"]) (simp_all add: mutations_unfold)
qed

lemma policy_written:
  assumes "applyDiscoveryPolicyMutation env rq ps s = (None, s')" "asStringSlice (param ps ''allowed_cidrs'') = Some cidrs"
  shows "\<exists>m. write_document env rq m s = (None, s') \<and> md_AllowedCIDRs (mi_Discovery m) = cidrs"
proof -
  obtain rate burst targets where
      p: "policy_float ps ''max_probes_per_second'' = Some rate" "policy_float ps ''probe_burst'' = Some burst"
        "policy_float ps ''max_targets'' = Some targets" "managed_path s \<noteq> []"
    using assms unfolding applyDiscoveryPolicyMutation_def by (auto split: if_splits option.splits)
  let ?d = "mi_Discovery (document s)" and ?name = "trim_space (text_param ps ''community_env'')"
  let ?int_of = "to_int64 (ce_Machine env)"
  let ?p = "?d\<lparr>md_AllowedCIDRs := cidrs, md_CommunityEnv := (if ?name \<noteq> [] then ?name else md_CommunityEnv ?d),
    md_MaxProbesPerSecond := (if rate \<noteq> None then rate else md_MaxProbesPerSecond ?d),
    md_ProbeBurst := (if burst \<noteq> None then map_option ?int_of burst else md_ProbeBurst ?d),
    md_MaxTargets := (if targets \<noteq> None then map_option ?int_of targets else md_MaxTargets ?d)\<rparr>"
  have "write_document env rq ((document s)\<lparr>mi_Discovery := ?p\<rparr>) s = (None, s')"
    using assms p unfolding applyDiscoveryPolicyMutation_def Let_def by (simp del: not_None_eq)
  then show ?thesis by (intro exI [of _ "(document s)\<lparr>mi_Discovery := ?p\<rparr>"]) simp
qed

text \<open>C5: a committed discovery policy with a network that does not parse is stored unchecked; from then
  on no restart and no reload succeeds, whatever other requests follow.\<close>

theorem policy_bricks:
  assumes "Load (ce_Load env) (ct_Disk s) = Inr (ct_Current s)" "yaml_keeps (ce_Load env)"
    and "rq_Method rq = ''discovery.policy.commit''" "handle_mutating env rq s = Some (Committed revision, s1)"
    and "map_of (ct_Pending s) (text_param (rq_Params rq) ''confirm_token'') = Some item"
    and "asStringSlice (param (pm_Payload item) ''allowed_cidrs'') = Some cidrs"
    and "cidr \<in> set cidrs" "\<not> ps_cidrOK (le_Parsers (ce_Load env)) (trim_space cidr)"
    and "\<forall>rq \<in> set rqs. spares_policy rq"
  shows "Load (ce_Load env) (ct_Disk (snd (serve env rqs s1))) \<noteq> Inr c
    \<and> Reload (ce_Load env) (ct_Disk (snd (serve env rqs s1))) (ct_Current (snd (serve env rqs s1))) \<noteq> Inr c"
proof -
  have wf: "wf_control env s" by (rule load_wf [OF assms(1)])
  obtain mu where mu: "mu_Apply mu = applyDiscoveryPolicyMutation" "handleCommit env mu rq s = (Committed revision, s1)"
    using policy_commit [OF assms(3,4)] by blast
  obtain sa s2 where c: "sa = s\<lparr>ct_Pending := AList.delete (text_param (rq_Params rq) ''confirm_token'') (ct_Pending s)\<rparr>"
      "applyDiscoveryPolicyMutation env rq (pm_Payload item) sa = (None, s2)" "ct_Disk s1 = ct_Disk s2" "ct_Current s1 = ct_Current s2"
    using commit_None [OF mu(2)] mu(1) assms(5) by (metis option.inject)
  obtain m where m: "write_document env rq m sa = (None, s2)" "md_AllowedCIDRs (mi_Discovery m) = cidrs"
    using policy_written [OF c(2) assms(6)] by blast
  note w = write_document_None [OF m(1) assms(2)]
  have "\<not> list_all (\<lambda>c. ps_cidrOK (le_Parsers (ce_Load env)) (trim_space c)) cidrs"
    using assms(7,8) by (auto simp: list_all_iff)
  then have "validateManagedDiscoveryPolicy (le_Parsers (ce_Load env)) (mi_Discovery m) \<noteq> None"
    unfolding validateManagedDiscoveryPolicy_def first_err_Cons_None fail_if_None m(2) by simp
  moreover have "managed_path sa = managed_path s" by (simp add: c(1) managed_path_def)
  moreover have "ManagedInventoryPath (raw_of s) = (if trim_space (c_ManagedPath (raw_of s)) = [] then [] else c_ManagedPath (raw_of s))"
    by (simp add: ManagedInventoryPath_def)
  ultimately have "bricked env s2"
    using w(3) wf_loads(1) [OF wf] unfolding bricked_def w(1)
    by (auto simp: stored_def managed_path_def c(1) split: if_splits)
  then have b: "bricked env s1" using bricked_cong [OF c(3,4)] by simp
  have "bricked env (snd (serve env rqs s1))"
  proof (rule serve_invariant [where I = "bricked env", OF b])
    fix rq s a s' assume "rq \<in> set rqs" "bricked env s" "handle_mutating env rq s = Some (a, s')"
    then show "bricked env s'" using bricked_handle [OF _ assms(2)] assms(9) by blast
  qed
  then show ?thesis using bricked_fails by blast
qed

definition bad_policy :: params where
  "bad_policy = [(''allowed_cidrs'', AnyArr [AnyStr ''10.0.0.0''])]"

definition policy_prepared :: control where
  "policy_prepared = snd (serve control_sample_env [control_request ''discovery.policy.prepare'' bad_policy] (control_sample []))"

definition policy_request :: request where
  "policy_request = control_request ''discovery.policy.commit'' confirm"

lemma policy_committed:
  "\<exists>s1. handle_mutating control_sample_env policy_request policy_prepared = Some (Committed ''r'', s1)"
proof -
  have "case handle_mutating control_sample_env policy_request policy_prepared of
      Some (Committed r, s1) \<Rightarrow> r = ''r'' | _ \<Rightarrow> False" by code_simp
  then show ?thesis by (auto split: option.splits prod.splits answer.splits)
qed

lemma policy_prepared_same:
  "ct_Disk policy_prepared = ct_Disk (control_sample [])" "ct_Current policy_prepared = ct_Current (control_sample [])"
proof -
  let ?rq = "control_request ''discovery.policy.prepare'' bad_policy" and ?s = "control_sample []"
  have "handle_mutating control_sample_env ?rq ?s = Some (handlePrepare control_sample_env (mutations ! 3) ?rq ?s)"
    by (simp add: handle_mutating_find control_request_def mutations_unfold)
  then have p: "policy_prepared = snd (handlePrepare control_sample_env (mutations ! 3) ?rq ?s)"
    by (cases "handlePrepare control_sample_env (mutations ! 3) ?rq ?s") (simp add: policy_prepared_def)
  show "ct_Disk policy_prepared = ct_Disk (control_sample [])" "ct_Current policy_prepared = ct_Current (control_sample [])"
    unfolding p by (simp_all add: prepare_same)
qed

theorem policy_bricks_witness:
  "\<exists>s1. handle_mutating control_sample_env policy_request policy_prepared = Some (Committed ''r'', s1)
    \<and> (\<forall>c. Load (ce_Load control_sample_env) (ct_Disk (snd (serve control_sample_env
        [control_request ''config.reload'' []] s1))) \<noteq> Inr c)"
proof -
  obtain s1 where s1: "handle_mutating control_sample_env policy_request policy_prepared = Some (Committed ''r'', s1)"
    using policy_committed by blast
  let ?item = "\<lparr>pm_Token = ''t'', pm_Revision = ''r'', pm_Action = ''discovery.policy'', pm_ExpiresAt = 60000000000, pm_Payload = bad_policy\<rparr>"
  have load: "Load (ce_Load control_sample_env) (ct_Disk policy_prepared) = Inr (ct_Current policy_prepared)"
    unfolding policy_prepared_same by (rule sample_loads) simp
  have item: "map_of (ct_Pending policy_prepared) (text_param (rq_Params policy_request) ''confirm_token'') = Some ?item" by code_simp
  have is_commit: "rq_Method policy_request = ''discovery.policy.commit''" by (simp add: policy_request_def control_request_def)
  have slice: "asStringSlice (param (pm_Payload ?item) ''allowed_cidrs'') = Some [''10.0.0.0'']" by code_simp
  have bad: "\<not> ps_cidrOK (le_Parsers (ce_Load control_sample_env)) (trim_space ''10.0.0.0'')" by code_simp
  have spares: "\<forall>rq \<in> set [control_request ''config.reload'' []]. spares_policy rq" by (simp add: control_request_def spares_policy_def)
  have "Load (ce_Load control_sample_env) (ct_Disk (snd (serve control_sample_env
        [control_request ''config.reload'' []] s1))) \<noteq> Inr c" for c
    using policy_bricks [OF load sample_yaml is_commit s1 item slice _ bad spares] by simp
  with s1 show ?thesis by blast
qed

section \<open>Dependencies that are lost and dependencies that clash\<close>

lemma loaded_ups:
  assumes load: "load_doc env raw (stored m) = Inr c" and e: "entry_of (mi_Devices m) i = Some e"
  shows "i \<in> dc_ID ` set (c_Devices c)" "\<And>d. d \<in> set (c_Devices c) \<Longrightarrow> dc_ID d = i \<Longrightarrow> ups d = ups e"
proof -
  have ds: "c_Devices c = merged_of raw (stored m)"
    using load_doc_inventory(3) [OF load refl] by (simp add: loaded_def applyManagedPolicy_def)
  have e': "entry_of (mi_Devices (stored m)) i = Some (stored_entry e)" by (simp add: stored_def entry_of_map e)
  have dist: "distinct (map dc_ID (mi_Devices (stored m)))" by (rule inventory_distinct [OF load_doc_inventory(1) [OF load refl]])
  have "i \<in> dc_ID ` set (mi_Devices (stored m))" using entry_of_Some [OF e'] by blast
  then show "i \<in> dc_ID ` set (c_Devices c)" using merged_known [of raw "stored m"] by (simp add: ds known_IDs_def)
  fix d assume d: "d \<in> set (c_Devices c)" "dc_ID d = i"
  show "ups d = ups e"
  proof (cases "d \<in> overlaid (mi_Devices (stored m)) ` set (statics_of raw)")
    case True
    then obtain s where s: "d = overlaid (mi_Devices (stored m)) s" by blast
    then have "dc_ID s = i" using d(2) by simp
    with s show ?thesis using e' by (simp add: overlaid_def overlay_ups)
  next
    case False
    then obtain e2 where e2: "e2 \<in> set (mi_Devices (stored m))" "d = applyDeviceDefault e2"
      using d(1) by (auto simp: ds merged_of_def appends_of_def)
    then have "entry_of (mi_Devices (stored m)) i = Some e2" using entry_of_distinct [OF dist e2(1)] d(2) by simp
    then have "e2 = stored_entry e" using e' by simp
    then show ?thesis using e2(2) by simp
  qed
qed

lemma loaded_device:
  assumes "load_doc env raw (stored m) = Inr c" "entry_of (mi_Devices m) i = Some e"
  shows "\<exists>d \<in> set (c_Devices c). dc_ID d = i \<and> ups d = ups e"
proof -
  obtain d where "d \<in> set (c_Devices c)" "i = dc_ID d" using loaded_ups(1) [OF assms] by (rule imageE)
  then show ?thesis using loaded_ups(2) [OF assms, of d] by (intro bexI [of _ d]) simp_all
qed

lemma load_cycle_free:
  assumes "load_doc env raw m = Inr c"
  shows "\<And>d. d \<in> set (c_Devices c) \<Longrightarrow> dc_ID d \<notin> set (ups d)"
    and "\<And>d d'. d \<in> set (c_Devices c) \<Longrightarrow> d' \<in> set (c_Devices c) \<Longrightarrow> dc_ID d' \<in> set (ups d) \<Longrightarrow> dc_ID d \<notin> set (ups d')"
proof -
  have v: "validate (le_Parsers env) c = None" using assms unfolding load_doc_def by (rule load_config_validate)
  note dev = validate_None(1,2) [OF v]
  have dist: "distinct (map dc_ID (c_Devices c))" using dev(1) by (simp add: validateDeviceSource_def validate_devices_iff)
  have ok: "references_ok (c_Devices c)" "acyclic (dep_graph (upstreams_of (device_index (c_Devices c))))"
    using dev(2) by (simp_all add: validateDependencies_None)
  show "\<And>d. d \<in> set (c_Devices c) \<Longrightarrow> dc_ID d \<notin> set (ups d)" using ok(1) by (auto simp: references_ok_def)
  have edge: "(dc_ID d, k) \<in> dep_graph (upstreams_of (device_index (c_Devices c)))" if "d \<in> set (c_Devices c)" "k \<in> set (ups d)" for d k
    using that device_index_distinct [OF dist] by (simp add: dep_graph_def upstreams_of_def)
  fix d d' assume d: "d \<in> set (c_Devices c)" "d' \<in> set (c_Devices c)" "dc_ID d' \<in> set (ups d)"
  show "dc_ID d \<notin> set (ups d')"
  proof
    assume "dc_ID d \<in> set (ups d')"
    then have "(dc_ID d, dc_ID d) \<in> (dep_graph (upstreams_of (device_index (c_Devices c))))\<^sup>+"
      using edge [OF d(1,3)] edge [OF d(2)] by (meson trancl.intros)
    then show False using ok(2) by (auto simp: acyclic_def)
  qed
qed

text \<open>C8: a threshold set for a static device that has no entry in the managed document yet is stored with
  an empty list of upstreams: the configuration loads, and the device has lost its dependencies.\<close>

theorem threshold_erases_dependencies:
  assumes "Load (ce_Load env) (ct_Disk s) = Inr (ct_Current s)" "yaml_keeps (ce_Load env)"
    and "i \<in> dc_ID ` set (c_Devices (raw_of s))" "i \<notin> dc_ID ` set (mi_Devices (document s))"
    and "text_param ps ''device_id'' = i" "i \<noteq> []" "applyThresholdMutation env rq ps s = (None, s')"
  shows "\<exists>c. Load (ce_Load env) (ct_Disk s') = Inr c \<and> i \<in> dc_ID ` set (c_Devices c)
    \<and> (\<forall>d \<in> set (c_Devices c). dc_ID d = i \<longrightarrow> ups d = [])"
proof -
  have wf: "wf_control env s" by (rule load_wf [OF assms(1)])
  have wf': "wf_control env s'" using threshold_wf [OF wf assms(2), of rq ps] by (simp add: assms(7))
  obtain v where w: "write_document env rq (set_entry i (\<lambda>d. d\<lparr>dc_TemperatureWarningC := Some v\<rparr>) (document s)) s = (None, s')"
    using assms(5-7) by (auto simp: applyThresholdMutation_def Let_def split: if_splits option.splits)
  let ?m = "set_entry i (\<lambda>d. d\<lparr>dc_TemperatureWarningC := Some v\<rparr>) (document s)"
  have s': "s' = s\<lparr>ct_Disk := (ct_Disk s)\<lparr>dk_Managed := stored ?m\<rparr>\<rparr>" "trim_space (managed_path s) \<noteq> []"
    using write_document_None [OF w assms(2)] by simp_all
  have "document s' = stored ?m" using s'(2) by (simp add: s'(1) document_def managed_path_def ReadManagedDocument_def)
  then obtain c where c: "load_doc (ce_Load env) (raw_of s') (stored ?m) = Inr c" using wf_document [OF wf'] by metis
  have "Load (ce_Load env) (ct_Disk s') = Inr c"
    using c wf_loads(2) [OF wf'] \<open>document s' = stored ?m\<close> by (simp add: Load_def load_doc_def)
  moreover have "entry_of (mi_Devices ?m) i = Some ((mk_device i)\<lparr>dc_TemperatureWarningC := Some v\<rparr>)"
    using assms(4) entry_of_None [of "mi_Devices (document s)" i] by (simp add: set_entry_lookup)
  then have "i \<in> dc_ID ` set (c_Devices c)" "\<forall>d \<in> set (c_Devices c). dc_ID d = i \<longrightarrow> ups d = []"
    using loaded_ups [OF c] by (simp_all add: ups_def mk_device_def)
  ultimately show ?thesis by blast
qed

theorem threshold_erases_dependencies_witness:
  "\<exists>s' c. applyThresholdMutation control_sample_env (control_request [] []) threshold_params (control_sample [''b'']) = (None, s')
    \<and> Load (ce_Load control_sample_env) (ct_Disk s') = Inr c \<and> (\<forall>d \<in> set (c_Devices c). dc_ID d = ''a'' \<longrightarrow> ups d = [])"
proof -
  have "fst (applyThresholdMutation control_sample_env (control_request [] []) threshold_params (control_sample [''b''])) = None"
    by code_simp
  then obtain s' where s': "applyThresholdMutation control_sample_env (control_request [] []) threshold_params (control_sample [''b'']) = (None, s')"
    by (metis prod.collapse)
  have "''a'' \<in> dc_ID ` set (c_Devices (raw_of (control_sample [''b''])))" by code_simp
  moreover have "''a'' \<notin> dc_ID ` set (mi_Devices (document (control_sample [''b''])))" by code_simp
  moreover have "text_param threshold_params ''device_id'' = ''a''" by code_simp
  ultimately show ?thesis
    using threshold_erases_dependencies [OF sample_loads sample_yaml _ _ _ _ s'] s' by fastforce
qed

text \<open>C6: the check of a dependency commit does not hold the lock of the mutations.  When the checks of two
  commits that make two devices depend on each other both run before the writes, the stored document has
  a cycle and does not load; served one after the other the second commit is refused.\<close>

theorem dependency_race:
  assumes "Load (ce_Load env) (ct_Disk s) = Inr (ct_Current s)" "yaml_keeps (ce_Load env)"
    and "asStringSlice (param ps1 ''upstream_device_ids'') = Some [text_param ps2 ''device_id'']"
    and "asStringSlice (param ps2 ''upstream_device_ids'') = Some [text_param ps1 ''device_id'']"
    and "validateDependencyTargets ps1 s = None" "validateDependencyTargets ps2 s = None"
    and "writeDependencies env rq1 ps1 s = (None, s1)" "writeDependencies env rq2 ps2 s1 = (None, s2)"
  shows "Load (ce_Load env) (ct_Disk s2) \<noteq> Inr c \<and> fst (applyDependencyMutation env rq2 ps2 s1) \<noteq> None"
proof -
  let ?i = "text_param ps1 ''device_id''" and ?j = "text_param ps2 ''device_id''"
  let ?f = "\<lambda>us d. d\<lparr>dc_UpstreamDeviceIDs := Some us\<rparr>"
  let ?m1 = "set_entry ?i (?f [?j]) (document s)" and ?m2 = "set_entry ?j (?f [?i]) (document s1)"
  have wf: "wf_control env s" by (rule load_wf [OF assms(1)])
  have wf1: "wf_control env s1"
    using dependency_wf [OF wf assms(2), of rq1 ps1] assms(5,7) by (simp add: applyDependencyMutation_def)
  have w1: "write_document env rq1 ?m1 s = (None, s1)" and w2: "write_document env rq2 ?m2 s1 = (None, s2)"
    using assms(3,4,7,8) by (simp_all add: writeDependencies_def)
  have s1: "s1 = s\<lparr>ct_Disk := (ct_Disk s)\<lparr>dk_Managed := stored ?m1\<rparr>\<rparr>" "trim_space (managed_path s) \<noteq> []"
    using write_document_None [OF w1 assms(2)] by simp_all
  have s2: "s2 = s1\<lparr>ct_Disk := (ct_Disk s1)\<lparr>dk_Managed := stored ?m2\<rparr>\<rparr>" "trim_space (managed_path s1) \<noteq> []"
    using write_document_None [OF w2 assms(2)] by simp_all
  have doc1: "document s1 = stored ?m1" using s1(2) by (simp add: s1(1) document_def managed_path_def ReadManagedDocument_def)
  have entry1: "\<exists>e. entry_of (mi_Devices (document s1)) ?i = Some e \<and> ups e = [?j]"
    unfolding doc1 by (simp add: stored_def entry_of_map set_entry_lookup) (simp add: ups_def)
  have no: "Load (ce_Load env) (ct_Disk s2) \<noteq> Inr c" for c
  proof
    assume "Load (ce_Load env) (ct_Disk s2) = Inr c"
    moreover have "ReadManagedDocument (c_ManagedPath (raw_of s2)) (ct_Disk s2) = stored ?m2"
      using wf_loads(1) [OF wf1] s2(2) by (simp add: s2(1) ReadManagedDocument_def ManagedInventoryPath_def split: if_splits)
    ultimately have load: "load_doc (ce_Load env) (raw_of s2) (stored ?m2) = Inr c" by (simp add: Load_def load_doc_def)
    have ne: "?i \<noteq> ?j"
    proof
      assume same: "?i = ?j"
      have "\<exists>e. entry_of (mi_Devices ?m2) ?j = Some e \<and> ups e = [?i]" by (simp add: set_entry_lookup) (simp add: ups_def)
      then obtain e where e: "entry_of (mi_Devices ?m2) ?j = Some e" "ups e = [?i]" by blast
      obtain d where d: "d \<in> set (c_Devices c)" "dc_ID d = ?j" "ups d = ups e" using loaded_device [OF load e(1)] by blast
      then have "dc_ID d \<in> set (ups d)" unfolding d(3) e(2) by (simp add: same)
      then show False using load_cycle_free(1) [OF load d(1)] by blast
    qed
    obtain e where e: "entry_of (mi_Devices ?m2) ?i = Some e" "ups e = [?j]" using entry1 ne by (auto simp: set_entry_lookup)
    have e2: "\<exists>e. entry_of (mi_Devices ?m2) ?j = Some e \<and> ups e = [?i]"
      by (simp add: set_entry_lookup) (simp add: ups_def)
    then obtain e2 where e2: "entry_of (mi_Devices ?m2) ?j = Some e2" "ups e2 = [?i]" by blast
    obtain d1 where d1: "d1 \<in> set (c_Devices c)" "dc_ID d1 = ?i" "ups d1 = [?j]" using loaded_device [OF load e(1)] e(2) by auto
    obtain d2 where d2: "d2 \<in> set (c_Devices c)" "dc_ID d2 = ?j" "ups d2 = [?i]" using loaded_device [OF load e2(1)] e2(2) by auto
    show False using load_cycle_free(2) [OF load d1(1) d2(1)] d1 d2 by simp
  qed
  moreover have "fst (applyDependencyMutation env rq2 ps2 s1) \<noteq> None"
  proof
    assume "fst (applyDependencyMutation env rq2 ps2 s1) = None"
    then have "validateDependencyTargets ps2 s1 = None" by (auto simp: applyDependencyMutation_def split: option.splits)
    then have "wf_control env s2"
      using dependency_wf [OF wf1 assms(2), of rq2 ps2] assms(8) by (simp add: applyDependencyMutation_def)
    then show False using wf_loads(4) no by blast
  qed
  ultimately show ?thesis by blast
qed

theorem dependency_race_witness:
  "\<exists>s1 s2. writeDependencies control_sample_env (control_request [] []) (upstream_params ''a'' ''b'') (control_sample []) = (None, s1)
    \<and> writeDependencies control_sample_env (control_request [] []) (upstream_params ''b'' ''a'') s1 = (None, s2)
    \<and> (\<forall>c. Load (ce_Load control_sample_env) (ct_Disk s2) \<noteq> Inr c)"
proof -
  let ?w = "writeDependencies control_sample_env (control_request [] [])" and ?a = "upstream_params ''a'' ''b''" and ?b = "upstream_params ''b'' ''a''"
  have "fst (?w ?a (control_sample [])) = None" by code_simp
  then obtain s1 where s1: "?w ?a (control_sample []) = (None, s1)" by (metis prod.collapse)
  have "fst (?w ?b (snd (?w ?a (control_sample [])))) = None" by code_simp
  then obtain s2 where s2: "?w ?b s1 = (None, s2)" using s1 by (metis prod.collapse snd_conv)
  have checks: "validateDependencyTargets ?a (control_sample []) = None" "validateDependencyTargets ?b (control_sample []) = None"
    by code_simp+
  have params: "asStringSlice (param ?a ''upstream_device_ids'') = Some [text_param ?b ''device_id'']"
      "asStringSlice (param ?b ''upstream_device_ids'') = Some [text_param ?a ''device_id'']" by code_simp+
  have "Load (ce_Load control_sample_env) (ct_Disk s2) \<noteq> Inr c" for c
    using dependency_race [OF sample_loads sample_yaml params checks s1 s2] by simp
  with s1 s2 show ?thesis by blast
qed

section \<open>Two phases\<close>

text \<open>The mutations change the disk only.\<close>

lemma write_pending: "ct_Pending (snd (write_document env rq m s)) = ct_Pending s"
  unfolding snd_write by simp

lemma apply_pending:
  assumes "mu \<in> set mutations"
  shows "ct_Pending (snd (mu_Apply mu env rq ps s)) = ct_Pending s"
proof -
  have "ct_Pending (snd (applyThresholdMutation env rq ps s)) = ct_Pending s"
    by (simp add: applyThresholdMutation_def Let_def write_pending split: option.split)
  moreover have "ct_Pending (snd (applyDependencyMutation env rq ps s)) = ct_Pending s"
    by (simp add: applyDependencyMutation_def writeDependencies_def write_pending split: option.split)
  moreover have "ct_Pending (snd (applyAlertingMutation env rq ps s)) = ct_Pending s"
    by (simp add: applyAlertingMutation_def Let_def write_pending split: option.split)
  moreover have "ct_Pending (snd (applyDiscoveryPolicyMutation env rq ps s)) = ct_Pending s"
    by (simp add: applyDiscoveryPolicyMutation_def Let_def write_pending split: option.split)
  moreover have "ct_Pending (snd (applyDiscoveryAcceptMutation env rq ps s)) = ct_Pending s"
    by (simp add: applyDiscoveryAcceptMutation_def split: option.split prod.split)
  ultimately show ?thesis using assms by (auto simp: mutations_unfold)
qed

lemma commit_pending:
  assumes "mu \<in> set mutations" "map_of (ct_Pending (snd (handleCommit env mu rq s))) t = Some item"
  shows "map_of (ct_Pending s) t = Some item"
proof -
  let ?t = "text_param (rq_Params rq) ''confirm_token''" and ?r = "text_param (rq_Params rq) ''revision''"
  obtain res s1 where tk: "take_pending rq ?t ?r (mu_Action mu) s = (res, s1)" by fastforce
  then have s1: "map_of (ct_Pending s1) t = Some item \<Longrightarrow> map_of (ct_Pending s) t = Some item"
    by (auto simp: take_pending_def delete_conv' split: option.splits if_splits)
  have "ct_Pending (snd (handleCommit env mu rq s)) \<in> {ct_Pending s, ct_Pending s1}"
  proof (cases res)
    case (Inl e)
    then show ?thesis using tk by (auto simp: handleCommit_def Let_def split: if_splits)
  next
    case (Inr i)
    obtain e s2 where ap: "mu_Apply mu env rq (pm_Payload i) s1 = (e, s2)" by fastforce
    then have "ct_Pending s2 = ct_Pending s1" using apply_pending [OF assms(1), of env rq "pm_Payload i" s1] by simp
    then show ?thesis using tk Inr ap by (cases e) (auto simp: handleCommit_def Let_def split: if_splits)
  qed
  then show ?thesis using assms(2) s1 by auto
qed

definition prepared :: "request set \<Rightarrow> string \<Rightarrow> pending_mutation \<Rightarrow> bool" where
  "prepared R t item \<longleftrightarrow> (\<exists>rq \<in> R. \<exists>mu \<in> set mutations. rq_Method rq = mu_Action mu @ ''.prepare'' \<and> rq_Token rq = Some t
     \<and> mu_Check mu (rq_Params rq) = None \<and> pm_Action item = mu_Action mu \<and> pm_Payload item = rq_Params rq
     \<and> pm_ExpiresAt item = rq_Now rq + ConfirmTTL)"

lemma handled_any:
  assumes "handle_mutating env rq s = Some (a, s')"
  obtains "(a, s') = handleConfigReload env rq s"
  | mu where "mu \<in> set mutations" "rq_Method rq = mu_Action mu @ ''.prepare''" "(a, s') = handlePrepare env mu rq s"
  | mu where "mu \<in> set mutations" "rq_Method rq = mu_Action mu @ ''.commit''" "(a, s') = handleCommit env mu rq s"
proof (cases "rq_Method rq = ''config.reload''")
  case True
  then show ?thesis using assms by (intro that(1)) (simp add: handle_mutating_find)
next
  case reload: False
  show ?thesis
  proof (cases "find (\<lambda>mu. rq_Method rq = mu_Action mu @ ''.prepare'') mutations")
    case (Some mu)
    then have "mu \<in> set mutations" "rq_Method rq = mu_Action mu @ ''.prepare''" by (auto simp: find_Some_iff)
    moreover have "(a, s') = handlePrepare env mu rq s" using assms reload Some by (simp add: handle_mutating_find)
    ultimately show ?thesis by (rule that(2))
  next
    case None
    then obtain mu where mu: "find (\<lambda>mu. rq_Method rq = mu_Action mu @ ''.commit'') mutations = Some mu"
        "(a, s') = handleCommit env mu rq s"
      using assms reload by (auto simp: handle_mutating_find)
    then have "mu \<in> set mutations" "rq_Method rq = mu_Action mu @ ''.commit''" by (auto simp: find_Some_iff)
    then show ?thesis using mu(2) by (rule that(3))
  qed
qed

text \<open>A host with a zone can break the configuration: the review keeps the case of a zone, the loader ignores it, so a
  device at \<open>fe80::1%eth0\<close> is accepted beside a static device at \<open>fe80::1%ETH0\<close> and then is a duplicate.\<close>

definition zoned_env :: control_env where
  "zoned_env = control_sample_env\<lparr>ce_Addr := (\<lambda>h. if zoned h then Some h else None)\<rparr>"

definition zoned_sample :: control where
  "zoned_sample = started zoned_env
     \<lparr>dk_Raw = (load_raw [(load_device ''a'' [])\<lparr>dc_Host := ''fe80::1%ETH0''\<rparr>])\<lparr>c_ManagedPath := ''m''\<rparr>, dk_Managed = empty_managed\<rparr>"

definition zoned_params :: params where
  "zoned_params = [(''reviews'', AnyArr [AnyObj
     [(''candidate'', AnyObj [(''ip'', AnyStr ''fe80::1%eth0''), (''result'', AnyStr ProbeSucceeded), (''detected_profile'', AnyStr ''core'')]),
      (''device'', AnyObj [(''id'', AnyStr ''b''), (''host'', AnyStr ''fe80::1%eth0''), (''community_env'', AnyStr ''COMMUNITY''),
         (''version'', AnyStr ''2c'')])]])]"

lemma zoned_host_bricks:
  "\<exists>s'. applyDiscoveryAcceptMutation zoned_env (control_request [] []) zoned_params zoned_sample = (None, s')
    \<and> (\<forall>c. Load (ce_Load zoned_env) (ct_Disk s') \<noteq> Inr c) \<and> addresses_agree zoned_env"
proof -
  have "case applyDiscoveryAcceptMutation zoned_env (control_request [] []) zoned_params zoned_sample of
      (Some _, _) \<Rightarrow> False | (None, s') \<Rightarrow> (case Load (ce_Load zoned_env) (ct_Disk s') of Inl _ \<Rightarrow> True | Inr _ \<Rightarrow> False)" by code_simp
  moreover have "addresses_agree zoned_env"
    by (simp add: addresses_agree_def zoned_env_def control_sample_env_def control_load_env_def load_parsers_def zoned_def)
  ultimately show ?thesis by (auto split: prod.splits option.splits sum.splits)
qed

lemma pending_source:
  assumes "handle_mutating env rq s = Some (a, s')" "map_of (ct_Pending s') t = Some item"
  shows "map_of (ct_Pending s) t = Some item \<or> pm_Payload item = rq_Params rq"
  using assms(1)
proof (cases rule: handled_any)
  case 1
  then show ?thesis using assms(2) by (auto simp: handleConfigReload_def Let_def split: sum.splits)
next
  case (2 mu)
  then show ?thesis
    using assms(2) by (auto simp: handlePrepare_def put_pending_def Let_def update_conv' split: option.splits if_splits)
next
  case (3 mu)
  then have "s' = snd (handleCommit env mu rq s)" by (metis snd_conv)
  then show ?thesis using assms(2) commit_pending [OF 3(1)] by blast
qed

text \<open>C4: no sequence of requests that spares the discovery policy and accepts no host with a zone, in whatever order
  and whatever writes fail, makes the configuration unloadable: after it both a restart and \<open>config.reload\<close> succeed.\<close>

theorem control_keeps_loadable:
  assumes "Load (ce_Load env) (ct_Disk s) = Inr (ct_Current s)" "yaml_keeps (ce_Load env)" "addresses_agree env"
    and "\<forall>rq \<in> set rqs. spares_policy rq \<and> unzoned env (rq_Params rq)"
    and "\<forall>t item. map_of (ct_Pending s) t = Some item \<longrightarrow> unzoned env (pm_Payload item)"
  shows "(\<exists>c. Load (ce_Load env) (ct_Disk (snd (serve env rqs s))) = Inr c)
    \<and> (\<exists>c. Reload (ce_Load env) (ct_Disk (snd (serve env rqs s))) (ct_Current (snd (serve env rqs s))) = Inr c)"
proof -
  let ?I = "\<lambda>s. wf_control env s \<and> (\<forall>t item. map_of (ct_Pending s) t = Some item \<longrightarrow> unzoned env (pm_Payload item))"
  have "?I (snd (serve env rqs s))"
  proof (rule serve_invariant [where I = ?I])
    show "?I s" using load_wf [OF assms(1)] assms(5) by blast
    fix rq s a s' assume step: "rq \<in> set rqs" "?I s" "handle_mutating env rq s = Some (a, s')"
    then have "unzoned env (pm_Payload item)" if "map_of (ct_Pending s') t = Some item" for t item
      using pending_source [OF step(3) that] assms(4) by metis
    moreover have "wf_control env s'"
      using step assms(4) by (intro handle_wf [of env s, OF _ assms(2,3) step(3)]) blast+
    ultimately show "?I s'" by blast
  qed
  then show ?thesis using wf_loads(4,5) by blast
qed

definition control_session :: "request list" where
  "control_session = [control_request ''thresholds.prepare'' threshold_params, control_request ''thresholds.commit'' confirm,
     control_request ''config.reload'' []]"

theorem control_keeps_loadable_witness:
  "\<exists>c. Load (ce_Load control_sample_env) (ct_Disk (snd (serve control_sample_env control_session (control_sample [''b''])))) = Inr c"
proof -
  have "unzoned control_sample_env threshold_params" "unzoned control_sample_env confirm" "unzoned control_sample_env []" by code_simp+
  then have "\<forall>rq \<in> set control_session. spares_policy rq \<and> unzoned control_sample_env (rq_Params rq)"
    by (simp add: control_session_def control_request_def spares_policy_def)
  moreover have "ct_Pending (control_sample [''b'']) = []" by (simp add: control_sample_def started_def)
  ultimately show ?thesis using control_keeps_loadable [OF sample_loads sample_yaml sample_agrees, of "[''b'']"] by simp
qed

lemma pending_prepared:
  assumes I: "\<forall>t item. map_of (ct_Pending s) t = Some item \<longrightarrow> prepared R t item"
    and h: "handle_mutating env rq s = Some (a, s')" "rq \<in> R"
  shows "\<forall>t item. map_of (ct_Pending s') t = Some item \<longrightarrow> prepared R t item"
  using h(1)
proof (cases rule: handled_any)
  case 1
  then have "ct_Pending s' = ct_Pending s" by (auto simp: handleConfigReload_def Let_def split: sum.splits)
  then show ?thesis using I by simp
next
  case (2 mu)
  show ?thesis
  proof (intro allI impI)
    fix t item assume t: "map_of (ct_Pending s') t = Some item"
    show "prepared R t item"
    proof (cases "map_of (ct_Pending s) t = Some item")
      case False
      then have "mu_Check mu (rq_Params rq) = None \<and> rq_Token rq = Some t \<and> pm_Action item = mu_Action mu
          \<and> pm_Payload item = rq_Params rq \<and> pm_ExpiresAt item = rq_Now rq + ConfirmTTL"
        using 2(3) t by (auto simp: handlePrepare_def put_pending_def Let_def update_conv' split: option.splits if_splits)
      then show ?thesis using 2(1,2) h(2) unfolding prepared_def by blast
    qed (use I in blast)
  qed
next
  case (3 mu)
  then have "s' = snd (handleCommit env mu rq s)" by (metis snd_conv)
  then show ?thesis using I commit_pending [OF 3(1)] by blast
qed

text \<open>C7: from an empty table of confirmations, whatever requests are served, a commit succeeds only with the
  token of an earlier prepare of the same action whose parameters passed the check, within the minute, and
  the token is spent by it.\<close>

theorem commit_was_prepared:
  assumes "ct_Pending s0 = []" "s = snd (serve env rqs s0)"
    and "handle_mutating env rq s = Some (Committed revision, s')"
  shows "\<exists>rq0 \<in> set rqs. \<exists>mu \<in> set mutations.
      rq_Method rq0 = mu_Action mu @ ''.prepare'' \<and> rq_Method rq = mu_Action mu @ ''.commit''
      \<and> rq_Token rq0 = Some (text_param (rq_Params rq) ''confirm_token'') \<and> mu_Check mu (rq_Params rq0) = None
      \<and> rq_Now rq \<le> rq_Now rq0 + ConfirmTTL \<and> revision = activeRevision env s
      \<and> map_of (ct_Pending s') (text_param (rq_Params rq) ''confirm_token'') = None"
proof -
  let ?t = "text_param (rq_Params rq) ''confirm_token''"
  have I: "\<forall>t item. map_of (ct_Pending s) t = Some item \<longrightarrow> prepared (set rqs) t item"
    unfolding assms(2)
  proof (rule serve_invariant)
    show "\<forall>t item. map_of (ct_Pending s0) t = Some item \<longrightarrow> prepared (set rqs) t item" by (simp add: assms(1))
    fix rq s a s' assume "rq \<in> set rqs" "\<forall>t item. map_of (ct_Pending s) t = Some item \<longrightarrow> prepared (set rqs) t item"
      "handle_mutating env rq s = Some (a, s')"
    then show "\<forall>t item. map_of (ct_Pending s') t = Some item \<longrightarrow> prepared (set rqs) t item" using pending_prepared by blast
  qed
  show ?thesis
    using assms(3)
  proof (cases rule: handled_any)
    case 1
    then show ?thesis by (auto simp: handleConfigReload_def Let_def split: sum.splits)
  next
    case (2 mu)
    then show ?thesis by (auto simp: handlePrepare_def Let_def split: option.splits prod.splits)
  next
    case (3 mu)
    obtain item s1 s2 where c: "map_of (ct_Pending s) ?t = Some item" "s1 = s\<lparr>ct_Pending := AList.delete ?t (ct_Pending s)\<rparr>"
        "pm_Action item = mu_Action mu" "rq_Now rq \<le> pm_ExpiresAt item" "mu_Apply mu env rq (pm_Payload item) s1 = (None, s2)"
        "revision = activeRevision env s" "ct_Pending s' = ct_Pending s2"
      using commit_None [OF 3(3) [symmetric]] by metis
    have "ct_Pending s2 = ct_Pending s1" using apply_pending [OF 3(1), of env rq "pm_Payload item" s1] by (simp add: c(5))
    then have spent: "map_of (ct_Pending s') ?t = None" by (simp add: c(2,7) delete_conv')
    obtain rq0 mu0 where p: "rq0 \<in> set rqs" "mu0 \<in> set mutations" "rq_Method rq0 = mu_Action mu0 @ ''.prepare''"
        "rq_Token rq0 = Some ?t" "mu_Check mu0 (rq_Params rq0) = None" "pm_Action item = mu_Action mu0"
        "pm_ExpiresAt item = rq_Now rq0 + ConfirmTTL"
      using I c(1) unfolding prepared_def by blast
    have "rq_Method rq = mu_Action mu0 @ ''.commit''" using 3(2) c(3) p(6) by simp
    then show ?thesis using p spent c(4,6) by (intro bexI [of _ rq0] bexI [of _ mu0]) simp_all
  qed
qed

theorem commit_was_prepared_witness:
  "\<exists>s'. handle_mutating control_sample_env policy_request policy_prepared = Some (Committed ''r'', s')
    \<and> map_of (ct_Pending s') ''t'' = None"
proof -
  obtain s' where s': "handle_mutating control_sample_env policy_request policy_prepared = Some (Committed ''r'', s')"
    using policy_committed by blast
  have "ct_Pending (control_sample []) = []" by (simp add: control_sample_def started_def)
  moreover have "text_param (rq_Params policy_request) ''confirm_token'' = ''t''" by code_simp
  ultimately have "map_of (ct_Pending s') ''t'' = None"
    using commit_was_prepared [OF _ policy_prepared_def s'] by auto
  with s' show ?thesis by blast
qed

end
