(* ===== verification/Topology.thy ===== *)
theory Topology
  imports Inventory Snmp
begin

text \<open>
  The dependencies inferred from a scan (\<open>internal/topology/infer.go\<close>).  What probing a host answers is an
  argument (\<open>None\<close>: an error), and so is the order in which the map of the neighbours of a device is
  ranged over.  The adjacency map is the list of the edges added.
\<close>

type_synonym probe = "string \<Rightarrow> string list option"

section \<open>Edges\<close>

definition host_to_ID :: "device_config list \<Rightarrow> (string, string) gomap" where
  "host_to_ID ds = fold (\<lambda>d. AList.update (trim_space (dc_Host d)) (dc_ID d)) ds []"

definition addEdge :: "string \<Rightarrow> string \<Rightarrow> (string \<times> string) list \<Rightarrow> (string \<times> string) list" where
  "addEdge a b es = (if a = [] \<or> b = [] \<or> a = b then es else (b, a) # (a, b) # es)"

definition neighbour_edges :: "probe \<Rightarrow> (string, string) gomap \<Rightarrow> device_config \<Rightarrow> (string \<times> string) list \<Rightarrow> (string \<times> string) list" where
  "neighbour_edges probe hosts d es =
     (case probe (dc_Host d) of
        None \<Rightarrow> es
      | Some ips \<Rightarrow> fold (\<lambda>ip es. case map_of hosts ip of Some i \<Rightarrow> addEdge (dc_ID d) i es | None \<Rightarrow> es) ips es)"

definition edges :: "probe \<Rightarrow> device_config list \<Rightarrow> (string \<times> string) list" where
  "edges probe ds = fold (neighbour_edges probe (host_to_ID ds)) ds []"

definition neighbours :: "(string \<times> string) list \<Rightarrow> string \<Rightarrow> string list" where
  "neighbours es a = remdups (map snd (filter (\<lambda>e. fst e = a) es))"

section \<open>Naming\<close>

definition namingDepth :: "string \<Rightarrow> int" where
  "namingDepth i = (let l = to_lower i in
     if contains l ''core'' then 0 else if contains l ''-mdf'' then 1 else if contains l ''-idf'' then 2 else 1)"

definition namingUpstream :: "string \<Rightarrow> device_config list \<Rightarrow> string" where
  "namingUpstream i ds =
     (let l = to_lower i; ids = dc_ID ` set ds;
          mdf = (case index_of l ''-idf'' of Some n \<Rightarrow> if n > 0 then take n l @ ''-mdf'' else [] | None \<Rightarrow> [])
      in if mdf \<noteq> [] \<and> mdf \<in> ids then mdf
         else if (contains l ''-mdf'' \<or> contains l ''-idf'') \<and> ''do-core'' \<in> ids then ''do-core''
         else [])"

definition roleForDevice :: "string \<Rightarrow> int \<Rightarrow> string" where
  "roleForDevice i depth = (let l = to_lower i in
     if contains l ''core'' \<or> depth = 0 then ''Core Switch''
     else if contains l ''-mdf'' then ''Distribution Switch''
     else if contains l ''-idf'' then ''Access Switch''
     else if depth = 1 then ''Distribution Switch''
     else if depth \<ge> 2 then ''Access Switch''
     else ''Network Device'')"

section \<open>The tree\<close>

fun best_degree :: "(string \<times> string) list \<Rightarrow> device_config list \<Rightarrow> string \<Rightarrow> int \<Rightarrow> string" where
  "best_degree es [] best degree = best"
| "best_degree es (d # ds) best degree =
     (let n = int (length (neighbours es (dc_ID d)))
      in if n > degree then best_degree es ds (dc_ID d) n else best_degree es ds best degree)"

definition pickRoot :: "device_config list \<Rightarrow> (string \<times> string) list \<Rightarrow> string" where
  "pickRoot ds es =
     (case find (\<lambda>d. EqualFold (dc_ID d) ''do-core'' \<or> contains (to_lower (dc_ID d)) ''core'') ds of
        Some d \<Rightarrow> dc_ID d
      | None \<Rightarrow> best_degree es ds (dc_ID (hd ds)) (-1))"

record search =
  se_seen :: "string list"
  se_parent :: "(string, string) gomap"
  se_depth :: "(string, int) gomap"
  se_queue :: "string list"

definition discover :: "string \<Rightarrow> string \<Rightarrow> search \<Rightarrow> search" where
  "discover cur n s =
     (if n \<in> set (se_seen s) then s
      else \<lparr>se_seen = n # se_seen s, se_parent = AList.update n cur (se_parent s),
            se_depth = AList.update n (get0 (se_depth s) 0 cur + 1) (se_depth s), se_queue = se_queue s @ [n]\<rparr>)"

definition search_step :: "(string \<Rightarrow> string list) \<Rightarrow> search \<Rightarrow> search" where
  "search_step adj s =
     (case se_queue s of [] \<Rightarrow> s | cur # queue \<Rightarrow> fold (discover cur) (adj cur) (s\<lparr>se_queue := queue\<rparr>))"

text \<open>Every node is queued once, so as many steps as there are nodes are enough (lemma \<open>search_done\<close>).\<close>

definition search_from :: "(string \<Rightarrow> string list) \<Rightarrow> nat \<Rightarrow> string \<Rightarrow> search" where
  "search_from adj fuel start = (search_step adj ^^ fuel)
     \<lparr>se_seen = [start], se_parent = [], se_depth = [(start, 0)], se_queue = [start]\<rparr>"

definition name_hints :: "device_config list \<Rightarrow> device_config \<Rightarrow> (string, string) gomap \<times> (string, int) gomap
    \<Rightarrow> (string, string) gomap \<times> (string, int) gomap" where
  "name_hints ds d pd =
     (case pd of (parent, depth) \<Rightarrow>
        (if map_of depth (dc_ID d) \<noteq> None then pd
         else (let up = namingUpstream (dc_ID d) ds
               in (if up \<noteq> [] then AList.update (dc_ID d) up parent else parent,
                   AList.update (dc_ID d) (namingDepth (dc_ID d)) depth))))"

definition bfsParents :: "string \<Rightarrow> (string \<Rightarrow> string list) \<Rightarrow> device_config list \<Rightarrow> (string, string) gomap \<times> (string, int) gomap" where
  "bfsParents start adj ds =
     (let s = search_from adj (length ds + 1) start in fold (name_hints ds) ds (se_parent s, se_depth s))"

definition Enrich :: "(string \<Rightarrow> string list \<Rightarrow> string list) \<Rightarrow> probe \<Rightarrow> device_config list \<Rightarrow> device_config list" where
  "Enrich order probe ds =
     (if ds = [] then ds
      else
        (let es = edges probe ds;
             start = pickRoot ds es;
             adj = (\<lambda>i. order i (neighbours es i))
         in case bfsParents start adj ds of (parent, depth) \<Rightarrow>
              map (\<lambda>d. d\<lparr>dc_Role := roleForDevice (dc_ID d) (get0 depth 0 (dc_ID d)),
                dc_UpstreamDeviceIDs := (let p = get0 parent [] (dc_ID d) in if p \<noteq> [] then Some [p] else None)\<rparr>) ds))"

end
