(* ===== verification/TopologyProps.thy ===== *)
theory TopologyProps
  imports Topology
begin

text \<open>The properties of the inferred topology: what the search over the links reaches and why its result is a tree.\<close>

section \<open>The search\<close>

definition search_ok :: "string set \<Rightarrow> (string \<Rightarrow> string list) \<Rightarrow> string \<Rightarrow> search \<Rightarrow> bool" where
  "search_ok ids adj start s \<longleftrightarrow> distinct (se_seen s) \<and> set (se_seen s) \<subseteq> ids \<and> set (se_queue s) \<subseteq> set (se_seen s)
     \<and> start \<in> set (se_seen s) \<and> dom (map_of (se_depth s)) = set (se_seen s)
     \<and> (\<forall>n p. map_of (se_parent s) n = Some p \<longrightarrow> n \<in> set (se_seen s) \<and> n \<noteq> start \<and> p \<in> set (se_seen s) \<and> n \<in> set (adj p)
          \<and> get0 (se_depth s) 0 n = get0 (se_depth s) 0 p + 1)
     \<and> (\<forall>n \<in> set (se_seen s). n \<noteq> start \<longrightarrow> map_of (se_parent s) n \<noteq> None)
     \<and> (\<forall>n. 0 \<le> get0 (se_depth s) 0 n)"

lemma discover_ok:
  assumes "search_ok ids adj start s" "cur \<in> set (se_seen s)" "n \<in> set (adj cur)" "n \<in> ids"
  shows "search_ok ids adj start (discover cur n s)"
proof (cases "n \<in> set (se_seen s)")
  case False
  let ?s = "discover cur n s"
  have f: "se_seen ?s = n # se_seen s" "se_queue ?s = se_queue s @ [n]"
      "map_of (se_parent ?s) = (map_of (se_parent s))(n \<mapsto> cur)"
      "map_of (se_depth ?s) = (map_of (se_depth s))(n \<mapsto> get0 (se_depth s) 0 cur + 1)"
    using False by (simp_all add: discover_def update_conv')
  have depth: "get0 (se_depth ?s) 0 k = (if k = n then get0 (se_depth s) 0 cur + 1 else get0 (se_depth s) 0 k)" for k
    by (simp add: get0_def f(4))
  have ne: "cur \<noteq> n" using assms(2) False by blast
  note ok = assms(1) [unfolded search_ok_def]
  have parents: "k \<in> set (se_seen ?s) \<and> k \<noteq> start \<and> p \<in> set (se_seen ?s) \<and> k \<in> set (adj p)
      \<and> get0 (se_depth ?s) 0 k = get0 (se_depth ?s) 0 p + 1" if "map_of (se_parent ?s) k = Some p" for k p
  proof (cases "k = n")
    case True
    then have "p = cur" using that by (simp add: f(3))
    moreover have "n \<noteq> start" using ok False by blast
    ultimately show ?thesis using True assms(2,3) ne by (simp add: f(1) depth)
  next
    case other: False
    then have "map_of (se_parent s) k = Some p" using that by (simp add: f(3))
    then have k: "k \<in> set (se_seen s)" "k \<noteq> start" "p \<in> set (se_seen s)" "k \<in> set (adj p)"
        "get0 (se_depth s) 0 k = get0 (se_depth s) 0 p + 1" using ok by blast+
    then have "p \<noteq> n" using False by blast
    then show ?thesis using other k by (simp add: f(1) depth)
  qed
  have "\<forall>k. 0 \<le> get0 (se_depth ?s) 0 k" using ok by (auto simp: depth)
  moreover have "dom (map_of (se_depth ?s)) = set (se_seen ?s)" using ok by (simp add: f(1,4))
  moreover have "\<forall>k \<in> set (se_seen ?s). k \<noteq> start \<longrightarrow> map_of (se_parent ?s) k \<noteq> None" using ok by (simp add: f(1,3))
  moreover have "distinct (se_seen ?s)" "set (se_seen ?s) \<subseteq> ids" "set (se_queue ?s) \<subseteq> set (se_seen ?s)" "start \<in> set (se_seen ?s)"
    using ok assms(4) False by (auto simp: f(1,2))
  ultimately show ?thesis unfolding search_ok_def using parents by blast
qed (use assms in \<open>simp add: discover_def\<close>)

text \<open>The part of a step after the head of the queue is taken off.\<close>

lemma discover_all:
  assumes "search_ok ids adj start s" "cur \<in> set (se_seen s)" "set ns \<subseteq> set (adj cur)" "set ns \<subseteq> ids"
    and "\<forall>n \<in> set (se_seen s). n \<in> set (se_queue s) \<or> n = cur \<or> set (adj n) \<subseteq> set (se_seen s)"
    and "length (se_seen s) = length (se_queue s) + k"
  shows "search_ok ids adj start (fold (discover cur) ns s) \<and> set (se_seen s) \<union> set ns \<subseteq> set (se_seen (fold (discover cur) ns s))
    \<and> (\<forall>n \<in> set (se_seen (fold (discover cur) ns s)). n \<in> set (se_queue (fold (discover cur) ns s)) \<or> n = cur
         \<or> set (adj n) \<subseteq> set (se_seen (fold (discover cur) ns s)))
    \<and> length (se_seen (fold (discover cur) ns s)) = length (se_queue (fold (discover cur) ns s)) + k"
  using assms
proof (induction ns arbitrary: s)
  case (Cons n ns)
  let ?s = "discover cur n s"
  have ok: "search_ok ids adj start ?s" using Cons.prems by (intro discover_ok) auto
  have grow: "set (se_seen ?s) = insert n (set (se_seen s))" by (auto simp: discover_def)
  have closed: "\<forall>m \<in> set (se_seen ?s). m \<in> set (se_queue ?s) \<or> m = cur \<or> set (adj m) \<subseteq> set (se_seen ?s)"
    using Cons.prems(5) by (auto simp: discover_def)
  have len: "length (se_seen ?s) = length (se_queue ?s) + k" using Cons.prems(6) by (simp add: discover_def)
  have "cur \<in> set (se_seen ?s)" using Cons.prems(2) grow by simp
  from Cons.IH [OF ok this _ _ closed len] Cons.prems(3,4) grow show ?case by auto
qed simp

definition links_within :: "string set \<Rightarrow> (string \<Rightarrow> string list) \<Rightarrow> bool" where
  "links_within ids adj \<longleftrightarrow> (\<forall>n. set (adj n) \<subseteq> ids)"

definition search_closed :: "(string \<Rightarrow> string list) \<Rightarrow> search \<Rightarrow> bool" where
  "search_closed adj s \<longleftrightarrow> (\<forall>n \<in> set (se_seen s). n \<in> set (se_queue s) \<or> set (adj n) \<subseteq> set (se_seen s))"

lemma search_step_ok:
  assumes "search_ok ids adj start s" "links_within ids adj" "search_closed adj s"
    and "se_queue s = [] \<or> length (se_seen s) = length (se_queue s) + k"
  shows "search_ok ids adj start (search_step adj s) \<and> search_closed adj (search_step adj s)
    \<and> (se_queue (search_step adj s) = [] \<or> length (se_seen (search_step adj s)) = length (se_queue (search_step adj s)) + Suc k)"
proof (cases "se_queue s")
  case Nil
  then show ?thesis using assms by (simp add: search_step_def)
next
  case (Cons cur queue)
  let ?s = "s\<lparr>se_queue := queue\<rparr>"
  have "search_ok ids adj start ?s" using assms(1) Cons unfolding search_ok_def by auto
  moreover have "cur \<in> set (se_seen ?s)" using assms(1) Cons unfolding search_ok_def by auto
  moreover have "\<forall>n \<in> set (se_seen ?s). n \<in> set (se_queue ?s) \<or> n = cur \<or> set (adj n) \<subseteq> set (se_seen ?s)"
    using assms(3) Cons by (auto simp: search_closed_def)
  moreover have "length (se_seen ?s) = length (se_queue ?s) + Suc k" using assms(4) Cons by simp
  moreover have "set (adj cur) \<subseteq> ids" using assms(2) by (simp add: links_within_def)
  ultimately have "search_ok ids adj start (search_step adj s)" "set (adj cur) \<subseteq> set (se_seen (search_step adj s))"
      "\<forall>n \<in> set (se_seen (search_step adj s)). n \<in> set (se_queue (search_step adj s)) \<or> n = cur \<or> set (adj n) \<subseteq> set (se_seen (search_step adj s))"
      "length (se_seen (search_step adj s)) = length (se_queue (search_step adj s)) + Suc k"
    using discover_all [of ids adj start ?s cur "adj cur" "Suc k"] by (simp_all add: search_step_def Cons)
  then show ?thesis unfolding search_closed_def by blast
qed

text \<open>The fuel is enough: the queue is empty at the end, and everything linked to the start has been seen.\<close>

lemma search_done:
  assumes "links_within (set ids) adj" "start \<in> set ids"
  shows "search_ok (set ids) adj start (search_from adj (length ids + 1) start)"
    and "se_queue (search_from adj (length ids + 1) start) = []"
    and "set (se_seen (search_from adj (length ids + 1) start)) = {n. (start, n) \<in> {(a, b). b \<in> set (adj a)}\<^sup>*}"
proof -
  let ?start = "\<lparr>se_seen = [start], se_parent = [], se_depth = [(start, 0)], se_queue = [start]\<rparr>"
  have run: "search_ok (set ids) adj start (search_from adj k start) \<and> search_closed adj (search_from adj k start)
      \<and> (se_queue (search_from adj k start) = [] \<or> length (se_seen (search_from adj k start)) = length (se_queue (search_from adj k start)) + k)" for k
  proof (induction k)
    case 0
    have "search_ok (set ids) adj start ?start" using assms(2) by (simp add: search_ok_def get0_def)
    then show ?case by (simp add: search_from_def search_closed_def)
  next
    case (Suc k)
    have "search_from adj (Suc k) start = search_step adj (search_from adj k start)" by (simp add: search_from_def)
    with search_step_ok [of "set ids" adj start "search_from adj k start" k] Suc assms(1) show ?case by simp
  qed
  let ?s = "search_from adj (length ids + 1) start"
  show ok: "search_ok (set ids) adj start ?s" using run by blast
  have "length (se_seen ?s) = card (set (se_seen ?s))" using ok by (simp add: search_ok_def distinct_card)
  also have "\<dots> \<le> card (set ids)" using ok by (intro card_mono) (simp_all add: search_ok_def)
  also have "\<dots> \<le> length ids" by (rule card_length)
  finally show empty: "se_queue ?s = []" using run [of "length ids + 1"] by auto
  let ?r = "{(a, b). b \<in> set (adj a)}"
  have "(start, n) \<in> ?r\<^sup>*" if "n \<in> set (se_seen ?s)" for n
    using that
  proof (induction "nat (get0 (se_depth ?s) 0 n)" arbitrary: n rule: less_induct)
    case less
    show ?case
    proof (cases "n = start")
      case False
      then obtain p where "map_of (se_parent ?s) n = Some p" using ok less.prems by (auto simp: search_ok_def)
      then have p: "p \<in> set (se_seen ?s)" "n \<in> set (adj p)" "get0 (se_depth ?s) 0 n = get0 (se_depth ?s) 0 p + 1"
          "0 \<le> get0 (se_depth ?s) 0 p" using ok by (auto simp: search_ok_def)
      then have "(start, p) \<in> ?r\<^sup>*" by (intro less.hyps) simp_all
      then show ?thesis using p(2) by (simp add: rtrancl.rtrancl_into_rtrancl)
    qed simp
  qed
  moreover have "n \<in> set (se_seen ?s)" if "(start, n) \<in> ?r\<^sup>*" for n
    using that
  proof (induction rule: rtrancl_induct)
    case base
    then show ?case using ok by (simp add: search_ok_def)
  next
    case (step a b)
    then show ?case using run [of "length ids + 1"] empty by (auto simp: search_closed_def)
  qed
  ultimately show "set (se_seen ?s) = {n. (start, n) \<in> ?r\<^sup>*}" by blast
qed


section \<open>Links\<close>

definition edges_within :: "string set \<Rightarrow> (string \<times> string) list \<Rightarrow> bool" where
  "edges_within ids es \<longleftrightarrow> (\<forall>(a, b) \<in> set es. a \<in> ids \<and> b \<in> ids \<and> a \<noteq> [] \<and> a \<noteq> b)"

lemma host_to_ID_known: "map_of (host_to_ID ds) h = Some i \<Longrightarrow> i \<in> dc_ID ` set ds"
proof -
  have "\<forall>h i. map_of (host_to_ID ds) h = Some i \<longrightarrow> i \<in> dc_ID ` set ds"
    unfolding host_to_ID_def
  proof (rule fold_invariant [where Q = "\<lambda>d. d \<in> set ds" and P = "\<lambda>m. \<forall>(h :: string) i. map_of m h = Some i \<longrightarrow> i \<in> dc_ID ` set ds"])
    fix d and m :: "(string, string) gomap" assume "d \<in> set ds" "\<forall>h i. map_of m h = Some i \<longrightarrow> i \<in> dc_ID ` set ds"
    then show "\<forall>h i. map_of (AList.update (trim_space (dc_Host d)) (dc_ID d) m) h = Some i \<longrightarrow> i \<in> dc_ID ` set ds"
      by (auto simp: update_conv' split: if_splits)
  qed simp_all
  then show "map_of (host_to_ID ds) h = Some i \<Longrightarrow> i \<in> dc_ID ` set ds" by blast
qed

lemma neighbour_edges_within:
  assumes "edges_within (dc_ID ` set ds) es" "d \<in> set ds"
  shows "edges_within (dc_ID ` set ds) (neighbour_edges probe (host_to_ID ds) d es)"
proof (cases "probe (dc_Host d)")
  case (Some ips)
  have "edges_within (dc_ID ` set ds)
      (fold (\<lambda>ip es. case map_of (host_to_ID ds) ip of Some i \<Rightarrow> addEdge (dc_ID d) i es | None \<Rightarrow> es) ips es)"
  proof (rule fold_invariant [where Q = "\<lambda>_. True" and P = "edges_within (dc_ID ` set ds)"])
    fix ip es assume "edges_within (dc_ID ` set ds) es"
    then show "edges_within (dc_ID ` set ds) (case map_of (host_to_ID ds) ip of Some i \<Rightarrow> addEdge (dc_ID d) i es | None \<Rightarrow> es)"
      using assms(2) host_to_ID_known [of ds ip] by (auto simp: edges_within_def addEdge_def split: option.split)
  qed (use assms in simp_all)
  then show ?thesis using Some by (simp add: neighbour_edges_def)
qed (use assms in \<open>simp add: neighbour_edges_def\<close>)

lemma edges_known: "edges_within (dc_ID ` set ds) (edges probe ds)"
  unfolding edges_def
  by (rule fold_invariant [where Q = "\<lambda>d. d \<in> set ds" and P = "edges_within (dc_ID ` set ds)"])
     (auto simp: neighbour_edges_within, simp add: edges_within_def)

lemma neighbours_mem: "b \<in> set (neighbours es a) \<longleftrightarrow> (a, b) \<in> set es"
  by (force simp: neighbours_def)

lemma pickRoot_known: "ds \<noteq> [] \<Longrightarrow> pickRoot ds es \<in> dc_ID ` set ds"
proof -
  have best: "best_degree es xs b n \<in> insert b (dc_ID ` set xs)" for xs b n
    by (induction es xs b n rule: best_degree.induct) (auto simp: Let_def)
  assume "ds \<noteq> []"
  then show "pickRoot ds es \<in> dc_ID ` set ds"
    using best [of ds "dc_ID (hd ds)" "-1"] by (auto simp: pickRoot_def find_Some_iff split: option.split)
qed

section \<open>Names\<close>

lemma to_lower_idem [simp]: "to_lower (to_lower s) = to_lower s"
proof -
  let ?f = "\<lambda>c. if CHR ''A'' \<le> c \<and> c \<le> CHR ''Z'' then char_of (of_char c + (32 :: nat)) else c"
  have "?f (?f c) = ?f c" for c by (auto simp: less_eq_char_def)
  then show ?thesis by (simp add: to_lower_def)
qed

lemma to_lower_take: "to_lower (take n s) = take n (to_lower s)"
  by (simp add: to_lower_def take_map)

lemma to_lower_append: "to_lower (a @ b) = to_lower a @ to_lower b"
  by (simp add: to_lower_def)

lemma index_of_None: "index_of s sub = None \<longleftrightarrow> \<not> contains s sub"
  by (induction s sub rule: index_of.induct) auto

lemma mdf_without_idf: "index_of s ''-idf'' = Some n \<Longrightarrow> index_of (take n s @ ''-mdf'') ''-idf'' = None"
proof (induction s arbitrary: n)
  case (Cons c s)
  show ?case
  proof (cases "prefix ''-idf'' (c # s)")
    case True
    then have "n = 0" using Cons.prems by simp
    then show ?thesis by simp
  next
    case False
    then obtain k where k: "index_of s ''-idf'' = Some k" "n = Suc k" using Cons.prems by auto
    have "\<not> prefix ''-idf'' (c # take k s @ ''-mdf'')"
    proof
      assume p: "prefix ''-idf'' (c # take k s @ ''-mdf'')"
      then obtain zs where zs: "take k s @ ''-mdf'' = ''idf'' @ zs" and c: "c = CHR ''-''" by (auto simp: prefix_def)
      consider "k = 0" | "k = Suc 0" | "k = Suc (Suc 0)" | j where "k = Suc (Suc (Suc j))" by (metis not0_implies_Suc)
      then show False
      proof cases
        case 4
        then obtain s' where "s = ''idf'' @ s'"
          using zs by (cases s; cases "tl s"; cases "tl (tl s)") auto
        with c False show False by simp
      next
        case 1
        with zs show False by simp
      next
        case 2
        with zs show False by (cases s) auto
      next
        case 3
        with zs show False by (cases s; cases "tl s") auto
      qed
    qed
    with Cons.IH [OF k(1)] show ?thesis by (simp add: k(2))
  qed
qed simp

definition name_rank :: "string \<Rightarrow> nat" where
  "name_rank i = (if i = ''do-core'' then 0 else if contains (to_lower i) ''-idf'' then 2 else 1)"

lemma core_plain: "\<not> contains (to_lower ''do-core'') ''-idf''" "\<not> contains (to_lower ''do-core'') ''-mdf''"
  by code_simp+

lemma naming_rank:
  assumes "namingUpstream i ds \<noteq> []"
  shows "namingUpstream i ds \<in> dc_ID ` set ds" "name_rank (namingUpstream i ds) < name_rank i"
proof -
  define l where "l = to_lower i"
  define mdf where "mdf = (case index_of l ''-idf'' of Some n \<Rightarrow> if n > 0 then take n l @ ''-mdf'' else [] | None \<Rightarrow> [])"
  have up: "namingUpstream i ds = (if mdf \<noteq> [] \<and> mdf \<in> dc_ID ` set ds then mdf
      else if (contains l ''-mdf'' \<or> contains l ''-idf'') \<and> ''do-core'' \<in> dc_ID ` set ds then ''do-core'' else [])"
    unfolding namingUpstream_def Let_def mdf_def l_def by (rule refl)
  show "namingUpstream i ds \<in> dc_ID ` set ds" using assms unfolding up by (auto split: if_splits)
  show "name_rank (namingUpstream i ds) < name_rank i"
  proof (cases "mdf \<noteq> [] \<and> mdf \<in> dc_ID ` set ds")
    case True
    then obtain n where n: "index_of l ''-idf'' = Some n" "mdf = take n l @ ''-mdf''"
      unfolding mdf_def by (auto split: option.splits if_splits)
    have "to_lower mdf = mdf"
      unfolding n(2) to_lower_append to_lower_take by (simp add: l_def) code_simp
    moreover have "\<not> contains mdf ''-idf''" using mdf_without_idf [OF n(1)] unfolding n(2) index_of_None .
    ultimately have "name_rank mdf \<le> 1" by (simp add: name_rank_def)
    moreover have "contains l ''-idf''" using n(1) index_of_None [of l "''-idf''"] by auto
    then have "name_rank i = 2" using core_plain(1) by (auto simp: name_rank_def l_def)
    ultimately show ?thesis using True by (simp add: up)
  next
    case False
    then have c: "(contains l ''-mdf'' \<or> contains l ''-idf'') \<and> ''do-core'' \<in> dc_ID ` set ds"
      using assms unfolding up if_not_P [OF False] by (simp only: split: if_splits)
    then have "namingUpstream i ds = ''do-core''" unfolding up if_not_P [OF False] by (rule if_P)
    then show ?thesis using core_plain c by (auto simp: name_rank_def l_def)
  qed
qed

section \<open>The tree\<close>

lemma name_hints_keep:
  assumes "fold (name_hints ds) xs (parent, depth) = (parent', depth')"
  shows "map_of depth n \<noteq> None \<Longrightarrow> map_of parent' n = map_of parent n \<and> map_of depth' n = map_of depth n"
    and "map_of depth n = None \<Longrightarrow> map_of parent n = None \<Longrightarrow> map_of parent' n =
      (if n \<in> dc_ID ` set xs \<and> namingUpstream n ds \<noteq> [] then Some (namingUpstream n ds) else None)"
proof -
  have "(map_of depth n \<noteq> None \<longrightarrow> map_of parent' n = map_of parent n \<and> map_of depth' n = map_of depth n)
    \<and> (map_of depth n = None \<longrightarrow> map_of parent n = None \<longrightarrow> map_of parent' n =
      (if n \<in> dc_ID ` set xs \<and> namingUpstream n ds \<noteq> [] then Some (namingUpstream n ds) else None))"
    using assms
  proof (induction xs arbitrary: parent depth)
    case (Cons d xs)
    obtain p1 d1 where h: "name_hints ds d (parent, depth) = (p1, d1)" by fastforce
    have rest: "fold (name_hints ds) xs (p1, d1) = (parent', depth')" using Cons.prems h by simp
    note IH = Cons.IH [OF rest]
    show ?case
    proof (cases "map_of depth (dc_ID d) \<noteq> None")
      case True
      then have "p1 = parent" "d1 = depth" using h by (simp_all add: name_hints_def del: not_None_eq)
      then show ?thesis using IH True by auto
    next
      case False
      then have "map_of d1 = (map_of depth)(dc_ID d \<mapsto> namingDepth (dc_ID d))"
          "map_of p1 = (if namingUpstream (dc_ID d) ds \<noteq> [] then (map_of parent)(dc_ID d \<mapsto> namingUpstream (dc_ID d) ds) else map_of parent)"
        using h by (auto simp: name_hints_def Let_def update_conv')
      then show ?thesis using IH False by (auto split: if_splits)
    qed
  qed simp
  then show "map_of depth n \<noteq> None \<Longrightarrow> map_of parent' n = map_of parent n \<and> map_of depth' n = map_of depth n"
    and "map_of depth n = None \<Longrightarrow> map_of parent n = None \<Longrightarrow> map_of parent' n =
      (if n \<in> dc_ID ` set xs \<and> namingUpstream n ds \<noteq> [] then Some (namingUpstream n ds) else None)" by blast+
qed

text \<open>The links that the probes found, and the parents that \<open>Enrich\<close> uses.\<close>

definition links :: "probe \<Rightarrow> device_config list \<Rightarrow> (string \<times> string) set" where
  "links probe ds = set (edges probe ds)"

definition enrich_parents :: "(string \<Rightarrow> string list \<Rightarrow> string list) \<Rightarrow> probe \<Rightarrow> device_config list \<Rightarrow> (string, string) gomap" where
  "enrich_parents order probe ds = fst (bfsParents (pickRoot ds (edges probe ds)) (\<lambda>i. order i (neighbours (edges probe ds) i)) ds)"

lemma Enrich_ups:
  assumes "ds \<noteq> []"
  shows "map dc_ID (Enrich order probe ds) = map dc_ID ds"
    and "d \<in> set (Enrich order probe ds) \<Longrightarrow> ups d =
      (case map_of (enrich_parents order probe ds) (dc_ID d) of Some p \<Rightarrow> if p \<noteq> [] then [p] else [] | None \<Rightarrow> [])"
proof -
  let ?bfs = "bfsParents (pickRoot ds (edges probe ds)) (\<lambda>i. order i (neighbours (edges probe ds) i)) ds"
  let ?f = "\<lambda>d. d\<lparr>dc_Role := roleForDevice (dc_ID d) (get0 (snd ?bfs) 0 (dc_ID d)),
    dc_UpstreamDeviceIDs := (let p = get0 (fst ?bfs) [] (dc_ID d) in if p \<noteq> [] then Some [p] else None)\<rparr>"
  have e: "Enrich order probe ds = map ?f ds"
    using assms by (simp add: Enrich_def Let_def case_prod_unfold)
  show "map dc_ID (Enrich order probe ds) = map dc_ID ds" unfolding e by simp
  assume "d \<in> set (Enrich order probe ds)"
  then obtain d0 where "d = ?f d0" unfolding e by (auto simp only: set_map)
  then show "ups d = (case map_of (enrich_parents order probe ds) (dc_ID d) of Some p \<Rightarrow> if p \<noteq> [] then [p] else [] | None \<Rightarrow> [])"
    by (simp add: ups_def get0_def enrich_parents_def Let_def split: option.split)
qed

lemma enrich_search:
  assumes "ds \<noteq> []" "\<And>i xs. set (order i xs) = set xs"
  obtains s where "search_ok (dc_ID ` set ds) (\<lambda>i. order i (neighbours (edges probe ds) i)) (pickRoot ds (edges probe ds)) s"
    "set (se_seen s) = {n. (pickRoot ds (edges probe ds), n) \<in> (links probe ds)\<^sup>*}"
    "\<forall>n \<in> set (se_seen s). map_of (enrich_parents order probe ds) n = map_of (se_parent s) n"
    "\<forall>n. n \<notin> set (se_seen s) \<longrightarrow> map_of (enrich_parents order probe ds) n =
      (if n \<in> dc_ID ` set ds \<and> namingUpstream n ds \<noteq> [] then Some (namingUpstream n ds) else None)"
proof -
  let ?adj = "\<lambda>i. order i (neighbours (edges probe ds) i)" and ?start = "pickRoot ds (edges probe ds)"
  define s where "s = search_from ?adj (length (map dc_ID ds) + 1) ?start"
  have within: "links_within (set (map dc_ID ds)) ?adj"
    using edges_known [of ds probe] by (auto simp: links_within_def assms(2) neighbours_mem edges_within_def)
  have start: "?start \<in> set (map dc_ID ds)" using pickRoot_known [OF assms(1)] by simp
  note fin = search_done [OF within start, folded s_def]
  have ok: "search_ok (dc_ID ` set ds) ?adj ?start s" using fin(1) by simp
  have "{(a, b). b \<in> set (?adj a)} = links probe ds" by (auto simp: assms(2) neighbours_mem links_def)
  then have seen: "set (se_seen s) = {n. (?start, n) \<in> (links probe ds)\<^sup>*}" using fin(3) by simp
  obtain p d where fold: "fold (name_hints ds) ds (se_parent s, se_depth s) = (p, d)" by fastforce
  then have p: "enrich_parents order probe ds = p" by (simp add: enrich_parents_def bfsParents_def s_def Let_def)
  have dom: "map_of (se_depth s) n \<noteq> None \<longleftrightarrow> n \<in> set (se_seen s)" for n
    using ok unfolding search_ok_def by (auto simp: dom_def simp del: not_None_eq)
  have out: "n \<notin> set (se_seen s) \<Longrightarrow> map_of (se_parent s) n = None" for n
    using ok unfolding search_ok_def by (cases "map_of (se_parent s) n") auto
  have inside: "map_of (enrich_parents order probe ds) n = map_of (se_parent s) n" if "n \<in> set (se_seen s)" for n
      using name_hints_keep(1) [OF fold, of n] dom [of n] that by (simp add: p)
  have outside: "map_of (enrich_parents order probe ds) n =
      (if n \<in> dc_ID ` set ds \<and> namingUpstream n ds \<noteq> [] then Some (namingUpstream n ds) else None)" if "n \<notin> set (se_seen s)" for n
      using name_hints_keep(2) [OF fold, of n] dom [of n] out [OF that] that by (simp add: p)
  show ?thesis using inside outside by (intro that [OF ok seen]) blast+
qed

text \<open>C9: whatever the devices answer about their neighbours and in whatever order the maps are ranged
  over, the inferred dependencies of devices with distinct IDs pass the dependency check.\<close>

theorem enrich_accepted:
  assumes "distinct (map dc_ID ds)" "\<And>i xs. set (order i xs) = set xs"
  shows "validateDependencies (Enrich order probe ds) = None"
proof (cases "ds = []")
  case True
  then show ?thesis by (simp add: Enrich_def) code_simp
next
  case False
  let ?out = "Enrich order probe ds" and ?P = "map_of (enrich_parents order probe ds)"
  obtain s where s: "search_ok (dc_ID ` set ds) (\<lambda>i. order i (neighbours (edges probe ds) i)) (pickRoot ds (edges probe ds)) s"
    "set (se_seen s) = {n. (pickRoot ds (edges probe ds), n) \<in> (links probe ds)\<^sup>*}"
    "\<forall>n \<in> set (se_seen s). ?P n = map_of (se_parent s) n"
    "\<forall>n. n \<notin> set (se_seen s) \<longrightarrow> ?P n = (if n \<in> dc_ID ` set ds \<and> namingUpstream n ds \<noteq> [] then Some (namingUpstream n ds) else None)"
    by (rule enrich_search [where order = order and probe = probe, OF False assms(2)]) blast
  define rank where "rank n = (if n \<in> set (se_seen s) then (0, nat (get0 (se_depth s) 0 n)) else (1 :: nat, name_rank n))" for n
  have down: "p \<in> dc_ID ` set ds \<and> (rank p, rank n) \<in> less_than <*lex*> less_than" if "?P n = Some p" for n p
  proof (cases "n \<in> set (se_seen s)")
    case True
    then have "map_of (se_parent s) n = Some p" using that s(3) by simp
    then have "p \<in> set (se_seen s)" "get0 (se_depth s) 0 n = get0 (se_depth s) 0 p + 1" "0 \<le> get0 (se_depth s) 0 p"
        "set (se_seen s) \<subseteq> dc_ID ` set ds" using s(1) unfolding search_ok_def by blast+
    then show ?thesis using True by (auto simp: rank_def)
  next
    case out: False
    then have "namingUpstream n ds \<noteq> []" "p = namingUpstream n ds" using that s(4) by (auto split: if_splits)
    then show ?thesis using naming_rank [of n ds] out by (simp add: rank_def)
  qed
  have ids: "map dc_ID ?out = map dc_ID ds" by (rule Enrich_ups(1) [OF False])
  then have set_ids: "dc_ID ` set ?out = dc_ID ` set ds" by (metis set_map)
  have ups: "ups d = [] \<or> (\<exists>p. ups d = [p] \<and> p \<in> dc_ID ` set ?out \<and> (rank p, rank (dc_ID d)) \<in> less_than <*lex*> less_than)"
    if "d \<in> set ?out" for d
    using Enrich_ups(2) [OF False that] down [of "dc_ID d"] by (auto simp: set_ids split: option.splits if_splits)
  have "references_ok ?out"
    unfolding references_ok_def
  proof
    fix d assume "d \<in> set ?out"
    have irr: "(r, r) \<notin> less_than <*lex*> less_than" for r :: "nat \<times> nat" by (cases r) simp
    show "distinct (ups d) \<and> dc_ID d \<notin> set (ups d) \<and> set (ups d) \<subseteq> dc_ID ` set ?out"
    proof (cases "ups d = []")
      case False
      then obtain p where p: "ups d = [p]" "p \<in> dc_ID ` set ?out" "(rank p, rank (dc_ID d)) \<in> less_than <*lex*> less_than"
        using ups [OF \<open>d \<in> set ?out\<close>] by blast
      then have "dc_ID d \<noteq> p" using irr [of "rank p"] by metis
      then show ?thesis using p(1,2) by simp
    qed simp
  qed
  moreover have "acyclic (dep_graph (upstreams_of (device_index ?out)))"
  proof -
    have "(dep_graph (upstreams_of (device_index ?out)))\<inverse> \<subseteq> inv_image (less_than <*lex*> less_than) rank"
    proof (clarsimp simp: dep_graph_def simp del: less_than_iff in_lex_prod)
      fix x y assume y: "y \<in> set (upstreams_of (device_index ?out) x)"
      then obtain d where "map_of (device_index ?out) x = Some d" "y \<in> set (ups d)"
        by (cases "map_of (device_index ?out) x") (simp_all add: upstreams_of_def)
      then have "d \<in> set ?out" "dc_ID d = x" "y \<in> set (ups d)" using device_index_Some by auto
      then show "(rank y, rank x) \<in> less_than <*lex*> less_than" using ups by force
    qed
    then have "wf ((dep_graph (upstreams_of (device_index ?out)))\<inverse>)"
      by (rule wf_subset [rotated]) (intro wf_inv_image wf_lex_prod wf_less_than)
    then show ?thesis using wf_acyclic acyclic_converse by blast
  qed
  ultimately show ?thesis by (simp add: validateDependencies_None)
qed

text \<open>A core switch that sees one distribution switch, and an access switch that answers nothing.\<close>

definition topology_sample :: "device_config list" where
  "topology_sample = map (\<lambda>i. (mk_device i)\<lparr>dc_Host := i\<rparr>) [''a-idf1'', ''do-core'', ''a-mdf'', ''b-mdf'']"

definition probe_sample :: probe where
  "probe_sample h = (if h = ''do-core'' then Some [''a-mdf'', ''10.0.0.1''] else None)"

lemma enrich_accepted_witness: "validateDependencies (Enrich (\<lambda>_ xs. rev xs) probe_sample topology_sample) = None"
  by (rule enrich_accepted) (simp_all add: topology_sample_def mk_device_def)

text \<open>C10: the devices that links connect to the root depend on a linked device which is connected to the root
  as well, the root depends on nothing, and the other devices depend on what their names suggest.\<close>

theorem enrich_follows_links:
  assumes "d \<in> set (Enrich order probe ds)" "\<And>i xs. set (order i xs) = set xs"
    and "start = pickRoot ds (edges probe ds)"
  shows "if dc_ID d = start then ups d = []
    else if (start, dc_ID d) \<in> (links probe ds)\<^sup>* then
      \<exists>p. ups d = [p] \<and> (p, dc_ID d) \<in> links probe ds \<and> (start, p) \<in> (links probe ds)\<^sup>*
    else ups d = (if namingUpstream (dc_ID d) ds = [] then [] else [namingUpstream (dc_ID d) ds])"
proof -
  have ne: "ds \<noteq> []" using assms(1) by (auto simp: Enrich_def)
  let ?P = "map_of (enrich_parents order probe ds)"
  obtain s where s: "search_ok (dc_ID ` set ds) (\<lambda>i. order i (neighbours (edges probe ds) i)) start s"
    "set (se_seen s) = {n. (start, n) \<in> (links probe ds)\<^sup>*}"
    "\<forall>n \<in> set (se_seen s). ?P n = map_of (se_parent s) n"
    "\<forall>n. n \<notin> set (se_seen s) \<longrightarrow> ?P n = (if n \<in> dc_ID ` set ds \<and> namingUpstream n ds \<noteq> [] then Some (namingUpstream n ds) else None)"
    unfolding assms(3) by (rule enrich_search [where order = order and probe = probe, OF ne assms(2)]) blast
  have ups: "ups d = (case ?P (dc_ID d) of Some p \<Rightarrow> if p \<noteq> [] then [p] else [] | None \<Rightarrow> [])"
    by (rule Enrich_ups(2) [OF ne assms(1)])
  have id: "dc_ID d \<in> dc_ID ` set ds" using assms(1) Enrich_ups(1) [OF ne, of order probe] by (metis image_eqI set_map)
  note ok = s(1) [unfolded search_ok_def]
  show ?thesis
  proof (cases "dc_ID d = start")
    case True
    then have "?P (dc_ID d) = None" using ok s(3) by (cases "map_of (se_parent s) start") auto
    then show ?thesis using True ups by simp
  next
    case other: False
    show ?thesis
    proof (cases "(start, dc_ID d) \<in> (links probe ds)\<^sup>*")
      case True
      then have seen: "dc_ID d \<in> set (se_seen s)" using s(2) by simp
      then obtain p where p: "map_of (se_parent s) (dc_ID d) = Some p" using ok other by blast
      then have "p \<in> set (se_seen s)" "dc_ID d \<in> set (order p (neighbours (edges probe ds) p))" using ok by blast+
      then have "(start, p) \<in> (links probe ds)\<^sup>*" "(p, dc_ID d) \<in> links probe ds"
        using s(2) assms(2) [of p "neighbours (edges probe ds) p"] neighbours_mem [of "dc_ID d" "edges probe ds" p]
        unfolding links_def by blast+
      moreover from this have "p \<noteq> []" using edges_known [of ds probe] by (auto simp: links_def edges_within_def)
      ultimately show ?thesis using other True ups s(3) seen p by simp
    next
      case False
      then have "dc_ID d \<notin> set (se_seen s)" using s(2) by simp
      then show ?thesis using other False ups s(4) id by simp
    qed
  qed
qed

lemma enrich_follows_links_witness:
  "map ups (Enrich (\<lambda>_ xs. xs) probe_sample topology_sample) = [[''a-mdf''], [], [''do-core''], [''do-core'']]
   \<and> (\<exists>d \<in> set (Enrich (\<lambda>_ xs. xs) probe_sample topology_sample). \<exists>p. ups d = [p] \<and> (p, dc_ID d) \<in> links probe_sample topology_sample)"
proof -
  let ?out = "Enrich (\<lambda>_ xs. xs) probe_sample topology_sample" and ?start = "pickRoot topology_sample (edges probe_sample topology_sample)"
  have out: "map ups ?out = [[''a-mdf''], [], [''do-core''], [''do-core'']]" by code_simp
  have f: "length ?out = 4" "dc_ID (?out ! 2) = ''a-mdf''" "?start = ''do-core''" by code_simp+
  have "(''do-core'', ''a-mdf'') \<in> links probe_sample topology_sample" unfolding links_def by code_simp
  then have star: "(?start, dc_ID (?out ! 2)) \<in> (links probe_sample topology_sample)\<^sup>*" "dc_ID (?out ! 2) \<noteq> ?start"
    using f by simp_all
  have mem: "?out ! 2 \<in> set ?out" using f(1) by simp
  have "\<exists>p. ups (?out ! 2) = [p] \<and> (p, dc_ID (?out ! 2)) \<in> links probe_sample topology_sample"
    using enrich_follows_links [OF mem refl refl] star by auto
  then have "\<exists>d \<in> set ?out. \<exists>p. ups d = [p] \<and> (p, dc_ID d) \<in> links probe_sample topology_sample" using mem by blast
  with out show ?thesis by blast
qed

end
