(* ===== verification/Discovery.thy ===== *)
theory Discovery
  imports Config Review
begin

text \<open>
  The scan of the allowed networks (\<open>internal/discovery/discovery.go\<close>): the expansion of the policy into
  targets, the probe of a target and the scan.

  An address is its family and its value (\<open>netip.Addr\<close>; zones cannot occur, as a prefix has none).
  Parsing a prefix and printing and parsing an address are arguments (\<open>net/netip\<close>), and so are the
  prober and the profile detector.  The goroutines of a scan are a step relation; the progress callbacks
  and the arithmetic of the token bucket (\<open>limiter.go\<close>), which only delays a worker, are left out.
\<close>

datatype addr = V4 nat | V6 nat

section \<open>Addresses\<close>

fun addr_valid :: "addr \<Rightarrow> bool" where
  "addr_valid (V4 n) = (n < 2 ^ 32)"
| "addr_valid (V6 n) = (n < 2 ^ 128)"

text \<open>\<open>Next\<close> of the last address of a family is the invalid address.\<close>

fun next_addr :: "addr \<Rightarrow> addr option" where
  "next_addr (V4 n) = (if n + 1 < 2 ^ 32 then Some (V4 (n + 1)) else None)"
| "next_addr (V6 n) = (if n + 1 < 2 ^ 128 then Some (V6 (n + 1)) else None)"

text \<open>An IPv4-mapped IPv6 address lies in \<open>::ffff:0:0/96\<close>.\<close>

definition mapped :: "nat \<Rightarrow> bool" where
  "mapped n \<longleftrightarrow> n div 2 ^ 32 = 65535"

fun Unmap :: "addr \<Rightarrow> addr" where
  "Unmap (V4 n) = V4 n"
| "Unmap (V6 n) = (if mapped n then V4 (n mod 2 ^ 32) else V6 n)"

text \<open>\<open>Compare\<close> orders by bit length first.\<close>

fun addr_key :: "addr \<Rightarrow> nat" where
  "addr_key (V4 n) = n"
| "addr_key (V6 n) = 2 ^ 32 + n"

record ip_prefix =
  px_Addr :: addr
  px_Bits :: nat

fun Contains :: "ip_prefix \<Rightarrow> addr \<Rightarrow> bool" where
  "Contains p a = (case (px_Addr p, a) of
      (V4 n, V4 m) \<Rightarrow> n div 2 ^ (32 - px_Bits p) = m div 2 ^ (32 - px_Bits p)
    | (V6 n, V6 m) \<Rightarrow> n div 2 ^ (128 - px_Bits p) = m div 2 ^ (128 - px_Bits p)
    | _ \<Rightarrow> False)"

definition Masked :: "ip_prefix \<Rightarrow> ip_prefix" where
  "Masked p = p\<lparr>px_Addr := (case px_Addr p of
      V4 n \<Rightarrow> V4 (n - n mod 2 ^ (32 - px_Bits p))
    | V6 n \<Rightarrow> V6 (n - n mod 2 ^ (128 - px_Bits p)))\<rparr>"

section \<open>Targets\<close>

datatype scan_error = ScanContext | BadCIDR | TooManyTargets

definition addr_left :: "addr option \<Rightarrow> nat" where
  "addr_left a = (case a of None \<Rightarrow> 0 | Some (V4 n) \<Rightarrow> 2 ^ 32 - n | Some (V6 n) \<Rightarrow> 2 ^ 33 + 2 ^ 128 - n)"

lemma addr_left_less: "addr_valid a \<Longrightarrow> addr_left (next_addr (Unmap a)) < addr_left (Some a)"
  by (cases a) (auto simp: addr_left_def mapped_def split: if_splits)

text \<open>The loop over the addresses of a prefix.  \<open>k\<close> counts the checks of the context; \<open>Unmap\<close> is applied to the
  loop variable itself.\<close>

function expand_prefix :: "(nat \<Rightarrow> bool) \<Rightarrow> int \<Rightarrow> ip_prefix \<Rightarrow> addr option \<Rightarrow> nat \<Rightarrow> addr list \<Rightarrow> scan_error + (nat \<times> addr list)" where
  "expand_prefix alive most p None k ts = Inr (k, ts)"
| "expand_prefix alive most p (Some a) k ts =
     (if \<not> (addr_valid a \<and> Contains p a) then Inr (k, ts)
      else if \<not> alive k then Inl ScanContext
      else if Unmap a \<in> set ts then expand_prefix alive most p (next_addr (Unmap a)) (Suc k) ts
      else if int (length ts) = most then Inl TooManyTargets
      else expand_prefix alive most p (next_addr (Unmap a)) (Suc k) (ts @ [Unmap a]))"
  by pat_completeness auto

termination
  by (relation "measure (\<lambda>(_, _, _, a, _, _). addr_left a)") (auto simp: addr_left_less)

declare expand_prefix.simps(2) [simp del]

type_synonym prefix_parser = "string \<Rightarrow> ip_prefix option"

fun expand_cidrs :: "prefix_parser \<Rightarrow> (nat \<Rightarrow> bool) \<Rightarrow> int \<Rightarrow> string list \<Rightarrow> nat \<Rightarrow> addr list \<Rightarrow> scan_error + addr list" where
  "expand_cidrs parse alive most [] k ts = Inr ts"
| "expand_cidrs parse alive most (c # cs) k ts =
     (case parse (trim_space c) of
        None \<Rightarrow> Inl BadCIDR
      | Some p \<Rightarrow> (case expand_prefix alive most (Masked p) (Some (px_Addr (Masked p))) k ts of
          Inl e \<Rightarrow> Inl e
        | Inr (k', ts') \<Rightarrow> expand_cidrs parse alive most cs k' ts'))"

definition expandAllowedTargets :: "prefix_parser \<Rightarrow> (nat \<Rightarrow> bool) \<Rightarrow> string list \<Rightarrow> int \<Rightarrow> scan_error + addr list" where
  "expandAllowedTargets parse alive cidrs most =
     (case expand_cidrs parse alive most cidrs 0 [] of Inl e \<Rightarrow> Inl e | Inr ts \<Rightarrow> Inr (sort_key addr_key ts))"

definition TargetCount :: "prefix_parser \<Rightarrow> (nat \<Rightarrow> bool) \<Rightarrow> discovery_config \<Rightarrow> scan_error + int" where
  "TargetCount parse alive policy =
     (case expandAllowedTargets parse alive (di_AllowedCIDRs policy) (di_MaxTargets policy) of
        Inl e \<Rightarrow> Inl e | Inr ts \<Rightarrow> Inr (int (length ts)))"

section \<open>The policy\<close>

definition validatePolicy :: "prefix_parser \<Rightarrow> discovery_config \<Rightarrow> string option" where
  "validatePolicy parse p = first_err
     [fail_if (di_AllowedCIDRs p = []) ''at least one allowed CIDR is required'',
      fail_if (di_MaxTargets p \<le> 0) ''max_targets must be positive'',
      fail_if (di_Timeout p \<le> 0) ''timeout must be positive'',
      fail_if (di_Retries p < 0) ''retries must not be negative'',
      fail_if (di_MaxWorkers p \<le> 0) ''max_workers must be positive'',
      fail_if (f64_le (di_MaxProbesPerSecond p) (Fin 0) \<or> (case di_MaxProbesPerSecond p of Fin _ \<Rightarrow> False | _ \<Rightarrow> True))
        ''max_probes_per_second must be finite and positive'',
      fail_if (di_ProbeBurst p \<le> 0) ''probe_burst must be positive'',
      fail_if (di_Timeout p > 9223372036854775807 div (di_Retries p + 1)) ''timeout and retries exceed the supported probe duration'',
      fail_if (\<not> list_all (\<lambda>c. parse (trim_space c) \<noteq> None) (di_AllowedCIDRs p)) ''allowed_cidrs'']"

section \<open>A probe\<close>

record identity =
  id_SysObjectID :: string
  id_SysName :: string
  id_SysDescr :: string

definition normalizeOID :: "string \<Rightarrow> string" where
  "normalizeOID oid = dropWhile (\<lambda>c. c = CHR ''.'') (trim_space oid)"

text \<open>\<open>strings.ReplaceAll\<close> for a nonempty text.\<close>

function replace_all :: "string \<Rightarrow> string \<Rightarrow> string \<Rightarrow> string" where
  "replace_all s what by_text =
     (if what = [] \<or> s = [] then s
      else if prefix what s then by_text @ replace_all (drop (length what) s) what by_text
      else hd s # replace_all (tl s) what by_text)"
  by pat_completeness auto

termination
  by (relation "measure (\<lambda>(s, _, _). length s)") auto

declare replace_all.simps [simp del]

definition redactError :: "string \<Rightarrow> string \<Rightarrow> string" where
  "redactError message secret = (if secret \<noteq> [] then replace_all message secret ''[redacted]'' else message)"

record scanner =
  sn_policy :: discovery_config
  sn_community :: string
  sn_prober :: "addr \<Rightarrow> string + identity"
  sn_detector :: "(identity \<Rightarrow> string) option"
  sn_now :: "addr \<Rightarrow> time"
  sn_String :: "addr \<Rightarrow> string"
  sn_Parse :: "string \<Rightarrow> addr option"
  sn_Prefix :: prefix_parser

definition New_scanner :: "prefix_parser \<Rightarrow> (string \<Rightarrow> addr option) \<Rightarrow> (addr \<Rightarrow> string) \<Rightarrow> discovery_config \<Rightarrow> string
    \<Rightarrow> (addr \<Rightarrow> string + identity) option \<Rightarrow> (identity \<Rightarrow> string) option \<Rightarrow> (addr \<Rightarrow> time) \<Rightarrow> string + scanner" where
  "New_scanner parse parse_addr print policy community prober detector now =
     (case validatePolicy parse policy of
        Some e \<Rightarrow> Inl e
      | None \<Rightarrow>
          if trim_space community = [] then Inl ''SNMP community is required''
          else (case prober of
             None \<Rightarrow> Inl ''prober is required''
           | Some pr \<Rightarrow> Inr \<lparr>sn_policy = policy, sn_community = community, sn_prober = pr, sn_detector = detector, sn_now = now,
               sn_String = print, sn_Parse = parse_addr, sn_Prefix = parse\<rparr>))"

definition failed_candidate :: "scanner \<Rightarrow> addr \<Rightarrow> candidate" where
  "failed_candidate s target = \<lparr>ca_IP = sn_String s target, ca_Fingerprint = [], ca_DetectedProfile = [], ca_Hostname = [],
     ca_Description = [], ca_Result = ProbeFailed, ca_Error = [], ca_Timestamp = sn_now s target\<rparr>"

definition probe_target :: "scanner \<Rightarrow> addr \<Rightarrow> candidate" where
  "probe_target s target =
     (let c = failed_candidate s target in
      case sn_prober s target of
        Inl e \<Rightarrow> c\<lparr>ca_Error := redactError e (sn_community s)\<rparr>
      | Inr i \<Rightarrow>
          (let i' = i\<lparr>id_SysObjectID := normalizeOID (id_SysObjectID i)\<rparr>;
               profile = (case sn_detector s of None \<Rightarrow> [] | Some f \<Rightarrow> trim_space (f i'))
           in if id_SysObjectID i' = [] then c\<lparr>ca_Error := ''probe returned an empty sysObjectID''\<rparr>
              else c\<lparr>ca_Fingerprint := id_SysObjectID i', ca_Hostname := trim_space (id_SysName i'),
                ca_Description := trim_space (id_SysDescr i'),
                ca_DetectedProfile := (if profile \<noteq> [] then profile else ''core''), ca_Result := ProbeSucceeded\<rparr>))"

section \<open>The worker pool\<close>

text \<open>
  A scan hands its targets over an unbuffered channel to workers that run concurrently.  A worker waits at the
  channel, then for the rate limiter, then probes, and sends its candidate to a channel that has room for one
  candidate of each target.  The steps of the sender, the workers and the canceller interleave in any order; a hand
  over is one step of the sender and the receiving worker.
\<close>

datatype worker = Receiving | Limited addr | Probing addr | Returned

record pool =
  po_unsent :: "addr list"
  po_closed :: bool
  po_workers :: "worker list"
  po_results :: "candidate list"
  po_capacity :: nat
  po_cancelled :: bool

definition pool_start :: "scanner \<Rightarrow> addr list \<Rightarrow> pool" where
  "pool_start s targets = \<lparr>po_unsent = targets, po_closed = False,
     po_workers = replicate (nat (min (di_MaxWorkers (sn_policy s)) (int (length targets)))) Receiving,
     po_results = [], po_capacity = length targets, po_cancelled = False\<rparr>"

text \<open>\<open>drop_target\<close> is the \<open>continue\<close> after a failed \<open>Wait\<close>, which fails only with the error of the context
  (\<open>limiter.go\<close>); \<open>probe_cut\<close> is a probe whose context was cancelled meanwhile.\<close>

inductive pool_step :: "scanner \<Rightarrow> pool \<Rightarrow> pool \<Rightarrow> bool" for s :: scanner where
  cancel: "\<not> po_cancelled p \<Longrightarrow> pool_step s p (p\<lparr>po_cancelled := True\<rparr>)"
| send: "\<lbrakk>\<not> po_closed p; po_unsent p = t # ts; i < length (po_workers p); po_workers p ! i = Receiving\<rbrakk>
    \<Longrightarrow> pool_step s p (p\<lparr>po_unsent := ts, po_workers := (po_workers p)[i := Limited t]\<rparr>)"
| break_send: "\<lbrakk>\<not> po_closed p; po_unsent p \<noteq> []; po_cancelled p\<rbrakk> \<Longrightarrow> pool_step s p (p\<lparr>po_closed := True\<rparr>)"
| close: "\<lbrakk>\<not> po_closed p; po_unsent p = []\<rbrakk> \<Longrightarrow> pool_step s p (p\<lparr>po_closed := True\<rparr>)"
| admit: "\<lbrakk>i < length (po_workers p); po_workers p ! i = Limited t\<rbrakk>
    \<Longrightarrow> pool_step s p (p\<lparr>po_workers := (po_workers p)[i := Probing t]\<rparr>)"
| drop_target: "\<lbrakk>i < length (po_workers p); po_workers p ! i = Limited t; po_cancelled p\<rbrakk>
    \<Longrightarrow> pool_step s p (p\<lparr>po_workers := (po_workers p)[i := Receiving]\<rparr>)"
| probe: "\<lbrakk>i < length (po_workers p); po_workers p ! i = Probing t; length (po_results p) < po_capacity p\<rbrakk>
    \<Longrightarrow> pool_step s p (p\<lparr>po_workers := (po_workers p)[i := Receiving], po_results := po_results p @ [probe_target s t]\<rparr>)"
| probe_cut: "\<lbrakk>i < length (po_workers p); po_workers p ! i = Probing t; length (po_results p) < po_capacity p; po_cancelled p\<rbrakk>
    \<Longrightarrow> pool_step s p (p\<lparr>po_workers := (po_workers p)[i := Receiving],
      po_results := po_results p @ [(failed_candidate s t)\<lparr>ca_Error := redactError e (sn_community s)\<rparr>]\<rparr>)"
| return: "\<lbrakk>i < length (po_workers p); po_workers p ! i = Receiving; po_closed p\<rbrakk>
    \<Longrightarrow> pool_step s p (p\<lparr>po_workers := (po_workers p)[i := Returned]\<rparr>)"

inductive_cases pool_stepE: "pool_step s p p'"

text \<open>\<open>workersWG.Wait\<close> returns.\<close>

definition pool_done :: "pool \<Rightarrow> bool" where
  "pool_done p \<longleftrightarrow> po_closed p \<and> list_all (\<lambda>w. w = Returned) (po_workers p)"

section \<open>The scan\<close>

text \<open>An address that does not parse sorts as the zero address, before all others.  \<open>Scan alive s (cs, e)\<close>: the scan
  can return the candidates \<open>cs\<close> and the error \<open>e\<close>.\<close>

definition candidate_key :: "scanner \<Rightarrow> candidate \<Rightarrow> nat" where
  "candidate_key s c = (case sn_Parse s (ca_IP c) of None \<Rightarrow> 0 | Some a \<Rightarrow> Suc (addr_key a))"

inductive Scan :: "(nat \<Rightarrow> bool) \<Rightarrow> scanner \<Rightarrow> candidate list \<times> scan_error option \<Rightarrow> bool" for alive s where
  no_targets: "expandAllowedTargets (sn_Prefix s) alive (di_AllowedCIDRs (sn_policy s)) (di_MaxTargets (sn_policy s)) = Inl e
    \<Longrightarrow> Scan alive s ([], Some e)"
| scanned: "\<lbrakk>expandAllowedTargets (sn_Prefix s) alive (di_AllowedCIDRs (sn_policy s)) (di_MaxTargets (sn_policy s)) = Inr targets;
     (pool_step s)\<^sup>*\<^sup>* (pool_start s targets) p; pool_done p\<rbrakk>
    \<Longrightarrow> Scan alive s (sort_key (candidate_key s) (po_results p), if po_cancelled p then Some ScanContext else None)"

inductive_simps Scan_iff: "Scan alive s result"

end
