(* ===== verification/DiscoveryProps.thy ===== *)
theory DiscoveryProps
  imports Discovery "HOL-Library.Multiset"
begin

text \<open>The properties of the scan: which addresses it probes, how many, and what it returns.\<close>

section \<open>Addresses as numbers of a family\<close>

fun is_V6 :: "addr \<Rightarrow> bool" where
  "is_V6 (V4 _) = False"
| "is_V6 (V6 _) = True"

fun addr_val :: "addr \<Rightarrow> nat" where
  "addr_val (V4 n) = n"
| "addr_val (V6 n) = n"

definition width :: "addr \<Rightarrow> nat" where
  "width a = (if is_V6 a then 128 else 32)"

lemma addr_eqI: "is_V6 a = is_V6 b \<Longrightarrow> addr_val a = addr_val b \<Longrightarrow> a = b"
  by (cases a; cases b) auto

lemma valid_val: "addr_valid a \<longleftrightarrow> addr_val a < 2 ^ width a"
  by (cases a) (simp_all add: width_def)

lemma Contains_val: "Contains p a \<longleftrightarrow> is_V6 a = is_V6 (px_Addr p)
    \<and> addr_val a div 2 ^ (width a - px_Bits p) = addr_val (px_Addr p) div 2 ^ (width a - px_Bits p)"
  by (cases a; cases "px_Addr p") (auto simp: width_def)

declare Contains.simps [simp del]

lemma next_val: "next_addr a = Some b \<longleftrightarrow> is_V6 b = is_V6 a \<and> addr_val b = Suc (addr_val a) \<and> addr_valid b"
  by (cases a; cases b) auto

lemma next_None: "next_addr a = None \<Longrightarrow> addr_valid b \<Longrightarrow> is_V6 b = is_V6 a \<Longrightarrow> addr_val b \<le> addr_val a"
  by (cases a; cases b) (auto split: if_splits)

section \<open>What an expansion holds in any case\<close>

definition allowed :: "prefix_parser \<Rightarrow> string list \<Rightarrow> addr set" where
  "allowed parse cidrs = {Unmap a | a c p. c \<in> set cidrs \<and> parse (trim_space c) = Some p \<and> addr_valid a \<and> Contains (Masked p) a}"

lemma expand_prefix_within:
  assumes "expand_prefix alive most p a k ts = Inr (k', ts')" "distinct ts" "int (length ts) \<le> most"
  shows "distinct ts' \<and> int (length ts') \<le> most \<and> set ts' \<subseteq> set ts \<union> {Unmap b | b. addr_valid b \<and> Contains p b}"
  using assms
proof (induction alive most p a k ts rule: expand_prefix.induct)
  case (2 alive most p a k ts)
  show ?case
  proof (cases "addr_valid a \<and> Contains p a \<and> alive k")
    case True
    then show ?thesis
    proof (cases "Unmap a \<in> set ts")
      case True
      then show ?thesis
        using "2.IH"(1) "2.prems" \<open>addr_valid a \<and> Contains p a \<and> alive k\<close> by (simp add: expand_prefix.simps(2))
    next
      case False
      then have ne: "int (length ts) \<noteq> most" using "2.prems"(1) \<open>addr_valid a \<and> Contains p a \<and> alive k\<close>
        by (auto simp: expand_prefix.simps(2))
      then have "distinct ts' \<and> int (length ts') \<le> most \<and> set ts' \<subseteq> set (ts @ [Unmap a]) \<union> {Unmap b | b. addr_valid b \<and> Contains p b}"
        using False "2.prems" \<open>addr_valid a \<and> Contains p a \<and> alive k\<close>
        by (intro "2.IH"(2)) (simp_all add: expand_prefix.simps(2))
      then show ?thesis using True by auto
    qed
  next
    case False
    then show ?thesis using "2.prems" by (auto simp: expand_prefix.simps(2) split: if_splits)
  qed
qed simp

lemma expand_cidrs_within:
  assumes "expand_cidrs parse alive most cs k ts = Inr ts'" "distinct ts" "int (length ts) \<le> most"
  shows "distinct ts' \<and> int (length ts') \<le> most \<and> set ts' \<subseteq> set ts \<union> allowed parse cs"
  using assms
proof (induction parse alive most cs k ts rule: expand_cidrs.induct)
  case (2 parse alive most c cs k ts)
  from "2.prems"(1) obtain p k' ts1 where p: "parse (trim_space c) = Some p"
      "expand_prefix alive most (Masked p) (Some (px_Addr (Masked p))) k ts = Inr (k', ts1)"
      "expand_cidrs parse alive most cs k' ts1 = Inr ts'"
    by (auto split: option.splits sum.splits)
  note w = expand_prefix_within [OF p(2) "2.prems"(2,3)]
  from "2.IH" [OF p(1) p(2) refl p(3)] w have
    "distinct ts' \<and> int (length ts') \<le> most \<and> set ts' \<subseteq> set ts1 \<union> allowed parse cs" by blast
  moreover have "allowed parse cs \<subseteq> allowed parse (c # cs)" by (auto simp: allowed_def)
  moreover have "{Unmap b | b. addr_valid b \<and> Contains (Masked p) b} \<subseteq> allowed parse (c # cs)"
    using p(1) by (auto simp: allowed_def)
  ultimately show ?case using w by blast
qed simp

text \<open>Whatever the policy says and whenever the context ends, the targets of a scan are addresses of the
  allowed networks, each once, in ascending order, and no more than the limit.\<close>

theorem targets_within_policy:
  assumes "expandAllowedTargets parse alive cidrs most = Inr ts" "0 \<le> most"
  shows "set ts \<subseteq> allowed parse cidrs \<and> distinct ts \<and> int (length ts) \<le> most \<and> sorted (map addr_key ts)"
proof -
  obtain ts0 where ts0: "expand_cidrs parse alive most cidrs 0 [] = Inr ts0" "ts = sort_key addr_key ts0"
    using assms(1) by (auto simp: expandAllowedTargets_def split: sum.splits)
  from expand_cidrs_within [OF ts0(1)] assms(2) show ?thesis by (simp add: ts0(2))
qed

section \<open>Every address of a plain network\<close>

text \<open>A network in which no address is an IPv4-mapped one.\<close>

definition plain_prefix :: "ip_prefix \<Rightarrow> bool" where
  "plain_prefix p \<longleftrightarrow> addr_valid (px_Addr p) \<and> px_Bits p \<le> width (px_Addr p)
     \<and> (\<forall>a. addr_valid a \<longrightarrow> Contains p a \<longrightarrow> Unmap a = a)"

definition from_addr :: "ip_prefix \<Rightarrow> addr option \<Rightarrow> addr set" where
  "from_addr p a = (case a of None \<Rightarrow> {} | Some a \<Rightarrow> {b. addr_valid b \<and> Contains p b \<and> addr_val a \<le> addr_val b})"

lemma from_addr_step:
  assumes "addr_valid a" "Contains p a"
  shows "from_addr p (Some a) = insert a (from_addr p (next_addr a))"
proof (cases "next_addr a")
  case None
  have "b = a" if "addr_valid b" "Contains p b" "addr_val a \<le> addr_val b" for b
  proof (rule addr_eqI)
    show fam: "is_V6 b = is_V6 a" using that(2) assms(2) by (simp add: Contains_val)
    show "addr_val b = addr_val a" using next_None [OF None that(1) fam] that(3) by simp
  qed
  then show ?thesis using assms None by (auto simp: from_addr_def)
next
  case (Some n)
  have n: "is_V6 n = is_V6 a" "addr_val n = Suc (addr_val a)" using Some by (simp_all add: next_val)
  have "b = a \<or> addr_val n \<le> addr_val b" if "Contains p b" "addr_val a \<le> addr_val b" for b
  proof (cases "addr_val b = addr_val a")
    case True
    have "is_V6 b = is_V6 a" using that(1) assms(2) by (simp add: Contains_val)
    then show ?thesis using True addr_eqI by blast
  qed (use that n in simp)
  then show ?thesis using assms Some n by (auto simp: from_addr_def)
qed

lemma from_addr_end:
  assumes "addr_valid a" "\<not> Contains p a" "is_V6 a = is_V6 (px_Addr p)" "addr_val (px_Addr p) \<le> addr_val a"
  shows "from_addr p (Some a) = {}"
proof -
  have False if b: "Contains p b" "addr_val a \<le> addr_val b" for b
  proof -
    have w: "width b = width a" using b(1) assms(3) by (simp add: Contains_val width_def)
    let ?d = "2 ^ (width a - px_Bits p) :: nat"
    have "addr_val b div ?d = addr_val (px_Addr p) div ?d" using b(1) w by (simp add: Contains_val)
    moreover have "addr_val (px_Addr p) div ?d \<le> addr_val a div ?d" "addr_val a div ?d \<le> addr_val b div ?d"
      using assms(4) b(2) by (simp_all add: div_le_mono)
    ultimately have "addr_val a div ?d = addr_val (px_Addr p) div ?d" by simp
    then show False using assms(2,3) by (simp add: Contains_val)
  qed
  then show ?thesis by (auto simp: from_addr_def)
qed

lemma from_addr_finite: "finite (from_addr p a)"
proof (rule finite_subset)
  show "from_addr p a \<subseteq> V4 ` {..<2 ^ 32} \<union> V6 ` {..<2 ^ 128}"
  proof
    fix b assume "b \<in> from_addr p a"
    then have "addr_valid b" by (simp add: from_addr_def split: option.splits)
    then show "b \<in> V4 ` {..<2 ^ 32} \<union> V6 ` {..<2 ^ 128}" by (cases b) auto
  qed
  show "finite (V4 ` {..<2 ^ 32} \<union> V6 ` {..<2 ^ 128})" by blast
qed

lemma expand_plain:
  assumes "plain_prefix p" "\<And>k. alive k" "distinct ts" "int (length ts) \<le> most"
    and "a = None \<or> (\<exists>b. a = Some b \<and> addr_valid b \<and> is_V6 b = is_V6 (px_Addr p) \<and> addr_val (px_Addr p) \<le> addr_val b)"
  shows "(int (card (set ts \<union> from_addr p a)) \<le> most \<longrightarrow> (\<exists>k' ts'. expand_prefix alive most p a k ts = Inr (k', ts')
      \<and> set ts' = set ts \<union> from_addr p a))
    \<and> (most < int (card (set ts \<union> from_addr p a)) \<longrightarrow> expand_prefix alive most p a k ts = Inl TooManyTargets)"
  using assms
proof (induction alive most p a k ts rule: expand_prefix.induct)
  case (1 alive most p k ts)
  then show ?case by (simp add: from_addr_def distinct_card)
next
  case (2 alive most p a k ts)
  have a: "addr_valid a" "is_V6 a = is_V6 (px_Addr p)" "addr_val (px_Addr p) \<le> addr_val a" using "2.prems"(5) by simp_all
  show ?case
  proof (cases "Contains p a")
    case False
    then have "from_addr p (Some a) = {}" using a by (intro from_addr_end)
    then show ?thesis using False "2.prems"(3,4) by (simp add: expand_prefix.simps(2) distinct_card)
  next
    case True
    have un: "Unmap a = a" using "2.prems"(1) a(1) True by (simp add: plain_prefix_def)
    have alive: "alive k" by (rule "2.prems"(2))
    have step: "from_addr p (Some a) = insert a (from_addr p (next_addr a))" by (rule from_addr_step [OF a(1) True])
    have next_ok: "next_addr a = None \<or> (\<exists>b. next_addr a = Some b \<and> addr_valid b \<and> is_V6 b = is_V6 (px_Addr p)
        \<and> addr_val (px_Addr p) \<le> addr_val b)"
    proof (cases "next_addr a")
      case (Some b)
      then have "is_V6 b = is_V6 a" "addr_val b = Suc (addr_val a)" "addr_valid b" by (simp_all add: next_val)
      then show ?thesis using Some a(2,3) by simp
    qed simp
    show ?thesis
    proof (cases "a \<in> set ts")
      case mem: True
      then have "set ts \<union> from_addr p (Some a) = set ts \<union> from_addr p (next_addr a)" by (auto simp: step)
      then show ?thesis
        using "2.IH"(1) [unfolded un, OF _ _ mem "2.prems"(1-4) next_ok] a(1) True alive mem
        by (simp add: expand_prefix.simps(2) un)
    next
      case out: False
      have card: "card (set ts \<union> from_addr p (Some a)) \<ge> Suc (length ts)"
      proof -
        have "card (set (a # ts)) \<le> card (set ts \<union> from_addr p (Some a))"
          by (rule card_mono) (auto simp: step from_addr_finite)
        then show ?thesis using out "2.prems"(3) by (simp add: distinct_card)
      qed
      have "set (ts @ [a]) \<union> from_addr p (next_addr a) = set ts \<union> from_addr p (Some a)" by (auto simp: step)
      then show ?thesis
      proof (cases "int (length ts) = most")
        case True
        then show ?thesis using card \<open>Contains p a\<close> a(1) alive out by (simp add: expand_prefix.simps(2) un)
      next
        case False
        have "distinct (ts @ [a])" "int (length (ts @ [a])) \<le> most" using out "2.prems"(3,4) False by simp_all
        then show ?thesis
          using "2.IH"(2) [unfolded un, OF _ _ out False "2.prems"(1,2) _ _ next_ok] a(1) True alive out False
            \<open>set (ts @ [a]) \<union> from_addr p (next_addr a) = set ts \<union> from_addr p (Some a)\<close>
          by (simp add: expand_prefix.simps(2) un)
      qed
    qed
  qed
qed

definition network :: "ip_prefix \<Rightarrow> addr set" where
  "network p = {b. addr_valid b \<and> Contains (Masked p) b}"

definition networks :: "prefix_parser \<Rightarrow> string list \<Rightarrow> addr set" where
  "networks parse cidrs = {b. \<exists>c \<in> set cidrs. \<exists>p. parse (trim_space c) = Some p \<and> b \<in> network p}"

lemma masked_val: "is_V6 (px_Addr (Masked p)) = is_V6 (px_Addr p)" "px_Bits (Masked p) = px_Bits p"
    "addr_val (px_Addr (Masked p)) = addr_val (px_Addr p) - addr_val (px_Addr p) mod 2 ^ (width (px_Addr p) - px_Bits p)"
  by (cases "px_Addr p"; simp add: Masked_def width_def)+

lemma masked_below:
  assumes "Contains (Masked p) b"
  shows "addr_val (px_Addr (Masked p)) \<le> addr_val b"
proof -
  let ?d = "2 ^ (width (px_Addr p) - px_Bits p) :: nat" and ?n = "addr_val (px_Addr p)"
  have w: "width b = width (px_Addr p)" using assms by (simp add: Contains_val masked_val width_def)
  have base: "?n - ?n mod ?d = ?n div ?d * ?d" by (simp add: minus_mod_eq_div_mult)
  then have "(?n - ?n mod ?d) div ?d = ?n div ?d" by simp
  then have "addr_val b div ?d = ?n div ?d" using assms by (simp add: Contains_val masked_val w)
  then have "?n div ?d * ?d \<le> addr_val b" by (metis div_mult_mod_eq le_add1)
  then show ?thesis by (simp add: masked_val base)
qed

lemma masked_valid: "addr_valid (px_Addr p) \<Longrightarrow> addr_valid (px_Addr (Masked p))"
proof -
  assume "addr_valid (px_Addr p)"
  moreover have "width (px_Addr (Masked p)) = width (px_Addr p)" by (simp add: width_def masked_val)
  ultimately show ?thesis by (simp add: valid_val masked_val less_imp_diff_less)
qed

lemma from_base: "from_addr (Masked p) (Some (px_Addr (Masked p))) = network p"
  using masked_below [of p] by (auto simp: from_addr_def network_def)

lemma networks_Cons: "parse (trim_space c) = Some p \<Longrightarrow> networks parse (c # cs) = network p \<union> networks parse cs"
  by (auto simp: networks_def)

lemma network_finite: "finite (network p)"
  unfolding from_base [symmetric] by (rule from_addr_finite)

lemma networks_finite: "finite (networks parse cs)"
proof (induction cs)
  case (Cons c cs)
  show ?case
  proof (cases "parse (trim_space c)")
    case None
    then have "networks parse (c # cs) = networks parse cs" by (auto simp: networks_def)
    then show ?thesis using Cons by simp
  next
    case (Some p)
    then show ?thesis using Cons by (simp add: networks_Cons network_finite)
  qed
qed (simp add: networks_def)

lemma expand_cidrs_plain:
  assumes "\<forall>c \<in> set cs. \<exists>p. parse (trim_space c) = Some p \<and> plain_prefix (Masked p)" "\<And>k. alive k"
    and "distinct ts" "int (length ts) \<le> most"
  shows "(int (card (set ts \<union> networks parse cs)) \<le> most \<longrightarrow> (\<exists>ts'. expand_cidrs parse alive most cs k ts = Inr ts'
      \<and> set ts' = set ts \<union> networks parse cs))
    \<and> (most < int (card (set ts \<union> networks parse cs)) \<longrightarrow> expand_cidrs parse alive most cs k ts = Inl TooManyTargets)"
  using assms
proof (induction cs arbitrary: k ts)
  case Nil
  then show ?case by (simp add: networks_def distinct_card)
next
  case (Cons c cs)
  then obtain p where p: "parse (trim_space c) = Some p" "plain_prefix (Masked p)" by auto
  let ?a = "Some (px_Addr (Masked p))"
  have "addr_valid (px_Addr (Masked p))" using p(2) by (simp add: plain_prefix_def)
  then have one: "(int (card (set ts \<union> network p)) \<le> most \<longrightarrow> (\<exists>k' ts'. expand_prefix alive most (Masked p) ?a k ts = Inr (k', ts')
      \<and> set ts' = set ts \<union> network p))
    \<and> (most < int (card (set ts \<union> network p)) \<longrightarrow> expand_prefix alive most (Masked p) ?a k ts = Inl TooManyTargets)"
    using expand_plain [OF p(2) Cons.prems(2-4), where a = ?a and k = k] by (simp add: from_base)
  have all: "set ts \<union> networks parse (c # cs) = set ts \<union> network p \<union> networks parse cs" using networks_Cons [of parse c p cs] p(1) by blast
  have mono: "card (set ts \<union> network p) \<le> card (set ts \<union> networks parse (c # cs))"
    unfolding all by (rule card_mono) (simp_all add: network_finite networks_finite)
  show ?case
  proof (cases "int (card (set ts \<union> network p)) \<le> most")
    case False
    then have "expand_prefix alive most (Masked p) ?a k ts = Inl TooManyTargets" using one by simp
    then show ?thesis using False mono p(1) by simp
  next
    case True
    then obtain k' ts1 where ts1: "expand_prefix alive most (Masked p) ?a k ts = Inr (k', ts1)" "set ts1 = set ts \<union> network p"
      using one by blast
    have d: "distinct ts1" "int (length ts1) \<le> most" using expand_prefix_within [OF ts1(1) Cons.prems(3,4)] by simp_all
    have rest: "\<forall>c \<in> set cs. \<exists>p. parse (trim_space c) = Some p \<and> plain_prefix (Masked p)" using Cons.prems(1) by simp
    have "set ts1 \<union> networks parse cs = set ts \<union> networks parse (c # cs)" unfolding all ts1(2) ..
    with Cons.IH [OF rest Cons.prems(2) d, of k'] show ?thesis by (simp add: p(1) ts1(1))
  qed
qed

lemma plain_V4:
  assumes "px_Addr p = V4 n" "n < 2 ^ 32" "px_Bits p \<le> 32"
  shows "plain_prefix (Masked p)"
proof -
  have "addr_valid (px_Addr (Masked p))" using assms by (intro masked_valid) simp
  moreover have "Unmap a = a" if "Contains (Masked p) a" for a
    using that assms(1) by (cases a) (simp_all add: Contains_val masked_val)
  moreover have "px_Bits (Masked p) \<le> width (px_Addr (Masked p))" using assms by (simp add: masked_val width_def)
  ultimately show ?thesis by (simp add: plain_prefix_def)
qed

text \<open>C11: when every network of the policy is IPv4, or IPv6 without IPv4-mapped addresses, and the context stays
  alive, the targets are all the addresses of the networks, each once and in ascending order, exactly when
  they are no more than the limit; otherwise the scan is refused.\<close>

theorem targets_exact:
  assumes "\<forall>c \<in> set cidrs. \<exists>p. parse (trim_space c) = Some p \<and> plain_prefix (Masked p)" "0 \<le> most"
  shows "if int (card (networks parse cidrs)) \<le> most
    then \<exists>ts. expandAllowedTargets parse (\<lambda>_. True) cidrs most = Inr ts \<and> set ts = networks parse cidrs
      \<and> distinct ts \<and> sorted (map addr_key ts)
    else expandAllowedTargets parse (\<lambda>_. True) cidrs most = Inl TooManyTargets"
proof -
  note e = expand_cidrs_plain [OF assms(1), where alive = "\<lambda>_. True" and ts = "[]" and most = most and k = 0]
  show ?thesis
  proof (cases "int (card (networks parse cidrs)) \<le> most")
    case True
    then obtain ts where ts: "expand_cidrs parse (\<lambda>_. True) most cidrs 0 [] = Inr ts" "set ts = networks parse cidrs"
      using e assms(2) by auto
    have "distinct ts" using expand_cidrs_within [OF ts(1)] assms(2) by simp
    then show ?thesis using True ts by (simp add: expandAllowedTargets_def)
  next
    case False
    then show ?thesis using e assms(2) by (simp add: expandAllowedTargets_def)
  qed
qed

definition sample_parse :: prefix_parser where
  "sample_parse c = (if c = ''10.0.0.1/30'' then Some \<lparr>px_Addr = V4 167772161, px_Bits = 30\<rparr>
     else if c = ''::ffff:10.0.0.0/120'' then Some \<lparr>px_Addr = V6 281470849515520, px_Bits = 120\<rparr> else None)"

lemma targets_exact_witness:
  "\<exists>ts. expandAllowedTargets sample_parse (\<lambda>_. True) [''10.0.0.1/30'', ''10.0.0.1/30''] 4 = Inr ts
     \<and> set ts = networks sample_parse [''10.0.0.1/30'', ''10.0.0.1/30'']"
proof -
  let ?p = "\<lparr>px_Addr = V4 167772161, px_Bits = 30\<rparr>" and ?cs = "[''10.0.0.1/30'', ''10.0.0.1/30'']"
  have trim: "trim_space ''10.0.0.1/30'' = ''10.0.0.1/30''" by code_simp
  have parse: "sample_parse (trim_space ''10.0.0.1/30'') = Some ?p" unfolding trim by (simp add: sample_parse_def)
  have "plain_prefix (Masked ?p)" by (rule plain_V4 [where n = 167772161]) simp_all
  then have plain: "\<forall>c \<in> set ?cs. \<exists>p. sample_parse (trim_space c) = Some p \<and> plain_prefix (Masked p)" using parse by simp
  have "networks sample_parse ?cs \<subseteq> V4 ` {167772160..<167772164}"
  proof
    fix b assume "b \<in> networks sample_parse ?cs"
    then have "addr_valid b" "Contains (Masked ?p) b" using parse by (auto simp: networks_def network_def)
    then obtain n where n: "b = V4 n" "n div 4 = 41943040" by (cases b) (auto simp: Contains.simps Masked_def)
    then have "167772160 \<le> n \<and> n < 167772164" by presburger
    then show "b \<in> V4 ` {167772160..<167772164}" by (simp add: n(1))
  qed
  then have "card (networks sample_parse ?cs) \<le> card (V4 ` {167772160..<167772164})" by (intro card_mono) simp_all
  also have "\<dots> \<le> card {167772160..<167772164 :: nat}" by (rule card_image_le) simp
  finally have "card (networks sample_parse ?cs) \<le> 4" by simp
  then show ?thesis using targets_exact [OF plain, of 4] by auto
qed

lemma targets_within_policy_witness:
  "expandAllowedTargets sample_parse (\<lambda>k. k < 9) [''10.0.0.1/30''] 4 = Inr [V4 167772160, V4 167772161, V4 167772162, V4 167772163]
    \<and> set [V4 167772160, V4 167772161, V4 167772162, V4 167772163] \<subseteq> allowed sample_parse [''10.0.0.1/30'']"
proof -
  have trim: "trim_space ''10.0.0.1/30'' = ''10.0.0.1/30''" by code_simp
  have ts: "expandAllowedTargets sample_parse (\<lambda>k. k < 9) [''10.0.0.1/30''] 4
      = Inr [V4 167772160, V4 167772161, V4 167772162, V4 167772163]"
    by (simp add: expandAllowedTargets_def trim sample_parse_def Masked_def expand_prefix.simps(2) Contains.simps)
  show ?thesis using targets_within_policy [OF ts] ts by simp
qed

text \<open>Of a network of IPv4-mapped addresses only the first one is ever probed: the loop unmaps its own variable,
  and the IPv4 address that follows is no longer in the IPv6 network.\<close>

theorem mapped_network_truncated:
  assumes "parse (trim_space c) = Some p" "px_Addr (Masked p) = V6 n" "mapped n" "0 < most"
  shows "expandAllowedTargets parse (\<lambda>_. True) [c] most = Inr [V4 (n mod 2 ^ 32)]"
proof -
  have "n < 2 ^ 128"
  proof -
    have "n = 65535 * 2 ^ 32 + n mod 2 ^ 32" using assms(3) unfolding mapped_def by (metis mult.commute mult_div_mod_eq)
    also have "\<dots> < 65536 * 2 ^ 32" by simp
    finally show ?thesis by simp
  qed
  moreover have "Contains (Masked p) (V6 n)" by (simp add: Contains_val assms(2) width_def)
  moreover have "expand_prefix (\<lambda>_. True) most (Masked p) (next_addr (V4 (n mod 2 ^ 32))) (Suc 0) [V4 (n mod 2 ^ 32)]
      = Inr (Suc 0, [V4 (n mod 2 ^ 32)])"
    by (auto simp: expand_prefix.simps Contains_val assms(2))
  ultimately show ?thesis
    using assms(4) by (simp add: expandAllowedTargets_def assms(1,2,3) expand_prefix.simps(2))
qed

lemma mapped_network_truncated_witness:
  "expandAllowedTargets sample_parse (\<lambda>_. True) [''::ffff:10.0.0.0/120''] 256 = Inr [V4 167772160]"
proof -
  let ?p = "\<lparr>px_Addr = V6 281470849515520, px_Bits = 120\<rparr>"
  have trim: "trim_space ''::ffff:10.0.0.0/120'' = ''::ffff:10.0.0.0/120''" by code_simp
  have parse: "sample_parse (trim_space ''::ffff:10.0.0.0/120'') = Some ?p" unfolding trim by (simp add: sample_parse_def)
  have "px_Addr (Masked ?p) = V6 281470849515520" "mapped 281470849515520" by (simp_all add: Masked_def mapped_def)
  from mapped_network_truncated [where parse = sample_parse and c = "''::ffff:10.0.0.0/120''" and most = 256, OF parse this] show ?thesis by simp
qed

section \<open>The scan\<close>


subsection \<open>The worker pool\<close>

fun held :: "worker \<Rightarrow> addr list" where
  "held (Limited t) = [t]"
| "held (Probing t) = [t]"
| "held _ = []"





text \<open>The targets that no candidate has been sent for yet.\<close>

definition outstanding :: "pool \<Rightarrow> addr multiset" where
  "outstanding p = mset (po_unsent p) + sum_list (map (\<lambda>w. mset (held w)) (po_workers p))"


lemma outstanding_fields [simp]:
  "outstanding (p\<lparr>po_closed := b\<rparr>) = outstanding p" "outstanding (p\<lparr>po_cancelled := b\<rparr>) = outstanding p"
  "outstanding (p\<lparr>po_results := rs\<rparr>) = outstanding p"
  by (simp_all add: outstanding_def)


lemma candidate_ip [simp]: "ca_IP (probe_target s t) = sn_String s t" "ca_IP (failed_candidate s t) = sn_String s t"
  by (simp_all add: probe_target_def failed_candidate_def Let_def split: sum.split)














end
