(* ===== verification/Retention.thy ===== *)
theory Retention
  imports Prelude
begin

text \<open>
  The retention job of the ingestion service (\<open>internal/retention/retention.go\<close>,
  \<open>internal/store/retention.go\<close>).  A table is the list of its rows in the order in which the database
  scans them; of a row only its identity and the timestamp column matter.  What happens at each check of
  the context and each statement is an argument.  Metrics and the ticker are left out.
\<close>

type_synonym row = "nat \<times> time"
type_synonym tables = "string \<Rightarrow> row list"

record target =
  rt_Table :: string
  rt_Column :: string

definition Targets :: "target list" where
  "Targets = map (\<lambda>(t, c). \<lparr>rt_Table = t, rt_Column = c\<rparr>)
     [(''metric_samples'', ''collected_at''), (''interface_samples'', ''collected_at''),
      (''device_temperature_readings'', ''observed_at''), (''device_power_readings'', ''observed_at''),
      (''device_health_history'', ''observed_at''), (''collector_heartbeat_history'', ''observed_at''),
      (''ingested_events'', ''observed_at''), (''alerts'', ''created_at'')]"

definition allowedRetentionTargets :: "(string, string) gomap" where
  "allowedRetentionTargets =
     [(''metric_samples'', ''collected_at''), (''interface_samples'', ''collected_at''),
      (''device_temperature_readings'', ''observed_at''), (''device_power_readings'', ''observed_at''),
      (''device_health_history'', ''observed_at''), (''collector_heartbeat_history'', ''observed_at''),
      (''ingested_events'', ''observed_at''), (''alerts'', ''created_at'')]"

datatype retention_error = NotAllowlisted | BadBatchSize | StatementFailed | ContextDone

text \<open>The check of the context before each statement, and the statement itself: it may fail, also after
  the server executed it.\<close>

datatype tick = Fine | Cancelled | Fault | ReplyLost

record retention_config =
  rc_Days :: int
  rc_BatchSize :: int

definition Cutoff :: "time \<Rightarrow> int \<Rightarrow> time" where
  "Cutoff now days = now - days * 24 * 60 * 60 * 1000000000"

text \<open>The rows without the first \<open>n\<close> that are older than the cutoff.\<close>

fun drop_old :: "time \<Rightarrow> nat \<Rightarrow> row list \<Rightarrow> row list" where
  "drop_old cutoff n [] = []"
| "drop_old cutoff 0 rs = rs"
| "drop_old cutoff (Suc n) (r # rs) = (if snd r < cutoff then drop_old cutoff n rs else r # drop_old cutoff (Suc n) rs)"

definition DeleteOlderThan :: "tick \<Rightarrow> target \<Rightarrow> time \<Rightarrow> int \<Rightarrow> tables \<Rightarrow> (retention_error + int) \<times> tables" where
  "DeleteOlderThan tick t cutoff batch db =
     (if map_of allowedRetentionTargets (rt_Table t) \<noteq> Some (rt_Column t) then (Inl NotAllowlisted, db)
      else if batch \<le> 0 then (Inl BadBatchSize, db)
      else if tick = Cancelled \<or> tick = Fault then (Inl StatementFailed, db)
      else
        (let rs = db (rt_Table t); rs' = drop_old cutoff (nat batch) rs
         in (if tick = ReplyLost then Inl StatementFailed else Inr (int (length rs) - int (length rs')), db(rt_Table t := rs'))))"

lemma drop_old_length: "length (drop_old cutoff n rs) \<le> length rs"
  by (induction cutoff n rs rule: drop_old.induct) auto

lemma delete_shrinks:
  assumes "DeleteOlderThan tick t cutoff batch db = (Inr n, db')" "n \<noteq> 0"
  shows "length (db' (rt_Table t)) < length (db (rt_Table t))"
  using assms drop_old_length [of cutoff "nat batch" "db (rt_Table t)"]
  by (auto simp: DeleteOlderThan_def Let_def split: if_splits)

text \<open>The loop of \<open>pruneTable\<close>; \<open>k\<close> counts the statements of the run.  It ends because each further round
  has deleted rows.\<close>

function prune_loop :: "(nat \<Rightarrow> tick) \<Rightarrow> target \<Rightarrow> time \<Rightarrow> int \<Rightarrow> nat \<Rightarrow> int \<Rightarrow> tables
    \<Rightarrow> (retention_error + int) \<times> nat \<times> tables" where
  "prune_loop ticks t cutoff batch k sofar db =
     (if ticks k = Cancelled then (Inl ContextDone, k, db)
      else (case DeleteOlderThan (ticks k) t cutoff batch db of
          (Inl e, db') \<Rightarrow> (Inl e, Suc k, db')
        | (Inr n, db') \<Rightarrow>
            (if n = 0 \<or> n < batch then (Inr (sofar + n), Suc k, db')
             else prune_loop ticks t cutoff batch (Suc k) (sofar + n) db')))"
  by pat_completeness auto

termination
  by (relation "measure (\<lambda>(_, t, _, _, _, _, db). length (db (rt_Table t)))") (auto intro: delete_shrinks dest: sym)

declare prune_loop.simps [simp del]

definition pruneTable :: "(nat \<Rightarrow> tick) \<Rightarrow> target \<Rightarrow> time \<Rightarrow> int \<Rightarrow> nat \<Rightarrow> tables \<Rightarrow> (retention_error + int) \<times> nat \<times> tables" where
  "pruneTable ticks t cutoff batch k db = prune_loop ticks t cutoff batch k 0 db"

text \<open>\<open>RunOnce\<close> checks the context before each table and stops at the first error.\<close>

fun run_targets :: "(nat \<Rightarrow> tick) \<Rightarrow> (target \<Rightarrow> bool) \<Rightarrow> time \<Rightarrow> int \<Rightarrow> target list \<Rightarrow> nat \<Rightarrow> int \<Rightarrow> tables
    \<Rightarrow> (retention_error + int) \<times> tables" where
  "run_targets ticks live cutoff batch [] k sofar db = (Inr sofar, db)"
| "run_targets ticks live cutoff batch (t # ts) k sofar db =
     (if \<not> live t then (Inl ContextDone, db)
      else (case pruneTable ticks t cutoff batch k db of
          (Inl e, _, db') \<Rightarrow> (Inl e, db')
        | (Inr n, k', db') \<Rightarrow> run_targets ticks live cutoff batch ts k' (sofar + n) db'))"

definition RunOnce :: "(nat \<Rightarrow> tick) \<Rightarrow> (target \<Rightarrow> bool) \<Rightarrow> time \<Rightarrow> retention_config \<Rightarrow> tables \<Rightarrow> (retention_error + int) \<times> tables" where
  "RunOnce ticks live now cfg db =
     run_targets ticks live (Cutoff now (rc_Days cfg)) (rc_BatchSize cfg) Targets 0 0 db"

end
