(* ===== verification/RetentionProps.thy ===== *)
theory RetentionProps
  imports Retention
begin

text \<open>The properties of the retention job: what it deletes when nothing fails, and what it keeps whatever fails.\<close>

definition old :: "time \<Rightarrow> row \<Rightarrow> bool" where
  "old cutoff r \<longleftrightarrow> snd r < cutoff"

lemma old_abs: "old cutoff = (\<lambda>r. snd r < cutoff)"
  by (simp add: old_def fun_eq_iff)

lemma drop_old_keeps: "filter (\<lambda>r. \<not> old cutoff r) (drop_old cutoff n rs) = filter (\<lambda>r. \<not> old cutoff r) rs"
  by (induction cutoff n rs rule: drop_old.induct) (auto simp: old_def)

lemma drop_old_count: "int (length rs) - int (length (drop_old cutoff n rs)) = int (min n (length (filter (old cutoff) rs)))"
  by (induction cutoff n rs rule: drop_old.induct) (auto simp: old_def)

lemma drop_old_all: "length (filter (old cutoff) rs) \<le> n \<Longrightarrow> drop_old cutoff n rs = filter (\<lambda>r. \<not> old cutoff r) rs"
  by (induction cutoff n rs rule: drop_old.induct) (auto simp: old_def filter_empty_conv split: if_splits)

lemma drop_old_left: "length (filter (old cutoff) (drop_old cutoff n rs)) = length (filter (old cutoff) rs) - n"
  by (induction cutoff n rs rule: drop_old.induct) (auto simp: old_def)

text \<open>Only old rows of the table leave it.\<close>

definition kept :: "time \<Rightarrow> string set \<Rightarrow> tables \<Rightarrow> tables \<Rightarrow> bool" where
  "kept cutoff T db db' \<longleftrightarrow> (\<forall>x. filter (\<lambda>r. \<not> old cutoff r) (db' x) = filter (\<lambda>r. \<not> old cutoff r) (db x))
     \<and> (\<forall>x. x \<notin> T \<longrightarrow> db' x = db x)"

lemma kept_refl [simp]: "kept cutoff T db db"
  by (simp add: kept_def)

lemma kept_trans: "kept cutoff T db db' \<Longrightarrow> kept cutoff T db' db'' \<Longrightarrow> kept cutoff T db db''"
  by (simp add: kept_def)

lemma kept_mono: "kept cutoff T db db' \<Longrightarrow> T \<subseteq> T' \<Longrightarrow> kept cutoff T' db db'"
  by (auto simp: kept_def)

lemma delete_keeps: "kept cutoff {rt_Table t} db (snd (DeleteOlderThan tick t cutoff batch db))"
  by (simp add: DeleteOlderThan_def Let_def kept_def drop_old_keeps)

lemma prune_keeps: "kept cutoff {rt_Table t} db (snd (snd (prune_loop ticks t cutoff batch k sofar db)))"
proof (induction ticks t cutoff batch k sofar db rule: prune_loop.induct)
  case (1 ticks t cutoff batch k sofar db)
  obtain r db' where d: "DeleteOlderThan (ticks k) t cutoff batch db = (r, db')" by fastforce
  have one: "kept cutoff {rt_Table t} db db'" using delete_keeps [of cutoff t db "ticks k" batch] by (simp add: d)
  show ?case
  proof (cases "\<exists>n. ticks k \<noteq> Cancelled \<and> r = Inr n \<and> \<not> (n = 0 \<or> n < batch)")
    case True
    then obtain n where n: "ticks k \<noteq> Cancelled" "r = Inr n" "\<not> (n = 0 \<or> n < batch)" by blast
    have "kept cutoff {rt_Table t} db' (snd (snd (prune_loop ticks t cutoff batch (Suc k) (sofar + n) db')))"
      using n by (intro "1.IH" [OF n(1) d [symmetric] n(2,3)])
    with one have "kept cutoff {rt_Table t} db (snd (snd (prune_loop ticks t cutoff batch (Suc k) (sofar + n) db')))"
      by (rule kept_trans)
    then show ?thesis using n by (subst prune_loop.simps) (simp add: d)
  next
    case False
    then show ?thesis using one by (subst prune_loop.simps) (auto simp: d split: sum.splits)
  qed
qed

lemma run_keeps: "kept cutoff (rt_Table ` set ts) db (snd (run_targets ticks live cutoff batch ts k sofar db))"
proof (induction ts arbitrary: k sofar db)
  case (Cons t ts)
  show ?case
  proof (cases "live t")
    case True
    obtain r k' db' where p: "pruneTable ticks t cutoff batch k db = (r, k', db')" by (metis prod_cases3)
    have "kept cutoff {rt_Table t} db db'" using prune_keeps [where cutoff = cutoff and t = t and db = db and ticks = ticks and batch = batch and k = k and sofar = 0] p by (simp add: pruneTable_def)
    then have one: "kept cutoff (rt_Table ` set (t # ts)) db db'" by (rule kept_mono) simp
    have "kept cutoff (rt_Table ` set (t # ts)) db' (snd (run_targets ticks live cutoff batch ts k' (sofar + n) db'))" for n
      by (rule kept_mono [OF Cons.IH]) auto
    then show ?thesis using True one by (cases r) (auto simp: p intro: kept_trans)
  qed simp
qed simp

text \<open>C13: whatever statement fails and whenever the run is cancelled, only rows of the retention tables that are
  older than the cutoff are deleted: all other rows stay, in their order.\<close>

theorem retention_keeps_recent:
  "let db' = snd (RunOnce ticks live now cfg db); cutoff = Cutoff now (rc_Days cfg) in
     filter (\<lambda>r. \<not> snd r < cutoff) (db' x) = filter (\<lambda>r. \<not> snd r < cutoff) (db x)
     \<and> (x \<in> rt_Table ` set Targets \<or> db' x = db x)"
  using run_keeps [where cutoff = "Cutoff now (rc_Days cfg)" and ts = Targets and db = db and ticks = ticks and live = live
    and batch = "rc_BatchSize cfg" and k = 0 and sofar = 0]
  unfolding RunOnce_def Let_def kept_def old_def by blast

section \<open>A run without failures\<close>

lemma prune_complete:
  assumes "\<forall>k. ticks k = Fine" "0 < batch" "map_of allowedRetentionTargets (rt_Table t) = Some (rt_Column t)"
  shows "\<exists>k'. prune_loop ticks t cutoff batch k sofar db =
    (Inr (sofar + int (length (filter (old cutoff) (db (rt_Table t))))), k',
     db(rt_Table t := filter (\<lambda>r. \<not> old cutoff r) (db (rt_Table t))))"
  using assms
proof (induction ticks t cutoff batch k sofar db rule: prune_loop.induct)
  case (1 ticks t cutoff batch k sofar db)
  let ?rs = "db (rt_Table t)"
  let ?rs' = "drop_old cutoff (nat batch) ?rs" and ?n = "int (min (nat batch) (length (filter (old cutoff) (db (rt_Table t)))))"
  have d: "DeleteOlderThan (ticks k) t cutoff batch db = (Inr ?n, db(rt_Table t := ?rs'))"
    using "1.prems" by (simp add: DeleteOlderThan_def Let_def drop_old_count)
  show ?case
  proof (cases "?n = 0 \<or> ?n < batch")
    case True
    then have "length (filter (old cutoff) ?rs) \<le> nat batch" using "1.prems"(2) by auto
    then have "?rs' = filter (\<lambda>r. \<not> old cutoff r) ?rs" "?n = int (length (filter (old cutoff) ?rs))"
      using drop_old_all by simp_all
    then show ?thesis using True "1.prems"(1) d by (subst prune_loop.simps) simp
  next
    case False
    then have all: "nat batch \<le> length (filter (old cutoff) ?rs)" using "1.prems"(2) by auto
    have "ticks k \<noteq> Cancelled" by (simp add: "1.prems"(1))
    from "1.IH" [OF this d [symmetric] refl False "1.prems"] obtain k' where
      "prune_loop ticks t cutoff batch (Suc k) (sofar + ?n) (db(rt_Table t := ?rs')) =
        (Inr (sofar + ?n + int (length (filter (old cutoff) ?rs'))), k', db(rt_Table t := filter (\<lambda>r. \<not> old cutoff r) ?rs'))"
      unfolding fun_upd_same fun_upd_upd by blast
    moreover have "?n + int (length (filter (old cutoff) ?rs')) = int (length (filter (old cutoff) ?rs))"
      using all by (simp add: drop_old_left)
    ultimately show ?thesis
      using False d "1.prems"(1) by (subst prune_loop.simps) (simp add: drop_old_keeps add.assoc)
  qed
qed

lemma run_complete:
  assumes "\<forall>k. ticks k = Fine" "\<forall>t. live t" "0 < batch" "distinct (map rt_Table ts)"
    and "\<forall>t \<in> set ts. map_of allowedRetentionTargets (rt_Table t) = Some (rt_Column t)"
  shows "run_targets ticks live cutoff batch ts k sofar db =
    (Inr (sofar + sum_list (map (\<lambda>t. int (length (filter (old cutoff) (db (rt_Table t))))) ts)),
     \<lambda>x. if x \<in> rt_Table ` set ts then filter (\<lambda>r. \<not> old cutoff r) (db x) else db x)"
  using assms(4,5)
proof (induction ts arbitrary: k sofar db)
  case (Cons t ts)
  let ?db = "db(rt_Table t := filter (\<lambda>r. \<not> old cutoff r) (db (rt_Table t)))"
  obtain k' where p: "pruneTable ticks t cutoff batch k db = (Inr (int (length (filter (old cutoff) (db (rt_Table t))))), k', ?db)"
    using prune_complete [OF assms(1,3), where t = t and cutoff = cutoff and k = k and sofar = 0 and db = db] Cons.prems by (auto simp: pruneTable_def)
  have "map (\<lambda>t. int (length (filter (old cutoff) (?db (rt_Table t))))) ts = map (\<lambda>t. int (length (filter (old cutoff) (db (rt_Table t))))) ts"
    using Cons.prems(1) by (auto simp: image_iff)
  moreover have "run_targets ticks live cutoff batch (t # ts) k sofar db =
      run_targets ticks live cutoff batch ts k' (sofar + int (length (filter (old cutoff) (db (rt_Table t))))) ?db"
    using p assms(2) by simp
  moreover have "(\<lambda>x. if x \<in> rt_Table ` set ts then filter (\<lambda>r. \<not> old cutoff r) (?db x) else ?db x)
      = (\<lambda>x. if x \<in> rt_Table ` set (t # ts) then filter (\<lambda>r. \<not> old cutoff r) (db x) else db x)"
    by (auto simp: fun_eq_iff)
  moreover have "run_targets ticks live cutoff batch ts k' (sofar + int (length (filter (old cutoff) (db (rt_Table t))))) ?db =
      (Inr (sofar + int (length (filter (old cutoff) (db (rt_Table t)))) + sum_list (map (\<lambda>t. int (length (filter (old cutoff) (?db (rt_Table t))))) ts)),
       \<lambda>x. if x \<in> rt_Table ` set ts then filter (\<lambda>r. \<not> old cutoff r) (?db x) else ?db x)"
    using Cons.prems by (intro Cons.IH) simp_all
  ultimately show ?case by (simp only: list.map sum_list.Cons add.assoc)
qed simp

text \<open>C14: when no statement fails and nothing is cancelled, a run with a positive batch size returns, deletes
  from every retention table exactly the rows older than the cutoff, whatever the batch size is, and
  reports their number.\<close>

theorem retention_prunes:
  assumes "0 < rc_BatchSize cfg"
  shows "RunOnce (\<lambda>_. Fine) (\<lambda>_. True) now cfg db =
    (Inr (sum_list (map (\<lambda>t. int (length (filter (\<lambda>r. snd r < Cutoff now (rc_Days cfg)) (db (rt_Table t))))) Targets)),
     \<lambda>x. if x \<in> rt_Table ` set Targets then filter (\<lambda>r. \<not> snd r < Cutoff now (rc_Days cfg)) (db x) else db x)"
proof -
  have "distinct (map rt_Table Targets)" "\<forall>t \<in> set Targets. map_of allowedRetentionTargets (rt_Table t) = Some (rt_Column t)"
    by code_simp+
  then have "run_targets (\<lambda>_. Fine) (\<lambda>_. True) (Cutoff now (rc_Days cfg)) (rc_BatchSize cfg) Targets 0 0 db =
    (Inr (0 + sum_list (map (\<lambda>t. int (length (filter (old (Cutoff now (rc_Days cfg))) (db (rt_Table t))))) Targets)),
     \<lambda>x. if x \<in> rt_Table ` set Targets then filter (\<lambda>r. \<not> old (Cutoff now (rc_Days cfg)) r) (db x) else db x)"
    using assms by (intro run_complete) simp_all
  then show ?thesis by (simp add: RunOnce_def old_abs old_def cong: if_cong)
qed

definition retention_sample :: tables where
  "retention_sample x = (if x = ''alerts'' then [(1, 0), (2, 100000000000000), (3, 5), (4, 7)] else [])"

lemma retention_prunes_witness:
  "snd (RunOnce (\<lambda>_. Fine) (\<lambda>_. True) 86400000000010 \<lparr>rc_Days = 1, rc_BatchSize = 2\<rparr> retention_sample) ''alerts''
     = [(2, 100000000000000)]"
  by (subst retention_prunes) (simp_all add: Targets_def retention_sample_def Cutoff_def)

end
