(* ===== verification/Files.thy ===== *)
theory Files
  imports Prelude
begin

text \<open>
  Paths and files, as far as the update uses them: \<open>path/filepath\<close> on Unix, and a tree of directories and
  regular files with the operations of package \<open>os\<close>.

  A file system is the list of its nodes under their names from the root (the root itself is not listed).
  It has no symbolic links, so that \<open>..\<close> can be resolved in the text of a path, and the working directory of
  the process is the root.  \<open>deny\<close> tells which names the kernel refuses to create, change or remove.
\<close>

section \<open>Paths\<close>

fun join_slash :: "string list \<Rightarrow> string" where
  "join_slash [] = []"
| "join_slash [c] = c"
| "join_slash (c # cs) = c @ CHR ''/'' # join_slash cs"

definition IsAbs :: "string \<Rightarrow> bool" where
  "IsAbs s \<longleftrightarrow> prefix ''/'' s"

text \<open>One element of a path on the stack of the elements before it.\<close>

definition clean_step :: "bool \<Rightarrow> string list \<Rightarrow> string \<Rightarrow> string list" where
  "clean_step rooted out c =
     (if c = [] \<or> c = ''.'' then out
      else if c = ''..'' then
        (case out of [] \<Rightarrow> if rooted then [] else [''..'']
         | d # ds \<Rightarrow> if d = ''..'' then ''..'' # out else ds)
      else c # out)"

definition clean_elems :: "bool \<Rightarrow> string \<Rightarrow> string list" where
  "clean_elems rooted s = rev (foldl (clean_step rooted) [] (split_on (CHR ''/'') s))"

definition Clean :: "string \<Rightarrow> string" where
  "Clean s = (let es = clean_elems (IsAbs s) s in
     if IsAbs s then CHR ''/'' # join_slash es else if es = [] then ''.'' else join_slash es)"

fun Join :: "string list \<Rightarrow> string" where
  "Join [] = []"
| "Join (e # es) = (if e = [] then Join es else Clean (join_slash (e # es)))"

definition strip_slashes :: "string \<Rightarrow> string" where
  "strip_slashes s = rev (dropWhile (\<lambda>c. c = CHR ''/'') (rev s))"

definition Base :: "string \<Rightarrow> string" where
  "Base s = (if s = [] then ''.'' else
     let b = last (split_on (CHR ''/'') (strip_slashes s)) in if b = [] then ''/'' else b)"

definition Dir :: "string \<Rightarrow> string" where
  "Dir s = Clean (rev (dropWhile (\<lambda>c. c \<noteq> CHR ''/'') (rev s)))"

definition Abs_path :: "string \<Rightarrow> string" where
  "Abs_path s = (if IsAbs s then Clean s else Join [''/'', s])"

section \<open>The file system\<close>

type_synonym path = "string list"

datatype node = Dir_node | File_node nat string

type_synonym files = "(path, node) gomap"

definition path_of :: "string \<Rightarrow> path" where
  "path_of s = clean_elems True s"

definition is_dir :: "files \<Rightarrow> path \<Rightarrow> bool" where
  "is_dir fs p \<longleftrightarrow> p = [] \<or> map_of fs p = Some Dir_node"

definition Exists :: "string \<Rightarrow> files \<Rightarrow> bool" where
  "Exists s fs \<longleftrightarrow> path_of s = [] \<or> map_of fs (path_of s) \<noteq> None"

definition ReadFile :: "string \<Rightarrow> files \<Rightarrow> string option" where
  "ReadFile s fs = (case map_of fs (path_of s) of Some (File_node m d) \<Rightarrow> Some d | _ \<Rightarrow> None)"

text \<open>Each operation returns the files and whether it succeeded.\<close>

definition RemoveAll :: "(path \<Rightarrow> bool) \<Rightarrow> string \<Rightarrow> files \<Rightarrow> files \<times> bool" where
  "RemoveAll deny s fs = (if deny (path_of s) then (fs, False) else (filter (\<lambda>(p, n). \<not> prefix (path_of s) p) fs, True))"

fun mkdir_from :: "(path \<Rightarrow> bool) \<Rightarrow> path \<Rightarrow> path \<Rightarrow> files \<Rightarrow> files \<times> bool" where
  "mkdir_from deny d [] fs = (fs, True)"
| "mkdir_from deny d (c # cs) fs =
     (case map_of fs (d @ [c]) of
        Some Dir_node \<Rightarrow> mkdir_from deny (d @ [c]) cs fs
      | Some (File_node m x) \<Rightarrow> (fs, False)
      | None \<Rightarrow> if deny (d @ [c]) then (fs, False) else mkdir_from deny (d @ [c]) cs (AList.update (d @ [c]) Dir_node fs))"

definition MkdirAll :: "(path \<Rightarrow> bool) \<Rightarrow> string \<Rightarrow> files \<Rightarrow> files \<times> bool" where
  "MkdirAll deny s fs = mkdir_from deny [] (path_of s) fs"

text \<open>\<open>OpenFile\<close> for writing, which creates or empties the file, followed by what is written to it.  A file
  that exists keeps its mode.\<close>

definition WriteNew :: "(path \<Rightarrow> bool) \<Rightarrow> string \<Rightarrow> nat \<Rightarrow> string \<Rightarrow> files \<Rightarrow> files \<times> bool" where
  "WriteNew deny s perm d fs =
     (let p = path_of s in
      if p = [] \<or> deny p \<or> \<not> is_dir fs (butlast p) then (fs, False)
      else (case map_of fs p of
          Some Dir_node \<Rightarrow> (fs, False)
        | Some (File_node m x) \<Rightarrow> (AList.update p (File_node m d) fs, True)
        | None \<Rightarrow> (AList.update p (File_node perm d) fs, True)))"

definition Remove :: "(path \<Rightarrow> bool) \<Rightarrow> string \<Rightarrow> files \<Rightarrow> files" where
  "Remove deny s fs = (if deny (path_of s) \<or> list_ex (\<lambda>(p, n). strict_prefix (path_of s) p) fs then fs
     else AList.delete (path_of s) fs)"

text \<open>The names of the directories in a directory, in order (\<open>os.ReadDir\<close> and \<open>IsDir\<close>).\<close>

definition subdirs :: "string \<Rightarrow> files \<Rightarrow> string list" where
  "subdirs s fs = sort (map (last \<circ> fst) (filter (\<lambda>(p, n). n = Dir_node \<and> p \<noteq> [] \<and> butlast p = path_of s) fs))"

definition Rename :: "(path \<Rightarrow> bool) \<Rightarrow> string \<Rightarrow> string \<Rightarrow> files \<Rightarrow> files \<times> bool" where
  "Rename deny old new fs =
     (let a = path_of old; b = path_of new in
      if a = b then (fs, map_of fs a \<noteq> None)
      else if deny b \<or> prefix a b \<or> \<not> is_dir fs (butlast b)
        \<or> (case (map_of fs a, map_of fs b) of
             (None, _) \<Rightarrow> True
           | (Some n, None) \<Rightarrow> b = []
           | (Some Dir_node, Some Dir_node) \<Rightarrow> list_ex (\<lambda>(p, n). strict_prefix b p) fs
           | (Some (File_node m x), Some (File_node m' x')) \<Rightarrow> False
           | _ \<Rightarrow> True)
      then (fs, False)
      else (map (\<lambda>(p, n). if prefix a p then (b @ drop (length a) p, n) else (p, n)) (filter (\<lambda>(p, n). p \<noteq> b) fs), True))"

end
