(* ===== verification/FilesProps.thy ===== *)
theory FilesProps
  imports Files
begin

text \<open>
  What cleaning and joining do to the elements of a path, and which names an operation on files touches.
\<close>

section \<open>Elements of paths\<close>

definition plain_elem :: "string \<Rightarrow> bool" where
  "plain_elem c \<longleftrightarrow> c \<noteq> [] \<and> c \<noteq> ''.'' \<and> c \<noteq> ''..'' \<and> CHR ''/'' \<notin> set c"

lemma split_on_elems: "w \<in> set (split_on sep s) \<Longrightarrow> sep \<notin> set w"
  by (induction s arbitrary: w) (auto split: list.splits if_splits)

lemma split_on_cat: "split_on sep (a @ sep # b) = split_on sep a @ split_on sep b"
  by (induction a) (auto split: list.splits)

lemma split_join:
  assumes "es \<noteq> []" "\<forall>e \<in> set es. CHR ''/'' \<notin> set e"
  shows "split_on (CHR ''/'') (join_slash es) = es"
  using assms
proof (induction es rule: join_slash.induct)
  case (3 c d cs)
  then show ?case by (simp add: split_on_append)
qed (simp_all add: split_on_word)

lemma step_plain: "plain_elem c \<Longrightarrow> clean_step r out c = c # out"
  by (simp add: clean_step_def plain_elem_def)

lemma steps_plain: "\<forall>c \<in> set cs. plain_elem c \<Longrightarrow> foldl (clean_step r) out cs = rev cs @ out"
  by (induction cs arbitrary: out) (simp_all add: step_plain)

lemma step_rooted: "\<forall>d \<in> set out. plain_elem d \<Longrightarrow> CHR ''/'' \<notin> set c \<Longrightarrow> d \<in> set (clean_step True out c) \<Longrightarrow> plain_elem d"
  by (auto simp: clean_step_def plain_elem_def split: list.splits if_splits)

lemma steps_rooted:
  "\<forall>d \<in> set out. plain_elem d \<Longrightarrow> \<forall>c \<in> set cs. CHR ''/'' \<notin> set c \<Longrightarrow> \<forall>d \<in> set (foldl (clean_step True) out cs). plain_elem d"
proof (induction cs arbitrary: out)
  case (Cons c cs)
  have "\<forall>d \<in> set (clean_step True out c). plain_elem d"
    using step_rooted [OF Cons.prems(1), of c] Cons.prems(2) by auto
  then show ?case using Cons.IH [of "clean_step True out c"] Cons.prems(2) by simp
qed simp

lemma path_plain: "\<forall>d \<in> set (path_of s). plain_elem d"
  using steps_rooted [of "[]" "split_on (CHR ''/'') s"] by (simp add: path_of_def clean_elems_def split_on_elems)

text \<open>The stack of a relative path: plain elements on top of some \<open>..\<close>.\<close>

definition relative_stack :: "string list \<Rightarrow> bool" where
  "relative_stack out \<longleftrightarrow> (\<exists>ps k. out = ps @ replicate k ''..'' \<and> (\<forall>p \<in> set ps. plain_elem p))"

lemma step_relative:
  assumes "relative_stack out" "CHR ''/'' \<notin> set c"
  shows "relative_stack (clean_step False out c)"
proof -
  obtain ps k where ps: "out = ps @ replicate k ''..''" "\<forall>p \<in> set ps. plain_elem p" using assms(1) by (auto simp: relative_stack_def)
  consider "c = [] \<or> c = ''.''" | "c = ''..''" | "plain_elem c" using assms(2) by (auto simp: plain_elem_def)
  then show ?thesis
  proof cases
    case 1
    then show ?thesis using assms(1) by (auto simp: clean_step_def)
  next
    case 3
    then have "clean_step False out c = (c # ps) @ replicate k ''..''" by (simp add: step_plain ps(1))
    then show ?thesis using ps(2) 3 unfolding relative_stack_def by (metis set_ConsD)
  next
    case 2
    show ?thesis
    proof (cases ps)
      case Nil
      then have "clean_step False out c = [] @ replicate (Suc k) ''..''" by (cases k) (simp_all add: clean_step_def 2 ps(1))
      then show ?thesis unfolding relative_stack_def by (metis empty_iff list.set(1))
    next
      case (Cons p qs)
      then have "clean_step False out c = qs @ replicate k ''..''" using ps by (simp add: clean_step_def 2 plain_elem_def)
      then show ?thesis using ps(2) Cons unfolding relative_stack_def by (metis list.set_intros(2))
    qed
  qed
qed

lemma steps_relative: "relative_stack out \<Longrightarrow> \<forall>c \<in> set cs. CHR ''/'' \<notin> set c \<Longrightarrow> relative_stack (foldl (clean_step False) out cs)"
  by (induction cs arbitrary: out) (simp_all add: step_relative)

lemma join_head: "es \<noteq> [] \<Longrightarrow> join_slash (e # es) = e @ ''/'' @ join_slash es"
  by (cases es) simp_all

text \<open>A clean name that is relative and does not go up consists of plain elements.\<close>

lemma clean_relative:
  assumes "\<not> IsAbs (Clean s)" "\<not> prefix ''../'' (Clean s)" "Clean s \<noteq> ''..''" "Clean s \<noteq> ''.''"
  obtains es where "Clean s = join_slash es" "es \<noteq> []" "\<forall>e \<in> set es. plain_elem e"
proof -
  have rel: "\<not> IsAbs s" using assms(1) by (auto simp: Clean_def Let_def IsAbs_def)
  let ?es = "clean_elems False s"
  have "relative_stack (rev ?es)" unfolding clean_elems_def rev_rev_ident
    by (rule steps_relative) (simp_all add: relative_stack_def split_on_elems)
  then obtain ps k where ps: "rev ?es = ps @ replicate k ''..''" "\<forall>p \<in> set ps. plain_elem p" by (auto simp: relative_stack_def)
  then have es: "?es = replicate k ''..'' @ rev ps" by (metis rev_append rev_replicate rev_rev_ident)
  have ne: "?es \<noteq> []" using rel assms(4) by (auto simp: Clean_def)
  then have clean: "Clean s = join_slash ?es" using rel by (simp add: Clean_def)
  have "k = 0"
  proof (rule ccontr)
    assume "k \<noteq> 0"
    then obtain j where "k = Suc j" by (cases k) auto
    then have shape: "?es = ''..'' # (replicate j ''..'' @ rev ps)" by (simp add: es)
    show False
    proof (cases "replicate j ''..'' @ rev ps = []")
      case True
      then show False using clean shape assms(3) by simp
    next
      case False
      then have "Clean s = ''..'' @ ''/'' @ join_slash (replicate j ''..'' @ rev ps)" using clean shape join_head [OF False] by simp
      then show False using assms(2) by simp
    qed
  qed
  then show thesis using that [of ?es] clean ne ps(2) by (simp add: es)
qed

section \<open>Cleaned and joined paths\<close>

lemma path_Clean:
  assumes "IsAbs s"
  shows "path_of (Clean s) = path_of s"
proof -
  have c: "Clean s = CHR ''/'' # join_slash (path_of s)" using assms by (simp add: Clean_def path_of_def)
  show ?thesis
  proof (cases "path_of s = []")
    case True
    then show ?thesis unfolding c by (simp add: path_of_def clean_elems_def clean_step_def)
  next
    case False
    have "\<forall>e \<in> set (path_of s). CHR ''/'' \<notin> set e" using path_plain [of s] by (simp add: plain_elem_def)
    then have "split_on (CHR ''/'') (Clean s) = [] # path_of s" unfolding c using False by (simp add: split_join)
    then show ?thesis
      using steps_plain [OF path_plain, of True "[]" s] by (simp add: path_of_def [of "Clean s"] clean_elems_def clean_step_def [of _ _ "[]"])
  qed
qed

lemma path_cat: "path_of (a @ CHR ''/'' # b) = rev (foldl (clean_step True) (rev (path_of a)) (split_on (CHR ''/'') b))"
  by (simp add: path_of_def clean_elems_def split_on_cat)

lemma path_below:
  assumes "es \<noteq> []" "\<forall>e \<in> set es. plain_elem e"
  shows "path_of (a @ CHR ''/'' # join_slash es) = path_of a @ es"
proof -
  have "split_on (CHR ''/'') (join_slash es) = es" using assms by (intro split_join) (simp_all add: plain_elem_def)
  then show ?thesis by (simp add: path_cat steps_plain [OF assms(2)])
qed

lemma path_Join:
  assumes "IsAbs st" "es \<noteq> []" "\<forall>e \<in> set es. plain_elem e"
  shows "path_of (Join [st, join_slash es]) = path_of st @ es" "IsAbs (Join [st, join_slash es])"
proof -
  have ne: "st \<noteq> []" using assms(1) by (auto simp: IsAbs_def)
  have abs: "IsAbs (st @ CHR ''/'' # join_slash es)" using assms(1) by (auto simp: IsAbs_def prefix_def)
  show "path_of (Join [st, join_slash es]) = path_of st @ es"
    using path_Clean [OF abs] path_below [OF assms(2,3), of st] ne by simp
  show "IsAbs (Join [st, join_slash es])" using ne abs by (simp add: Clean_def Let_def) (simp add: IsAbs_def)
qed

lemma path_Join1: "IsAbs st \<Longrightarrow> plain_elem d \<Longrightarrow> path_of (Join [st, d]) = path_of st @ [d]"
  using path_Join(1) [of st "[d]"] by simp

lemma Dir_path:
  assumes "IsAbs s"
  shows "prefix (path_of (Dir s)) (path_of s) \<or> path_of s = butlast (path_of (Dir s)) \<or> path_of s = path_of (Dir s)"
proof -
  let ?l = "rev (takeWhile (\<lambda>c. c \<noteq> CHR ''/'') (rev s))" and ?t = "rev (dropWhile (\<lambda>c. c \<noteq> CHR ''/'') (rev s))"
  have s: "s = ?t @ ?l" by (metis rev_append rev_rev_ident takeWhile_dropWhile_id)
  have "CHR ''/'' \<in> set s" using assms by (auto simp: IsAbs_def prefix_def)
  then have "dropWhile (\<lambda>c. c \<noteq> CHR ''/'') (rev s) \<noteq> []" by (auto simp: dropWhile_eq_Nil_conv)
  moreover then have "hd (dropWhile (\<lambda>c. c \<noteq> CHR ''/'') (rev s)) = CHR ''/''" using hd_dropWhile by blast
  ultimately obtain u where "dropWhile (\<lambda>c. c \<noteq> CHR ''/'') (rev s) = CHR ''/'' # rev u" by (metis list.collapse rev_swap)
  then have t: "?t = u @ ''/''" by simp
  have noslash: "CHR ''/'' \<notin> set ?l" by (auto dest: set_takeWhileD)
  have "path_of s = rev (clean_step True (rev (path_of u)) ?l)"
    using s t noslash path_cat [of u ?l] by (simp add: split_on_word)
  moreover have abs: "IsAbs ?t"
  proof -
    obtain r where "CHR ''/'' # r = u @ CHR ''/'' # ?l" using assms s t by (auto simp: IsAbs_def prefix_def)
    then show ?thesis unfolding t by (cases u) (simp_all add: IsAbs_def)
  qed
  then have "path_of (Dir s) = path_of u"
    using path_Clean [OF abs] path_cat [of u "[]"] by (simp add: Dir_def t clean_step_def)
  ultimately show ?thesis
    by (cases "rev (path_of u)") (auto simp: clean_step_def rev_swap split: if_splits)
qed

section \<open>What an operation touches\<close>

text \<open>Outside the trees below \<open>R\<close> everything stays as it is, except that parents of them may be made.\<close>

definition touches_only :: "path set \<Rightarrow> files \<Rightarrow> files \<Rightarrow> bool" where
  "touches_only R fs fs' \<longleftrightarrow> (\<forall>p. (\<exists>r \<in> R. prefix r p) \<or> map_of fs' p = map_of fs p
     \<or> (map_of fs p = None \<and> map_of fs' p = Some Dir_node \<and> (\<exists>r \<in> R. strict_prefix p r)))"

definition names_ok :: "files \<Rightarrow> bool" where
  "names_ok fs \<longleftrightarrow> (\<forall>p \<in> fst ` set fs. \<forall>c \<in> set p. plain_elem c)"

lemma touches_refl [simp]: "touches_only R fs fs"
  by (simp add: touches_only_def)

lemma touches_trans: "touches_only R fs fs1 \<Longrightarrow> touches_only R fs1 fs2 \<Longrightarrow> touches_only R fs fs2"
  unfolding touches_only_def by (metis option.distinct(1))

lemma touches_mono: "touches_only R fs fs' \<Longrightarrow> R \<subseteq> R' \<Longrightarrow> touches_only R' fs fs'"
  unfolding touches_only_def by blast

lemma map_of_keyed: "map_of (filter (\<lambda>(p, n). P p) fs) q = (if P q then map_of fs q else None)"
  by (induction fs) auto

lemma touches_RemoveAll: "r \<in> R \<Longrightarrow> prefix r (path_of s) \<Longrightarrow> touches_only R fs (fst (RemoveAll deny s fs))"
  by (auto simp: RemoveAll_def touches_only_def map_of_keyed [of "\<lambda>q. \<not> prefix (path_of s) q"] dest: prefix_order.trans)

lemma names_RemoveAll: "names_ok fs \<Longrightarrow> names_ok (fst (RemoveAll deny s fs))"
  by (auto simp: RemoveAll_def names_ok_def)

lemma names_update: "names_ok fs \<Longrightarrow> \<forall>c \<in> set p. plain_elem c \<Longrightarrow> names_ok (AList.update p n fs)"
  by (auto simp: names_ok_def dom_update simp del: fst_conv)

lemma mkdir_from_made:
  "map_of (fst (mkdir_from deny d cs fs)) q = map_of fs q
    \<or> (map_of fs q = None \<and> map_of (fst (mkdir_from deny d cs fs)) q = Some Dir_node \<and> prefix q (d @ cs))"
proof (induction deny d cs fs rule: mkdir_from.induct)
  case (2 deny d c cs fs)
  show ?case
  proof (cases "map_of fs (d @ [c])")
    case None
    then show ?thesis using "2.IH"(1) [OF None] None by (auto simp: update_conv' split: if_splits)
  next
    case (Some n)
    then show ?thesis using "2.IH"(2) by (cases n) simp_all
  qed
qed simp

lemma names_mkdir_from: "names_ok fs \<Longrightarrow> \<forall>c \<in> set (d @ cs). plain_elem c \<Longrightarrow> names_ok (fst (mkdir_from deny d cs fs))"
proof (induction deny d cs fs rule: mkdir_from.induct)
  case (2 deny d c cs fs)
  show ?case
  proof (cases "map_of fs (d @ [c])")
    case None
    have "names_ok (AList.update (d @ [c]) Dir_node fs)" using "2.prems" by (intro names_update) auto
    then show ?thesis using "2.IH"(1) [OF None] "2.prems" None by simp
  next
    case (Some n)
    then show ?thesis using "2.IH"(2) "2.prems" by (cases n) simp_all
  qed
qed simp

lemma names_MkdirAll: "names_ok fs \<Longrightarrow> names_ok (fst (MkdirAll deny s fs))"
  using path_plain by (simp add: MkdirAll_def names_mkdir_from)

text \<open>Making a directory that a tree of \<open>R\<close> is below of, or that lies in one.\<close>

lemma touches_MkdirAll:
  assumes "r \<in> R" "prefix r (path_of s) \<or> prefix (path_of s) r"
  shows "touches_only R fs (fst (MkdirAll deny s fs))"
proof -
  have "prefix r q \<or> strict_prefix q r" if "prefix q (path_of s)" for q
    using assms(2) that by (metis prefix_order.dual_order.strict_iff_order prefix_order.trans prefix_same_cases)
  then show ?thesis
    using assms(1) mkdir_from_made [of deny "[]" "path_of s" fs] unfolding touches_only_def MkdirAll_def append_Nil by blast
qed

lemma touches_WriteNew: "r \<in> R \<Longrightarrow> prefix r (path_of s) \<Longrightarrow> touches_only R fs (fst (WriteNew deny s perm d fs))"
  by (auto simp: WriteNew_def Let_def touches_only_def update_conv' split: option.splits node.splits)

lemma names_WriteNew: "names_ok fs \<Longrightarrow> names_ok (fst (WriteNew deny s perm d fs))"
  using path_plain [of s] by (auto simp: WriteNew_def Let_def intro!: names_update split: option.splits node.splits)

lemma map_of_moved:
  "\<not> prefix a q \<Longrightarrow> \<not> prefix b q \<Longrightarrow> map_of (map (\<lambda>(p, n). if prefix a p then (b @ drop (length a) p, n) else (p, n)) fs) q = map_of fs q"
  by (induction fs) (auto simp: prefix_def)

lemma Rename_elsewhere:
  "\<not> prefix (path_of old) q \<Longrightarrow> \<not> prefix (path_of new) q \<Longrightarrow> map_of (fst (Rename deny old new fs)) q = map_of fs q"
  using map_of_keyed [of "\<lambda>p. p \<noteq> path_of new" fs q] by (auto simp: Rename_def Let_def map_of_moved)

lemma touches_Rename:
  assumes "r \<in> R" "prefix r (path_of old)" "r' \<in> R" "prefix r' (path_of new)"
  shows "touches_only R fs (fst (Rename deny old new fs))"
  unfolding touches_only_def
proof
  fix q
  show "(\<exists>r \<in> R. prefix r q) \<or> map_of (fst (Rename deny old new fs)) q = map_of fs q
      \<or> (map_of fs q = None \<and> map_of (fst (Rename deny old new fs)) q = Some Dir_node \<and> (\<exists>r \<in> R. strict_prefix q r))"
  proof (cases "prefix (path_of old) q \<or> prefix (path_of new) q")
    case True
    then show ?thesis using assms by (meson prefix_order.trans)
  qed (simp add: Rename_elsewhere)
qed

lemma touches_Remove: "r \<in> R \<Longrightarrow> prefix r (path_of s) \<Longrightarrow> touches_only R fs (Remove deny s fs)"
  by (auto simp: Remove_def touches_only_def delete_conv')

end
