(* ===== verification/Update.thy ===== *)
theory Update
  imports Files
begin

text \<open>
  The connected update of the appliance: \<open>internal/update\<close> (channel, manifest, download, verification,
  extraction, versions) and the command \<open>equate upgrade\<close> (\<open>cmd/equate/upgrade.go\<close>, \<open>deploy.go\<close>).

  What the program gets from elsewhere is the record \<open>host\<close>: the replies of the web servers, the decoding
  of JSON, base64, gzip and tar, SHA-256 and Ed25519, the comparison of versions (\<open>golang.org/x/mod/semver\<close>),
  the typed confirmation and the exit code of the script.  A failure is one of \<open>upd_error\<close>.
\<close>

datatype upd_error = IOError | NotFound | BadConfig | BadEdition | EmptyURL | NotHTTPS | FetchFailed | BadManifest
  | EditionMismatch | ReleaseMissing | NoArtifact | ArtifactIncomplete | BadVersion | VersionMissing | BadKey
  | HashMismatch | BadSignature | BadArchive | UnsafePath | PathEscape | ReleaseEnvMissing

section \<open>The channel\<close>

record channel_config =
  cc_ChannelURL :: string
  cc_Edition :: string

record artifact =
  ar_Artifact :: string
  ar_URL :: string
  ar_SHA256 :: string
  ar_SizeBytes :: int
  ar_Signature :: string

record release =
  re_PublishedAt :: string
  re_MinVersion :: string
  re_Architectures :: "(string, artifact) gomap"

record manifest =
  ma_Channel :: string
  ma_Edition :: string
  ma_Latest :: string
  ma_Releases :: "(string, release) gomap"

definition EditionStandard :: string where "EditionStandard = ''standard''"
definition EditionNoAuth :: string where "EditionNoAuth = ''noauth''"
definition DefaultChannelConfigPath :: string where "DefaultChannelConfigPath = ''/etc/equate/update-channel.conf''"
definition DefaultDownloadDir :: string where "DefaultDownloadDir = ''/var/lib/equate/downloads''"
definition DefaultStagingDir :: string where "DefaultStagingDir = ''/tmp/equate-staging/bundle''"

text \<open>\<open>strings.Cut\<close> at the first \<open>=\<close>.\<close>

fun Cut :: "string \<Rightarrow> (string \<times> string) option" where
  "Cut [] = None"
| "Cut (c # s) = (if c = CHR ''='' then Some ([], s) else map_option (\<lambda>(k, v). (c # k, v)) (Cut s))"

text \<open>\<open>bufio.ScanLines\<close>: the last line may lack its newline, a trailing carriage return is dropped (and every line
  is trimmed anyway).  A line of 64 KiB stops the scanner with an error.\<close>

definition config_line :: "channel_config \<Rightarrow> string \<Rightarrow> channel_config" where
  "config_line cfg raw =
     (let line = trim_space raw in
      if line = [] \<or> prefix ''#'' line \<or> prefix '';'' line then cfg
      else (case Cut line of
          None \<Rightarrow> cfg
        | Some (k, v) \<Rightarrow>
            (let key = trim_space k; val = trim_space v in
             if key = ''channel_url'' then cfg\<lparr>cc_ChannelURL := val\<rparr>
             else if key = ''edition'' then cfg\<lparr>cc_Edition := to_lower val\<rparr>
             else cfg)))"

definition finish_config :: "channel_config \<Rightarrow> upd_error + channel_config" where
  "finish_config cfg =
     (if cc_ChannelURL cfg = [] then Inl BadConfig
      else (let cfg' = (if cc_Edition cfg = [] then cfg\<lparr>cc_Edition := EditionStandard\<rparr> else cfg) in
        if cc_Edition cfg' = EditionStandard \<or> cc_Edition cfg' = EditionNoAuth then Inr cfg' else Inl BadEdition))"

definition LoadChannelConfig :: "string \<Rightarrow> files \<Rightarrow> upd_error + channel_config option" where
  "LoadChannelConfig path0 fs =
     (let path = (if path0 = [] then DefaultChannelConfigPath else path0) in
      if \<not> Exists path fs then Inr None
      else (case ReadFile path fs of
          None \<Rightarrow> Inl IOError
        | Some text \<Rightarrow>
            (let lines = split_on (CHR 0x0A) text in
             if list_ex (\<lambda>l. 65536 \<le> length l) lines then Inl IOError
             else (case finish_config (foldl config_line \<lparr>cc_ChannelURL = [], cc_Edition = EditionStandard\<rparr> lines) of
                 Inl e \<Rightarrow> Inl e
               | Inr cfg \<Rightarrow> Inr (Some cfg)))))"

section \<open>The manifest\<close>

definition Validate :: "manifest \<Rightarrow> upd_error option" where
  "Validate m =
     (if trim_space (ma_Channel m) = [] \<or> trim_space (ma_Edition m) = [] \<or> trim_space (ma_Latest m) = []
        \<or> ma_Releases m = [] \<or> map_of (ma_Releases m) (ma_Latest m) = None
      then Some BadManifest else None)"

definition normalizeArch :: "string \<Rightarrow> string" where
  "normalizeArch arch =
     (let a = to_lower (trim_space arch) in
      if a = ''x86_64'' \<or> a = ''amd64'' then ''amd64''
      else if a = ''aarch64'' \<or> a = ''arm64'' then ''arm64''
      else a)"

definition validateFetchURL :: "string \<Rightarrow> bool \<Rightarrow> upd_error option" where
  "validateFetchURL raw allow =
     (if prefix ''https://'' raw then None
      else if prefix ''http://'' raw then (if allow then None else Some NotHTTPS)
      else Some NotHTTPS)"

definition SelectArtifact :: "manifest \<Rightarrow> string \<Rightarrow> string \<Rightarrow> upd_error + (string \<times> artifact)" where
  "SelectArtifact m edition0 arch0 =
     (let e = to_lower (trim_space edition0); arch = normalizeArch arch0;
          edition = (if e = [] then EditionStandard else e) in
      if \<not> EqualFold (ma_Edition m) edition then Inl EditionMismatch
      else (case map_of (ma_Releases m) (ma_Latest m) of
          None \<Rightarrow> Inl ReleaseMissing
        | Some rel \<Rightarrow>
            (case map_of (re_Architectures rel) arch of
               None \<Rightarrow> Inl NoArtifact
             | Some art \<Rightarrow>
                 if trim_space (ar_URL art) = [] \<or> trim_space (ar_SHA256 art) = [] \<or> trim_space (ar_Signature art) = []
                 then Inl ArtifactIncomplete else Inr (ma_Latest m, art))))"

section \<open>What the program is given\<close>

text \<open>An entry of a tar archive: its name, type, mode and content, and whether the content could be read and
  written in full.\<close>

record tar_entry =
  te_Name :: string
  te_Typeflag :: char
  te_Perm :: nat
  te_Data :: string
  te_Complete :: bool

text \<open>A reply has a status and a body, which may break off; \<open>None\<close> is no reply.\<close>

type_synonym http_reply = "(nat \<times> string \<times> bool) option"

record host =
  ho_deny :: "path \<Rightarrow> bool"
  ho_manifest :: "string \<Rightarrow> http_reply"
  ho_artifact :: "string \<Rightarrow> http_reply"
  ho_json :: "string \<Rightarrow> manifest option"
  ho_base64 :: "string \<Rightarrow> string option"
  ho_untar :: "string \<Rightarrow> (tar_entry list \<times> bool) option"
  ho_sha256 :: "string \<Rightarrow> string"
  ho_ed25519 :: "string \<Rightarrow> string \<Rightarrow> string \<Rightarrow> bool"
  ho_semver_valid :: "string \<Rightarrow> bool"
  ho_semver_compare :: "string \<Rightarrow> string \<Rightarrow> int"
  ho_GOARCH :: string
  ho_deploy_env :: string
  ho_root :: bool
  ho_typed :: string
  ho_exit :: "string list \<Rightarrow> int"

definition FetchManifest :: "host \<Rightarrow> string \<Rightarrow> bool \<Rightarrow> upd_error + manifest" where
  "FetchManifest h url allow =
     (if trim_space url = [] then Inl EmptyURL
      else (case validateFetchURL url allow of
          Some e \<Rightarrow> Inl e
        | None \<Rightarrow>
            (case ho_manifest h url of
               None \<Rightarrow> Inl FetchFailed
             | Some (status, body, whole) \<Rightarrow>
                 if status \<noteq> 200 then Inl FetchFailed
                 else if \<not> whole \<and> length body < 1048576 then Inl FetchFailed
                 else (case ho_json h (take 1048576 body) of
                     None \<Rightarrow> Inl BadManifest
                   | Some m \<Rightarrow> (case Validate m of Some e \<Rightarrow> Inl e | None \<Rightarrow> Inr m)))))"

section \<open>Versions\<close>

fun find_version :: "string list \<Rightarrow> upd_error + string" where
  "find_version [] = Inl VersionMissing"
| "find_version (raw # rest) =
     (let line = trim_space raw in
      if line = [] \<or> prefix ''#'' line then find_version rest
      else (case Cut line of
          None \<Rightarrow> find_version rest
        | Some (k, v) \<Rightarrow>
            if trim_space k = ''EQUATE_VERSION''
            then (if trim_space v = [] then Inl VersionMissing else Inr (trim_space v))
            else find_version rest))"

definition CurrentVersion :: "string \<Rightarrow> files \<Rightarrow> upd_error + string" where
  "CurrentVersion deployDir fs =
     (case ReadFile (strip_slashes deployDir @ ''/release.env'') fs of
        None \<Rightarrow> Inl IOError
      | Some text \<Rightarrow> find_version (split_on (CHR 0x0A) text))"

definition CanonicalSemver :: "string \<Rightarrow> string" where
  "CanonicalSemver v0 =
     (let v = trim_space v0 in if v = [] then [] else if prefix ''v'' v then v else CHR ''v'' # v)"

definition CompareVersions :: "host \<Rightarrow> string \<Rightarrow> string \<Rightarrow> upd_error + int" where
  "CompareVersions h current latest =
     (let c = CanonicalSemver current; l = CanonicalSemver latest in
      if \<not> ho_semver_valid h c \<or> \<not> ho_semver_valid h l then Inl BadVersion else Inr (ho_semver_compare h c l))"

definition UpdateAvailable :: "host \<Rightarrow> string \<Rightarrow> string \<Rightarrow> upd_error + bool" where
  "UpdateAvailable h current latest =
     (case CompareVersions h current latest of Inl e \<Rightarrow> Inl e | Inr cmp \<Rightarrow> Inr (cmp < 0))"

definition MeetsMinVersion :: "host \<Rightarrow> string \<Rightarrow> string \<Rightarrow> upd_error + bool" where
  "MeetsMinVersion h current min0 =
     (let m = trim_space min0 in
      if m = [] then Inr True
      else (case CompareVersions h current m of Inl e \<Rightarrow> Inl e | Inr cmp \<Rightarrow> Inr (cmp \<ge> 0)))"

section \<open>Download\<close>

text \<open>The data goes to a partial file, which takes its final name at the end and is removed on every error.\<close>

definition Download :: "host \<Rightarrow> string \<Rightarrow> string \<Rightarrow> bool \<Rightarrow> files \<Rightarrow> files \<times> upd_error option" where
  "Download h url dest allow fs =
     (case validateFetchURL url allow of
        Some e \<Rightarrow> (fs, Some e)
      | None \<Rightarrow>
          (let (fs1, made) = MkdirAll (ho_deny h) (Dir dest) fs; tmp = dest @ ''.partial'' in
           if \<not> made then (fs1, Some IOError)
           else
             (let (fs2, opened) = WriteNew (ho_deny h) tmp 384 [] fs1 in
              if \<not> opened then (fs2, Some IOError)
              else (case ho_artifact h url of
                  None \<Rightarrow> (Remove (ho_deny h) tmp fs2, Some FetchFailed)
                | Some (status, body, whole) \<Rightarrow>
                    if status \<noteq> 200 then (Remove (ho_deny h) tmp fs2, Some FetchFailed)
                    else
                      (let (fs3, written) = WriteNew (ho_deny h) tmp 384 body fs2 in
                       if \<not> whole \<or> \<not> written then (Remove (ho_deny h) tmp fs3, Some IOError)
                       else
                         (let (fs4, renamed) = Rename (ho_deny h) tmp dest fs3 in
                          if \<not> renamed then (Remove (ho_deny h) tmp fs4, Some IOError) else (fs4, None)))))))"

definition ArtifactDownloadPath :: "string \<Rightarrow> string \<Rightarrow> string" where
  "ArtifactDownloadPath downloadDir artifactName =
     (let dir = (if downloadDir = [] then DefaultDownloadDir else downloadDir);
          base = Base (trim_space artifactName);
          name = (if base = [] \<or> base = ''.'' \<or> base = ''/'' then ''update.eqa'' else base)
      in Join [dir, name])"

section \<open>Verification\<close>

definition hex_digit :: "nat \<Rightarrow> char" where
  "hex_digit n = char_of (if n < 10 then 48 + n else 87 + n)"

fun hex_encode :: "string \<Rightarrow> string" where
  "hex_encode [] = []"
| "hex_encode (c # s) = hex_digit (of_char c div 16) # hex_digit (of_char c mod 16) # hex_encode s"

definition hex_value :: "char \<Rightarrow> nat option" where
  "hex_value c =
     (let n = of_char c :: nat in
      if 48 \<le> n \<and> n \<le> 57 then Some (n - 48)
      else if 97 \<le> n \<and> n \<le> 102 then Some (n - 87)
      else if 65 \<le> n \<and> n \<le> 70 then Some (n - 55)
      else None)"

fun hex_decode :: "string \<Rightarrow> string option" where
  "hex_decode [] = Some []"
| "hex_decode [c] = None"
| "hex_decode (a # b # s) =
     (case (hex_value a, hex_value b, hex_decode s) of
        (Some x, Some y, Some r) \<Rightarrow> Some (char_of (16 * x + y) # r)
      | _ \<Rightarrow> None)"

definition SignaturePrefix :: string where
  "SignaturePrefix = ''EQUATE-EQA-v1'' @ [CHR 0x0A]"

definition EmbeddedPublicKeyHex :: string where
  "EmbeddedPublicKeyHex = ''b7feec191665e7cdf272a3c33bceb6f868033117140011bc5b1aa8223c284281''"

definition ParsePublicKeyHex :: "string \<Rightarrow> upd_error + string" where
  "ParsePublicKeyHex hexKey =
     (case hex_decode (trim_space hexKey) of
        None \<Rightarrow> Inl BadKey
      | Some b \<Rightarrow> if length b \<noteq> 32 then Inl BadKey else Inr b)"

definition PublicKey :: "upd_error + string" where
  "PublicKey = ParsePublicKeyHex EmbeddedPublicKeyHex"

definition FileSHA256 :: "host \<Rightarrow> string \<Rightarrow> files \<Rightarrow> string option" where
  "FileSHA256 h path fs = map_option (\<lambda>d. hex_encode (ho_sha256 h d)) (ReadFile path fs)"

definition SigningMessage :: "string \<Rightarrow> string" where
  "SigningMessage sha = SignaturePrefix @ to_lower (trim_space sha)"

definition Verify :: "host \<Rightarrow> string \<Rightarrow> string \<Rightarrow> string \<Rightarrow> string \<Rightarrow> files \<Rightarrow> upd_error option" where
  "Verify h path expected sig64 pub fs =
     (case FileSHA256 h path fs of
        None \<Rightarrow> Some IOError
      | Some got \<Rightarrow>
          if \<not> EqualFold got (trim_space expected) then Some HashMismatch
          else (case ho_base64 h (trim_space sig64) of
              None \<Rightarrow> Some BadSignature
            | Some sig \<Rightarrow>
                if length pub \<noteq> 32 then Some BadKey
                else if \<not> ho_ed25519 h pub (SigningMessage got) sig then Some BadSignature
                else None))"

section \<open>Extraction\<close>

fun extract_entries :: "host \<Rightarrow> string \<Rightarrow> tar_entry list \<Rightarrow> files \<Rightarrow> files \<times> upd_error option" where
  "extract_entries h staging [] fs = (fs, None)"
| "extract_entries h staging (e # es) fs =
     (let name = Clean (te_Name e) in
      if name = ''.'' \<or> name = [] then extract_entries h staging es fs
      else if IsAbs name \<or> prefix ''../'' name \<or> name = ''..'' then (fs, Some UnsafePath)
      else
        (let target = Join [staging, name] in
         if \<not> prefix (Clean staging @ ''/'') target \<and> target \<noteq> Clean staging then (fs, Some PathEscape)
         else if te_Typeflag e = CHR ''5'' then
           (let (fs1, made) = MkdirAll (ho_deny h) target fs in
            if \<not> made then (fs1, Some IOError) else extract_entries h staging es fs1)
         else if te_Typeflag e = CHR ''0'' \<or> te_Typeflag e = CHR 0x00 then
           (let (fs1, made) = MkdirAll (ho_deny h) (Dir target) fs in
            if \<not> made then (fs1, Some IOError)
            else
              (let mode = (if te_Perm e = 0 then 420 else te_Perm e);
                   (fs2, written) = WriteNew (ho_deny h) target mode (te_Data e) fs1 in
               if \<not> written \<or> \<not> te_Complete e then (fs2, Some IOError) else extract_entries h staging es fs2))
         else extract_entries h staging es fs))"

definition flattenSingleRoot :: "host \<Rightarrow> string \<Rightarrow> files \<Rightarrow> files \<times> upd_error option" where
  "flattenSingleRoot h staging fs =
     (if Exists (Join [staging, ''release.env'']) fs then (fs, None)
      else if \<not> is_dir fs (path_of staging) then (fs, Some IOError)
      else (case subdirs staging fs of
          [d] \<Rightarrow>
            (let dir = Join [staging, d]; tmp = staging @ ''.flatten'' in
             if \<not> Exists (Join [dir, ''release.env'']) fs then (fs, None)
             else
               (let fs1 = fst (RemoveAll (ho_deny h) tmp fs);
                    (fs2, moved) = Rename (ho_deny h) dir tmp fs1 in
                if \<not> moved then (fs2, Some IOError)
                else
                  (let (fs3, removed) = RemoveAll (ho_deny h) staging fs2 in
                   if \<not> removed then (fs3, Some IOError)
                   else
                     (let (fs4, back) = Rename (ho_deny h) tmp staging fs3 in
                      (fs4, if back then None else Some IOError)))))
        | _ \<Rightarrow> (fs, None)))"

definition Extract :: "host \<Rightarrow> string \<Rightarrow> string \<Rightarrow> files \<Rightarrow> files \<times> upd_error option" where
  "Extract h eqa staging0 fs =
     (let staging = (if staging0 = [] then DefaultStagingDir else staging0);
          (fs1, removed) = RemoveAll (ho_deny h) staging fs in
      if \<not> removed then (fs1, Some IOError)
      else
        (let (fs2, made) = MkdirAll (ho_deny h) staging fs1 in
         if \<not> made then (fs2, Some IOError)
         else (case ReadFile eqa fs2 of
             None \<Rightarrow> (fs2, Some IOError)
           | Some bytes \<Rightarrow>
               (case ho_untar h bytes of
                  None \<Rightarrow> (fs2, Some BadArchive)
                | Some (es, ended) \<Rightarrow>
                    (case extract_entries h staging es fs2 of
                       (fs3, Some e) \<Rightarrow> (fs3, Some e)
                     | (fs3, None) \<Rightarrow>
                         if \<not> ended then (fs3, Some BadArchive)
                         else (case flattenSingleRoot h staging fs3 of
                             (fs4, Some e) \<Rightarrow> (fs4, Some e)
                           | (fs4, None) \<Rightarrow>
                               (fs4, if Exists (Join [staging, ''release.env'']) fs4 then None else Some ReleaseEnvMissing)))))))"

end
