(* ===== verification/Upgrade.thy ===== *)
theory Upgrade
  imports Update
begin

text \<open>
  The command \<open>equate upgrade\<close>: \<open>cmd/equate/upgrade.go\<close> and the search for the deployment in
  \<open>cmd/equate/deploy.go\<close>.  A run returns the files, the command it executed (at most one) and the exit code.
\<close>

type_synonym outcome = "files \<times> string list option \<times> int"

text \<open>The flags after parsing.\<close>

record upgrade_flags =
  uf_bundle :: string
  uf_version :: string
  uf_canary :: bool
  uf_rollback :: bool
  uf_yes :: bool
  uf_check :: bool
  uf_url :: string
  uf_sha256 :: string
  uf_signature :: string
  uf_channel_config :: string
  uf_allow_http :: bool

record connectedUpgradeOpts =
  co_checkOnly :: bool
  co_directURL :: string
  co_directSHA256 :: string
  co_directSig :: string
  co_channelConfig :: string
  co_allowHTTP :: bool
  co_canary :: bool
  co_yes :: bool

definition resolveDeployDir :: "host \<Rightarrow> files \<Rightarrow> string option" where
  "resolveDeployDir h fs =
     (if ho_deploy_env h \<noteq> [] then Some (Abs_path (ho_deploy_env h))
      else
        (let named = (case ReadFile ''/etc/equate/deploy-dir'' fs of None \<Rightarrow> [] | Some d \<Rightarrow> trim_space d) in
         if named \<noteq> [] \<and> named \<noteq> ''.'' then Some (Abs_path named)
         else map_option Abs_path (find (\<lambda>d. Exists d fs) [''/opt/equate/current'', ''/opt/equate/releases/current''])))"

definition resolveConfigureScript :: "string \<Rightarrow> string \<Rightarrow> files \<Rightarrow> string option" where
  "resolveConfigureScript deployDir bundle fs =
     find (\<lambda>p. Exists p fs)
       ((if trim_space bundle \<noteq> [] then [Join [bundle, ''scripts'', ''configure-vm.sh'']] else [])
        @ [Join [deployDir, ''scripts'', ''configure-vm.sh''], ''/tmp/equate-staging/configure-vm.sh''])"

definition runConfigureVM :: "host \<Rightarrow> string \<Rightarrow> string list \<Rightarrow> files \<Rightarrow> outcome" where
  "runConfigureVM h script args fs = (fs, Some (script # args), ho_exit h (script # args))"

definition runUpgradeApply :: "host \<Rightarrow> string \<Rightarrow> string \<Rightarrow> string \<Rightarrow> bool \<Rightarrow> bool \<Rightarrow> files \<Rightarrow> outcome" where
  "runUpgradeApply h deployDir bundle version canary yes fs =
     (case resolveConfigureScript deployDir bundle fs of
        None \<Rightarrow> (fs, None, 1)
      | Some script \<Rightarrow>
          if \<not> yes \<and> trim_space (ho_typed h) \<noteq> ''UPGRADE'' then (fs, None, 1)
          else runConfigureVM h script
            ([''--upgrade'', ''--bundle'', bundle, ''--version'', version] @ (if canary then [''--canary''] else [])) fs)"

definition runUpgradeRollback :: "host \<Rightarrow> string \<Rightarrow> bool \<Rightarrow> files \<Rightarrow> outcome" where
  "runUpgradeRollback h deployDir yes fs =
     (case resolveConfigureScript deployDir [] fs of
        None \<Rightarrow> (fs, None, 1)
      | Some script \<Rightarrow>
          if \<not> yes \<and> trim_space (ho_typed h) \<noteq> ''ROLLBACK'' then (fs, None, 1)
          else runConfigureVM h script [''--rollback''] fs)"

definition downloadVerifyAndApply :: "host \<Rightarrow> string \<Rightarrow> string \<Rightarrow> artifact \<Rightarrow> connectedUpgradeOpts \<Rightarrow> files \<Rightarrow> outcome" where
  "downloadVerifyAndApply h deployDir target art opts fs =
     (if ar_SHA256 art = [] \<or> ar_Signature art = [] then (fs, None, 2)
      else if \<not> co_yes opts \<and> trim_space (ho_typed h) \<noteq> ''UPGRADE'' then (fs, None, 1)
      else
        (let dest = ArtifactDownloadPath DefaultDownloadDir (ar_Artifact art) in
         case Download h (ar_URL art) dest (co_allowHTTP opts) fs of
           (fs1, Some e) \<Rightarrow> (fs1, None, 1)
         | (fs1, None) \<Rightarrow>
             (case PublicKey of
                Inl e \<Rightarrow> (fs1, None, 1)
              | Inr pub \<Rightarrow>
                  (case Verify h dest (ar_SHA256 art) (ar_Signature art) pub fs1 of
                     Some e \<Rightarrow> (fs1, None, 1)
                   | None \<Rightarrow>
                       (case Extract h dest DefaultStagingDir fs1 of
                          (fs2, Some e) \<Rightarrow> (fs2, None, 1)
                        | (fs2, None) \<Rightarrow>
                            (case CurrentVersion DefaultStagingDir fs2 of
                               Inl e \<Rightarrow> (fs2, None, 1)
                             | Inr extracted \<Rightarrow>
                                 if target \<noteq> ''unknown'' \<and> extracted \<noteq> target then (fs2, None, 1)
                                 else runUpgradeApply h deployDir DefaultStagingDir extracted (co_canary opts) True fs2))))))"

text \<open>The upgrade without a channel, from the staged bundle.\<close>

definition upgrade_staged :: "host \<Rightarrow> string \<Rightarrow> string \<Rightarrow> connectedUpgradeOpts \<Rightarrow> files \<Rightarrow> outcome" where
  "upgrade_staged h deployDir current opts fs =
     (let localBundle = ''/tmp/equate-staging/bundle'' in
      if co_checkOnly opts then (fs, None, 1)
      else if Exists (Join [localBundle, ''release.env'']) fs then
        (case CurrentVersion localBundle fs of
           Inl e \<Rightarrow> (fs, None, 1)
         | Inr ver \<Rightarrow>
             (case UpdateAvailable h current ver of
                Inl e \<Rightarrow> (fs, None, 1)
              | Inr available \<Rightarrow>
                  if \<not> available then (fs, None, 0)
                  else runUpgradeApply h deployDir localBundle ver (co_canary opts) (co_yes opts) fs))
      else (fs, None, 1))"

text \<open>The upgrade to the latest release of the channel.\<close>

definition upgrade_channel :: "host \<Rightarrow> string \<Rightarrow> string \<Rightarrow> channel_config \<Rightarrow> connectedUpgradeOpts \<Rightarrow> files \<Rightarrow> outcome" where
  "upgrade_channel h deployDir current cfg opts fs =
     (case FetchManifest h (cc_ChannelURL cfg) (co_allowHTTP opts) of
        Inl e \<Rightarrow> (fs, None, 1)
      | Inr man \<Rightarrow>
          (case SelectArtifact man (cc_Edition cfg) (normalizeArch (ho_GOARCH h)) of
             Inl e \<Rightarrow> (fs, None, 1)
           | Inr (latest, art) \<Rightarrow>
               (case (case map_of (ma_Releases man) latest of
                    None \<Rightarrow> Inr True
                  | Some rel \<Rightarrow> MeetsMinVersion h current (re_MinVersion rel)) of
                  Inl e \<Rightarrow> (fs, None, 1)
                | Inr okMin \<Rightarrow>
                    if \<not> okMin then (fs, None, 1)
                    else (case UpdateAvailable h current latest of
                        Inl e \<Rightarrow> (fs, None, 1)
                      | Inr available \<Rightarrow>
                          if \<not> available then (fs, None, 0)
                          else if co_checkOnly opts then (fs, None, 0)
                          else downloadVerifyAndApply h deployDir latest art opts fs))))"

definition runConnectedUpgrade :: "host \<Rightarrow> string \<Rightarrow> connectedUpgradeOpts \<Rightarrow> files \<Rightarrow> outcome" where
  "runConnectedUpgrade h deployDir opts fs =
     (case CurrentVersion deployDir fs of
        Inl e \<Rightarrow> (fs, None, 1)
      | Inr current \<Rightarrow>
          if co_directURL opts \<noteq> [] then
            (if co_checkOnly opts then (fs, None, 2)
             else if co_directSHA256 opts = [] \<or> co_directSig opts = [] then (fs, None, 2)
             else downloadVerifyAndApply h deployDir ''unknown''
               \<lparr>ar_Artifact = Base (co_directURL opts), ar_URL = co_directURL opts, ar_SHA256 = co_directSHA256 opts,
                ar_SizeBytes = 0, ar_Signature = co_directSig opts\<rparr> opts fs)
          else (case LoadChannelConfig (co_channelConfig opts) fs of
              Inl e \<Rightarrow> (fs, None, 1)
            | Inr None \<Rightarrow> upgrade_staged h deployDir current opts fs
            | Inr (Some cfg) \<Rightarrow> upgrade_channel h deployDir current cfg opts fs))"

text \<open>\<open>parsed\<close> is what \<open>flag.Parse\<close> made of the arguments, with the number of arguments left over.\<close>

definition runUpgrade :: "host \<Rightarrow> (upgrade_flags \<times> nat) option \<Rightarrow> files \<Rightarrow> outcome" where
  "runUpgrade h parsed fs =
     (case parsed of
        None \<Rightarrow> (fs, None, 2)
      | Some (f, narg) \<Rightarrow>
          if narg \<noteq> 0 then (fs, None, 2)
          else if \<not> ho_root h then (fs, None, 1)
          else (case resolveDeployDir h fs of
              None \<Rightarrow> (fs, None, 1)
            | Some deployDir \<Rightarrow>
                if uf_rollback f then runUpgradeRollback h deployDir (uf_yes f) fs
                else
                  (let hasBundle = trim_space (uf_bundle f) \<noteq> []; hasVersion = trim_space (uf_version f) \<noteq> [] in
                   if hasBundle \<or> hasVersion then
                     (if \<not> hasBundle \<or> \<not> hasVersion then (fs, None, 2)
                      else runUpgradeApply h deployDir (uf_bundle f) (uf_version f) (uf_canary f) (uf_yes f) fs)
                   else runConnectedUpgrade h deployDir
                     \<lparr>co_checkOnly = uf_check f, co_directURL = trim_space (uf_url f), co_directSHA256 = trim_space (uf_sha256 f),
                      co_directSig = trim_space (uf_signature f), co_channelConfig = uf_channel_config f,
                      co_allowHTTP = uf_allow_http f, co_canary = uf_canary f, co_yes = uf_yes f\<rparr> fs)))"

end
