(* ===== verification/UpdateProps.thy ===== *)
theory UpdateProps
  imports FilesProps Upgrade
begin

text \<open>
  The properties of the update: an archive writes nowhere but into the staging directory, and an upgrade
  over the network runs nothing but a release that was signed with the embedded key.
\<close>

declare Join.simps [simp del]

section \<open>Confinement of the extraction\<close>

lemma entry_target:
  assumes "IsAbs st" "Clean nm \<noteq> ''.''" "\<not> IsAbs (Clean nm)" "\<not> prefix ''../'' (Clean nm)" "Clean nm \<noteq> ''..''"
  shows "prefix (path_of st) (path_of (Join [st, Clean nm]))"
    and "prefix (path_of st) (path_of (Dir (Join [st, Clean nm]))) \<or> prefix (path_of (Dir (Join [st, Clean nm]))) (path_of st)"
proof -
  obtain es where es: "Clean nm = join_slash es" "es \<noteq> []" "\<forall>e \<in> set es. plain_elem e"
    using clean_relative [OF assms(3-5,2)] by blast
  have target: "path_of (Join [st, Clean nm]) = path_of st @ es" "IsAbs (Join [st, Clean nm])"
    using path_Join [OF assms(1) es(2,3)] by (simp_all only: es(1))
  show st: "prefix (path_of st) (path_of (Join [st, Clean nm]))" by (simp add: target(1))
  show "prefix (path_of st) (path_of (Dir (Join [st, Clean nm]))) \<or> prefix (path_of (Dir (Join [st, Clean nm]))) (path_of st)"
    using Dir_path [OF target(2)]
  proof (elim disjE)
    assume "prefix (path_of (Dir (Join [st, Clean nm]))) (path_of (Join [st, Clean nm]))"
    then show ?thesis using st prefix_same_cases by blast
  next
    assume "path_of (Join [st, Clean nm]) = butlast (path_of (Dir (Join [st, Clean nm])))"
    then show ?thesis using st by (metis prefix_order.trans prefixeq_butlast)
  qed (use st in simp)
qed

lemma extract_entries_within:
  assumes "IsAbs st"
  shows "touches_only {path_of st} fs (fst (extract_entries h st es fs)) \<and> (names_ok fs \<longrightarrow> names_ok (fst (extract_entries h st es fs)))"
proof (induction es arbitrary: fs)
  case (Cons e es)
  let ?nm = "Clean (te_Name e)" and ?t = "Join [st, Clean (te_Name e)]"
  let ?ok = "\<lambda>fs'. touches_only {path_of st} fs fs' \<and> (names_ok fs \<longrightarrow> names_ok fs')"
  have rest: "?ok (fst (extract_entries h st es fs'))" if "?ok fs'" for fs' using Cons.IH [of fs'] that touches_trans by blast
  show ?case
  proof (cases "?nm = ''.'' \<or> ?nm = [] \<or> IsAbs ?nm \<or> prefix ''../'' ?nm \<or> ?nm = ''..''")
    case True
    then show ?thesis using Cons.IH [of fs] by (auto simp: Let_def)
  next
    case False
    then have good: "?nm \<noteq> ''.''" "\<not> IsAbs ?nm" "\<not> prefix ''../'' ?nm" "?nm \<noteq> ''..''" "?nm \<noteq> []" by simp_all
    note t = entry_target [OF assms good(1-4)]
    have dir: "?ok (fst (MkdirAll (ho_deny h) ?t fs))" using t(1) touches_MkdirAll names_MkdirAll by simp
    let ?f1 = "fst (MkdirAll (ho_deny h) (Dir ?t) fs)"
    have f1: "?ok ?f1" using t(2) touches_MkdirAll [of "path_of st" "{path_of st}" "Dir ?t"] names_MkdirAll by simp
    have f2: "?ok (fst (WriteNew (ho_deny h) ?t m d ?f1))" for m d
      using f1 touches_trans [OF _ touches_WriteNew [of "path_of st" "{path_of st}" ?t, OF _ t(1)]] names_WriteNew by blast
    have same: "?ok fs" by simp
    consider "\<not> prefix (Clean st @ ''/'') ?t \<and> ?t \<noteq> Clean st"
      | "prefix (Clean st @ ''/'') ?t \<or> ?t = Clean st" "te_Typeflag e = CHR ''5''"
      | "prefix (Clean st @ ''/'') ?t \<or> ?t = Clean st" "te_Typeflag e = CHR ''0'' \<or> te_Typeflag e = CHR 0x00" "te_Typeflag e \<noteq> CHR ''5''"
      | "prefix (Clean st @ ''/'') ?t \<or> ?t = Clean st" "te_Typeflag e \<notin> {CHR ''5'', CHR ''0'', CHR 0x00}" by blast
    then show ?thesis
    proof cases
      case 1
      then show ?thesis using good same by (simp add: Let_def)
    next
      case 2
      then show ?thesis using good dir rest [OF dir] by (simp add: Let_def case_prod_beta)
    next
      case 3
      then have guards: "(\<not> prefix (Clean st @ ''/'') ?t \<and> ?t \<noteq> Clean st) = False" "(te_Typeflag e = CHR ''5'') = False"
        "(te_Typeflag e = CHR ''0'' \<or> te_Typeflag e = CHR 0x00) = True" by blast+
      show ?thesis using good f1 f2 rest [OF f2] by (simp only: extract_entries.simps Let_def guards case_prod_beta) simp
    next
      case 4
      then show ?thesis using good rest [OF same] by (simp add: Let_def)
    qed
  qed
qed simp

lemma subdirs_plain: "names_ok fs \<Longrightarrow> d \<in> set (subdirs s fs) \<Longrightarrow> plain_elem d"
  by (fastforce simp: subdirs_def names_ok_def)

lemma flatten_within:
  assumes "IsAbs st" "names_ok fs"
  shows "touches_only {path_of st, path_of (st @ ''.flatten'')} fs (fst (flattenSingleRoot h st fs))"
proof (cases "\<not> Exists (Join [st, ''release.env'']) fs \<and> is_dir fs (path_of st) \<and> (\<exists>d. subdirs st fs = [d])")
  case False
  then show ?thesis by (auto simp: flattenSingleRoot_def split: list.split)
next
  case True
  then obtain d where d: "subdirs st fs = [d]" by blast
  then have dir: "path_of (Join [st, d]) = path_of st @ [d]" using subdirs_plain [OF assms(2), of d st] path_Join1 [OF assms(1), of d] by simp
  let ?R = "{path_of st, path_of (st @ ''.flatten'')}" and ?tmp = "st @ ''.flatten''"
  let ?f1 = "fst (RemoveAll (ho_deny h) ?tmp fs)"
  let ?f2 = "fst (Rename (ho_deny h) (Join [st, d]) ?tmp ?f1)"
  let ?f3 = "fst (RemoveAll (ho_deny h) st ?f2)"
  have 1: "touches_only ?R fs ?f1" by (rule touches_RemoveAll [of "path_of ?tmp"]) simp_all
  have 2: "touches_only ?R fs ?f2"
    by (rule touches_trans [OF 1]) (rule touches_Rename [of "path_of st" _ _ "path_of ?tmp"], simp_all add: dir)
  have 3: "touches_only ?R fs ?f3" by (rule touches_trans [OF 2]) (rule touches_RemoveAll [of "path_of st"], simp_all)
  have 4: "touches_only ?R fs (fst (Rename (ho_deny h) ?tmp st ?f3))"
    by (rule touches_trans [OF 3]) (rule touches_Rename [of "path_of ?tmp" _ _ "path_of st"], simp_all)
  show ?thesis using True 1 2 3 4 d by (simp add: flattenSingleRoot_def Let_def split_beta)
qed

text \<open>C18: whatever an archive contains, and wherever the extraction stops, no file outside the staging directory and
  its working copy \<open>.flatten\<close> is created, changed or removed; only missing parents of the staging directory are made.\<close>

theorem extract_confined:
  assumes "names_ok fs" "IsAbs staging" "\<not> prefix (path_of staging) p" "\<not> prefix (path_of (staging @ ''.flatten'')) p"
  shows "let fs' = fst (Extract h eqa staging fs) in map_of fs' p = map_of fs p
    \<or> map_of fs p = None \<and> map_of fs' p = Some Dir_node \<and> (strict_prefix p (path_of staging) \<or> strict_prefix p (path_of (staging @ ''.flatten'')))"
proof -
  let ?R = "{path_of staging, path_of (staging @ ''.flatten'')}"
  have st: "staging \<noteq> []" using assms(2) by (auto simp: IsAbs_def)
  let ?f1 = "fst (RemoveAll (ho_deny h) staging fs)" and ?f2 = "fst (MkdirAll (ho_deny h) staging (fst (RemoveAll (ho_deny h) staging fs)))"
  have 1: "touches_only ?R fs ?f1" "names_ok ?f1" using assms(1) by (simp_all add: touches_RemoveAll [of "path_of staging"] names_RemoveAll)
  have 2: "touches_only ?R fs ?f2" "names_ok ?f2"
    using 1 touches_trans [OF 1(1) touches_MkdirAll [of "path_of staging"]] names_MkdirAll by auto
  have 3: "touches_only ?R fs (fst (extract_entries h staging es ?f2))" "names_ok (fst (extract_entries h staging es ?f2))" for es
    using 2 extract_entries_within [OF assms(2)] touches_trans [OF 2(1) touches_mono [of "{path_of staging}" _ _ ?R]] by auto
  have 4: "touches_only ?R fs (fst (flattenSingleRoot h staging (fst (extract_entries h staging es ?f2))))" for es
    using touches_trans [OF 3(1) flatten_within [OF assms(2) 3(2)]] .
  have "touches_only ?R fs (fst (Extract h eqa staging fs))"
    using st 1(1) 2(1) 3(1) 4
    by (simp add: Extract_def Let_def case_prod_beta split: option.split)
  then show ?thesis using assms(3,4) by (auto simp: touches_only_def Let_def)
qed

section \<open>What an upgrade runs\<close>

lemma made_keeps: "map_of fs q = Some n \<Longrightarrow> map_of (fst (MkdirAll deny s fs)) q = Some n"
  using mkdir_from_made [of deny "[]" "path_of s" fs q] by (auto simp: MkdirAll_def)

text \<open>What an extraction leaves in the staging directory comes from the archive alone.\<close>

definition unpacked :: "host \<Rightarrow> string \<Rightarrow> string \<Rightarrow> files \<Rightarrow> bool" where
  "unpacked h st data fs' \<longleftrightarrow> (\<exists>es fs2 fs3. ho_untar h data = Some (es, True)
     \<and> (\<forall>p. strict_prefix (path_of st) p \<longrightarrow> map_of fs2 p = None)
     \<and> extract_entries h st es fs2 = (fs3, None) \<and> flattenSingleRoot h st fs3 = (fs', None))"

lemma Extract_unpacked:
  assumes "Extract h eqa st fs = (fs', None)" "st \<noteq> []" "\<not> prefix (path_of st) (path_of eqa)" "ReadFile eqa fs = Some data"
  shows "unpacked h st data fs'"
proof -
  let ?f1 = "fst (RemoveAll (ho_deny h) st fs)"
  let ?f2 = "fst (MkdirAll (ho_deny h) st ?f1)"
  have removed: "snd (RemoveAll (ho_deny h) st fs)" using assms(1,2) by (auto simp: Extract_def Let_def case_prod_beta split: if_splits)
  then have f1: "map_of ?f1 p = (if prefix (path_of st) p then None else map_of fs p)" for p
    by (simp add: RemoveAll_def map_of_keyed [of "\<lambda>q. \<not> prefix (path_of st) q"] split: if_splits)
  have below: "map_of ?f2 p = None" if "strict_prefix (path_of st) p" for p
  proof -
    have "map_of ?f1 p = None" "\<not> prefix p (path_of st)" using that by (simp_all add: f1)
    then show ?thesis using mkdir_from_made [of "ho_deny h" "[]" "path_of st" ?f1 p] by (simp add: MkdirAll_def)
  qed
  have "ReadFile eqa ?f2 = Some data"
  proof -
    obtain m where "map_of fs (path_of eqa) = Some (File_node m data)"
      using assms(4) by (auto simp: ReadFile_def split: option.splits node.splits)
    then have "map_of ?f2 (path_of eqa) = Some (File_node m data)" by (intro made_keeps) (simp add: f1 assms(3))
    then show ?thesis by (simp add: ReadFile_def)
  qed
  then obtain x where x: "ho_untar h data = Some x" "snd x" "snd (extract_entries h st (fst x) ?f2) = None"
      "flattenSingleRoot h st (fst (extract_entries h st (fst x) ?f2)) = (fs', None)"
    using assms(1,2) removed by (simp add: Extract_def Let_def case_prod_beta prod_eq_iff split: if_splits option.splits)
  have "ho_untar h data = Some (fst x, True)" using x(1,2) by (simp add: prod_eq_iff)
  moreover have "extract_entries h st (fst x) ?f2 = (fst (extract_entries h st (fst x) ?f2), None)" using x(3) by (simp add: prod_eq_iff)
  ultimately show ?thesis using x(4) below unfolding unpacked_def by blast
qed

lemma Base_no_slash: "CHR ''/'' \<notin> set (Base s) \<or> Base s = ''/''"
proof -
  have "CHR ''/'' \<notin> set (last (split_on (CHR ''/'') t))" for t by (rule split_on_elems [OF last_in_set]) simp
  then show ?thesis by (simp add: Base_def Let_def)
qed

lemma download_path: "\<not> prefix (path_of DefaultStagingDir) (path_of (ArtifactDownloadPath DefaultDownloadDir name))"
proof -
  let ?b = "Base (trim_space name)"
  let ?n = "if ?b = [] \<or> ?b = ''.'' \<or> ?b = ''/'' then ''update.eqa'' else ?b"
  have dirs: "path_of DefaultDownloadDir = [''var'', ''lib'', ''equate'', ''downloads'']" by code_simp
  have noslash: "CHR ''/'' \<notin> set ?n" using Base_no_slash [of "trim_space name"] by auto
  have abs: "IsAbs (DefaultDownloadDir @ CHR ''/'' # ?n)" by (simp add: IsAbs_def DefaultDownloadDir_def)
  have "ArtifactDownloadPath DefaultDownloadDir name = Clean (DefaultDownloadDir @ CHR ''/'' # ?n)"
    by (simp add: ArtifactDownloadPath_def Let_def DefaultDownloadDir_def Join.simps)
  then have "path_of (ArtifactDownloadPath DefaultDownloadDir name)
      = rev (clean_step True [''downloads'', ''equate'', ''lib'', ''var''] ?n)"
    using path_Clean [OF abs] path_cat [of DefaultDownloadDir ?n] noslash by (simp add: dirs split_on_word)
  moreover have "path_of DefaultStagingDir = [''tmp'', ''equate-staging'', ''bundle'']" by code_simp
  ultimately show ?thesis by (auto simp: clean_step_def)
qed

text \<open>A release that was signed with the embedded key, verified on the data that was then extracted.\<close>

definition signed_release :: "host \<Rightarrow> string \<Rightarrow> bool" where
  "signed_release h data \<longleftrightarrow> (\<exists>pub sig. PublicKey = Inr pub
     \<and> ho_ed25519 h pub (SigningMessage (hex_encode (ho_sha256 h data))) sig)"

lemma Verify_signed:
  assumes "Verify h path expected sig64 pub fs = None" "PublicKey = Inr pub"
  obtains data where "ReadFile path fs = Some data" "signed_release h data"
  using assms by (auto simp: Verify_def FileSHA256_def signed_release_def split: option.splits if_splits)

lemma apply_runs:
  assumes "runUpgradeApply h deployDir bundle version canary yes fs = (fs', Some cmd, code)"
  shows "fs' = fs \<and> (\<exists>script. resolveConfigureScript deployDir bundle fs = Some script
    \<and> cmd = script # [''--upgrade'', ''--bundle'', bundle, ''--version'', version] @ (if canary then [''--canary''] else []))"
  using assms by (auto simp: runUpgradeApply_def runConfigureVM_def split: option.splits if_splits)

lemma download_runs:
  assumes "downloadVerifyAndApply h deployDir target art opts fs = (fs', Some cmd, code)"
  shows "\<exists>data v script. signed_release h data \<and> unpacked h DefaultStagingDir data fs' \<and> CurrentVersion DefaultStagingDir fs' = Inr v
    \<and> resolveConfigureScript deployDir DefaultStagingDir fs' = Some script \<and> (target = ''unknown'' \<or> v = target)
    \<and> cmd = script # [''--upgrade'', ''--bundle'', DefaultStagingDir, ''--version'', v] @ (if co_canary opts then [''--canary''] else [])"
proof -
  let ?dest = "ArtifactDownloadPath DefaultDownloadDir (ar_Artifact art)"
  obtain fs1 pub fs2 v where run: "PublicKey = Inr pub" "Verify h ?dest (ar_SHA256 art) (ar_Signature art) pub fs1 = None"
      "Extract h ?dest DefaultStagingDir fs1 = (fs2, None)" "CurrentVersion DefaultStagingDir fs2 = Inr v"
      "target = ''unknown'' \<or> v = target" "runUpgradeApply h deployDir DefaultStagingDir v (co_canary opts) True fs2 = (fs', Some cmd, code)"
    using assms by (auto simp: downloadVerifyAndApply_def Let_def split: if_splits prod.splits option.splits sum.splits)
  obtain data where data: "ReadFile ?dest fs1 = Some data" "signed_release h data" by (rule Verify_signed [OF run(2,1)])
  have "DefaultStagingDir \<noteq> []" by (simp add: DefaultStagingDir_def)
  note unpacked = Extract_unpacked [OF run(3) this download_path data(1)]
  show ?thesis using data(2) unpacked run(4,5) apply_runs [OF run(6)] by blast
qed

text \<open>C17: an upgrade over the network, from the channel or from a URL, whatever the servers answer, runs at most one
  command: the configuration script that the search finds, on a bundle that is exactly what was unpacked from data signed with
  the embedded key; from the channel that release is newer than the installed one.\<close>

theorem upgrade_authentic:
  assumes "runConnectedUpgrade h deployDir opts fs = (fs', Some cmd, code)"
    and "co_directURL opts \<noteq> [] \<or> LoadChannelConfig (co_channelConfig opts) fs \<noteq> Inr None"
    and "\<not> ho_semver_valid h ''vunknown''"
  shows "\<exists>data v script. signed_release h data \<and> unpacked h DefaultStagingDir data fs' \<and> CurrentVersion DefaultStagingDir fs' = Inr v
    \<and> resolveConfigureScript deployDir DefaultStagingDir fs' = Some script
    \<and> cmd = script # [''--upgrade'', ''--bundle'', DefaultStagingDir, ''--version'', v] @ (if co_canary opts then [''--canary''] else [])
    \<and> (co_directURL opts = [] \<longrightarrow> (\<exists>current. CurrentVersion deployDir fs = Inr current \<and> UpdateAvailable h current v = Inr True))"
proof -
  obtain current where current: "CurrentVersion deployDir fs = Inr current"
    using assms(1) by (auto simp: runConnectedUpgrade_def split: sum.splits)
  show ?thesis
  proof (cases "co_directURL opts = []")
    case False
    then obtain art where "downloadVerifyAndApply h deployDir ''unknown'' art opts fs = (fs', Some cmd, code)"
      using assms(1) current by (auto simp: runConnectedUpgrade_def split: if_splits)
    from download_runs [OF this] False show ?thesis by blast
  next
    case True
    then obtain cfg where "upgrade_channel h deployDir current cfg opts fs = (fs', Some cmd, code)"
      using assms(1,2) current by (auto simp: runConnectedUpgrade_def split: sum.splits option.splits)
    then obtain latest art where run: "UpdateAvailable h current latest = Inr True"
        "downloadVerifyAndApply h deployDir latest art opts fs = (fs', Some cmd, code)"
      by (auto simp: upgrade_channel_def split: sum.splits prod.splits if_splits)
    have "trim_space ''unknown'' = ''unknown''" by code_simp
    then have "CanonicalSemver ''unknown'' = ''vunknown''" by (simp add: CanonicalSemver_def)
    then have "latest \<noteq> ''unknown''" using run(1) assms(3) by (auto simp: UpdateAvailable_def CompareVersions_def Let_def)
    then show ?thesis using download_runs [OF run(2)] run(1) current by blast
  qed
qed

section \<open>A sample appliance\<close>

definition sample_bundle :: "tar_entry list" where
  "sample_bundle = [\<lparr>te_Name = ''./'', te_Typeflag = CHR ''5'', te_Perm = 493, te_Data = [], te_Complete = True\<rparr>,
     \<lparr>te_Name = ''./release.env'', te_Typeflag = CHR ''0'', te_Perm = 420, te_Data = ''EQUATE_VERSION=1.1.0'', te_Complete = True\<rparr>,
     \<lparr>te_Name = ''scripts//configure-vm.sh'', te_Typeflag = CHR ''0'', te_Perm = 0, te_Data = ''exit 0'', te_Complete = True\<rparr>]"

definition sample_host :: host where
  "sample_host = \<lparr>ho_deny = (\<lambda>_. False), ho_manifest = (\<lambda>_. None), ho_artifact = (\<lambda>u. Some (200, ''archive'', True)), ho_json = (\<lambda>_. None),
     ho_base64 = (\<lambda>s. Some s), ho_untar = (\<lambda>d. if d = ''archive'' then Some (sample_bundle, True) else None),
     ho_sha256 = (\<lambda>d. d), ho_ed25519 = (\<lambda>pub msg sig. sig = ''good''), ho_semver_valid = (\<lambda>v. v \<noteq> ''vunknown''),
     ho_semver_compare = (\<lambda>a b. if a = b then 0 else if a < b then -1 else 1), ho_GOARCH = ''amd64'', ho_deploy_env = [], ho_root = True,
     ho_typed = ''UPGRADE'', ho_exit = (\<lambda>_. 0)\<rparr>"

definition sample_files :: files where
  "sample_files = [([''opt'', ''equate'', ''current'', ''release.env''], File_node 420 ''EQUATE_VERSION=1.0.0'')]"

definition sample_opts :: connectedUpgradeOpts where
  "sample_opts = \<lparr>co_checkOnly = False, co_directURL = ''https://updates/r.eqa'', co_directSHA256 = ''61726368697665'', co_directSig = ''good'',
     co_channelConfig = [], co_allowHTTP = False, co_canary = False, co_yes = True\<rparr>"

lemma sample_paths:
  "path_of ''/opt/equate/current/release.env'' = [''opt'', ''equate'', ''current'', ''release.env'']"
  "path_of ''/var/lib/equate/downloads'' = [''var'', ''lib'', ''equate'', ''downloads'']"
  "path_of ''/var/lib/equate/downloads/r.eqa'' = [''var'', ''lib'', ''equate'', ''downloads'', ''r.eqa'']"
  "path_of ''/var/lib/equate/downloads/r.eqa.partial'' = [''var'', ''lib'', ''equate'', ''downloads'', ''r.eqa.partial'']"
  "path_of ''/tmp/equate-staging/bundle'' = [''tmp'', ''equate-staging'', ''bundle'']"
  "path_of ''/tmp/equate-staging/bundle/release.env'' = [''tmp'', ''equate-staging'', ''bundle'', ''release.env'']"
  "path_of ''/tmp/equate-staging/bundle/scripts'' = [''tmp'', ''equate-staging'', ''bundle'', ''scripts'']"
  "path_of ''/tmp/equate-staging/bundle/scripts/configure-vm.sh'' = [''tmp'', ''equate-staging'', ''bundle'', ''scripts'', ''configure-vm.sh'']"
  by code_simp+

lemma sample_texts:
  "Base ''https://updates/r.eqa'' = ''r.eqa''"
  "ArtifactDownloadPath DefaultDownloadDir ''r.eqa'' = ''/var/lib/equate/downloads/r.eqa''"
  "Dir ''/var/lib/equate/downloads/r.eqa'' = ''/var/lib/equate/downloads''"
  "strip_slashes ''/opt/equate/current'' = ''/opt/equate/current''"
  "strip_slashes ''/tmp/equate-staging/bundle'' = ''/tmp/equate-staging/bundle''"
  "Clean ''./'' = ''.''" "Clean ''./release.env'' = ''release.env''" "Clean ''scripts//configure-vm.sh'' = ''scripts/configure-vm.sh''"
  "Clean ''/tmp/equate-staging/bundle'' = ''/tmp/equate-staging/bundle''"
  "Join [''/tmp/equate-staging/bundle'', ''release.env''] = ''/tmp/equate-staging/bundle/release.env''"
  "Join [''/tmp/equate-staging/bundle'', ''scripts/configure-vm.sh''] = ''/tmp/equate-staging/bundle/scripts/configure-vm.sh''"
  "Join [''/tmp/equate-staging/bundle'', ''scripts'', ''configure-vm.sh''] = ''/tmp/equate-staging/bundle/scripts/configure-vm.sh''"
  "Dir ''/tmp/equate-staging/bundle/scripts/configure-vm.sh'' = ''/tmp/equate-staging/bundle/scripts''"
  "Dir ''/tmp/equate-staging/bundle/release.env'' = ''/tmp/equate-staging/bundle''"
  "find_version (split_on (CHR 0x0A) ''EQUATE_VERSION=1.0.0'') = Inr ''1.0.0''"
  "find_version (split_on (CHR 0x0A) ''EQUATE_VERSION=1.1.0'') = Inr ''1.1.0''"
  "hex_encode ''archive'' = ''61726368697665''" "trim_space ''61726368697665'' = ''61726368697665''" "trim_space ''good'' = ''good''"
  by code_simp+

lemma sample_trim: "trim_space ''/tmp/equate-staging/bundle'' = ''/tmp/equate-staging/bundle''"
  by code_simp

lemma sample_key: "\<exists>pub. PublicKey = Inr pub \<and> length pub = 32"
proof -
  have "trim_space EmbeddedPublicKeyHex = EmbeddedPublicKeyHex" by code_simp
  moreover have "hex_decode EmbeddedPublicKeyHex \<noteq> None \<and> map_option length (hex_decode EmbeddedPublicKeyHex) = Some 32"
    by (simp add: EmbeddedPublicKeyHex_def hex_value_def)
  ultimately show ?thesis by (auto simp: PublicKey_def ParsePublicKeyHex_def)
qed

definition downloaded :: files where
  "downloaded = sample_files @ [([''var''], Dir_node), ([''var'', ''lib''], Dir_node), ([''var'', ''lib'', ''equate''], Dir_node),
     ([''var'', ''lib'', ''equate'', ''downloads''], Dir_node), ([''var'', ''lib'', ''equate'', ''downloads'', ''r.eqa''], File_node 384 ''archive'')]"

lemma sample_download: "Download sample_host ''https://updates/r.eqa'' ''/var/lib/equate/downloads/r.eqa'' False sample_files = (downloaded, None)"
  by (simp add: Download_def validateFetchURL_def sample_host_def sample_texts MkdirAll_def sample_paths sample_files_def
      WriteNew_def is_dir_def Rename_def downloaded_def)

definition extracted :: files where
  "extracted = downloaded @ [([''tmp''], Dir_node), ([''tmp'', ''equate-staging''], Dir_node), ([''tmp'', ''equate-staging'', ''bundle''], Dir_node),
     ([''tmp'', ''equate-staging'', ''bundle'', ''release.env''], File_node 420 ''EQUATE_VERSION=1.1.0''),
     ([''tmp'', ''equate-staging'', ''bundle'', ''scripts''], Dir_node),
     ([''tmp'', ''equate-staging'', ''bundle'', ''scripts'', ''configure-vm.sh''], File_node 420 ''exit 0'')]"

lemma sample_extract: "Extract sample_host ''/var/lib/equate/downloads/r.eqa'' DefaultStagingDir downloaded = (extracted, None)"
  by (simp add: Extract_def DefaultStagingDir_def Let_def sample_host_def sample_paths RemoveAll_def downloaded_def sample_files_def
      MkdirAll_def ReadFile_def sample_bundle_def sample_texts IsAbs_def WriteNew_def is_dir_def flattenSingleRoot_def Exists_def extracted_def)

lemma sample_run: "runConnectedUpgrade sample_host ''/opt/equate/current'' sample_opts sample_files
  = (extracted, Some [''/tmp/equate-staging/bundle/scripts/configure-vm.sh'', ''--upgrade'', ''--bundle'', ''/tmp/equate-staging/bundle'',
      ''--version'', ''1.1.0''], 0)"
proof -
  obtain pub where pub: "PublicKey = Inr pub" "length pub = 32" using sample_key by blast
  have verify: "Verify sample_host ''/var/lib/equate/downloads/r.eqa'' ''61726368697665'' ''good'' pub downloaded = None"
    using pub(2) by (simp add: Verify_def FileSHA256_def ReadFile_def sample_paths downloaded_def sample_files_def sample_host_def sample_texts EqualFold_def del: hex_encode.simps)
  have current: "CurrentVersion ''/opt/equate/current'' sample_files = Inr ''1.0.0''"
    by (simp add: CurrentVersion_def sample_texts ReadFile_def sample_paths sample_files_def del: find_version.simps split_on.simps)
  have new: "CurrentVersion DefaultStagingDir extracted = Inr ''1.1.0''"
    by (simp add: CurrentVersion_def DefaultStagingDir_def sample_texts ReadFile_def sample_paths extracted_def downloaded_def sample_files_def
        del: find_version.simps split_on.simps)
  have script: "resolveConfigureScript d DefaultStagingDir extracted = Some ''/tmp/equate-staging/bundle/scripts/configure-vm.sh''" for d
    by (simp add: resolveConfigureScript_def DefaultStagingDir_def sample_trim sample_texts Exists_def sample_paths extracted_def downloaded_def sample_files_def)
  show ?thesis
    by (simp add: runConnectedUpgrade_def current sample_opts_def downloadVerifyAndApply_def Let_def sample_texts sample_download pub(1) verify
        sample_extract new runUpgradeApply_def script runConfigureVM_def) (simp add: sample_host_def DefaultStagingDir_def)
qed
lemma upgrade_authentic_witness:
  "fst (snd (runConnectedUpgrade sample_host ''/opt/equate/current'' sample_opts sample_files)) \<noteq> None
    \<and> (\<exists>data v. signed_release sample_host data \<and> unpacked sample_host DefaultStagingDir data extracted
      \<and> CurrentVersion DefaultStagingDir extracted = Inr v)"
proof -
  have "co_directURL sample_opts \<noteq> []" "\<not> ho_semver_valid sample_host ''vunknown''" by (simp_all add: sample_opts_def sample_host_def)
  then show ?thesis using upgrade_authentic [OF sample_run] by (simp add: sample_run) blast
qed

definition hostile_host :: host where
  "hostile_host = sample_host\<lparr>ho_untar := (\<lambda>d. Some
     (\<lparr>te_Name = ''a/../../../../opt/equate/current/release.env'', te_Typeflag = CHR ''0'', te_Perm = 511, te_Data = ''EQUATE_VERSION=6.6.6'',
        te_Complete = True\<rparr> # sample_bundle, True))\<rparr>"

lemma extract_confined_witness:
  "map_of (fst (Extract hostile_host ''/var/lib/equate/downloads/r.eqa'' ''/tmp/equate-staging/bundle'' downloaded))
      [''opt'', ''equate'', ''current'', ''release.env''] = Some (File_node 420 ''EQUATE_VERSION=1.0.0'')"
proof -
  have names: "names_ok downloaded" by (simp add: names_ok_def downloaded_def sample_files_def plain_elem_def)
  have flat: "path_of (''/tmp/equate-staging/bundle'' @ ''.flatten'') = [''tmp'', ''equate-staging'', ''bundle.flatten'']" by code_simp
  have abs: "IsAbs ''/tmp/equate-staging/bundle''" by (simp add: IsAbs_def)
  have "map_of downloaded [''opt'', ''equate'', ''current'', ''release.env''] = Some (File_node 420 ''EQUATE_VERSION=1.0.0'')"
    by (simp add: downloaded_def sample_files_def)
  then show ?thesis
    using extract_confined [OF names abs, of "[''opt'', ''equate'', ''current'', ''release.env'']" hostile_host "''/var/lib/equate/downloads/r.eqa''"]
    unfolding flat sample_paths by (simp add: Let_def)
qed

section \<open>The staged bundle\<close>

text \<open>Without a channel an upgrade runs the script of whatever bundle lies in the staging directory below \<open>/tmp\<close>,
  as long as it calls itself newer: no hash and no signature is checked.\<close>

theorem staged_unverified:
  assumes "co_directURL opts = []" "LoadChannelConfig (co_channelConfig opts) fs = Inr None" "\<not> co_checkOnly opts"
    and "co_yes opts \<or> trim_space (ho_typed h) = ''UPGRADE''" "CurrentVersion deployDir fs = Inr current"
    and "CurrentVersion ''/tmp/equate-staging/bundle'' fs = Inr v" "UpdateAvailable h current v = Inr True"
    and "Exists ''/tmp/equate-staging/bundle/release.env'' fs" "Exists ''/tmp/equate-staging/bundle/scripts/configure-vm.sh'' fs"
  shows "fst (snd (runConnectedUpgrade (h\<lparr>ho_sha256 := sha, ho_ed25519 := check\<rparr>) deployDir opts fs))
    = Some (''/tmp/equate-staging/bundle/scripts/configure-vm.sh'' # [''--upgrade'', ''--bundle'', ''/tmp/equate-staging/bundle'', ''--version'', v]
        @ (if co_canary opts then [''--canary''] else []))"
proof -
  let ?h = "h\<lparr>ho_sha256 := sha, ho_ed25519 := check\<rparr>"
  have newer: "UpdateAvailable ?h current v = Inr True" using assms(7) by (simp add: UpdateAvailable_def CompareVersions_def Let_def split: if_splits)
  have script: "resolveConfigureScript deployDir ''/tmp/equate-staging/bundle'' fs = Some ''/tmp/equate-staging/bundle/scripts/configure-vm.sh''"
    using assms(9) by (simp add: resolveConfigureScript_def sample_trim sample_texts)
  have "runUpgradeApply ?h deployDir ''/tmp/equate-staging/bundle'' v (co_canary opts) (co_yes opts) fs
      = runConfigureVM ?h ''/tmp/equate-staging/bundle/scripts/configure-vm.sh''
          ([''--upgrade'', ''--bundle'', ''/tmp/equate-staging/bundle'', ''--version'', v] @ (if co_canary opts then [''--canary''] else [])) fs"
    using assms(4) by (auto simp: runUpgradeApply_def script)
  then show ?thesis
    using assms(1-3,5,6,8) newer by (simp add: runConnectedUpgrade_def upgrade_staged_def Let_def sample_texts runConfigureVM_def)
qed

lemma staged_unverified_witness:
  "fst (snd (runConnectedUpgrade (sample_host\<lparr>ho_sha256 := (\<lambda>_. []), ho_ed25519 := (\<lambda>_ _ _. False)\<rparr>) ''/opt/equate/current''
      (sample_opts\<lparr>co_directURL := []\<rparr>) extracted))
    = Some [''/tmp/equate-staging/bundle/scripts/configure-vm.sh'', ''--upgrade'', ''--bundle'', ''/tmp/equate-staging/bundle'', ''--version'', ''1.1.0'']"
proof -
  let ?o = "sample_opts\<lparr>co_directURL := []\<rparr>"
  have path: "path_of DefaultChannelConfigPath = [''etc'', ''equate'', ''update-channel.conf'']" by code_simp
  have channel: "LoadChannelConfig (co_channelConfig ?o) extracted = Inr None"
    by (simp add: LoadChannelConfig_def sample_opts_def Exists_def path extracted_def downloaded_def sample_files_def)
  have current: "CurrentVersion ''/opt/equate/current'' extracted = Inr ''1.0.0''"
      "CurrentVersion ''/tmp/equate-staging/bundle'' extracted = Inr ''1.1.0''"
    by (simp_all add: CurrentVersion_def sample_texts ReadFile_def sample_paths extracted_def downloaded_def sample_files_def
        del: find_version.simps split_on.simps)
  have semver: "CanonicalSemver ''1.0.0'' = ''v1.0.0''" "CanonicalSemver ''1.1.0'' = ''v1.1.0''" by code_simp+
  have newer: "UpdateAvailable sample_host ''1.0.0'' ''1.1.0'' = Inr True"
    by (simp add: UpdateAvailable_def CompareVersions_def semver) (simp add: sample_host_def less_char_def)
  have there: "Exists ''/tmp/equate-staging/bundle/release.env'' extracted" "Exists ''/tmp/equate-staging/bundle/scripts/configure-vm.sh'' extracted"
    by (simp_all add: Exists_def sample_paths extracted_def downloaded_def sample_files_def)
  have opts: "co_directURL ?o = []" "\<not> co_checkOnly ?o" "co_yes ?o \<or> trim_space (ho_typed sample_host) = ''UPGRADE''" "\<not> co_canary ?o"
    by (simp_all add: sample_opts_def)
  show ?thesis using staged_unverified [OF opts(1) channel opts(2,3) current newer there] opts(4) by simp
qed

section \<open>The check\<close>

text \<open>\<open>--check\<close> runs nothing and changes nothing when it is used alone or with a URL; with a bundle, a version or a
  rollback it is ignored.\<close>

theorem check_runs_nothing:
  assumes "uf_check f" "\<not> uf_rollback f" "trim_space (uf_bundle f) = []" "trim_space (uf_version f) = []"
  shows "fst (runUpgrade h (Some (f, n)) fs) = fs \<and> fst (snd (runUpgrade h (Some (f, n)) fs)) = None"
  using assms by (auto simp: runUpgrade_def runConnectedUpgrade_def upgrade_staged_def upgrade_channel_def Let_def split: option.splits sum.splits)

theorem check_ignored:
  assumes "uf_rollback f \<or> trim_space (uf_bundle f) \<noteq> [] \<or> trim_space (uf_version f) \<noteq> []"
  shows "runUpgrade h (Some (f\<lparr>uf_check := b\<rparr>, n)) fs = runUpgrade h (Some (f, n)) fs"
  using assms by (auto simp: runUpgrade_def Let_def split: option.split)

end
