(* ===== verification/Spec2Isabelle.thy ===== *)
theory Spec2Isabelle
  imports HealthProps ConfigProps OutboxProps AuthProps SitesProps PollerProps IngestProps ControlProps TopologyProps DiscoveryProps RetentionProps UpdateProps
begin

text \<open>
  A model of the Equate monitoring appliance, and the theorems that make it correct.

  \<^bold>\<open>The program.\<close>  A collector (\<open>services/snmp-collector\<close>) runs for each site.  It polls the devices of its
  inventory over SNMP, keeps a ledger of their health, and writes telemetry and health events to a
  durable outbox (an SQLite table), from which a publisher sends them over MQTT to the ingestion service
  (\<open>services/ingestion-service\<close>).  That service validates each message, stores it in PostgreSQL and
  acknowledges it; a job of it deletes old rows.  The backend (\<open>services/backend-api\<close>) authenticates
  the users of the dashboard and derives the status of devices and sites from the stored rows.  The
  operator changes a collector through its control socket: each change is prepared, confirmed, committed
  to the managed inventory file, and takes effect when the configuration is loaded again.  A scan of the
  allowed networks finds new devices and infers from their neighbour tables which depends on which.  The
  command \<open>equate upgrade\<close> replaces the appliance by a signed release from an update channel.

  \<^bold>\<open>The theories, in the order of the data.\<close>

  \<^item> \<open>Prelude\<close>: what all components share.  A Go map is an association list; the locale \<open>go_map\<close> states
    the laws the components use of a map and is interpreted as \<open>gm\<close> on association lists.  Strings are
    character lists with Go's \<open>strings.TrimSpace\<close>, \<open>Split\<close> and so on; instants and durations are
    integers of nanoseconds; a \<open>float64\<close> is a real number, an infinity or NaN.
  \<^item> \<open>Inventory\<close>, \<open>Config\<close>, \<open>Managed\<close> (\<open>internal/config/config.go\<close>, \<open>snapshot.go\<close>): devices, overlays and
    their merge, the check of the dependencies, the validation and the loading of a configuration, the
    managed file and its reload.  The state is the static file, the environment and the managed file as
    decoded values.
  \<^item> \<open>HealthTracker\<close> (\<open>internal/health\<close>): the ledger \<open>Tracker\<close> and every operation on it.
    \<open>HealthOrder\<close> shows the evaluation order to be topological, \<open>HealthWalk\<close> what the search
    for root causes finds, \<open>HealthCorrelation\<close> and \<open>HealthVerdict\<close> that a batch computes a state
    that is specified only by outcomes and dependencies.
  \<^item> \<open>Snmp\<close>, \<open>Vendors\<close>, \<open>Polling\<close>, \<open>Poller\<close> (\<open>internal/snmp\<close>, \<open>internal/poller\<close>, \<open>internal/status\<close>): the
    walks over a device's tables, the vendor profiles, the interface filter, a poll and the cycle of polls.
    \<open>Float64\<close> has the rounding arithmetic that the averages and percentages need.
  \<^item> \<open>Telemetry\<close>, \<open>Json\<close> (\<open>internal/telemetry\<close>, \<open>internal/mqtttopics\<close>): the events, their topics and their
    JSON members.  \<open>Ingest\<close> (\<open>internal/validate\<close>) is the decoding and the validation on the other side;
    \<open>Wire\<close> and \<open>WireTelemetry\<close> show that the decoder reads what the encoder writes, \<open>ContractProps\<close> and
    \<open>TelemetryProps\<close> which events are accepted.
  \<^item> \<open>Outbox\<close> (\<open>internal/buffer\<close>, \<open>internal/publisher\<close>): the rows with their autoincrement key, enqueueing,
    the transaction of a batch, flushing and draining.  The locale \<open>fifo_store\<close> is the contract of the table, interpreted as \<open>outbox\<close>.
  \<^item> \<open>Transform\<close>, \<open>IngestStore\<close> (\<open>internal/transform\<close>, \<open>internal/store\<close>, \<open>internal/handler\<close>): the samples, the
    statements of each transaction over tables as maps from primary keys, with the conflict clauses, the
    column limits of the migrations and the failures of the database, and the acknowledgement.
  \<^item> \<open>Retention\<close> (\<open>internal/retention\<close>): the deletion of old rows in batches.
  \<^item> \<open>Sites\<close> (\<open>internal/derive\<close>): the status the API shows for devices and sites, and the site graph.
  \<^item> \<open>Auth\<close> (\<open>internal/auth\<close>): the login rate limiter, the sessions, the handlers and the middleware.  The
    locale \<open>session_contract\<close> is what they need of the session table, interpreted as \<open>pg\<close>.
  \<^item> \<open>Review\<close>, \<open>Control\<close> (\<open>internal/discovery/review.go\<close>, \<open>internal/control\<close>): pending confirmations, and the
    prepare and commit of thresholds, alerting, dependencies, filters, discovery policy and enrolment
    over the state of disk, configuration in use and confirmations.  \<open>ManagedProps\<close> gives in closed form which
    managed files load.
  \<^item> \<open>Topology\<close> (\<open>internal/topology\<close>) and \<open>Discovery\<close> (\<open>internal/discovery/discovery.go\<close>): the inference of
    dependencies, and the targets, probes and results of a scan.  The sender, the workers and the canceller of
    a scan are the step relation \<open>pool_step\<close>, and \<open>Scan\<close> holds of the results of its complete runs.
  \<^item> \<open>Files\<close>, \<open>Update\<close>, \<open>Upgrade\<close> (\<open>internal/update\<close>, \<open>cmd/equate/upgrade.go\<close>): a tree of files with the operations
    of \<open>os\<close> and \<open>path/filepath\<close> that the update uses; the channel, the manifest, download, verification and
    extraction of a release; the command that chooses, checks and starts an upgrade.  \<open>FilesProps\<close> has the
    frame lemmas of the file operations.

  \<^bold>\<open>What the theorems show.\<close>  The theories whose name ends in \<open>Props\<close> hold the properties.

  \<^item> Health: the states a batch computes are the specified ones, when it returns, which events it emits,
    and that one reload of an accepted configuration makes it run for ever.
  \<^item> Delivery: the outbox loses and reorders nothing, a batch is all or nothing, and with redelivery and database
    failures in any order the store holds each event once; current rows are the newest of their history, also
    when the retention job prunes the history in between.
  \<^item> The wire: topics and payloads come back as they were sent, and which polls are accepted.
  \<^item> Configuration and control: what an accepted configuration satisfies, that interleaved requests keep the file
    loadable except by the two ways that are shown to break it, and that what is committed was confirmed.
  \<^item> Authentication: which requests reach the protected API, sessions after logout, the lock-out.
  \<^item> Discovery: the targets are exactly the allowed networks, and the inferred edges form an inventory the
    configuration accepts; a scan ends and returns each target once in every interleaving.  Retention: recent
    rows survive every failure, old ones go when nothing fails.
  \<^item> Update: an archive cannot write outside its staging directory, and what a network upgrade runs is a
    signed release; without a channel the staged bundle is run unchecked.

  \<^bold>\<open>Recursion, bounds and parameters.\<close>  The walks that the code does not bound (\<open>walk\<close> of the tracker,
  \<open>walk_sites\<close> of the site graph) are partial functions into an option, where None is not returning;
  that they return is a theorem under acyclicity.  The breadth-first search of \<open>Topology\<close> has the number of devices
  plus one as fuel and \<open>search_done\<close> shows that it ends with an empty queue.  The expansion of a network and the loop
  of the retention job have measures, and so has a scan: \<open>pool_measure\<close> falls with every step of its goroutines.  What the code takes from elsewhere is an argument: the SNMP session, the clock,
  random bytes and hashes, the verdicts of broker and database, regular expressions, the parsing of addresses, of UUIDs
  and of times, the order of map ranges, the comparison of versions, the contents of archives.  Named hypotheses say what
  is used of them, such as \<open>yaml_keeps\<close> (a document that is written is read back) and \<open>addresses_agree\<close> (the two
  address parsers of Go agree on addresses without a zone).  Each database call of a request of the backend may
  fail on its own (\<open>db_call\<close>), as may each statement of a transaction.  Locks make an operation one
  step; where the code reads outside its lock (the dependency commit) the steps are separate.

  \<^bold>\<open>Not modelled.\<close>  The SNMP sessions themselves, the MQTT client and subscriber callbacks with their TLS
  settings, and the verification of Google tokens call third-party packages.  The SQL queries of the read API
  render rows of the database.  The terminal interface, the setup wizard and the command-line programs
  are presentation, host set-up and wiring.  Of the control plane the read-only views, the socket and the audit
  file are left out; of the scan the token bucket, whose behaviour is in time only; file paths and permissions
  of the configuration; metrics and logs everywhere; the frontend and the scripts are other languages.
\<close>

end
